(* ===== verification/Ax_Prelude.thy ===== *)
theory Ax_Prelude
  imports Main "HOL-Library.Char_ord" "HOL-Library.List_Lexorder" "HOL-Library.Multiset"
begin

text \<open>
  Shared vocabulary of the development: the types every component uses, the
  \<^theory_text>\<open>named_theorems\<close> collections that carry the component proofs, and the
  generic facts on lists, options and association lists that more than one
  component needs. A Go string is a list of bytes, so the model uses
  \<^typ>\<open>string\<close> (a \<^typ>\<open>char list\<close>, one \<^typ>\<open>char\<close> per byte); the
  imported orders on \<^typ>\<open>char\<close> and lists are Go's byte-wise order on strings.
\<close>

section \<open>Collections and type names\<close>

named_theorems ax_defs \<open>definitions of small wrappers that proofs unfold together\<close>
named_theorems ax_bounds \<open>length and range facts\<close>

type_synonym gostring = string
type_synonym annotations = "string \<rightharpoonup> string"

section \<open>First failure wins\<close>

text \<open>
  Go's chain of \<^verbatim>\<open>if v := check(...); v != nil { return v }\<close>: the first check
  that reports something decides the result.
\<close>

fun first_some :: "'a option list \<Rightarrow> 'a option" where
  "first_some [] = None"
| "first_some (None # xs) = first_some xs"
| "first_some (Some x # xs) = Some x"

lemma first_some_None_iff [simp]: "first_some xs = None \<longleftrightarrow> (\<forall>x \<in> set xs. x = None)"
  by (induction xs rule: first_some.induct) auto

lemma first_some_append [simp]:
  "first_some (xs @ ys) = (case first_some xs of None \<Rightarrow> first_some ys | Some v \<Rightarrow> Some v)"
  by (induction xs rule: first_some.induct) auto

lemma first_some_SomeD: "first_some xs = Some v \<Longrightarrow> Some v \<in> set xs"
  by (induction xs rule: first_some.induct) auto

lemma first_some_eq_SomeE:
  assumes "first_some xs = Some v"
  obtains ys zs where "xs = ys @ Some v # zs" and "\<forall>y \<in> set ys. y = None"
  using assms
proof (induction xs arbitrary: thesis rule: first_some.induct)
  case 1
  then show ?case by simp
next
  case (2 xs)
  then obtain ys zs where "xs = ys @ Some v # zs" "\<forall>y \<in> set ys. y = None"
    by auto
  then show ?case by (intro "2.prems"(1) [of "None # ys" zs]) auto
next
  case (3 x xs)
  then show ?case by (intro "3.prems"(1) [of "[]" xs]) auto
qed

section \<open>Options applied left to right\<close>

text \<open>
  A functional option is a state transformer; \<^verbatim>\<open>for _, opt := range opts { opt(&cfg) }\<close>
  applies them in order.
\<close>

definition apply_opts :: "('a \<Rightarrow> 'a) list \<Rightarrow> 'a \<Rightarrow> 'a" where
  "apply_opts opts cfg = foldl (\<lambda>c opt. opt c) cfg opts"

lemma apply_opts_Nil [simp]: "apply_opts [] c = c"
  by (simp add: apply_opts_def)

lemma apply_opts_Cons [simp]: "apply_opts (f # fs) c = apply_opts fs (f c)"
  by (simp add: apply_opts_def)

lemma apply_opts_append [simp]: "apply_opts (fs @ gs) c = apply_opts gs (apply_opts fs c)"
  by (simp add: apply_opts_def)

lemma apply_opts_invariant:
  assumes "P c" and "\<And>f x. f \<in> set fs \<Longrightarrow> P x \<Longrightarrow> P (f x)"
  shows "P (apply_opts fs c)"
  using assms by (induction fs arbitrary: c) auto

section \<open>Lists\<close>

lemma take_drop_append: "i \<le> length xs \<Longrightarrow> take (j - i) (drop i xs) @ drop j xs = drop i xs"
  if "i \<le> j" for i j
  using that by (metis append_take_drop_id drop_drop le_add_diff_inverse2)

lemma filter_partition_length:
  "length (filter P xs) + length (filter (\<lambda>x. \<not> P x) xs) = length xs"
  by (induction xs) auto

lemma distinct_map_filterI: "distinct (map f xs) \<Longrightarrow> distinct (map f (filter P xs))"
  by (induction xs) auto

lemma sorted_distinct_strict:
  "sorted (xs :: 'a :: linorder list) \<Longrightarrow> distinct xs \<Longrightarrow> sorted_wrt (<) xs"
  by (simp add: strict_sorted_iff)

text \<open>Grouping by a key and concatenating the groups permutes the list.\<close>

lemma mset_concat_groups:
  assumes "distinct ks" and "g ` set xs \<subseteq> set ks"
  shows "mset (concat (map (\<lambda>k. map f (filter (\<lambda>x. g x = k) xs)) ks)) = mset (map f xs)"
  using assms
proof (induction ks arbitrary: xs)
  case (Cons k ks)
  let ?rest = "filter (\<lambda>x. g x \<noteq> k) xs"
  let ?group = "\<lambda>ys k'. map f (filter (\<lambda>x. g x = k') ys)"
  have same: "map (?group xs) ks = map (?group ?rest) ks"
    using Cons.prems(1) by (auto intro!: arg_cong [of _ _ "map f"] filter_cong)
  have ih: "mset (concat (map (?group ?rest) ks)) = mset (map f ?rest)"
    using Cons.prems by (intro Cons.IH) auto
  have split: "mset (?group xs k) + mset (map f ?rest) = mset (map f xs)"
    by (induction xs) auto
  have "mset (concat (map (?group xs) (k # ks))) = mset (?group xs k) + mset (concat (map (?group xs) ks))"
    by simp
  also have "\<dots> = mset (map f xs)"
    unfolding same ih by (rule split)
  finally show ?case .
qed simp

lemma sort_distinct_set:
  "distinct xs \<Longrightarrow> sort xs = sorted_list_of_set (set xs)"
  by (simp add: sorted_list_of_set_sort_remdups distinct_remdups_id)

text \<open>With distinct keys, sorting forgets the order of the list.\<close>

lemma sort_key_mset_eq:
  assumes "mset xs = mset ys" and "distinct (map k xs)"
  shows "sort_key k xs = sort_key k ys"
  using assms by (intro sort_key_inj_key_eq) (simp_all add: distinct_map)

end
