(* ===== verification/Go_Strings.thy ===== *)
theory Go_Strings
  imports Ax_Prelude
begin

text \<open>
  The part of Go's \<^verbatim>\<open>unicode/utf8\<close>, \<^verbatim>\<open>unicode\<close>, \<^verbatim>\<open>strings\<close> and \<^verbatim>\<open>strconv\<close>
  packages that the modelled sources call, over byte strings. UTF-8 decoding
  follows \<^verbatim>\<open>utf8.DecodeRuneInString\<close>: an ill-formed byte decodes to
  \<^verbatim>\<open>RuneError\<close> with width one. The lemmas give what the components rely on:
  decoding loses no byte, trimming yields a sublist without space at either
  end, and \<^verbatim>\<open>strings.Index\<close> finds the first occurrence.
\<close>

section \<open>UTF-8\<close>

definition rune_error :: nat where
  "rune_error = 65533"

definition byte :: "char \<Rightarrow> nat" where
  "byte c = of_char c"

lemma byte_less_256 [ax_bounds]: "byte c < 256"
  by (simp add: byte_def)

lemma byte_inject [simp]: "byte c = byte d \<longleftrightarrow> c = d"
  by (simp add: byte_def)

definition utf8_size :: "nat \<Rightarrow> nat" where
  "utf8_size b =
    (if b < 0x80 then 1
     else if 0xC2 \<le> b \<and> b \<le> 0xDF then 2
     else if 0xE0 \<le> b \<and> b \<le> 0xEF then 3
     else if 0xF0 \<le> b \<and> b \<le> 0xF4 then 4
     else 0)"

definition utf8_lo :: "nat \<Rightarrow> nat" where
  "utf8_lo b = (if b = 0xE0 then 0xA0 else if b = 0xF0 then 0x90 else 0x80)"

definition utf8_hi :: "nat \<Rightarrow> nat" where
  "utf8_hi b = (if b = 0xED then 0x9F else if b = 0xF4 then 0x8F else 0xBF)"

definition utf8_cont :: "nat \<Rightarrow> bool" where
  "utf8_cont b \<longleftrightarrow> 0x80 \<le> b \<and> b \<le> 0xBF"

definition utf8_second :: "nat \<Rightarrow> nat \<Rightarrow> bool" where
  "utf8_second b0 b1 \<longleftrightarrow> utf8_lo b0 \<le> b1 \<and> b1 \<le> utf8_hi b0"

definition decode_rune :: "string \<Rightarrow> nat \<times> nat" where
  "decode_rune s =
    (case s of
       [] \<Rightarrow> (rune_error, 0)
     | c0 # cs \<Rightarrow>
         let b0 = byte c0 in
         (if utf8_size b0 = 1 then (b0, 1)
          else if utf8_size b0 = 2 then
            (case cs of
               c1 # _ \<Rightarrow>
                 if utf8_second b0 (byte c1)
                 then ((b0 - 0xC0) * 64 + (byte c1 - 0x80), 2) else (rune_error, 1)
             | _ \<Rightarrow> (rune_error, 1))
          else if utf8_size b0 = 3 then
            (case cs of
               c1 # c2 # _ \<Rightarrow>
                 if utf8_second b0 (byte c1) \<and> utf8_cont (byte c2)
                 then ((b0 - 0xE0) * 4096 + (byte c1 - 0x80) * 64 + (byte c2 - 0x80), 3)
                 else (rune_error, 1)
             | _ \<Rightarrow> (rune_error, 1))
          else if utf8_size b0 = 4 then
            (case cs of
               c1 # c2 # c3 # _ \<Rightarrow>
                 if utf8_second b0 (byte c1) \<and> utf8_cont (byte c2) \<and> utf8_cont (byte c3)
                 then ((b0 - 0xF0) * 262144 + (byte c1 - 0x80) * 4096
                       + (byte c2 - 0x80) * 64 + (byte c3 - 0x80), 4)
                 else (rune_error, 1)
             | _ \<Rightarrow> (rune_error, 1))
          else (rune_error, 1)))"

lemma decode_rune_width:
  assumes "s \<noteq> []"
  shows "0 < snd (decode_rune s)" and "snd (decode_rune s) \<le> length s"
    and "snd (decode_rune s) \<le> 4"
  using assms by (auto simp: decode_rune_def Let_def split: list.splits)

lemma decode_rune_ascii:
  "byte c < 0x80 \<Longrightarrow> decode_rune (c # s) = (byte c, 1)"
  by (simp add: decode_rune_def utf8_size_def)

lemma decode_rune_lt_0x80:
  assumes "decode_rune (c # s) = (r, w)" and "r < 0x80"
  shows "byte c = r" and "w = 1"
proof -
  let ?b = "byte c"
  have "utf8_size ?b = 1"
  proof (rule ccontr)
    assume no: "utf8_size ?b \<noteq> 1"
    consider "utf8_size ?b = 2" | "utf8_size ?b = 3" | "utf8_size ?b = 4" | "utf8_size ?b = 0"
      using no by (auto simp: utf8_size_def split: if_splits)
    then show False
    proof cases
      case 1
      then have "2 \<le> ?b - 0xC0" by (auto simp: utf8_size_def split: if_splits)
      with 1 assms show False
        by (auto simp: decode_rune_def rune_error_def Let_def split: list.splits if_splits)
    next
      case 2
      then have "1 \<le> ?b - 0xE0 \<or> ?b = 0xE0" by (auto simp: utf8_size_def split: if_splits)
      with 2 assms show False
        by (auto simp: decode_rune_def rune_error_def Let_def utf8_second_def utf8_lo_def
            split: list.splits if_splits)
    next
      case 3
      then have "1 \<le> ?b - 0xF0 \<or> ?b = 0xF0" by (auto simp: utf8_size_def split: if_splits)
      with 3 assms show False
        by (auto simp: decode_rune_def rune_error_def Let_def utf8_second_def utf8_lo_def
            split: list.splits if_splits)
    next
      case 4
      with assms show False
        by (auto simp: decode_rune_def rune_error_def split: list.splits if_splits)
    qed
  qed
  with assms show "byte c = r" and "w = 1"
    by (simp_all add: decode_rune_def)
qed

text \<open>A string as Go's \<^verbatim>\<open>for _, r := range s\<close> sees it: each rune with the bytes it came from.\<close>

function rune_chunks :: "string \<Rightarrow> (nat \<times> string) list" where
  "rune_chunks s =
    (if s = [] then []
     else (case decode_rune s of (r, w) \<Rightarrow> (r, take w s) # rune_chunks (drop w s)))"
  by pat_completeness auto
termination
proof (relation "measure length", goal_cases)
  case 1
  show ?case by simp
next
  case (2 s p w)
  then have "0 < w"
    using decode_rune_width(1) [of s] by (metis snd_conv)
  with 2 show ?case by simp
qed

declare rune_chunks.simps [simp del]

lemma rune_chunks_Nil [simp]: "rune_chunks [] = []"
  by (simp add: rune_chunks.simps)

lemma rune_chunks_eq_Nil [simp]: "rune_chunks s = [] \<longleftrightarrow> s = []"
  by (simp add: rune_chunks.simps [of s] split: prod.split)

lemma rune_chunks_ascii:
  "byte c < 0x80 \<Longrightarrow> rune_chunks (c # s) = (byte c, [c]) # rune_chunks s"
  by (simp add: rune_chunks.simps [of "c # s"] decode_rune_ascii)

lemma concat_rune_chunks [simp]: "concat (map snd (rune_chunks s)) = s"
proof (induction s rule: rune_chunks.induct)
  case (1 s)
  then show ?case
    by (subst rune_chunks.simps) (auto split: prod.split)
qed

lemma rune_chunks_nonempty: "(r, bs) \<in> set (rune_chunks s) \<Longrightarrow> bs \<noteq> []"
proof (induction s rule: rune_chunks.induct)
  case (1 s)
  show ?case
  proof (cases "s = []")
    case False
    obtain r' w where d: "decode_rune s = (r', w)" by fastforce
    with False have "0 < w" using decode_rune_width(1) [of s] by simp
    with 1 False d show ?thesis
      by (auto simp: rune_chunks.simps [of s])
  qed (use 1 in simp)
qed

lemma rune_chunks_all_ascii:
  "\<forall>c \<in> set s. byte c < 0x80 \<Longrightarrow> rune_chunks s = map (\<lambda>c. (byte c, [c])) s"
  by (induction s) (auto simp: rune_chunks_ascii)

definition runes :: "string \<Rightarrow> nat list" where
  "runes s = map fst (rune_chunks s)"

lemma runes_all_ascii_iff:
  assumes "\<And>r. P r \<Longrightarrow> r < 0x80"
  shows "list_all P (runes s) \<longleftrightarrow> (\<forall>c \<in> set s. P (byte c))"
proof (induction s rule: rune_chunks.induct)
  case (1 s)
  show ?case
  proof (cases s)
    case (Cons c cs)
    obtain r w where d: "decode_rune s = (r, w)" by fastforce
    show ?thesis
    proof (cases "r < 0x80")
      case True
      then have "byte c = r" "w = 1"
        using decode_rune_lt_0x80 d Cons by blast+
      then show ?thesis
        using 1 d Cons by (simp add: runes_def rune_chunks.simps [of "c # cs"])
    next
      case False
      then have "\<not> P r" and "\<not> byte c < 0x80"
        using assms decode_rune_ascii [of c cs] d Cons by auto
      then show ?thesis
        using assms d Cons by (auto simp: runes_def rune_chunks.simps [of "c # cs"])
    qed
  qed (simp add: runes_def)
qed

definition valid_utf8 :: "string \<Rightarrow> bool" where
  "valid_utf8 s \<longleftrightarrow> list_all (\<lambda>(r, bs). \<not> (r = rune_error \<and> length bs = 1)) (rune_chunks s)"

lemma valid_utf8_ascii: "\<forall>c \<in> set s. byte c < 0x80 \<Longrightarrow> valid_utf8 s"
  by (auto simp: valid_utf8_def rune_chunks_all_ascii list_all_iff rune_error_def)

section \<open>Well-formed UTF-8\<close>

text \<open>
  Decoding a well-formed rune looks at its own bytes only, and its bytes after
  the first are continuation bytes. So decoding distributes over appending to a
  well-formed string, and cutting a well-formed string before a byte that starts
  a rune leaves a well-formed string.
\<close>

definition rune_ok :: "nat \<times> nat \<Rightarrow> bool" where
  "rune_ok d \<longleftrightarrow> \<not> (fst d = rune_error \<and> snd d = 1)"

lemma utf8_size_range: "utf8_size b = 0 \<or> utf8_size b = 1 \<or> utf8_size b = 2 \<or> utf8_size b = 3 \<or> utf8_size b = 4"
  by (simp add: utf8_size_def)

lemma decode_rune_cases:
  assumes "s \<noteq> []" and "rune_ok (decode_rune s)"
  obtains (one) c0 t where "s = c0 # t" "utf8_size (byte c0) = 1" "decode_rune s = (byte c0, 1)"
  | (two) c0 c1 t where "s = c0 # c1 # t" "utf8_size (byte c0) = 2" "utf8_second (byte c0) (byte c1)"
      "snd (decode_rune s) = 2"
  | (three) c0 c1 c2 t where "s = c0 # c1 # c2 # t" "utf8_size (byte c0) = 3"
      "utf8_second (byte c0) (byte c1)" "utf8_cont (byte c2)" "snd (decode_rune s) = 3"
  | (four) c0 c1 c2 c3 t where "s = c0 # c1 # c2 # c3 # t" "utf8_size (byte c0) = 4"
      "utf8_second (byte c0) (byte c1)" "utf8_cont (byte c2)" "utf8_cont (byte c3)"
      "snd (decode_rune s) = 4"
proof -
  obtain c0 cs where s: "s = c0 # cs" using assms(1) by (cases s) auto
  consider "utf8_size (byte c0) = 1" | "utf8_size (byte c0) = 2" | "utf8_size (byte c0) = 3"
    | "utf8_size (byte c0) = 4" | "utf8_size (byte c0) = 0"
    using utf8_size_range [of "byte c0"] by argo
  then show thesis
  proof cases
    case 1
    then show thesis using s one [of c0 cs] by (simp add: decode_rune_def)
  next
    case 2
    then show thesis using s assms(2) two
      by (auto simp: decode_rune_def rune_ok_def Let_def split: list.splits if_splits)
  next
    case 3
    then show thesis using s assms(2) three
      by (auto simp: decode_rune_def rune_ok_def Let_def split: list.splits if_splits)
  next
    case 4
    then show thesis using s assms(2) four
      by (auto simp: decode_rune_def rune_ok_def Let_def split: list.splits if_splits)
  next
    case 5
    then show thesis using s assms(2) by (simp add: decode_rune_def rune_ok_def)
  qed
qed

lemma decode_rune_local:
  assumes "s \<noteq> []" and "rune_ok (decode_rune s)"
  shows "decode_rune (take (snd (decode_rune s)) s @ t) = decode_rune s"
  using assms by (cases rule: decode_rune_cases) (simp_all add: decode_rune_def)

definition rune_start :: "char \<Rightarrow> bool" where
  "rune_start c \<longleftrightarrow> \<not> (0x80 \<le> byte c \<and> byte c < 0xC0)"

lemma utf8_second_not_start: "utf8_second a (byte c) \<Longrightarrow> \<not> rune_start c"
  by (auto simp: utf8_second_def utf8_lo_def utf8_hi_def rune_start_def split: if_splits)

lemma utf8_cont_not_start: "utf8_cont (byte c) \<Longrightarrow> \<not> rune_start c"
  by (auto simp: utf8_cont_def rune_start_def)

lemma decode_rune_inner:
  assumes "s \<noteq> []" and "rune_ok (decode_rune s)" and "0 < i" and "i < snd (decode_rune s)"
  shows "\<not> rune_start (s ! i)"
  using assms(1,2)
proof (cases rule: decode_rune_cases)
  case (one c0 t)
  then show ?thesis using assms by simp
next
  case (two c0 c1 t)
  then have "i = 1" using assms by simp
  then show ?thesis using two by (simp add: utf8_second_not_start)
next
  case (three c0 c1 c2 t)
  then have "i = 1 \<or> i = 2" using assms by auto
  then show ?thesis using three by (auto simp: utf8_second_not_start utf8_cont_not_start)
next
  case (four c0 c1 c2 c3 t)
  then have "i = 1 \<or> i = 2 \<or> i = 3" using assms by auto
  then show ?thesis using four by (auto simp: utf8_second_not_start utf8_cont_not_start numeral_3_eq_3 numeral_2_eq_2)
qed

lemma valid_utf8_step:
  assumes "s \<noteq> []"
  shows "valid_utf8 s \<longleftrightarrow> rune_ok (decode_rune s) \<and> valid_utf8 (drop (snd (decode_rune s)) s)"
proof -
  obtain r w where d: "decode_rune s = (r, w)" by fastforce
  have "length (take w s) = w" using decode_rune_width(2) [OF assms] d by simp
  then show ?thesis
    using assms d by (simp add: valid_utf8_def rune_chunks.simps [of s] rune_ok_def)
qed

lemma rune_chunks_append:
  "valid_utf8 a \<Longrightarrow> rune_chunks (a @ b) = rune_chunks a @ rune_chunks b"
proof (induction a rule: rune_chunks.induct)
  case (1 a)
  show ?case
  proof (cases "a = []")
    case False
    obtain r w where d: "decode_rune a = (r, w)" by fastforce
    have w: "0 < w" "w \<le> length a" using decode_rune_width [OF False] d by auto
    have ok: "rune_ok (r, w)" "valid_utf8 (drop w a)" using valid_utf8_step [OF False] 1(2) d by auto
    have "decode_rune (take w a @ (drop w a @ b)) = (r, w)"
      using decode_rune_local [OF False, of "drop w a @ b"] ok d by simp
    then have d': "decode_rune (a @ b) = (r, w)"
      by (metis append.assoc append_take_drop_id)
    have "rune_chunks (drop w a @ b) = rune_chunks (drop w a) @ rune_chunks b"
      using 1(1) [OF False d [symmetric] ok(2)] .
    then show ?thesis
      using False d d' w by (simp add: rune_chunks.simps [of "a @ b"] rune_chunks.simps [of a])
  qed simp
qed

lemma valid_utf8_append [simp]: "valid_utf8 a \<Longrightarrow> valid_utf8 (a @ b) \<longleftrightarrow> valid_utf8 b"
  by (simp add: valid_utf8_def rune_chunks_append)

lemma valid_utf8_take:
  "valid_utf8 s \<Longrightarrow> n < length s \<Longrightarrow> rune_start (s ! n) \<Longrightarrow> valid_utf8 (take n s)"
proof (induction s arbitrary: n rule: rune_chunks.induct)
  case (1 s)
  then have ne: "s \<noteq> []" by auto
  obtain r w where d: "decode_rune s = (r, w)" by fastforce
  have w: "0 < w" "w \<le> length s" using decode_rune_width [OF ne] d by auto
  have ok: "rune_ok (r, w)" "valid_utf8 (drop w s)" using valid_utf8_step [OF ne] 1(2) d by auto
  show ?case
  proof (cases "n = 0")
    case False
    have "w \<le> n"
    proof (rule ccontr)
      assume "\<not> w \<le> n"
      with False have "\<not> rune_start (s ! n)"
        by (intro decode_rune_inner [OF ne]) (use ok d in simp_all)
      with 1(4) show False by simp
    qed
    then have "take n s = take w s @ take (n - w) (drop w s)"
      using take_add [of w "n - w" s] by simp
    moreover have "valid_utf8 (take (n - w) (drop w s))"
      using 1(1) [OF ne d [symmetric] ok(2), of "n - w"] 1(3,4) \<open>w \<le> n\<close> by simp
    moreover have "valid_utf8 (take w s)"
    proof -
      have "decode_rune (take w s) = (r, w)"
        using decode_rune_local [OF ne, of "[]"] ok d by simp
      then show ?thesis
        using valid_utf8_step [of "take w s"] ne w ok by (simp add: valid_utf8_def)
    qed
    ultimately show ?thesis by simp
  qed (simp add: valid_utf8_def)
qed

section \<open>Character classes\<close>

definition is_space :: "nat \<Rightarrow> bool" where
  "is_space r \<longleftrightarrow>
     (9 \<le> r \<and> r \<le> 13) \<or> r = 0x20 \<or> r = 0x85 \<or> r = 0xA0 \<or> r = 0x1680 \<or>
     (0x2000 \<le> r \<and> r \<le> 0x200A) \<or> r = 0x2028 \<or> r = 0x2029 \<or> r = 0x202F \<or>
     r = 0x205F \<or> r = 0x3000"

definition is_control :: "nat \<Rightarrow> bool" where
  "is_control r \<longleftrightarrow> r \<le> 0x1F \<or> (0x7F \<le> r \<and> r \<le> 0x9F)"

definition contains_func :: "(nat \<Rightarrow> bool) \<Rightarrow> string \<Rightarrow> bool" where
  "contains_func P s \<longleftrightarrow> list_ex P (runes s)"

section \<open>Trimming and case\<close>

text \<open>
  \<^verbatim>\<open>strings.TrimSpace\<close> drops space runes at both ends. The scan from the right in
  Go decodes backwards; a lead byte always starts a chunk of the forward
  decoding, so both decodings cut the string at the same places.
\<close>

definition trim_chunks :: "(nat \<Rightarrow> bool) \<Rightarrow> (nat \<times> string) list \<Rightarrow> (nat \<times> string) list" where
  "trim_chunks P cs = rev (dropWhile (P \<circ> fst) (rev (dropWhile (P \<circ> fst) cs)))"

definition trim_space :: "string \<Rightarrow> string" where
  "trim_space s = concat (map snd (trim_chunks is_space (rune_chunks s)))"

lemma set_trim_chunks: "set (trim_chunks P cs) \<subseteq> set cs"
  unfolding trim_chunks_def by (auto dest!: set_dropWhileD)

lemma trim_chunks_eq_Nil: "trim_chunks P cs = [] \<longleftrightarrow> (\<forall>c \<in> set cs. P (fst c))"
proof
  assume "trim_chunks P cs = []"
  then have all: "\<forall>c \<in> set (dropWhile (P \<circ> fst) cs). P (fst c)"
    by (simp add: trim_chunks_def)
  have "dropWhile (P \<circ> fst) cs = []"
  proof (rule ccontr)
    assume ne: "dropWhile (P \<circ> fst) cs \<noteq> []"
    then have "\<not> (P \<circ> fst) (hd (dropWhile (P \<circ> fst) cs))"
      by (rule hd_dropWhile)
    with all ne show False by simp
  qed
  then show "\<forall>c \<in> set cs. P (fst c)" by simp
next
  assume "\<forall>c \<in> set cs. P (fst c)"
  then have "dropWhile (P \<circ> fst) cs = []"
    by (simp add: dropWhile_eq_Nil_conv)
  then show "trim_chunks P cs = []"
    by (simp only: trim_chunks_def rev.simps dropWhile.simps)
qed

lemma concat_snd_eq_Nil:
  assumes "\<And>r bs. (r, bs) \<in> set cs \<Longrightarrow> bs \<noteq> []"
  shows "concat (map snd cs) = [] \<longleftrightarrow> cs = []"
  using assms by (cases cs) fastforce+

lemma trim_space_eq_Nil:
  "trim_space s = [] \<longleftrightarrow> (\<forall>r \<in> set (runes s). is_space r)"
proof -
  have "trim_space s = [] \<longleftrightarrow> trim_chunks is_space (rune_chunks s) = []"
    unfolding trim_space_def
    by (rule concat_snd_eq_Nil) (use set_trim_chunks rune_chunks_nonempty in blast)
  then show ?thesis
    by (simp add: trim_chunks_eq_Nil runes_def)
qed

text \<open>
  \<^verbatim>\<open>strings.ToLower\<close>. Every caller compares the result with ASCII words, so the
  runes that matter are the ones whose lower case is ASCII: \<^verbatim>\<open>A\<close>..\<^verbatim>\<open>Z\<close>,
  U+0130 (to \<^verbatim>\<open>i\<close>) and U+212A (to \<^verbatim>\<open>k\<close>). Any other non-ASCII rune lowers to a
  non-ASCII rune and is kept as it is here; an ill-formed byte becomes the
  encoding of \<^verbatim>\<open>RuneError\<close>, as \<^verbatim>\<open>strings.Map\<close> writes it.
\<close>

definition lower_chunk :: "nat \<times> string \<Rightarrow> string" where
  "lower_chunk c = (case c of (r, bs) \<Rightarrow>
     (if 65 \<le> r \<and> r \<le> 90 then [char_of (r + 32)]
      else if r = 0x130 then ''i''
      else if r = 0x212A then ''k''
      else if r = rune_error then [char_of (0xEF::nat), char_of (0xBF::nat), char_of (0xBD::nat)]
      else bs))"

definition to_lower :: "string \<Rightarrow> string" where
  "to_lower s = concat (map lower_chunk (rune_chunks s))"

section \<open>Searching, splitting, joining\<close>

definition has_prefix :: "string \<Rightarrow> string \<Rightarrow> bool" where
  "has_prefix s p \<longleftrightarrow> take (length p) s = p"

lemma has_prefix_iff: "has_prefix s p \<longleftrightarrow> (\<exists>t. s = p @ t)"
  unfolding has_prefix_def by (metis append_eq_conv_conj append_take_drop_id)

lemma has_prefix_append [simp]: "has_prefix (p @ s) p"
  by (simp add: has_prefix_def)

fun str_index :: "string \<Rightarrow> string \<Rightarrow> nat option" where
  "str_index pat [] = (if pat = [] then Some 0 else None)"
| "str_index pat (c # s) =
    (if has_prefix (c # s) pat then Some 0 else map_option Suc (str_index pat s))"

lemma str_index_Some_iff:
  "str_index pat s = Some i \<longleftrightarrow>
     i \<le> length s \<and> has_prefix (drop i s) pat \<and> (\<forall>j < i. \<not> has_prefix (drop j s) pat)"
proof (induction s arbitrary: i)
  case Nil
  then show ?case by (auto simp: has_prefix_def)
next
  case (Cons c s)
  show ?case
  proof (cases i)
    case 0
    then show ?thesis by auto
  next
    case (Suc k)
    have "(\<forall>j < Suc k. \<not> has_prefix (drop j (c # s)) pat) \<longleftrightarrow>
      \<not> has_prefix (c # s) pat \<and> (\<forall>j < k. \<not> has_prefix (drop j s) pat)"
      by (simp add: All_less_Suc2)
    then show ?thesis using Suc Cons.IH [of k] by auto
  qed
qed

lemma str_index_None_iff:
  "str_index pat s = None \<longleftrightarrow> (\<forall>j \<le> length s. \<not> has_prefix (drop j s) pat)"
proof (induction s)
  case Nil
  then show ?case by (simp add: has_prefix_def)
next
  case (Cons c s)
  have "(\<forall>j \<le> length (c # s). \<not> has_prefix (drop j (c # s)) pat) \<longleftrightarrow>
    \<not> has_prefix (c # s) pat \<and> (\<forall>j \<le> length s. \<not> has_prefix (drop j s) pat)"
    by (metis (no_types, lifting) Suc_le_mono drop0 drop_Suc_Cons le0 length_Cons not0_implies_Suc)
  then show ?case using Cons by auto
qed

lemma str_index_bound [ax_bounds]: "str_index pat s = Some i \<Longrightarrow> i + length pat \<le> length s"
  by (auto simp: str_index_Some_iff has_prefix_def)
    (metis add.commute add_le_imp_le_diff le_diff_conv2 length_drop length_take min.absorb_iff2
      min.commute nat_le_linear)

lemma has_prefix_length: "has_prefix s p \<Longrightarrow> length p \<le> length s"
  by (auto simp: has_prefix_iff)

lemma str_index_take:
  assumes "str_index pat (take n s) = Some j"
  shows "str_index pat s = Some j"
proof -
  from assms have pre: "has_prefix (take (n - j) (drop j s)) pat" and j: "j \<le> length s"
    and first: "\<And>k. k < j \<Longrightarrow> \<not> has_prefix (take (n - k) (drop k s)) pat"
    by (auto simp: str_index_Some_iff drop_take)
  have len: "j + length pat \<le> n"
    using str_index_bound [OF assms] by simp
  have "\<not> has_prefix (drop k s) pat" if "k < j" for k
  proof
    assume h: "has_prefix (drop k s) pat"
    then have "take (length pat) (take (n - k) (drop k s)) = pat"
      using len that by (auto simp: has_prefix_def min_def)
    with first [OF that] show False by (simp add: has_prefix_def)
  qed
  moreover have "has_prefix (drop j s) pat"
    using pre by (auto simp: has_prefix_iff) (metis append.assoc append_take_drop_id)
  ultimately show ?thesis
    using j by (simp add: str_index_Some_iff)
qed

lemma str_index_drop:
  assumes "str_index pat s = Some i" and "k \<le> i"
  shows "str_index pat (drop k s) = Some (i - k)"
  using assms by (auto simp: str_index_Some_iff)

lemma str_index_le_hit:
  assumes "has_prefix (drop k s) pat" and "k \<le> length s"
  obtains i where "str_index pat s = Some i" and "i \<le> k"
proof -
  have "str_index pat s \<noteq> None"
    using assms by (auto simp: str_index_None_iff)
  then obtain i where i: "str_index pat s = Some i" by blast
  with assms have "i \<le> k" by (auto simp: str_index_Some_iff linorder_not_less [symmetric])
  with i show thesis by (rule that)
qed

lemma str_index_append_hit:
  assumes "\<And>j. j < length a \<Longrightarrow> \<not> has_prefix (drop j (a @ pat @ b)) pat"
  shows "str_index pat (a @ pat @ b) = Some (length a)"
  using assms by (simp add: str_index_Some_iff)

definition str_join :: "string \<Rightarrow> string list \<Rightarrow> string" where
  "str_join sep xs =
    (case xs of [] \<Rightarrow> [] | x # rest \<Rightarrow> x @ concat (map (\<lambda>y. sep @ y) rest))"

section \<open>Decimal rendering\<close>

definition digit :: "nat \<Rightarrow> char" where
  "digit d = char_of (48 + d)"

fun nat_digits :: "nat \<Rightarrow> string" where
  "nat_digits n = (if n < 10 then [digit n] else nat_digits (n div 10) @ [digit (n mod 10)])"

declare nat_digits.simps [simp del]

definition itoa :: "int \<Rightarrow> string" where
  "itoa n = (if n < 0 then ''-'' @ nat_digits (nat (- n)) else nat_digits (nat n))"

lemma nat_digits_nonempty [simp]: "nat_digits n \<noteq> []"
  by (subst nat_digits.simps) simp

section \<open>Quoting\<close>

text \<open>
  \<^verbatim>\<open>strconv.Quote\<close>, which \<^verbatim>\<open>fmt\<close> uses for \<^verbatim>\<open>%q\<close>. The argument \<^term>\<open>isprint\<close> is
  \<^verbatim>\<open>strconv.IsPrint\<close> on the non-ASCII runes (a Unicode table); ASCII is decided here.
\<close>

definition hex_digit :: "nat \<Rightarrow> char" where
  "hex_digit d = (if d < 10 then char_of (48 + d) else char_of (87 + d))"

fun hex_digits :: "nat \<Rightarrow> nat \<Rightarrow> string" where
  "hex_digits 0 r = []"
| "hex_digits (Suc k) r = hex_digits k (r div 16) @ [hex_digit (r mod 16)]"

definition backslash :: char where
  "backslash = char_of (92 :: nat)"

definition quote_chunk :: "(nat \<Rightarrow> bool) \<Rightarrow> nat \<times> string \<Rightarrow> string" where
  "quote_chunk isprint c = (case c of (r, bs) \<Rightarrow>
     (if r = rune_error \<and> length bs = 1 then backslash # ''x'' @ hex_digits 2 (byte (hd bs))
      else if r = 34 \<or> r = 92 then [backslash, char_of r]
      else if (0x20 \<le> r \<and> r < 0x7F) \<or> (0x80 \<le> r \<and> isprint r) then bs
      else if r = 7 then backslash # ''a''
      else if r = 8 then backslash # ''b''
      else if r = 12 then backslash # ''f''
      else if r = 10 then backslash # ''n''
      else if r = 13 then backslash # ''r''
      else if r = 9 then backslash # ''t''
      else if r = 11 then backslash # ''v''
      else if r < 0x20 \<or> r = 0x7F then backslash # ''x'' @ hex_digits 2 r
      else if r < 0x10000 then backslash # ''u'' @ hex_digits 4 r
      else backslash # ''U'' @ hex_digits 8 r))"

definition quote :: "(nat \<Rightarrow> bool) \<Rightarrow> string \<Rightarrow> string" where
  "quote isprint s = [char_of (34 :: nat)] @ concat (map (quote_chunk isprint) (rune_chunks s)) @ [char_of (34 :: nat)]"

section \<open>Fields\<close>

text \<open>\<^verbatim>\<open>strings.Fields\<close>: the maximal runs of runes that are not spaces.\<close>

fun fields_of :: "(nat \<times> string) list \<Rightarrow> string \<Rightarrow> string list" where
  "fields_of [] cur = (if cur = [] then [] else [cur])"
| "fields_of ((r, bs) # cs) cur =
    (if is_space r then (if cur = [] then [] else [cur]) @ fields_of cs [] else fields_of cs (cur @ bs))"

definition str_fields :: "string \<Rightarrow> string list" where
  "str_fields s = fields_of (rune_chunks s) []"

end
