(* ===== verification/Schema_Template.thy ===== *)
theory Schema_Template
  imports Go_Strings "HOL-Library.Word"
begin

text \<open>
  The prompt-template engine of \<^verbatim>\<open>internal/schema/declarations.go\<close>: the
  placeholder scanner, the renderer, the rendered-length calculator and the
  name rule. The scanner is an optimised one; \<^verbatim>\<open>scan_reference\<close> is the plain
  left-to-right scan its comment describes, and the theory proves the two
  equal, that the scan finds exactly well-delimited placeholders, and that
  rendering substitutes each value once without re-scanning it.
\<close>

section \<open>Names\<close>

definition isNameRune :: "nat \<Rightarrow> bool" where
  "isNameRune r \<longleftrightarrow>
     (97 \<le> r \<and> r \<le> 122) \<or> (65 \<le> r \<and> r \<le> 90) \<or> (48 \<le> r \<and> r \<le> 57) \<or>
     r = 95 \<or> r = 46 \<or> r = 45"

definition validName :: "string \<Rightarrow> bool" where
  "validName name \<longleftrightarrow> name \<noteq> [] \<and> list_all isNameRune (runes name)"

lemma validName_iff: "validName name \<longleftrightarrow> name \<noteq> [] \<and> (\<forall>c \<in> set name. isNameRune (byte c))"
  unfolding validName_def by (subst runes_all_ascii_iff) (auto simp: isNameRune_def)

lemma validName_no_brace:
  "validName name \<Longrightarrow> CHR ''{'' \<notin> set name" "validName name \<Longrightarrow> CHR ''}'' \<notin> set name"
  by (auto simp: validName_iff isNameRune_def byte_def)

section \<open>The scanner\<close>

definition openDelim :: string where
  "openDelim = ''{{''"

definition closeDelim :: string where
  "closeDelim = ''}}''"

lemma length_delims [simp]: "length openDelim = 2" "length closeDelim = 2"
  by (simp_all add: openDelim_def closeDelim_def)

text \<open>
  The loop of \<^verbatim>\<open>lastReachableOpen\<close> with its variables \<^verbatim>\<open>i\<close> and \<^verbatim>\<open>last\<close>;
  \<^verbatim>\<open>-1\<close> is \<^term>\<open>None\<close>.
\<close>

function last_open_loop :: "string \<Rightarrow> nat \<Rightarrow> nat option \<Rightarrow> nat option" where
  "last_open_loop span i acc =
    (case str_index openDelim (drop i span) of
       None \<Rightarrow> acc
     | Some j \<Rightarrow> last_open_loop span (i + j + 2) (Some (i + j)))"
  by pat_completeness auto
termination
  by (relation "measure (\<lambda>(span, i, _). length span - i)") (auto dest: str_index_bound)

definition lastReachableOpen :: "string \<Rightarrow> nat option" where
  "lastReachableOpen span = last_open_loop span 0 None"

declare last_open_loop.simps [simp del]

lemma last_open_loop_None:
  "str_index openDelim (drop i span) = None \<Longrightarrow> last_open_loop span i acc = acc"
  by (simp add: last_open_loop.simps)

lemma last_open_loop_Some:
  "str_index openDelim (drop i span) = Some j \<Longrightarrow>
   last_open_loop span i acc = last_open_loop span (i + j + 2) (Some (i + j))"
  by (simp add: last_open_loop.simps [of span i])

lemma last_open_loop_bound:
  "last_open_loop span i acc = Some l \<Longrightarrow> acc \<noteq> Some l \<Longrightarrow> i \<le> l \<and> l + 2 \<le> length span"
proof (induction span i acc rule: last_open_loop.induct)
  case (1 span i acc)
  show ?case
  proof (cases "str_index openDelim (drop i span)")
    case None
    then show ?thesis using 1 by (simp add: last_open_loop.simps [of span i])
  next
    case (Some j)
    then have "i + j + 2 \<le> length span"
      using str_index_bound [OF Some] by simp
    with 1 Some show ?thesis
      by (cases "l = i + j") (auto simp: last_open_loop.simps [of span i])
  qed
qed

lemma lastReachableOpen_bound [ax_bounds]:
  "lastReachableOpen span = Some l \<Longrightarrow> l + 2 \<le> length span"
  using last_open_loop_bound by (auto simp: lastReachableOpen_def)

text \<open>
  \<^verbatim>\<open>scanPlaceholders\<close> as the list of its \<^verbatim>\<open>visit(start, end, name)\<close> calls, from
  the loop variable \<^verbatim>\<open>pos\<close>.
\<close>

type_synonym visit = "nat \<times> nat \<times> string"

function scan_from :: "string \<Rightarrow> nat \<Rightarrow> visit list" where
  "scan_from template pos =
    (case str_index openDelim (drop pos template) of
       None \<Rightarrow> []
     | Some off \<Rightarrow>
         let opn = off + pos; bodyStart = opn + 2 in
         (case str_index closeDelim (drop bodyStart template) of
            None \<Rightarrow> []
          | Some len \<Rightarrow>
              let span = take len (drop bodyStart template) in
              if validName span then
                (let stop = bodyStart + len + 2 in (opn, stop, span) # scan_from template stop)
              else
                scan_from template
                  (case lastReachableOpen span of None \<Rightarrow> bodyStart | Some l \<Rightarrow> bodyStart + l)))"
  by pat_completeness auto
termination
  by (relation "measure (\<lambda>(t, pos). length t - pos)")
    (auto dest!: str_index_bound split: option.splits)

definition scanPlaceholders :: "string \<Rightarrow> visit list" where
  "scanPlaceholders template = scan_from template 0"

declare scan_from.simps [simp del]

definition templatePlaceholders :: "string \<Rightarrow> string list" where
  "templatePlaceholders template = map (\<lambda>(_, _, name). name) (scanPlaceholders template)"

text \<open>The plain scan: a rejected opening delimiter resumes just after itself.\<close>

function scan_reference :: "string \<Rightarrow> nat \<Rightarrow> visit list" where
  "scan_reference template pos =
    (case str_index openDelim (drop pos template) of
       None \<Rightarrow> []
     | Some off \<Rightarrow>
         let opn = off + pos; bodyStart = opn + 2 in
         (case str_index closeDelim (drop bodyStart template) of
            None \<Rightarrow> []
          | Some len \<Rightarrow>
              let span = take len (drop bodyStart template) in
              if validName span then
                (opn, bodyStart + len + 2, span) # scan_reference template (bodyStart + len + 2)
              else scan_reference template bodyStart))"
  by pat_completeness auto
termination
  by (relation "measure (\<lambda>(t, pos). length t - pos)")
    (auto dest!: str_index_bound)

declare scan_reference.simps [simp del]

section \<open>The optimised scan equals the plain scan\<close>

lemma scan_reference_reject:
  assumes "str_index openDelim (drop q t) = Some off"
    and "str_index closeDelim (drop (off + q + 2) t) = Some len"
    and "\<not> validName (take len (drop (off + q + 2) t))"
  shows "scan_reference t q = scan_reference t (off + q + 2)"
  using assms by (subst scan_reference.simps) (simp add: Let_def del: add_2_eq_Suc')

lemma scan_reference_accept:
  assumes "str_index openDelim (drop q t) = Some off"
    and "str_index closeDelim (drop (off + q + 2) t) = Some len"
    and "validName (take len (drop (off + q + 2) t))"
  shows "scan_reference t q =
    (off + q, off + q + 2 + len + 2, take len (drop (off + q + 2) t)) # scan_reference t (off + q + 2 + len + 2)"
  using assms by (subst scan_reference.simps) (simp add: Let_def del: add_2_eq_Suc')

lemma scan_reference_skip:
  assumes "str_index openDelim (drop q t) = Some j"
  shows "scan_reference t (q + j) = scan_reference t q"
proof -
  have "str_index openDelim (drop (q + j) t) = Some 0"
    using str_index_drop [OF assms, of j] by (simp add: add.commute)
  then show ?thesis
    using assms by (subst (1 2) scan_reference.simps) (simp add: Let_def add.commute)
qed

lemma str_index_openD: "str_index openDelim s = Some j \<Longrightarrow> \<exists>t. drop j s = CHR ''{'' # CHR ''{'' # t"
  by (auto simp: str_index_Some_iff has_prefix_iff openDelim_def)

lemma open_in_span_invalid:
  assumes hit: "str_index openDelim (drop i span) = Some j" and "k \<le> i"
  shows "\<not> validName (drop k span)"
proof
  assume valid: "validName (drop k span)"
  obtain t where "drop (j + i) span = CHR ''{'' # CHR ''{'' # t"
    using str_index_openD [OF hit] by (auto simp: add.commute)
  then have "CHR ''{'' \<in> set (drop (j + i) span)" by simp
  then have "CHR ''{'' \<in> set (drop k span)"
    using set_drop_subset_set_drop [of k "j + i" span] \<open>k \<le> i\<close> by auto
  with valid validName_no_brace(1) show False by blast
qed

text \<open>
  Inside a rejected span every reachable opening delimiter is closed by the
  span's own closing delimiter; while another one follows, the plain scan
  rejects and moves on, so jumping to the last one changes nothing.
\<close>

lemma scan_reference_last_open:
  assumes close: "str_index closeDelim (drop p t) = Some len"
    and "span = take len (drop p t)"
  shows "last_open_loop span i None = Some l \<Longrightarrow> scan_reference t (p + i) = scan_reference t (p + l)"
  using assms(2)
proof (induction "length span - i" arbitrary: i rule: less_induct)
  case less
  from less.prems(1) obtain j where j: "str_index openDelim (drop i span) = Some j"
    by (auto simp: last_open_loop.simps [of span i] split: option.splits)
  then have rest: "last_open_loop span (i + j + 2) (Some (i + j)) = Some l"
    using less.prems(1) by (simp only: last_open_loop_Some)
  have bound: "i + j + 2 \<le> length span" "length span \<le> len"
    using str_index_bound [OF j] less.prems(2) by auto
  have hit: "str_index openDelim (drop (p + i) t) = Some j"
    by (rule str_index_take [of _ "len - i"]) (use j less.prems(2) in \<open>simp add: drop_take add.commute\<close>)
  show ?case
  proof (cases "str_index openDelim (drop (i + j + 2) span)")
    case None
    then have "l = i + j"
      using rest by (simp only: last_open_loop_None option.inject)
    then show ?thesis
      using scan_reference_skip [OF hit] by (simp add: add.assoc)
  next
    case (Some j')
    then have again: "last_open_loop span (i + j + 2) None = Some l"
      using rest by (simp only: last_open_loop_Some)
    let ?b = "j + (p + i) + 2"
    have b: "?b = p + (i + j + 2)" by simp
    have db: "drop ?b t = drop (i + j + 2) (drop p t)" by (simp add: add_ac)
    have closes: "str_index closeDelim (drop ?b t) = Some (len - (i + j + 2))"
      unfolding db by (rule str_index_drop [OF close]) (use bound in linarith)
    have "take (len - (i + j + 2)) (drop ?b t) = drop (i + j + 2) span"
      unfolding db less.prems(2) by (simp only: drop_take)
    then have inv: "\<not> validName (take (len - (i + j + 2)) (drop ?b t))"
      using open_in_span_invalid [OF Some] by simp
    have "scan_reference t (p + i) = scan_reference t (p + (i + j + 2))"
      using scan_reference_reject [OF hit closes inv] by (simp only: b)
    also have "\<dots> = scan_reference t (p + l)"
      by (rule less.hyps [OF _ again less.prems(2)]) (use bound in linarith)
    finally show ?thesis .
  qed
qed

lemma scan_from_eq_reference: "scan_from t pos = scan_reference t pos"
proof (induction t pos rule: scan_from.induct)
  case (1 t pos)
  show ?case
  proof (cases "str_index openDelim (drop pos t)")
    case None
    then show ?thesis by (simp add: scan_from.simps scan_reference.simps)
  next
    case off: (Some off)
    let ?b = "off + pos + 2"
    show ?thesis
    proof (cases "str_index closeDelim (drop ?b t)")
      case None
      then show ?thesis using off by (simp add: scan_from.simps [of t pos] scan_reference.simps [of t pos] Let_def)
    next
      case len: (Some len)
      let ?span = "take len (drop ?b t)"
      show ?thesis
      proof (cases "validName ?span")
        case True
        then show ?thesis
          using 1(1) [OF off refl refl len refl True refl] off len
          by (simp add: scan_from.simps [of t pos] scan_reference.simps [of t pos] Let_def)
      next
        case False
        have jump: "scan_reference t (case lastReachableOpen ?span of None \<Rightarrow> ?b | Some l \<Rightarrow> ?b + l)
            = scan_reference t ?b"
          using scan_reference_last_open [OF len refl, of 0]
          by (auto simp: lastReachableOpen_def split: option.splits)
        show ?thesis
          using 1(2) [OF off refl refl len refl False] off len False jump
            scan_reference_reject [OF off len False]
          by (simp add: scan_from.simps [of t pos] Let_def del: add_2_eq_Suc')
      qed
    qed
  qed
qed

section \<open>Rendering\<close>

definition lookup_or_empty :: "(string \<rightharpoonup> string) \<Rightarrow> string \<Rightarrow> string" where
  "lookup_or_empty vals name = (case vals name of None \<Rightarrow> [] | Some v \<Rightarrow> v)"

text \<open>
  \<^verbatim>\<open>RenderTemplate\<close>: the closure's variables \<^verbatim>\<open>out\<close> and \<^verbatim>\<open>copied\<close> are folded over
  the visits. \<^verbatim>\<open>RenderedLen\<close> keeps Go's \<^verbatim>\<open>int64\<close> total as a 64-bit word.
\<close>

definition render_visit ::
  "string \<Rightarrow> (string \<rightharpoonup> string) \<Rightarrow> string \<times> nat \<Rightarrow> visit \<Rightarrow> string \<times> nat" where
  "render_visit template vals st v =
    (case (st, v) of ((out, copied), (start, stop, name)) \<Rightarrow>
       (out @ take (start - copied) (drop copied template) @ lookup_or_empty vals name, stop))"

definition RenderTemplate :: "string \<Rightarrow> (string \<rightharpoonup> string) \<Rightarrow> string" where
  "RenderTemplate template vals =
    (case foldl (render_visit template vals) ([], 0) (scanPlaceholders template) of
       (out, copied) \<Rightarrow> out @ drop copied template)"

definition RenderedLen :: "string \<Rightarrow> (string \<rightharpoonup> string) \<Rightarrow> 64 word" where
  "RenderedLen template vals =
    foldl (\<lambda>total (start, stop, name).
        total + (word_of_nat (length (lookup_or_empty vals name)) - word_of_nat (stop - start)))
      (word_of_nat (length template)) (scanPlaceholders template)"

text \<open>
  The segments a template consists of: literal text and holes. They are a
  function of the template alone.
\<close>

datatype segment = Lit string | Hole string

fun segments_of :: "string \<Rightarrow> nat \<Rightarrow> visit list \<Rightarrow> segment list" where
  "segments_of t pos [] = [Lit (drop pos t)]"
| "segments_of t pos ((start, stop, name) # vs) =
    Lit (take (start - pos) (drop pos t)) # Hole name # segments_of t stop vs"

definition template_segments :: "string \<Rightarrow> segment list" where
  "template_segments t = segments_of t 0 (scanPlaceholders t)"

fun fill :: "(string \<Rightarrow> string) \<Rightarrow> segment \<Rightarrow> string" where
  "fill f (Lit s) = s"
| "fill f (Hole n) = f n"

definition braced :: "string \<Rightarrow> string" where
  "braced name = openDelim @ name @ closeDelim"

text \<open>Visits are in order, disjoint, and each covers exactly a braced valid name.\<close>

fun visits_ok :: "string \<Rightarrow> nat \<Rightarrow> visit list \<Rightarrow> bool" where
  "visits_ok t pos [] \<longleftrightarrow> pos \<le> length t"
| "visits_ok t pos ((start, stop, name) # vs) \<longleftrightarrow>
     pos \<le> start \<and> stop = start + length name + 4 \<and> stop \<le> length t \<and> validName name \<and>
     take (stop - start) (drop start t) = braced name \<and> visits_ok t stop vs"

lemma scan_reference_induct_step:
  assumes "str_index openDelim (drop q t) = Some off"
    and "str_index closeDelim (drop (off + q + 2) t) = Some len"
  shows "off + q + 2 + len + 2 \<le> length t"
    and "take (len + 4) (drop (off + q) t) = braced (take len (drop (off + q + 2) t))"
proof -
  obtain r where r: "drop (off + q) t = openDelim @ r"
    using assms(1) by (auto simp: str_index_Some_iff has_prefix_iff add.commute)
  then have r': "r = drop (off + q + 2) t"
    by (metis append_eq_conv_conj drop_drop add.commute length_delims(1))
  obtain r2 where r2: "drop len r = closeDelim @ r2" and len: "len \<le> length r"
    using assms(2) r' by (auto simp: str_index_Some_iff has_prefix_iff)
  then have "r = take len r @ closeDelim @ r2"
    by (metis append_take_drop_id)
  then have "drop (off + q) t = braced (take len r) @ r2"
    using r by (simp add: braced_def)
  moreover have "length (braced (take len r)) = len + 4"
    using len by (simp add: braced_def)
  ultimately show "take (len + 4) (drop (off + q) t) = braced (take len (drop (off + q + 2) t))"
    using r' by simp
  show "off + q + 2 + len + 2 \<le> length t"
    using str_index_bound [OF assms(2)] len r' by simp
qed

lemma visits_ok_mono: "visits_ok t q vs \<Longrightarrow> p \<le> q \<Longrightarrow> visits_ok t p vs"
  by (cases "(t, p, vs)" rule: visits_ok.cases) auto

lemma visits_ok_scan_reference: "pos \<le> length t \<Longrightarrow> visits_ok t pos (scan_reference t pos)"
proof (induction t pos rule: scan_reference.induct)
  case (1 t pos)
  show ?case
  proof (cases "str_index openDelim (drop pos t)")
    case None
    then show ?thesis using 1 by (simp add: scan_reference.simps)
  next
    case off: (Some off)
    let ?b = "off + pos + 2"
    show ?thesis
    proof (cases "str_index closeDelim (drop ?b t)")
      case None
      then show ?thesis using 1 off by (simp add: scan_reference.simps [of t pos] Let_def)
    next
      case len: (Some len)
      note step = scan_reference_induct_step [OF off len]
      let ?span = "take len (drop ?b t)"
      have l: "length ?span = len" using step by simp
      show ?thesis
      proof (cases "validName ?span")
        case True
        have "visits_ok t (?b + len + 2) (scan_reference t (?b + len + 2))"
          by (rule 1(1) [OF off refl refl len refl True]) (rule step)
        then show ?thesis
          unfolding scan_reference_accept [OF off len True] using step l True by (simp add: add_ac)
      next
        case False
        have "visits_ok t ?b (scan_reference t ?b)"
          by (rule 1(2) [OF off refl refl len refl False]) (use step in linarith)
        then show ?thesis
          unfolding scan_reference_reject [OF off len False] by (rule visits_ok_mono) simp
      qed
    qed
  qed
qed

lemma visits_ok_scan: "visits_ok t 0 (scanPlaceholders t)"
  by (simp add: scanPlaceholders_def scan_from_eq_reference visits_ok_scan_reference)

lemma foldl_render_visit:
  "(case foldl (render_visit t vals) (out, pos) vs of (o', c) \<Rightarrow> o' @ drop c t) =
   out @ concat (map (fill (lookup_or_empty vals)) (segments_of t pos vs))"
proof (induction vs arbitrary: out pos)
  case (Cons v vs)
  then show ?case by (cases v) (simp add: render_visit_def)
qed simp

lemma RenderTemplate_segments:
  "RenderTemplate t vals = concat (map (fill (lookup_or_empty vals)) (template_segments t))"
  using foldl_render_visit [of t vals "[]" 0]
  by (simp add: RenderTemplate_def template_segments_def)

lemma concat_fill_braced:
  "visits_ok t pos vs \<Longrightarrow> concat (map (fill braced) (segments_of t pos vs)) = drop pos t"
proof (induction vs arbitrary: pos)
  case (Cons v vs)
  obtain start stop name where v: "v = (start, stop, name)" by (cases v)
  have ok: "pos \<le> start" "start \<le> stop" "take (stop - start) (drop start t) = braced name"
      "visits_ok t stop vs"
    using Cons.prems v by auto
  have "take (start - pos) (drop pos t) @ take (stop - start) (drop start t) @ drop stop t = drop pos t"
    using ok(1,2) by (metis append_take_drop_id drop_drop le_add_diff_inverse2)
  then show ?case using Cons.IH [OF ok(4)] v ok(3) by simp
qed simp

lemma holes_segments_of:
  "concat (map (\<lambda>s. case s of Lit _ \<Rightarrow> [] | Hole n \<Rightarrow> [n]) (segments_of t pos vs)) = map (\<lambda>(_, _, n). n) vs"
  by (induction t pos vs rule: segments_of.induct) auto

lemma visits_ok_names: "visits_ok t pos vs \<Longrightarrow> list_all validName (map (\<lambda>(_, _, n). n) vs)"
  by (induction t pos vs rule: visits_ok.induct) auto

lemma length_fill:
  "visits_ok t pos vs \<Longrightarrow>
    int (length (concat (map (fill f) (segments_of t pos vs)))) =
    int (length t) - int pos + (\<Sum>(start, stop, name) \<leftarrow> vs. int (length (f name)) - int (stop - start))"
proof (induction vs arbitrary: pos)
  case (Cons v vs)
  obtain start stop name where v: "v = (start, stop, name)" by (cases v)
  have ok: "pos \<le> start" "start \<le> stop" "stop \<le> length t" "visits_ok t stop vs"
    using Cons.prems v by auto
  then show ?case using Cons.IH [OF ok(4)] v by (simp add: of_nat_diff)
qed simp

lemma RenderedLen_sum:
  "RenderedLen t vals = word_of_int (int (length t) +
     (\<Sum>(start, stop, name) \<leftarrow> scanPlaceholders t.
        int (length (lookup_or_empty vals name)) - int (stop - start)))"
proof -
  have "foldl (\<lambda>total (start, stop, name).
        total + (word_of_nat (length (lookup_or_empty vals name)) - word_of_nat (stop - start)))
      (word_of_int k :: 64 word) vs =
     word_of_int (k + (\<Sum>(start, stop, name) \<leftarrow> vs.
        int (length (lookup_or_empty vals name)) - int (stop - start)))" for k vs
  proof (induction vs arbitrary: k)
    case (Cons v vs)
    obtain start stop name where v: "v = (start, stop, name)" by (cases v)
    have "(word_of_int k :: 64 word) + (word_of_nat (length (lookup_or_empty vals name)) - word_of_nat (stop - start))
      = word_of_int (k + (int (length (lookup_or_empty vals name)) - int (stop - start)))"
      by simp
    then show ?case using v by (simp only: foldl_Cons prod.case Cons.IH) (simp add: add.assoc)
  qed simp
  from this [of "int (length t)" "scanPlaceholders t"] show ?thesis
    by (simp add: RenderedLen_def)
qed

lemma length_RenderTemplate:
  "int (length (RenderTemplate t vals)) = int (length t) +
     (\<Sum>(start, stop, name) \<leftarrow> scanPlaceholders t.
        int (length (lookup_or_empty vals name)) - int (stop - start))"
  using length_fill [OF visits_ok_scan] by (simp add: RenderTemplate_segments template_segments_def)

lemma sint_word_of_int_small:
  assumes "0 \<le> k" and "k < 2 ^ 63"
  shows "sint (word_of_int k :: 64 word) = k"
  using assms by (simp add: sint_sbintrunc' signed_take_bit_int_eq_self_iff signed_take_bit_int_eq_self)

section \<open>No placeholder is hidden\<close>

lemma has_prefix_two:
  "has_prefix (drop i t) [c, d] \<longleftrightarrow> Suc i < length t \<and> t ! i = c \<and> t ! Suc i = d"
proof -
  have "has_prefix (drop i t) [c, d] \<longleftrightarrow> (\<exists>r. drop i t = c # d # r)"
    by (simp add: has_prefix_iff)
  also have "\<dots> \<longleftrightarrow> Suc i < length t \<and> t ! i = c \<and> t ! Suc i = d"
  proof
    assume "\<exists>r. drop i t = c # d # r"
    then obtain r where r: "drop i t = c # d # r" ..
    then have "length (drop i t) = Suc (Suc (length r))" by simp
    then have "Suc i < length t" by simp
    moreover have "t ! i = c" using r by (metis nth_via_drop)
    moreover have "drop (Suc i) t = d # r" using r by (metis drop_Suc list.sel(3) tl_drop)
    ultimately show "Suc i < length t \<and> t ! i = c \<and> t ! Suc i = d" by (metis nth_via_drop)
  qed (metis Cons_nth_drop_Suc Suc_lessD)
  finally show ?thesis .
qed

lemmas delim_at = has_prefix_two [of _ _ "CHR ''{''" "CHR ''{''", folded openDelim_def]
  has_prefix_two [of _ _ "CHR ''}''" "CHR ''}''", folded closeDelim_def]

lemma scan_reference_complete:
  assumes t: "t = a @ braced n @ b" and n: "validName n" and a: "a = [] \<or> last a \<noteq> CHR ''{''"
  shows "pos \<le> length a \<Longrightarrow> (length a, length a + length n + 4, n) \<in> set (scan_reference t pos)"
  using t
proof (induction t pos rule: scan_reference.induct)
  case (1 t pos)
  let ?A = "length a"
  have dA: "drop ?A t = openDelim @ n @ closeDelim @ b" and dB: "drop (?A + 2) t = n @ closeDelim @ b"
    using 1(4) by (simp_all add: braced_def openDelim_def)
  have hitA: "has_prefix (drop ?A t) openDelim" using dA by simp
  have dC: "drop (length n) (drop (?A + 2) t) = closeDelim @ b" unfolding dB by simp
  then have hitC: "has_prefix (drop (?A + 2 + length n) t) closeDelim"
    by (simp add: add_ac)
  have lenA: "?A + length n + 4 \<le> length t" and brA: "t ! ?A = CHR ''{''"
    using 1(4) by (simp_all add: braced_def nth_append openDelim_def)
  obtain off where off: "str_index openDelim (drop pos t) = Some off" and le: "off + pos \<le> ?A"
    by (rule str_index_le_hit [of "?A - pos" "drop pos t" openDelim]) (use hitA 1(3) lenA in auto)
  let ?q = "off + pos"
  have brq: "t ! ?q = CHR ''{''" "t ! Suc ?q = CHR ''{''"
    using off by (auto simp: str_index_Some_iff delim_at add.commute)
  show ?case
  proof (cases "?q = ?A")
    case True
    have close: "str_index closeDelim (drop (?q + 2) t) = Some (length n)"
      unfolding True dB using validName_no_brace(2) [OF n]
      by (intro str_index_append_hit)
        (auto simp: closeDelim_def has_prefix_iff Cons_nth_drop_Suc [symmetric] nth_append dest: nth_mem)
    have "take (length n) (drop (?q + 2) t) = n" unfolding True dB by simp
    then show ?thesis
      using scan_reference_accept [OF off close] n True by (simp add: add_ac)
  next
    case False
    have last: "t ! (?A - 1) \<noteq> CHR ''{''" if "0 < ?A"
      using a 1(4) that by (auto simp: nth_append last_conv_nth)
    have "?q \<noteq> ?A - 1" "Suc ?q \<noteq> ?A - 1"
      using last brq False le by (metis diff_is_0_eq' le_0_eq neq0_conv zero_less_diff)+
    with False le have q2: "?q + 2 \<le> ?A" by linarith
    obtain len where close: "str_index closeDelim (drop (?q + 2) t) = Some len"
      and "len \<le> ?A - ?q + length n"
      by (rule str_index_le_hit [of "?A - ?q + length n" "drop (?q + 2) t" closeDelim])
        (use hitC q2 lenA in auto)
    have brc: "t ! (?q + 2 + len) = CHR ''}''" "t ! Suc (?q + 2 + len) = CHR ''}''"
      using close by (auto simp: str_index_Some_iff delim_at add_ac)
    show ?thesis
    proof (cases "validName (take len (drop (?q + 2) t))")
      case True
      have "?q + 2 + len \<le> ?A"
      proof (rule ccontr)
        assume "\<not> ?q + 2 + len \<le> ?A"
        then have "t ! ?A \<in> set (take len (drop (?q + 2) t))"
          using q2 lenA by (auto simp: in_set_conv_nth intro!: exI [of _ "?A - (?q + 2)"] arg_cong [of _ _ "(!) t"])
        with True brA validName_no_brace(1) show False by simp
      qed
      moreover have ne: "CHR ''}'' \<noteq> CHR ''{''" by simp
      then have "?q + 2 + len \<noteq> ?A" "Suc (?q + 2 + len) \<noteq> ?A"
        using brA brc by metis+
      ultimately have "?q + 2 + len + 2 \<le> ?A" by linarith
      then show ?thesis
        using 1(1) [OF off refl refl close refl True] 1(4) scan_reference_accept [OF off close True]
        by simp
    next
      case False
      then show ?thesis
        using 1(2) [OF off refl refl close refl False q2] 1(4) scan_reference_reject [OF off close False]
        by simp
    qed
  qed
qed

section \<open>Properties\<close>

text \<open>
  C10. The scanner that jumps to the last reachable opening delimiter of a
  rejected span visits exactly what the plain left-to-right scan visits, the
  scan that resumes just after every rejected opening delimiter.
\<close>

theorem scanPlaceholders_eq_reference: "scanPlaceholders t = scan_reference t 0"
  by (simp add: scanPlaceholders_def scan_from_eq_reference)

text \<open>
  C11. A template splits, independently of any argument value, into literal text
  and placeholders: putting each placeholder back gives the template, its
  holes are the placeholders validation sees, and rendering is the same
  sequence with each hole replaced once by its value. So a value is never
  re-scanned and literal text is copied verbatim.
\<close>

theorem RenderTemplate_substitutes_once:
  "concat (map (fill braced) (template_segments t)) = t \<and>
   concat (map (\<lambda>s. case s of Lit _ \<Rightarrow> [] | Hole n \<Rightarrow> [n]) (template_segments t)) = templatePlaceholders t \<and>
   list_all validName (templatePlaceholders t) \<and>
   RenderTemplate t vals = concat (map (fill (lookup_or_empty vals)) (template_segments t))"
proof (intro conjI)
  show "concat (map (fill braced) (template_segments t)) = t"
    using concat_fill_braced [OF visits_ok_scan] by (simp add: template_segments_def)
  show "concat (map (\<lambda>s. case s of Lit _ \<Rightarrow> [] | Hole n \<Rightarrow> [n]) (template_segments t)) = templatePlaceholders t"
    by (simp add: template_segments_def templatePlaceholders_def holes_segments_of)
  show "list_all validName (templatePlaceholders t)"
    using visits_ok_names [OF visits_ok_scan] by (simp add: templatePlaceholders_def)
qed (rule RenderTemplate_segments)

text \<open>
  The rendered length computed without rendering, in 64-bit signed
  arithmetic, is the length of the rendered text whenever that length is
  representable.
\<close>

theorem RenderedLen_correct:
  assumes "length (RenderTemplate t vals) < 2 ^ 63"
  shows "sint (RenderedLen t vals) = int (length (RenderTemplate t vals))"
proof -
  have "RenderedLen t vals = word_of_int (int (length (RenderTemplate t vals)))"
    by (simp only: RenderedLen_sum length_RenderTemplate)
  moreover have "int (length (RenderTemplate t vals)) < 2 ^ 63"
    using assms by simp
  ultimately show ?thesis
    by (simp only: sint_word_of_int_small of_nat_0_le_iff)
qed

theorem RenderedLen_correct_witness:
  "length (RenderTemplate ''Hi {{name}}!'' [''name'' \<mapsto> ''{{x}}'']) = 9 \<and>
   sint (RenderedLen ''Hi {{name}}!'' [''name'' \<mapsto> ''{{x}}'']) = 9"
proof -
  have "length (RenderTemplate ''Hi {{name}}!'' [''name'' \<mapsto> ''{{x}}'']) = 9" by code_simp
  then show ?thesis
    using RenderedLen_correct [of "''Hi {{name}}!''" "[''name'' \<mapsto> ''{{x}}'']"] by simp
qed

text \<open>
  Literal brace text never hides a later placeholder: an occurrence of
  \<^verbatim>\<open>{{name}}\<close> with a valid name that is not preceded by another opening brace
  is visited, at its own offsets.
\<close>

theorem placeholder_never_hidden:
  assumes "validName n" and "a = [] \<or> last a \<noteq> CHR ''{''"
  shows "(length a, length a + length n + 4, n) \<in> set (scanPlaceholders (a @ braced n @ b))"
  using scan_reference_complete [OF refl assms, of 0 b]
  by (simp add: scanPlaceholders_def scan_from_eq_reference)

theorem placeholder_never_hidden_witness:
  "(6, 11, ''x'') \<in> set (scanPlaceholders (''{{a b '' @ braced ''x'' @ ''}}''))"
  using placeholder_never_hidden [of "''x''" "''{{a b ''" "''}}''"]
  by (simp add: validName_iff isNameRune_def byte_def numeral_eq_Suc)

end
