(* ===== verification/Ax_Contract.thy ===== *)
theory Ax_Contract
  imports Go_Strings "HOL-Library.AList"
begin

text \<open>
  The import-isolated core package \<^verbatim>\<open>contract/\<close>: exit codes, error codes,
  output modes, the values carried by a context, metadata and success
  envelopes, warnings, and the structured error with its options, wrap chain
  and exit-code mapping. A \<^verbatim>\<open>context.Context\<close> is a record of the values the
  packages store in it; a nil context is \<^term>\<open>None\<close>. A Go error is a value of
  the datatype \<^verbatim>\<open>go_error\<close>, one constructor per error type the sources
  create or inspect.
\<close>

section \<open>Exit codes and error codes\<close>

definition ExitSuccess :: int where "ExitSuccess = 0"
definition ExitInternal :: int where "ExitInternal = 1"
definition ExitValidation :: int where "ExitValidation = 2"
definition ExitNetwork :: int where "ExitNetwork = 3"
definition ExitAuth :: int where "ExitAuth = 4"

lemmas exit_defs = ExitSuccess_def ExitInternal_def ExitValidation_def ExitNetwork_def ExitAuth_def

definition ErrorCodeWarningsAsErrors :: string where
  "ErrorCodeWarningsAsErrors = ''warnings_as_errors''"
definition ErrorCodeConfigInvalid :: string where
  "ErrorCodeConfigInvalid = ''config_invalid''"
definition ErrorCodeConfigMaxBytesInvalid :: string where
  "ErrorCodeConfigMaxBytesInvalid = ''config_max_bytes_invalid''"
definition ErrorCodeConfigOptionInvalid :: string where
  "ErrorCodeConfigOptionInvalid = ''config_option_invalid''"
definition ErrorCodeConfigPatchInvalid :: string where
  "ErrorCodeConfigPatchInvalid = ''config_patch_invalid''"
definition ErrorCodeConfigTooLarge :: string where
  "ErrorCodeConfigTooLarge = ''config_too_large''"
definition ErrorCodeConfirmationRequired :: string where
  "ErrorCodeConfirmationRequired = ''confirmation_required''"
definition ErrorCodeInternalError :: string where
  "ErrorCodeInternalError = ''internal_error''"
definition ErrorCodeValidationError :: string where
  "ErrorCodeValidationError = ''validation_error''"
definition ErrorCodeInvalidSchemaDeclaration :: string where
  "ErrorCodeInvalidSchemaDeclaration = ''invalid_schema_declaration''"

lemmas code_defs = ErrorCodeWarningsAsErrors_def ErrorCodeConfigInvalid_def
  ErrorCodeConfigMaxBytesInvalid_def ErrorCodeConfigOptionInvalid_def
  ErrorCodeConfigPatchInvalid_def ErrorCodeConfigTooLarge_def ErrorCodeConfirmationRequired_def
  ErrorCodeInternalError_def ErrorCodeValidationError_def ErrorCodeInvalidSchemaDeclaration_def

definition KnownErrorCodes :: "string list" where
  "KnownErrorCodes =
    [ErrorCodeConfigInvalid, ErrorCodeConfigMaxBytesInvalid, ErrorCodeConfigOptionInvalid,
     ErrorCodeConfigPatchInvalid, ErrorCodeConfigTooLarge, ErrorCodeConfirmationRequired,
     ErrorCodeInternalError, ErrorCodeValidationError, ErrorCodeWarningsAsErrors]"

definition authoringTimeErrorCodes :: "string list" where
  "authoringTimeErrorCodes = [ErrorCodeInvalidSchemaDeclaration]"

section \<open>Values, errors and their chains\<close>

text \<open>\<^verbatim>\<open>any\<close> as the sources use it: a value that encodes as JSON.\<close>

datatype any_value =
    NullVal
  | BoolVal bool
  | IntVal int
  | StrVal string
  | ListVal "any_value list"
  | ObjVal "(string \<times> any_value) list"

text \<open>The exported fields of \<^verbatim>\<open>contract.Error\<close> and its exit code; the cause is kept beside them.\<close>

record ax_fields =
  ErrorCode :: string
  Message :: string
  TraceID :: string
  Tool :: string
  Version :: string
  SchemaVersion :: string
  ActionableFix :: string
  Context :: "(string \<times> any_value) list"
  Suggestions :: "string list"
  Retryable :: "bool option"
  RetryAfterSeconds :: int
  exitCode :: int

text \<open>
  Go errors. \<^verbatim>\<open>NilAxError\<close> is a nil \<^verbatim>\<open>*contract.Error\<close> stored in an error
  interface, \<^verbatim>\<open>TextError\<close> a leaf with a text of its own, \<^verbatim>\<open>WrapError\<close> the result
  of \<^verbatim>\<open>fmt.Errorf("prefix: %w", err)\<close>, \<^verbatim>\<open>SuffixError\<close> of \<^verbatim>\<open>fmt.Errorf("%w: %s", err, text)\<close>, \<^verbatim>\<open>JoinError\<close>
  of \<^verbatim>\<open>errors.Join\<close>; \<^verbatim>\<open>ErrPermission\<close> is the sentinel of \<^verbatim>\<open>io/fs\<close>, and \<^verbatim>\<open>AnalysisError\<close> the type of
  \<^verbatim>\<open>src/internal/unreadfield/types.go\<close>.
\<close>

datatype go_error =
    AxError ax_fields "go_error option"
  | NilAxError
  | DeadlineExceeded
  | Canceled
  | EOF
  | ErrNoProgress
  | TextError string
  | ErrPermission
  | WrapError string go_error
  | SuffixError go_error string
  | AnalysisError string go_error
  | JoinError "go_error list"
  | UrlError string string go_error
  | InvalidUnmarshalError string
  | InvalidMaxBytesError int
  | TooLargeError int
  | HujsonParseError go_error
  | PatchApplyError go_error

text \<open>
  The errors \<^verbatim>\<open>errors.Is\<close> and \<^verbatim>\<open>errors.As\<close> inspect, in their order: the error
  itself, then depth-first what its \<^verbatim>\<open>Unwrap\<close> gives.
\<close>

fun error_tree :: "go_error \<Rightarrow> go_error list" where
  "error_tree (AxError f c) = AxError f c # (case c of None \<Rightarrow> [] | Some e \<Rightarrow> error_tree e)"
| "error_tree (WrapError p e) = WrapError p e # error_tree e"
| "error_tree (SuffixError e s) = SuffixError e s # error_tree e"
| "error_tree (AnalysisError c e) = AnalysisError c e # error_tree e"
| "error_tree (JoinError es) = JoinError es # concat (map error_tree es)"
| "error_tree (UrlError op u e) = UrlError op u e # error_tree e"
| "error_tree (HujsonParseError e) = HujsonParseError e # error_tree e"
| "error_tree (PatchApplyError e) = PatchApplyError e # error_tree e"
| "error_tree e = [e]"

lemma error_tree_self [simp]: "e \<in> set (error_tree e)"
  by (cases e) auto

definition errors_is :: "go_error \<Rightarrow> go_error \<Rightarrow> bool" where
  "errors_is e target \<longleftrightarrow> target \<in> set (error_tree e)"

definition is_ax_error :: "go_error \<Rightarrow> bool" where
  "is_ax_error e \<longleftrightarrow> (case e of AxError _ _ \<Rightarrow> True | NilAxError \<Rightarrow> True | _ \<Rightarrow> False)"

definition errors_as :: "(go_error \<Rightarrow> bool) \<Rightarrow> go_error \<Rightarrow> go_error option" where
  "errors_as is_type e = List.find is_type (error_tree e)"

lemma errors_as_self: "is_type e \<Longrightarrow> errors_as is_type e = Some e"
  by (cases e) (auto simp: errors_as_def)

lemma errors_as_type: "errors_as is_type e = Some x \<Longrightarrow> is_type x \<and> x \<in> set (error_tree e)"
  by (auto simp: errors_as_def find_Some_iff)

lemma errors_as_None: "errors_as is_type e = None \<longleftrightarrow> (\<forall>x \<in> set (error_tree e). \<not> is_type x)"
  by (auto simp: errors_as_def find_None_iff)

text \<open>The text of an error: its \<^verbatim>\<open>Error()\<close> method.\<close>

definition MaxConfigBytesCeiling :: int where
  "MaxConfigBytesCeiling = 2 ^ 30"

fun error_text :: "(nat \<Rightarrow> bool) \<Rightarrow> go_error \<Rightarrow> string" where
  "error_text isprint (AxError f c) = Message f"
| "error_text isprint NilAxError = []"
| "error_text isprint DeadlineExceeded = ''context deadline exceeded''"
| "error_text isprint Canceled = ''context canceled''"
| "error_text isprint EOF = ''EOF''"
| "error_text isprint ErrNoProgress = ''multiple Read calls return no data or error''"
| "error_text isprint (TextError s) = s"
| "error_text isprint (WrapError p e) = p @ '': '' @ error_text isprint e"
| "error_text isprint ErrPermission = ''permission denied''"
| "error_text isprint (SuffixError e s) = error_text isprint e @ '': '' @ s"
| "error_text isprint (AnalysisError c e) = ''configuration '' @ c @ '': '' @ error_text isprint e"
| "error_text isprint (JoinError es) = str_join [char_of (10 :: nat)] (map (error_text isprint) es)"
| "error_text isprint (UrlError op u e) = op @ '' '' @ quote isprint u @ '': '' @ error_text isprint e"
| "error_text isprint (InvalidUnmarshalError s) = s"
| "error_text isprint (InvalidMaxBytesError n) =
     ''config max bytes must be between 0 and '' @ itoa MaxConfigBytesCeiling"
| "error_text isprint (TooLargeError n) = ''config exceeds maximum size of '' @ itoa n @ '' bytes''"
| "error_text isprint (HujsonParseError e) = ''parse hujson: '' @ error_text isprint e"
| "error_text isprint (PatchApplyError e) = ''apply patch: '' @ error_text isprint e"

section \<open>Output modes\<close>

type_synonym Mode = string

definition ModeJSON :: Mode where "ModeJSON = ''json''"
definition ModeHuman :: Mode where "ModeHuman = ''human''"
definition modeAgent :: string where "modeAgent = ''agent''"
definition modeMachine :: string where "modeMachine = ''machine''"
definition modeText :: string where "modeText = ''text''"
definition truthyTrue :: string where "truthyTrue = ''true''"

lemmas mode_defs = ModeJSON_def ModeHuman_def modeAgent_def modeMachine_def modeText_def truthyTrue_def

definition ParseMode :: "(nat \<Rightarrow> bool) \<Rightarrow> string \<Rightarrow> go_error + Mode" where
  "ParseMode isprint s =
    (let w = to_lower (trim_space s) in
     if w = ModeJSON \<or> w = modeAgent \<or> w = modeMachine then Inr ModeJSON
     else if w = ModeHuman \<or> w = modeText then Inr ModeHuman
     else Inl (TextError (''unknown output mode '' @ quote isprint s)))"

definition parseAgentMode :: "(nat \<Rightarrow> bool) \<Rightarrow> string \<Rightarrow> go_error + Mode" where
  "parseAgentMode isprint s =
    (let w = to_lower (trim_space s) in
     if w \<in> {''1'', truthyTrue, ''yes'', ''on'', ModeJSON, modeAgent, modeMachine} then Inr ModeJSON
     else if w \<in> {''0'', ''false'', ''no'', ''off'', ModeHuman, modeText} then Inr ModeHuman
     else Inl (TextError (''unknown AGENT_MODE value '' @ quote isprint s)))"

definition ResolveMode :: "(nat \<Rightarrow> bool) \<Rightarrow> string \<Rightarrow> string \<Rightarrow> bool \<Rightarrow> go_error + Mode" where
  "ResolveMode isprint explicitFormat agentMode stdoutIsTTY =
    (if trim_space explicitFormat \<noteq> [] then ParseMode isprint explicitFormat
     else if trim_space agentMode \<noteq> [] then parseAgentMode isprint agentMode
     else if stdoutIsTTY then Inr ModeHuman
     else Inr ModeJSON)"

section \<open>Metadata and the context\<close>

record Metadata =
  m_TraceID :: string
  m_SpanID :: string
  m_IdempotencyKey :: string
  m_DryRun :: bool

definition zero_metadata :: Metadata where
  "zero_metadata = \<lparr>m_TraceID = [], m_SpanID = [], m_IdempotencyKey = [], m_DryRun = False\<rparr>"

definition ZeroTraceID :: string where
  "ZeroTraceID = replicate 32 (CHR ''0'')"

definition ZeroSpanID :: string where
  "ZeroSpanID = replicate 16 (CHR ''0'')"

text \<open>
  The values stored in a context by \<^verbatim>\<open>contract\<close>, the audit switch of \<^verbatim>\<open>guard.go\<close>,
  and the trace and span id of the active OpenTelemetry span, when it has them.
\<close>

record gctx =
  c_mode :: "Mode option"
  c_dry_run :: "bool option"
  c_approval :: "bool option"
  c_idempotency_key :: "string option"
  c_metadata :: "Metadata option"
  c_audit :: "bool option"
  c_trace_id :: "string option"
  c_span_id :: "string option"

definition Background :: gctx where
  "Background = \<lparr>c_mode = None, c_dry_run = None, c_approval = None, c_idempotency_key = None,
     c_metadata = None, c_audit = None, c_trace_id = None, c_span_id = None\<rparr>"

definition or_background :: "gctx option \<Rightarrow> gctx" where
  "or_background ctx = (case ctx of None \<Rightarrow> Background | Some c \<Rightarrow> c)"

lemma or_background_simps [simp]: "or_background None = Background" "or_background (Some c) = c"
  by (simp_all add: or_background_def)

definition WithMode :: "gctx \<Rightarrow> Mode \<Rightarrow> gctx" where
  "WithMode ctx mode = ctx\<lparr>c_mode := Some mode\<rparr>"

definition ModeFromContext :: "gctx \<Rightarrow> Mode \<times> bool" where
  "ModeFromContext ctx = (case c_mode ctx of None \<Rightarrow> ([], False) | Some m \<Rightarrow> (m, True))"

definition WithDryRun :: "gctx \<Rightarrow> bool \<Rightarrow> gctx" where
  "WithDryRun ctx dryRun = ctx\<lparr>c_dry_run := Some dryRun\<rparr>"

definition DryRunFromContext :: "gctx \<Rightarrow> bool" where
  "DryRunFromContext ctx \<longleftrightarrow> c_dry_run ctx = Some True"

definition WithApproval :: "gctx \<Rightarrow> bool \<Rightarrow> gctx" where
  "WithApproval ctx granted = ctx\<lparr>c_approval := Some granted\<rparr>"

definition ApprovalFromContext :: "gctx \<Rightarrow> bool" where
  "ApprovalFromContext ctx \<longleftrightarrow> c_approval ctx = Some True"

definition WithIdempotencyKey :: "gctx \<Rightarrow> string \<Rightarrow> gctx" where
  "WithIdempotencyKey ctx k = ctx\<lparr>c_idempotency_key := Some k\<rparr>"

definition IdempotencyKeyFromContext :: "gctx \<Rightarrow> string \<times> bool" where
  "IdempotencyKeyFromContext ctx =
    (case c_idempotency_key ctx of None \<Rightarrow> ([], False) | Some k \<Rightarrow> (k, k \<noteq> []))"

definition WithMetadata :: "gctx \<Rightarrow> Metadata \<Rightarrow> gctx" where
  "WithMetadata ctx md = ctx\<lparr>c_metadata := Some md\<rparr>"

definition normalizeMetadata :: "Metadata \<Rightarrow> Metadata" where
  "normalizeMetadata md =
    (let md1 = (if m_TraceID md = [] then md\<lparr>m_TraceID := ZeroTraceID\<rparr> else md) in
     if m_SpanID md1 = [] then md1\<lparr>m_SpanID := ZeroSpanID\<rparr> else md1)"

definition MetadataFromContext :: "gctx option \<Rightarrow> Metadata" where
  "MetadataFromContext ctx0 =
    (let ctx = or_background ctx0;
         md0 = (case c_metadata ctx of None \<Rightarrow> zero_metadata | Some md \<Rightarrow> md);
         md1 = normalizeMetadata md0;
         md2 = (case IdempotencyKeyFromContext ctx of
                  (k, ok) \<Rightarrow> if ok then md1\<lparr>m_IdempotencyKey := k\<rparr> else md1)
     in if DryRunFromContext ctx then md2\<lparr>m_DryRun := True\<rparr> else md2)"

definition TraceIDFromContext :: "gctx option \<Rightarrow> string" where
  "TraceIDFromContext ctx = m_TraceID (MetadataFromContext ctx)"

definition SpanIDFromContext :: "gctx option \<Rightarrow> string" where
  "SpanIDFromContext ctx = m_SpanID (MetadataFromContext ctx)"

text \<open>
  The root package's view (\<^verbatim>\<open>trace.go\<close>): the live span's ids replace whatever
  metadata the context carries.
\<close>

definition traceIDs :: "gctx \<Rightarrow> string \<times> string" where
  "traceIDs ctx =
    (case c_trace_id ctx of None \<Rightarrow> ZeroTraceID | Some t \<Rightarrow> t,
     case c_span_id ctx of None \<Rightarrow> ZeroSpanID | Some s \<Rightarrow> s)"

definition withTraceMetadata :: "gctx option \<Rightarrow> gctx" where
  "withTraceMetadata ctx0 =
    (let ctx = or_background ctx0 in
     case traceIDs ctx of (t, s) \<Rightarrow> WithMetadata ctx (zero_metadata\<lparr>m_TraceID := t, m_SpanID := s\<rparr>))"

definition root_MetadataFromContext :: "gctx option \<Rightarrow> Metadata" where
  "root_MetadataFromContext ctx = MetadataFromContext (Some (withTraceMetadata ctx))"

definition root_TraceIDFromContext :: "gctx \<Rightarrow> string" where
  "root_TraceIDFromContext ctx = fst (traceIDs ctx)"

lemmas ctx_defs = WithMode_def ModeFromContext_def WithDryRun_def DryRunFromContext_def
  WithApproval_def ApprovalFromContext_def WithIdempotencyKey_def IdempotencyKeyFromContext_def
  WithMetadata_def Background_def

lemma zero_ids_nonempty [simp]: "ZeroTraceID \<noteq> []" "ZeroSpanID \<noteq> []"
  by (simp_all add: ZeroTraceID_def ZeroSpanID_def)

lemma normalizeMetadata_ids [simp]:
  "m_TraceID (normalizeMetadata md) = (if m_TraceID md = [] then ZeroTraceID else m_TraceID md)"
  "m_SpanID (normalizeMetadata md) = (if m_SpanID md = [] then ZeroSpanID else m_SpanID md)"
  "m_IdempotencyKey (normalizeMetadata md) = m_IdempotencyKey md"
  "m_DryRun (normalizeMetadata md) = m_DryRun md"
  by (simp_all add: normalizeMetadata_def Let_def)

section \<open>Envelopes and warnings\<close>

record Warning =
  w_Code :: string
  w_Message :: string

record 'a Envelope =
  Data :: 'a
  Meta :: Metadata
  Warnings :: "Warning list"

definition NewEnvelope :: "gctx option \<Rightarrow> 'a \<Rightarrow> 'a Envelope" where
  "NewEnvelope ctx d = \<lparr>Data = d, Meta = MetadataFromContext ctx, Warnings = []\<rparr>"

definition keep_warning :: "Warning \<Rightarrow> bool" where
  "keep_warning w \<longleftrightarrow> \<not> (trim_space (w_Code w) = [] \<or> trim_space (w_Message w) = [])"

definition WithWarnings :: "'a Envelope \<Rightarrow> Warning list \<Rightarrow> 'a Envelope" where
  "WithWarnings env warnings =
    (let kept = map (\<lambda>w. \<lparr>w_Code = w_Code w, w_Message = w_Message w\<rparr>) (filter keep_warning warnings) in
     if kept = [] then env\<lparr>Warnings := []\<rparr> else env\<lparr>Warnings := kept\<rparr>)"

section \<open>Structured errors\<close>

type_synonym ax_error = "ax_fields \<times> go_error option"
type_synonym error_option = "ax_error \<Rightarrow> ax_error"

definition ErrorSchemaVersion :: string where
  "ErrorSchemaVersion = ''1.0.0''"

definition as_error :: "ax_error \<Rightarrow> go_error" where
  "as_error e = AxError (fst e) (snd e)"

definition NewError :: "gctx option \<Rightarrow> string \<Rightarrow> string \<Rightarrow> error_option list \<Rightarrow> ax_error" where
  "NewError ctx errcode message opts =
    apply_opts opts
      (\<lparr>ErrorCode = errcode, Message = message, TraceID = TraceIDFromContext ctx, Tool = [],
        Version = [], SchemaVersion = ErrorSchemaVersion, ActionableFix = [], Context = [],
        Suggestions = [], Retryable = None, RetryAfterSeconds = 0, exitCode = ExitInternal\<rparr>, None)"

definition WithErrorTool :: "string \<Rightarrow> error_option" where
  "WithErrorTool tool = apfst (Tool_update (\<lambda>_. tool))"

definition WithErrorVersion :: "string \<Rightarrow> error_option" where
  "WithErrorVersion version = apfst (Version_update (\<lambda>_. version))"

definition WithActionableFix :: "string \<Rightarrow> error_option" where
  "WithActionableFix fixtext = apfst (ActionableFix_update (\<lambda>_. fixtext))"

definition WithErrorContext :: "(string \<times> any_value) list \<Rightarrow> error_option" where
  "WithErrorContext flds =
     apfst (Context_update (\<lambda>c. foldl (\<lambda>m (k, v). AList.update k v m) c flds))"

definition WithSuggestions :: "string list \<Rightarrow> error_option" where
  "WithSuggestions suggestions = apfst (Suggestions_update (\<lambda>xs. xs @ suggestions))"

definition WithRetryable :: "bool \<Rightarrow> error_option" where
  "WithRetryable retryable = apfst (Retryable_update (\<lambda>_. Some retryable))"

definition WithRetryAfterSeconds :: "int \<Rightarrow> error_option" where
  "WithRetryAfterSeconds seconds =
     apfst (\<lambda>e. if seconds \<ge> 0 then e\<lparr>RetryAfterSeconds := seconds\<rparr> else e)"

definition WithErrorExitCode :: "int \<Rightarrow> error_option" where
  "WithErrorExitCode c = apfst (exitCode_update (\<lambda>_. c))"

definition WithErrorCause :: "go_error option \<Rightarrow> error_option" where
  "WithErrorCause err = apsnd (\<lambda>_. err)"

lemmas option_defs = WithErrorTool_def WithErrorVersion_def WithActionableFix_def
  WithErrorContext_def WithSuggestions_def WithRetryable_def WithRetryAfterSeconds_def
  WithErrorExitCode_def WithErrorCause_def

text \<open>\<^verbatim>\<open>(*Error).ExitCode\<close>, on the receiver as an error value.\<close>

definition ExitCode :: "go_error \<Rightarrow> int" where
  "ExitCode e =
    (case e of AxError f _ \<Rightarrow> (if exitCode f = 0 then ExitInternal else exitCode f)
     | _ \<Rightarrow> ExitInternal)"

definition ErrorExitCode :: "go_error option \<Rightarrow> int" where
  "ErrorExitCode err =
    (case err of
       None \<Rightarrow> ExitSuccess
     | Some e \<Rightarrow>
         (case errors_as is_ax_error e of
            Some x \<Rightarrow> ExitCode x
          | None \<Rightarrow>
              if errors_is e DeadlineExceeded then ExitNetwork
              else if errors_is e Canceled then ExitInternal
              else ExitInternal))"

text \<open>
  The JSON object of an error: the exported fields in declaration order, those
  tagged \<^verbatim>\<open>omitempty\<close> dropped when empty; a map encodes with sorted keys.
\<close>

definition omit_if :: "bool \<Rightarrow> string \<Rightarrow> any_value \<Rightarrow> (string \<times> any_value) list" where
  "omit_if blank k v = (if blank then [] else [(k, v)])"

definition error_json :: "ax_fields \<Rightarrow> any_value" where
  "error_json e = ObjVal
    ([(''error_code'', StrVal (ErrorCode e)), (''message'', StrVal (Message e)),
      (''trace_id'', StrVal (TraceID e)), (''tool'', StrVal (Tool e)),
      (''version'', StrVal (Version e)), (''schema_version'', StrVal (SchemaVersion e))] @
     omit_if (ActionableFix e = []) ''actionable_fix'' (StrVal (ActionableFix e)) @
     omit_if (Context e = []) ''context'' (ObjVal (sort_key fst (Context e))) @
     omit_if (Suggestions e = []) ''suggestions'' (ListVal (map StrVal (Suggestions e))) @
     (case Retryable e of None \<Rightarrow> [] | Some b \<Rightarrow> [(''retryable'', BoolVal b)]) @
     omit_if (RetryAfterSeconds e = 0) ''retry_after_seconds'' (IntVal (RetryAfterSeconds e)))"

text \<open>
  \<^verbatim>\<open>WriteError\<close>. The arguments stand for \<^verbatim>\<open>json.Marshal\<close> on that object and for
  the writer's \<^verbatim>\<open>Write\<close>; the result is the payload handed to the writer, if
  any, and the returned error.
\<close>

definition WriteError ::
  "(nat \<Rightarrow> bool) \<Rightarrow> (any_value \<Rightarrow> go_error + string) \<Rightarrow> (string \<Rightarrow> go_error option) \<Rightarrow>
   go_error option \<Rightarrow> string option \<times> go_error option" where
  "WriteError isprint marshal write_to err =
    (case err of
       None \<Rightarrow> (None, None)
     | Some e \<Rightarrow>
         let contractErr =
           (case errors_as is_ax_error e of
              Some x \<Rightarrow> x
            | None \<Rightarrow> as_error (NewError (Some Background) ErrorCodeInternalError (error_text isprint e) []));
           json = (case contractErr of AxError f _ \<Rightarrow> error_json f | _ \<Rightarrow> NullVal)
         in (case marshal json of
               Inl me \<Rightarrow> (None, Some (WrapError ''marshal error envelope'' me))
             | Inr payload \<Rightarrow>
                 let line = payload @ [char_of (10 :: nat)] in (Some line, write_to line)))"

section \<open>Lemmas\<close>

lemma ExitCode_nonzero: "ExitCode e \<noteq> ExitSuccess"
  by (simp add: ExitCode_def exit_defs split: go_error.split)

lemma errors_as_wrap: "\<not> is_type (WrapError p e) \<Longrightarrow> errors_as is_type (WrapError p e) = errors_as is_type e"
  by (simp add: errors_as_def)

lemma is_ax_error_simps [simp]:
  "is_ax_error (AxError f c)" "is_ax_error NilAxError" "\<not> is_ax_error (WrapError p e)"
  "\<not> is_ax_error DeadlineExceeded" "\<not> is_ax_error Canceled" "\<not> is_ax_error (TextError s)"
  by (simp_all add: is_ax_error_def)

lemma ErrorExitCode_AxError [simp]: "ErrorExitCode (Some (AxError f c)) = ExitCode (AxError f c)"
  by (simp add: ErrorExitCode_def errors_as_self)

lemma MetadataFromContext_ids:
  "m_TraceID (MetadataFromContext ctx) \<noteq> []" "m_SpanID (MetadataFromContext ctx) \<noteq> []"
  by (simp_all add: MetadataFromContext_def Let_def split: option.splits prod.splits)

lemma MetadataFromContext_fields:
  "m_TraceID (MetadataFromContext (Some c)) =
     (case c_metadata c of None \<Rightarrow> ZeroTraceID | Some md \<Rightarrow> if m_TraceID md = [] then ZeroTraceID else m_TraceID md)"
  "m_IdempotencyKey (MetadataFromContext (Some c)) =
     (case c_idempotency_key c of Some (x # xs) \<Rightarrow> x # xs
      | _ \<Rightarrow> (case c_metadata c of None \<Rightarrow> [] | Some md \<Rightarrow> m_IdempotencyKey md))"
  "m_DryRun (MetadataFromContext (Some c)) \<longleftrightarrow>
     DryRunFromContext c \<or> (case c_metadata c of None \<Rightarrow> False | Some md \<Rightarrow> m_DryRun md)"
  by (auto simp: MetadataFromContext_def IdempotencyKeyFromContext_def zero_metadata_def Let_def
      split: option.splits list.splits)

lemma withTraceMetadata_fields [simp]:
  "c_metadata (withTraceMetadata (Some c)) =
     Some (zero_metadata\<lparr>m_TraceID := fst (traceIDs c), m_SpanID := snd (traceIDs c)\<rparr>)"
  "c_idempotency_key (withTraceMetadata (Some c)) = c_idempotency_key c"
  "c_dry_run (withTraceMetadata (Some c)) = c_dry_run c"
  by (simp_all add: withTraceMetadata_def WithMetadata_def split: prod.splits)

lemma withTraceMetadata_overrides: "withTraceMetadata (Some (WithMetadata c md)) = withTraceMetadata (Some c)"
  by (simp add: withTraceMetadata_def WithMetadata_def traceIDs_def)

lemma ParseMode_result: "ParseMode isprint s = Inr m \<Longrightarrow> m = ModeJSON \<or> m = ModeHuman"
  by (auto simp: ParseMode_def Let_def split: if_splits)

lemma parseAgentMode_result: "parseAgentMode isprint s = Inr m \<Longrightarrow> m = ModeJSON \<or> m = ModeHuman"
  by (auto simp: parseAgentMode_def Let_def split: if_splits)

lemma to_lower_trim_lower_word:
  assumes "\<forall>c \<in> set s. 97 \<le> byte c \<and> byte c \<le> 122"
  shows "to_lower (trim_space s) = s"
proof -
  have ch: "rune_chunks s = map (\<lambda>c. (byte c, [c])) s"
    using assms by (intro rune_chunks_all_ascii) auto
  have "dropWhile (is_space \<circ> fst) (map (\<lambda>c. (byte c, [c])) t) = map (\<lambda>c. (byte c, [c])) t"
    if "\<forall>c \<in> set t. 97 \<le> byte c \<and> byte c \<le> 122" for t
    using that by (cases t) (auto simp: is_space_def)
  from this [of s] this [of "rev s"] assms have "trim_space s = s"
    by (simp add: trim_space_def trim_chunks_def ch rev_map comp_def flip: rev_map)
  moreover have "to_lower s = concat (map (\<lambda>c. [c]) s)"
    unfolding to_lower_def ch map_map
    by (rule arg_cong [of _ _ concat], rule map_cong [OF refl])
      (use assms in \<open>auto simp: lower_chunk_def rune_error_def\<close>)
  ultimately show ?thesis by simp
qed

lemma mode_words_parse:
  "ParseMode pr ModeJSON = Inr ModeJSON" "parseAgentMode pr ModeJSON = Inr ModeJSON"
  "ParseMode pr ModeHuman = Inr ModeHuman" "parseAgentMode pr ModeHuman = Inr ModeHuman"
proof -
  have j: "to_lower (trim_space ModeJSON) = ModeJSON" and h: "to_lower (trim_space ModeHuman) = ModeHuman"
    by (rule to_lower_trim_lower_word, simp add: mode_defs byte_def)+
  show "ParseMode pr ModeJSON = Inr ModeJSON" "parseAgentMode pr ModeJSON = Inr ModeJSON"
    by (simp_all add: ParseMode_def parseAgentMode_def j Let_def)
  have "ModeHuman \<noteq> ModeJSON" "ModeHuman \<noteq> modeAgent" "ModeHuman \<noteq> modeMachine" "ModeHuman \<noteq> truthyTrue"
      "ModeHuman \<noteq> ''1''" "ModeHuman \<noteq> ''yes''" "ModeHuman \<noteq> ''on''"
    by (simp_all add: mode_defs)
  then show "ParseMode pr ModeHuman = Inr ModeHuman" "parseAgentMode pr ModeHuman = Inr ModeHuman"
    by (simp_all add: ParseMode_def parseAgentMode_def h Let_def)
qed

lemma WithWarnings_Warnings [simp]: "Warnings (WithWarnings env ws) = filter keep_warning ws"
  by (simp add: WithWarnings_def Let_def map_idI)

lemma filter_keep_idem: "Warnings (WithWarnings env (Warnings (WithWarnings env ws))) = Warnings (WithWarnings env ws)"
  by simp

section \<open>Properties\<close>

text \<open>
  The process exit code is zero exactly for a nil error, and wrapping an
  error with \<^verbatim>\<open>%w\<close> never changes its exit code, whatever the error is.
\<close>

theorem ErrorExitCode_contract:
  "(ErrorExitCode err = ExitSuccess \<longleftrightarrow> err = None) \<and>
   ErrorExitCode (Some (WrapError p e)) = ErrorExitCode (Some e)"
proof
  show "ErrorExitCode err = ExitSuccess \<longleftrightarrow> err = None"
    using ExitCode_nonzero by (auto simp: ErrorExitCode_def exit_defs split: option.splits)
  show "ErrorExitCode (Some (WrapError p e)) = ErrorExitCode (Some e)"
    by (simp add: ErrorExitCode_def errors_as_wrap errors_is_def)
qed

text \<open>
  Output-mode precedence: a non-blank format flag decides alone; otherwise a
  non-blank AGENT_MODE decides; otherwise the terminal does, without error.
  A resolved mode is json or human, and each mode's wire value parses to itself.
\<close>

theorem ResolveMode_precedence:
  "(trim_space f \<noteq> [] \<longrightarrow> ResolveMode pr f a tty = ParseMode pr f) \<and>
   (trim_space f = [] \<and> trim_space a \<noteq> [] \<longrightarrow> ResolveMode pr f a tty = parseAgentMode pr a) \<and>
   (trim_space f = [] \<and> trim_space a = [] \<longrightarrow>
      ResolveMode pr f a tty = Inr (if tty then ModeHuman else ModeJSON)) \<and>
   (ResolveMode pr f a tty = Inr m \<longrightarrow> m = ModeJSON \<or> m = ModeHuman) \<and>
   (\<forall>w \<in> {ModeJSON, ModeHuman}. ParseMode pr w = Inr w \<and> parseAgentMode pr w = Inr w)"
proof (intro conjI impI ballI)
  show "m = ModeJSON \<or> m = ModeHuman" if "ResolveMode pr f a tty = Inr m"
    using that by (auto simp: ResolveMode_def dest: ParseMode_result parseAgentMode_result split: if_splits)
  fix w assume "w \<in> {ModeJSON, ModeHuman}"
  then show "ParseMode pr w = Inr w" "parseAgentMode pr w = Inr w"
    using mode_words_parse by auto
qed (auto simp: ResolveMode_def)

theorem ResolveMode_precedence_witness:
  "ResolveMode (\<lambda>_. True) ModeHuman ''1'' False = ParseMode (\<lambda>_. True) ModeHuman \<and>
   ResolveMode (\<lambda>_. True) [] '' '' True = Inr ModeHuman"
proof -
  have "to_lower (trim_space ModeHuman) = ModeHuman" by (rule to_lower_trim_lower_word) (simp_all add: mode_defs byte_def)
  moreover have "to_lower [] \<noteq> ModeHuman" by (simp add: mode_defs) code_simp
  ultimately have word: "trim_space ModeHuman \<noteq> []" by fastforce
  have blank: "trim_space [] = [] \<and> trim_space '' '' = []" by code_simp
  have "ResolveMode (\<lambda>_. True) [] '' '' True = Inr (if True then ModeHuman else ModeJSON)"
    by (rule ResolveMode_precedence [THEN conjunct2, THEN conjunct2, THEN conjunct1, rule_format, OF blank])
  then show ?thesis
    using ResolveMode_precedence [THEN conjunct1, rule_format, OF word] by (simp only: if_True simp_thms)
qed

text \<open>
  Envelope metadata always carries a trace id and a span id; seen from the
  root package they are the live span's ids, or the zero ids without a span,
  whatever metadata was stored before; dry-run and a non-empty idempotency key
  of the context are always reported.
\<close>

theorem root_MetadataFromContext_live:
  "m_TraceID (MetadataFromContext ctx) \<noteq> [] \<and> m_SpanID (MetadataFromContext ctx) \<noteq> [] \<and>
   root_MetadataFromContext (Some (WithMetadata c md)) = root_MetadataFromContext (Some c) \<and>
   (c_trace_id c = None \<longrightarrow> m_TraceID (root_MetadataFromContext (Some c)) = ZeroTraceID) \<and>
   (\<forall>t. c_trace_id c = Some t \<and> t \<noteq> [] \<longrightarrow> m_TraceID (root_MetadataFromContext (Some c)) = t) \<and>
   m_DryRun (root_MetadataFromContext (Some (WithDryRun c True))) \<and>
   (k \<noteq> [] \<longrightarrow> m_IdempotencyKey (root_MetadataFromContext (Some (WithIdempotencyKey c k))) = k)"
proof (intro conjI impI allI)
  show "m_TraceID (MetadataFromContext ctx) \<noteq> []" "m_SpanID (MetadataFromContext ctx) \<noteq> []"
    by (rule MetadataFromContext_ids)+
  show "root_MetadataFromContext (Some (WithMetadata c md)) = root_MetadataFromContext (Some c)"
    by (simp add: root_MetadataFromContext_def withTraceMetadata_overrides)
  show "m_TraceID (root_MetadataFromContext (Some c)) = ZeroTraceID" if "c_trace_id c = None"
    using that by (simp add: root_MetadataFromContext_def MetadataFromContext_fields traceIDs_def)
  show "m_TraceID (root_MetadataFromContext (Some c)) = t" if "c_trace_id c = Some t \<and> t \<noteq> []" for t
    using that by (simp add: root_MetadataFromContext_def MetadataFromContext_fields traceIDs_def)
  show "m_DryRun (root_MetadataFromContext (Some (WithDryRun c True)))"
    by (simp add: root_MetadataFromContext_def MetadataFromContext_fields DryRunFromContext_def WithDryRun_def)
  show "m_IdempotencyKey (root_MetadataFromContext (Some (WithIdempotencyKey c k))) = k" if "k \<noteq> []"
    using that by (cases k)
      (simp_all add: root_MetadataFromContext_def MetadataFromContext_fields WithIdempotencyKey_def)
qed

theorem root_MetadataFromContext_live_witness:
  "m_TraceID (root_MetadataFromContext (Some (Background\<lparr>c_trace_id := Some ''abc''\<rparr>))) = ''abc'' \<and>
   m_IdempotencyKey (root_MetadataFromContext (Some (WithIdempotencyKey Background ''k1''))) = ''k1''"
  using root_MetadataFromContext_live [of None "Background\<lparr>c_trace_id := Some ''abc''\<rparr>" zero_metadata "''k1''"]
    root_MetadataFromContext_live [of None Background zero_metadata "''k1''"] by simp

text \<open>
  The registry of run-time error codes is strictly sorted byte-wise, so it
  has no duplicates, and is disjoint from the authoring-time codes.
\<close>

theorem KnownErrorCodes_registry:
  "sorted_wrt (<) KnownErrorCodes \<and> distinct (KnownErrorCodes @ authoringTimeErrorCodes)"
  by code_simp

end
