(* ===== verification/Ax_Guard.thy ===== *)
theory Ax_Guard
  imports Ax_Contract
begin

text \<open>
  The dry-run and audit helpers of \<^verbatim>\<open>guard.go\<close> and the confirmation gate of
  \<^verbatim>\<open>confirm.go\<close>. A callback is a function of the context and an arbitrary
  world; it returns an error or panics, and changes the world. Running a helper
  yields its outcome, the new world, and the sequence of log lines and callback
  invocations in the order they happen.
\<close>

section \<open>Callbacks, log lines, runs\<close>

datatype 'r outcome = Returned 'r | Panicked string

type_synonym 'w callback = "gctx \<Rightarrow> 'w \<Rightarrow> go_error option outcome \<times> 'w"

datatype level = InfoLevel | ErrorLevel

record log_line =
  lg_level :: level
  lg_fields :: "(string \<times> any_value) list"
  lg_msg :: string

datatype event = Line log_line | Invoke string

type_synonym ('r, 'w) run = "'r outcome \<times> 'w \<times> event list"

definition WithAudit :: "gctx \<Rightarrow> bool \<Rightarrow> gctx" where
  "WithAudit ctx enabled = ctx\<lparr>c_audit := Some enabled\<rparr>"

definition AuditEnabledFromContext :: "gctx \<Rightarrow> bool" where
  "AuditEnabledFromContext ctx = (case c_audit ctx of None \<Rightarrow> True | Some enabled \<Rightarrow> enabled)"

definition logAuditStart :: "string \<Rightarrow> string \<Rightarrow> log_line" where
  "logAuditStart helper description =
    \<lparr>lg_level = InfoLevel, lg_fields = [(''ax_helper'', StrVal helper), (''description'', StrVal description)],
     lg_msg = ''ax: about to run effect''\<rparr>"

definition is_url_error :: "go_error \<Rightarrow> bool" where
  "is_url_error e = (case e of UrlError _ _ _ \<Rightarrow> True | _ \<Rightarrow> False)"

definition redact_url :: "go_error \<Rightarrow> go_error" where
  "redact_url err = (case errors_as is_url_error err of Some (UrlError _ _ inner) \<Rightarrow> inner | _ \<Rightarrow> err)"

definition logAuditOutcome :: "(nat \<Rightarrow> bool) \<Rightarrow> string \<Rightarrow> string \<Rightarrow> go_error option \<Rightarrow> log_line" where
  "logAuditOutcome isprint helper description err =
    (case err of
       Some e \<Rightarrow>
         \<lparr>lg_level = ErrorLevel,
          lg_fields = [(''ax_helper'', StrVal helper), (''description'', StrVal description),
                  (''error'', StrVal (error_text isprint (redact_url e)))],
          lg_msg = ''ax: effect failed''\<rparr>
     | None \<Rightarrow>
         \<lparr>lg_level = InfoLevel, lg_fields = [(''ax_helper'', StrVal helper), (''description'', StrVal description)],
          lg_msg = ''ax: effect succeeded''\<rparr>)"

definition logAuditAbnormal :: "string \<Rightarrow> string \<Rightarrow> log_line" where
  "logAuditAbnormal helper description =
    \<lparr>lg_level = ErrorLevel, lg_fields = [(''ax_helper'', StrVal helper), (''description'', StrVal description)],
     lg_msg = ''ax: effect did not return normally''\<rparr>"

definition logDryRunSkip :: "string \<Rightarrow> log_line" where
  "logDryRunSkip helper =
    \<lparr>lg_level = InfoLevel, lg_fields = [(''dry_run'', BoolVal True), (''ax_helper'', StrVal helper)],
     lg_msg = ''dry-run: side effect suppressed''\<rparr>"

section \<open>Running an effect\<close>

definition runAudited ::
  "(nat \<Rightarrow> bool) \<Rightarrow> gctx \<Rightarrow> string \<Rightarrow> string \<Rightarrow> string \<Rightarrow> 'w callback \<Rightarrow> 'w \<Rightarrow> (go_error option, 'w) run" where
  "runAudited isprint ctx helper description name fn w =
    (if \<not> AuditEnabledFromContext ctx then
       (case fn ctx w of (out, w') \<Rightarrow> (out, w', [Invoke name]))
     else
       (case fn ctx w of
          (Returned err, w') \<Rightarrow>
            (Returned err, w',
             [Line (logAuditStart helper description), Invoke name,
              Line (logAuditOutcome isprint helper description err)])
        | (Panicked p, w') \<Rightarrow>
            (Panicked p, w',
             [Line (logAuditStart helper description), Invoke name,
              Line (logAuditAbnormal helper description)])))"

fun map_outcome :: "('a \<Rightarrow> 'b) \<Rightarrow> ('a, 'w) run \<Rightarrow> ('b, 'w) run" where
  "map_outcome f (Returned r, w, evs) = (Returned (f r), w, evs)"
| "map_outcome f (Panicked p, w, evs) = (Panicked p, w, evs)"

definition guard ::
  "(nat \<Rightarrow> bool) \<Rightarrow> gctx option \<Rightarrow> string \<Rightarrow> 'w callback option \<Rightarrow> 'w \<Rightarrow> (bool \<times> go_error option, 'w) run" where
  "guard isprint ctx0 description effect w =
    (let ctx = or_background ctx0 in
     if DryRunFromContext ctx then
       (Returned (False, None), w, if effect \<noteq> None then [Line (logDryRunSkip ''Guard'')] else [])
     else
       (case effect of
          None \<Rightarrow> (Returned (False, None), w, [])
        | Some fn \<Rightarrow> map_outcome (\<lambda>err. (True, err)) (runAudited isprint ctx ''Guard'' description ''effect'' fn w)))"

definition perform ::
  "(nat \<Rightarrow> bool) \<Rightarrow> gctx option \<Rightarrow> string \<Rightarrow> 'w callback option \<Rightarrow> 'w callback option \<Rightarrow> 'w \<Rightarrow>
   (go_error option, 'w) run" where
  "perform isprint ctx0 description rehearse commit w =
    (let ctx = or_background ctx0;
         skip = (if commit \<noteq> None then [Line (logDryRunSkip ''Perform'')] else [])
     in
     if \<not> DryRunFromContext ctx then
       (case commit of
          None \<Rightarrow> (Returned None, w, [])
        | Some fn \<Rightarrow> runAudited isprint ctx ''Perform'' description ''commit'' fn w)
     else
       (case rehearse of
          None \<Rightarrow> (Returned None, w, skip)
        | Some fn \<Rightarrow>
            (case fn ctx w of
               (Returned None, w') \<Rightarrow> (Returned None, w', Invoke ''rehearse'' # skip)
             | (out, w') \<Rightarrow> (out, w', [Invoke ''rehearse'']))))"

definition Guard :: "(nat \<Rightarrow> bool) \<Rightarrow> gctx option \<Rightarrow> 'w callback option \<Rightarrow> 'w \<Rightarrow> (bool \<times> go_error option, 'w) run" where
  "Guard isprint ctx effect = guard isprint ctx [] effect"

definition GuardWithAudit ::
  "(nat \<Rightarrow> bool) \<Rightarrow> gctx option \<Rightarrow> string \<Rightarrow> 'w callback option \<Rightarrow> 'w \<Rightarrow> (bool \<times> go_error option, 'w) run" where
  "GuardWithAudit isprint ctx description effect = guard isprint ctx description effect"

definition Perform ::
  "(nat \<Rightarrow> bool) \<Rightarrow> gctx option \<Rightarrow> 'w callback option \<Rightarrow> 'w callback option \<Rightarrow> 'w \<Rightarrow> (go_error option, 'w) run" where
  "Perform isprint ctx rehearse commit = perform isprint ctx [] rehearse commit"

definition PerformWithAudit ::
  "(nat \<Rightarrow> bool) \<Rightarrow> gctx option \<Rightarrow> string \<Rightarrow> 'w callback option \<Rightarrow> 'w callback option \<Rightarrow> 'w \<Rightarrow>
   (go_error option, 'w) run" where
  "PerformWithAudit isprint ctx description rehearse commit = perform isprint ctx description rehearse commit"

section \<open>Confirmation\<close>

datatype ConfirmationOutcome = ConfirmationApproved | ConfirmationBlocked | ConfirmationPromptRequired

definition root_NewError :: "gctx option \<Rightarrow> string \<Rightarrow> string \<Rightarrow> error_option list \<Rightarrow> ax_error" where
  "root_NewError ctx errcode message opts = NewError (Some (withTraceMetadata ctx)) errcode message opts"

definition Confirm :: "gctx option \<Rightarrow> string \<Rightarrow> ConfirmationOutcome \<times> ax_error option" where
  "Confirm ctx0 subject =
    (let ctx = or_background ctx0 in
     if ApprovalFromContext ctx then (ConfirmationApproved, None)
     else if (case ModeFromContext ctx of (mode, ok) \<Rightarrow> ok \<and> mode = ModeHuman) then
       (ConfirmationPromptRequired, None)
     else
       (ConfirmationBlocked,
        Some (root_NewError (Some ctx) ErrorCodeConfirmationRequired (''confirmation required: '' @ subject)
          [WithActionableFix ''pass --yes to confirm this operation'', WithErrorExitCode ExitValidation])))"

section \<open>Lemmas\<close>

definition run_outcome :: "('r, 'w) run \<Rightarrow> 'r outcome" where "run_outcome r = fst r"
definition run_world :: "('r, 'w) run \<Rightarrow> 'w" where "run_world r = fst (snd r)"
definition run_events :: "('r, 'w) run \<Rightarrow> event list" where "run_events r = snd (snd r)"

lemmas run_defs = run_outcome_def run_world_def run_events_def

fun tag_true :: "go_error option outcome \<Rightarrow> (bool \<times> go_error option) outcome" where
  "tag_true (Returned err) = Returned (True, err)"
| "tag_true (Panicked p) = Panicked p"

lemma runAudited_transparent:
  "(run_outcome (runAudited isprint ctx h d n fn w), run_world (runAudited isprint ctx h d n fn w)) = fn ctx w"
  by (simp add: runAudited_def run_defs split: prod.splits outcome.splits)

definition audited_events ::
  "(nat \<Rightarrow> bool) \<Rightarrow> gctx option \<Rightarrow> string \<Rightarrow> string \<Rightarrow> string \<Rightarrow> 'w callback \<Rightarrow> 'w \<Rightarrow> event list" where
  "audited_events isprint ctx h d n fn w =
    (if AuditEnabledFromContext (or_background ctx) then
       [Line (logAuditStart h d), Invoke n,
        Line (case fst (fn (or_background ctx) w) of Returned err \<Rightarrow> logAuditOutcome isprint h d err
              | Panicked _ \<Rightarrow> logAuditAbnormal h d)]
     else [Invoke n])"

lemma runAudited_events:
  "run_events (runAudited isprint ctx h d n fn w) =
    (if AuditEnabledFromContext ctx then
       [Line (logAuditStart h d), Invoke n,
        Line (case fst (fn ctx w) of Returned err \<Rightarrow> logAuditOutcome isprint h d err
              | Panicked _ \<Rightarrow> logAuditAbnormal h d)]
     else [Invoke n])"
  by (simp add: runAudited_def run_defs split: prod.splits outcome.splits)

lemma map_outcome_parts [simp]:
  "run_world (map_outcome f r) = run_world r" "run_events (map_outcome f r) = run_events r"
  by (cases "(f, r)" rule: map_outcome.cases; simp add: run_defs)+

lemma map_outcome_True [simp]: "run_outcome (map_outcome (\<lambda>err. (True, err)) r) = tag_true (run_outcome r)"
  by (cases "(\<lambda>err :: go_error option. (True, err), r)" rule: map_outcome.cases) (auto simp: run_defs)

lemma redact_url_wrapped: "redact_url (WrapError p (UrlError op u e)) = e" "redact_url (UrlError op u e) = e"
  by (simp_all add: redact_url_def errors_as_def is_url_error_def)

definition confirm_error :: "gctx \<Rightarrow> string \<Rightarrow> ax_error" where
  "confirm_error ctx subject =
     root_NewError (Some ctx) ErrorCodeConfirmationRequired (''confirmation required: '' @ subject)
       [WithActionableFix ''pass --yes to confirm this operation'', WithErrorExitCode ExitValidation]"

lemma confirm_error_fields:
  "ErrorCode (fst (confirm_error ctx s)) = ErrorCodeConfirmationRequired"
  "ErrorExitCode (Some (as_error (confirm_error ctx s))) = ExitValidation"
  by (simp_all add: confirm_error_def root_NewError_def NewError_def as_error_def ExitCode_def
      option_defs exit_defs)

lemma Confirm_unfold:
  "Confirm ctx s =
    (if ApprovalFromContext (or_background ctx) then (ConfirmationApproved, None)
     else if c_mode (or_background ctx) = Some ModeHuman then (ConfirmationPromptRequired, None)
     else (ConfirmationBlocked, Some (confirm_error (or_background ctx) s)))"
  by (auto simp: Confirm_def confirm_error_def ModeFromContext_def Let_def split: option.splits)

section \<open>Properties\<close>

text \<open>
  C1. Under dry-run no side effect happens: Guard leaves the world as it is and
  reports that nothing ran, and Perform behaves as if it ran only the rehearsal,
  whatever the commit callback would do. The effect and the commit are never
  invoked, and the only line logged is the single suppression line.
\<close>

theorem dry_run_runs_no_effect:
  assumes "DryRunFromContext (or_background ctx)"
  shows "guard pr ctx d (Some eff) w = (Returned (False, None), w, [Line (logDryRunSkip ''Guard'')]) \<and>
    guard pr ctx d None w = (Returned (False, None), w, []) \<and>
    perform pr ctx d rehearse (Some commit) w = perform pr ctx d rehearse (Some commit') w \<and>
    perform pr ctx d None (Some commit) w = (Returned None, w, [Line (logDryRunSkip ''Perform'')]) \<and>
    (run_outcome (perform pr ctx d (Some reh) c w), run_world (perform pr ctx d (Some reh) c w)) =
      reh (or_background ctx) w \<and>
    Invoke ''commit'' \<notin> set (run_events (perform pr ctx d rehearse c w))"
  using assms by (auto simp: guard_def perform_def run_defs split: option.splits outcome.splits prod.splits)

theorem dry_run_runs_no_effect_witness:
  "guard (\<lambda>_. True) (Some (WithDryRun Background True)) ''drop table''
     (Some (\<lambda>_ n. (Returned None, n + 1))) (41 :: nat)
   = (Returned (False, None), 41, [Line (logDryRunSkip ''Guard'')])"
  by (rule dry_run_runs_no_effect [THEN conjunct1]) (simp add: DryRunFromContext_def WithDryRun_def)

text \<open>
  C12. On a real run the helpers are transparent: outcome and world are exactly
  the callback's, error value included, with or without audit logging. With
  audit on, a start line precedes the callback and one line for its success,
  failure or panic follows it; with audit off nothing is logged.
\<close>

theorem real_run_transparent:
  assumes "\<not> DryRunFromContext (or_background ctx)"
  shows "run_outcome (guard pr ctx d (Some eff) w) = tag_true (fst (eff (or_background ctx) w)) \<and>
    run_world (guard pr ctx d (Some eff) w) = snd (eff (or_background ctx) w) \<and>
    (run_outcome (perform pr ctx d reh (Some com) w), run_world (perform pr ctx d reh (Some com) w)) =
      com (or_background ctx) w \<and>
    run_events (guard pr ctx d (Some eff) w) = audited_events pr ctx ''Guard'' d ''effect'' eff w \<and>
    run_events (perform pr ctx d reh (Some com) w) = audited_events pr ctx ''Perform'' d ''commit'' com w"
proof -
  note tr = runAudited_transparent [of pr "or_background ctx" _ d]
  show ?thesis
    using assms tr [of "''Guard''" "''effect''" eff w] tr [of "''Perform''" "''commit''" com w]
    by (simp add: guard_def perform_def runAudited_events audited_events_def prod_eq_iff)
qed

theorem real_run_transparent_witness:
  "run_world (guard (\<lambda>_. True) None ''step'' (Some (\<lambda>_ n. (Panicked ''boom'', n + 1))) (41 :: nat)) = 42"
  using real_run_transparent [of None "\<lambda>_. True" "''step''" "\<lambda>_ n. (Panicked ''boom'', n + 1)" "41 :: nat"]
  by (simp add: DryRunFromContext_def Background_def)

text \<open>
  The confirmation gate: it proceeds exactly on explicit approval, asks for
  a prompt exactly in human mode without approval, and otherwise blocks with a
  \<^verbatim>\<open>confirmation_required\<close> error whose exit code is 2. It never depends on
  dry-run.
\<close>

theorem Confirm_gate:
  "(fst (Confirm ctx s) = ConfirmationApproved \<longleftrightarrow> ApprovalFromContext (or_background ctx)) \<and>
   (fst (Confirm ctx s) = ConfirmationPromptRequired \<longleftrightarrow>
      \<not> ApprovalFromContext (or_background ctx) \<and> c_mode (or_background ctx) = Some ModeHuman) \<and>
   (case snd (Confirm ctx s) of
      None \<Rightarrow> fst (Confirm ctx s) \<noteq> ConfirmationBlocked
    | Some e \<Rightarrow> fst (Confirm ctx s) = ConfirmationBlocked \<and> ErrorCode (fst e) = ErrorCodeConfirmationRequired \<and>
        ErrorExitCode (Some (as_error e)) = ExitValidation) \<and>
   fst (Confirm (Some (WithDryRun (or_background ctx) b)) s) = fst (Confirm ctx s)"
  by (simp add: Confirm_unfold confirm_error_fields)
    (simp add: ApprovalFromContext_def WithDryRun_def)

end
