(* ===== verification/Loki_Streams.thy ===== *)
theory Loki_Streams
  imports Ax_Guard "HOL-Library.Product_Lexorder" "HOL-Library.Multiset"
begin

text \<open>
  The push side of \<^verbatim>\<open>loki.go\<close>: how one batch of log lines becomes Loki streams.
  Level extraction, the sanctioned-label gate, the stream key with its order,
  the label map, and \<^verbatim>\<open>postBatch\<close> with its request and diagnostics.
  \<^verbatim>\<open>json.Unmarshal\<close> of a line and of a raw field, \<^verbatim>\<open>json.Marshal\<close> of the body
  and the HTTP client are arguments; every theorem here holds for all of them.
\<close>

section \<open>Entries, keys, labels\<close>

record lokiEntry =
  ts :: int
  line :: string

datatype lokiStreamKey = LokiStreamKey
  (k_environment: string) (k_application: string) (k_host: string) (k_version: string) (k_level: string)

type_synonym labelPair = "string \<times> string"

record Labels =
  Environment :: string
  Application :: string
  Host :: string
  LVersion :: string

definition levelUnknown :: string where "levelUnknown = ''unknown''"
definition lokiLabelEnvironment :: string where "lokiLabelEnvironment = ''environment''"
definition lokiLabelApplication :: string where "lokiLabelApplication = ''application''"
definition lokiLabelHost :: string where "lokiLabelHost = ''host''"
definition lokiLabelVersion :: string where "lokiLabelVersion = ''version''"
definition lokiLabelLevel :: string where "lokiLabelLevel = ''level''"

lemmas label_defs = lokiLabelEnvironment_def lokiLabelApplication_def lokiLabelHost_def
  lokiLabelVersion_def lokiLabelLevel_def

definition compareStreamKeys :: "lokiStreamKey \<Rightarrow> lokiStreamKey \<Rightarrow> bool" where
  "compareStreamKeys a b =
    (if k_environment a \<noteq> k_environment b then k_environment a < k_environment b
     else if k_application a \<noteq> k_application b then k_application a < k_application b
     else if k_host a \<noteq> k_host b then k_host a < k_host b
     else if k_version a \<noteq> k_version b then k_version a < k_version b
     else k_level a < k_level b)"

text \<open>The comparison is a strict total order, so \<^verbatim>\<open>sort.Slice\<close> is the library's \<^term>\<open>sort\<close>.\<close>

definition key_tuple :: "lokiStreamKey \<Rightarrow> string \<times> string \<times> string \<times> string \<times> string" where
  "key_tuple a = (k_environment a, k_application a, k_host a, k_version a, k_level a)"

lemma key_tuple_inject: "key_tuple a = key_tuple b \<longleftrightarrow> a = b"
  by (cases a; cases b) (auto simp: key_tuple_def)

lemma compareStreamKeys_tuple: "compareStreamKeys a b \<longleftrightarrow> key_tuple a < key_tuple b"
  by (auto simp: compareStreamKeys_def key_tuple_def less_prod_def)

instantiation lokiStreamKey :: linorder
begin

definition less_lokiStreamKey :: "lokiStreamKey \<Rightarrow> lokiStreamKey \<Rightarrow> bool" where
  "less_lokiStreamKey a b \<longleftrightarrow> compareStreamKeys a b"

definition less_eq_lokiStreamKey :: "lokiStreamKey \<Rightarrow> lokiStreamKey \<Rightarrow> bool" where
  "less_eq_lokiStreamKey a b \<longleftrightarrow> a = b \<or> compareStreamKeys a b"

instance
  by standard
    (auto simp: less_lokiStreamKey_def less_eq_lokiStreamKey_def compareStreamKeys_tuple
      key_tuple_inject [symmetric])

end

definition extractLevel :: "string \<Rightarrow> string" where
  "extractLevel ln =
    (let pre = [char_of (34 :: nat)] @ ''level'' @ [char_of (34 :: nat)] @ '':'' @ [char_of (34 :: nat)] in
     case str_index pre ln of
       None \<Rightarrow> levelUnknown
     | Some i \<Rightarrow>
         let rest = drop (i + length pre) ln in
         (case str_index [char_of (34 :: nat)] rest of
            None \<Rightarrow> levelUnknown
          | Some e \<Rightarrow> if e = 0 then levelUnknown else take e rest))"

section \<open>The sanctioned-label gate\<close>

definition SanctionLabels :: "labelPair set \<Rightarrow> Labels \<Rightarrow> labelPair set" where
  "SanctionLabels sanctioned labels =
    (let add = (\<lambda>key val acc. if val \<noteq> [] then insert (key, val) acc else acc) in
     add lokiLabelVersion (LVersion labels)
      (add lokiLabelHost (Host labels)
        (add lokiLabelApplication (Application labels)
          (add lokiLabelEnvironment (Environment labels) sanctioned))))"

definition jsonStringField :: "('raw \<Rightarrow> string option) \<Rightarrow> (string \<rightharpoonup> 'raw) \<Rightarrow> string \<Rightarrow> string" where
  "jsonStringField decode_string flds name =
    (case flds name of
       None \<Rightarrow> []
     | Some raw \<Rightarrow> (case decode_string raw of None \<Rightarrow> [] | Some val \<Rightarrow> val))"

definition sanctionedField ::
  "('raw \<Rightarrow> string option) \<Rightarrow> labelPair set \<Rightarrow> (string \<rightharpoonup> 'raw) \<Rightarrow> string \<Rightarrow> string" where
  "sanctionedField decode_string sanctioned flds name =
    (let val = jsonStringField decode_string flds name in
     if val = [] then [] else if (name, val) \<notin> sanctioned then [] else val)"

definition streamKeyFromLine ::
  "(string \<Rightarrow> (string \<rightharpoonup> 'raw) option) \<Rightarrow> ('raw \<Rightarrow> string option) \<Rightarrow> labelPair set \<Rightarrow> string \<Rightarrow> lokiStreamKey" where
  "streamKeyFromLine decode_object decode_string sanctioned ln =
    (case decode_object ln of
       None \<Rightarrow> LokiStreamKey [] [] [] [] (extractLevel ln)
     | Some flds \<Rightarrow>
         LokiStreamKey
           (sanctionedField decode_string sanctioned flds lokiLabelEnvironment)
           (sanctionedField decode_string sanctioned flds lokiLabelApplication)
           (sanctionedField decode_string sanctioned flds lokiLabelHost)
           (sanctionedField decode_string sanctioned flds lokiLabelVersion)
           (extractLevel ln))"

definition streamMap :: "lokiStreamKey \<Rightarrow> string \<rightharpoonup> string" where
  "streamMap key =
    (let put = (\<lambda>name val m. if val \<noteq> [] then m(name \<mapsto> val) else m) in
     put lokiLabelLevel (k_level key)
      (put lokiLabelVersion (k_version key)
        (put lokiLabelHost (k_host key)
          (put lokiLabelApplication (k_application key)
            (put lokiLabelEnvironment (k_environment key) Map.empty)))))"

section \<open>Grouping a batch\<close>

type_synonym stream_values = "(string \<times> string) list"

definition group_entry ::
  "(string \<Rightarrow> lokiStreamKey) \<Rightarrow> (lokiStreamKey \<rightharpoonup> stream_values) \<Rightarrow> lokiEntry \<Rightarrow> (lokiStreamKey \<rightharpoonup> stream_values)" where
  "group_entry keyOf byStream entry =
    (let key = keyOf (line entry);
         old = (case byStream key of None \<Rightarrow> [] | Some vs \<Rightarrow> vs)
     in byStream(key \<mapsto> old @ [(itoa (ts entry), line entry)]))"

definition groupByStream :: "(string \<Rightarrow> lokiStreamKey) \<Rightarrow> lokiEntry list \<Rightarrow> (lokiStreamKey \<rightharpoonup> stream_values)" where
  "groupByStream keyOf batch = foldl (group_entry keyOf) Map.empty batch"

record lokiStream =
  Stream :: "string \<rightharpoonup> string"
  Values :: stream_values

text \<open>
  The streams of the push body. \<^term>\<open>visited\<close> is the order in which Go happens to
  range over the map \<^verbatim>\<open>byStream\<close>.
\<close>

definition pushStreams ::
  "(lokiStreamKey \<rightharpoonup> stream_values) \<Rightarrow> lokiStreamKey list \<Rightarrow> lokiStream list" where
  "pushStreams byStream visited =
    map (\<lambda>key. \<lparr>Stream = streamMap key,
                Values = (case byStream key of None \<Rightarrow> [] | Some vs \<Rightarrow> vs)\<rparr>) (sort visited)"

definition map_range :: "('k \<rightharpoonup> 'v) \<Rightarrow> 'k list \<Rightarrow> bool" where
  "map_range m visited \<longleftrightarrow> distinct visited \<and> set visited = dom m"

record http_request =
  req_url :: string
  req_headers :: "(string \<times> string) list"
  req_body :: string

text \<open>
  \<^verbatim>\<open>postBatch\<close>: the request handed to the client, if one is built, and the
  diagnostic written, if any.
\<close>

definition postBatch ::
  "(nat \<Rightarrow> bool) \<Rightarrow> (lokiStream list \<Rightarrow> string option) \<Rightarrow> (string \<Rightarrow> bool) \<Rightarrow> (http_request \<Rightarrow> go_error + int) \<Rightarrow>
   string \<Rightarrow> string \<Rightarrow> (string \<Rightarrow> lokiStreamKey) \<Rightarrow> lokiStreamKey list \<Rightarrow> lokiEntry list \<Rightarrow>
   http_request option \<times> string option" where
  "postBatch isprint marshal url_ok client pushURL authToken keyOf visited batch =
    (case marshal (pushStreams (groupByStream keyOf batch) visited) of
       None \<Rightarrow> (None, None)
     | Some bodyJSON \<Rightarrow>
         if \<not> url_ok pushURL then (None, None)
         else
           let req = \<lparr>req_url = pushURL,
                 req_headers = (''Content-Type'', ''application/json'') #
                   (if authToken \<noteq> [] then [(''Authorization'', ''Bearer '' @ authToken)] else []),
                 req_body = bodyJSON\<rparr>
           in (Some req,
               case client req of
                 Inl err \<Rightarrow> Some (''ax: loki push failed: '' @ quote isprint (error_text isprint (redact_url err))
                                  @ [char_of (10 :: nat)])
               | Inr status \<Rightarrow>
                   if status < 200 \<or> status \<ge> 300
                   then Some (''ax: loki push returned '' @ itoa status @ [char_of (10 :: nat)])
                   else None))"

section \<open>Lemmas\<close>

definition entry_value :: "lokiEntry \<Rightarrow> string \<times> string" where
  "entry_value e = (itoa (ts e), line e)"

definition stream_entries :: "(string \<Rightarrow> lokiStreamKey) \<Rightarrow> lokiEntry list \<Rightarrow> lokiStreamKey \<Rightarrow> stream_values" where
  "stream_entries keyOf batch k = map entry_value (filter (\<lambda>e. keyOf (line e) = k) batch)"

lemma stream_entries_snoc [simp]:
  "stream_entries keyOf (batch @ [e]) k =
     stream_entries keyOf batch k @ (if keyOf (line e) = k then [entry_value e] else [])"
  by (simp add: stream_entries_def)

lemma groupByStream_eq:
  "groupByStream keyOf batch k =
    (if stream_entries keyOf batch k = [] then None else Some (stream_entries keyOf batch k))"
proof (induction batch arbitrary: k rule: rev_induct)
  case Nil
  then show ?case by (simp add: groupByStream_def stream_entries_def)
next
  case (snoc e batch)
  then show ?case
    by (simp add: groupByStream_def group_entry_def Let_def entry_value_def)
qed

lemma dom_groupByStream: "dom (groupByStream keyOf batch) = (\<lambda>e. keyOf (line e)) ` set batch"
  by (auto simp: dom_def groupByStream_eq stream_entries_def filter_empty_conv split: if_splits)

lemma streamMap_lookup:
  "streamMap key lokiLabelEnvironment = (if k_environment key = [] then None else Some (k_environment key))"
  "streamMap key lokiLabelApplication = (if k_application key = [] then None else Some (k_application key))"
  "streamMap key lokiLabelHost = (if k_host key = [] then None else Some (k_host key))"
  "streamMap key lokiLabelVersion = (if k_version key = [] then None else Some (k_version key))"
  "streamMap key lokiLabelLevel = (if k_level key = [] then None else Some (k_level key))"
  by (simp_all add: streamMap_def Let_def label_defs)

lemma streamMap_inject: "streamMap a = streamMap b \<Longrightarrow> a = b"
  using streamMap_lookup [of a] streamMap_lookup [of b]
  by (cases a; cases b) (auto split: if_splits)

lemma streamMap_SomeE:
  assumes "streamMap key name = Some v"
  obtains "name = lokiLabelEnvironment" "v = k_environment key" "v \<noteq> []"
    | "name = lokiLabelApplication" "v = k_application key" "v \<noteq> []"
    | "name = lokiLabelHost" "v = k_host key" "v \<noteq> []"
    | "name = lokiLabelVersion" "v = k_version key" "v \<noteq> []"
    | "name = lokiLabelLevel" "v = k_level key" "v \<noteq> []"
  using assms unfolding streamMap_def Let_def by (auto split: if_splits)

lemma sanctionedField_member:
  "sanctionedField ds S flds name \<noteq> [] \<Longrightarrow> (name, sanctionedField ds S flds name) \<in> S"
  by (auto simp: sanctionedField_def Let_def split: if_splits)

lemma extractLevel_nonempty: "extractLevel ln \<noteq> []"
  by (auto simp: extractLevel_def levelUnknown_def Let_def dest!: str_index_bound split: option.split)

definition declared_pairs :: "Labels \<Rightarrow> labelPair set" where
  "declared_pairs l = {(k, v). v \<noteq> [] \<and>
     (k = lokiLabelEnvironment \<and> v = Environment l \<or> k = lokiLabelApplication \<and> v = Application l \<or>
      k = lokiLabelHost \<and> v = Host l \<or> k = lokiLabelVersion \<and> v = LVersion l)}"

lemma SanctionLabels_eq: "SanctionLabels S l = S \<union> declared_pairs l"
  by (auto simp: SanctionLabels_def declared_pairs_def Let_def)

lemma foldl_SanctionLabels: "foldl SanctionLabels S ls = S \<union> (\<Union>l \<in> set ls. declared_pairs l)"
  by (induction ls arbitrary: S) (auto simp: SanctionLabels_eq)

lemma pushStreams_eq:
  assumes "map_range (groupByStream keyOf batch) visited"
  shows "pushStreams (groupByStream keyOf batch) visited =
    map (\<lambda>k. \<lparr>Stream = streamMap k, Values = stream_entries keyOf batch k\<rparr>)
      (sorted_list_of_set ((\<lambda>e. keyOf (line e)) ` set batch))"
  using assms
  by (auto simp: pushStreams_def map_range_def sort_distinct_set dom_groupByStream groupByStream_eq)

section \<open>Properties\<close>

text \<open>
  C13. The push body does not depend on the order in which Go ranges over the
  grouping map: whatever that order, there is one stream per distinct label set,
  streams come in the order of their keys, each holds the batch's entries of
  that key in enqueue order, and together they hold every entry of the batch
  exactly once.
\<close>

theorem pushStreams_partition:
  assumes "map_range (groupByStream keyOf batch) visited"
  shows "pushStreams (groupByStream keyOf batch) visited =
      map (\<lambda>k. \<lparr>Stream = streamMap k, Values = stream_entries keyOf batch k\<rparr>)
        (sorted_list_of_set ((\<lambda>e. keyOf (line e)) ` set batch)) \<and>
    distinct (map Stream (pushStreams (groupByStream keyOf batch) visited)) \<and>
    mset (concat (map Values (pushStreams (groupByStream keyOf batch) visited))) = mset (map entry_value batch)"
proof (intro conjI)
  let ?ks = "sorted_list_of_set ((\<lambda>e. keyOf (line e)) ` set batch)"
  note eq = pushStreams_eq [OF assms]
  show "pushStreams (groupByStream keyOf batch) visited =
      map (\<lambda>k. \<lparr>Stream = streamMap k, Values = stream_entries keyOf batch k\<rparr>) ?ks"
    by (rule eq)
  have "inj_on streamMap A" for A
    by (rule inj_onI) (rule streamMap_inject)
  then show "distinct (map Stream (pushStreams (groupByStream keyOf batch) visited))"
    by (simp add: eq comp_def distinct_map)
  have "mset (concat (map (\<lambda>k. map entry_value (filter (\<lambda>e. keyOf (line e) = k) batch)) ?ks))
      = mset (map entry_value batch)"
    by (rule mset_concat_groups) simp_all
  then show "mset (concat (map Values (pushStreams (groupByStream keyOf batch) visited))) = mset (map entry_value batch)"
    by (simp add: eq comp_def stream_entries_def)
qed

text \<open>A concrete batch of two levels, visited in either order.\<close>

definition sample_key :: "string \<Rightarrow> lokiStreamKey" where
  "sample_key = (\<lambda>ln. LokiStreamKey [] [] [] [] ln)"

definition sample_batch :: "lokiEntry list" where
  "sample_batch = [\<lparr>ts = 1, line = ''info''\<rparr>, \<lparr>ts = 2, line = ''error''\<rparr>, \<lparr>ts = 3, line = ''info''\<rparr>]"

theorem pushStreams_partition_witness:
  "map Values (pushStreams (groupByStream sample_key sample_batch) [sample_key ''info'', sample_key ''error'']) =
    [[(''2'', ''error'')], [(''1'', ''info''), (''3'', ''info'')]] \<and>
   mset (concat (map Values (pushStreams (groupByStream sample_key sample_batch)
      [sample_key ''info'', sample_key ''error'']))) = mset (map entry_value sample_batch)"
proof -
  have r: "map_range (groupByStream sample_key sample_batch) [sample_key ''info'', sample_key ''error'']"
    by (auto simp: map_range_def dom_groupByStream sample_batch_def sample_key_def)
  have "map Values (pushStreams (groupByStream sample_key sample_batch) [sample_key ''info'', sample_key ''error'']) =
      [[(''2'', ''error'')], [(''1'', ''info''), (''3'', ''info'')]]"
    by code_simp
  with pushStreams_partition [OF r] show ?thesis by blast
qed

text \<open>
  Only sanctioned labels reach Loki: a label of a line's stream is either the
  level extracted from the line, which is always present, or one of the four
  label keys with a value that was declared through the logger's labels. A
  payload field that reuses a label name, or any other field, never becomes a
  stream label.
\<close>

theorem stream_labels_sanctioned:
  "streamMap (streamKeyFromLine dob ds (foldl SanctionLabels {} decls) ln) lokiLabelLevel = Some (extractLevel ln) \<and>
   (\<forall>name v. streamMap (streamKeyFromLine dob ds (foldl SanctionLabels {} decls) ln) name = Some v \<longrightarrow>
      name = lokiLabelLevel \<or> (\<exists>l \<in> set decls. (name, v) \<in> declared_pairs l))"
proof (intro conjI allI impI)
  let ?S = "foldl SanctionLabels {} decls"
  show "streamMap (streamKeyFromLine dob ds ?S ln) lokiLabelLevel = Some (extractLevel ln)"
    by (simp add: streamMap_lookup streamKeyFromLine_def extractLevel_nonempty split: option.split)
  fix name v
  assume "streamMap (streamKeyFromLine dob ds ?S ln) name = Some v"
  then have "name = lokiLabelLevel \<or> (name, v) \<in> ?S"
    by (elim streamMap_SomeE)
      (auto simp: streamKeyFromLine_def split: option.splits intro: sanctionedField_member)
  then show "name = lokiLabelLevel \<or> (\<exists>l \<in> set decls. (name, v) \<in> declared_pairs l)"
    by (auto simp: foldl_SanctionLabels)
qed

theorem stream_labels_sanctioned_witness:
  "\<not> (\<exists>v. streamMap (streamKeyFromLine (\<lambda>_. Some [''host'' \<mapsto> ''evil'']) Some
      (foldl SanctionLabels {} [\<lparr>Environment = [], Application = [], Host = ''web1'', LVersion = []\<rparr>]) ''x'')
      lokiLabelHost = Some v \<and> v \<noteq> ''web1'')"
  using stream_labels_sanctioned [of "\<lambda>_. Some [''host'' \<mapsto> ''evil'']" Some
      "[\<lparr>Environment = [], Application = [], Host = ''web1'', LVersion = []\<rparr>]" "''x''"]
  by (auto simp: declared_pairs_def label_defs)

end
