(* ===== verification/Loki_Writer.thy ===== *)
theory Loki_Writer
  imports Loki_Streams "HOL-Library.Sublist"
begin

text \<open>
  The queue of \<^verbatim>\<open>loki.go\<close>: \<^verbatim>\<open>Write\<close>, the background goroutine \<^verbatim>\<open>run\<close>,
  \<^verbatim>\<open>flushRemaining\<close> and the flush handshake of \<^verbatim>\<open>Drain\<close>, as a step relation in
  which writers interleave freely with the goroutine. The buffered channel is a
  list, the goroutine's local \<^verbatim>\<open>batch\<close> and control state are fields, and the
  batches handed to \<^verbatim>\<open>postBatch\<close> are recorded in order. \<^verbatim>\<open>accepted\<close> is a ghost
  field: the entries \<^verbatim>\<open>Write\<close> put into the channel.
\<close>

section \<open>An interface: a buffer that loses nothing\<close>

text \<open>
  What a client of an asynchronous sink relies on: the delivered entries
  followed by the held ones are always the accepted ones, and a step only ever
  appends to what was accepted and delivered.
\<close>

locale lossless_buffer =
  fixes start :: 's
    and step :: "'s \<Rightarrow> 's \<Rightarrow> bool"
    and accepted_of :: "'s \<Rightarrow> 'e list"
    and delivered_of :: "'s \<Rightarrow> 'e list"
    and held_of :: "'s \<Rightarrow> 'e list"
  assumes start_empty: "accepted_of start = []" "delivered_of start = []" "held_of start = []"
    and step_conserves: "step s s' \<Longrightarrow> delivered_of s @ held_of s = accepted_of s \<Longrightarrow>
          delivered_of s' @ held_of s' = accepted_of s'"
    and step_extends: "step s s' \<Longrightarrow> prefix (accepted_of s) (accepted_of s')"
    and step_delivers: "step s s' \<Longrightarrow> prefix (delivered_of s) (delivered_of s')"
begin

definition reach :: "'s \<Rightarrow> bool" where
  "reach s \<longleftrightarrow> step\<^sup>*\<^sup>* start s"

lemma conserved: "reach s \<Longrightarrow> delivered_of s @ held_of s = accepted_of s"
  unfolding reach_def
  by (induction rule: rtranclp_induct) (auto simp: start_empty step_conserves)

lemma delivered_prefix: "reach s \<Longrightarrow> prefix (delivered_of s) (accepted_of s)"
  using conserved by (metis prefixI)

lemma later_extends:
  assumes "step\<^sup>*\<^sup>* s s'"
  shows "prefix (accepted_of s) (accepted_of s') \<and> prefix (delivered_of s) (delivered_of s')"
  using assms
  by (induction rule: rtranclp_induct) (auto dest: step_extends step_delivers intro: prefix_order.trans)

lemma emptied_delivers_all:
  assumes "reach s" and "step\<^sup>*\<^sup>* s s'" and "held_of s' = []"
  shows "delivered_of s' = accepted_of s'" and "prefix (accepted_of s) (delivered_of s')"
proof -
  have "reach s'" using assms(1,2) by (simp add: reach_def)
  then show all: "delivered_of s' = accepted_of s'" using conserved assms(3) by fastforce
  show "prefix (accepted_of s) (delivered_of s')" using later_extends [OF assms(2)] all by simp
qed

end

section \<open>State and operations\<close>

definition lokiBatchSize :: nat where "lokiBatchSize = 100"
definition lokiChannelCap :: nat where "lokiChannelCap = 256"

text \<open>
  The goroutine is selecting (\<^verbatim>\<open>Idle\<close>), inside the collect loop of
  \<^verbatim>\<open>flushRemaining\<close> on behalf of a flush request or of a cancelled context, or
  has returned after closing \<^verbatim>\<open>done\<close>.
\<close>

datatype pc = Idle | CollectFlush | CollectShutdown | Done

record loki_state =
  ch :: "lokiEntry list"
  batch :: "lokiEntry list"
  posted :: "lokiEntry list list"
  ctl :: pc
  acked :: nat
  accepted :: "lokiEntry list"

definition loki_init :: loki_state where
  "loki_init = \<lparr>ch = [], batch = [], posted = [], ctl = Idle, acked = 0, accepted = []\<rparr>"

definition loki_write :: "lokiEntry \<Rightarrow> loki_state \<Rightarrow> loki_state" where
  "loki_write e s =
    (if length (ch s) < lokiChannelCap then s\<lparr>ch := ch s @ [e], accepted := accepted s @ [e]\<rparr> else s)"

definition post :: "loki_state \<Rightarrow> loki_state" where
  "post s = s\<lparr>posted := posted s @ [batch s], batch := []\<rparr>"

text \<open>The four cases of the goroutine's \<^verbatim>\<open>select\<close>, and the two of the collect loop.\<close>

definition run_recv :: "loki_state \<Rightarrow> loki_state option" where
  "run_recv s =
    (case (ctl s, ch s) of
       (Idle, e # rest) \<Rightarrow>
         let s1 = s\<lparr>ch := rest, batch := batch s @ [e]\<rparr> in
         Some (if length (batch s1) \<ge> lokiBatchSize then post s1 else s1)
     | _ \<Rightarrow> None)"

definition run_tick :: "loki_state \<Rightarrow> loki_state option" where
  "run_tick s = (if ctl s = Idle then Some (if length (batch s) > 0 then post s else s) else None)"

definition run_flush_request :: "loki_state \<Rightarrow> loki_state option" where
  "run_flush_request s = (if ctl s = Idle then Some (s\<lparr>ctl := CollectFlush\<rparr>) else None)"

definition run_cancelled :: "loki_state \<Rightarrow> loki_state option" where
  "run_cancelled s = (if ctl s = Idle then Some (s\<lparr>ctl := CollectShutdown\<rparr>) else None)"

definition collecting :: "loki_state \<Rightarrow> bool" where
  "collecting s \<longleftrightarrow> ctl s = CollectFlush \<or> ctl s = CollectShutdown"

definition collect_entry :: "loki_state \<Rightarrow> loki_state option" where
  "collect_entry s =
    (case ch s of
       e # rest \<Rightarrow> if collecting s then Some (s\<lparr>ch := rest, batch := batch s @ [e]\<rparr>) else None
     | [] \<Rightarrow> None)"

definition collect_finish :: "loki_state \<Rightarrow> loki_state option" where
  "collect_finish s =
    (if collecting s \<and> ch s = [] then
       let s1 = (if length (batch s) = 0 then s else post s) in
       Some (if ctl s = CollectFlush then s1\<lparr>ctl := Idle, acked := acked s + 1\<rparr> else s1\<lparr>ctl := Done\<rparr>)
     else None)"

inductive loki_step :: "loki_state \<Rightarrow> loki_state \<Rightarrow> bool" where
  Write: "loki_step s (loki_write e s)"
| Recv: "run_recv s = Some s' \<Longrightarrow> loki_step s s'"
| Tick: "run_tick s = Some s' \<Longrightarrow> loki_step s s'"
| FlushRequest: "run_flush_request s = Some s' \<Longrightarrow> loki_step s s'"
| Cancelled: "run_cancelled s = Some s' \<Longrightarrow> loki_step s s'"
| CollectEntry: "collect_entry s = Some s' \<Longrightarrow> loki_step s s'"
| CollectFinish: "collect_finish s = Some s' \<Longrightarrow> loki_step s s'"

inductive_cases loki_stepE: "loki_step s s'"

definition reachable :: "loki_state \<Rightarrow> bool" where
  "reachable s \<longleftrightarrow> loki_step\<^sup>*\<^sup>* loki_init s"

text \<open>
  \<^verbatim>\<open>flushRemaining\<close> as one call, when no writer interferes: collect the channel,
  post what there is, give back the empty batch.
\<close>

fun flush_collect :: "lokiEntry list \<Rightarrow> lokiEntry list \<Rightarrow> lokiEntry list" where
  "flush_collect b [] = b"
| "flush_collect b (e # rest) = flush_collect (b @ [e]) rest"

definition flushRemaining :: "loki_state \<Rightarrow> loki_state" where
  "flushRemaining s =
    (let s1 = s\<lparr>batch := flush_collect (batch s) (ch s), ch := []\<rparr> in
     if length (batch s1) = 0 then s1\<lparr>batch := []\<rparr> else post s1)"

lemmas loki_defs = loki_write_def post_def run_recv_def run_tick_def run_flush_request_def
  run_cancelled_def collect_entry_def collect_finish_def collecting_def Let_def

section \<open>The writer is a lossless buffer\<close>

definition delivered :: "loki_state \<Rightarrow> lokiEntry list" where
  "delivered s = concat (posted s)"

definition held :: "loki_state \<Rightarrow> lokiEntry list" where
  "held s = batch s @ ch s"

lemma loki_step_conserves:
  assumes "loki_step s s'" and "delivered s @ held s = accepted s"
  shows "delivered s' @ held s' = accepted s'"
  using assms
  by (cases rule: loki_stepE)
    (auto simp: loki_defs delivered_def held_def split: if_splits list.splits pc.splits)

lemma loki_step_accepts:
  assumes "loki_step s s'"
  shows "\<exists>es. accepted s' = accepted s @ es"
  using assms
  by (cases rule: loki_stepE) (auto simp: loki_defs split: if_splits list.splits pc.splits)

lemma loki_step_posts:
  assumes "loki_step s s'"
  shows "\<exists>bs. posted s' = posted s @ bs"
  using assms
  by (cases rule: loki_stepE) (auto simp: loki_defs split: if_splits list.splits pc.splits)

interpretation loki: lossless_buffer loki_init loki_step accepted delivered held
proof unfold_locales
  show "accepted loki_init = []" "delivered loki_init = []" "held loki_init = []"
    by (simp_all add: loki_init_def delivered_def held_def)
  fix s s' assume step: "loki_step s s'"
  show "prefix (accepted s) (accepted s')" using loki_step_accepts [OF step] by auto
  show "prefix (delivered s) (delivered s')" using loki_step_posts [OF step] by (auto simp: delivered_def)
  show "delivered s' @ held s' = accepted s'" if "delivered s @ held s = accepted s"
    using step that by (rule loki_step_conserves)
qed

lemma reach_reachable: "loki.reach = reachable"
  by (simp add: fun_eq_iff loki.reach_def reachable_def)

section \<open>Bounds\<close>

definition loki_inv :: "loki_state \<Rightarrow> bool" where
  "loki_inv s \<longleftrightarrow>
     length (ch s) \<le> lokiChannelCap \<and>
     (ctl s = Idle \<longrightarrow> length (batch s) < lokiBatchSize) \<and>
     (ctl s = Done \<longrightarrow> batch s = []) \<and>
     [] \<notin> set (posted s)"

lemma loki_inv_init: "loki_inv loki_init"
  by (simp add: loki_inv_def loki_init_def lokiBatchSize_def)

lemma loki_inv_step:
  assumes "loki_step s s'" and "loki_inv s"
  shows "loki_inv s'"
  using assms
  by (cases rule: loki_stepE)
    (auto simp: loki_defs loki_inv_def lokiBatchSize_def lokiChannelCap_def
      split: if_splits list.splits pc.splits)

lemma loki_inv_reachable: "reachable s \<Longrightarrow> loki_inv s"
  unfolding reachable_def
  by (induction rule: rtranclp_induct) (auto intro: loki_inv_init loki_inv_step)

section \<open>Flushing\<close>

lemma collect_finish_held: "collect_finish s = Some s' \<Longrightarrow> held s' = []"
  by (auto simp: loki_defs held_def split: if_splits)

lemma flush_collect_eq: "flush_collect b c = b @ c"
  by (induction b c rule: flush_collect.induct) auto

lemma collect_steps:
  "collecting s \<Longrightarrow> loki_step\<^sup>*\<^sup>* s (s\<lparr>ch := [], batch := batch s @ ch s\<rparr>)"
proof (induction "ch s" arbitrary: s)
  case Nil
  then have "s\<lparr>ch := [], batch := batch s @ ch s\<rparr> = s" by simp
  then show ?case by simp
next
  case (Cons e rest)
  let ?s1 = "s\<lparr>ch := rest, batch := batch s @ [e]\<rparr>"
  have "collect_entry s = Some ?s1"
    using Cons.hyps(2) [symmetric] Cons.prems by (simp add: collect_entry_def)
  then have "loki_step s ?s1" by (rule CollectEntry)
  moreover have "loki_step\<^sup>*\<^sup>* ?s1 (?s1\<lparr>ch := [], batch := batch ?s1 @ ch ?s1\<rparr>)"
    using Cons.prems by (intro Cons.hyps(1)) (simp_all add: collecting_def)
  moreover have "?s1\<lparr>ch := [], batch := batch ?s1 @ ch ?s1\<rparr> = s\<lparr>ch := [], batch := batch s @ ch s\<rparr>"
    using Cons.hyps(2) [symmetric] by simp
  ultimately show ?case
    by (metis converse_rtranclp_into_rtranclp)
qed

text \<open>A flush request served without interfering writers runs \<^verbatim>\<open>flushRemaining\<close> once.\<close>

lemma flush_request_runs:
  assumes "ctl s = Idle"
  shows "loki_step\<^sup>*\<^sup>* s ((flushRemaining s)\<lparr>acked := acked s + 1\<rparr>)"
proof -
  let ?c = "s\<lparr>ctl := CollectFlush\<rparr>"
  let ?d = "?c\<lparr>ch := [], batch := batch s @ ch s\<rparr>"
  have "loki_step s ?c"
    using assms by (intro FlushRequest) (simp add: run_flush_request_def)
  moreover have "loki_step\<^sup>*\<^sup>* ?c ?d"
    using collect_steps [of ?c] by (simp add: collecting_def)
  moreover have "collect_finish ?d = Some ((flushRemaining s)\<lparr>acked := acked s + 1\<rparr>)"
    using assms by (simp add: collect_finish_def collecting_def flushRemaining_def flush_collect_eq post_def Let_def)
  then have "loki_step ?d ((flushRemaining s)\<lparr>acked := acked s + 1\<rparr>)" by (rule CollectFinish)
  ultimately show ?thesis by (meson converse_rtranclp_into_rtranclp rtranclp.rtrancl_into_rtrancl)
qed

lemma reachable_step: "reachable s \<Longrightarrow> loki_step s s' \<Longrightarrow> reachable s'"
  unfolding reachable_def by (rule rtranclp.rtrancl_into_rtrancl)

lemma reachable_steps: "reachable s \<Longrightarrow> loki_step\<^sup>*\<^sup>* s s' \<Longrightarrow> reachable s'"
  unfolding reachable_def by (rule rtranclp_trans)

section \<open>Properties\<close>

text \<open>
  C7. In every reachable state of the writer, under every interleaving of
  writers, ticks, flush requests and cancellation, the entries handed to Loki
  followed by the ones still buffered are exactly the accepted entries in their
  order: none is lost, duplicated or reordered before it is posted.
\<close>

theorem loki_no_loss_no_reorder:
  assumes "reachable s"
  shows "concat (posted s) @ batch s @ ch s = accepted s"
  using loki.conserved [of s] assms by (simp add: reach_reachable delivered_def held_def)

definition sample_state :: loki_state where
  "sample_state = loki_write \<lparr>ts = 7, line = ''x''\<rparr> loki_init"

theorem loki_no_loss_no_reorder_witness:
  "concat (posted sample_state) @ batch sample_state @ ch sample_state = accepted sample_state \<and>
   accepted sample_state = [\<lparr>ts = 7, line = ''x''\<rparr>]"
proof
  have "reachable sample_state"
    unfolding reachable_def sample_state_def by (rule r_into_rtranclp) (rule loki_step.Write)
  then show "concat (posted sample_state) @ batch sample_state @ ch sample_state = accepted sample_state"
    by (rule loki_no_loss_no_reorder)
  show "accepted sample_state = [\<lparr>ts = 7, line = ''x''\<rparr>]"
    by (simp add: sample_state_def loki_write_def loki_init_def lokiChannelCap_def)
qed



text \<open>
  A flush delivers: whenever the collect loop finishes, so in particular
  when a Drain is acknowledged, every entry accepted so far has been posted; and
  from every idle reachable state a flush request can be served to that point,
  ending idle with empty buffers and one more acknowledgement.
\<close>

theorem loki_flush_delivers:
  assumes "reachable s"
  shows "(\<forall>s'. collect_finish s = Some s' \<longrightarrow> concat (posted s') = accepted s') \<and>
    (ctl s = Idle \<longrightarrow>
      (\<exists>s'. loki_step\<^sup>*\<^sup>* s s' \<and> ctl s' = Idle \<and> acked s' = acked s + 1 \<and>
        ch s' = [] \<and> batch s' = [] \<and> concat (posted s') = accepted s))"
proof (intro conjI allI impI)
  fix s' assume fin: "collect_finish s = Some s'"
  then have "loki_step\<^sup>*\<^sup>* s s'" using CollectFinish by blast
  then show "concat (posted s') = accepted s'"
    using loki.emptied_delivers_all(1) [of s s'] assms collect_finish_held [OF fin]
    by (simp add: reach_reachable delivered_def)
next
  assume idle: "ctl s = Idle"
  let ?t = "(flushRemaining s)\<lparr>acked := acked s + 1\<rparr>"
  have steps: "loki_step\<^sup>*\<^sup>* s ?t" by (rule flush_request_runs [OF idle])
  have empty: "ch ?t = []" "batch ?t = []" "accepted ?t = accepted s" "ctl ?t = Idle"
    using idle by (simp_all add: flushRemaining_def post_def Let_def)
  have "concat (posted ?t) = accepted ?t"
    using loki.emptied_delivers_all(1) [OF _ steps] assms empty
    by (simp add: reach_reachable delivered_def held_def)
  with steps empty show "\<exists>s'. loki_step\<^sup>*\<^sup>* s s' \<and> ctl s' = Idle \<and> acked s' = acked s + 1 \<and>
      ch s' = [] \<and> batch s' = [] \<and> concat (posted s') = accepted s"
    by (intro exI [of _ ?t]) simp
qed

theorem loki_flush_delivers_witness:
  "\<exists>s'. loki_step\<^sup>*\<^sup>* loki_init s' \<and> acked s' = 1 \<and> concat (posted s') = []"
  using loki_flush_delivers [of loki_init] by (auto simp: reachable_def loki_init_def)

text \<open>
  The collect loop of a flush has no bound of its own: while writers keep
  refilling the channel it keeps appending to the batch, which can grow to any
  length although the channel holds at most 256 entries.
\<close>

theorem loki_collect_unbounded: "\<exists>s. reachable s \<and> length (batch s) = n"
proof -
  let ?e = "\<lparr>ts = 0, line = []\<rparr>"
  have "\<exists>s. reachable s \<and> collecting s \<and> ch s = [] \<and> length (batch s) = n"
  proof (induction n)
    case 0
    have "loki_step loki_init (loki_init\<lparr>ctl := CollectFlush\<rparr>)"
      by (intro FlushRequest) (simp add: run_flush_request_def loki_init_def)
    then have "reachable (loki_init\<lparr>ctl := CollectFlush\<rparr>)"
      by (simp add: reachable_def r_into_rtranclp)
    then show ?case by (intro exI conjI) (auto simp: loki_init_def collecting_def)
  next
    case (Suc n)
    then obtain s where s: "reachable s" "collecting s" "ch s = []" "length (batch s) = n" by blast
    let ?w = "loki_write ?e s" and ?c = "s\<lparr>accepted := accepted s @ [?e], batch := batch s @ [?e], ch := []\<rparr>"
    have "reachable ?w" using s(1) loki_step.Write by (rule reachable_step)
    moreover have "collect_entry ?w = Some ?c"
      using s by (simp add: collect_entry_def loki_write_def lokiChannelCap_def collecting_def)
    ultimately have "reachable ?c" using CollectEntry reachable_step by blast
    with s show ?case by (intro exI [of _ ?c]) (simp add: collecting_def)
  qed
  then show ?thesis by blast
qed

end
