(* ===== verification/Schema_Decl.thy ===== *)
theory Schema_Decl
  imports Schema_Template Ax_Contract
begin

text \<open>
  Prompt and resource declarations: \<^verbatim>\<open>internal/schema/declarations.go\<close> (validation,
  the annotation store, the tree walks), \<^verbatim>\<open>internal/schema/conflict_error.go\<close> and
  the public wrappers of \<^verbatim>\<open>schema/declarations.go\<close>. A Cobra command is its path,
  hidden flag, annotation map and children. \<^verbatim>\<open>url.Parse\<close> is an argument that
  gives the scheme of a parsable URI; the JSON encoding of the declaration lists
  is an argument whose laws the locale \<^verbatim>\<open>declaration_codec\<close> states.
\<close>

section \<open>Declarations and violations\<close>

definition promptsAnnotationKey :: string where
  "promptsAnnotationKey = ''github.com/rshade/ax-go/schema/prompts''"
definition resourcesAnnotationKey :: string where
  "resourcesAnnotationKey = ''github.com/rshade/ax-go/schema/resources''"
definition maxResourceURIBytes :: nat where "maxResourceURIBytes = 2048"
definition maxResourceContentBytes :: nat where "maxResourceContentBytes = 2 ^ 20"
definition maxTemplateBytes :: nat where "maxTemplateBytes = 64 * 2 ^ 10"

datatype Reason =
    ReasonNilCommand | ReasonRequired | ReasonInvalidCharset | ReasonInvalidUTF8 | ReasonDuplicate
  | ReasonUndeclaredPlaceholder | ReasonNotAbsolute | ReasonMalformed | ReasonTooLong
  | ReasonInvalidCharacter | ReasonCorruptAnnotation
  | ReasonFlagNotFound | ReasonUnsupportedType | ReasonInvalidValue | ReasonNotInEnum | ReasonNotVocabulary

fun reason_string :: "Reason \<Rightarrow> string" where
  "reason_string ReasonNilCommand = ''nil_command''"
| "reason_string ReasonRequired = ''required''"
| "reason_string ReasonInvalidCharset = ''invalid_charset''"
| "reason_string ReasonInvalidUTF8 = ''invalid_utf8''"
| "reason_string ReasonDuplicate = ''duplicate''"
| "reason_string ReasonUndeclaredPlaceholder = ''undeclared_placeholder''"
| "reason_string ReasonNotAbsolute = ''not_absolute''"
| "reason_string ReasonMalformed = ''malformed''"
| "reason_string ReasonTooLong = ''too_long''"
| "reason_string ReasonInvalidCharacter = ''invalid_character''"
| "reason_string ReasonCorruptAnnotation = ''corrupt_annotation''"
| "reason_string ReasonFlagNotFound = ''flag_not_found''"
| "reason_string ReasonUnsupportedType = ''unsupported_type''"
| "reason_string ReasonInvalidValue = ''invalid_value''"
| "reason_string ReasonNotInEnum = ''not_in_enum''"
| "reason_string ReasonNotVocabulary = ''not_in_vocabulary''"

datatype Kind = KindPrompt | KindResource | KindFlagEnum | KindFlagExample | KindCapability

fun kind_string :: "Kind \<Rightarrow> string" where
  "kind_string KindPrompt = ''prompt''"
| "kind_string KindResource = ''resource''"
| "kind_string KindFlagEnum = ''flag enum''"
| "kind_string KindFlagExample = ''flag example''"
| "kind_string KindCapability = ''capability''"

record PromptArgument =
  a_Name :: string
  a_Title :: string
  a_Description :: string
  a_Required :: bool

record Prompt =
  p_Name :: string
  p_Title :: string
  p_Description :: string
  p_Arguments :: "PromptArgument list"
  p_Template :: string

record Resource =
  r_URI :: string
  r_Name :: string
  r_Title :: string
  r_Description :: string
  r_MIMEType :: string
  r_Content :: string

datatype Violation = Violation (v_Field: string) (v_Reason: Reason)

record Conflict =
  cf_Kind :: Kind
  cf_Key :: string
  cf_Reason :: Reason
  cf_Commands :: "string list"

section \<open>Validation\<close>

definition checkName :: "string \<Rightarrow> string \<Rightarrow> Violation option" where
  "checkName field name =
    (if name = [] then Some (Violation field ReasonRequired)
     else if \<not> validName name then Some (Violation field ReasonInvalidCharset)
     else None)"

definition checkUTF8 :: "string \<Rightarrow> string \<Rightarrow> Violation option" where
  "checkUTF8 field s = (if \<not> valid_utf8 s then Some (Violation field ReasonInvalidUTF8) else None)"

definition isControlOrSpace :: "nat \<Rightarrow> bool" where
  "isControlOrSpace r \<longleftrightarrow> is_space r \<or> is_control r"

definition checkURI :: "(string \<Rightarrow> string option) \<Rightarrow> string \<Rightarrow> Violation option" where
  "checkURI url_parse uri =
    (if uri = [] then Some (Violation ''uri'' ReasonRequired)
     else if length uri > maxResourceURIBytes then Some (Violation ''uri'' ReasonTooLong)
     else first_some
       [checkUTF8 ''uri'' uri,
        if contains_func isControlOrSpace uri then Some (Violation ''uri'' ReasonInvalidCharacter) else None,
        (case url_parse uri of
           None \<Rightarrow> Some (Violation ''uri'' ReasonMalformed)
         | Some scheme \<Rightarrow> if scheme = [] then Some (Violation ''uri'' ReasonNotAbsolute) else None)])"

text \<open>The argument loop, with the loop index and the set of names declared so far.\<close>

fun check_arguments :: "nat \<Rightarrow> string set \<Rightarrow> PromptArgument list \<Rightarrow> Violation option" where
  "check_arguments i declared [] = None"
| "check_arguments i declared (arg # args) =
    (let pre = ''arguments['' @ itoa (int i) @ ''].'' in
     case checkName (pre @ ''name'') (a_Name arg) of
       Some v \<Rightarrow> Some v
     | None \<Rightarrow>
         if a_Name arg \<in> declared then Some (Violation (pre @ ''name'') ReasonDuplicate)
         else
           (case first_some [checkUTF8 (pre @ ''title'') (a_Title arg),
                             checkUTF8 (pre @ ''description'') (a_Description arg)] of
              Some v \<Rightarrow> Some v
            | None \<Rightarrow> check_arguments (Suc i) (insert (a_Name arg) declared) args))"

definition check_template :: "string set \<Rightarrow> string \<Rightarrow> Violation option" where
  "check_template declared template =
    (if template = [] then Some (Violation ''template'' ReasonRequired)
     else if length template > maxTemplateBytes then Some (Violation ''template'' ReasonTooLong)
     else first_some
       [checkUTF8 ''template'' template,
        if list_ex (\<lambda>name. name \<notin> declared) (templatePlaceholders template)
        then Some (Violation ''template'' ReasonUndeclaredPlaceholder) else None])"

definition ValidatePrompt :: "Prompt \<Rightarrow> Violation option" where
  "ValidatePrompt prompt =
    first_some
      [checkName ''name'' (p_Name prompt),
       checkUTF8 ''title'' (p_Title prompt),
       checkUTF8 ''description'' (p_Description prompt),
       check_arguments 0 {} (p_Arguments prompt),
       check_template (set (map a_Name (p_Arguments prompt))) (p_Template prompt)]"

definition ValidateResource :: "(string \<Rightarrow> string option) \<Rightarrow> Resource \<Rightarrow> Violation option" where
  "ValidateResource url_parse res =
    first_some
      ([checkURI url_parse (r_URI res),
        if r_Name res = [] then Some (Violation ''name'' ReasonRequired) else None] @
       map (\<lambda>(n, v). checkUTF8 n v)
         [(''name'', r_Name res), (''title'', r_Title res), (''description'', r_Description res),
          (''mime_type'', r_MIMEType res)] @
       [if contains_func is_control (r_MIMEType res) then Some (Violation ''mime_type'' ReasonInvalidCharacter) else None,
        if length (r_Content res) > maxResourceContentBytes then Some (Violation ''content'' ReasonTooLong) else None,
        checkUTF8 ''content'' (r_Content res)])"

section \<open>The annotation store\<close>

definition decodeValid ::
  "(string \<Rightarrow> 'd list option) \<Rightarrow> ('d \<Rightarrow> Violation option) \<Rightarrow> annotations \<Rightarrow> string \<Rightarrow> 'd list \<times> bool" where
  "decodeValid dec validate anns key =
    (case anns key of
       None \<Rightarrow> ([], True)
     | Some raw \<Rightarrow>
         (case dec raw of
            None \<Rightarrow> ([], False)
          | Some decoded \<Rightarrow>
              let valid = filter (\<lambda>d. validate d = None) decoded in
              (valid, length valid = length decoded)))"

text \<open>
  \<^verbatim>\<open>addDeclaration\<close> on the annotations of a command, \<^term>\<open>None\<close> for a nil command;
  the result is the violation and the annotations afterwards.
\<close>

definition addDeclaration ::
  "('d list \<Rightarrow> string) \<Rightarrow> (string \<Rightarrow> 'd list option) \<Rightarrow> ('d \<Rightarrow> Violation option) \<Rightarrow> ('d \<Rightarrow> string) \<Rightarrow>
   string \<Rightarrow> string \<Rightarrow> annotations option \<Rightarrow> 'd \<Rightarrow> Violation option \<times> annotations option" where
  "addDeclaration enc dec validate key annotationKey keyField cmd declaration =
    (case cmd of
       None \<Rightarrow> (Some (Violation ''cmd'' ReasonNilCommand), cmd)
     | Some anns \<Rightarrow>
         (case validate declaration of
            Some v \<Rightarrow> (Some v, cmd)
          | None \<Rightarrow>
              (case decodeValid dec validate anns annotationKey of (existing, clean) \<Rightarrow>
                 if \<not> clean then (Some (Violation ''annotation'' ReasonCorruptAnnotation), cmd)
                 else if list_ex (\<lambda>d. key d = key declaration) existing
                 then (Some (Violation keyField ReasonDuplicate), cmd)
                 else (None, Some (anns(annotationKey \<mapsto> enc (existing @ [declaration])))))))"

definition AddPrompt ::
  "(Prompt list \<Rightarrow> string) \<Rightarrow> (string \<Rightarrow> Prompt list option) \<Rightarrow> annotations option \<Rightarrow> Prompt \<Rightarrow>
   Violation option \<times> annotations option" where
  "AddPrompt enc dec cmd prompt = addDeclaration enc dec ValidatePrompt p_Name promptsAnnotationKey ''name'' cmd prompt"

definition AddResource ::
  "(string \<Rightarrow> string option) \<Rightarrow> (Resource list \<Rightarrow> string) \<Rightarrow> (string \<Rightarrow> Resource list option) \<Rightarrow>
   annotations option \<Rightarrow> Resource \<Rightarrow> Violation option \<times> annotations option" where
  "AddResource url_parse enc dec cmd res =
     addDeclaration enc dec (ValidateResource url_parse) r_URI resourcesAnnotationKey ''uri'' cmd res"

definition Prompts :: "(string \<Rightarrow> Prompt list option) \<Rightarrow> annotations \<Rightarrow> Prompt list" where
  "Prompts dec anns = fst (decodeValid dec ValidatePrompt anns promptsAnnotationKey)"

definition Resources ::
  "(string \<Rightarrow> string option) \<Rightarrow> (string \<Rightarrow> Resource list option) \<Rightarrow> annotations \<Rightarrow> Resource list" where
  "Resources url_parse dec anns = fst (decodeValid dec (ValidateResource url_parse) anns resourcesAnnotationKey)"

section \<open>Walking the command tree\<close>

datatype command = Command
  (cmd_path: string) (cmd_hidden: bool) (cmd_anns: "string \<Rightarrow> string option") (cmd_children: "command list")

text \<open>The commands \<^verbatim>\<open>WalkDeclarationCommands\<close> visits, in order.\<close>

fun WalkDeclarationCommands :: "command \<Rightarrow> command list" where
  "WalkDeclarationCommands (Command path hidden anns children) =
    Command path hidden anns children #
    concat (map (\<lambda>child. if cmd_hidden child then [] else WalkDeclarationCommands child) children)"

fun scan_declarations ::
  "Kind \<Rightarrow> ('d \<Rightarrow> string) \<Rightarrow> string \<Rightarrow> (string \<rightharpoonup> string) \<Rightarrow> 'd list \<Rightarrow> (string \<rightharpoonup> string) \<times> Conflict option" where
  "scan_declarations kind key path firstPath [] = (firstPath, None)"
| "scan_declarations kind key path firstPath (d # ds) =
    (case firstPath (key d) of
       Some first \<Rightarrow>
         (firstPath, Some \<lparr>cf_Kind = kind, cf_Key = key d, cf_Reason = ReasonDuplicate, cf_Commands = [first, path]\<rparr>)
     | None \<Rightarrow> scan_declarations kind key path (firstPath(key d \<mapsto> path)) ds)"

definition find_duplicate_visit ::
  "Kind \<Rightarrow> (annotations \<Rightarrow> 'd list) \<Rightarrow> ('d \<Rightarrow> string) \<Rightarrow> (string \<rightharpoonup> string) \<times> Conflict option \<Rightarrow> command \<Rightarrow>
   (string \<rightharpoonup> string) \<times> Conflict option" where
  "find_duplicate_visit kind decode key st cmd =
    (case st of (firstPath, found) \<Rightarrow>
       if found \<noteq> None then st
       else scan_declarations kind key (cmd_path cmd) firstPath (decode (cmd_anns cmd)))"

definition findDuplicate ::
  "command \<Rightarrow> Kind \<Rightarrow> (annotations \<Rightarrow> 'd list) \<Rightarrow> ('d \<Rightarrow> string) \<Rightarrow> Conflict option" where
  "findDuplicate root kind decode key =
    snd (foldl (find_duplicate_visit kind decode key) (Map.empty, None) (WalkDeclarationCommands root))"

definition FindDuplicate ::
  "(annotations \<Rightarrow> Prompt list) \<Rightarrow> (annotations \<Rightarrow> Resource list) \<Rightarrow> command \<Rightarrow> Conflict option" where
  "FindDuplicate prompts resources root =
    first_some [findDuplicate root KindPrompt prompts p_Name, findDuplicate root KindResource resources r_URI]"

definition corruptConflict :: "Kind \<Rightarrow> string \<Rightarrow> command \<Rightarrow> Conflict" where
  "corruptConflict kind annotationKey cmd =
    \<lparr>cf_Kind = kind, cf_Key = annotationKey, cf_Reason = ReasonCorruptAnnotation, cf_Commands = [cmd_path cmd]\<rparr>"

definition find_corrupt_visit ::
  "(string \<Rightarrow> string option) \<Rightarrow> (string \<Rightarrow> Prompt list option) \<Rightarrow> (string \<Rightarrow> Resource list option) \<Rightarrow>
   Conflict option \<Rightarrow> command \<Rightarrow> Conflict option" where
  "find_corrupt_visit url_parse decP decR found cmd =
    (if found \<noteq> None then found
     else if \<not> snd (decodeValid decP ValidatePrompt (cmd_anns cmd) promptsAnnotationKey)
     then Some (corruptConflict KindPrompt promptsAnnotationKey cmd)
     else if \<not> snd (decodeValid decR (ValidateResource url_parse) (cmd_anns cmd) resourcesAnnotationKey)
     then Some (corruptConflict KindResource resourcesAnnotationKey cmd)
     else None)"

definition FindCorrupt ::
  "(string \<Rightarrow> string option) \<Rightarrow> (string \<Rightarrow> Prompt list option) \<Rightarrow> (string \<Rightarrow> Resource list option) \<Rightarrow>
   command \<Rightarrow> Conflict option" where
  "FindCorrupt url_parse decP decR root =
    foldl (find_corrupt_visit url_parse decP decR) None (WalkDeclarationCommands root)"

text \<open>\<^verbatim>\<open>keepFirst\<close> with the \<^verbatim>\<open>seen\<close> map as a set; the updated set is returned.\<close>

fun keepFirst :: "string set \<Rightarrow> ('d \<Rightarrow> string) \<Rightarrow> 'd list \<Rightarrow> 'd list \<times> string set" where
  "keepFirst seen key [] = ([], seen)"
| "keepFirst seen key (d # ds) =
    (if key d \<in> seen then keepFirst seen key ds
     else (case keepFirst (insert (key d) seen) key ds of (kept, seen') \<Rightarrow> (d # kept, seen')))"

record Deduper =
  d_prompts :: "string set"
  d_resources :: "string set"

definition NewDeduper :: Deduper where
  "NewDeduper = \<lparr>d_prompts = {}, d_resources = {}\<rparr>"

definition FirstPrompts :: "Deduper \<Rightarrow> Prompt list \<Rightarrow> Prompt list \<times> Deduper" where
  "FirstPrompts d prompts =
    (case keepFirst (d_prompts d) p_Name prompts of (kept, seen) \<Rightarrow> (kept, d\<lparr>d_prompts := seen\<rparr>))"

definition FirstResources :: "Deduper \<Rightarrow> Resource list \<Rightarrow> Resource list \<times> Deduper" where
  "FirstResources d resources =
    (case keepFirst (d_resources d) r_URI resources of (kept, seen) \<Rightarrow> (kept, d\<lparr>d_resources := seen\<rparr>))"

definition collect_visit ::
  "(annotations \<Rightarrow> Prompt list) \<Rightarrow> (annotations \<Rightarrow> Resource list) \<Rightarrow>
   Deduper \<times> Prompt list \<times> Resource list \<Rightarrow> command \<Rightarrow> Deduper \<times> Prompt list \<times> Resource list" where
  "collect_visit prompts resources st cmd =
    (case st of (dedup, ps, rs) \<Rightarrow>
       (case FirstPrompts dedup (prompts (cmd_anns cmd)) of (newP, dedup1) \<Rightarrow>
          (case FirstResources dedup1 (resources (cmd_anns cmd)) of (newR, dedup2) \<Rightarrow>
             (dedup2, ps @ newP, rs @ newR))))"

definition CollectDeclarations ::
  "(annotations \<Rightarrow> Prompt list) \<Rightarrow> (annotations \<Rightarrow> Resource list) \<Rightarrow> command \<Rightarrow> Prompt list \<times> Resource list" where
  "CollectDeclarations prompts resources root =
    snd (foldl (collect_visit prompts resources) (NewDeduper, [], []) (WalkDeclarationCommands root))"

section \<open>Errors for the author\<close>

definition maxKeyInMessage :: nat where "maxKeyInMessage = 128"

fun truncate_cut :: "string \<Rightarrow> nat \<Rightarrow> nat" where
  "truncate_cut key 0 = 0"
| "truncate_cut key (Suc n) = (if \<not> rune_start (key ! Suc n) then truncate_cut key n else Suc n)"

definition ellipsis :: string where
  "ellipsis = [char_of (0xE2 :: nat), char_of (0x80 :: nat), char_of (0xA6 :: nat)]"

definition TruncateKey :: "string \<Rightarrow> string" where
  "TruncateKey key =
    (if length key \<le> maxKeyInMessage then key
     else take (truncate_cut key maxKeyInMessage) key @ ellipsis)"

definition CorruptAnnotationFix :: string where
  "CorruptAnnotationFix = ''Declare prompts and resources only with DeclarePrompt and '' @
     ''DeclareResource; never write the github.com/rshade/ax-go/schema/* annotations by hand.''"

text \<open>
  \<^verbatim>\<open>TreeDeclarationError\<close>. Every conflict of the walks names at least one
  command, so \<^verbatim>\<open>conflict.Commands[0]\<close> is in range for them.
\<close>

definition TreeDeclarationError :: "(nat \<Rightarrow> bool) \<Rightarrow> gctx option \<Rightarrow> Conflict \<Rightarrow> ax_error" where
  "TreeDeclarationError isprint ctx c =
    (if cf_Reason c = ReasonCorruptAnnotation then
       NewError ctx ErrorCodeValidationError
         (''corrupt '' @ kind_string (cf_Kind c) @ '' annotation on command '' @ quote isprint (hd (cf_Commands c)))
         [WithErrorExitCode ExitValidation, WithActionableFix CorruptAnnotationFix,
          WithErrorContext
            [(''kind'', StrVal (kind_string (cf_Kind c))), (''key'', StrVal (cf_Key c)),
             (''reason'', StrVal (reason_string (cf_Reason c))),
             (''commands'', ListVal (map StrVal (cf_Commands c)))]]
     else
       let label = (case cf_Kind c of
             KindPrompt \<Rightarrow> ''prompt name'' | KindResource \<Rightarrow> ''resource URI'' | k \<Rightarrow> kind_string k)
       in NewError ctx ErrorCodeValidationError
         (''duplicate '' @ label @ '' '' @ quote isprint (TruncateKey (cf_Key c)) @ '' declared on more than one command'')
         [WithErrorExitCode ExitValidation,
          WithActionableFix ''Rename or remove one of the duplicate declarations.'',
          WithErrorContext
            [(''kind'', StrVal (kind_string (cf_Kind c))), (''key'', StrVal (cf_Key c)),
             (''commands'', ListVal (map StrVal (cf_Commands c)))]])"

definition tooLongFix :: "string \<Rightarrow> string" where
  "tooLongFix field =
    (if field = ''content'' then ''Shorten the resource content to at most 1 MiB.''
     else if field = ''template''
     then ''Shorten the template to at most 64 KiB; move long reference text into resource content.''
     else ''Shorten the URI to at most 2048 bytes.'')"

definition apostrophe :: string where
  "apostrophe = [char_of (39 :: nat)]"

fun declarationFix :: "Reason \<Rightarrow> string \<Rightarrow> string" where
  "declarationFix ReasonNilCommand field = ''Declare on a non-nil *cobra.Command.''"
| "declarationFix ReasonRequired field = ''Set the required field.''"
| "declarationFix ReasonInvalidCharset field =
     ''Use only letters, digits, '' @ apostrophe @ ''_'' @ apostrophe @ '', '' @ apostrophe @ ''.'' @ apostrophe @
     '', and '' @ apostrophe @ ''-'' @ apostrophe @ '' (^[a-zA-Z0-9_.-]+$).''"
| "declarationFix ReasonInvalidUTF8 field = ''Use valid UTF-8 text.''"
| "declarationFix ReasonDuplicate field = ''Use a name or URI not already declared on this command.''"
| "declarationFix ReasonUndeclaredPlaceholder field = ''Declare every {{placeholder}} in the template as an argument.''"
| "declarationFix ReasonNotAbsolute field = ''Give the URI a scheme, such as app://docs/name or urn:app:name.''"
| "declarationFix ReasonMalformed field = ''Fix the URI so it parses, including any percent-escapes.''"
| "declarationFix ReasonTooLong field = tooLongFix field"
| "declarationFix ReasonInvalidCharacter field =
     ''Remove whitespace and control characters (a MIME type may contain spaces).''"
| "declarationFix ReasonCorruptAnnotation field = CorruptAnnotationFix"
| "declarationFix ReasonFlagNotFound field =
     ''Define the flag on the command (Flags or PersistentFlags) before declaring it.''"
| "declarationFix ReasonUnsupportedType field = ''Declare an enum only on a string, integer, or custom non-slice flag.''"
| "declarationFix ReasonInvalidValue field =
     ''Use a value that parses as the flag'' @ apostrophe @ ''s type, written as it would appear on argv.''"
| "declarationFix ReasonNotInEnum field =
     ''Use a value from the flag'' @ apostrophe @ ''s enum, and keep a non-empty default inside the enum.''"
| "declarationFix ReasonNotVocabulary field =
     ''Use one of the Capability constants: read-only, create, mutate, delete, external-network, admin.''"

definition violationFix :: "Violation \<Rightarrow> string" where
  "violationFix v =
    (if v_Reason v = ReasonDuplicate \<and> v_Field v = ''values'' then
       ''Remove enum values that are equal after canonicalisation, such as '' @ [char_of (34 :: nat)] @ ''3'' @
       [char_of (34 :: nat)] @ '' and '' @ [char_of (34 :: nat)] @ ''03'' @ [char_of (34 :: nat)] @ ''.''
     else declarationFix (v_Reason v) (v_Field v))"

definition declarationError :: "(nat \<Rightarrow> bool) \<Rightarrow> Kind \<Rightarrow> string \<Rightarrow> Violation option \<Rightarrow> ax_error option" where
  "declarationError isprint kind key violation =
    (case violation of
       None \<Rightarrow> None
     | Some v \<Rightarrow>
         Some (NewError (Some Background) ErrorCodeInvalidSchemaDeclaration
           (''invalid '' @ kind_string kind @ '' declaration '' @ quote isprint (TruncateKey key) @ '': '' @
            v_Field v @ '' '' @ reason_string (v_Reason v))
           [WithErrorExitCode ExitValidation, WithActionableFix (violationFix v),
            WithErrorContext [(''field'', StrVal (v_Field v)), (''reason'', StrVal (reason_string (v_Reason v)))]]))"

definition DeclarePrompt ::
  "(nat \<Rightarrow> bool) \<Rightarrow> (Prompt list \<Rightarrow> string) \<Rightarrow> (string \<Rightarrow> Prompt list option) \<Rightarrow> annotations option \<Rightarrow> Prompt \<Rightarrow>
   ax_error option \<times> annotations option" where
  "DeclarePrompt isprint enc dec cmd prompt =
    (case AddPrompt enc dec cmd prompt of (v, cmd') \<Rightarrow> (declarationError isprint KindPrompt (p_Name prompt) v, cmd'))"

definition DeclareResource ::
  "(nat \<Rightarrow> bool) \<Rightarrow> (string \<Rightarrow> string option) \<Rightarrow> (Resource list \<Rightarrow> string) \<Rightarrow> (string \<Rightarrow> Resource list option) \<Rightarrow>
   annotations option \<Rightarrow> Resource \<Rightarrow> ax_error option \<times> annotations option" where
  "DeclareResource isprint url_parse enc dec cmd res =
    (case AddResource url_parse enc dec cmd res of
       (v, cmd') \<Rightarrow> (declarationError isprint KindResource (r_URI res) v, cmd'))"

section \<open>What validation accepts\<close>

definition argument_ok :: "PromptArgument \<Rightarrow> bool" where
  "argument_ok a \<longleftrightarrow> validName (a_Name a) \<and> valid_utf8 (a_Title a) \<and> valid_utf8 (a_Description a)"

definition prompt_ok :: "Prompt \<Rightarrow> bool" where
  "prompt_ok p \<longleftrightarrow>
     validName (p_Name p) \<and> valid_utf8 (p_Title p) \<and> valid_utf8 (p_Description p) \<and>
     (\<forall>a \<in> set (p_Arguments p). argument_ok a) \<and> distinct (map a_Name (p_Arguments p)) \<and>
     p_Template p \<noteq> [] \<and> length (p_Template p) \<le> 65536 \<and> valid_utf8 (p_Template p) \<and>
     set (templatePlaceholders (p_Template p)) \<subseteq> a_Name ` set (p_Arguments p)"

definition resource_ok :: "(string \<Rightarrow> string option) \<Rightarrow> Resource \<Rightarrow> bool" where
  "resource_ok url_parse r \<longleftrightarrow>
     r_URI r \<noteq> [] \<and> length (r_URI r) \<le> 2048 \<and> valid_utf8 (r_URI r) \<and>
     \<not> contains_func isControlOrSpace (r_URI r) \<and>
     (\<exists>scheme. url_parse (r_URI r) = Some scheme \<and> scheme \<noteq> []) \<and>
     r_Name r \<noteq> [] \<and> valid_utf8 (r_Name r) \<and> valid_utf8 (r_Title r) \<and> valid_utf8 (r_Description r) \<and>
     valid_utf8 (r_MIMEType r) \<and> \<not> contains_func is_control (r_MIMEType r) \<and>
     length (r_Content r) \<le> 1048576 \<and> valid_utf8 (r_Content r)"

lemma checkName_None [simp]: "checkName f n = None \<longleftrightarrow> validName n"
  by (auto simp: checkName_def validName_def)

lemma checkUTF8_None [simp]: "checkUTF8 f s = None \<longleftrightarrow> valid_utf8 s"
  by (simp add: checkUTF8_def)

lemma check_arguments_None:
  "check_arguments i D args = None \<longleftrightarrow>
     (\<forall>a \<in> set args. argument_ok a) \<and> distinct (map a_Name args) \<and> D \<inter> a_Name ` set args = {}"
proof (induction i D args rule: check_arguments.induct)
  case (2 i D arg args)
  show ?case
  proof (cases "argument_ok arg \<and> a_Name arg \<notin> D")
    case True
    then have "checkName f (a_Name arg) = None" "checkUTF8 f (a_Title arg) = None"
      "checkUTF8 f (a_Description arg) = None" for f
      by (simp_all add: argument_ok_def)
    with True have "check_arguments i D (arg # args) = check_arguments (Suc i) (insert (a_Name arg) D) args"
      by (simp add: Let_def del: checkName_None checkUTF8_None)
    moreover note "2.IH" [OF refl]
    ultimately show ?thesis using 2 True by (auto simp: Let_def argument_ok_def)
  next
    case False
    then show ?thesis by (auto simp: argument_ok_def Let_def checkUTF8_def split: option.splits if_splits)
  qed
qed simp

lemma check_template_None:
  "check_template D t = None \<longleftrightarrow>
     t \<noteq> [] \<and> length t \<le> 65536 \<and> valid_utf8 t \<and> set (templatePlaceholders t) \<subseteq> D"
  by (auto simp: check_template_def maxTemplateBytes_def list_ex_iff)

lemma ValidatePrompt_None: "ValidatePrompt p = None \<longleftrightarrow> prompt_ok p"
  by (auto simp: ValidatePrompt_def prompt_ok_def check_arguments_None check_template_None)

lemma checkURI_None:
  "checkURI up u = None \<longleftrightarrow>
     u \<noteq> [] \<and> length u \<le> 2048 \<and> valid_utf8 u \<and> \<not> contains_func isControlOrSpace u \<and>
     (\<exists>scheme. up u = Some scheme \<and> scheme \<noteq> [])"
  by (auto simp: checkURI_def maxResourceURIBytes_def split: option.splits)

lemma ValidateResource_None: "ValidateResource up r = None \<longleftrightarrow> resource_ok up r"
  by (auto simp: ValidateResource_def resource_ok_def checkURI_None maxResourceContentBytes_def)

section \<open>The store against its specification\<close>

lemma addDeclaration_violation_unchanged:
  "addDeclaration enc dec validate key ak kf cmd d = (Some v, cmd') \<Longrightarrow> cmd' = cmd"
  by (auto simp: addDeclaration_def split: option.splits prod.splits if_splits)

lemma addDeclaration_other_keys:
  assumes "addDeclaration enc dec validate key ak kf (Some anns) d = (v, Some anns')" and "k \<noteq> ak"
  shows "anns' k = anns k"
  using assms by (auto simp: addDeclaration_def split: option.splits prod.splits if_splits)

lemma addDeclaration_cmd:
  "\<exists>v anns'. addDeclaration enc dec validate key ak kf (Some anns) d = (v, Some anns')"
  by (auto simp: addDeclaration_def split: option.splits prod.splits)

text \<open>The store a declaring author sees: a list to which acceptable declarations are appended.\<close>

definition spec_add :: "('d \<Rightarrow> bool) \<Rightarrow> ('d \<Rightarrow> string) \<Rightarrow> 'd list \<Rightarrow> 'd \<Rightarrow> 'd list" where
  "spec_add acceptable key ds d = (if acceptable d \<and> key d \<notin> key ` set ds then ds @ [d] else ds)"

lemma spec_add_invariant:
  assumes "distinct (map key ds)" and "\<forall>d \<in> set ds. acceptable d"
  shows "distinct (map key (spec_add acceptable key ds d))" and "\<forall>x \<in> set (spec_add acceptable key ds d). acceptable x"
  using assms by (auto simp: spec_add_def)

text \<open>
  The contract of the JSON encoding: decoding gives back what was encoded, for
  lists of valid declarations. Validity is needed because the encoder replaces
  ill-formed UTF-8.
\<close>

lemma list_ex_key: "list_ex (\<lambda>x. key x = k) ds \<longleftrightarrow> k \<in> key ` set ds"
  by (auto simp: list_ex_iff)

locale declaration_codec =
  fixes enc :: "'d list \<Rightarrow> string"
    and dec :: "string \<Rightarrow> 'd list option"
    and validate :: "'d \<Rightarrow> Violation option"
    and key :: "'d \<Rightarrow> string"
  assumes decode_encode: "(\<forall>d \<in> set ds. validate d = None) \<Longrightarrow> dec (enc ds) = Some ds"
begin

definition add_to :: "string \<Rightarrow> string \<Rightarrow> annotations \<Rightarrow> 'd \<Rightarrow> annotations" where
  "add_to ak kf anns d = (case snd (addDeclaration enc dec validate key ak kf (Some anns) d) of Some a \<Rightarrow> a | None \<Rightarrow> anns)"

lemma decodeValid_all_valid: "d \<in> set (fst (decodeValid dec validate anns ak)) \<Longrightarrow> validate d = None"
  by (auto simp: decodeValid_def Let_def split: option.splits)

lemma add_accepts_iff:
  assumes "decodeValid dec validate anns ak = (ds, True)"
  shows "fst (addDeclaration enc dec validate key ak kf (Some anns) d) = None \<longleftrightarrow>
    validate d = None \<and> key d \<notin> key ` set ds"
  using assms by (auto simp: addDeclaration_def list_ex_key split: option.splits)

lemma add_refines:
  assumes "decodeValid dec validate anns ak = (ds, True)"
  shows "decodeValid dec validate (add_to ak kf anns d) ak = (spec_add (\<lambda>d. validate d = None) key ds d, True)"
proof (cases "validate d = None \<and> key d \<notin> key ` set ds")
  case True
  then have "add_to ak kf anns d = anns(ak \<mapsto> enc (ds @ [d]))"
    using assms by (auto simp: add_to_def addDeclaration_def list_ex_key)
  moreover have valid: "\<forall>x \<in> set (ds @ [d]). validate x = None"
    using True decodeValid_all_valid [of _ anns ak] assms by auto
  ultimately show ?thesis
    using decode_encode [OF valid] valid True
    by (simp add: decodeValid_def spec_add_def filter_id_conv)
next
  case False
  then have "add_to ak kf anns d = anns"
    using assms by (auto simp: add_to_def addDeclaration_def list_ex_key split: option.splits)
  with False assms show ?thesis by (auto simp: spec_add_def)
qed

lemma add_all_refines:
  assumes "decodeValid dec validate anns ak = (ds, True)"
  shows "decodeValid dec validate (foldl (add_to ak kf) anns xs) ak =
    (foldl (spec_add (\<lambda>d. validate d = None) key) ds xs, True)"
  using assms by (induction xs arbitrary: anns ds) (auto simp: add_refines)

end

lemma foldl_spec_add_invariant:
  "distinct (map key (foldl (spec_add acceptable key) [] xs)) \<and>
   (\<forall>d \<in> set (foldl (spec_add acceptable key) [] xs). acceptable d)"
  by (rule rev_induct [where xs = xs]) (auto dest: spec_add_invariant)

section \<open>Duplicates and deduplication over the walk\<close>

text \<open>All declarations of a walk, each with its key and declaring command.\<close>

definition declared_keys :: "command list \<Rightarrow> (annotations \<Rightarrow> 'd list) \<Rightarrow> ('d \<Rightarrow> string) \<Rightarrow> (string \<times> string) list" where
  "declared_keys cmds decode key =
     concat (map (\<lambda>c. map (\<lambda>d. (key d, cmd_path c)) (decode (cmd_anns c))) cmds)"

fun first_repeat :: "(string \<rightharpoonup> string) \<Rightarrow> (string \<times> string) list \<Rightarrow> (string \<times> string \<times> string) option" where
  "first_repeat m [] = None"
| "first_repeat m ((k, path) # rest) =
    (case m k of Some first \<Rightarrow> Some (k, first, path) | None \<Rightarrow> first_repeat (m(k \<mapsto> path)) rest)"

fun record_paths :: "(string \<rightharpoonup> string) \<Rightarrow> (string \<times> string) list \<Rightarrow> (string \<rightharpoonup> string)" where
  "record_paths m [] = m"
| "record_paths m ((k, path) # rest) = record_paths (m(k \<mapsto> path)) rest"

definition duplicate_conflict :: "Kind \<Rightarrow> string \<times> string \<times> string \<Rightarrow> Conflict" where
  "duplicate_conflict kind t = (case t of (k, first, path) \<Rightarrow>
     \<lparr>cf_Kind = kind, cf_Key = k, cf_Reason = ReasonDuplicate, cf_Commands = [first, path]\<rparr>)"

lemma scan_declarations_eq:
  "snd (scan_declarations kind key path m ds) =
     map_option (duplicate_conflict kind) (first_repeat m (map (\<lambda>d. (key d, path)) ds))"
  "snd (scan_declarations kind key path m ds) = None \<Longrightarrow>
     fst (scan_declarations kind key path m ds) = record_paths m (map (\<lambda>d. (key d, path)) ds)"
  by (induction kind key path m ds rule: scan_declarations.induct)
    (auto simp: duplicate_conflict_def split: option.splits)

lemma first_repeat_append:
  "first_repeat m (xs @ ys) =
    (case first_repeat m xs of Some t \<Rightarrow> Some t | None \<Rightarrow> first_repeat (record_paths m xs) ys)"
proof (induction xs arbitrary: m)
  case (Cons x xs)
  obtain k path where x: "x = (k, path)" by fastforce
  show ?case using Cons.IH [of "m(k \<mapsto> path)"] by (cases "m k") (simp_all add: x del: fun_upd_apply split: option.split)
qed simp

lemma foldl_visit_found: "found \<noteq> None \<Longrightarrow> foldl (find_duplicate_visit kind decode key) (m, found) cmds = (m, found)"
  by (induction cmds) (auto simp: find_duplicate_visit_def)

lemma foldl_find_duplicate:
  "snd (foldl (find_duplicate_visit kind decode key) (m, None) cmds) =
     map_option (duplicate_conflict kind) (first_repeat m (declared_keys cmds decode key))"
proof (induction cmds arbitrary: m)
  case Nil
  then show ?case by (simp add: declared_keys_def)
next
  case (Cons c cmds)
  let ?ks = "map (\<lambda>d. (key d, cmd_path c)) (decode (cmd_anns c))"
  obtain m' f where sc: "scan_declarations kind key (cmd_path c) m (decode (cmd_anns c)) = (m', f)"
    by fastforce
  have f: "f = map_option (duplicate_conflict kind) (first_repeat m ?ks)"
    and m': "f = None \<Longrightarrow> m' = record_paths m ?ks"
    using scan_declarations_eq [of kind key "cmd_path c" m "decode (cmd_anns c)"] sc by auto
  have dk: "declared_keys (c # cmds) decode key = ?ks @ declared_keys cmds decode key"
    by (simp add: declared_keys_def)
  have v: "find_duplicate_visit kind decode key (m, None) c = (m', f)"
    by (simp add: find_duplicate_visit_def sc)
  show ?case
  proof (cases f)
    case None
    then show ?thesis using Cons.IH m' f v by (simp add: dk first_repeat_append)
  next
    case (Some x)
    then show ?thesis using f v by (auto simp: dk first_repeat_append foldl_visit_found)
  qed
qed

lemma findDuplicate_eq:
  "findDuplicate root kind decode key =
     map_option (duplicate_conflict kind)
       (first_repeat Map.empty (declared_keys (WalkDeclarationCommands root) decode key))"
  by (simp add: findDuplicate_def foldl_find_duplicate)

lemma first_repeat_None:
  "first_repeat m xs = None \<longleftrightarrow> distinct (map fst xs) \<and> dom m \<inter> fst ` set xs = {}"
proof (induction xs arbitrary: m)
  case (Cons x xs)
  obtain k path where x: "x = (k, path)" by fastforce
  show ?case using Cons.IH [of "m(k \<mapsto> path)"] by (cases "m k") (auto simp: x simp del: fun_upd_apply)
qed simp

lemma first_repeat_SomeD:
  assumes "first_repeat m xs = Some (k, first, path)"
  shows "\<exists>ys zs. xs = ys @ (k, path) # zs \<and> distinct (map fst ys) \<and> dom m \<inter> fst ` set ys = {} \<and>
    (m k = Some first \<or> (k, first) \<in> set ys)"
  using assms
proof (induction xs arbitrary: m)
  case (Cons x rest)
  obtain k' p where x: "x = (k', p)" by fastforce
  show ?case
  proof (cases "m k'")
    case None
    then have "first_repeat (m(k' \<mapsto> p)) rest = Some (k, first, path)"
      using Cons.prems by (simp add: x)
    from Cons.IH [OF this] obtain ys zs where "rest = ys @ (k, path) # zs" "distinct (map fst ys)"
      "dom (m(k' \<mapsto> p)) \<inter> fst ` set ys = {}" "(m(k' \<mapsto> p)) k = Some first \<or> (k, first) \<in> set ys"
      by blast
    with None show ?thesis
      by (intro exI [of _ "(k', p) # ys"] exI [of _ zs]) (auto simp: x split: if_splits)
  next
    case (Some f)
    with Cons.prems show ?thesis by (intro exI [of _ "[]"] exI [of _ rest]) (auto simp: x)
  qed
qed simp

text \<open>\<^verbatim>\<open>keepFirst\<close> over successive calls is \<^verbatim>\<open>keepFirst\<close> over the whole list.\<close>

lemma keepFirst_seen: "snd (keepFirst seen key ds) = seen \<union> key ` set ds"
  by (induction seen key ds rule: keepFirst.induct) (auto split: prod.splits)

lemma keepFirst_append:
  "fst (keepFirst seen key (xs @ ys)) = fst (keepFirst seen key xs) @ fst (keepFirst (seen \<union> key ` set xs) key ys)"
proof (induction seen key xs rule: keepFirst.induct)
  case (2 seen key d ds)
  have "insert (key d) seen \<union> key ` set ds = seen \<union> key ` set (d # ds)" by auto
  moreover have "seen \<union> key ` set (d # ds) = seen \<union> key ` set ds" if "key d \<in> seen" using that by auto
  ultimately show ?case using 2 by (auto split: prod.splits)
qed simp

lemma keepFirst_keys: "key ` set (fst (keepFirst seen key ds)) = key ` set ds - seen"
proof (induction seen key ds rule: keepFirst.induct)
  case (2 seen key d ds)
  show ?case
  proof (cases "key d \<in> seen")
    case False
    then have "key ` set (fst (keepFirst seen key (d # ds))) = insert (key d) (key ` set ds - insert (key d) seen)"
      using 2 by (simp add: case_prod_beta)
    with False show ?thesis by auto
  qed (use 2 in auto)
qed simp

lemma keepFirst_subset: "set (fst (keepFirst seen key ds)) \<subseteq> set ds"
  by (induction seen key ds rule: keepFirst.induct) (auto split: prod.splits)

lemma keepFirst_distinct_keys: "distinct (map key (fst (keepFirst seen key ds)))"
proof (induction seen key ds rule: keepFirst.induct)
  case (2 seen key d ds)
  then show ?case
    using keepFirst_keys [of key "insert (key d) seen" ds] by (auto split: prod.splits)
qed simp

lemma keepFirst_find:
  "k \<notin> seen \<Longrightarrow> find (\<lambda>d. key d = k) (fst (keepFirst seen key ds)) = find (\<lambda>d. key d = k) ds"
  by (induction seen key ds rule: keepFirst.induct) (auto split: prod.splits)

lemma keepFirst_distinct: "distinct (map key ds) \<Longrightarrow> seen \<inter> key ` set ds = {} \<Longrightarrow> fst (keepFirst seen key ds) = ds"
  by (induction seen key ds rule: keepFirst.induct) (auto split: prod.splits)

lemma foldl_collect_visit:
  "foldl (collect_visit P R) (\<lparr>d_prompts = sp, d_resources = sr\<rparr>, ps, rs) cmds =
    (let allP = concat (map (\<lambda>c. P (cmd_anns c)) cmds); allR = concat (map (\<lambda>c. R (cmd_anns c)) cmds) in
     (\<lparr>d_prompts = sp \<union> p_Name ` set allP, d_resources = sr \<union> r_URI ` set allR\<rparr>,
      ps @ fst (keepFirst sp p_Name allP), rs @ fst (keepFirst sr r_URI allR)))"
proof (induction cmds arbitrary: sp sr ps rs)
  case (Cons c cmds)
  have "collect_visit P R (\<lparr>d_prompts = sp, d_resources = sr\<rparr>, ps, rs) c =
    (\<lparr>d_prompts = sp \<union> p_Name ` set (P (cmd_anns c)), d_resources = sr \<union> r_URI ` set (R (cmd_anns c))\<rparr>,
     ps @ fst (keepFirst sp p_Name (P (cmd_anns c))), rs @ fst (keepFirst sr r_URI (R (cmd_anns c))))"
    using keepFirst_seen [of sp p_Name "P (cmd_anns c)"] keepFirst_seen [of sr r_URI "R (cmd_anns c)"]
    by (auto simp: collect_visit_def FirstPrompts_def FirstResources_def split: prod.splits)
  then show ?case
    by (simp add: Cons.IH keepFirst_append Let_def image_Un Un_assoc)
qed simp

definition all_declared :: "(annotations \<Rightarrow> 'd list) \<Rightarrow> command \<Rightarrow> 'd list" where
  "all_declared decode root = concat (map (\<lambda>c. decode (cmd_anns c)) (WalkDeclarationCommands root))"

lemma CollectDeclarations_eq:
  "CollectDeclarations P R root =
    (fst (keepFirst {} p_Name (all_declared P root)), fst (keepFirst {} r_URI (all_declared R root)))"
  unfolding CollectDeclarations_def NewDeduper_def foldl_collect_visit
  by (simp add: Let_def all_declared_def)

lemma map_fst_declared_keys:
  "map fst (declared_keys (WalkDeclarationCommands root) decode key) = map key (all_declared decode root)"
  by (simp add: declared_keys_def all_declared_def map_concat comp_def)

lemma foldl_find_corrupt:
  "foldl (find_corrupt_visit up dP dR) found cmds = None \<longleftrightarrow>
     found = None \<and> (\<forall>c \<in> set cmds. snd (decodeValid dP ValidatePrompt (cmd_anns c) promptsAnnotationKey) \<and>
       snd (decodeValid dR (ValidateResource up) (cmd_anns c) resourcesAnnotationKey))"
  by (induction cmds arbitrary: found) (auto simp: find_corrupt_visit_def)

section \<open>Truncated keys\<close>

lemma truncate_cut_le: "truncate_cut key n \<le> n"
  by (induction key n rule: truncate_cut.induct) auto

lemma truncate_cut_start: "truncate_cut key n = 0 \<or> rune_start (key ! truncate_cut key n)"
  by (induction key n rule: truncate_cut.induct) auto

lemma valid_utf8_ellipsis: "valid_utf8 ellipsis"
proof -
  have "decode_rune ellipsis = (0x2026, 3)"
    by (simp add: ellipsis_def decode_rune_def byte_def utf8_size_def utf8_second_def utf8_lo_def
        utf8_hi_def utf8_cont_def)
  then show ?thesis
    using valid_utf8_step [of ellipsis] by (simp add: ellipsis_def rune_ok_def rune_error_def valid_utf8_def)
qed

section \<open>Properties\<close>

text \<open>
  Validation accepts exactly the declarations the documentation describes: a
  prompt with a valid name, unique valid argument names, well-formed text, and a
  non-empty template of at most 64 KiB whose placeholders are all declared; a
  resource with an absolute, parsable URI of at most 2048 bytes without
  whitespace or control characters, a name, and at most 1 MiB of content.
\<close>

theorem validation_accepts_iff:
  "(ValidatePrompt p = None \<longleftrightarrow> prompt_ok p) \<and> (ValidateResource up r = None \<longleftrightarrow> resource_ok up r)"
  by (simp add: ValidatePrompt_None ValidateResource_None)

text \<open>
  Collection over the command tree is first-wins: the collected prompts and
  resources have distinct keys, cover every declared key with its first
  declaration in walk order, and when no duplicate is reported they are all the
  declarations in order. A duplicate is reported exactly when some key repeats.
\<close>

theorem CollectDeclarations_first_wins:
  "(FindDuplicate P R root = None \<longleftrightarrow>
      distinct (map p_Name (all_declared P root)) \<and> distinct (map r_URI (all_declared R root))) \<and>
   (FindDuplicate P R root = None \<longrightarrow>
      CollectDeclarations P R root = (all_declared P root, all_declared R root)) \<and>
   distinct (map p_Name (fst (CollectDeclarations P R root))) \<and>
   distinct (map r_URI (snd (CollectDeclarations P R root))) \<and>
   find (\<lambda>d. p_Name d = k) (fst (CollectDeclarations P R root)) = find (\<lambda>d. p_Name d = k) (all_declared P root) \<and>
   find (\<lambda>d. r_URI d = k) (snd (CollectDeclarations P R root)) = find (\<lambda>d. r_URI d = k) (all_declared R root)"
proof -
  have none: "FindDuplicate P R root = None \<longleftrightarrow>
      distinct (map p_Name (all_declared P root)) \<and> distinct (map r_URI (all_declared R root))"
    by (simp add: FindDuplicate_def findDuplicate_eq first_repeat_None map_fst_declared_keys)
  then show ?thesis
    by (simp add: CollectDeclarations_eq keepFirst_distinct keepFirst_distinct_keys keepFirst_find)
qed

theorem CollectDeclarations_first_wins_witness:
  "CollectDeclarations (\<lambda>_. []) (\<lambda>_. []) (Command ''app'' False (\<lambda>_. None) []) = ([], [])"
proof -
  have "FindDuplicate (\<lambda>_. []) (\<lambda>_. []) (Command ''app'' False (\<lambda>_. None) []) = None"
    by (simp add: FindDuplicate_def findDuplicate_eq declared_keys_def)
  then show ?thesis
    using CollectDeclarations_first_wins [of "\<lambda>_. []" "\<lambda>_. []" "Command ''app'' False (\<lambda>_. None) []"]
    by (simp add: all_declared_def)
qed

text \<open>
  A reported duplicate is the first repeat in walk order: all keys declared
  before it are distinct, and the two commands named are the one that declared
  the key first and the one that repeats it.
\<close>

theorem findDuplicate_reports_first_repeat:
  assumes "findDuplicate root kind decode key = Some c"
  shows "\<exists>ys zs first path.
    declared_keys (WalkDeclarationCommands root) decode key = ys @ (cf_Key c, path) # zs \<and>
    distinct (map fst ys) \<and> (cf_Key c, first) \<in> set ys \<and>
    cf_Commands c = [first, path] \<and> cf_Reason c = ReasonDuplicate \<and> cf_Kind c = kind"
proof -
  let ?ks = "declared_keys (WalkDeclarationCommands root) decode key"
  obtain k first path where r: "first_repeat Map.empty ?ks = Some (k, first, path)"
    and c: "c = duplicate_conflict kind (k, first, path)"
    using assms by (auto simp: findDuplicate_eq)
  then show ?thesis
    using first_repeat_SomeD [OF r] by (fastforce simp: duplicate_conflict_def)
qed

definition sample_tree :: command where
  "sample_tree = Command ''app'' False (\<lambda>_. None)
     [Command ''app a'' False [''p'' \<mapsto> ''x''] [], Command ''app b'' False [''p'' \<mapsto> ''x''] []]"

definition sample_decode :: "annotations \<Rightarrow> string list" where
  "sample_decode anns = (case anns ''p'' of None \<Rightarrow> [] | Some v \<Rightarrow> [v])"

theorem findDuplicate_reports_first_repeat_witness:
  "\<exists>c. findDuplicate sample_tree KindPrompt sample_decode id = Some c \<and>
     cf_Commands c = [''app a'', ''app b''] \<and>
     (\<exists>ys zs first path.
       declared_keys (WalkDeclarationCommands sample_tree) sample_decode id = ys @ (cf_Key c, path) # zs \<and>
       distinct (map fst ys) \<and> (cf_Key c, first) \<in> set ys)"
proof -
  let ?c = "\<lparr>cf_Kind = KindPrompt, cf_Key = ''x'', cf_Reason = ReasonDuplicate,
     cf_Commands = [''app a'', ''app b'']\<rparr>"
  have eval: "findDuplicate sample_tree KindPrompt sample_decode id = Some ?c"
    by (simp add: findDuplicate_def sample_tree_def sample_decode_def find_duplicate_visit_def)
  show ?thesis
    using findDuplicate_reports_first_repeat [OF eval] eval by (intro exI [of _ ?c]) auto
qed

text \<open>
  A key echoed in an error message is bounded: at most 128 bytes of it plus
  the ellipsis, cut on a rune boundary so that well-formed text stays
  well-formed; a short key is unchanged.
\<close>

theorem TruncateKey_bounded:
  "length (TruncateKey key) \<le> 131 \<and> (length key \<le> 128 \<longrightarrow> TruncateKey key = key) \<and>
   (valid_utf8 key \<longrightarrow> valid_utf8 (TruncateKey key))"
proof (cases "length key \<le> 128")
  case False
  let ?n = "truncate_cut key 128"
  have n: "?n \<le> 128" by (rule truncate_cut_le)
  have "valid_utf8 (take ?n key)" if "valid_utf8 key"
    using truncate_cut_start [of key 128] valid_utf8_take [OF that, of ?n] n False
    by (cases "?n = 0") (auto simp: valid_utf8_def)
  with False n show ?thesis
    by (auto simp: TruncateKey_def maxKeyInMessage_def ellipsis_def [symmetric] valid_utf8_ellipsis)
      (simp add: ellipsis_def)
qed (simp add: TruncateKey_def maxKeyInMessage_def)

theorem TruncateKey_bounded_witness: "TruncateKey ''deploy'' = ''deploy'' \<and> valid_utf8 (TruncateKey ''deploy'')"
proof -
  have "valid_utf8 ''deploy''" by (rule valid_utf8_ascii) (simp add: byte_def)
  then show ?thesis using TruncateKey_bounded [of "''deploy''"] by simp
qed

end
