(* ===== verification/Go_Json.thy ===== *)
theory Go_Json
  imports Go_Strings
begin

text \<open>
  The part of \<^verbatim>\<open>encoding/json\<close> the sources use: compact marshalling with HTML
  escaping, and a parser with Go's rules (escapes and surrogate pairs, ill-formed
  UTF-8 replaced, nesting limited to 10000). Numbers keep their literal. The
  main result is the round trip: parsing a marshalled value gives the value
  back when its strings are well-formed.
\<close>

section \<open>Values and marshalling\<close>

datatype json =
    JNull
  | JBool bool
  | JNum string
  | JStr string
  | JArr "json list"
  | JObj "(string \<times> json) list"

definition dq :: char where "dq = char_of (34 :: nat)"

definition esc_chunk :: "nat \<times> string \<Rightarrow> string" where
  "esc_chunk c = (case c of (r, bs) \<Rightarrow>
     (if r = rune_error \<and> length bs = 1 then backslash # ''ufffd''
      else if r = 34 \<or> r = 92 then [backslash, char_of r]
      else if r = 8 then backslash # ''b''
      else if r = 12 then backslash # ''f''
      else if r = 10 then backslash # ''n''
      else if r = 13 then backslash # ''r''
      else if r = 9 then backslash # ''t''
      else if r < 0x20 \<or> r = 60 \<or> r = 62 \<or> r = 38 \<or> r = 0x2028 \<or> r = 0x2029
      then backslash # ''u'' @ hex_digits 4 r
      else bs))"

definition enc_string :: "string \<Rightarrow> string" where
  "enc_string s = dq # concat (map esc_chunk (rune_chunks s)) @ [dq]"

fun marshal :: "json \<Rightarrow> string" where
  "marshal JNull = ''null''"
| "marshal (JBool b) = (if b then ''true'' else ''false'')"
| "marshal (JNum s) = s"
| "marshal (JStr s) = enc_string s"
| "marshal (JArr xs) = ''['' @ str_join '','' (map marshal xs) @ '']''"
| "marshal (JObj ms) = ''{'' @ str_join '','' (map (\<lambda>(k, v). enc_string k @ '':'' @ marshal v) ms) @ ''}''"

section \<open>Parsing\<close>

definition is_ws :: "char \<Rightarrow> bool" where
  "is_ws c \<longleftrightarrow> byte c = 32 \<or> byte c = 9 \<or> byte c = 10 \<or> byte c = 13"

definition skip_ws :: "string \<Rightarrow> string" where
  "skip_ws s = dropWhile is_ws s"

definition hex_value :: "char \<Rightarrow> nat option" where
  "hex_value c =
    (let b = byte c in
     if 48 \<le> b \<and> b \<le> 57 then Some (b - 48)
     else if 97 \<le> b \<and> b \<le> 102 then Some (b - 87)
     else if 65 \<le> b \<and> b \<le> 70 then Some (b - 55)
     else None)"

definition hex4 :: "string \<Rightarrow> (nat \<times> string) option" where
  "hex4 s =
    (case s of
       a # b # c # d # rest \<Rightarrow>
         (case (hex_value a, hex_value b, hex_value c, hex_value d) of
            (Some w, Some x, Some y, Some z) \<Rightarrow> Some (((w * 16 + x) * 16 + y) * 16 + z, rest)
          | _ \<Rightarrow> None)
     | _ \<Rightarrow> None)"

definition encode_rune :: "nat \<Rightarrow> string" where
  "encode_rune r =
    (if r < 0x80 then [char_of r]
     else if r < 0x800 then [char_of (0xC0 + r div 64), char_of (0x80 + r mod 64)]
     else if (0xD800 \<le> r \<and> r < 0xE000) \<or> r > 0x10FFFF
     then [char_of (0xEF :: nat), char_of (0xBF :: nat), char_of (0xBD :: nat)]
     else if r < 0x10000
     then [char_of (0xE0 + r div 4096), char_of (0x80 + r div 64 mod 64), char_of (0x80 + r mod 64)]
     else [char_of (0xF0 + r div 262144), char_of (0x80 + r div 4096 mod 64),
           char_of (0x80 + r div 64 mod 64), char_of (0x80 + r mod 64)])"

text \<open>
  The code unit after \<^verbatim>\<open>\u\<close>, joined with a following low surrogate; a lone
  surrogate becomes the replacement rune. The rest of the input is returned.
\<close>

definition unicode_escape :: "string \<Rightarrow> (nat \<times> string) option" where
  "unicode_escape s =
    (case hex4 s of
       None \<Rightarrow> None
     | Some (r, rest) \<Rightarrow>
         if 0xD800 \<le> r \<and> r < 0xE000 then
           (case rest of
              b # u # more \<Rightarrow>
                if b = backslash \<and> u = CHR ''u'' then
                  (case hex4 more of
                     Some (r2, rest2) \<Rightarrow>
                       if r < 0xDC00 \<and> 0xDC00 \<le> r2 \<and> r2 < 0xE000
                       then Some (0x10000 + (r - 0xD800) * 1024 + (r2 - 0xDC00), rest2)
                       else Some (rune_error, rest)
                   | None \<Rightarrow> Some (rune_error, rest))
                else Some (rune_error, rest)
            | _ \<Rightarrow> Some (rune_error, rest))
         else Some (r, rest))"

definition simple_escape :: "char \<Rightarrow> string option" where
  "simple_escape e =
    (let b = byte e in
     if b = 34 \<or> b = 92 \<or> b = 47 then Some [e]
     else if b = 98 then Some [char_of (8 :: nat)]
     else if b = 102 then Some [char_of (12 :: nat)]
     else if b = 110 then Some [char_of (10 :: nat)]
     else if b = 114 then Some [char_of (13 :: nat)]
     else if b = 116 then Some [char_of (9 :: nat)]
     else None)"

lemma hex4_shorter: "hex4 s = Some (r, rest) \<Longrightarrow> length rest + 4 = length s"
  by (auto simp: hex4_def split: list.splits option.splits)

lemma unicode_escape_shorter: "unicode_escape s = Some (r, rest) \<Longrightarrow> length rest < length s"
  by (auto simp: unicode_escape_def dest!: hex4_shorter split: option.splits if_splits list.splits)

definition prepend :: "string \<Rightarrow> (string \<times> string) option \<Rightarrow> (string \<times> string) option" where
  "prepend s r = (case r of None \<Rightarrow> None | Some (out, rest) \<Rightarrow> Some (s @ out, rest))"

text \<open>The body of a string literal, from after its opening quote.\<close>

function parse_string :: "string \<Rightarrow> (string \<times> string) option" where
  "parse_string s =
    (case s of
       [] \<Rightarrow> None
     | c # rest \<Rightarrow>
         if c = dq then Some ([], rest)
         else if c = backslash then
           (case rest of
              [] \<Rightarrow> None
            | e # more \<Rightarrow>
                if e = CHR ''u'' then
                  (case unicode_escape more of
                     None \<Rightarrow> None
                   | Some (r, rest') \<Rightarrow> prepend (encode_rune r) (parse_string rest'))
                else
                  (case simple_escape e of
                     None \<Rightarrow> None
                   | Some out \<Rightarrow> prepend out (parse_string more)))
         else if byte c < 0x20 then None
         else
           (case decode_rune s of (r, w) \<Rightarrow>
              prepend (if rune_ok (r, w) then take w s else encode_rune rune_error) (parse_string (drop w s))))"
  by pat_completeness auto
termination
proof (relation "measure length", goal_cases)
  case (2 s c rest e more a r rest')
  then show ?case using unicode_escape_shorter [of more r rest'] by auto
next
  case (4 s c rest r w)
  then have "0 < snd (decode_rune s)" by (intro decode_rune_width) simp
  with 4 show ?case by (metis in_measure length_drop diff_less length_greater_0_conv list.distinct(1) snd_conv)
qed auto

declare parse_string.simps [simp del]

lemma prepend_SomeE:
  assumes "prepend p r = Some (out, rest)"
  obtains o' where "r = Some (o', rest)" "out = p @ o'"
  using assms by (auto simp: prepend_def split: option.splits)

lemma dq_backslash [simp]: "dq \<noteq> backslash" "backslash \<noteq> dq" "byte dq = 34" "byte backslash = 92"
  by (simp_all add: dq_def backslash_def byte_def)

lemma parse_string_simps:
  "parse_string [] = None"
  "parse_string (dq # s) = Some ([], s)"
  "parse_string [backslash] = None"
  "parse_string (backslash # CHR ''u'' # s) =
    (case unicode_escape s of None \<Rightarrow> None | Some (r, rest) \<Rightarrow> prepend (encode_rune r) (parse_string rest))"
  "e \<noteq> CHR ''u'' \<Longrightarrow> parse_string (backslash # e # s) =
    (case simple_escape e of None \<Rightarrow> None | Some out \<Rightarrow> prepend out (parse_string s))"
  "c \<noteq> dq \<Longrightarrow> c \<noteq> backslash \<Longrightarrow> byte c < 0x20 \<Longrightarrow> parse_string (c # s) = None"
  "c \<noteq> dq \<Longrightarrow> c \<noteq> backslash \<Longrightarrow> \<not> byte c < 0x20 \<Longrightarrow> parse_string (c # s) =
    (case decode_rune (c # s) of (r, w) \<Rightarrow>
       prepend (if rune_ok (r, w) then take w (c # s) else encode_rune rune_error) (parse_string (drop w (c # s))))"
  by (subst parse_string.simps, simp)+

lemma parse_string_shorter: "parse_string s = Some (out, rest) \<Longrightarrow> length rest < length s"
proof (induction "length s" arbitrary: s out rule: less_induct)
  case less
  have step: "length rest < length s" if "prepend p (parse_string t) = Some (out, rest)" "length t < length s" for p t
    using that less.hyps [of t] by (auto elim!: prepend_SomeE dest: less_trans)
  consider "s = []" | t where "s = dq # t" | "s = [backslash]" | t where "s = backslash # CHR ''u'' # t"
    | e t where "s = backslash # e # t" "e \<noteq> CHR ''u''"
    | c t where "s = c # t" "c \<noteq> dq" "c \<noteq> backslash" "byte c < 0x20"
    | c t where "s = c # t" "c \<noteq> dq" "c \<noteq> backslash" "\<not> byte c < 0x20"
    by (metis neq_Nil_conv)
  then show ?case
  proof cases
    case (4 t)
    then show ?thesis using less.prems step
      by (auto simp: parse_string_simps dest!: unicode_escape_shorter split: option.splits)
  next
    case (5 e t)
    then show ?thesis using less.prems step by (auto simp: parse_string_simps split: option.splits)
  next
    case (7 c t)
    obtain r w where d: "decode_rune s = (r, w)" by fastforce
    have "0 < w" using decode_rune_width(1) [of s] 7 d by simp
    then have "length (drop w s) < length s" using 7 by simp
    then show ?thesis using less.prems 7 d step [of _ "drop w s"] by (simp add: parse_string_simps)
  qed (use less.prems in \<open>simp_all add: parse_string_simps\<close>)
qed

text \<open>A number literal of the JSON grammar, and the input after it.\<close>

definition is_digit :: "char \<Rightarrow> bool" where
  "is_digit c \<longleftrightarrow> 48 \<le> byte c \<and> byte c \<le> 57"

definition int_part :: "string \<Rightarrow> (string \<times> string) option" where
  "int_part s =
    (case s of
       [] \<Rightarrow> None
     | c # rest \<Rightarrow>
         if c = CHR ''0'' then Some ([c], rest)
         else if is_digit c then Some (c # takeWhile is_digit rest, dropWhile is_digit rest)
         else None)"

definition frac_part :: "string \<Rightarrow> (string \<times> string) option" where
  "frac_part s =
    (case s of
       c # d # rest \<Rightarrow>
         if c = CHR ''.'' then
           (if is_digit d then Some (c # takeWhile is_digit (d # rest), dropWhile is_digit (d # rest)) else None)
         else Some ([], s)
     | [c] \<Rightarrow> if c = CHR ''.'' then None else Some ([], s)
     | [] \<Rightarrow> Some ([], s))"

definition exp_part :: "string \<Rightarrow> (string \<times> string) option" where
  "exp_part s =
    (case s of
       e # rest \<Rightarrow>
         if e = CHR ''e'' \<or> e = CHR ''E'' then
           (let sign = (case rest of c # _ \<Rightarrow> if c = CHR ''+'' \<or> c = CHR ''-'' then [c] else [] | [] \<Rightarrow> []);
                digits = takeWhile is_digit (drop (length sign) rest)
            in if digits = [] then None else Some (e # sign @ digits, dropWhile is_digit (drop (length sign) rest)))
         else Some ([], s)
     | [] \<Rightarrow> Some ([], s))"

definition parse_number :: "string \<Rightarrow> (string \<times> string) option" where
  "parse_number s =
    (let sign = (case s of c # _ \<Rightarrow> if c = CHR ''-'' then [c] else [] | [] \<Rightarrow> []) in
     case int_part (drop (length sign) s) of
       None \<Rightarrow> None
     | Some (i, s1) \<Rightarrow>
         (case frac_part s1 of
            None \<Rightarrow> None
          | Some (f, s2) \<Rightarrow>
              (case exp_part s2 of None \<Rightarrow> None | Some (e, s3) \<Rightarrow> Some (sign @ i @ f @ e, s3))))"

text \<open>
  Values. The first argument is the nesting still allowed. The tests that the
  input got shorter make the recursion well-founded; a value always consumes
  input, so they never fail.
\<close>

definition literal :: "string \<Rightarrow> json \<Rightarrow> string \<Rightarrow> (json \<times> string) option" where
  "literal word v s = (if has_prefix s word then Some (v, drop (length word) s) else None)"

function parse_value :: "nat \<Rightarrow> string \<Rightarrow> (json \<times> string) option"
  and parse_elems :: "nat \<Rightarrow> string \<Rightarrow> (json list \<times> string) option"
  and parse_members :: "nat \<Rightarrow> string \<Rightarrow> ((string \<times> json) list \<times> string) option" where
  "parse_value depth s =
    (case s of
       [] \<Rightarrow> None
     | c # rest \<Rightarrow>
         if is_ws c then parse_value depth rest
         else if c = dq then
           (case parse_string rest of None \<Rightarrow> None | Some (str, rest') \<Rightarrow> Some (JStr str, rest'))
         else if c = CHR ''['' then
           (if depth = 0 then None
            else if has_prefix (skip_ws rest) '']'' then Some (JArr [], drop 1 (skip_ws rest))
            else (case parse_elems (depth - 1) rest of None \<Rightarrow> None | Some (vs, rest') \<Rightarrow> Some (JArr vs, rest')))
         else if c = CHR ''{'' then
           (if depth = 0 then None
            else if has_prefix (skip_ws rest) ''}'' then Some (JObj [], drop 1 (skip_ws rest))
            else (case parse_members (depth - 1) rest of None \<Rightarrow> None | Some (ms, rest') \<Rightarrow> Some (JObj ms, rest')))
         else if c = CHR ''n'' then literal ''null'' JNull s
         else if c = CHR ''t'' then literal ''true'' (JBool True) s
         else if c = CHR ''f'' then literal ''false'' (JBool False) s
         else (case parse_number s of None \<Rightarrow> None | Some (n, rest') \<Rightarrow> Some (JNum n, rest')))"
| "parse_elems depth s =
    (case parse_value depth s of
       None \<Rightarrow> None
     | Some (v, rest) \<Rightarrow>
         (case skip_ws rest of
            [] \<Rightarrow> None
          | c # more \<Rightarrow>
              if c = CHR '']'' then Some ([v], more)
              else if c = CHR '','' \<and> length more < length s then
                (case parse_elems depth more of None \<Rightarrow> None | Some (vs, rest') \<Rightarrow> Some (v # vs, rest'))
              else None))"
| "parse_members depth s =
    (case skip_ws s of
       [] \<Rightarrow> None
     | q # body \<Rightarrow>
         if q \<noteq> dq then None
         else
           (case parse_string body of
              None \<Rightarrow> None
            | Some (k, rest) \<Rightarrow>
                (case skip_ws rest of
                   [] \<Rightarrow> None
                 | col # after \<Rightarrow>
                     if col = CHR '':'' \<and> length after < length s then
                       (case parse_value depth after of
                          None \<Rightarrow> None
                        | Some (v, rest2) \<Rightarrow>
                            (case skip_ws rest2 of
                               [] \<Rightarrow> None
                             | c # more \<Rightarrow>
                                 if c = CHR ''}'' then Some ([(k, v)], more)
                                 else if c = CHR '','' \<and> length more < length s then
                                   (case parse_members depth more of
                                      None \<Rightarrow> None
                                    | Some (ms, rest') \<Rightarrow> Some ((k, v) # ms, rest'))
                                 else None))
                     else None)))"
  by pat_completeness auto
termination
  by (relation "measures
      [\<lambda>x. case x of Inl (d, s) \<Rightarrow> length s | Inr (Inl (d, s)) \<Rightarrow> length s | Inr (Inr (d, s)) \<Rightarrow> length s,
       \<lambda>x. case x of Inl _ \<Rightarrow> 0 | Inr _ \<Rightarrow> 1]") auto

declare parse_value.simps [simp del] parse_elems.simps [simp del] parse_members.simps [simp del]

definition maxNestingDepth :: nat where "maxNestingDepth = 10000"

definition unmarshal :: "string \<Rightarrow> json option" where
  "unmarshal s =
    (case parse_value maxNestingDepth s of
       None \<Rightarrow> None
     | Some (v, rest) \<Rightarrow> if skip_ws rest = [] then Some v else None)"

lemma skip_ws_length: "length (skip_ws s) \<le> length s"
  by (simp add: skip_ws_def length_dropWhile_le)

lemma skip_ws_ConsD: "skip_ws s = c # t \<Longrightarrow> length t < length s"
  using skip_ws_length [of s] by simp

lemma int_part_shorter: "int_part s = Some (i, rest) \<Longrightarrow> length rest < length s"
  using length_dropWhile_le [of is_digit]
  by (auto simp: int_part_def less_Suc_eq_le split: list.splits if_splits)

lemma frac_part_shorter: "frac_part s = Some (i, rest) \<Longrightarrow> length rest \<le> length s"
  using length_dropWhile_le [of is_digit "tl s"] by (auto simp: frac_part_def split: list.splits if_splits)

lemma exp_part_shorter: "exp_part s = Some (i, rest) \<Longrightarrow> length rest \<le> length s"
proof (cases s)
  case (Cons e tl)
  let ?sign = "case tl of c # _ \<Rightarrow> if c = CHR ''+'' \<or> c = CHR ''-'' then [c] else [] | [] \<Rightarrow> []"
  assume "exp_part s = Some (i, rest)"
  then have "rest = s \<or> rest = dropWhile is_digit (drop (length ?sign) tl)"
    using Cons by (auto simp: exp_part_def Let_def split: if_splits)
  then show ?thesis
    using Cons length_dropWhile_le [of is_digit "drop (length ?sign) tl"] by auto
qed (simp add: exp_part_def)

lemma parse_number_shorter: "parse_number s = Some (n, rest) \<Longrightarrow> length rest < length s"
proof -
  define sign where "sign = (case s of c # _ \<Rightarrow> if c = CHR ''-'' then [c] else [] | [] \<Rightarrow> [])"
  assume "parse_number s = Some (n, rest)"
  then obtain i f e s1 s2 where "int_part (drop (length sign) s) = Some (i, s1)"
    "frac_part s1 = Some (f, s2)" "exp_part s2 = Some (e, rest)"
    unfolding parse_number_def sign_def [symmetric] Let_def by (auto split: option.splits)
  then show ?thesis
    using int_part_shorter frac_part_shorter exp_part_shorter by fastforce
qed

lemma literal_shorter: "word \<noteq> [] \<Longrightarrow> literal word v s = Some (j, rest) \<Longrightarrow> length rest < length s"
  by (auto simp: literal_def has_prefix_iff split: if_splits)

text \<open>Every value, element list and member list consumes input.\<close>

lemma parse_value_SomeD:
  assumes "parse_value d (c # tls) = Some (v, rest)"
  shows "parse_value d tls = Some (v, rest) \<or> (\<exists>str. parse_string tls = Some (str, rest)) \<or>
    rest = drop 1 (skip_ws tls) \<or> (\<exists>vs. parse_elems (d - 1) tls = Some (vs, rest)) \<or>
    (\<exists>ms. parse_members (d - 1) tls = Some (ms, rest)) \<or>
    (\<exists>w j. w \<noteq> [] \<and> literal w j (c # tls) = Some (v, rest)) \<or> (\<exists>n. parse_number (c # tls) = Some (n, rest))"
  using assms by (subst (asm) parse_value.simps) (auto split: if_splits option.splits)

lemma parse_elems_SomeD:
  assumes "parse_elems d s = Some (vs, rest)"
  obtains v r c more where "parse_value d s = Some (v, r)" "skip_ws r = c # more"
    "rest = more \<or> (\<exists>vs'. length more < length s \<and> parse_elems d more = Some (vs', rest))"
  using assms by (subst (asm) parse_elems.simps) (auto split: if_splits option.splits list.splits)

lemma parse_members_SomeD:
  assumes "parse_members d s = Some (ms, rest)"
  obtains after v r c more where "length after < length s" "parse_value d after = Some (v, r)"
    "skip_ws r = c # more"
    "rest = more \<or> (\<exists>ms'. length more < length s \<and> parse_members d more = Some (ms', rest))"
  using assms by (subst (asm) parse_members.simps) (auto split: if_splits option.splits list.splits)

lemma parse_consumes:
  "(parse_value d s = Some (v, rest) \<longrightarrow> length rest < length s) \<and>
   (parse_elems d s = Some (vs, rest) \<longrightarrow> length rest < length s) \<and>
   (parse_members d s = Some (ms, rest) \<longrightarrow> length rest < length s)"
proof (induction "length s" arbitrary: s d v vs ms rest rule: less_induct)
  case less
  have val: "length rest < length s" if p: "parse_value d s = Some (v, rest)" for d v rest
  proof (cases s)
    case (Cons c tls)
    have tls: "length tls < length s" and ws: "length (drop 1 (skip_ws tls)) < length s"
      using Cons skip_ws_length [of tls] by auto
    have "length rest < length tls \<or> length rest < length s"
      using parse_value_SomeD [OF p [unfolded Cons]] less [OF tls] ws Cons
      by (auto dest: parse_string_shorter parse_number_shorter literal_shorter)
    then show ?thesis using tls by linarith
  qed (use p in \<open>simp add: parse_value.simps\<close>)
  have elems: "length rest < length s" if p: "parse_elems d s = Some (vs, rest)"
  proof -
    obtain v r c more where v: "parse_value d s = Some (v, r)" and sk: "skip_ws r = c # more"
      and alt: "rest = more \<or> (\<exists>vs'. length more < length s \<and> parse_elems d more = Some (vs', rest))"
      using parse_elems_SomeD [OF p] .
    have "length more < length s" using val [OF v] skip_ws_ConsD [OF sk] by simp
    then show ?thesis using alt less [of more] by (metis less_trans)
  qed
  have membs: "length rest < length s" if p: "parse_members d s = Some (ms, rest)"
  proof -
    obtain after v r c more where "length after < length s" and v: "parse_value d after = Some (v, r)"
      and sk: "skip_ws r = c # more"
      and alt: "rest = more \<or> (\<exists>ms'. length more < length s \<and> parse_members d more = Some (ms', rest))"
      using parse_members_SomeD [OF p] .
    then have "length more < length s" using less [of after] skip_ws_ConsD [OF sk] by (meson less_trans)
    then show ?thesis using alt less [of more] by (metis less_trans)
  qed
  show ?case using val elems membs by blast
qed

section \<open>Round trip of strings\<close>

lemma char_of_byte [simp]: "char_of (byte c) = c"
  by (simp add: byte_def)

lemma byte_eqD: "byte c = n \<Longrightarrow> c = char_of n"
  by (metis char_of_byte)

lemma byte_char_of [simp]: "n < 256 \<Longrightarrow> byte (char_of n) = n"
  by (simp add: byte_def)

lemma hex_value_digit: "d < 16 \<Longrightarrow> hex_value (hex_digit d) = Some d"
  by (simp add: hex_value_def hex_digit_def Let_def)

lemma hex4_digits:
  assumes "r < 65536"
  shows "hex4 (hex_digits 4 r @ X) = Some (r, X)"
proof -
  define a where "a = r div 16"
  define b where "b = a div 16"
  define c where "c = b div 16"
  have four: "(4 :: nat) = Suc (Suc (Suc (Suc 0)))" by simp
  have "hex_digits 4 r = [hex_digit (c mod 16), hex_digit (b mod 16), hex_digit (a mod 16), hex_digit (r mod 16)]"
    unfolding four by (simp add: a_def b_def c_def)
  moreover have "c < 16" using assms by (simp add: a_def b_def c_def)
  then have "((c mod 16 * 16 + b mod 16) * 16 + a mod 16) * 16 + r mod 16 = r"
    using div_mult_mod_eq [of r 16] div_mult_mod_eq [of a 16] div_mult_mod_eq [of b 16]
    by (simp add: a_def [symmetric] b_def [symmetric] c_def [symmetric])
  ultimately show ?thesis by (simp add: hex4_def hex_value_digit)
qed

lemma unicode_escape_digits:
  "r < 0xD800 \<Longrightarrow> unicode_escape (hex_digits 4 r @ X) = Some (r, X)"
  by (simp add: unicode_escape_def hex4_digits)

text \<open>The bytes of a well-formed rune are its encoding.\<close>

lemma utf8_size_bounds:
  "utf8_size b = 2 \<Longrightarrow> 0xC2 \<le> b \<and> b \<le> 0xDF"
  "utf8_size b = 3 \<Longrightarrow> 0xE0 \<le> b \<and> b \<le> 0xEF"
  "utf8_size b = 4 \<Longrightarrow> 0xF0 \<le> b \<and> b \<le> 0xF4"
  by (auto simp: utf8_size_def split: if_splits)

lemma base64_digits:
  fixes x y z x' y' z' :: nat
  assumes "x * 4096 + y * 64 + z = x' * 4096 + y' * 64 + z'" "y < 64" "z < 64" "y' < 64" "z' < 64"
  shows "x = x' \<and> y = y' \<and> z = z'"
proof -
  have "(x * 64 + y) * 64 + z = (x' * 64 + y') * 64 + z'" using assms(1) by simp
  then have xy: "x * 64 + y = x' * 64 + y'" and z: "z = z'"
    using assms by (metis div_mult_self3 div_less add.commute add_0 mult.commute zero_neq_numeral,
        metis mod_mult_self3 mod_less)
  from xy have "x = x'" "y = y'"
    using assms by (metis div_mult_self3 div_less add.commute add_0 mult.commute zero_neq_numeral,
        metis mod_mult_self3 mod_less)
  with z show ?thesis by simp
qed

lemma take_decode_rune:
  assumes "s \<noteq> []" and "decode_rune s = (r, w)" and "rune_ok (r, w)" and "r = 0x2028 \<or> r = 0x2029"
  shows "take w s = encode_rune r"
proof -
  have "rune_ok (decode_rune s)" using assms by simp
  with assms(1) show ?thesis
  proof (cases rule: decode_rune_cases)
    case (one c0 t)
    then have "r < 256" using assms(2) byte_less_256 [of c0] by simp
    then show ?thesis using assms(4) by simp
  next
    case (two c0 c1 t)
    have "r = (byte c0 - 0xC0) * 64 + (byte c1 - 0x80)" using two assms by (simp add: decode_rune_def)
    moreover have "byte c1 \<le> 0xBF" using two by (auto simp: utf8_second_def utf8_hi_def split: if_splits)
    moreover have "byte c0 \<le> 0xDF" using utf8_size_bounds(1) [OF two(2)] by simp
    ultimately have "r < 0x800" by linarith
    then show ?thesis using assms by auto
  next
    case (three c0 c1 c2 t)
    let ?x = "byte c0 - 0xE0" and ?y = "byte c1 - 0x80" and ?z = "byte c2 - 0x80"
    have r: "r = ?x * 4096 + ?y * 64 + ?z" "w = 3" using three assms by (simp_all add: decode_rune_def)
    have yz: "?y < 64" "?z < 64" "0x80 \<le> byte c1" "0x80 \<le> byte c2" "0xE0 \<le> byte c0"
      using three utf8_size_bounds(2) [OF three(2)]
      by (auto simp: utf8_second_def utf8_lo_def utf8_hi_def utf8_cont_def split: if_splits)
    have "?x = 2 \<and> ?y = 0 \<and> (?z = 0x28 \<and> r = 0x2028 \<or> ?z = 0x29 \<and> r = 0x2029)"
      using base64_digits [of ?x ?y ?z 2 0 "0x28"] base64_digits [of ?x ?y ?z 2 0 "0x29"] r(1) yz(1,2) assms(4)
      by (elim disjE) simp_all
    with yz have "byte c0 = 0xE2 \<and> byte c1 = 0x80 \<and> (byte c2 = 0xA8 \<and> r = 0x2028 \<or> byte c2 = 0xA9 \<and> r = 0x2029)"
      by auto
    then show ?thesis using three(1) r(2) by (auto simp: encode_rune_def dest!: byte_eqD)
  next
    case (four c0 c1 c2 c3 t)
    have "r = (byte c0 - 0xF0) * 262144 + (byte c1 - 0x80) * 4096 + (byte c2 - 0x80) * 64 + (byte c3 - 0x80)"
      using four assms by (simp add: decode_rune_def)
    moreover have "16 \<le> byte c1 - 0x80 \<or> 1 \<le> byte c0 - 0xF0"
      using four utf8_size_bounds(3) [OF four(2)] by (auto simp: utf8_second_def utf8_lo_def split: if_splits)
    ultimately have "0x10000 \<le> r" by auto
    then show ?thesis using assms by auto
  qed
qed

lemma simple_escapes:
  "simple_escape dq = Some [dq]" "simple_escape backslash = Some [backslash]"
  "simple_escape (CHR ''b'') = Some [char_of (8 :: nat)]" "simple_escape (CHR ''f'') = Some [char_of (12 :: nat)]"
  "simple_escape (CHR ''n'') = Some [char_of (10 :: nat)]" "simple_escape (CHR ''r'') = Some [char_of (13 :: nat)]"
  "simple_escape (CHR ''t'') = Some [char_of (9 :: nat)]"
  by (simp_all add: simple_escape_def Let_def dq_def backslash_def byte_def)

lemma dq_not_u: "dq \<noteq> CHR ''u''" "backslash \<noteq> CHR ''u''"
  by (simp_all only: byte_inject [symmetric]) (simp_all add: byte_def dq_def backslash_def)

lemma esc_chunk_ascii:
  assumes "byte c < 0x80"
  shows "parse_string (esc_chunk (byte c, [c]) @ X) = prepend [c] (parse_string X)"
proof -
  let ?r = "byte c"
  note ps = parse_string_simps simple_escapes dq_not_u
  consider "?r = 34" | "?r = 92" | "?r = 8" | "?r = 12" | "?r = 10" | "?r = 13" | "?r = 9"
    | "?r \<notin> {34, 92, 8, 12, 10, 13, 9}" "?r < 0x20 \<or> ?r = 60 \<or> ?r = 62 \<or> ?r = 38"
    | "?r \<notin> {34, 92, 8, 12, 10, 13, 9}" "\<not> (?r < 0x20 \<or> ?r = 60 \<or> ?r = 62 \<or> ?r = 38)"
    by blast
  then show ?thesis
  proof cases
    case 1
    then have "c = dq" by (simp add: dq_def byte_eqD)
    then show ?thesis by (simp add: esc_chunk_def rune_error_def ps flip: dq_def)
  next
    case 2
    then have "c = backslash" by (simp add: backslash_def byte_eqD)
    then show ?thesis by (simp add: esc_chunk_def rune_error_def ps flip: backslash_def)
  next
    case 8
    then have "esc_chunk (?r, [c]) = backslash # ''u'' @ hex_digits 4 ?r"
      by (auto simp: esc_chunk_def rune_error_def)
    moreover have "unicode_escape (hex_digits 4 ?r @ X) = Some (?r, X)"
      by (rule unicode_escape_digits) (use assms in simp)
    ultimately show ?thesis using assms by (simp add: ps encode_rune_def)
  next
    case 9
    then have "esc_chunk (?r, [c]) = [c]" using assms by (auto simp: esc_chunk_def rune_error_def)
    moreover have "c \<noteq> dq" "c \<noteq> backslash" "\<not> ?r < 0x20" using 9 by auto
    ultimately show ?thesis
      using assms by (simp add: ps decode_rune_ascii rune_ok_def rune_error_def)
  qed (use assms byte_eqD [of c] in \<open>auto simp: esc_chunk_def rune_error_def ps\<close>)
qed

lemma esc_chunk_step:
  assumes "s \<noteq> []" and "decode_rune s = (r, w)" and "rune_ok (r, w)"
  shows "parse_string (esc_chunk (r, take w s) @ X) = prepend (take w s) (parse_string X)"
proof -
  obtain c t where s: "s = c # t" using assms(1) by (cases s) auto
  consider "r < 0x80" | "r = 0x2028 \<or> r = 0x2029" | "\<not> r < 0x80" "\<not> (r = 0x2028 \<or> r = 0x2029)" by blast
  then show ?thesis
  proof cases
    case 1
    then have "byte c = r" "w = 1" using decode_rune_lt_0x80 assms(2) s by auto
    then show ?thesis using esc_chunk_ascii [of c X] 1 s by simp
  next
    case 2
    then have "esc_chunk (r, take w s) = backslash # ''u'' @ hex_digits 4 r"
      by (auto simp: esc_chunk_def rune_error_def)
    moreover have "unicode_escape (hex_digits 4 r @ X) = Some (r, X)"
      by (rule unicode_escape_digits) (use 2 in auto)
    ultimately show ?thesis
      using take_decode_rune [OF assms(1-3)] 2 by (simp add: parse_string_simps)
  next
    case 3
    have w: "0 < w" "w \<le> length s" using decode_rune_width [OF assms(1)] assms(2) by auto
    have "length (take w s) = w" using w by simp
    then have e: "esc_chunk (r, take w s) = take w s"
      using 3 assms(3) by (auto simp: esc_chunk_def rune_ok_def)
    have big: "\<not> byte c < 0x80" using 3 decode_rune_ascii [of c t] assms(2) s by auto
    then have c: "c \<noteq> dq" "c \<noteq> backslash" "\<not> byte c < 0x20" by auto
    obtain t' where t': "take w s = c # t'" using w s by (cases w) auto
    have d: "decode_rune (take w s @ X) = (r, w)"
      using decode_rune_local [OF assms(1), of X] assms by simp
    have "parse_string (take w s @ X) = prepend (take w (take w s @ X)) (parse_string (drop w (take w s @ X)))"
      using parse_string_simps(7) [OF c, of "t' @ X"] d t' assms(3) by simp
    then show ?thesis using e w by simp
  qed
qed

lemma prepend_Some [simp]: "prepend p (Some (out, rest)) = Some (p @ out, rest)"
  by (simp add: prepend_def)

lemma parse_string_escaped:
  "valid_utf8 s \<Longrightarrow> parse_string (concat (map esc_chunk (rune_chunks s)) @ dq # rest) = Some (s, rest)"
proof (induction s rule: rune_chunks.induct)
  case (1 s)
  show ?case
  proof (cases "s = []")
    case False
    obtain r w where d: "decode_rune s = (r, w)" by fastforce
    have ok: "rune_ok (r, w)" "valid_utf8 (drop w s)" using valid_utf8_step [OF False] 1(2) d by auto
    have "parse_string (concat (map esc_chunk (rune_chunks (drop w s))) @ dq # rest) = Some (drop w s, rest)"
      by (rule 1(1) [OF False d [symmetric] ok(2)])
    then show ?thesis
      using esc_chunk_step [OF False d ok(1)] False d by (simp add: rune_chunks.simps [of s])
  qed (simp add: parse_string_simps)
qed

section \<open>Round trip of values\<close>

definition num_end :: "string \<Rightarrow> bool" where
  "num_end rest \<longleftrightarrow> (case rest of [] \<Rightarrow> True
     | c # _ \<Rightarrow> \<not> is_digit c \<and> c \<noteq> CHR ''.'' \<and> c \<noteq> CHR ''e'' \<and> c \<noteq> CHR ''E'')"

lemma digit_is_digit: "d < 10 \<Longrightarrow> is_digit (digit d)"
  by (simp add: is_digit_def digit_def)

lemma nat_digits_all: "c \<in> set (nat_digits n) \<Longrightarrow> is_digit c"
proof (induction n rule: nat_digits.induct)
  case (1 n)
  then show ?case
    by (cases "n < 10") (auto simp: nat_digits.simps [of n] digit_is_digit)
qed

lemma nat_digits_hd: "0 < n \<Longrightarrow> hd (nat_digits n) \<noteq> CHR ''0''"
proof (induction n rule: nat_digits.induct)
  case (1 n)
  show ?case
  proof (cases "n < 10")
    case True
    have "byte (digit n) = 48 + n" using True by (simp add: digit_def)
    moreover have "byte (CHR ''0'') = 48" by (simp add: byte_def)
    ultimately show ?thesis using True 1(2) by (auto simp: nat_digits.simps [of n])
  next
    case False
    then show ?thesis using 1(1) by (simp add: nat_digits.simps [of n])
  qed
qed

lemma int_part_digits:
  assumes "num_end rest"
  shows "int_part (nat_digits n @ rest) = Some (nat_digits n, rest)"
proof (cases "n = 0")
  case True
  have "byte (digit 0) = byte (CHR ''0'')" by (simp add: digit_def) (simp add: byte_def)
  then have "nat_digits 0 = ''0''" by (simp add: nat_digits.simps [of 0])
  with True show ?thesis by (simp add: int_part_def)
next
  case False
  obtain c cs where n: "nat_digits n = c # cs" using nat_digits_nonempty [of n] by (metis neq_Nil_conv)
  have d: "is_digit c" "\<forall>x \<in> set cs. is_digit x" using nat_digits_all [of _ n] n by auto
  have "takeWhile is_digit (cs @ rest) = cs" "dropWhile is_digit (cs @ rest) = rest"
    using d(2) assms by (auto simp: num_end_def takeWhile_append dropWhile_append split: list.splits)
  moreover have "c \<noteq> CHR ''0''" using nat_digits_hd [of n] False n by simp
  ultimately show ?thesis using n d(1) by (simp add: int_part_def)
qed

lemma frac_exp_end: "num_end rest \<Longrightarrow> frac_part rest = Some ([], rest)" "num_end rest \<Longrightarrow> exp_part rest = Some ([], rest)"
  by (auto simp: num_end_def frac_part_def exp_part_def split: list.splits)

lemma not_digit_minus: "\<not> is_digit (CHR ''-'')"
  by (simp add: is_digit_def byte_def)

lemma itoa_Cons: "\<exists>c t. itoa k = c # t \<and> (is_digit c \<or> c = CHR ''-'')"
proof -
  obtain c t where "nat_digits (nat k) = c # t" using nat_digits_nonempty by (metis neq_Nil_conv)
  moreover have "is_digit c" using nat_digits_all [of c "nat k"] calculation by simp
  ultimately show ?thesis by (auto simp: itoa_def)
qed

lemma parse_number_itoa:
  assumes "num_end rest"
  shows "parse_number (itoa k @ rest) = Some (itoa k, rest)"
proof (cases "k < 0")
  case True
  then show ?thesis
    using assms by (simp add: itoa_def parse_number_def int_part_digits frac_exp_end)
next
  case False
  obtain c t where n: "nat_digits (nat k) = c # t" using nat_digits_nonempty by (metis neq_Nil_conv)
  then have "is_digit c" using nat_digits_all [of c "nat k"] by simp
  then have "c \<noteq> CHR ''-''" using not_digit_minus by auto
  then show ?thesis
    using False assms int_part_digits [OF assms, of "nat k"] n
    by (simp add: itoa_def parse_number_def frac_exp_end)
qed

fun wf_json :: "json \<Rightarrow> bool" where
  "wf_json (JNum n) \<longleftrightarrow> (\<exists>k. n = itoa k)"
| "wf_json (JStr s) \<longleftrightarrow> valid_utf8 s"
| "wf_json (JArr xs) \<longleftrightarrow> (\<forall>x \<in> set xs. wf_json x)"
| "wf_json (JObj ms) \<longleftrightarrow> (\<forall>m \<in> set ms. valid_utf8 (fst m) \<and> wf_json (snd m))"
| "wf_json _ \<longleftrightarrow> True"

fun jdepth :: "json \<Rightarrow> nat" where
  "jdepth (JArr xs) = Suc (foldr max (map jdepth xs) 0)"
| "jdepth (JObj ms) = Suc (foldr max (map (\<lambda>m. jdepth (snd m)) ms) 0)"
| "jdepth _ = 0"

lemma foldr_max_le: "foldr max xs 0 \<le> (d :: nat) \<longleftrightarrow> (\<forall>x \<in> set xs. x \<le> d)"
  by (induction xs) auto

text \<open>The first byte of a marshalled value is neither white space nor a closing bracket.\<close>

definition value_start :: "string \<Rightarrow> bool" where
  "value_start s \<longleftrightarrow> (\<exists>c t. s = c # t \<and> \<not> is_ws c \<and> c \<noteq> CHR '']'' \<and> c \<noteq> CHR ''}'')"

lemma value_start_append: "value_start s \<Longrightarrow> value_start (s @ t)"
  by (auto simp: value_start_def)

lemma dq_chars: "\<not> is_ws dq" "dq \<noteq> CHR '']''" "dq \<noteq> CHR ''}''" "dq \<noteq> CHR ''[''" "dq \<noteq> CHR ''{''"
  by (simp add: is_ws_def) (simp_all only: byte_inject [symmetric], simp_all add: byte_def dq_def)

lemma chars_dq: "CHR ''n'' \<noteq> dq" "CHR ''t'' \<noteq> dq" "CHR ''f'' \<noteq> dq" "CHR ''['' \<noteq> dq" "CHR ''{'' \<noteq> dq"
  by (simp_all only: byte_inject [symmetric]) (simp_all add: byte_def dq_def)

lemma number_start: "is_digit c \<or> c = CHR ''-'' \<Longrightarrow>
  \<not> is_ws c \<and> c \<noteq> dq \<and> c \<notin> {CHR '']'', CHR ''}'', CHR ''['', CHR ''{'', CHR ''n'', CHR ''t'', CHR ''f''}"
proof -
  assume c: "is_digit c \<or> c = CHR ''-''"
  then have "byte c \<noteq> byte dq" by (auto simp: is_digit_def) (simp add: byte_def)
  with c show ?thesis by (auto simp: is_digit_def is_ws_def byte_def)
qed

lemma marshal_start: "wf_json j \<Longrightarrow> value_start (marshal j)"
proof (cases j)
  case (JNum n)
  assume "wf_json j"
  with JNum obtain k where "n = itoa k" by auto
  then show ?thesis using JNum itoa_Cons [of k] number_start by (auto simp: value_start_def)
qed (auto simp: value_start_def enc_string_def dq_chars, auto simp: is_ws_def byte_def)

lemma parse_value_string:
  "valid_utf8 s \<Longrightarrow> parse_value d (enc_string s @ rest) = Some (JStr s, rest)"
  by (subst parse_value.simps) (simp add: enc_string_def dq_chars parse_string_escaped)

lemma parse_value_number:
  "num_end rest \<Longrightarrow> parse_value d (itoa k @ rest) = Some (JNum (itoa k), rest)"
proof -
  assume e: "num_end rest"
  obtain c t where i: "itoa k = c # t" and c: "is_digit c \<or> c = CHR ''-''" using itoa_Cons by blast
  from parse_number_itoa [OF e, of k] number_start [OF c] show ?thesis
    by (subst parse_value.simps) (simp add: i)
qed

lemma skip_ws_id: "value_start s \<Longrightarrow> skip_ws s = s"
  by (auto simp: value_start_def skip_ws_def)

lemma skip_ws_Cons: "\<not> is_ws c \<Longrightarrow> skip_ws (c # s) = c # s"
  by (simp add: skip_ws_def)

lemma not_ws: "\<not> is_ws (CHR '','')" "\<not> is_ws (CHR '']'')" "\<not> is_ws (CHR ''}'')" "\<not> is_ws (CHR '':'')"
  "\<not> is_ws (CHR ''['')" "\<not> is_ws (CHR ''{'')"
  by (simp_all add: is_ws_def byte_def)

lemma num_end_punct: "num_end (CHR '','' # s)" "num_end (CHR '']'' # s)" "num_end (CHR ''}'' # s)"
  by (simp_all add: num_end_def is_digit_def byte_def)

lemma str_join_Cons: "str_join sep (x # y # ys) = x @ sep @ str_join sep (y # ys)"
  by (simp add: str_join_def)

lemma str_join_single [simp]: "str_join sep [x] = x"
  by (simp add: str_join_def)

text \<open>A property of one value at one nesting level, and its lift to elements and members.\<close>

definition parses :: "nat \<Rightarrow> json \<Rightarrow> bool" where
  "parses d j \<longleftrightarrow> (\<forall>rest. num_end rest \<longrightarrow> parse_value d (marshal j @ rest) = Some (j, rest))"

lemma parsesD: "parses d j \<Longrightarrow> num_end rest \<Longrightarrow> parse_value d (marshal j @ rest) = Some (j, rest)"
  by (simp add: parses_def)

lemma parse_elems_marshal:
  "xs \<noteq> [] \<Longrightarrow> \<forall>x \<in> set xs. parses d x \<Longrightarrow>
   parse_elems d (str_join '','' (map marshal xs) @ CHR '']'' # rest) = Some (xs, rest)"
proof (induction xs rule: list_nonempty_induct)
  case (single x)
  then show ?case
    using parsesD [of d x "CHR '']'' # rest"]
    by (subst parse_elems.simps) (simp add: num_end_punct skip_ws_Cons not_ws)
next
  case (cons x xs)
  let ?more = "str_join '','' (map marshal xs) @ CHR '']'' # rest"
  obtain y ys where xs: "xs = y # ys" using cons(1) by (cases xs) auto
  have s: "str_join '','' (map marshal (x # xs)) @ CHR '']'' # rest = marshal x @ CHR '','' # ?more"
    using xs by (simp add: str_join_Cons)
  have "parse_value d (marshal x @ CHR '','' # ?more) = Some (x, CHR '','' # ?more)"
    using cons.prems by (intro parsesD) (simp_all add: num_end_punct)
  then show ?case
    unfolding s using cons.IH cons.prems
    by (subst parse_elems.simps) (simp add: skip_ws_Cons not_ws)
qed

lemma parse_members_marshal:
  "ms \<noteq> [] \<Longrightarrow> \<forall>m \<in> set ms. valid_utf8 (fst m) \<and> parses d (snd m) \<Longrightarrow>
   parse_members d (str_join '','' (map (\<lambda>(k, v). enc_string k @ '':'' @ marshal v) ms) @ CHR ''}'' # rest) = Some (ms, rest)"
proof (induction ms rule: list_nonempty_induct)
  case (single m)
  obtain k v where m: "m = (k, v)" by fastforce
  then show ?case
    using single parsesD [of d v "CHR ''}'' # rest"]
    by (subst parse_members.simps)
      (simp add: enc_string_def skip_ws_Cons dq_chars parse_string_escaped num_end_punct not_ws)
next
  case (cons m ms)
  obtain k v where m: "m = (k, v)" by fastforce
  obtain m' ms' where ms: "ms = m' # ms'" using cons(1) by (cases ms) auto
  let ?join = "\<lambda>ms. str_join '','' (map (\<lambda>(k, v). enc_string k @ '':'' @ marshal v) ms)"
  let ?more = "?join ms @ CHR ''}'' # rest"
  have s: "?join (m # ms) @ CHR ''}'' # rest = enc_string k @ CHR '':'' # marshal v @ CHR '','' # ?more"
    using ms m by (simp add: str_join_Cons)
  have "parse_value d (marshal v @ CHR '','' # ?more) = Some (v, CHR '','' # ?more)"
    using cons.prems m by (intro parsesD) (simp_all add: num_end_punct)
  then show ?case
    unfolding s using cons.IH cons.prems m
    by (subst parse_members.simps)
      (simp add: enc_string_def skip_ws_Cons dq_chars parse_string_escaped not_ws)
qed

lemma has_prefix_single: "has_prefix s [c] \<longleftrightarrow> (\<exists>t. s = c # t)"
  by (simp add: has_prefix_iff)

lemma value_start_join:
  assumes "xs \<noteq> []" and "value_start (hd xs)"
  shows "value_start (str_join sep xs @ rest)"
  using assms by (cases xs) (auto simp: str_join_def intro: value_start_append)

lemma value_start_no_close:
  "value_start s \<Longrightarrow> \<not> has_prefix (skip_ws s) '']'' \<and> \<not> has_prefix (skip_ws s) ''}''"
  by (auto simp: skip_ws_id) (auto simp: value_start_def has_prefix_single)

lemma parses_all: "wf_json j \<Longrightarrow> jdepth j \<le> d \<Longrightarrow> parses d j"
proof (induction j arbitrary: d)
  case JNull
  show ?case by (simp add: parses_def parse_value.simps literal_def has_prefix_def is_ws_def byte_def chars_dq)
next
  case (JBool b)
  show ?case
    by (cases b) (simp_all add: parses_def parse_value.simps literal_def has_prefix_def is_ws_def byte_def chars_dq)
next
  case (JNum n)
  then show ?case by (auto simp: parses_def parse_value_number)
next
  case (JStr s)
  then show ?case by (simp add: parses_def parse_value_string)
next
  case (JArr xs)
  then obtain d' where d: "d = Suc d'" by (cases d) auto
  show ?case
  proof (cases "xs = []")
    case True
    show ?thesis unfolding parses_def
      by (subst parse_value.simps) (simp add: True d not_ws skip_ws_Cons has_prefix_def str_join_def chars_dq)
  next
    case False
    have all: "\<forall>x \<in> set xs. parses d' x" using JArr d by (auto simp: foldr_max_le)
    have "value_start (marshal (hd xs))" using JArr.prems False by (intro marshal_start) simp
    then have "value_start (str_join '','' (map marshal xs) @ CHR '']'' # rest)" for rest
      using False by (intro value_start_join) (simp_all add: hd_map)
    then show ?thesis unfolding parses_def
      using parse_elems_marshal [OF False all] value_start_no_close
      by (subst parse_value.simps) (simp add: d not_ws chars_dq)
  qed
next
  case (JObj ms)
  then obtain d' where d: "d = Suc d'" by (cases d) auto
  let ?f = "\<lambda>(k, v). enc_string k @ '':'' @ marshal v"
  show ?case
  proof (cases "ms = []")
    case True
    show ?thesis unfolding parses_def
      by (subst parse_value.simps) (simp add: True d not_ws skip_ws_Cons has_prefix_def str_join_def chars_dq)
  next
    case False
    have all: "\<forall>m \<in> set ms. valid_utf8 (fst m) \<and> parses d' (snd m)"
      using JObj d by (force simp: foldr_max_le)
    have "value_start (?f (hd ms))"
      by (cases "hd ms") (auto simp: value_start_def enc_string_def dq_chars)
    then have "value_start (str_join '','' (map ?f ms) @ CHR ''}'' # rest)" for rest
      using False by (intro value_start_join) (simp_all add: hd_map)
    then show ?thesis unfolding parses_def
      using parse_members_marshal [OF False all] value_start_no_close
      by (subst parse_value.simps) (simp add: d not_ws chars_dq)
  qed
qed

lemma unmarshal_marshal:
  assumes "wf_json j" and "jdepth j \<le> maxNestingDepth"
  shows "unmarshal (marshal j) = Some j"
  using parsesD [OF parses_all [OF assms], of "[]"] by (simp add: unmarshal_def num_end_def skip_ws_def)

end
