(* ===== verification/Schema_Json.thy ===== *)
theory Schema_Json
  imports Schema_Decl Go_Json
begin

text \<open>
  The JSON encoding of prompt and resource declarations (the \<^verbatim>\<open>json\<close> struct tags of
  \<^verbatim>\<open>internal/schema/declarations.go\<close>) and its decoding with Go's field matching.
  Both satisfy the contract \<^verbatim>\<open>declaration_codec\<close>, so the annotation store of
  \<^verbatim>\<open>Schema_Decl\<close> refines a plain list of accepted declarations. An annotation
  that repeats the key \<^verbatim>\<open>arguments\<close> is decoded with its last value alone.
\<close>

section \<open>Encoding\<close>

definition opt_str :: "string \<Rightarrow> string \<Rightarrow> (string \<times> json) list" where
  "opt_str k s = (if s = [] then [] else [(k, JStr s)])"

definition argument_json :: "PromptArgument \<Rightarrow> json" where
  "argument_json a = JObj
    ([(''name'', JStr (a_Name a))] @ opt_str ''title'' (a_Title a) @ opt_str ''description'' (a_Description a) @
     (if a_Required a then [(''required'', JBool True)] else []))"

definition prompt_json :: "Prompt \<Rightarrow> json" where
  "prompt_json p = JObj
    ([(''name'', JStr (p_Name p))] @ opt_str ''title'' (p_Title p) @ opt_str ''description'' (p_Description p) @
     (if p_Arguments p = [] then [] else [(''arguments'', JArr (map argument_json (p_Arguments p)))]) @
     [(''template'', JStr (p_Template p))])"

definition resource_json :: "Resource \<Rightarrow> json" where
  "resource_json r = JObj
    ([(''uri'', JStr (r_URI r)), (''name'', JStr (r_Name r))] @ opt_str ''title'' (r_Title r) @
     opt_str ''description'' (r_Description r) @ opt_str ''mime_type'' (r_MIMEType r) @
     opt_str ''content'' (r_Content r))"

definition enc_prompts :: "Prompt list \<Rightarrow> string" where
  "enc_prompts ps = marshal (JArr (map prompt_json ps))"

definition enc_resources :: "Resource list \<Rightarrow> string" where
  "enc_resources rs = marshal (JArr (map resource_json rs))"

section \<open>Decoding\<close>

text \<open>Go matches a key to a field exactly or under simple case folding.\<close>

definition fold_chunk :: "nat \<times> string \<Rightarrow> string" where
  "fold_chunk c = (case c of (r, bs) \<Rightarrow>
     (if 65 \<le> r \<and> r \<le> 90 then [char_of (r + 32)]
      else if r = 0x17F then ''s'' else if r = 0x212A then ''k'' else bs))"

definition fold_name :: "string \<Rightarrow> string" where
  "fold_name k = concat (map fold_chunk (rune_chunks k))"

definition set_str :: "(string \<Rightarrow> 'a \<Rightarrow> 'a) \<Rightarrow> json \<Rightarrow> 'a \<Rightarrow> 'a option" where
  "set_str upd v x = (case v of JStr s \<Rightarrow> Some (upd s x) | JNull \<Rightarrow> Some x | _ \<Rightarrow> None)"

definition set_bool :: "(bool \<Rightarrow> 'a \<Rightarrow> 'a) \<Rightarrow> json \<Rightarrow> 'a \<Rightarrow> 'a option" where
  "set_bool upd v x = (case v of JBool b \<Rightarrow> Some (upd b x) | JNull \<Rightarrow> Some x | _ \<Rightarrow> None)"

fun set_fields :: "(string \<Rightarrow> json \<Rightarrow> 'a \<Rightarrow> 'a option) \<Rightarrow> (string \<times> json) list \<Rightarrow> 'a \<Rightarrow> 'a option" where
  "set_fields f [] x = Some x"
| "set_fields f ((k, v) # ms) x = (case f (fold_name k) v x of None \<Rightarrow> None | Some y \<Rightarrow> set_fields f ms y)"

definition decode_struct :: "(string \<Rightarrow> json \<Rightarrow> 'a \<Rightarrow> 'a option) \<Rightarrow> 'a \<Rightarrow> json \<Rightarrow> 'a option" where
  "decode_struct f zero v = (case v of JObj ms \<Rightarrow> set_fields f ms zero | JNull \<Rightarrow> Some zero | _ \<Rightarrow> None)"

definition decode_list :: "(json \<Rightarrow> 'a option) \<Rightarrow> json \<Rightarrow> 'a list option" where
  "decode_list f v = (case v of JArr vs \<Rightarrow> those (map f vs) | JNull \<Rightarrow> Some [] | _ \<Rightarrow> None)"

definition zero_argument :: PromptArgument where
  "zero_argument = \<lparr>a_Name = [], a_Title = [], a_Description = [], a_Required = False\<rparr>"

definition zero_prompt :: Prompt where
  "zero_prompt = \<lparr>p_Name = [], p_Title = [], p_Description = [], p_Arguments = [], p_Template = []\<rparr>"

definition zero_resource :: Resource where
  "zero_resource = \<lparr>r_URI = [], r_Name = [], r_Title = [], r_Description = [], r_MIMEType = [], r_Content = []\<rparr>"

definition argument_field :: "string \<Rightarrow> json \<Rightarrow> PromptArgument \<Rightarrow> PromptArgument option" where
  "argument_field k v a =
    (if k = ''name'' then set_str (\<lambda>s. a_Name_update (\<lambda>_. s)) v a
     else if k = ''title'' then set_str (\<lambda>s. a_Title_update (\<lambda>_. s)) v a
     else if k = ''description'' then set_str (\<lambda>s. a_Description_update (\<lambda>_. s)) v a
     else if k = ''required'' then set_bool (\<lambda>b. a_Required_update (\<lambda>_. b)) v a
     else Some a)"

definition prompt_field :: "string \<Rightarrow> json \<Rightarrow> Prompt \<Rightarrow> Prompt option" where
  "prompt_field k v p =
    (if k = ''name'' then set_str (\<lambda>s. p_Name_update (\<lambda>_. s)) v p
     else if k = ''title'' then set_str (\<lambda>s. p_Title_update (\<lambda>_. s)) v p
     else if k = ''description'' then set_str (\<lambda>s. p_Description_update (\<lambda>_. s)) v p
     else if k = ''arguments'' then
       (case decode_list (decode_struct argument_field zero_argument) v of
          None \<Rightarrow> None | Some as \<Rightarrow> Some (p\<lparr>p_Arguments := as\<rparr>))
     else if k = ''template'' then set_str (\<lambda>s. p_Template_update (\<lambda>_. s)) v p
     else Some p)"

definition resource_field :: "string \<Rightarrow> json \<Rightarrow> Resource \<Rightarrow> Resource option" where
  "resource_field k v r =
    (if k = ''uri'' then set_str (\<lambda>s. r_URI_update (\<lambda>_. s)) v r
     else if k = ''name'' then set_str (\<lambda>s. r_Name_update (\<lambda>_. s)) v r
     else if k = ''title'' then set_str (\<lambda>s. r_Title_update (\<lambda>_. s)) v r
     else if k = ''description'' then set_str (\<lambda>s. r_Description_update (\<lambda>_. s)) v r
     else if k = ''mime_type'' then set_str (\<lambda>s. r_MIMEType_update (\<lambda>_. s)) v r
     else if k = ''content'' then set_str (\<lambda>s. r_Content_update (\<lambda>_. s)) v r
     else Some r)"

definition dec_prompts :: "string \<Rightarrow> Prompt list option" where
  "dec_prompts raw = (case unmarshal raw of None \<Rightarrow> None
     | Some v \<Rightarrow> decode_list (decode_struct prompt_field zero_prompt) v)"

definition dec_resources :: "string \<Rightarrow> Resource list option" where
  "dec_resources raw = (case unmarshal raw of None \<Rightarrow> None
     | Some v \<Rightarrow> decode_list (decode_struct resource_field zero_resource) v)"

section \<open>The codec contract\<close>

lemma fold_name_lower:
  assumes "\<forall>c \<in> set k. 97 \<le> byte c \<and> byte c \<le> 122 \<or> c = CHR ''_''"
  shows "fold_name k = k"
proof -
  have a: "\<forall>c \<in> set k. byte c < 0x80" using assms by (auto simp: byte_def)
  have "fold_name k = concat (map (\<lambda>c. [c]) k)"
    unfolding fold_name_def rune_chunks_all_ascii [OF a] map_map
    by (rule arg_cong [of _ _ concat], rule map_cong [OF refl])
      (use assms in \<open>auto simp: fold_chunk_def byte_def\<close>)
  then show ?thesis by simp
qed

lemma fold_names [simp]:
  "fold_name ''name'' = ''name''" "fold_name ''title'' = ''title''" "fold_name ''description'' = ''description''"
  "fold_name ''required'' = ''required''" "fold_name ''arguments'' = ''arguments''"
  "fold_name ''template'' = ''template''" "fold_name ''uri'' = ''uri''" "fold_name ''mime_type'' = ''mime_type''"
  "fold_name ''content'' = ''content''"
  by (rule fold_name_lower; simp add: byte_def)+

lemma set_fields_append: "set_fields f (xs @ ys) z = (case set_fields f xs z of None \<Rightarrow> None | Some y \<Rightarrow> set_fields f ys y)"
  by (induction f xs z rule: set_fields.induct) (auto split: option.splits)

lemma those_map_Some: "\<forall>x \<in> set xs. f (g x) = Some x \<Longrightarrow> those (map (f \<circ> g) xs) = Some xs"
  by (induction xs) auto

lemma decode_argument: "decode_struct argument_field zero_argument (argument_json a) = Some a"
  by (cases a)
    (auto simp: decode_struct_def argument_json_def opt_str_def argument_field_def set_str_def set_bool_def
      zero_argument_def)

lemma decode_prompt: "decode_struct prompt_field zero_prompt (prompt_json p) = Some p"
proof -
  have args: "decode_list (decode_struct argument_field zero_argument) (JArr (map argument_json as)) = Some as" for as
    by (simp add: decode_list_def those_map_Some decode_argument)
  show ?thesis
    by (cases p)
      (auto simp: decode_struct_def prompt_json_def opt_str_def prompt_field_def set_str_def args zero_prompt_def)
qed

lemma decode_resource: "decode_struct resource_field zero_resource (resource_json r) = Some r"
  by (cases r)
    (auto simp: decode_struct_def resource_json_def opt_str_def resource_field_def set_str_def zero_resource_def)

lemma valid_utf8_name: "validName n \<Longrightarrow> valid_utf8 n"
  by (rule valid_utf8_ascii) (auto simp: validName_iff isNameRune_def)

lemma valid_utf8_keys [simp]:
  "valid_utf8 ''name''" "valid_utf8 ''title''" "valid_utf8 ''description''" "valid_utf8 ''required''"
  "valid_utf8 ''arguments''" "valid_utf8 ''template''" "valid_utf8 ''uri''" "valid_utf8 ''mime_type''"
  "valid_utf8 ''content''"
  by (rule valid_utf8_ascii; simp add: byte_def)+

lemma argument_json_wf: "argument_ok a \<Longrightarrow> wf_json (argument_json a)" "jdepth (argument_json a) \<le> 1"
  by (auto simp: argument_json_def argument_ok_def opt_str_def valid_utf8_name)

lemma prompt_json_wf: "prompt_ok p \<Longrightarrow> wf_json (prompt_json p)" "jdepth (prompt_json p) \<le> 3"
  using argument_json_wf(2)
  by (auto simp: prompt_json_def prompt_ok_def opt_str_def valid_utf8_name argument_json_wf(1) foldr_max_le)

lemma resource_json_wf: "resource_ok up r \<Longrightarrow> wf_json (resource_json r)" "jdepth (resource_json r) \<le> 1"
  by (auto simp: resource_json_def resource_ok_def opt_str_def)

interpretation prompt_codec: declaration_codec enc_prompts dec_prompts ValidatePrompt p_Name
proof unfold_locales
  fix ps assume "\<forall>p \<in> set ps. ValidatePrompt p = None"
  then have "wf_json (JArr (map prompt_json ps))"
    by (auto simp: ValidatePrompt_None prompt_json_wf)
  moreover have "jdepth (JArr (map prompt_json ps)) \<le> maxNestingDepth"
    by (auto simp: maxNestingDepth_def foldr_max_le intro!: order_trans [OF prompt_json_wf(2)])
  ultimately have "unmarshal (enc_prompts ps) = Some (JArr (map prompt_json ps))"
    unfolding enc_prompts_def by (rule unmarshal_marshal)
  then show "dec_prompts (enc_prompts ps) = Some ps"
    by (simp add: dec_prompts_def decode_list_def those_map_Some decode_prompt)
qed

interpretation resource_codec: declaration_codec enc_resources dec_resources "ValidateResource up" r_URI for up
proof unfold_locales
  fix rs assume "\<forall>r \<in> set rs. ValidateResource up r = None"
  then have "wf_json (JArr (map resource_json rs))"
    by (auto simp: ValidateResource_None resource_json_wf)
  moreover have "jdepth (JArr (map resource_json rs)) \<le> maxNestingDepth"
    by (auto simp: maxNestingDepth_def foldr_max_le intro!: order_trans [OF resource_json_wf(2)])
  ultimately have "unmarshal (enc_resources rs) = Some (JArr (map resource_json rs))"
    unfolding enc_resources_def by (rule unmarshal_marshal)
  then show "dec_resources (enc_resources rs) = Some rs"
    by (simp add: dec_resources_def decode_list_def those_map_Some decode_resource)
qed

section \<open>Declaring a sequence\<close>

definition declare_prompts :: "annotations \<Rightarrow> Prompt list \<Rightarrow> annotations" where
  "declare_prompts anns ps =
    foldl (\<lambda>a p. case snd (AddPrompt enc_prompts dec_prompts (Some a) p) of Some a' \<Rightarrow> a' | None \<Rightarrow> a) anns ps"

definition declare_resources :: "(string \<Rightarrow> string option) \<Rightarrow> annotations \<Rightarrow> Resource list \<Rightarrow> annotations" where
  "declare_resources up anns rs =
    foldl (\<lambda>a r. case snd (AddResource up enc_resources dec_resources (Some a) r) of Some a' \<Rightarrow> a' | None \<Rightarrow> a) anns rs"

lemma declare_prompts_add_to:
  "declare_prompts anns ps = foldl (prompt_codec.add_to promptsAnnotationKey ''name'') anns ps"
  by (simp add: declare_prompts_def prompt_codec.add_to_def [abs_def] AddPrompt_def)

lemma declare_resources_add_to:
  "declare_resources up anns rs = foldl (resource_codec.add_to up resourcesAnnotationKey ''uri'') anns rs"
  by (simp add: declare_resources_def resource_codec.add_to_def [abs_def] AddResource_def)

section \<open>Properties\<close>

text \<open>
  C15. Declaring a sequence of prompts on a command refines a plain list: the
  annotation stays clean and projects, in declaration order, exactly the prompts
  that were valid and not yet declared when they came, so names are unique and
  every projected prompt is valid.
\<close>

theorem declare_prompts_refines_list:
  assumes "anns promptsAnnotationKey = None"
  shows "decodeValid dec_prompts ValidatePrompt (declare_prompts anns ps) promptsAnnotationKey =
      (foldl (spec_add (\<lambda>p. ValidatePrompt p = None) p_Name) [] ps, True) \<and>
    Prompts dec_prompts (declare_prompts anns ps) = foldl (spec_add (\<lambda>p. ValidatePrompt p = None) p_Name) [] ps \<and>
    distinct (map p_Name (Prompts dec_prompts (declare_prompts anns ps))) \<and>
    (\<forall>p \<in> set (Prompts dec_prompts (declare_prompts anns ps)). prompt_ok p)"
proof -
  have "decodeValid dec_prompts ValidatePrompt anns promptsAnnotationKey = ([], True)"
    using assms by (simp add: decodeValid_def)
  from prompt_codec.add_all_refines [OF this, of "''name''" ps]
  have eq: "decodeValid dec_prompts ValidatePrompt (declare_prompts anns ps) promptsAnnotationKey =
      (foldl (spec_add (\<lambda>p. ValidatePrompt p = None) p_Name) [] ps, True)"
    by (simp add: declare_prompts_add_to)
  then show ?thesis
    using foldl_spec_add_invariant [of p_Name "\<lambda>p. ValidatePrompt p = None" ps]
    by (simp add: Prompts_def ValidatePrompt_None)
qed

definition sample_prompt :: Prompt where
  "sample_prompt = \<lparr>p_Name = ''greet'', p_Title = [], p_Description = [],
     p_Arguments = [\<lparr>a_Name = ''who'', a_Title = [], a_Description = [], a_Required = True\<rparr>],
     p_Template = ''Hello {{who}}''\<rparr>"

lemma sample_prompt_ok: "prompt_ok sample_prompt"
proof -
  have t: "templatePlaceholders ''Hello {{who}}'' = [''who'']" by code_simp
  have "valid_utf8 ''Hello {{who}}''" "valid_utf8 []"
    by (rule valid_utf8_ascii; simp add: byte_def)+
  then show ?thesis
    by (simp add: prompt_ok_def sample_prompt_def argument_ok_def t validName_iff isNameRune_def byte_def)
qed

theorem declare_prompts_refines_list_witness:
  "Prompts dec_prompts (declare_prompts Map.empty [sample_prompt, sample_prompt]) = [sample_prompt]"
  using declare_prompts_refines_list [of Map.empty "[sample_prompt, sample_prompt]"] sample_prompt_ok
  by (simp add: spec_add_def ValidatePrompt_None)

text \<open>
  The same for resources, keyed by URI, whatever URI parser is used.
\<close>

theorem declare_resources_refines_list:
  assumes "anns resourcesAnnotationKey = None"
  shows "Resources up dec_resources (declare_resources up anns rs) =
      foldl (spec_add (\<lambda>r. ValidateResource up r = None) r_URI) [] rs \<and>
    snd (decodeValid dec_resources (ValidateResource up) (declare_resources up anns rs) resourcesAnnotationKey) \<and>
    distinct (map r_URI (Resources up dec_resources (declare_resources up anns rs))) \<and>
    (\<forall>r \<in> set (Resources up dec_resources (declare_resources up anns rs)). resource_ok up r)"
proof -
  have "decodeValid dec_resources (ValidateResource up) anns resourcesAnnotationKey = ([], True)"
    using assms by (simp add: decodeValid_def)
  from resource_codec.add_all_refines [OF this, of "''uri''" rs]
  have "decodeValid dec_resources (ValidateResource up) (declare_resources up anns rs) resourcesAnnotationKey =
      (foldl (spec_add (\<lambda>r. ValidateResource up r = None) r_URI) [] rs, True)"
    by (simp add: declare_resources_add_to)
  then show ?thesis
    using foldl_spec_add_invariant [of r_URI "\<lambda>r. ValidateResource up r = None" rs]
    by (simp add: Resources_def ValidateResource_None)
qed

theorem declare_resources_refines_list_witness:
  "Resources (\<lambda>_. Some ''app'') dec_resources (declare_resources (\<lambda>_. Some ''app'') Map.empty []) = []"
  using declare_resources_refines_list [of Map.empty "\<lambda>_. Some ''app''" "[]"] by simp

text \<open>
  A rejected declaration changes nothing and is reported as an
  \<^verbatim>\<open>invalid_schema_declaration\<close> error with exit code 2; an accepted one leaves every
  other annotation of the command as it was.
\<close>

theorem DeclarePrompt_all_or_nothing:
  "(case DeclarePrompt pr enc_prompts dec_prompts cmd p of
      (Some e, cmd') \<Rightarrow> cmd' = cmd \<and> ErrorCode (fst e) = ErrorCodeInvalidSchemaDeclaration \<and>
        ErrorExitCode (Some (as_error e)) = ExitValidation
    | (None, cmd') \<Rightarrow> \<exists>anns anns'. cmd = Some anns \<and> cmd' = Some anns' \<and> ValidatePrompt p = None \<and>
        (\<forall>k. k \<noteq> promptsAnnotationKey \<longrightarrow> anns' k = anns k))"
proof -
  obtain v cmd' where add: "AddPrompt enc_prompts dec_prompts cmd p = (v, cmd')" by fastforce
  show ?thesis
  proof (cases v)
    case None
    then obtain anns anns' where "cmd = Some anns" "cmd' = Some anns'" "ValidatePrompt p = None"
      "\<forall>k. k \<noteq> promptsAnnotationKey \<longrightarrow> anns' k = anns k"
      using add by (auto simp: AddPrompt_def addDeclaration_def split: option.splits prod.splits if_splits)
    then show ?thesis using None add by (simp add: DeclarePrompt_def declarationError_def)
  next
    case (Some x)
    then have "cmd' = cmd"
      using addDeclaration_violation_unchanged add by (fastforce simp: AddPrompt_def)
    then show ?thesis
      using Some add
      by (simp add: DeclarePrompt_def declarationError_def NewError_def option_defs as_error_def ExitCode_def exit_defs)
  qed
qed

theorem DeclarePrompt_all_or_nothing_witness:
  "case DeclarePrompt (\<lambda>_. True) enc_prompts dec_prompts None sample_prompt of
     (Some e, cmd') \<Rightarrow> cmd' = None \<and> ErrorExitCode (Some (as_error e)) = ExitValidation | (None, _) \<Rightarrow> False"
  using DeclarePrompt_all_or_nothing [where pr = "\<lambda>_. True" and cmd = None and p = sample_prompt]
  by (auto split: prod.splits option.splits)

end
