(* ===== verification/Go_Strconv.thy ===== *)
theory Go_Strconv
  imports Go_Json
begin

text \<open>
  The integer and boolean part of Go's \<^verbatim>\<open>strconv\<close>: \<^verbatim>\<open>ParseUint\<close> and \<^verbatim>\<open>ParseInt\<close>
  with base prefixes, digit separators and bit sizes, \<^verbatim>\<open>Atoi\<close>, \<^verbatim>\<open>ParseBool\<close>, and
  the formatting functions, which are \<^const>\<open>itoa\<close>. Numbers are mathematical
  integers; the range checks of the library are written out, so a result always
  fits its bit size. The main lemma is the round trip: a formatted integer
  parses back, in base ten and with base detection.
\<close>

section \<open>Parsing\<close>

datatype num_error = ErrSyntax | ErrRange

definition is_letter :: "char \<Rightarrow> bool" where
  "is_letter c \<longleftrightarrow> (65 \<le> byte c \<and> byte c \<le> 90) \<or> (97 \<le> byte c \<and> byte c \<le> 122)"

definition lower_byte :: "char \<Rightarrow> nat" where
  "lower_byte c = (if 65 \<le> byte c \<and> byte c \<le> 90 then byte c + 32 else byte c)"

definition digit_val :: "char \<Rightarrow> nat option" where
  "digit_val c =
    (if is_digit c then Some (byte c - 48)
     else if is_letter c then Some (lower_byte c - 97 + 10)
     else None)"

text \<open>
  The digit loop of \<^verbatim>\<open>ParseUint\<close>. An overflow is reported at the digit that causes
  it, before any later syntax error.
\<close>

fun parse_digits :: "bool \<Rightarrow> nat \<Rightarrow> nat \<Rightarrow> nat \<Rightarrow> bool \<Rightarrow> string \<Rightarrow> num_error + nat \<times> bool" where
  "parse_digits base0 base maxVal n us [] = Inr (n, us)"
| "parse_digits base0 base maxVal n us (c # s) =
    (if c = CHR ''_'' \<and> base0 then parse_digits base0 base maxVal n True s
     else
       (case digit_val c of
          None \<Rightarrow> Inl ErrSyntax
        | Some d \<Rightarrow>
            if base \<le> d then Inl ErrSyntax
            else if maxVal < n * base + d then Inl ErrRange
            else parse_digits base0 base maxVal (n * base + d) us s))"

text \<open>
  \<^verbatim>\<open>underscoreOK\<close>: separators stand between digits; a base prefix counts as a
  digit. \<^term>\<open>saw\<close> is the last class of character seen.
\<close>

datatype saw = SawStart | SawDigit | SawUnderscore | SawOther

fun underscore_loop :: "bool \<Rightarrow> saw \<Rightarrow> string \<Rightarrow> bool" where
  "underscore_loop hex sw [] \<longleftrightarrow> sw \<noteq> SawUnderscore"
| "underscore_loop hex sw (c # s) \<longleftrightarrow>
    (if is_digit c \<or> hex \<and> 97 \<le> lower_byte c \<and> lower_byte c \<le> 102 then underscore_loop hex SawDigit s
     else if c = CHR ''_'' then sw = SawDigit \<and> underscore_loop hex SawUnderscore s
     else sw \<noteq> SawUnderscore \<and> underscore_loop hex SawOther s)"

definition base_letter :: "char \<Rightarrow> nat option" where
  "base_letter c =
    (if c = CHR ''b'' \<or> c = CHR ''B'' then Some 2
     else if c = CHR ''o'' \<or> c = CHR ''O'' then Some 8
     else if c = CHR ''x'' \<or> c = CHR ''X'' then Some 16
     else None)"

definition underscoreOK :: "string \<Rightarrow> bool" where
  "underscoreOK s0 =
    (let s = (case s0 of c # t \<Rightarrow> if c = CHR ''-'' \<or> c = CHR ''+'' then t else s0 | [] \<Rightarrow> s0) in
     case s of
       a # b # t \<Rightarrow>
         if a = CHR ''0'' \<and> base_letter b \<noteq> None then underscore_loop (base_letter b = Some 16) SawDigit t
         else underscore_loop False SawStart s
     | _ \<Rightarrow> underscore_loop False SawStart s)"

text \<open>The base and the digits after the prefix, for base detection.\<close>

definition detect_base :: "string \<Rightarrow> nat \<times> string" where
  "detect_base s =
    (case s of
       a # t \<Rightarrow>
         if a \<noteq> CHR ''0'' then (10, s)
         else
           (case t of
              b # c # u \<Rightarrow> (case base_letter b of Some base \<Rightarrow> (base, c # u) | None \<Rightarrow> (8, t))
            | _ \<Rightarrow> (8, t))
     | [] \<Rightarrow> (10, s))"

text \<open>
  \<^verbatim>\<open>ParseUint(s, base, bitSize)\<close> for base 0 (detect) or 10 and a positive bit
  size. A base of 0 also allows the separators.
\<close>

definition ParseUint :: "nat \<Rightarrow> nat \<Rightarrow> string \<Rightarrow> num_error + nat" where
  "ParseUint base bits s =
    (if s = [] then Inl ErrSyntax
     else
       let (b, t) = (if base = 0 then detect_base s else (base, s)) in
       case parse_digits (base = 0) b (2 ^ bits - 1) 0 False t of
         Inl e \<Rightarrow> Inl e
       | Inr (n, us) \<Rightarrow> if us \<and> \<not> underscoreOK s then Inl ErrSyntax else Inr n)"

definition ParseInt :: "nat \<Rightarrow> nat \<Rightarrow> string \<Rightarrow> num_error + int" where
  "ParseInt base bits s =
    (case s of
       [] \<Rightarrow> Inl ErrSyntax
     | c # t \<Rightarrow>
         let neg = (c = CHR ''-'');
             u = (if c = CHR ''-'' \<or> c = CHR ''+'' then t else s) in
         case ParseUint base bits u of
           Inl e \<Rightarrow> Inl e
         | Inr un \<Rightarrow>
             if \<not> neg \<and> 2 ^ (bits - 1) \<le> un then Inl ErrRange
             else if neg \<and> 2 ^ (bits - 1) < un then Inl ErrRange
             else Inr (if neg then - int un else int un))"

definition Atoi :: "string \<Rightarrow> num_error + int" where
  "Atoi s = ParseInt 10 64 s"

definition ParseBool :: "string \<Rightarrow> bool option" where
  "ParseBool s =
    (if s \<in> {''1'', ''t'', ''T'', ''true'', ''TRUE'', ''True''} then Some True
     else if s \<in> {''0'', ''f'', ''F'', ''false'', ''FALSE'', ''False''} then Some False
     else None)"

section \<open>Bounds\<close>

lemma parse_digits_bound: "parse_digits b0 b mx n us s = Inr (m, us') \<Longrightarrow> n \<le> mx \<Longrightarrow> m \<le> mx"
  by (induction b0 b mx n us s rule: parse_digits.induct) (auto split: if_splits option.splits)

lemma less_power_iff: "n < 2 ^ bits \<longleftrightarrow> n \<le> (2 ^ bits - 1 :: nat)"
proof -
  have "(0 :: nat) < 2 ^ bits" by simp
  then show ?thesis by linarith
qed

lemma ParseUint_bound: "ParseUint base bits s = Inr n \<Longrightarrow> n < 2 ^ bits"
proof -
  assume "ParseUint base bits s = Inr n"
  then obtain b0 b us t us' where "parse_digits b0 b (2 ^ bits - 1) 0 us t = Inr (n, us')"
    by (auto simp: ParseUint_def Let_def split: if_splits prod.splits sum.splits)
  from parse_digits_bound [OF this] show "n < 2 ^ bits"
    unfolding less_power_iff by simp
qed

lemma ParseInt_bound:
  assumes "ParseInt base bits s = Inr n"
  shows "- (2 ^ (bits - 1)) \<le> n \<and> n < 2 ^ (bits - 1)"
proof -
  define p :: nat where "p = 2 ^ (bits - 1)"
  have "\<exists>un. n = int un \<and> un < p \<or> n = - int un \<and> un \<le> p"
    using assms
    by (auto simp: ParseInt_def Let_def not_le not_less p_def split: list.splits if_splits sum.splits)
  then have "- int p \<le> n \<and> n < int p \<or> n = int p \<and> p = 0" by linarith
  moreover have "0 < p" by (simp add: p_def)
  ultimately show ?thesis by (simp add: p_def)
qed

section \<open>Formatted integers parse back\<close>

definition digits_value :: "nat \<Rightarrow> string \<Rightarrow> nat" where
  "digits_value n s = foldl (\<lambda>a c. a * 10 + (byte c - 48)) n s"

lemma digits_value_simps [simp]:
  "digits_value n [] = n" "digits_value n (c # s) = digits_value (n * 10 + (byte c - 48)) s"
  "digits_value n (s @ t) = digits_value (digits_value n s) t"
  by (simp_all add: digits_value_def)

lemma digits_value_mono: "n \<le> digits_value n s"
proof (induction s arbitrary: n)
  case (Cons c s)
  show ?case using Cons [of "n * 10 + (byte c - 48)"] by simp
qed simp

lemma is_digit_byte: "is_digit c \<Longrightarrow> 48 \<le> byte c \<and> byte c \<le> 57 \<and> digit_val c = Some (byte c - 48) \<and> c \<noteq> CHR ''_''"
  by (auto simp: is_digit_def digit_val_def byte_def)

lemma parse_digits_decimal:
  assumes "\<forall>c \<in> set s. is_digit c" and "digits_value n s \<le> mx"
  shows "parse_digits b0 10 mx n us s = Inr (digits_value n s, us)"
  using assms
proof (induction s arbitrary: n)
  case (Cons c s)
  have "n * 10 + (byte c - 48) \<le> mx"
    using Cons.prems digits_value_mono [of "n * 10 + (byte c - 48)" s] by simp
  then show ?case using Cons is_digit_byte [of c] by auto
qed simp

lemma digits_value_nat_digits: "digits_value 0 (nat_digits n) = n"
proof (induction n rule: nat_digits.induct)
  case (1 n)
  show ?case
    using 1 by (subst nat_digits.simps) (auto simp: digit_def)
qed

lemma nat_digits_zero: "nat_digits 0 = ''0''"
  using char_of_byte [of "CHR ''0''"] by (simp add: nat_digits.simps [of 0] digit_def byte_def)

lemma ParseUint_nat_digits:
  assumes "n < 2 ^ bits"
  shows "ParseUint 10 bits (nat_digits n) = Inr n" and "ParseUint 0 bits (nat_digits n) = Inr n"
proof -
  have loop: "parse_digits b0 10 (2 ^ bits - 1) 0 False (nat_digits n) = Inr (n, False)" for b0
    using parse_digits_decimal [of "nat_digits n" 0 "2 ^ bits - 1" b0 False] assms nat_digits_all [of _ n]
    by (simp add: digits_value_nat_digits less_power_iff)
  show "ParseUint 10 bits (nat_digits n) = Inr n"
    using loop by (simp add: ParseUint_def)
  show "ParseUint 0 bits (nat_digits n) = Inr n"
  proof (cases "n = 0")
    case True
    then show ?thesis by (simp add: nat_digits_zero ParseUint_def detect_base_def)
  next
    case False
    then have "detect_base (nat_digits n) = (10, nat_digits n)"
      using nat_digits_hd [of n] nat_digits_nonempty [of n]
      by (cases "nat_digits n") (simp_all add: detect_base_def)
    then show ?thesis using loop by (simp add: ParseUint_def)
  qed
qed

lemma nat_digits_no_sign: "nat_digits n = c # t \<Longrightarrow> c \<noteq> CHR ''-'' \<and> c \<noteq> CHR ''+''"
  using nat_digits_all [of c n] by (auto simp: is_digit_def byte_def)

lemma ParseInt_itoa:
  assumes "- (2 ^ (bits - 1)) \<le> n" and "n < 2 ^ (bits - 1)" and "0 < bits" and "base = 0 \<or> base = 10"
  shows "ParseInt base bits (itoa n) = Inr n"
proof (cases "n < 0")
  case True
  then have le: "nat (- n) \<le> 2 ^ (bits - 1)"
    using assms(1) by (simp add: nat_le_iff)
  moreover have "(2 :: nat) ^ (bits - 1) < 2 ^ bits" using assms(3) by simp
  ultimately have "nat (- n) < 2 ^ bits" by (rule le_less_trans)
  then have "ParseUint base bits (nat_digits (nat (- n))) = Inr (nat (- n))"
    using assms(4) ParseUint_nat_digits by auto
  then show ?thesis using True le by (simp add: ParseInt_def itoa_def)
next
  case False
  then have lt: "nat n < 2 ^ (bits - 1)"
    using assms(2) by (simp add: nat_less_iff)
  moreover have "(2 :: nat) ^ (bits - 1) < 2 ^ bits" using assms(3) by simp
  ultimately have "nat n < 2 ^ bits" by (rule less_trans)
  then have "ParseUint base bits (nat_digits (nat n)) = Inr (nat n)"
    using assms(4) ParseUint_nat_digits by auto
  moreover obtain c t where "nat_digits (nat n) = c # t"
    by (meson neq_Nil_conv nat_digits_nonempty)
  ultimately show ?thesis
    using False lt nat_digits_no_sign [of "nat n" c t] by (simp add: ParseInt_def itoa_def not_le)
qed

end
