(* ===== verification/Schema_Convert.thy ===== *)
theory Schema_Convert
  imports Go_Strconv
begin

text \<open>
  \<^verbatim>\<open>src/internal/schema/convert.go\<close>: the type names of flags, which JSON type each
  has, and the conversion and validation of flag values in their command-line
  form. The floating-point, duration and CSV parsers and the \<^verbatim>\<open>Set\<close> methods of
  pflag's own types are fields of the environment \<^verbatim>\<open>parsers\<close>. The lemmas show that
  the canonical form is a normal form and that the JSON number advertised for an
  integer flag is the number the flag would store.
\<close>

section \<open>Type names\<close>

definition JSONBoolean :: string where "JSONBoolean = ''boolean''"
definition JSONInteger :: string where "JSONInteger = ''integer''"
definition JSONNumber :: string where "JSONNumber = ''number''"
definition JSONString :: string where "JSONString = ''string''"

lemmas json_type_defs = JSONBoolean_def JSONInteger_def JSONNumber_def JSONString_def

definition JSONSchemaType :: "string \<Rightarrow> string" where
  "JSONSchemaType ty =
    (if ty = ''bool'' then JSONBoolean
     else if ty \<in> {''count'', ''int'', ''int8'', ''int16'', ''int32'', ''int64'',
       ''uint'', ''uint8'', ''uint16'', ''uint32'', ''uint64''} then JSONInteger
     else if ty \<in> {''float32'', ''float64''} then JSONNumber
     else JSONString)"

definition JSONSchemaArrayItemType :: "string \<Rightarrow> string option" where
  "JSONSchemaArrayItemType ty =
    (if ty = ''boolSlice'' then Some JSONBoolean
     else if ty \<in> {''intSlice'', ''int32Slice'', ''int64Slice'', ''uintSlice''} then Some JSONInteger
     else if ty \<in> {''float32Slice'', ''float64Slice''} then Some JSONNumber
     else if ty \<in> {''durationSlice'', ''ipSlice'', ''ipNetSlice'', ''stringArray'', ''stringSlice''} then Some JSONString
     else None)"

definition isBuiltinFlagType :: "string \<Rightarrow> bool" where
  "isBuiltinFlagType ty \<longleftrightarrow>
    JSONSchemaArrayItemType ty \<noteq> None \<or>
    ty \<in> {''bool'', ''count'', ''string'', ''duration'', ''float32'', ''float64'',
      ''int'', ''int8'', ''int16'', ''int32'', ''int64'',
      ''uint'', ''uint8'', ''uint16'', ''uint32'', ''uint64'',
      ''ip'', ''ipMask'', ''ipNet'', ''bytesHex'', ''bytesBase64'',
      ''stringToString'', ''stringToInt'', ''stringToInt64'', ''func'', ''boolfunc'', ''time''}"

section \<open>Canonical values\<close>

datatype conv_error =
    UnsupportedEnumType string
  | ParseInteger num_error
  | ParseUnsigned num_error
  | NotCSV string
  | NotValid string
  | NotValidItem string

definition canonicalSigned :: "string \<Rightarrow> nat \<Rightarrow> conv_error + string" where
  "canonicalSigned v bits =
    (case ParseInt 0 bits v of Inl e \<Rightarrow> Inl (ParseInteger e) | Inr n \<Rightarrow> Inr (itoa n))"

definition canonicalUnsigned :: "string \<Rightarrow> nat \<Rightarrow> conv_error + string" where
  "canonicalUnsigned v bits =
    (case ParseUint 0 bits v of Inl e \<Rightarrow> Inl (ParseUnsigned e) | Inr n \<Rightarrow> Inr (itoa (int n)))"

definition CanonicalEnumValue :: "string \<Rightarrow> string \<Rightarrow> conv_error + string" where
  "CanonicalEnumValue ty v =
    (if ty = ''int'' \<or> ty = ''int64'' then canonicalSigned v 64
     else if ty = ''int8'' then canonicalSigned v 8
     else if ty = ''int16'' then canonicalSigned v 16
     else if ty = ''int32'' then canonicalSigned v 32
     else if ty = ''uint'' \<or> ty = ''uint64'' then canonicalUnsigned v 64
     else if ty = ''uint8'' then canonicalUnsigned v 8
     else if ty = ''uint16'' then canonicalUnsigned v 16
     else if ty = ''uint32'' then canonicalUnsigned v 32
     else if ty = ''string'' then Inr v
     else if isBuiltinFlagType ty then Inl (UnsupportedEnumType ty)
     else Inr v)"

definition integerParseType :: "string \<Rightarrow> string" where
  "integerParseType ty = (if ty = ''count'' then ''int'' else ty)"

section \<open>Conversion to JSON values\<close>

datatype 'f json_value =
    VBool bool
  | VInt int
  | VUint nat
  | VFloat 'f
  | VStr string
  | VList "'f json_value list"

text \<open>
  What the conversions call outside this file: \<^verbatim>\<open>strconv.ParseFloat\<close> at a bit size,
  \<^verbatim>\<open>math.IsNaN\<close>, \<^verbatim>\<open>math.IsInf\<close>, whether \<^verbatim>\<open>time.ParseDuration\<close> accepts a text, the first
  record of a CSV reader, and whether pflag's \<^verbatim>\<open>Set\<close> for a type accepts a text.
\<close>

record 'f parsers =
  parse_float :: "nat \<Rightarrow> string \<Rightarrow> 'f option"
  is_nan :: "'f \<Rightarrow> bool"
  is_inf :: "'f \<Rightarrow> bool"
  parse_duration :: "string \<Rightarrow> bool"
  csv_record :: "string \<Rightarrow> string list option"
  pflag_accepts :: "string \<Rightarrow> string \<Rightarrow> bool"

definition finiteFloatJSON :: "'f parsers \<Rightarrow> string \<Rightarrow> 'f json_value option" where
  "finiteFloatJSON env v =
    (case parse_float env 64 v of
       None \<Rightarrow> None
     | Some x \<Rightarrow> if is_nan env x \<or> is_inf env x then None else Some (VFloat x))"

definition bool_json :: "string \<Rightarrow> 'f json_value option" where
  "bool_json v = map_option VBool (ParseBool v)"

definition int_json :: "string \<Rightarrow> 'f json_value option" where
  "int_json v = (case ParseInt 10 64 v of Inl _ \<Rightarrow> None | Inr n \<Rightarrow> Some (VInt n))"

definition uint_json :: "string \<Rightarrow> 'f json_value option" where
  "uint_json v = (case ParseUint 10 64 v of Inl _ \<Rightarrow> None | Inr n \<Rightarrow> Some (VUint n))"

definition ScalarJSON :: "'f parsers \<Rightarrow> string \<Rightarrow> string \<Rightarrow> 'f json_value option" where
  "ScalarJSON env ty v =
    (if v = [] then None
     else if JSONSchemaType ty = JSONBoolean then bool_json v
     else if JSONSchemaType ty = JSONInteger then
       (if has_prefix ty ''uint'' then uint_json v else int_json v)
     else if JSONSchemaType ty = JSONNumber then finiteFloatJSON env v
     else Some (VStr v))"

definition ArrayItemJSON :: "'f parsers \<Rightarrow> string \<Rightarrow> string \<Rightarrow> string \<Rightarrow> 'f json_value option" where
  "ArrayItemJSON env v itemType ty =
    (if itemType = JSONBoolean then bool_json v
     else if itemType = JSONInteger then (if ty = ''uintSlice'' then uint_json v else int_json v)
     else if itemType = JSONNumber then finiteFloatJSON env v
     else Some (VStr v))"

text \<open>\<^verbatim>\<open>strings.Split(value, ",")\<close>: always at least one element.\<close>

fun split_comma :: "string \<Rightarrow> string list" where
  "split_comma [] = [[]]"
| "split_comma (c # s) =
    (if c = CHR '','' then [] # split_comma s
     else case split_comma s of x # xs \<Rightarrow> (c # x) # xs | [] \<Rightarrow> [[c]])"

definition SplitSliceValue :: "'f parsers \<Rightarrow> string \<Rightarrow> string \<Rightarrow> conv_error + string list" where
  "SplitSliceValue env ty v =
    (if ty = ''stringArray'' then Inr [v]
     else if ty = ''stringSlice'' \<or> ty = ''boolSlice'' then
       (case csv_record env v of None \<Rightarrow> Inl (NotCSV ty) | Some els \<Rightarrow> Inr els)
     else Inr (split_comma v))"

definition baseZeroSliceElementType :: "string \<Rightarrow> string option" where
  "baseZeroSliceElementType ty =
    (if ty = ''int32Slice'' then Some ''int32'' else if ty = ''int64Slice'' then Some ''int64'' else None)"

fun slice_items :: "'f parsers \<Rightarrow> string \<Rightarrow> string \<Rightarrow> string list \<Rightarrow> 'f json_value list option" where
  "slice_items env ty itemType [] = Some []"
| "slice_items env ty itemType (el # els) =
    (case (case baseZeroSliceElementType ty of
             None \<Rightarrow> Some el
           | Some scalarType \<Rightarrow> (case CanonicalEnumValue scalarType el of Inl _ \<Rightarrow> None | Inr c \<Rightarrow> Some c)) of
       None \<Rightarrow> None
     | Some el' \<Rightarrow>
         (case ArrayItemJSON env el' itemType ty of
            None \<Rightarrow> None
          | Some v \<Rightarrow> map_option ((#) v) (slice_items env ty itemType els)))"

definition sliceExampleJSON :: "'f parsers \<Rightarrow> string \<Rightarrow> string \<Rightarrow> string \<Rightarrow> 'f json_value option" where
  "sliceExampleJSON env ty itemType example =
    (case SplitSliceValue env ty example of
       Inl _ \<Rightarrow> None
     | Inr els \<Rightarrow> map_option VList (slice_items env ty itemType els))"

definition ExampleJSON :: "'f parsers \<Rightarrow> string \<Rightarrow> string \<Rightarrow> 'f json_value option" where
  "ExampleJSON env ty example =
    (case JSONSchemaArrayItemType ty of
       Some itemType \<Rightarrow> sliceExampleJSON env ty itemType example
     | None \<Rightarrow>
         if JSONSchemaType ty = JSONInteger then
           (case CanonicalEnumValue (integerParseType ty) example of
              Inl _ \<Rightarrow> None
            | Inr canonical \<Rightarrow> ScalarJSON env ty canonical)
         else ScalarJSON env ty example)"

section \<open>Validation\<close>

definition validateWithPflag :: "'f parsers \<Rightarrow> string \<Rightarrow> string \<Rightarrow> bool \<times> conv_error option" where
  "validateWithPflag env ty v =
    (if ty \<in> {''ip'', ''ipMask'', ''ipNet'', ''ipSlice'', ''ipNetSlice'', ''bytesHex'', ''bytesBase64'',
       ''stringToString'', ''stringToInt'', ''stringToInt64''}
     then (True, if pflag_accepts env ty v then None else Some (NotValid ty))
     else (False, None))"

definition element_ok :: "'f parsers \<Rightarrow> string \<Rightarrow> string \<Rightarrow> bool" where
  "element_ok env ty el \<longleftrightarrow>
    (if ty = ''boolSlice'' then ParseBool el \<noteq> None
     else if ty = ''intSlice'' then isl (Atoi el) = False
     else if ty = ''int32Slice'' then isl (ParseInt 0 32 el) = False
     else if ty = ''int64Slice'' then isl (ParseInt 0 64 el) = False
     else if ty = ''uintSlice'' then isl (ParseUint 10 64 el) = False
     else if ty = ''float32Slice'' then parse_float env 32 el \<noteq> None
     else if ty = ''float64Slice'' then parse_float env 64 el \<noteq> None
     else if ty = ''durationSlice'' then parse_duration env el
     else True)"

definition validateSliceValue :: "'f parsers \<Rightarrow> string \<Rightarrow> string \<Rightarrow> conv_error option" where
  "validateSliceValue env ty v =
    (case SplitSliceValue env ty v of
       Inl e \<Rightarrow> Some e
     | Inr els \<Rightarrow> if list_all (element_ok env ty) els then None else Some (NotValidItem ty))"

definition scalar_ok :: "'f parsers \<Rightarrow> string \<Rightarrow> string \<Rightarrow> bool" where
  "scalar_ok env ty v \<longleftrightarrow>
    (if ty = ''bool'' then ParseBool v \<noteq> None
     else if JSONSchemaType ty = JSONInteger then isl (CanonicalEnumValue (integerParseType ty) v) = False
     else if ty = ''float32'' then parse_float env 32 v \<noteq> None
     else if ty = ''float64'' then parse_float env 64 v \<noteq> None
     else if ty = ''duration'' then parse_duration env v
     else True)"

definition validateScalarValue :: "'f parsers \<Rightarrow> string \<Rightarrow> string \<Rightarrow> conv_error option" where
  "validateScalarValue env ty v = (if scalar_ok env ty v then None else Some (NotValid ty))"

definition ValidateValue :: "'f parsers \<Rightarrow> string \<Rightarrow> string \<Rightarrow> conv_error option" where
  "ValidateValue env ty v =
    (case validateWithPflag env ty v of (handled, err) \<Rightarrow>
       if handled then err
       else if JSONSchemaArrayItemType ty \<noteq> None then validateSliceValue env ty v
       else validateScalarValue env ty v)"

text \<open>An environment for the examples: no floats, every other text accepted as one element.\<close>

definition sample_parsers :: "nat parsers" where
  "sample_parsers = \<lparr>parse_float = (\<lambda>_ _. None), is_nan = (\<lambda>_. False), is_inf = (\<lambda>_. False),
     parse_duration = (\<lambda>_. True), csv_record = (\<lambda>s. Some [s]), pflag_accepts = (\<lambda>_ _. True)\<rparr>"

section \<open>Integer types\<close>

text \<open>
  Whether an integer type is signed, and its bit size; \<^verbatim>\<open>count\<close> is parsed as an
  \<^verbatim>\<open>int\<close>. \<^verbatim>\<open>flag_int\<close> is the integer a text denotes for such a type.
\<close>

definition int_width :: "string \<Rightarrow> (bool \<times> nat) option" where
  "int_width ty = map_of
    [(''count'', (True, 64)), (''int'', (True, 64)), (''int8'', (True, 8)), (''int16'', (True, 16)),
     (''int32'', (True, 32)), (''int64'', (True, 64)), (''uint'', (False, 64)), (''uint8'', (False, 8)),
     (''uint16'', (False, 16)), (''uint32'', (False, 32)), (''uint64'', (False, 64))] ty"

definition flag_int :: "string \<Rightarrow> string \<Rightarrow> int option" where
  "flag_int ty v =
    (case int_width ty of
       None \<Rightarrow> None
     | Some (signed, bits) \<Rightarrow>
         if signed then (case ParseInt 0 bits v of Inl _ \<Rightarrow> None | Inr n \<Rightarrow> Some n)
         else (case ParseUint 0 bits v of Inl _ \<Rightarrow> None | Inr n \<Rightarrow> Some (int n)))"

lemma int_width_cases:
  assumes "int_width ty = Some w"
  shows "(ty, w) \<in> {(''count'', (True, 64)), (''int'', (True, 64)), (''int8'', (True, 8)), (''int16'', (True, 16)),
     (''int32'', (True, 32)), (''int64'', (True, 64)), (''uint'', (False, 64)), (''uint8'', (False, 8)),
     (''uint16'', (False, 16)), (''uint32'', (False, 32)), (''uint64'', (False, 64))}"
  using map_of_SomeD [OF assms [unfolded int_width_def]] by simp

lemma int_width_None_iff: "int_width ty = None \<longleftrightarrow>
  ty \<notin> {''count'', ''int'', ''int8'', ''int16'', ''int32'', ''int64'', ''uint'', ''uint8'', ''uint16'', ''uint32'', ''uint64''}"
  unfolding int_width_def map_of_eq_None_iff by simp

lemma JSONInteger_iff: "JSONSchemaType ty = JSONInteger \<longleftrightarrow> int_width ty \<noteq> None"
proof (cases "ty = ''bool''")
  case True
  then show ?thesis by (simp add: JSONSchemaType_def int_width_None_iff json_type_defs)
next
  case False
  then show ?thesis
    by (simp only: JSONSchemaType_def int_width_None_iff if_False not_not split: if_split) (simp add: json_type_defs del: insert_iff)
qed

lemma int_width_not_slice: "int_width ty \<noteq> None \<Longrightarrow> JSONSchemaArrayItemType ty = None"
proof -
  assume "int_width ty \<noteq> None"
  then obtain w where "int_width ty = Some w" by blast
  from int_width_cases [OF this] show ?thesis
    by (elim insertE emptyE; simp add: JSONSchemaArrayItemType_def)
qed

lemma int_width_bits:
  "int_width ty = Some (signed, bits) \<Longrightarrow> 0 < bits \<and> bits \<le> 64 \<and> (has_prefix ty ''uint'' \<longleftrightarrow> \<not> signed)"
  by (drule int_width_cases) (elim insertE emptyE; simp add: has_prefix_def)

lemma CanonicalEnumValue_int:
  assumes "int_width ty = Some (signed, bits)"
  shows "CanonicalEnumValue (integerParseType ty) v =
    (if signed then canonicalSigned v bits else canonicalUnsigned v bits)"
  using int_width_cases [OF assms]
  by (elim insertE emptyE; simp add: CanonicalEnumValue_def integerParseType_def)

lemma CanonicalEnumValue_flag_int:
  assumes "int_width ty = Some (signed, bits)"
  shows "CanonicalEnumValue (integerParseType ty) v = Inr c \<longleftrightarrow> (\<exists>n. flag_int ty v = Some n \<and> c = itoa n)"
    and "isl (CanonicalEnumValue (integerParseType ty) v) \<longleftrightarrow> flag_int ty v = None"
  by (auto simp: CanonicalEnumValue_int [OF assms] flag_int_def assms canonicalSigned_def canonicalUnsigned_def
      split: sum.splits)

lemma power_bits_le: "b \<le> 64 \<Longrightarrow> (2 :: int) ^ (b - 1) \<le> 2 ^ 63" "b \<le> 64 \<Longrightarrow> (2 :: nat) ^ b \<le> 2 ^ 64"
  by (rule power_increasing; simp)+

lemma flag_int_range:
  assumes "flag_int ty v = Some n" and "int_width ty = Some (signed, bits)"
  shows "if signed then - (2 ^ (bits - 1)) \<le> n \<and> n < 2 ^ (bits - 1) else 0 \<le> n \<and> nat n < 2 ^ bits"
  using assms ParseInt_bound [of 0 bits v] ParseUint_bound [of 0 bits v]
  by (auto simp: flag_int_def split: sum.splits if_splits)

lemma itoa_nonneg: "0 \<le> n \<Longrightarrow> itoa n = nat_digits (nat n)"
  by (simp add: itoa_def)

lemma flag_int_itoa:
  assumes "flag_int ty v = Some n"
  shows "flag_int ty (itoa n) = Some n"
proof -
  obtain signed bits where w: "int_width ty = Some (signed, bits)"
    using assms by (auto simp: flag_int_def split: option.splits)
  show ?thesis
    using flag_int_range [OF assms w] int_width_bits [OF w] ParseInt_itoa [of bits n 0] ParseUint_nat_digits(2) [of "nat n" bits]
    by (auto simp: flag_int_def w itoa_nonneg split: if_splits)
qed

lemma itoa_inject: "flag_int ty v = Some n \<Longrightarrow> flag_int ty w = Some m \<Longrightarrow> itoa n = itoa m \<longleftrightarrow> n = m"
  by (metis flag_int_itoa option.inject)

section \<open>The canonical form is a normal form\<close>

text \<open>
  The interface of a comparison by canonical form: canonicalising a canonical
  form gives it back. Membership in a set of values given by their forms is then
  decided by comparing values.
\<close>

locale canonical_form =
  fixes canon :: "'v \<Rightarrow> 'c option" and embed :: "'c \<Rightarrow> 'v"
  assumes canon_embed: "canon v = Some c \<Longrightarrow> canon (embed c) = Some c"
begin

definition forms :: "'v list \<Rightarrow> 'c list" where
  "forms vs = map (\<lambda>v. the (canon v)) vs"

lemma member_iff:
  assumes "\<forall>w \<in> set vs. canon w \<noteq> None"
  shows "(\<exists>c. canon v = Some c \<and> c \<in> set (forms vs)) \<longleftrightarrow> (canon v \<noteq> None \<and> (\<exists>w \<in> set vs. canon w = canon v))"
  using assms by (force simp: forms_def)

lemma embed_forms: "\<forall>w \<in> set vs. canon w \<noteq> None \<Longrightarrow> forms (map embed (forms vs)) = forms vs"
  using canon_embed by (fastforce simp: forms_def)

end

definition canonical_option :: "string \<Rightarrow> string \<Rightarrow> string option" where
  "canonical_option ty v = (case CanonicalEnumValue ty v of Inl _ \<Rightarrow> None | Inr c \<Rightarrow> Some c)"

lemma CanonicalEnumValue_cases:
  obtains (int) "int_width ty \<noteq> None" "integerParseType ty = ty"
  | (refused) "\<And>v. CanonicalEnumValue ty v = Inl (UnsupportedEnumType ty)"
  | (exact) "\<And>v. CanonicalEnumValue ty v = Inr v"
proof (cases "int_width ty \<noteq> None \<and> ty \<noteq> ''count''")
  case True
  then show ?thesis using int by (simp add: integerParseType_def)
next
  case False
  then have "(\<forall>v. CanonicalEnumValue ty v = Inl (UnsupportedEnumType ty)) \<or> (\<forall>v. CanonicalEnumValue ty v = Inr v)"
    by (auto simp: CanonicalEnumValue_def int_width_def isBuiltinFlagType_def split: if_splits)
  then show ?thesis using refused exact by blast
qed

lemma CanonicalEnumValue_idem: "CanonicalEnumValue ty v = Inr c \<Longrightarrow> CanonicalEnumValue ty c = Inr c"
proof (cases ty rule: CanonicalEnumValue_cases)
  case int
  then obtain signed bits where w: "int_width ty = Some (signed, bits)" by auto
  show "CanonicalEnumValue ty v = Inr c \<Longrightarrow> ?thesis"
    using CanonicalEnumValue_flag_int(1) [OF w] flag_int_itoa int(2) by auto
qed auto

interpretation enum_form: canonical_form "canonical_option ty" "\<lambda>c. c" for ty
  by unfold_locales (auto simp: canonical_option_def dest: CanonicalEnumValue_idem split: sum.splits)

lemma CanonicalEnumValue_integer:
  assumes "CanonicalEnumValue ty v = Inr c" and "flag_int ty u = Some n"
  shows "CanonicalEnumValue ty w = Inr d \<longleftrightarrow> (\<exists>m. flag_int ty w = Some m \<and> d = itoa m)"
proof (cases ty rule: CanonicalEnumValue_cases)
  case int
  then show ?thesis using CanonicalEnumValue_flag_int(1) by fastforce
next
  case refused
  then show ?thesis using assms(1) by simp
next
  case exact
  have "int_width ty \<noteq> None" using assms(2) by (auto simp: flag_int_def split: option.splits)
  then obtain signed bits where w: "int_width ty = Some (signed, bits)" by auto
  have "CanonicalEnumValue ty [] = Inl x \<or> ty = ''count''" if "x = (if signed then ParseInteger ErrSyntax else ParseUnsigned ErrSyntax)" for x
    using CanonicalEnumValue_int [OF w, of "[]"] that
    by (auto simp: integerParseType_def canonicalSigned_def canonicalUnsigned_def ParseInt_def ParseUint_def split: if_splits)
  moreover have "CanonicalEnumValue ''count'' v = Inl (UnsupportedEnumType ''count'')"
    by (simp add: CanonicalEnumValue_def isBuiltinFlagType_def)
  ultimately show ?thesis using exact assms(1) by auto
qed

section \<open>Integer examples\<close>

lemma int_json_itoa: "- (2 ^ 63) \<le> n \<Longrightarrow> n < 2 ^ 63 \<Longrightarrow> int_json (itoa n) = Some (VInt n)"
  using ParseInt_itoa [of 64 n 10] by (simp add: int_json_def)

lemma uint_json_itoa: "0 \<le> n \<Longrightarrow> nat n < 2 ^ 64 \<Longrightarrow> uint_json (itoa n) = Some (VUint (nat n))"
  using ParseUint_nat_digits(1) [of "nat n" 64] by (simp add: uint_json_def itoa_nonneg)

definition int_value :: "string \<Rightarrow> int \<Rightarrow> 'f json_value" where
  "int_value ty n = (if has_prefix ty ''uint'' then VUint (nat n) else VInt n)"

lemma ScalarJSON_itoa:
  assumes "flag_int ty v = Some n" and "int_width ty = Some (signed, bits)"
  shows "ScalarJSON env ty (itoa n) = Some (int_value ty n)"
proof -
  have ne: "itoa n \<noteq> []" by (simp add: itoa_def)
  have ty: "JSONSchemaType ty = JSONInteger" using assms(2) by (simp add: JSONInteger_iff)
  note rng = flag_int_range [OF assms] and bits = int_width_bits [OF assms(2)]
  show ?thesis
  proof (cases signed)
    case True
    then have "- (2 ^ 63) \<le> n" "n < 2 ^ 63"
      using rng bits power_bits_le(1) [of bits] by auto
    then show ?thesis
      using True ne ty bits by (simp add: ScalarJSON_def json_type_defs int_value_def int_json_itoa)
  next
    case False
    then have "0 \<le> n" "nat n < 2 ^ 64"
      using rng bits less_le_trans [OF _ power_bits_le(2) [of bits], of "nat n"] by (auto simp del: nat_less_numeral_power_cancel_iff)
    then show ?thesis
      using False ne ty bits by (simp add: ScalarJSON_def json_type_defs int_value_def uint_json_itoa)
  qed
qed

lemma int_width_not_pflag: "int_width ty \<noteq> None \<Longrightarrow> validateWithPflag env ty v = (False, None)"
proof -
  assume "int_width ty \<noteq> None"
  then obtain w where "int_width ty = Some w" by blast
  from int_width_cases [OF this] show ?thesis
    by (elim insertE emptyE; simp add: validateWithPflag_def)
qed

lemma int_width_scalar_ok:
  assumes "int_width ty = Some (signed, bits)"
  shows "scalar_ok env ty v \<longleftrightarrow> flag_int ty v \<noteq> None"
proof -
  have "ty \<noteq> ''bool''" using assms by (auto simp: int_width_def)
  then show ?thesis
    using assms CanonicalEnumValue_flag_int(2) [OF assms, of v] by (simp add: scalar_ok_def JSONInteger_iff)
qed

section \<open>Properties\<close>

text \<open>
  The canonical form of an enum value is a normal form: canonicalising it
  again gives it back. For an integer flag it is the decimal rendering of the
  number the text denotes, and two texts have the same form exactly when they
  denote the same number, so 3, 03, +3 and 0x3 are one value.
\<close>

theorem canonical_value_normal_form:
  assumes "CanonicalEnumValue ty v = Inr c"
  shows "CanonicalEnumValue ty c = Inr c \<and>
    (\<forall>n. flag_int ty v = Some n \<longrightarrow> c = itoa n \<and> (\<forall>w. CanonicalEnumValue ty w = Inr c \<longleftrightarrow> flag_int ty w = Some n))"
proof (intro conjI allI impI)
  show "CanonicalEnumValue ty c = Inr c" using assms by (rule CanonicalEnumValue_idem)
next
  fix n assume n: "flag_int ty v = Some n"
  show c: "c = itoa n" using CanonicalEnumValue_integer [OF assms n] assms n by auto
  fix w show "CanonicalEnumValue ty w = Inr c \<longleftrightarrow> flag_int ty w = Some n"
    using CanonicalEnumValue_integer [OF assms n] itoa_inject [OF n] c by auto
qed

theorem canonical_value_normal_form_witness:
  "CanonicalEnumValue ''int8'' ''0x3'' = Inr ''3'' \<and> CanonicalEnumValue ''int8'' ''+03'' = Inr ''3''"
proof -
  have v: "CanonicalEnumValue ''int8'' ''0x3'' = Inr ''3''" by code_simp
  have n: "flag_int ''int8'' ''0x3'' = Some 3" "flag_int ''int8'' ''+03'' = Some 3" by code_simp+
  show ?thesis using canonical_value_normal_form [OF v] v n by blast
qed

text \<open>
  For an integer flag, an example is valid exactly when it denotes a number
  of the type, and then the JSON value advertised for it is that number: no
  wrap-around, no reading of a prefixed or octal text in base ten.
\<close>

theorem ExampleJSON_integer:
  assumes "int_width ty \<noteq> None"
  shows "ExampleJSON env ty v = map_option (int_value ty) (flag_int ty v) \<and>
    (ValidateValue env ty v = None \<longleftrightarrow> flag_int ty v \<noteq> None)"
proof -
  obtain signed bits where w: "int_width ty = Some (signed, bits)" using assms by auto
  have "ExampleJSON env ty v = map_option (int_value ty) (flag_int ty v)"
  proof (cases "flag_int ty v")
    case None
    then have "isl (CanonicalEnumValue (integerParseType ty) v)"
      using CanonicalEnumValue_flag_int(2) [OF w] by simp
    then show ?thesis
      using None assms by (auto simp: ExampleJSON_def int_width_not_slice JSONInteger_iff split: sum.splits)
  next
    case (Some n)
    then have "CanonicalEnumValue (integerParseType ty) v = Inr (itoa n)"
      using CanonicalEnumValue_flag_int(1) [OF w] by simp
    then show ?thesis
      using Some assms by (simp add: ExampleJSON_def int_width_not_slice JSONInteger_iff ScalarJSON_itoa [OF Some w])
  qed
  moreover have "ValidateValue env ty v = None \<longleftrightarrow> flag_int ty v \<noteq> None"
    using assms int_width_scalar_ok [OF w, of env v]
    by (auto simp add: ValidateValue_def int_width_not_pflag int_width_not_slice validateScalarValue_def)
  ultimately show ?thesis by blast
qed

theorem ExampleJSON_integer_witness:
  "ExampleJSON sample_parsers ''uint8'' ''0x10'' = Some (VUint 16) \<and> ExampleJSON sample_parsers ''uint8'' ''256'' = None"
proof -
  have w: "int_width ''uint8'' \<noteq> None" by (simp add: int_width_def)
  have n: "flag_int ''uint8'' ''0x10'' = Some 16" "flag_int ''uint8'' ''256'' = None" by code_simp+
  show ?thesis
    using ExampleJSON_integer [OF w, of sample_parsers "''0x10''"] ExampleJSON_integer [OF w, of sample_parsers "''256''"] n
    by (simp add: int_value_def has_prefix_def)
qed

end
