(* ===== verification/Schema_Enum.thy ===== *)
theory Schema_Enum
  imports Schema_Decl Schema_Convert
begin

text \<open>
  \<^verbatim>\<open>src/internal/schema/declare.go\<close> and \<^verbatim>\<open>src/schema/declare.go\<close>: enum, example and
  capability declarations on flags and commands. Flags are shared objects (the
  same flag is reachable from a command's own and its persistent flag set), so
  they live in a store indexed by address. The lemmas show that a declared enum
  is what parsing enforces, that what \<^verbatim>\<open>__schema\<close> advertises is consistent, and
  that a refused declaration changes nothing.
\<close>

section \<open>Flags\<close>

text \<open>
  A \<^verbatim>\<open>pflag.Value\<close> of another package: its type name, whether it is a
  \<^verbatim>\<open>pflag.SliceValue\<close>, its state and its \<^verbatim>\<open>Set\<close> method.
\<close>

record 's pvalue =
  pv_type :: string
  pv_slice :: bool
  pv_state :: 's
  pv_set :: "string \<Rightarrow> 's \<Rightarrow> go_error option \<times> 's"

record 's enumValue =
  e_inner :: "'s pvalue"
  e_flagType :: string
  e_allowed :: "string list"
  e_canonical :: "string list"

datatype 's flag_value = Plain "'s pvalue" | Enum "'s enumValue"

record 's flag =
  f_Name :: string
  f_DefValue :: string
  f_Value :: "'s flag_value"
  f_Annotations :: "string \<Rightarrow> string list"

type_synonym 's store = "nat \<Rightarrow> 's flag"

record flag_sets =
  fs_Flags :: "string \<rightharpoonup> nat"
  fs_PersistentFlags :: "string \<rightharpoonup> nat"

definition exampleAnnotationKey :: string where
  "exampleAnnotationKey = ''github.com/rshade/ax-go/schema/example''"
definition capabilityAnnotationKey :: string where
  "capabilityAnnotationKey = ''github.com/rshade/ax-go/schema/capability''"
definition capabilityNoteAnnotationKey :: string where
  "capabilityNoteAnnotationKey = ''github.com/rshade/ax-go/schema/capability-note''"

definition lookupFlag :: "flag_sets option \<Rightarrow> string \<Rightarrow> Violation + nat" where
  "lookupFlag cmd name =
    (case cmd of
       None \<Rightarrow> Inl (Violation ''cmd'' ReasonNilCommand)
     | Some fsets \<Rightarrow>
         (case fs_Flags fsets name of
            Some a \<Rightarrow> Inr a
          | None \<Rightarrow>
              (case fs_PersistentFlags fsets name of
                 Some a \<Rightarrow> Inr a
               | None \<Rightarrow> Inl (Violation ''flag'' ReasonFlagNotFound))))"

section \<open>The enum wrapper\<close>

fun value_inner :: "'s flag_value \<Rightarrow> 's pvalue" where
  "value_inner (Plain pv) = pv"
| "value_inner (Enum ev) = e_inner ev"

definition value_Type :: "'s flag_value \<Rightarrow> string" where
  "value_Type v = pv_type (value_inner v)"

definition isMember :: "string \<Rightarrow> string list \<Rightarrow> string \<Rightarrow> bool" where
  "isMember ty canonical v =
    (case CanonicalEnumValue ty v of Inl _ \<Rightarrow> False | Inr form \<Rightarrow> form \<in> set canonical)"

definition defaultIsMember :: "string \<Rightarrow> string list \<Rightarrow> string \<Rightarrow> bool" where
  "defaultIsMember ty canonical def \<longleftrightarrow> def = [] \<or> isMember ty canonical def"

definition rejection :: "'s flag \<Rightarrow> 's enumValue \<Rightarrow> go_error" where
  "rejection f ev =
    as_error (NewError (Some Background) ErrorCodeValidationError
      (''flag --'' @ f_Name f @ '': value is not one of the allowed values'')
      [WithErrorExitCode ExitValidation,
       WithErrorContext [(''flag'', StrVal (f_Name f)), (''allowed'', ListVal (map StrVal (e_allowed ev)))],
       WithSuggestions (map (\<lambda>a. ''--'' @ f_Name f @ ''='' @ a) (e_allowed ev))])"

definition inner_Set :: "'s pvalue \<Rightarrow> string \<Rightarrow> go_error option \<times> 's pvalue" where
  "inner_Set pv v = (case pv_set pv v (pv_state pv) of (err, s) \<Rightarrow> (err, pv\<lparr>pv_state := s\<rparr>))"

definition enum_Set :: "'s flag \<Rightarrow> 's enumValue \<Rightarrow> string \<Rightarrow> go_error option \<times> 's enumValue" where
  "enum_Set f ev v =
    (if v = f_DefValue f \<or> isMember (e_flagType ev) (e_canonical ev) v
     then (case inner_Set (e_inner ev) v of (err, pv) \<Rightarrow> (err, ev\<lparr>e_inner := pv\<rparr>))
     else (Some (rejection f ev), ev))"

definition flag_Set :: "'s flag \<Rightarrow> string \<Rightarrow> go_error option \<times> 's flag" where
  "flag_Set f v =
    (case f_Value f of
       Plain pv \<Rightarrow> (case inner_Set pv v of (err, pv') \<Rightarrow> (err, f\<lparr>f_Value := Plain pv'\<rparr>))
     | Enum ev \<Rightarrow> (case enum_Set f ev v of (err, ev') \<Rightarrow> (err, f\<lparr>f_Value := Enum ev'\<rparr>)))"

section \<open>Declaring an enum\<close>

definition enumTypeSupported :: "'s pvalue \<Rightarrow> bool" where
  "enumTypeSupported pv \<longleftrightarrow>
    \<not> pv_slice pv \<and> (case CanonicalEnumValue (pv_type pv) ''0'' of Inl (UnsupportedEnumType _) \<Rightarrow> False | _ \<Rightarrow> True)"

fun collect_forms :: "string \<Rightarrow> string list \<Rightarrow> string list \<Rightarrow> Violation + string list" where
  "collect_forms ty canonical [] = Inr canonical"
| "collect_forms ty canonical (v # vs) =
    (case CanonicalEnumValue ty v of
       Inl _ \<Rightarrow> Inl (Violation ''values'' ReasonInvalidValue)
     | Inr form \<Rightarrow>
         if form \<in> set canonical then Inl (Violation ''values'' ReasonDuplicate)
         else collect_forms ty (canonical @ [form]) vs)"

definition declaredExample :: "'s flag \<Rightarrow> string option" where
  "declaredExample f =
    (case f_Annotations f exampleAnnotationKey of [ex] \<Rightarrow> if ex = [] then None else Some ex | _ \<Rightarrow> None)"

definition enum_violation :: "'s flag \<Rightarrow> string list \<Rightarrow> Violation + string list" where
  "enum_violation f vs =
    (let inner = value_inner (f_Value f); ty = pv_type inner in
     if \<not> enumTypeSupported inner then Inl (Violation ''flag'' ReasonUnsupportedType)
     else if vs = [] then Inl (Violation ''values'' ReasonRequired)
     else
       (case collect_forms ty [] vs of
          Inl v \<Rightarrow> Inl v
        | Inr canonical \<Rightarrow>
            if \<not> defaultIsMember ty canonical (f_DefValue f) then Inl (Violation ''default'' ReasonNotInEnum)
            else
              (case declaredExample f of
                 Some ex \<Rightarrow>
                   if \<not> isMember ty canonical ex then Inl (Violation ''example'' ReasonNotInEnum) else Inr canonical
               | None \<Rightarrow> Inr canonical)))"

definition AddFlagEnum :: "'s store \<Rightarrow> flag_sets option \<Rightarrow> string \<Rightarrow> string list \<Rightarrow> Violation option \<times> 's store" where
  "AddFlagEnum st cmd name vs =
    (case lookupFlag cmd name of
       Inl v \<Rightarrow> (Some v, st)
     | Inr a \<Rightarrow>
         (let f = st a in
          case enum_violation f vs of
            Inl v \<Rightarrow> (Some v, st)
          | Inr canonical \<Rightarrow>
              (case f_Value f of
                 Enum ev \<Rightarrow> (None, st(a := f\<lparr>f_Value := Enum (ev\<lparr>e_allowed := vs, e_canonical := canonical\<rparr>)\<rparr>))
               | Plain pv \<Rightarrow>
                   (None, st(a := f\<lparr>f_Value := Enum \<lparr>e_inner = pv, e_flagType = pv_type pv,
                      e_allowed = vs, e_canonical = canonical\<rparr>\<rparr>)))))"

definition FlagEnum :: "'s flag \<Rightarrow> string list option" where
  "FlagEnum f =
    (case f_Value f of
       Plain _ \<Rightarrow> None
     | Enum ev \<Rightarrow>
         if defaultIsMember (e_flagType ev) (e_canonical ev) (f_DefValue f) then Some (e_allowed ev) else None)"

section \<open>Declaring an example\<close>

definition exampleProblem :: "'f parsers \<Rightarrow> 's flag \<Rightarrow> string \<Rightarrow> Reason option" where
  "exampleProblem env f ex =
    (let ty = value_Type (f_Value f) in
     if ValidateValue env ty ex \<noteq> None then Some ReasonInvalidValue
     else if ExampleJSON env ty ex = None then Some ReasonInvalidValue
     else
       (case f_Value f of
          Enum ev \<Rightarrow> if \<not> isMember (e_flagType ev) (e_canonical ev) ex then Some ReasonNotInEnum else None
        | Plain _ \<Rightarrow> None))"

definition AddFlagExample ::
  "'f parsers \<Rightarrow> 's store \<Rightarrow> flag_sets option \<Rightarrow> string \<Rightarrow> string \<Rightarrow> Violation option \<times> 's store" where
  "AddFlagExample env st cmd name ex =
    (case lookupFlag cmd name of
       Inl v \<Rightarrow> (Some v, st)
     | Inr a \<Rightarrow>
         if ex = [] then (Some (Violation ''example'' ReasonRequired), st)
         else
           (case exampleProblem env (st a) ex of
              Some reason \<Rightarrow> (Some (Violation ''example'' reason), st)
            | None \<Rightarrow>
                (None, st(a := (st a)\<lparr>f_Annotations := (f_Annotations (st a))(exampleAnnotationKey := [ex])\<rparr>))))"

definition FlagExample :: "'f parsers \<Rightarrow> 's flag \<Rightarrow> string" where
  "FlagExample env f =
    (case declaredExample f of
       None \<Rightarrow> []
     | Some ex \<Rightarrow> if exampleProblem env f ex \<noteq> None then [] else ex)"

section \<open>Capabilities\<close>

definition IsCapability :: "string \<Rightarrow> bool" where
  "IsCapability class \<longleftrightarrow>
    class \<in> {''read-only'', ''create'', ''mutate'', ''delete'', ''external-network'', ''admin''}"

definition AddCapability :: "annotations option \<Rightarrow> string \<Rightarrow> string \<Rightarrow> Violation option \<times> annotations option" where
  "AddCapability cmd class note =
    (case cmd of
       None \<Rightarrow> (Some (Violation ''cmd'' ReasonNilCommand), None)
     | Some anns \<Rightarrow>
         if \<not> IsCapability class then (Some (Violation ''class'' ReasonNotVocabulary), Some anns)
         else
           (let anns1 = anns(capabilityAnnotationKey \<mapsto> class); note' = trim_space note in
            if note' \<noteq> [] then (None, Some (anns1(capabilityNoteAnnotationKey \<mapsto> note')))
            else (None, Some (anns1(capabilityNoteAnnotationKey := None)))))"

definition anns_get :: "annotations \<Rightarrow> string \<Rightarrow> string" where
  "anns_get anns key = (case anns key of None \<Rightarrow> [] | Some v \<Rightarrow> v)"

definition CommandCapability :: "annotations \<Rightarrow> (string \<times> string) option" where
  "CommandCapability anns =
    (let class = anns_get anns capabilityAnnotationKey in
     if \<not> IsCapability class then None else Some (class, anns_get anns capabilityNoteAnnotationKey))"

section \<open>The public declarations\<close>

definition DeclareFlagEnum ::
  "(nat \<Rightarrow> bool) \<Rightarrow> 's store \<Rightarrow> flag_sets option \<Rightarrow> string \<Rightarrow> string list \<Rightarrow> ax_error option \<times> 's store" where
  "DeclareFlagEnum isprint st cmd flag vs =
    (case AddFlagEnum st cmd flag vs of (v, st') \<Rightarrow> (declarationError isprint KindFlagEnum flag v, st'))"

definition DeclareFlagExample ::
  "(nat \<Rightarrow> bool) \<Rightarrow> 'f parsers \<Rightarrow> 's store \<Rightarrow> flag_sets option \<Rightarrow> string \<Rightarrow> string \<Rightarrow> ax_error option \<times> 's store" where
  "DeclareFlagExample isprint env st cmd flag ex =
    (case AddFlagExample env st cmd flag ex of (v, st') \<Rightarrow> (declarationError isprint KindFlagExample flag v, st'))"

definition DeclareCapability ::
  "(nat \<Rightarrow> bool) \<Rightarrow> annotations option \<Rightarrow> string \<Rightarrow> string \<Rightarrow> ax_error option \<times> annotations option" where
  "DeclareCapability isprint cmd class note =
    (case AddCapability cmd class note of (v, cmd') \<Rightarrow> (declarationError isprint KindCapability class v, cmd'))"

section \<open>Reachable stores\<close>

text \<open>
  What a program does with its flags: it creates them, then declares enums and
  examples and sets values, in any order.
\<close>

definition fresh_flag :: "'s flag \<Rightarrow> bool" where
  "fresh_flag f \<longleftrightarrow> (\<exists>pv. f_Value f = Plain pv) \<and> f_Annotations f exampleAnnotationKey = []"

inductive flag_reach :: "'f parsers \<Rightarrow> 's store \<Rightarrow> bool" for env :: "'f parsers" where
  reach_init: "(\<And>a. fresh_flag (st a)) \<Longrightarrow> flag_reach env st"
| reach_enum: "flag_reach env st \<Longrightarrow> flag_reach env (snd (AddFlagEnum st cmd name vs))"
| reach_example: "flag_reach env st \<Longrightarrow> flag_reach env (snd (AddFlagExample env st cmd name ex))"
| reach_set: "flag_reach env st \<Longrightarrow> flag_reach env (st(a := snd (flag_Set (st a) v)))"

text \<open>Two texts are the same value of a flag type.\<close>

definition same_value :: "string \<Rightarrow> string \<Rightarrow> string \<Rightarrow> bool" where
  "same_value ty v w \<longleftrightarrow> (\<exists>c. CanonicalEnumValue ty v = Inr c \<and> CanonicalEnumValue ty w = Inr c)"

definition enum_ok :: "string \<Rightarrow> 's enumValue \<Rightarrow> bool" where
  "enum_ok def ev \<longleftrightarrow> e_flagType ev = pv_type (e_inner ev) \<and>
     collect_forms (e_flagType ev) [] (e_allowed ev) = Inr (e_canonical ev) \<and>
     defaultIsMember (e_flagType ev) (e_canonical ev) def"

definition flag_ok :: "'f parsers \<Rightarrow> 's flag \<Rightarrow> bool" where
  "flag_ok env f \<longleftrightarrow> (\<forall>ev. f_Value f = Enum ev \<longrightarrow> enum_ok (f_DefValue f) ev) \<and>
     (\<forall>ex. declaredExample f = Some ex \<longrightarrow> exampleProblem env f ex = None)"

lemma collect_forms_sound:
  assumes "collect_forms ty cs vs = Inr canonical" and "distinct cs"
  shows "canonical = cs @ enum_form.forms ty vs \<and> (\<forall>w \<in> set vs. canonical_option ty w \<noteq> None) \<and> distinct canonical"
  using assms
  by (induction ty cs vs rule: collect_forms.induct)
    (auto simp: enum_form.forms_def canonical_option_def split: sum.splits if_splits)

lemma canonical_option_Some: "canonical_option ty v = Some c \<longleftrightarrow> CanonicalEnumValue ty v = Inr c"
  by (auto simp: canonical_option_def split: sum.splits)

lemma isMember_iff:
  assumes "collect_forms ty [] vs = Inr canonical"
  shows "isMember ty canonical v \<longleftrightarrow> (\<exists>w \<in> set vs. same_value ty v w)"
proof -
  have c: "canonical = enum_form.forms ty vs" "\<forall>w \<in> set vs. canonical_option ty w \<noteq> None"
    using collect_forms_sound [OF assms] by auto
  have "isMember ty canonical v \<longleftrightarrow> (\<exists>c. canonical_option ty v = Some c \<and> c \<in> set (enum_form.forms ty vs))"
    by (auto simp: isMember_def canonical_option_Some c(1) split: sum.splits)
  also have "\<dots> \<longleftrightarrow> canonical_option ty v \<noteq> None \<and> (\<exists>w \<in> set vs. canonical_option ty w = canonical_option ty v)"
    by (rule enum_form.member_iff [OF c(2)])
  also have "\<dots> \<longleftrightarrow> (\<exists>w \<in> set vs. same_value ty v w)"
    unfolding same_value_def by (auto simp: canonical_option_Some [symmetric])
  finally show ?thesis .
qed

lemma pv_type_inner_Set [simp]: "pv_type (snd (inner_Set pv v)) = pv_type pv"
  by (simp add: inner_Set_def case_prod_beta)

lemma snd_enum_Set:
  "snd (enum_Set f ev v) =
    (if v = f_DefValue f \<or> isMember (e_flagType ev) (e_canonical ev) v
     then ev\<lparr>e_inner := snd (inner_Set (e_inner ev) v)\<rparr> else ev)"
  by (simp add: enum_Set_def case_prod_beta)

lemma snd_flag_Set:
  "snd (flag_Set f v) = f\<lparr>f_Value :=
    (case f_Value f of Plain pv \<Rightarrow> Plain (snd (inner_Set pv v)) | Enum ev \<Rightarrow> Enum (snd (enum_Set f ev v)))\<rparr>"
  by (simp add: flag_Set_def case_prod_beta split: flag_value.split)

lemma enum_Set_keeps [simp]:
  "e_flagType (snd (enum_Set f ev v)) = e_flagType ev" "e_allowed (snd (enum_Set f ev v)) = e_allowed ev"
  "e_canonical (snd (enum_Set f ev v)) = e_canonical ev" "pv_type (e_inner (snd (enum_Set f ev v))) = pv_type (e_inner ev)"
  by (simp_all add: snd_enum_Set)

lemma flag_Set_keeps [simp]:
  "f_DefValue (snd (flag_Set f v)) = f_DefValue f" "f_Annotations (snd (flag_Set f v)) = f_Annotations f"
  "value_Type (f_Value (snd (flag_Set f v))) = value_Type (f_Value f)"
  by (simp_all add: snd_flag_Set value_Type_def split: flag_value.split)

lemma declaredExample_cong: "f_Annotations f = f_Annotations g \<Longrightarrow> declaredExample f = declaredExample g"
  by (simp add: declaredExample_def)

lemma flag_ok_Set: "flag_ok env f \<Longrightarrow> flag_ok env (snd (flag_Set f v))"
  using declaredExample_cong [OF flag_Set_keeps(2), of f v]
  by (cases "f_Value f")
    (auto simp: flag_ok_def exampleProblem_def enum_ok_def Let_def snd_flag_Set value_Type_def)

lemma flag_ok_fresh: "fresh_flag f \<Longrightarrow> flag_ok env f"
  by (auto simp: fresh_flag_def flag_ok_def declaredExample_def)

text \<open>A successful enum declaration, with the wrapper created or updated.\<close>

definition with_enum :: "'s flag \<Rightarrow> string list \<Rightarrow> string list \<Rightarrow> 's flag" where
  "with_enum f vs canonical =
    f\<lparr>f_Value := Enum \<lparr>e_inner = value_inner (f_Value f), e_flagType = pv_type (value_inner (f_Value f)),
       e_allowed = vs, e_canonical = canonical\<rparr>\<rparr>"

lemma AddFlagEnum_cases:
  assumes "flag_ok env (st a)" and "lookupFlag cmd name = Inr a"
  shows "AddFlagEnum st cmd name vs =
    (case enum_violation (st a) vs of
       Inl v \<Rightarrow> (Some v, st)
     | Inr canonical \<Rightarrow> (None, st(a := with_enum (st a) vs canonical)))"
  using assms
  by (auto simp: AddFlagEnum_def Let_def with_enum_def flag_ok_def enum_ok_def split: sum.splits flag_value.splits)

lemma enum_violation_Inr:
  assumes "enum_violation f vs = Inr canonical"
  defines "ty \<equiv> pv_type (value_inner (f_Value f))"
  shows "collect_forms ty [] vs = Inr canonical" "defaultIsMember ty canonical (f_DefValue f)"
    "declaredExample f = Some ex \<Longrightarrow> isMember ty canonical ex" "vs \<noteq> []"
  using assms(1) unfolding ty_def
  by (auto simp: enum_violation_def Let_def split: if_splits sum.splits option.splits)

lemma flag_ok_with_enum:
  assumes "flag_ok env f" and "enum_violation f vs = Inr canonical"
  shows "flag_ok env (with_enum f vs canonical)"
proof -
  have "declaredExample (with_enum f vs canonical) = declaredExample f"
    by (rule declaredExample_cong) (simp add: with_enum_def)
  moreover have "exampleProblem env (with_enum f vs canonical) ex = None"
    if "exampleProblem env f ex = None" "isMember (pv_type (value_inner (f_Value f))) canonical ex" for ex
    using that by (auto simp: exampleProblem_def with_enum_def Let_def value_Type_def split: if_splits)
  ultimately show ?thesis
    using assms(1) enum_violation_Inr [OF assms(2)]
    by (simp add: flag_ok_def with_enum_def enum_ok_def)
qed

lemma exampleProblem_annotations [simp]:
  "exampleProblem env (f\<lparr>f_Annotations := an\<rparr>) ex = exampleProblem env f ex"
  by (simp add: exampleProblem_def Let_def split: flag_value.splits)

lemma declaredExample_upd [simp]:
  "ex \<noteq> [] \<Longrightarrow> declaredExample (f\<lparr>f_Annotations := (f_Annotations f)(exampleAnnotationKey := [ex])\<rparr>) = Some ex"
  by (simp add: declaredExample_def)

lemma AddFlagExample_cases:
  assumes "AddFlagExample env st cmd name ex = (v, st')"
  shows "(\<exists>viol. v = Some viol \<and> st' = st) \<or>
    (\<exists>a. v = None \<and> lookupFlag cmd name = Inr a \<and> ex \<noteq> [] \<and> exampleProblem env (st a) ex = None \<and>
       st' = st(a := (st a)\<lparr>f_Annotations := (f_Annotations (st a))(exampleAnnotationKey := [ex])\<rparr>))"
  using assms by (auto simp: AddFlagExample_def split: sum.splits if_splits option.splits)

lemma flag_reach_ok: "flag_reach env st \<Longrightarrow> flag_ok env (st a)"
proof (induction arbitrary: a rule: flag_reach.induct)
  case (reach_init st)
  then show ?case by (simp add: flag_ok_fresh)
next
  case (reach_enum st cmd name vs)
  show ?case
  proof (cases "lookupFlag cmd name")
    case (Inl v)
    then show ?thesis using reach_enum.IH by (simp add: AddFlagEnum_def)
  next
    case (Inr b)
    show ?thesis
      using reach_enum.IH [of a] flag_ok_with_enum [OF reach_enum.IH [of b]]
        AddFlagEnum_cases [where st = st and a = b and env = env and vs = vs, OF reach_enum.IH Inr]
      by (auto split: sum.splits)
  qed
next
  case (reach_example st cmd name ex)
  obtain v st' where st': "AddFlagExample env st cmd name ex = (v, st')" by fastforce
  show ?case
    using AddFlagExample_cases [OF st'] reach_example.IH st'
    by (auto simp: flag_ok_def)
next
  case (reach_set st b v)
  then show ?case by (simp add: flag_ok_Set)
qed


section \<open>Properties\<close>

lemma rejection_exit: "ErrorExitCode (Some (rejection f ev)) = ExitValidation"
  by (simp add: rejection_def as_error_def NewError_def option_defs ExitCode_def exit_defs)

text \<open>
  C9. In every store that declarations and value settings can reach, the enum
  \<^verbatim>\<open>__schema\<close> advertises for a flag is the one parsing enforces: a value reaches the
  flag exactly when it is the flag's default or equal, as a value of the type, to
  an advertised one; any other value leaves the flag untouched and yields one fixed
  error with exit code 2, so the error cannot carry the rejected text. A declared
  example is still advertised and is one of the allowed values.
\<close>

theorem advertised_enum_is_enforced:
  assumes "flag_reach env st" and "f_Value (st a) = Enum ev"
  shows "FlagEnum (st a) = Some (e_allowed ev) \<and>
    (\<exists>err. ErrorExitCode (Some err) = ExitValidation \<and>
      (\<forall>v. flag_Set (st a) v =
        (if v = f_DefValue (st a) \<or> (\<exists>w \<in> set (e_allowed ev). same_value (pv_type (e_inner ev)) v w)
         then (fst (inner_Set (e_inner ev) v), (st a)\<lparr>f_Value := Enum (ev\<lparr>e_inner := snd (inner_Set (e_inner ev) v)\<rparr>)\<rparr>)
         else (Some err, st a)))) \<and>
    (\<forall>ex. declaredExample (st a) = Some ex \<longrightarrow>
      FlagExample env (st a) = ex \<and> (\<exists>w \<in> set (e_allowed ev). same_value (pv_type (e_inner ev)) ex w))"
proof -
  have ok: "flag_ok env (st a)" using assms(1) by (rule flag_reach_ok)
  then have ev: "enum_ok (f_DefValue (st a)) ev" using assms(2) by (simp add: flag_ok_def)
  then have mem: "isMember (e_flagType ev) (e_canonical ev) v \<longleftrightarrow>
      (\<exists>w \<in> set (e_allowed ev). same_value (pv_type (e_inner ev)) v w)" for v
    using isMember_iff [of "e_flagType ev" "e_allowed ev" "e_canonical ev" v] by (auto simp: enum_ok_def)
  have "FlagEnum (st a) = Some (e_allowed ev)"
    using ev assms(2) by (auto simp: FlagEnum_def enum_ok_def)
  moreover have "flag_Set (st a) v =
      (if v = f_DefValue (st a) \<or> (\<exists>w \<in> set (e_allowed ev). same_value (pv_type (e_inner ev)) v w)
       then (fst (inner_Set (e_inner ev) v), (st a)\<lparr>f_Value := Enum (ev\<lparr>e_inner := snd (inner_Set (e_inner ev) v)\<rparr>)\<rparr>)
       else (Some (rejection (st a) ev), st a))" for v
    using assms(2) mem [of v] by (simp add: flag_Set_def enum_Set_def case_prod_beta)
  moreover have "FlagExample env (st a) = ex \<and> isMember (e_flagType ev) (e_canonical ev) ex"
    if "declaredExample (st a) = Some ex" for ex
    using ok that assms(2)
    by (auto simp: flag_ok_def FlagExample_def exampleProblem_def Let_def split: if_splits)
  ultimately show ?thesis using mem rejection_exit [of "st a" ev] by blast
qed

text \<open>
  Declarations are all or nothing. A refused enum or example leaves every
  flag as it was; an accepted enum is advertised exactly as given and an accepted
  example as given, and no other flag changes.
\<close>

theorem flag_declarations_all_or_nothing:
  assumes "flag_reach env st" and "AddFlagEnum st cmd name vs = (v, st1)" and "AddFlagExample env st cmd name ex = (u, st2)"
  shows "(v \<noteq> None \<longrightarrow> st1 = st) \<and> (u \<noteq> None \<longrightarrow> st2 = st) \<and>
    (v = None \<longrightarrow> (\<exists>a. lookupFlag cmd name = Inr a \<and> FlagEnum (st1 a) = Some vs \<and> (\<forall>b. b \<noteq> a \<longrightarrow> st1 b = st b))) \<and>
    (u = None \<longrightarrow> (\<exists>a. lookupFlag cmd name = Inr a \<and> FlagExample env (st2 a) = ex \<and> (\<forall>b. b \<noteq> a \<longrightarrow> st2 b = st b)))"
proof -
  have enum: "(v \<noteq> None \<longrightarrow> st1 = st) \<and>
      (v = None \<longrightarrow> (\<exists>a. lookupFlag cmd name = Inr a \<and> FlagEnum (st1 a) = Some vs \<and> (\<forall>b. b \<noteq> a \<longrightarrow> st1 b = st b)))"
  proof (cases "lookupFlag cmd name")
    case (Inl w)
    then show ?thesis using assms(2) by (auto simp: AddFlagEnum_def)
  next
    case (Inr a)
    note eq = AddFlagEnum_cases [where st = st and a = a and env = env and vs = vs, OF flag_reach_ok [OF assms(1)] Inr]
    have "FlagEnum (with_enum (st a) vs canonical) = Some vs" if "enum_violation (st a) vs = Inr canonical" for canonical
      using enum_violation_Inr(2) [OF that] by (simp add: FlagEnum_def with_enum_def)
    then show ?thesis using eq assms(2) Inr by (auto split: sum.splits)
  qed
  moreover have "FlagExample env (f\<lparr>f_Annotations := (f_Annotations f)(exampleAnnotationKey := [ex])\<rparr>) = ex"
    if "ex \<noteq> []" "exampleProblem env f ex = None" for f
    using that by (simp add: FlagExample_def)
  ultimately show ?thesis using AddFlagExample_cases [OF assms(3)] by auto
qed

definition level_flag :: "string flag" where
  "level_flag = \<lparr>f_Name = ''level'', f_DefValue = [],
     f_Value = Plain \<lparr>pv_type = ''int8'', pv_slice = False, pv_state = [], pv_set = (\<lambda>v _. (None, v))\<rparr>,
     f_Annotations = (\<lambda>_. [])\<rparr>"

definition level_cmd :: flag_sets where
  "level_cmd = \<lparr>fs_Flags = [''level'' \<mapsto> 0], fs_PersistentFlags = Map.empty\<rparr>"

definition level_store :: "string store" where
  "level_store = snd (AddFlagEnum (\<lambda>_. level_flag) (Some level_cmd) ''level'' [''1'', ''2''])"

lemma level_reach: "flag_reach sample_parsers (\<lambda>_. level_flag)"
  by (rule reach_init) (simp add: fresh_flag_def level_flag_def)

lemma level_enum: "collect_forms ''int8'' [] [''1'', ''2''] = Inr [''1'', ''2'']"
  by code_simp

lemma level_store_value:
  "f_Value (level_store 0) = Enum \<lparr>e_inner = \<lparr>pv_type = ''int8'', pv_slice = False, pv_state = [], pv_set = (\<lambda>v _. (None, v))\<rparr>,
     e_flagType = ''int8'', e_allowed = [''1'', ''2''], e_canonical = [''1'', ''2'']\<rparr>"
  "fst (AddFlagEnum (\<lambda>_. level_flag) (Some level_cmd) ''level'' [''1'', ''2'']) = None"
proof -
  have "CanonicalEnumValue ''int8'' ''0'' = Inr ''0''" by code_simp
  then have "enumTypeSupported \<lparr>pv_type = ''int8'', pv_slice = False, pv_state = [], pv_set = (\<lambda>v _. (None, v))\<rparr>"
    by (simp add: enumTypeSupported_def)
  then show "f_Value (level_store 0) = Enum \<lparr>e_inner = \<lparr>pv_type = ''int8'', pv_slice = False, pv_state = [], pv_set = (\<lambda>v _. (None, v))\<rparr>,
      e_flagType = ''int8'', e_allowed = [''1'', ''2''], e_canonical = [''1'', ''2'']\<rparr>"
    and "fst (AddFlagEnum (\<lambda>_. level_flag) (Some level_cmd) ''level'' [''1'', ''2'']) = None"
    by (simp_all add: level_store_def AddFlagEnum_def lookupFlag_def level_cmd_def level_flag_def enum_violation_def
        level_enum defaultIsMember_def declaredExample_def Let_def del: collect_forms.simps)
qed

theorem advertised_enum_is_enforced_witness:
  "FlagEnum (level_store 0) = Some [''1'', ''2'']"
proof -
  have "flag_reach sample_parsers level_store"
    unfolding level_store_def by (rule reach_enum [OF level_reach])
  from advertised_enum_is_enforced [where st = level_store and a = 0 and env = sample_parsers, OF this level_store_value(1)]
  show ?thesis by simp
qed

theorem flag_declarations_all_or_nothing_witness:
  "\<exists>a. lookupFlag (Some level_cmd) ''level'' = Inr a \<and> FlagEnum (level_store a) = Some [''1'', ''2'']"
proof -
  obtain u st2 where ex: "AddFlagExample sample_parsers (\<lambda>_. level_flag) (Some level_cmd) ''level'' ''1'' = (u, st2)"
    by fastforce
  have "AddFlagEnum (\<lambda>_. level_flag) (Some level_cmd) ''level'' [''1'', ''2''] = (None, level_store)"
    using level_store_value(2) by (simp add: level_store_def prod_eq_iff)
  from flag_declarations_all_or_nothing [OF level_reach this ex] show ?thesis by blast
qed

text \<open>
  A capability is stored exactly for the six classes of the vocabulary, and
  reading it back gives the class and the trimmed note, whatever was declared
  before; a refused class changes nothing, and no other annotation is touched.
\<close>

theorem capability_roundtrip:
  "case AddCapability (Some anns) cls nt of
     (None, cmd') \<Rightarrow> IsCapability cls \<and>
       (\<exists>anns'. cmd' = Some anns' \<and> CommandCapability anns' = Some (cls, trim_space nt) \<and>
         (\<forall>k. k \<noteq> capabilityAnnotationKey \<and> k \<noteq> capabilityNoteAnnotationKey \<longrightarrow> anns' k = anns k))
   | (Some v, cmd') \<Rightarrow> \<not> IsCapability cls \<and> cmd' = Some anns"
proof -
  have "capabilityAnnotationKey \<noteq> capabilityNoteAnnotationKey"
    by (simp add: capabilityAnnotationKey_def capabilityNoteAnnotationKey_def)
  then show ?thesis
    by (auto simp: AddCapability_def CommandCapability_def anns_get_def Let_def split: prod.splits)
qed

theorem capability_roundtrip_witness:
  "\<exists>anns'. snd (AddCapability (Some Map.empty) ''create'' ''x'') = Some anns' \<and> (\<exists>nt. CommandCapability anns' = Some (''create'', nt))"
  using capability_roundtrip [where anns = Map.empty and cls = "''create''" and nt = "''x''"]
  by (auto simp: IsCapability_def split: prod.splits option.splits)

end
