(* ===== verification/Mcp_Prompts.thy ===== *)
theory Mcp_Prompts
  imports Schema_Json
begin

text \<open>
  Serving prompts and resources: \<^verbatim>\<open>internal/mcpserver/prompts.go\<close>,
  \<^verbatim>\<open>resources.go\<close> and \<^verbatim>\<open>listorder.go\<close>. The SDK server is outside the model; the
  handlers and the list-order middleware are functions of the request. Go ranges
  over the argument map in an arbitrary order, so the handler takes the
  arguments as the list in which they are visited.
\<close>

section \<open>Prompts\<close>

definition maxPromptArgumentBytes :: nat where "maxPromptArgumentBytes = 64 * 2 ^ 10"
definition maxRenderedPromptBytes :: nat where "maxRenderedPromptBytes = 2 ^ 20"

text \<open>An invalid-params error of the protocol, by its message.\<close>

datatype params_error = InvalidParams string

definition declared_args :: "Prompt \<Rightarrow> (string \<rightharpoonup> bool)" where
  "declared_args prompt = map_of (rev (map (\<lambda>a. (a_Name a, a_Required a)) (p_Arguments prompt)))"

fun check_values :: "(nat \<Rightarrow> bool) \<Rightarrow> Prompt \<Rightarrow> (string \<times> string) list \<Rightarrow> params_error option" where
  "check_values isprint prompt [] = None"
| "check_values isprint prompt ((name, val) # rest) =
    (if declared_args prompt name = None then
       Some (InvalidParams (''unknown argument '' @ quote isprint (TruncateKey name) @ '' for prompt '' @
         quote isprint (p_Name prompt)))
     else if length val > maxPromptArgumentBytes then
       Some (InvalidParams (''argument '' @ quote isprint (TruncateKey name) @ '' for prompt '' @
         quote isprint (p_Name prompt) @ '' exceeds '' @ itoa (int maxPromptArgumentBytes) @ '' bytes''))
     else check_values isprint prompt rest)"

fun check_required :: "(nat \<Rightarrow> bool) \<Rightarrow> Prompt \<Rightarrow> (string \<rightharpoonup> string) \<Rightarrow> PromptArgument list \<Rightarrow> params_error option" where
  "check_required isprint prompt vals [] = None"
| "check_required isprint prompt vals (a # as) =
    (if a_Required a \<and> vals (a_Name a) = None then
       Some (InvalidParams (''missing required argument '' @ quote isprint (a_Name a) @ '' for prompt '' @
         quote isprint (p_Name prompt)))
     else check_required isprint prompt vals as)"

definition promptHandler ::
  "(nat \<Rightarrow> bool) \<Rightarrow> Prompt \<Rightarrow> (string \<times> string) list \<Rightarrow> params_error + string" where
  "promptHandler isprint prompt visited =
    (let vals = map_of visited in
     case check_values isprint prompt visited of
       Some e \<Rightarrow> Inl e
     | None \<Rightarrow>
         (case check_required isprint prompt vals (p_Arguments prompt) of
            Some e \<Rightarrow> Inl e
          | None \<Rightarrow>
              let size = RenderedLen (p_Template prompt) vals in
              if sint size > int maxRenderedPromptBytes then
                Inl (InvalidParams (''prompt '' @ quote isprint (p_Name prompt) @ '' would render '' @ itoa (sint size) @
                  '' bytes, over the '' @ itoa (int maxRenderedPromptBytes) @ ''-byte limit''))
              else Inr (RenderTemplate (p_Template prompt) vals)))"

section \<open>Resources\<close>

record resource_contents =
  rc_URI :: string
  rc_MIMEType :: string
  rc_Text :: string

definition staticResourceHandler :: "Resource \<Rightarrow> resource_contents" where
  "staticResourceHandler res = \<lparr>rc_URI = r_URI res, rc_MIMEType = r_MIMEType res, rc_Text = r_Content res\<rparr>"

section \<open>List order\<close>

definition rankOf :: "string list \<Rightarrow> string \<Rightarrow> nat" where
  "rankOf ks k = (case map_of (rev (zip ks [0..<length ks])) k of None \<Rightarrow> 0 | Some i \<Rightarrow> i)"

text \<open>\<^verbatim>\<open>slices.SortStableFunc\<close> by the difference of ranks is a stable sort on the rank.\<close>

definition sortByRank :: "('a \<Rightarrow> string) \<Rightarrow> (string \<Rightarrow> nat) \<Rightarrow> 'a list \<Rightarrow> 'a list" where
  "sortByRank key rank items = sort_key (\<lambda>x. rank (key x)) items"

section \<open>Lemmas\<close>

lemma declared_args_dom: "declared_args p n = None \<longleftrightarrow> n \<notin> a_Name ` set (p_Arguments p)"
  by (auto simp: declared_args_def map_of_eq_None_iff image_image)

lemma check_values_None:
  "check_values pr p vis = None \<longleftrightarrow>
     (\<forall>(n, v) \<in> set vis. n \<in> a_Name ` set (p_Arguments p) \<and> length v \<le> 65536)"
  by (induction pr p vis rule: check_values.induct)
    (auto simp: declared_args_dom maxPromptArgumentBytes_def)

lemma check_required_None:
  "check_required pr p vals as = None \<longleftrightarrow> (\<forall>a \<in> set as. a_Required a \<longrightarrow> vals (a_Name a) \<noteq> None)"
  by (induction pr p vals as rule: check_required.induct) auto

lemma visits_ok_count: "visits_ok t pos vs \<Longrightarrow> length vs \<le> length t - pos"
  by (induction t pos vs rule: visits_ok.induct) auto

lemma sum_list_bound:
  fixes f :: "'a \<Rightarrow> int"
  shows "(\<forall>x \<in> set xs. f x \<le> b) \<Longrightarrow> (\<Sum>x \<leftarrow> xs. f x) \<le> int (length xs) * b"
  by (induction xs) (auto simp: algebra_simps)

lemma RenderTemplate_length_bound:
  assumes "\<And>n. length (lookup_or_empty vals n) \<le> m"
  shows "length (RenderTemplate t vals) \<le> length t + length t * m"
proof -
  let ?vs = "scanPlaceholders t"
  have "(\<Sum>(start, stop, n) \<leftarrow> ?vs. int (length (lookup_or_empty vals n)) - int (stop - start)) \<le> int (length ?vs) * int m"
    using assms by (intro sum_list_bound) (auto simp: le_diff_eq intro: order_trans [OF diff_left_mono [of 0]])
  also have "\<dots> \<le> int (length t) * int m"
    using visits_ok_count [OF visits_ok_scan [of t]] by (intro mult_right_mono) auto
  finally have "int (length (RenderTemplate t vals)) \<le> int (length t) + int (length t) * int m"
    by (simp add: length_RenderTemplate)
  then show ?thesis by (metis of_nat_add of_nat_le_iff of_nat_mult)
qed

text \<open>For a valid prompt and bounded values the \<^verbatim>\<open>int64\<close> length cannot overflow.\<close>

lemma RenderedLen_exact:
  assumes "prompt_ok p" and "\<forall>(n, v) \<in> set vis. length v \<le> 65536"
  shows "sint (RenderedLen (p_Template p) (map_of vis)) = int (length (RenderTemplate (p_Template p) (map_of vis)))"
proof -
  let ?t = "p_Template p"
  have t: "length ?t \<le> 65536" using assms(1) by (simp add: prompt_ok_def)
  have "length (lookup_or_empty (map_of vis) n) \<le> 65536" for n
    using assms(2) by (auto simp: lookup_or_empty_def dest!: map_of_SomeD split: option.split)
  then have "length (RenderTemplate ?t (map_of vis)) \<le> length ?t + length ?t * 65536"
    by (rule RenderTemplate_length_bound)
  then have "int (length (RenderTemplate ?t (map_of vis))) < 2 ^ 63" using t by simp
  moreover have "RenderedLen ?t (map_of vis) = word_of_int (int (length (RenderTemplate ?t (map_of vis))))"
    by (simp only: RenderedLen_sum length_RenderTemplate)
  ultimately show ?thesis by (simp only: sint_word_of_int_small of_nat_0_le_iff)
qed

lemma rankOf_nth:
  assumes "distinct ks" and "i < length ks"
  shows "rankOf ks (ks ! i) = i"
proof -
  let ?z = "rev (zip ks [0..<length ks])"
  have "distinct (map fst ?z)" using assms(1) by (simp add: rev_map [symmetric])
  moreover have "(ks ! i, i) \<in> set ?z" using assms(2) by (auto simp: set_zip)
  ultimately have "map_of ?z (ks ! i) = Some i" by simp
  then show ?thesis by (simp add: rankOf_def)
qed

lemma map_rankOf: "distinct ks \<Longrightarrow> map (rankOf ks) ks = [0..<length ks]"
  by (rule nth_equalityI) (simp_all add: rankOf_nth)

lemma inj_on_rankOf: "distinct ks \<Longrightarrow> inj_on (rankOf ks) (set ks)"
  using map_rankOf [of ks] distinct_map [of "rankOf ks" ks] by simp

section \<open>Properties\<close>

text \<open>
  C16. A prompt is rendered exactly when every given argument is declared and at
  most 64 KiB, every required one is given, and the rendered text is at most
  1 MiB; the text is then the rendered template. In particular the answer does
  not depend on the order in which the arguments are visited, no response is
  larger than 1 MiB, and the 64-bit size check cannot be fooled by overflow.
\<close>

theorem promptHandler_renders_iff:
  assumes "ValidatePrompt p = None"
  shows "promptHandler pr p visited = Inr text_out \<longleftrightarrow>
    (\<forall>(n, v) \<in> set visited. n \<in> a_Name ` set (p_Arguments p) \<and> length v \<le> 65536) \<and>
    (\<forall>a \<in> set (p_Arguments p). a_Required a \<longrightarrow> a_Name a \<in> fst ` set visited) \<and>
    length text_out \<le> 1048576 \<and> text_out = RenderTemplate (p_Template p) (map_of visited)"
proof (cases "check_values pr p visited = None")
  case True
  then have vals: "\<forall>(n, v) \<in> set visited. n \<in> a_Name ` set (p_Arguments p) \<and> length v \<le> 65536"
    by (simp only: check_values_None)
  then have "\<forall>(n, v) \<in> set visited. length v \<le> 65536" by auto
  with assms have exact: "sint (RenderedLen (p_Template p) (map_of visited)) =
      int (length (RenderTemplate (p_Template p) (map_of visited)))"
    by (intro RenderedLen_exact) (simp add: ValidatePrompt_None)
  have req: "check_required pr p (map_of visited) (p_Arguments p) = None \<longleftrightarrow>
      (\<forall>a \<in> set (p_Arguments p). a_Required a \<longrightarrow> a_Name a \<in> fst ` set visited)"
    by (auto simp: check_required_None map_of_eq_None_iff)
  show ?thesis
    using True vals exact
    by (cases "check_required pr p (map_of visited) (p_Arguments p)")
      (auto simp: promptHandler_def req [symmetric] maxRenderedPromptBytes_def Let_def)
next
  case False
  then obtain e where "check_values pr p visited = Some e" by blast
  then have "promptHandler pr p visited = Inl e" by (simp add: promptHandler_def Let_def)
  with False show ?thesis unfolding check_values_None by auto
qed

theorem promptHandler_renders_iff_witness:
  "promptHandler (\<lambda>_. True) sample_prompt [(''who'', ''{{who}}'')] = Inr ''Hello {{who}}''"
proof -
  have "RenderTemplate ''Hello {{who}}'' [''who'' \<mapsto> ''{{who}}''] = ''Hello {{who}}''" by code_simp
  then show ?thesis
    using promptHandler_renders_iff [of sample_prompt "\<lambda>_. True" "[(''who'', ''{{who}}'')]" "''Hello {{who}}''"]
      sample_prompt_ok by (simp add: ValidatePrompt_None) (simp add: sample_prompt_def)
qed

text \<open>
  A listing that holds the declared keys in any order, such as the SDK's
  sorted page, is put back into declaration order.
\<close>

theorem sortByRank_restores_order:
  assumes "distinct ks" and "mset (map key items) = mset ks"
  shows "map key (sortByRank key (rankOf ks) items) = ks"
proof -
  let ?L = "map key (sortByRank key (rankOf ks) items)"
  have mset: "mset ?L = mset ks" using assms(2) by (simp add: sortByRank_def)
  then have "set ?L = set ks" by (rule mset_eq_setD)
  with assms(1) have inj: "inj_on (rankOf ks) (set ?L)" by (simp add: inj_on_rankOf)
  have "sorted (map (rankOf ks) ?L)"
    using sorted_sort_key [of "\<lambda>x. rankOf ks (key x)" items] by (simp add: sortByRank_def comp_def)
  with inj have "sort_key (rankOf ks) ?L = ?L" by (intro sort_key_inj_key_eq) auto
  moreover have "sort_key (rankOf ks) ?L = ks"
    using assms(1) mset inj by (intro sort_key_inj_key_eq) (auto simp: map_rankOf)
  ultimately show ?thesis by simp
qed

theorem sortByRank_restores_order_witness:
  "map id (sortByRank id (rankOf [''zeta'', ''alpha'']) [''alpha'', ''zeta'']) = [''zeta'', ''alpha'']"
  by (rule sortByRank_restores_order) simp_all

end
