(* ===== verification/Ax_Config.thy ===== *)
theory Ax_Config
  imports Ax_Contract
begin

text \<open>
  Configuration files: \<^verbatim>\<open>internal/config/config.go\<close> (bounded reading, decoding,
  patching) and \<^verbatim>\<open>config/config.go\<close> (options, error normalisation, atomic
  replacement). A reader is a state with a \<^verbatim>\<open>Read\<close> function; its contract is the
  locale \<^verbatim>\<open>reader\<close>, interpreted on the file reader that \<^verbatim>\<open>ParseFile\<close> and
  \<^verbatim>\<open>PatchFile\<close> use. The Hujson library and \<^verbatim>\<open>json.Unmarshal\<close> are arguments. The
  file system is a map from paths to contents and modes, with a record that says
  which system call fails.
\<close>

section \<open>Bounded reading\<close>

definition readChunkSize :: nat where "readChunkSize = 32 * 1024"
definition DefaultMaxBytes :: int where "DefaultMaxBytes = 2 ^ 20"
definition MaxBytesCeiling :: int where "MaxBytesCeiling = MaxConfigBytesCeiling"

type_synonym 'r read_fun = "'r \<Rightarrow> nat \<Rightarrow> string \<times> go_error option \<times> 'r"

lemma read_shrinks:
  "bs \<noteq> [] \<Longrightarrow> \<not> m < length acc + length bs \<Longrightarrow> Suc m - (length acc + length bs) < Suc m - length acc"
  by (cases bs) auto

text \<open>
  The loop of \<^verbatim>\<open>ReadBounded\<close>: \<^term>\<open>i\<close> counts the iterations, at which
  \<^verbatim>\<open>ctx.Err()\<close> is \<^term>\<open>ctx_err i\<close>.
\<close>

function read_loop ::
  "(nat \<Rightarrow> go_error option) \<Rightarrow> 'r read_fun \<Rightarrow> nat \<Rightarrow> nat \<Rightarrow> string \<Rightarrow> 'r \<Rightarrow> (go_error + string) \<times> 'r" where
  "read_loop ctx_err reads maxBytes i acc r =
    (if \<not> length acc < maxBytes + 1 then (Inr acc, r)
     else
       (case ctx_err i of
          Some e \<Rightarrow> (Inl (WrapError ''read config'' e), r)
        | None \<Rightarrow>
            let remaining = maxBytes + 1 - length acc;
                want = (if remaining < readChunkSize then remaining else readChunkSize)
            in (case reads r want of (bs, err, r') \<Rightarrow>
                  let acc' = acc @ bs in
                  if length acc' > maxBytes then (Inl (TooLargeError (int maxBytes)), r')
                  else
                    (case err of
                       Some e \<Rightarrow>
                         if e = EOF then (Inr acc', r')
                         else (Inl (WrapError ''read config source'' e), r')
                     | None \<Rightarrow>
                         if bs = [] then (Inl (WrapError ''read config source'' ErrNoProgress), r')
                         else read_loop ctx_err reads maxBytes (Suc i) acc' r'))))"
  by pat_completeness auto
termination
  by (relation "measure (\<lambda>(_, _, maxBytes, _, acc, _). maxBytes + 1 - length acc)") (auto simp: read_shrinks)

declare read_loop.simps [simp del]

definition ReadBounded ::
  "(nat \<Rightarrow> go_error option) \<Rightarrow> 'r read_fun \<Rightarrow> int \<Rightarrow> 'r \<Rightarrow> (go_error + string) \<times> 'r" where
  "ReadBounded ctx_err reads maxBytes r =
    (if maxBytes < 0 \<or> maxBytes > MaxConfigBytesCeiling then (Inl (InvalidMaxBytesError maxBytes), r)
     else read_loop ctx_err reads (nat maxBytes) 0 [] r)"

definition want_bytes :: "nat \<Rightarrow> string \<Rightarrow> nat" where
  "want_bytes m acc = min (m + 1 - length acc) readChunkSize"

lemma want_bytes_bounds: "length acc \<le> m \<Longrightarrow> 0 < want_bytes m acc \<and> length acc + want_bytes m acc \<le> m + 1"
  by (auto simp: want_bytes_def readChunkSize_def)

lemma read_loop_step:
  assumes "length acc \<le> m" and "ctx_err i = None" and "reads r (want_bytes m acc) = (bs, err, r1)"
  shows "read_loop ctx_err reads m i acc r =
    (if length (acc @ bs) > m then (Inl (TooLargeError (int m)), r1)
     else case err of
       Some e \<Rightarrow> if e = EOF then (Inr (acc @ bs), r1) else (Inl (WrapError ''read config source'' e), r1)
     | None \<Rightarrow> if bs = [] then (Inl (WrapError ''read config source'' ErrNoProgress), r1)
         else read_loop ctx_err reads m (Suc i) (acc @ bs) r1)"
proof -
  have w: "(if m + 1 - length acc < readChunkSize then m + 1 - length acc else readChunkSize) = want_bytes m acc"
    by (simp add: want_bytes_def min_def)
  show ?thesis
    using assms by (subst read_loop.simps) (simp only: w Let_def, simp add: less_Suc_eq_le)
qed

lemma read_loop_cancelled:
  "length acc \<le> m \<Longrightarrow> ctx_err i = Some e \<Longrightarrow>
   read_loop ctx_err reads m i acc r = (Inl (WrapError ''read config'' e), r)"
  by (subst read_loop.simps) simp

text \<open>
  The contract of \<^verbatim>\<open>io.Reader\<close> that callers may rely on: a read delivers the next
  bytes of the source, at most as many as asked for, and reports \<^verbatim>\<open>EOF\<close> only at
  the end.
\<close>

locale reader =
  fixes reads :: "'r read_fun" and rest :: "'r \<Rightarrow> string"
  assumes read_delivers: "reads r k = (bs, err, r') \<Longrightarrow> rest r = bs @ rest r'"
    and read_at_most: "reads r k = (bs, err, r') \<Longrightarrow> length bs \<le> k"
    and read_eof: "reads r k = (bs, Some EOF, r') \<Longrightarrow> rest r' = []"
begin

lemma read_loop_sound:
  "length acc \<le> m \<Longrightarrow> read_loop ctx_err reads m i acc r = (res, r') \<Longrightarrow>
   (\<forall>out. res = Inr out \<longrightarrow> out = acc @ rest r \<and> length out \<le> m) \<and>
   (\<exists>bs. rest r = bs @ rest r' \<and> length acc + length bs \<le> m + 1)"
proof (induction "m + 1 - length acc" arbitrary: i acc r rule: less_induct)
  case less
  show ?case
  proof (cases "ctx_err i")
    case None
    obtain bs err r1 where rd: "reads r (want_bytes m acc) = (bs, err, r1)" by (metis prod_cases3)
    have del: "rest r = bs @ rest r1" and le: "length acc + length bs \<le> m + 1"
      using read_delivers [OF rd] read_at_most [OF rd] want_bytes_bounds [OF less.prems(1)] by auto
    note step = read_loop_step [where reads = reads and ctx_err = ctx_err and i = i, OF less.prems(1) None rd]
    show ?thesis
    proof (cases "length (acc @ bs) > m \<or> err \<noteq> None \<or> bs = []")
      case True
      then show ?thesis
        using step less.prems(2) del le read_eof [of r "want_bytes m acc" bs r1] rd
        by (auto split: if_splits option.splits)
    next
      case False
      then have "read_loop ctx_err reads m (Suc i) (acc @ bs) r1 = (res, r')"
        using step less.prems(2) by simp
      then have "(\<forall>out. res = Inr out \<longrightarrow> out = (acc @ bs) @ rest r1 \<and> length out \<le> m) \<and>
          (\<exists>bs'. rest r1 = bs' @ rest r' \<and> length (acc @ bs) + length bs' \<le> m + 1)"
        using False less.prems(1) by (intro less.hyps) (auto simp: read_shrinks)
      then show ?thesis using del by auto
    qed
  next
    case (Some e)
    then show ?thesis using less.prems by (auto simp: read_loop_cancelled)
  qed
qed

lemma ReadBounded_sound:
  assumes "ReadBounded ctx_err reads m r = (res, r')"
  shows "(\<forall>out. res = Inr out \<longrightarrow> out = rest r \<and> int (length out) \<le> m) \<and>
    (\<exists>bs. rest r = bs @ rest r' \<and> int (length bs) \<le> max 0 (m + 1))"
proof (cases "m < 0 \<or> m > MaxConfigBytesCeiling")
  case True
  then show ?thesis using assms by (auto simp: ReadBounded_def)
next
  case False
  then have "read_loop ctx_err reads (nat m) 0 [] r = (res, r')" using assms by (simp add: ReadBounded_def)
  from read_loop_sound [OF _ this] have
    out: "\<forall>out. res = Inr out \<longrightarrow> out = rest r \<and> length out \<le> nat m" and
    used: "\<exists>bs. rest r = bs @ rest r' \<and> length bs \<le> nat m + 1" by auto
  have "int (length out) \<le> m" if "length out \<le> nat m" for out :: string using that False by linarith
  moreover have "int (length bs) \<le> max 0 (m + 1)" if "length bs \<le> nat m + 1" for bs :: string
    using that False by linarith
  ultimately show ?thesis using out used by blast
qed

end

text \<open>A reader that never fails and always makes progress, such as a regular file.\<close>

locale reliable_reader = reader +
  assumes read_progress: "reads r k = (bs, err, r') \<Longrightarrow> 0 < k \<Longrightarrow> err = Some EOF \<or> (err = None \<and> bs \<noteq> [])"
begin

lemma read_loop_complete:
  assumes "\<And>i. ctx_err i = None"
  shows "length acc \<le> m \<Longrightarrow> fst (read_loop ctx_err reads m i acc r) =
    (if length acc + length (rest r) \<le> m then Inr (acc @ rest r) else Inl (TooLargeError (int m)))"
proof (induction "m + 1 - length acc" arbitrary: i acc r rule: less_induct)
  case less
  obtain bs err r1 where rd: "reads r (want_bytes m acc) = (bs, err, r1)" by (metis prod_cases3)
  have del: "rest r = bs @ rest r1" using read_delivers [OF rd] .
  have pr: "err = Some EOF \<or> (err = None \<and> bs \<noteq> [])"
    using read_progress [OF rd] want_bytes_bounds [OF less.prems] by simp
  note step = read_loop_step [where reads = reads and ctx_err = ctx_err and i = i, OF less.prems assms rd]
  show ?case
  proof (cases "length (acc @ bs) > m")
    case True
    then show ?thesis using step del by simp
  next
    case False
    show ?thesis
    proof (cases "err = Some EOF")
      case True
      then show ?thesis using step False del read_eof rd by simp
    next
      case no_eof: False
      then have "fst (read_loop ctx_err reads m (Suc i) (acc @ bs) r1) =
          (if length (acc @ bs) + length (rest r1) \<le> m then Inr ((acc @ bs) @ rest r1) else Inl (TooLargeError (int m)))"
        using False pr less.prems by (intro less.hyps) (auto simp: read_shrinks)
      then show ?thesis using step False no_eof pr del by (simp add: add.assoc)
    qed
  qed
qed

lemma ReadBounded_complete:
  assumes "\<And>i. ctx_err i = None" and "0 \<le> m" and "m \<le> MaxConfigBytesCeiling"
  shows "fst (ReadBounded ctx_err reads m r) =
    (if int (length (rest r)) \<le> m then Inr (rest r) else Inl (TooLargeError m))"
  using assms read_loop_complete [of ctx_err "[]" "nat m" 0 r] by (auto simp: ReadBounded_def)

end

text \<open>The reader of an open regular file: its state is what has not been read yet.\<close>

definition file_read :: "string read_fun" where
  "file_read r k = (if r = [] then ([], Some EOF, r) else (take k r, None, drop k r))"

interpretation os_file: reliable_reader file_read id
  by unfold_locales (auto simp: file_read_def split: if_splits)

section \<open>Decoding and patching\<close>

text \<open>
  The Hujson library as the sources use it: parse a document, standardise it to
  strict JSON, pack it to bytes, apply a patch to it, format it.
\<close>

record 'ast hujson =
  hj_parse :: "string \<Rightarrow> go_error + 'ast"
  hj_standardize :: "'ast \<Rightarrow> 'ast"
  hj_pack :: "'ast \<Rightarrow> string"
  hj_patch :: "'ast \<Rightarrow> string \<Rightarrow> go_error + 'ast"
  hj_format :: "'ast \<Rightarrow> 'ast"

text \<open>\<^verbatim>\<open>Unmarshal\<close>, with \<^verbatim>\<open>json.Unmarshal\<close> into the destination as an argument.\<close>

definition Unmarshal :: "'ast hujson \<Rightarrow> (string \<Rightarrow> go_error + 'dst) \<Rightarrow> string \<Rightarrow> go_error + 'dst" where
  "Unmarshal hj decode doc =
    (case hj_parse hj doc of
       Inl e \<Rightarrow> Inl (WrapError ''parse hujson'' e)
     | Inr v \<Rightarrow>
         (case decode (hj_pack hj (hj_standardize hj v)) of
            Inl e \<Rightarrow> Inl (WrapError ''unmarshal config'' e)
          | Inr d \<Rightarrow> Inr d))"

definition internal_Patch :: "'ast hujson \<Rightarrow> string \<Rightarrow> string \<Rightarrow> go_error + string" where
  "internal_Patch hj doc patch =
    (case hj_parse hj doc of
       Inl e \<Rightarrow> Inl (HujsonParseError e)
     | Inr ast \<Rightarrow>
         (case hj_patch hj ast patch of
            Inl e \<Rightarrow> Inl (PatchApplyError e)
          | Inr ast' \<Rightarrow> Inr (hj_pack hj (hj_format hj ast'))))"

section \<open>Options and error normalisation\<close>

text \<open>An option is a change of the byte limit; \<^term>\<open>None\<close> is a nil option.\<close>

definition WithMaxBytes :: "int \<Rightarrow> (int \<Rightarrow> int) option" where
  "WithMaxBytes n = Some (\<lambda>_. n)"

definition option_error :: "gctx \<Rightarrow> go_error" where
  "option_error ctx = as_error (NewError (Some ctx) ErrorCodeConfigOptionInvalid ''config parse option must not be nil''
     [WithActionableFix ''remove nil ParseConfigOption values before parsing config'',
      WithErrorExitCode ExitValidation])"

fun apply_options :: "gctx \<Rightarrow> (int \<Rightarrow> int) option list \<Rightarrow> int \<Rightarrow> go_error + int" where
  "apply_options ctx [] m = Inr m"
| "apply_options ctx (None # opts) m = Inl (option_error ctx)"
| "apply_options ctx (Some f # opts) m = apply_options ctx opts (f m)"

definition applyOptions :: "gctx \<Rightarrow> (int \<Rightarrow> int) option list \<Rightarrow> go_error + int" where
  "applyOptions ctx opts = apply_options ctx opts DefaultMaxBytes"

definition is_invalid_max :: "go_error \<Rightarrow> bool" where
  "is_invalid_max e = (case e of InvalidMaxBytesError _ \<Rightarrow> True | _ \<Rightarrow> False)"
definition is_too_large :: "go_error \<Rightarrow> bool" where
  "is_too_large e = (case e of TooLargeError _ \<Rightarrow> True | _ \<Rightarrow> False)"
definition is_invalid_unmarshal :: "go_error \<Rightarrow> bool" where
  "is_invalid_unmarshal e = (case e of InvalidUnmarshalError _ \<Rightarrow> True | _ \<Rightarrow> False)"
definition is_hujson_parse :: "go_error \<Rightarrow> bool" where
  "is_hujson_parse e = (case e of HujsonParseError _ \<Rightarrow> True | _ \<Rightarrow> False)"
definition is_patch_apply :: "go_error \<Rightarrow> bool" where
  "is_patch_apply e = (case e of PatchApplyError _ \<Rightarrow> True | _ \<Rightarrow> False)"

lemmas is_type_defs = is_invalid_max_def is_too_large_def is_invalid_unmarshal_def is_hujson_parse_def is_patch_apply_def

definition normalizeReadError :: "gctx \<Rightarrow> go_error \<Rightarrow> go_error" where
  "normalizeReadError ctx err =
    (case errors_as is_invalid_max err of
       Some (InvalidMaxBytesError n) \<Rightarrow>
         as_error (NewError (Some ctx) ErrorCodeConfigMaxBytesInvalid
           (''config max bytes must be between 0 and '' @ itoa MaxBytesCeiling)
           [WithActionableFix ''set a config byte limit between 0 and MaxConfigBytesCeiling'',
            WithErrorContext [(''max_bytes'', IntVal n)], WithErrorExitCode ExitValidation])
     | _ \<Rightarrow>
         (case errors_as is_too_large err of
            Some (TooLargeError n) \<Rightarrow>
              as_error (NewError (Some ctx) ErrorCodeConfigTooLarge
                (''config exceeds maximum size of '' @ itoa n @ '' bytes'')
                [WithActionableFix ''reduce the config size or raise the limit with WithMaxConfigBytes'',
                 WithErrorContext [(''max_bytes'', IntVal n)], WithErrorExitCode ExitValidation])
          | _ \<Rightarrow> err))"

definition normalizeDecodeError :: "gctx \<Rightarrow> go_error \<Rightarrow> go_error" where
  "normalizeDecodeError ctx err =
    (case errors_as is_invalid_unmarshal err of
       Some _ \<Rightarrow> err
     | None \<Rightarrow>
         as_error (NewError (Some ctx) ErrorCodeConfigInvalid
           ''config is not valid Hujson or does not match the expected schema''
           [WithActionableFix ''fix the config syntax or field types and retry'',
            WithErrorCause (Some err), WithErrorExitCode ExitValidation]))"

definition normalizePatchError :: "gctx \<Rightarrow> go_error \<Rightarrow> go_error" where
  "normalizePatchError ctx err =
    (case errors_as is_hujson_parse err of
       Some (HujsonParseError inner) \<Rightarrow>
         as_error (NewError (Some ctx) ErrorCodeConfigInvalid ''config is not valid Hujson''
           [WithActionableFix ''fix the config syntax and retry'',
            WithErrorCause (Some inner), WithErrorExitCode ExitValidation])
     | _ \<Rightarrow>
         (case errors_as is_patch_apply err of
            Some (PatchApplyError inner) \<Rightarrow>
              as_error (NewError (Some ctx) ErrorCodeConfigPatchInvalid
                ''config patch is not a valid RFC 6902 document or a patch operation failed''
                [WithActionableFix ''verify the patch document is a valid RFC 6902 JSON array and all target paths exist'',
                 WithErrorCause (Some inner), WithErrorExitCode ExitValidation])
          | _ \<Rightarrow> err))"

section \<open>Parse and Patch\<close>

definition Parse ::
  "'ast hujson \<Rightarrow> (string \<Rightarrow> go_error + 'dst) \<Rightarrow> (nat \<Rightarrow> go_error option) \<Rightarrow> 'r read_fun \<Rightarrow>
   gctx option \<Rightarrow> 'r \<Rightarrow> (int \<Rightarrow> int) option list \<Rightarrow> go_error + 'dst" where
  "Parse hj decode ctx_err reads ctx0 r opts =
    (let ctx = or_background ctx0 in
     case applyOptions ctx opts of
       Inl e \<Rightarrow> Inl e
     | Inr m \<Rightarrow>
         (case fst (ReadBounded ctx_err reads m r) of
            Inl e \<Rightarrow> Inl (normalizeReadError ctx e)
          | Inr doc \<Rightarrow>
              (case Unmarshal hj decode doc of
                 Inl e \<Rightarrow> Inl (normalizeDecodeError ctx e)
               | Inr d \<Rightarrow> Inr d)))"

definition Patch ::
  "'ast hujson \<Rightarrow> (nat \<Rightarrow> go_error option) \<Rightarrow> 'r read_fun \<Rightarrow>
   gctx option \<Rightarrow> 'r \<Rightarrow> string \<Rightarrow> (int \<Rightarrow> int) option list \<Rightarrow> go_error + string" where
  "Patch hj ctx_err reads ctx0 r patch opts =
    (let ctx = or_background ctx0 in
     case applyOptions ctx opts of
       Inl e \<Rightarrow> Inl e
     | Inr m \<Rightarrow>
         (case fst (ReadBounded ctx_err reads m r) of
            Inl e \<Rightarrow> Inl (normalizeReadError ctx e)
          | Inr doc \<Rightarrow>
              (case internal_Patch hj doc patch of
                 Inl e \<Rightarrow> Inl (normalizePatchError ctx e)
               | Inr out \<Rightarrow> Inr out)))"

section \<open>Files\<close>

type_synonym fs = "string \<rightharpoonup> string \<times> nat"

text \<open>
  What the system calls on one file do: \<^term>\<open>None\<close> is success. A failing
  write may have written a prefix; \<^verbatim>\<open>remove_fails\<close> says whether the clean-up of the
  temporary file fails.
\<close>

record faults =
  stat_err :: "go_error option"
  open_err :: "go_error option"
  create_err :: "go_error option"
  write_err :: "(nat \<times> go_error) option"
  chmod_err :: "go_error option"
  close_err :: "go_error option"
  rename_err :: "go_error option"
  remove_fails :: bool

definition writeAndClose :: "faults \<Rightarrow> string \<Rightarrow> string \<Rightarrow> nat \<Rightarrow> fs \<Rightarrow> go_error option \<times> fs" where
  "writeAndClose fl tmp contents mode f =
    (case write_err fl of
       Some (n, e) \<Rightarrow> (Some (WrapError ''write temp file'' e), f(tmp \<mapsto> (take n contents, 384)))
     | None \<Rightarrow>
         (case chmod_err fl of
            Some e \<Rightarrow> (Some (WrapError ''chmod temp file'' e), f(tmp \<mapsto> (contents, 384)))
          | None \<Rightarrow>
              (case close_err fl of
                 Some e \<Rightarrow> (Some (WrapError (''close temp file '' @ tmp) e), f(tmp \<mapsto> (contents, mode)))
               | None \<Rightarrow> (None, f(tmp \<mapsto> (contents, mode))))))"

definition remove_tmp :: "faults \<Rightarrow> string \<Rightarrow> fs \<Rightarrow> fs" where
  "remove_tmp fl tmp f = (if remove_fails fl then f else f(tmp := None))"

text \<open>
  \<^verbatim>\<open>atomicWriteFile\<close>. \<^term>\<open>tmp\<close> is the name \<^verbatim>\<open>os.CreateTemp\<close> picked; a new
  temporary file has mode 0600, which is 384.
\<close>

definition atomicWriteFile :: "faults \<Rightarrow> string \<Rightarrow> string \<Rightarrow> string \<Rightarrow> nat \<Rightarrow> fs \<Rightarrow> go_error option \<times> fs" where
  "atomicWriteFile fl tmp path contents mode f =
    (case create_err fl of
       Some e \<Rightarrow> (Some (WrapError ''create temp file'' e), f)
     | None \<Rightarrow>
         (case writeAndClose fl tmp contents mode (f(tmp \<mapsto> ([], 384))) of
            (Some e, f1) \<Rightarrow> (Some e, remove_tmp fl tmp f1)
          | (None, f1) \<Rightarrow>
              (case rename_err fl of
                 Some e \<Rightarrow> (Some (WrapError ''rename temp file'' e), remove_tmp fl tmp f1)
               | None \<Rightarrow> (None, (f1(path := f1 tmp))(tmp := None)))))"

definition not_exist :: go_error where
  "not_exist = TextError ''file does not exist''"

definition os_stat :: "faults \<Rightarrow> string \<Rightarrow> fs \<Rightarrow> go_error + nat" where
  "os_stat fl path f =
    (case stat_err fl of
       Some e \<Rightarrow> Inl e
     | None \<Rightarrow> (case f path of None \<Rightarrow> Inl not_exist | Some (_, mode) \<Rightarrow> Inr mode))"

definition os_open :: "faults \<Rightarrow> string \<Rightarrow> fs \<Rightarrow> go_error + string" where
  "os_open fl path f =
    (case open_err fl of
       Some e \<Rightarrow> Inl e
     | None \<Rightarrow> (case f path of None \<Rightarrow> Inl not_exist | Some (contents, _) \<Rightarrow> Inr contents))"

text \<open>
  \<^verbatim>\<open>ParseFile\<close> and \<^verbatim>\<open>PatchFile\<close>. The reader over an open file is a
  parameter, because a read may fail too; \<^const>\<open>file_read\<close> is the one that
  never does.
\<close>

definition ParseFile ::
  "'ast hujson \<Rightarrow> (string \<Rightarrow> go_error + 'dst) \<Rightarrow> (nat \<Rightarrow> go_error option) \<Rightarrow> string read_fun \<Rightarrow> faults \<Rightarrow>
   gctx option \<Rightarrow> string \<Rightarrow> (int \<Rightarrow> int) option list \<Rightarrow> fs \<Rightarrow> go_error + 'dst" where
  "ParseFile hj decode ctx_err reads fl ctx path opts f =
    (case os_open fl path f of
       Inl e \<Rightarrow> Inl e
     | Inr contents \<Rightarrow> Parse hj decode ctx_err reads ctx contents opts)"

definition PatchFile ::
  "'ast hujson \<Rightarrow> (nat \<Rightarrow> go_error option) \<Rightarrow> string read_fun \<Rightarrow> faults \<Rightarrow> string \<Rightarrow>
   gctx option \<Rightarrow> string \<Rightarrow> string \<Rightarrow> (int \<Rightarrow> int) option list \<Rightarrow> fs \<Rightarrow> go_error option \<times> fs" where
  "PatchFile hj ctx_err reads fl tmp ctx path patch opts f =
    (let ctx = or_background ctx in
     case os_stat fl path f of
       Inl e \<Rightarrow> (Some e, f)
     | Inr mode \<Rightarrow>
         (case os_open fl path f of
            Inl e \<Rightarrow> (Some e, f)
          | Inr contents \<Rightarrow>
              (case Patch hj ctx_err reads (Some ctx) contents patch opts of
                 Inl e \<Rightarrow> (Some e, f)
               | Inr patched \<Rightarrow> atomicWriteFile fl tmp path patched mode f)))"

text \<open>
  Two concrete environments for the examples below: a library that accepts every
  document, and a file system in which only the rename fails.
\<close>

definition plain_hujson :: "string hujson" where
  "plain_hujson = \<lparr>hj_parse = Inr, hj_standardize = id, hj_pack = id, hj_patch = (\<lambda>d p. Inr p), hj_format = id\<rparr>"

definition failing_rename :: faults where
  "failing_rename = \<lparr>stat_err = None, open_err = None, create_err = None, write_err = None, chmod_err = None, close_err = None,
     rename_err = Some (TextError ''disk''), remove_fails = False\<rparr>"

section \<open>Lemmas\<close>

lemma ReadBounded_errors:
  assumes "fst (ReadBounded ctx_err reads m r) = Inl e"
  shows "e = InvalidMaxBytesError m \<or> e = TooLargeError m \<or> (\<exists>p e'. e = WrapError p e')"
proof -
  have loop: "fst (read_loop ctx_err reads n i acc r) = Inl e \<Longrightarrow>
      e = TooLargeError (int n) \<or> (\<exists>p e'. e = WrapError p e')" for n i acc r
    by (induction ctx_err reads n i acc r rule: read_loop.induct)
      (subst (asm) (2) read_loop.simps, auto simp: Let_def split: if_splits option.splits prod.splits)
  show ?thesis
    using assms loop [of "nat m" 0 "[]" r] by (auto simp: ReadBounded_def split: if_splits)
qed

lemma validation_exit:
  "ErrorExitCode (Some (as_error (NewError ctx c msg (opts @ [WithErrorExitCode ExitValidation])))) = ExitValidation"
  by (simp add: as_error_def NewError_def option_defs ExitCode_def exit_defs)

lemma ExitCode_NewError_validation:
  "ErrorExitCode (Some (as_error (NewError ctx c msg [WithActionableFix a, WithErrorExitCode ExitValidation]))) = ExitValidation"
  "ErrorExitCode (Some (as_error (NewError ctx c msg [WithActionableFix a, x, WithErrorExitCode ExitValidation]))) = ExitValidation"
  using validation_exit [of ctx c msg "[WithActionableFix a]"] validation_exit [of ctx c msg "[WithActionableFix a, x]"]
  by simp_all

lemma atomicWriteFile_cases:
  assumes "tmp \<noteq> path" and "f tmp = None"
  shows "case atomicWriteFile fl tmp path contents mode f of
      (None, f') \<Rightarrow> f' = f(path \<mapsto> (contents, mode))
    | (Some e, f') \<Rightarrow> f'(tmp := None) = f \<and> (\<not> remove_fails fl \<longrightarrow> f' = f)"
  using assms
  by (auto simp: atomicWriteFile_def writeAndClose_def remove_tmp_def fun_eq_iff
      split: option.splits prod.splits if_splits)

lemma Patch_background: "Patch hj ctx_err reads (Some (or_background ctx)) r patch opts = Patch hj ctx_err reads ctx r patch opts"
  by (simp add: Patch_def or_background_def split: option.splits)

lemma applyOptions_error: "applyOptions ctx opts = Inl e \<Longrightarrow> ErrorExitCode (Some e) = ExitValidation"
proof -
  have "apply_options ctx opts m = Inl e \<Longrightarrow> e = option_error ctx" for m
    by (induction ctx opts m rule: apply_options.induct) auto
  moreover assume "applyOptions ctx opts = Inl e"
  ultimately have "e = option_error ctx" by (simp add: applyOptions_def)
  then show "ErrorExitCode (Some e) = ExitValidation"
    by (simp add: option_error_def ExitCode_NewError_validation)
qed

lemma normalizeReadError_limits:
  "ErrorExitCode (Some (normalizeReadError ctx (InvalidMaxBytesError n))) = ExitValidation"
  "ErrorExitCode (Some (normalizeReadError ctx (TooLargeError n))) = ExitValidation"
  by (simp_all add: normalizeReadError_def errors_as_def is_type_defs ExitCode_NewError_validation)

lemma normalizeDecodeError_exit:
  "errors_as is_invalid_unmarshal e = None \<Longrightarrow> ErrorExitCode (Some (normalizeDecodeError ctx e)) = ExitValidation"
  "errors_as is_invalid_unmarshal e \<noteq> None \<Longrightarrow> normalizeDecodeError ctx e = e"
  by (auto simp: normalizeDecodeError_def ExitCode_NewError_validation)

lemma normalizeDecodeError_outcome:
  "ErrorExitCode (Some (normalizeDecodeError ctx e)) = ExitValidation \<or>
   errors_as is_invalid_unmarshal (normalizeDecodeError ctx e) \<noteq> None"
  using normalizeDecodeError_exit [of e ctx] by (cases "errors_as is_invalid_unmarshal e") auto

lemma normalizePatchError_exit:
  assumes "internal_Patch hj doc patch = Inl e"
  shows "ErrorExitCode (Some (normalizePatchError ctx e)) = ExitValidation"
proof -
  have "e \<in> range HujsonParseError \<union> range PatchApplyError"
    using assms by (auto simp: internal_Patch_def split: sum.splits)
  then have "errors_as is_hujson_parse e \<noteq> None \<or> errors_as is_patch_apply e \<noteq> None"
    by (auto simp: errors_as_def is_type_defs)
  then consider z where "errors_as is_hujson_parse e = Some (HujsonParseError z)"
    | z where "errors_as is_hujson_parse e = None" "errors_as is_patch_apply e = Some (PatchApplyError z)"
    using errors_as_type [of is_hujson_parse e] errors_as_type [of is_patch_apply e]
    by (cases "errors_as is_hujson_parse e") (auto simp: is_hujson_parse_def is_patch_apply_def split: go_error.splits)
  then show ?thesis by cases (simp_all add: normalizePatchError_def ExitCode_NewError_validation)
qed

lemma ReadBounded_file_eq:
  assumes "\<And>i. ctx_err i = None"
  shows "fst (ReadBounded ctx_err file_read m s) =
    (if m < 0 \<or> m > MaxConfigBytesCeiling then Inl (InvalidMaxBytesError m)
     else if int (length s) \<le> m then Inr s else Inl (TooLargeError m))"
  using os_file.ReadBounded_complete [where m = m and r = s and ctx_err = ctx_err] assms
  by (cases "m < 0 \<or> m > MaxConfigBytesCeiling") (auto simp: ReadBounded_def)

section \<open>Properties\<close>

text \<open>
  C17. For every reader that keeps the io.Reader contract, whatever errors it
  returns and whenever the context is cancelled: a successful bounded read is
  the whole source and within the limit, and no read consumes more than one byte
  beyond the limit.
\<close>

theorem ReadBounded_contract:
  assumes "reader reads rest" and "ReadBounded ctx_err reads m r = (res, r')"
  shows "(\<forall>out. res = Inr out \<longrightarrow> out = rest r \<and> int (length out) \<le> m) \<and>
    (\<exists>bs. rest r = bs @ rest r' \<and> int (length bs) \<le> max 0 (m + 1))"
  using assms by (rule reader.ReadBounded_sound)

theorem ReadBounded_contract_witness:
  "\<exists>bs. id ''{}'' = bs @ id (snd (ReadBounded (\<lambda>_. None) file_read 1 ''{}'')) \<and> int (length bs) \<le> 2"
  using ReadBounded_contract [OF os_file.reader_axioms, of "\<lambda>_. None" 1 "''{}''"] by (metis max_def one_add_one prod.collapse zero_le_numeral)

text \<open>
  Reading an uncancelled file is decided by its size alone: it returns the
  whole content when that is within the limit, \<^verbatim>\<open>TooLargeError\<close> when it is larger,
  and \<^verbatim>\<open>InvalidMaxBytesError\<close> for a limit out of range. The read always ends.
\<close>

theorem ReadBounded_file:
  assumes "\<forall>i. ctx_err i = None"
  shows "fst (ReadBounded ctx_err file_read m s) =
    (if m < 0 \<or> m > MaxConfigBytesCeiling then Inl (InvalidMaxBytesError m)
     else if int (length s) \<le> m then Inr s else Inl (TooLargeError m))"
  using assms by (simp add: ReadBounded_file_eq)

theorem ReadBounded_file_witness:
  "fst (ReadBounded (\<lambda>_. None) file_read 3 ''{}'') = Inr ''{}'' \<and>
   fst (ReadBounded (\<lambda>_. None) file_read 1 ''{}'') = Inl (TooLargeError 1)"
  using ReadBounded_file [of "\<lambda>_. None" 3 "''{}''"] ReadBounded_file [of "\<lambda>_. None" 1 "''{}''"]
  by (simp add: MaxConfigBytesCeiling_def)



text \<open>
  C8. Patching a file is atomic under every combination of failing system calls:
  it returns nil exactly when the file holds the patched document with its old
  mode and nothing else changed; otherwise the target still has its old content
  and mode, and no other file changed apart from a temporary file whose removal
  failed.
\<close>

theorem PatchFile_atomic:
  assumes "tmp \<noteq> path" and "f tmp = None"
  shows "case PatchFile hj ctx_err reads fl tmp ctx path patch opts f of
      (None, f') \<Rightarrow> \<exists>old mode patched. f path = Some (old, mode) \<and>
        Patch hj ctx_err reads ctx old patch opts = Inr patched \<and> f' = f(path \<mapsto> (patched, mode))
    | (Some e, f') \<Rightarrow> f' path = f path \<and> f'(tmp := None) = f \<and> (\<not> remove_fails fl \<longrightarrow> f' = f)"
proof (cases "PatchFile hj ctx_err reads fl tmp ctx path patch opts f = (fst (PatchFile hj ctx_err reads fl tmp ctx path patch opts f), f)
    \<and> fst (PatchFile hj ctx_err reads fl tmp ctx path patch opts f) \<noteq> None")
  case True
  then show ?thesis using assms(2) by (auto simp: fun_eq_iff split: prod.splits option.splits)
next
  case False
  then obtain old mode patched where ok: "f path = Some (old, mode)" "Patch hj ctx_err reads ctx old patch opts = Inr patched"
      "PatchFile hj ctx_err reads fl tmp ctx path patch opts f = atomicWriteFile fl tmp path patched mode f"
    by (auto simp: PatchFile_def os_stat_def os_open_def Let_def Patch_background split: option.splits sum.splits prod.splits)
  have "f' path = f path" if "f'(tmp := None) = f" for f' :: fs
    using that assms(1) by (auto simp: fun_eq_iff split: if_splits)
  then show ?thesis
    using atomicWriteFile_cases [where f = f and tmp = tmp and path = path and fl = fl and contents = patched and mode = mode] assms ok
    by (auto split: prod.splits option.splits)
qed

theorem PatchFile_atomic_witness:
  "snd (PatchFile plain_hujson (\<lambda>_. None) file_read failing_rename ''t'' None ''c'' ''new'' [] [''c'' \<mapsto> (''old'', 420)]) ''c''
     = Some (''old'', 420)"
proof -
  have err: "fst (PatchFile plain_hujson (\<lambda>_. None) file_read failing_rename ''t'' None ''c'' ''new'' [] [''c'' \<mapsto> (''old'', 420)]) \<noteq> None"
    by (auto simp: PatchFile_def os_stat_def os_open_def Let_def atomicWriteFile_def writeAndClose_def failing_rename_def split: sum.split)
  show ?thesis
    using PatchFile_atomic [where tmp = "''t''" and path = "''c''" and f = "[''c'' \<mapsto> (''old'', 420)]" and
        hj = plain_hujson and ctx_err = "\<lambda>_. None" and reads = file_read and fl = failing_rename and ctx = None and patch = "''new''" and opts = "[]"] err
    by (auto split: prod.splits option.splits)
qed

end
