(* ===== verification/Ax_Hooks.thy ===== *)
theory Ax_Hooks
  imports Ax_Guard Go_Strconv
begin

text \<open>
  The command tree \<^verbatim>\<open>ax.Execute\<close> prepares (\<^verbatim>\<open>src/internal/cli/cli.go\<close> and the
  preparation half of \<^verbatim>\<open>src/execute.go\<close>): the persistent agent-safety flags, the
  lookup of their values, and the wrapping of persistent pre-run hooks. The main
  result is that for every command of the tree the hook that Cobra dispatches is
  a safety hook, wrapped once however often the tree is executed.
\<close>

section \<open>Flags\<close>

definition FlagFormat :: string where "FlagFormat = ''format''"
definition FlagDryRun :: string where "FlagDryRun = ''dry-run''"
definition FlagIdempotencyKey :: string where "FlagIdempotencyKey = ''idempotency-key''"
definition FlagYes :: string where "FlagYes = ''yes''"
definition FlagStrict :: string where "FlagStrict = ''strict''"

lemmas flag_name_defs = FlagFormat_def FlagDryRun_def FlagIdempotencyKey_def FlagYes_def FlagStrict_def

text \<open>
  The flags a command sees by name: its current text, its default and whether the
  last command line set it.
\<close>

record cli_flag =
  cf_text :: string
  cf_default :: string
  cf_changed :: bool

type_synonym flag_map = "string \<rightharpoonup> cli_flag"

definition new_flag :: "string \<Rightarrow> cli_flag" where
  "new_flag v = \<lparr>cf_text = v, cf_default = v, cf_changed = False\<rparr>"

definition FormatBool :: "bool \<Rightarrow> string" where
  "FormatBool b = (if b then ''true'' else ''false'')"

definition EnsurePersistentStringFlag :: "flag_map \<Rightarrow> string \<Rightarrow> string \<Rightarrow> flag_map" where
  "EnsurePersistentStringFlag persistent name v =
    (if persistent name \<noteq> None then persistent else persistent(name \<mapsto> new_flag v))"

definition EnsurePersistentBoolFlag :: "flag_map \<Rightarrow> string \<Rightarrow> bool \<Rightarrow> flag_map" where
  "EnsurePersistentBoolFlag persistent name v =
    (if persistent name \<noteq> None then persistent else persistent(name \<mapsto> new_flag (FormatBool v)))"

definition ensure_ax_flags :: "flag_map \<Rightarrow> flag_map" where
  "ensure_ax_flags p0 =
    (let p1 = EnsurePersistentStringFlag p0 FlagFormat [];
         p2 = EnsurePersistentBoolFlag p1 FlagDryRun False;
         p3 = EnsurePersistentBoolFlag p2 FlagYes False;
         p4 = EnsurePersistentBoolFlag p3 FlagStrict False
     in EnsurePersistentStringFlag p4 FlagIdempotencyKey [])"

text \<open>What \<^verbatim>\<open>cmd.Flags()\<close> and \<^verbatim>\<open>cmd.InheritedFlags()\<close> give for the invoked command.\<close>

record flag_view =
  fv_flags :: flag_map
  fv_inherited :: flag_map

definition LookupFlagString :: "flag_view \<Rightarrow> string \<Rightarrow> string" where
  "LookupFlagString fv name =
    (case fv_flags fv name of
       Some f \<Rightarrow> cf_text f
     | None \<Rightarrow> (case fv_inherited fv name of Some f \<Rightarrow> cf_text f | None \<Rightarrow> []))"

definition LookupFlagBool :: "flag_view \<Rightarrow> string \<Rightarrow> bool" where
  "LookupFlagBool fv name = (case ParseBool (LookupFlagString fv name) of Some b \<Rightarrow> b | None \<Rightarrow> False)"

definition resetChangedFlag :: "cli_flag option \<Rightarrow> cli_flag option" where
  "resetChangedFlag f =
    (case f of
       None \<Rightarrow> None
     | Some fl \<Rightarrow> if \<not> cf_changed fl then Some fl else Some (fl\<lparr>cf_text := cf_default fl, cf_changed := False\<rparr>))"

text \<open>
  \<^verbatim>\<open>resetStrictFlag\<close> on the two flag sets of a command. The two may hold the same flag
  object; resetting it twice is resetting it once.
\<close>

definition resetStrictFlag :: "flag_map \<times> flag_map \<Rightarrow> flag_map \<times> flag_map" where
  "resetStrictFlag sets =
    (case sets of (persistent, flags) \<Rightarrow>
       (persistent(FlagStrict := resetChangedFlag (persistent FlagStrict)),
        flags(FlagStrict := resetChangedFlag (flags FlagStrict))))"

section \<open>Hooks\<close>

text \<open>
  A persistent pre-run hook: the adopter's, or the agent-safety hook with the two
  hooks (\<^verbatim>\<open>PersistentPreRunE\<close>, \<^verbatim>\<open>PersistentPreRun\<close>) it runs afterwards and the
  configuration its closure captured when it was installed. Adopter hooks are
  numbered.
\<close>

datatype 'c hook = UserHook nat | SafetyHook 'c "'c hook option" "nat option"

datatype 'c cnode = CNode
  (cn_id: nat) (cn_name: string) (cn_hookE: "'c hook option") (cn_hook: "nat option") (cn_wrapped: bool) (cn_children: "'c cnode list")

definition has_hook :: "'c cnode \<Rightarrow> bool" where
  "has_hook c \<longleftrightarrow> cn_hook c \<noteq> None \<or> cn_hookE c \<noteq> None"

definition wrapCommandPersistentPreRun :: "'c \<Rightarrow> 'c cnode \<Rightarrow> 'c cnode" where
  "wrapCommandPersistentPreRun cfg c =
    (if cn_wrapped c then c
     else CNode (cn_id c) (cn_name c) (Some (SafetyHook cfg (cn_hookE c) (cn_hook c))) (cn_hook c) True (cn_children c))"

fun wrap_walk :: "'c \<Rightarrow> 'c cnode \<Rightarrow> 'c cnode" where
  "wrap_walk cfg (CNode i n hE h w cs) =
     CNode i n hE h w (map (\<lambda>c. (if has_hook c then wrapCommandPersistentPreRun cfg else id) (wrap_walk cfg c)) cs)"

text \<open>
  The code wraps a child before walking into it; wrapping changes only the child
  itself and walking only its descendants, so the order does not matter.
\<close>

definition wrapPersistentPreRun :: "'c \<Rightarrow> 'c cnode \<Rightarrow> 'c cnode" where
  "wrapPersistentPreRun cfg root = wrap_walk cfg (wrapCommandPersistentPreRun cfg root)"

text \<open>The commands of a tree, each with its ancestors: nearest first, the root last.\<close>

inductive cmd_path :: "'c cnode \<Rightarrow> 'c cnode list \<Rightarrow> bool" for root :: "'c cnode" where
  path_root: "cmd_path root [root]"
| path_child: "cmd_path root (c # p) \<Longrightarrow> d \<in> set (cn_children c) \<Longrightarrow> cmd_path root (d # c # p)"

text \<open>A tree in which the annotation tells the truth: an annotated command has a safety hook.\<close>

definition is_safety :: "'c hook option \<Rightarrow> bool" where
  "is_safety h \<longleftrightarrow> (case h of Some (SafetyHook _ _ _) \<Rightarrow> True | _ \<Rightarrow> False)"

fun user_only :: "'c hook option \<Rightarrow> bool" where
  "user_only None = True"
| "user_only (Some (UserHook _)) = True"
| "user_only (Some (SafetyHook _ _ _)) = False"

definition node_ok :: "'c cnode \<Rightarrow> bool" where
  "node_ok c \<longleftrightarrow>
    (if cn_wrapped c then (\<exists>k hE h. cn_hookE c = Some (SafetyHook k hE h) \<and> user_only hE)
     else user_only (cn_hookE c))"

fun tree_ok :: "'c cnode \<Rightarrow> bool" where
  "tree_ok (CNode i n hE h w cs) \<longleftrightarrow> node_ok (CNode i n hE h w cs) \<and> (\<forall>c \<in> set cs. tree_ok c)"

section \<open>Lemmas\<close>

lemma ensure_present:
  "p n \<noteq> None \<Longrightarrow> EnsurePersistentStringFlag p n s = p" "p n \<noteq> None \<Longrightarrow> EnsurePersistentBoolFlag p n b = p"
  by (simp_all add: EnsurePersistentStringFlag_def EnsurePersistentBoolFlag_def)

lemma ensure_has:
  "EnsurePersistentStringFlag p n s m \<noteq> None \<longleftrightarrow> m = n \<or> p m \<noteq> None" "EnsurePersistentBoolFlag p n b m \<noteq> None \<longleftrightarrow> m = n \<or> p m \<noteq> None"
  by (auto simp: EnsurePersistentStringFlag_def EnsurePersistentBoolFlag_def)

lemma ensure_ax_flags_has:
  "n \<in> {FlagFormat, FlagDryRun, FlagYes, FlagStrict, FlagIdempotencyKey} \<Longrightarrow> ensure_ax_flags p n \<noteq> None"
  unfolding ensure_ax_flags_def Let_def ensure_has by blast

lemma wrap_walk_sel [simp]:
  "cn_id (wrap_walk cfg c) = cn_id c" "cn_name (wrap_walk cfg c) = cn_name c" "cn_hookE (wrap_walk cfg c) = cn_hookE c"
  "cn_hook (wrap_walk cfg c) = cn_hook c" "cn_wrapped (wrap_walk cfg c) = cn_wrapped c"
  by (cases c; simp)+

lemma wrapCommand_sel [simp]:
  "cn_id (wrapCommandPersistentPreRun cfg c) = cn_id c" "cn_wrapped (wrapCommandPersistentPreRun cfg c)"
  "cn_children (wrapCommandPersistentPreRun cfg c) = cn_children c" "cn_hook (wrapCommandPersistentPreRun cfg c) = cn_hook c"
  by (simp_all add: wrapCommandPersistentPreRun_def)

lemma has_hook_walk [simp]: "has_hook (wrap_walk cfg c) = has_hook c"
  by (simp add: has_hook_def)

lemma wrapCommand_idem: "cn_wrapped c \<Longrightarrow> wrapCommandPersistentPreRun cfg c = c"
  by (simp add: wrapCommandPersistentPreRun_def)

lemma wrap_commutes: "wrap_walk cfg (wrapCommandPersistentPreRun cfg c) = wrapCommandPersistentPreRun cfg (wrap_walk cfg c)"
  by (cases c) (simp add: wrapCommandPersistentPreRun_def)

text \<open>A hook of a walked tree below its root is a safety hook.\<close>

definition covered :: "'c cnode \<Rightarrow> bool" where
  "covered c \<longleftrightarrow> (has_hook c \<longrightarrow> cn_wrapped c)"

fun all_covered :: "'c cnode \<Rightarrow> bool" where
  "all_covered (CNode i n hE h w cs) \<longleftrightarrow> (\<forall>c \<in> set cs. covered c \<and> all_covered c)"

lemma all_covered_children: "all_covered c \<longleftrightarrow> (\<forall>d \<in> set (cn_children c). covered d \<and> all_covered d)"
  by (cases c) simp

lemma all_covered_wrap [simp]: "all_covered (wrapCommandPersistentPreRun cfg c) = all_covered c"
  unfolding all_covered_children [of "wrapCommandPersistentPreRun cfg c"] all_covered_children [of c] by simp

lemma all_covered_walk: "all_covered (wrap_walk cfg c)"
  by (induction c rule: wrap_walk.induct) (auto simp: covered_def)

lemma wrap_walk_covered: "all_covered c \<Longrightarrow> wrap_walk cfg c = c"
proof (induction cfg c rule: wrap_walk.induct)
  case (1 cfg i n hE h w cs)
  have "(if has_hook c then wrapCommandPersistentPreRun cfg else id) (wrap_walk cfg c) = c" if "c \<in> set cs" for c
    using 1 that by (auto simp: covered_def wrapCommand_idem)
  then show ?case by (simp add: map_idI)
qed

lemma node_ok_wrap: "node_ok c \<Longrightarrow> node_ok (wrapCommandPersistentPreRun cfg c)"
  by (auto simp: node_ok_def wrapCommandPersistentPreRun_def)

lemma tree_ok_iff: "tree_ok c \<longleftrightarrow> node_ok c \<and> (\<forall>d \<in> set (cn_children c). tree_ok d)"
  by (cases c) simp

lemma tree_ok_wrap: "tree_ok c \<Longrightarrow> tree_ok (wrapCommandPersistentPreRun cfg c)"
  by (auto simp: tree_ok_iff [of "wrapCommandPersistentPreRun cfg c"] tree_ok_iff [of c] node_ok_wrap)

lemma tree_ok_walk: "tree_ok c \<Longrightarrow> tree_ok (wrap_walk cfg c)"
  by (induction c rule: wrap_walk.induct) (auto simp: node_ok_def intro!: tree_ok_wrap)

lemma cmd_path_covered:
  assumes "cmd_path root p" and "all_covered root" and "cn_wrapped root" and "tree_ok root"
  shows "(\<forall>c \<in> set p. covered c \<and> node_ok c) \<and> last p = root \<and> all_covered (hd p) \<and> tree_ok (hd p)"
  using assms
proof (induction rule: cmd_path.induct)
  case path_root
  then show ?case by (simp add: covered_def tree_ok_iff [of root])
next
  case (path_child c p d)
  then have "covered d \<and> all_covered d" "tree_ok d"
    using all_covered_children [of c] tree_ok_iff [of c] by auto
  then show ?case using path_child tree_ok_iff [of d] by simp
qed

lemma prepared_tree:
  assumes "tree_ok root"
  shows "all_covered (wrapPersistentPreRun cfg root)" "cn_wrapped (wrapPersistentPreRun cfg root)" "tree_ok (wrapPersistentPreRun cfg root)"
  using assms by (simp_all add: wrapPersistentPreRun_def all_covered_walk tree_ok_walk tree_ok_wrap)

lemma nearest_hook_is_safety:
  assumes "tree_ok root" and "cmd_path (wrapPersistentPreRun cfg root) p"
  shows "\<exists>c k hE h. find has_hook p = Some c \<and> cn_hookE c = Some (SafetyHook k hE h) \<and> user_only hE"
proof -
  let ?t = "wrapPersistentPreRun cfg root"
  note t = prepared_tree [OF assms(1)]
  note p = cmd_path_covered [OF assms(2) t]
  have "p \<noteq> []" using assms(2) by (auto elim: cmd_path.cases)
  then have "?t \<in> set p" using p by (metis last_in_set)
  moreover have "has_hook ?t" using t(2) tree_ok_iff [of ?t] t(3) by (auto simp: node_ok_def has_hook_def)
  ultimately obtain c where c: "find has_hook p = Some c" by (cases "find has_hook p") (auto simp: find_None_iff)
  then have "c \<in> set p" "has_hook c" by (auto simp: find_Some_iff)
  then have "cn_wrapped c" "node_ok c" using p by (auto simp: covered_def)
  then show ?thesis using c by (simp add: node_ok_def)
qed

section \<open>Properties\<close>

text \<open>
  C6. After the tree is prepared, for every command of it the nearest command
  with a persistent hook exists and its hook is the agent-safety hook around at
  most the adopter's own hooks, never around another safety hook; so the safety
  setup runs exactly once for every invocation, also when a group or subcommand
  declares a hook of its own. Preparing a prepared tree changes nothing, so
  repeated executions do not wrap again; the hooks keep the configuration of the
  first execution, whatever configuration a later one has.
\<close>

theorem safety_hook_reaches_every_command:
  assumes "tree_ok root" and "cmd_path (wrapPersistentPreRun cfg root) p"
  shows "(\<exists>c k hE h. find has_hook p = Some c \<and> cn_hookE c = Some (SafetyHook k hE h) \<and> user_only hE) \<and>
    wrapPersistentPreRun later (wrapPersistentPreRun cfg root) = wrapPersistentPreRun cfg root \<and> tree_ok (wrapPersistentPreRun cfg root)"
proof -
  note t = prepared_tree [OF assms(1)]
  then have "wrapPersistentPreRun later (wrapPersistentPreRun cfg root) = wrapPersistentPreRun cfg root"
    by (simp add: wrapPersistentPreRun_def [of later "wrapPersistentPreRun cfg root"] wrapCommand_idem wrap_walk_covered)
  then show ?thesis using nearest_hook_is_safety [OF assms] t(3) by blast
qed

definition sample_root :: "unit cnode" where
  "sample_root = CNode 0 ''app'' None None False
     [CNode 1 ''group'' (Some (UserHook 7)) None False [CNode 2 ''leaf'' None None False []]]"

theorem safety_hook_reaches_every_command_witness:
  "\<exists>c k hE h. find has_hook [CNode 2 ''leaf'' None None False [],
       CNode 1 ''group'' (Some (SafetyHook () (Some (UserHook 7)) None)) None True [CNode 2 ''leaf'' None None False []],
       wrapPersistentPreRun () sample_root] = Some c \<and> cn_hookE c = Some (SafetyHook k hE h) \<and> user_only hE"
proof -
  let ?t = "wrapPersistentPreRun () sample_root"
  let ?g = "CNode 1 ''group'' (Some (SafetyHook () (Some (UserHook 7)) None)) None True [CNode 2 ''leaf'' None None False []]"
  have t: "?t = CNode 0 ''app'' (Some (SafetyHook () None None)) None True [?g]"
    by (simp add: wrapPersistentPreRun_def sample_root_def wrapCommandPersistentPreRun_def has_hook_def)
  have "cmd_path ?t [CNode 2 ''leaf'' None None False [], ?g, ?t]"
    by (intro path_child path_root) (simp_all add: t)
  moreover have "tree_ok sample_root" by (simp add: sample_root_def node_ok_def)
  ultimately show ?thesis using safety_hook_reaches_every_command [of sample_root] by blast
qed

end
