(* ===== verification/Ax_Execute.thy ===== *)
theory Ax_Execute
  imports Ax_Hooks
begin

text \<open>
  One run of \<^verbatim>\<open>ax.Execute\<close> (\<^verbatim>\<open>src/execute.go\<close>, \<^verbatim>\<open>src/warnings.go\<close>, \<^verbatim>\<open>src/version.go\<close>):
  version resolution, diagnostics, the agent-safety hook, held output under
  \<^verbatim>\<open>--strict\<close>, the mapping of the result to an exit code and an error envelope, and
  the shutdown diagnostics. Cobra is an argument: which command it selects, or the
  error it reports before any hook. Hooks and command bodies of the adopter are
  functions from the context to what they print, which warnings they attach and
  the error they return. The telemetry provider is represented by the error its
  shutdown returns.
\<close>

section \<open>Versions\<close>

record build_info =
  bi_main_version :: string
  bi_settings :: "(string \<times> string) list"

definition versionUnknown :: string where "versionUnknown = ''0.0.0-unknown''"

definition isUsableVersion :: "string \<Rightarrow> bool" where
  "isUsableVersion v \<longleftrightarrow> v \<noteq> [] \<and> v \<noteq> ''dev'' \<and> v \<noteq> ''unknown'' \<and> v \<noteq> versionUnknown \<and> v \<noteq> ''(devel)''"

fun vcs_settings :: "string \<Rightarrow> bool \<Rightarrow> (string \<times> string) list \<Rightarrow> string \<times> bool" where
  "vcs_settings revision modified [] = (revision, modified)"
| "vcs_settings revision modified ((k, v) # rest) =
    (if k = ''vcs.revision'' then vcs_settings v modified rest
     else if k = ''vcs.modified'' then vcs_settings revision (v = ''true'') rest
     else vcs_settings revision modified rest)"

definition resolveVersionFrom :: "string \<Rightarrow> build_info option \<Rightarrow> string" where
  "resolveVersionFrom injected info =
    (if isUsableVersion injected then injected
     else
       (case info of
          None \<Rightarrow> versionUnknown
        | Some bi \<Rightarrow>
            if isUsableVersion (bi_main_version bi) then bi_main_version bi
            else
              (case vcs_settings [] False (bi_settings bi) of
                 (revision, modified) \<Rightarrow>
                   if \<not> isUsableVersion revision then versionUnknown
                   else if modified then revision @ ''-dirty''
                   else revision)))"

section \<open>Diagnostics\<close>

text \<open>
  \<^verbatim>\<open>strings.Map\<close> works on runes: an ill-formed byte is decoded to \<^verbatim>\<open>RuneError\<close> and
  written back as its three-byte encoding.
\<close>

definition rune_error_bytes :: string where
  "rune_error_bytes = [char_of (239 :: nat), char_of (191 :: nat), char_of (189 :: nat)]"

definition sanitize_chunk :: "nat \<times> string \<Rightarrow> string" where
  "sanitize_chunk ch =
    (if fst ch < 32 \<or> fst ch = 127 then '' ''
     else if fst ch = rune_error \<and> length (snd ch) = 1 then rune_error_bytes
     else snd ch)"

definition SanitizeDiagnostic :: "string \<Rightarrow> string" where
  "SanitizeDiagnostic s = concat (map sanitize_chunk (rune_chunks s))"

section \<open>State of one run\<close>

text \<open>
  Writers: \<^verbatim>\<open>Buf\<close> is the buffer that holds stdout under \<^verbatim>\<open>--strict\<close> in this run, the
  others are numbered, 0 being the process's own stdout. A command without a
  writer of its own uses its parent's.
\<close>

datatype writer = W nat | Buf

datatype stderr_item = EnvelopeLine ax_error | Diagnostic string

record heldStdout =
  h_cmd :: nat
  h_prior :: writer
  h_inherited :: bool

record warningState =
  ws_warnings :: "Warning list"
  ws_strict :: bool
  ws_real :: "writer option"
  ws_release :: "heldStdout option"

record xstate =
  x_outs :: "nat \<Rightarrow> writer option"
  x_content :: "writer \<Rightarrow> string"
  x_stderr :: "stderr_item list"
  x_warn :: warningState

definition withWarningState :: warningState where
  "withWarningState = \<lparr>ws_warnings = [], ws_strict = False, ws_real = None, ws_release = None\<rparr>"

fun OutOrStdout :: "(nat \<Rightarrow> writer option) \<Rightarrow> nat list \<Rightarrow> writer" where
  "OutOrStdout outs [] = W 0"
| "OutOrStdout outs (c # ancestors) = (case outs c of Some w \<Rightarrow> w | None \<Rightarrow> OutOrStdout outs ancestors)"

definition holdStdout :: "(nat \<Rightarrow> writer option) \<Rightarrow> nat \<Rightarrow> nat list \<Rightarrow> heldStdout" where
  "holdStdout outs c ancestors =
    (if ancestors \<noteq> [] \<and> OutOrStdout outs (c # ancestors) = OutOrStdout outs ancestors
     then \<lparr>h_cmd = c, h_prior = W 0, h_inherited = True\<rparr>
     else \<lparr>h_cmd = c, h_prior = OutOrStdout outs (c # ancestors), h_inherited = False\<rparr>)"

definition restore :: "heldStdout \<Rightarrow> (nat \<Rightarrow> writer option) \<Rightarrow> nat \<Rightarrow> writer option" where
  "restore h outs = outs(h_cmd h := (if h_inherited h then None else Some (h_prior h)))"

definition restoreOut :: "xstate \<Rightarrow> xstate" where
  "restoreOut s =
    (case ws_release (x_warn s) of
       None \<Rightarrow> s
     | Some h \<Rightarrow> s\<lparr>x_outs := restore h (x_outs s), x_warn := (x_warn s)\<lparr>ws_release := None\<rparr>\<rparr>)"

definition write_to :: "writer \<Rightarrow> string \<Rightarrow> xstate \<Rightarrow> xstate" where
  "write_to w text s = s\<lparr>x_content := (x_content s)(w := x_content s w @ text)\<rparr>"

definition add_stderr :: "stderr_item \<Rightarrow> xstate \<Rightarrow> xstate" where
  "add_stderr item s = s\<lparr>x_stderr := x_stderr s @ [item]\<rparr>"

section \<open>Adopter code\<close>

text \<open>
  What a hook or a command body does: the text it prints to its command's writer,
  the warning lists of its \<^verbatim>\<open>ax.WithWarnings\<close> calls in order, and its error.
\<close>

record act_result =
  a_out :: string
  a_warnings :: "Warning list list"
  a_err :: "go_error option"

text \<open>\<^verbatim>\<open>ax.WithWarnings\<close> as far as the run sees it: each call replaces the kept list.\<close>

definition record_warnings :: "Warning list \<Rightarrow> xstate \<Rightarrow> xstate" where
  "record_warnings ws s = s\<lparr>x_warn := (x_warn s)\<lparr>ws_warnings := filter keep_warning ws\<rparr>\<rparr>"

definition perform_act :: "nat list \<Rightarrow> act_result \<Rightarrow> xstate \<Rightarrow> go_error option \<times> xstate" where
  "perform_act path r s =
    (a_err r, fold record_warnings (a_warnings r) (write_to (OutOrStdout (x_outs s) path) (a_out r) s))"

section \<open>The agent-safety hook\<close>

record exec_cfg =
  xc_stdout :: writer
  xc_version :: string
  xc_agent_mode :: string
  xc_stdoutIsTTY :: "bool option"
  xc_terminal :: bool
  xc_new_key :: string

text \<open>
  The context and state set up by the hook for the invoked command, given the
  flag values it looks up; an unknown mode is a validation error.
\<close>

definition safety_setup ::
  "(nat \<Rightarrow> bool) \<Rightarrow> exec_cfg \<Rightarrow> flag_view \<Rightarrow> nat list \<Rightarrow> gctx \<Rightarrow> xstate \<Rightarrow> go_error + gctx \<times> xstate" where
  "safety_setup isprint cfg fv path ctx s =
    (let format = LookupFlagString fv FlagFormat;
         dryRun = LookupFlagBool fv FlagDryRun;
         approval = LookupFlagBool fv FlagYes;
         strict = LookupFlagBool fv FlagStrict;
         key0 = LookupFlagString fv FlagIdempotencyKey;
         key = (if key0 = [] then xc_new_key cfg else key0);
         tty = (case xc_stdoutIsTTY cfg of Some b \<Rightarrow> b | None \<Rightarrow> xc_terminal cfg)
     in case ResolveMode isprint format (xc_agent_mode cfg) tty of
          Inl err \<Rightarrow>
            Inl (as_error (root_NewError (Some ctx) ErrorCodeValidationError (error_text isprint err)
              [WithErrorExitCode ExitValidation]))
        | Inr mode \<Rightarrow>
            let ctx' = WithIdempotencyKey (WithApproval (WithDryRun (WithMode ctx mode) dryRun) approval) key;
                s' = (if strict then
                        (let held = holdStdout (x_outs s) (hd path) (tl path);
                             real = OutOrStdout (x_outs s) path in
                         s\<lparr>x_outs := (x_outs s)(hd path \<mapsto> Buf),
                           x_content := (x_content s)(Buf := []),
                           x_warn := (x_warn s)\<lparr>ws_strict := True, ws_real := Some real, ws_release := Some held\<rparr>\<rparr>)
                      else s)
            in Inr (ctx', s'))"

text \<open>
  The configuration a hook works with: what its closure captured when it was
  installed, with the terminal and the generated key of the present run.
\<close>

definition hook_cfg :: "exec_cfg \<Rightarrow> exec_cfg \<Rightarrow> exec_cfg" where
  "hook_cfg cfg captured = captured\<lparr>xc_terminal := xc_terminal cfg, xc_new_key := xc_new_key cfg\<rparr>"

text \<open>
  Running a persistent hook on the invoked command. \<^term>\<open>act\<close> gives the adopter's
  hooks; an error stops, otherwise the context the command sees is returned.
\<close>

fun run_hook ::
  "(nat \<Rightarrow> bool) \<Rightarrow> exec_cfg \<Rightarrow> (nat \<Rightarrow> gctx \<Rightarrow> act_result) \<Rightarrow> flag_view \<Rightarrow> nat list \<Rightarrow> exec_cfg hook \<Rightarrow> gctx \<Rightarrow> xstate \<Rightarrow>
   (go_error + gctx) \<times> xstate" where
  "run_hook isprint cfg act fv path (UserHook n) ctx s =
    (case perform_act path (act n ctx) s of
       (Some e, s') \<Rightarrow> (Inl e, s')
     | (None, s') \<Rightarrow> (Inr ctx, s'))"
| "run_hook isprint cfg act fv path (SafetyHook k hE h) ctx s =
    (case safety_setup isprint (hook_cfg cfg k) fv path ctx s of
       Inl e \<Rightarrow> (Inl e, s)
     | Inr (ctx1, s1) \<Rightarrow>
         (case (case hE of None \<Rightarrow> (Inr ctx1, s1) | Some hk \<Rightarrow> run_hook isprint cfg act fv path hk ctx1 s1) of
            (Inl e, s2) \<Rightarrow> (Inl e, s2)
          | (Inr ctx2, s2) \<Rightarrow>
              (case h of
                 None \<Rightarrow> (Inr ctx2, s2)
               | Some n \<Rightarrow> (Inr ctx2, snd (perform_act path (act n ctx2) s2)))))"

section \<open>The result\<close>

text \<open>
  \<^verbatim>\<open>normalizeExecuteError\<close>: a copy of the command's error with the empty fields
  filled in. \<^term>\<open>None\<close> is the nil-pointer panic on a nil \<^verbatim>\<open>*Error\<close> stored in the
  error interface.
\<close>

definition normalizeExecuteError ::
  "(nat \<Rightarrow> bool) \<Rightarrow> gctx \<Rightarrow> string \<Rightarrow> string \<Rightarrow> go_error \<Rightarrow> ax_error option" where
  "normalizeExecuteError isprint ctx tool version err =
    (case errors_as is_ax_error err of
       Some (AxError f c) \<Rightarrow>
         let f1 = (if TraceID f = [] then f\<lparr>TraceID := root_TraceIDFromContext ctx\<rparr> else f);
             f2 = (if Tool f1 = [] then f1\<lparr>Tool := tool\<rparr> else f1);
             f3 = (if Version f2 = [] then f2\<lparr>Version := version\<rparr> else f2);
             f4 = (if SchemaVersion f3 = [] then f3\<lparr>SchemaVersion := ErrorSchemaVersion\<rparr> else f3)
         in Some (f4, c)
     | Some _ \<Rightarrow> None
     | None \<Rightarrow>
         Some (root_NewError (Some ctx) ErrorCodeInternalError (error_text isprint err)
           [WithErrorTool tool, WithErrorVersion version, WithErrorExitCode (ErrorExitCode (Some err))]))"

definition warning_json :: "Warning \<Rightarrow> any_value" where
  "warning_json w = ObjVal [(''code'', StrVal (w_Code w)), (''message'', StrVal (w_Message w))]"

definition escalated_error :: "gctx \<Rightarrow> Warning list \<Rightarrow> go_error" where
  "escalated_error ctx ws =
    as_error (root_NewError (Some ctx) ErrorCodeWarningsAsErrors ''warnings escalated by --strict''
      [WithErrorExitCode ExitValidation,
       WithActionableFix ''rerun without --strict to keep the success envelope'',
       WithErrorContext [(''warnings'', ListVal (map warning_json ws))]])"

text \<open>
  \<^verbatim>\<open>finishCommand\<close>, given the error \<^verbatim>\<open>ExecuteContext\<close> returned; the result is the exit
  code, \<^term>\<open>None\<close> on the panic above.
\<close>

definition report :: "(nat \<Rightarrow> bool) \<Rightarrow> gctx \<Rightarrow> string \<Rightarrow> string \<Rightarrow> go_error \<Rightarrow> xstate \<Rightarrow> int option \<times> xstate" where
  "report isprint ctx tool version err s =
    (case normalizeExecuteError isprint ctx tool version err of
       None \<Rightarrow> (None, s)
     | Some axErr \<Rightarrow> (Some (ExitCode (as_error axErr)), add_stderr (EnvelopeLine axErr) s))"

definition finishCommand ::
  "(nat \<Rightarrow> bool) \<Rightarrow> gctx \<Rightarrow> string \<Rightarrow> string \<Rightarrow> go_error option \<Rightarrow> xstate \<Rightarrow> int option \<times> xstate" where
  "finishCommand isprint ctx tool version executeErr s =
    (case executeErr of
       Some e \<Rightarrow> report isprint ctx tool version e s
     | None \<Rightarrow>
         let state = x_warn s in
         if ws_strict state \<and> ws_warnings state \<noteq> []
         then report isprint ctx tool version (escalated_error ctx (ws_warnings state)) s
         else
           (case ws_real state of
              Some real \<Rightarrow> (Some ExitSuccess, write_to real (x_content s Buf) s)
            | None \<Rightarrow> (Some ExitSuccess, s)))"

section \<open>Execute\<close>

text \<open>
  \<^verbatim>\<open>root.ExecuteContext\<close>: Cobra either fails before any hook or selects a command
  of the prepared tree, given with its ancestors. It then runs the hook of the
  nearest command that has one, then the body. \<^term>\<open>nearest\<close> is Cobra's choice.
\<close>

definition path_ids :: "exec_cfg cnode list \<Rightarrow> nat list" where
  "path_ids p = map cn_id p"

definition hook_of :: "exec_cfg cnode \<Rightarrow> exec_cfg hook option" where
  "hook_of c = (case cn_hookE c of Some h \<Rightarrow> Some h | None \<Rightarrow> map_option UserHook (cn_hook c))"

definition ExecuteContext ::
  "(nat \<Rightarrow> bool) \<Rightarrow> exec_cfg \<Rightarrow> (exec_cfg cnode list \<Rightarrow> exec_cfg cnode option) \<Rightarrow> (nat \<Rightarrow> gctx \<Rightarrow> act_result) \<Rightarrow>
   (gctx \<Rightarrow> act_result) \<Rightarrow> flag_view \<Rightarrow> go_error + exec_cfg cnode list \<Rightarrow> gctx \<Rightarrow> xstate \<Rightarrow> go_error option \<times> xstate" where
  "ExecuteContext isprint cfg nearest act body fv selected ctx s =
    (case selected of
       Inl e \<Rightarrow> (Some e, s)
     | Inr p \<Rightarrow>
         (case (case Option.bind (nearest p) hook_of of
                  None \<Rightarrow> (Inr ctx, s)
                | Some h \<Rightarrow> run_hook isprint cfg act fv (path_ids p) h ctx s) of
            (Inl e, s1) \<Rightarrow> (Some e, s1)
          | (Inr ctx1, s1) \<Rightarrow> perform_act (path_ids p) (body ctx1) s1))"

definition shutdown_diagnostic :: "(nat \<Rightarrow> bool) \<Rightarrow> string \<Rightarrow> go_error option \<Rightarrow> xstate \<Rightarrow> xstate" where
  "shutdown_diagnostic isprint what err s =
    (case err of
       None \<Rightarrow> s
     | Some e \<Rightarrow>
         add_stderr (Diagnostic (''ax: '' @ what @ '' failed: '' @ SanitizeDiagnostic (error_text isprint e) @ [char_of (10 :: nat)])) s)"

text \<open>
  \<^verbatim>\<open>Execute\<close> on a prepared tree: the root gets the configured stdout and a new
  warning state, the command runs, the held writer is restored, and the flush and
  telemetry errors become diagnostics.
\<close>

definition Execute ::
  "(nat \<Rightarrow> bool) \<Rightarrow> exec_cfg \<Rightarrow> (exec_cfg cnode list \<Rightarrow> exec_cfg cnode option) \<Rightarrow> (nat \<Rightarrow> gctx \<Rightarrow> act_result) \<Rightarrow>
   (gctx \<Rightarrow> act_result) \<Rightarrow> flag_view \<Rightarrow> exec_cfg cnode \<Rightarrow> go_error + exec_cfg cnode list \<Rightarrow> go_error option \<Rightarrow> go_error option \<Rightarrow>
   gctx \<Rightarrow> xstate \<Rightarrow> int option \<times> xstate" where
  "Execute isprint cfg nearest act body fv root selected flushErr shutdownErr ctx s0 =
    (let s1 = s0\<lparr>x_outs := (x_outs s0)(cn_id root \<mapsto> xc_stdout cfg), x_warn := withWarningState\<rparr> in
     case ExecuteContext isprint cfg nearest act body fv selected ctx s1 of
       (err, s2) \<Rightarrow>
         (case finishCommand isprint ctx (cn_name root) (xc_version cfg) err s2 of
            (code, s3) \<Rightarrow>
              (code, shutdown_diagnostic isprint ''otel shutdown'' shutdownErr
                       (shutdown_diagnostic isprint ''flush'' flushErr (restoreOut s3)))))"


section \<open>Versions are usable\<close>

lemma resolveVersionFrom_usable:
  "resolveVersionFrom injected info \<notin> {[], ''dev'', ''unknown'', ''(devel)''}"
proof -
  have "revision @ ''-dirty'' \<notin> {[], ''dev'', ''unknown'', ''(devel)''}" for revision
  proof -
    have "last (revision @ ''-dirty'') = CHR ''y''" by simp
    then show ?thesis by (auto simp del: last_append)
  qed
  then show ?thesis
    by (auto simp: resolveVersionFrom_def isUsableVersion_def versionUnknown_def split: option.splits prod.splits)
qed

section \<open>Diagnostics have no control characters\<close>

lemma utf8_high_bytes:
  "2 \<le> utf8_size b \<Longrightarrow> 128 \<le> b" "utf8_second a b \<Longrightarrow> 128 \<le> b" "utf8_cont b \<Longrightarrow> 128 \<le> b"
  by (auto simp: utf8_size_def utf8_second_def utf8_lo_def utf8_cont_def split: if_splits)

definition chunk_ok :: "nat \<times> string \<Rightarrow> bool" where
  "chunk_ok ch \<longleftrightarrow> (fst ch < 128 \<and> snd ch = [char_of (fst ch)]) \<or> (fst ch = rune_error \<and> length (snd ch) = 1) \<or>
     (\<forall>c \<in> set (snd ch). 128 \<le> byte c)"

lemma decode_chunk_ok:
  assumes "s \<noteq> []" and "decode_rune s = (r, w)"
  shows "chunk_ok (r, take w s)"
proof (cases "rune_ok (decode_rune s)")
  case True
  show ?thesis
    using assms(1) True
  proof (cases rule: decode_rune_cases)
    case (one c0 t)
    from one(2) have "byte c0 < 128" by (simp add: utf8_size_def split: if_splits)
    moreover have "r = byte c0" "w = 1" using one(3) assms(2) by simp_all
    ultimately show ?thesis using one(1) by (simp add: chunk_ok_def)
  next
    case (two c0 c1 t)
    then have "w = 2" using assms(2) by simp
    moreover have "128 \<le> byte c0" "128 \<le> byte c1"
      using two utf8_high_bytes(1) [of "byte c0"] utf8_high_bytes(2) [of "byte c0" "byte c1"] by simp_all
    ultimately show ?thesis using two(1) by (simp add: chunk_ok_def)
  next
    case (three c0 c1 c2 t)
    then have "w = 3" using assms(2) by simp
    moreover have "128 \<le> byte c0" "128 \<le> byte c1" "128 \<le> byte c2"
      using three utf8_high_bytes(1) [of "byte c0"] utf8_high_bytes(2) [of "byte c0" "byte c1"]
        utf8_high_bytes(3) [of "byte c2"] by simp_all
    ultimately show ?thesis using three(1) by (simp add: chunk_ok_def)
  next
    case (four c0 c1 c2 c3 t)
    then have "w = 4" using assms(2) by simp
    moreover have "128 \<le> byte c0" "128 \<le> byte c1" "128 \<le> byte c2" "128 \<le> byte c3"
      using four utf8_high_bytes(1) [of "byte c0"] utf8_high_bytes(2) [of "byte c0" "byte c1"]
        utf8_high_bytes(3) [of "byte c2"] utf8_high_bytes(3) [of "byte c3"] by simp_all
    ultimately show ?thesis using four(1) by (simp add: chunk_ok_def)
  qed
next
  case False
  then show ?thesis using assms by (cases s) (auto simp: rune_ok_def chunk_ok_def)
qed

lemma rune_chunks_ok: "ch \<in> set (rune_chunks s) \<Longrightarrow> chunk_ok ch"
proof (induction s rule: rune_chunks.induct)
  case (1 s)
  show ?case
  proof (cases "s = []")
    case False
    obtain r w where "decode_rune s = (r, w)" by fastforce
    then show ?thesis
      using 1 False decode_chunk_ok [OF False] by (auto simp: rune_chunks.simps [of s])
  qed (use 1 in simp)
qed

lemma sanitize_chunk_clean:
  assumes "chunk_ok ch" and "c \<in> set (sanitize_chunk ch)"
  shows "32 \<le> byte c \<and> byte c \<noteq> 127"
proof -
  consider "c = CHR '' ''" | "c \<in> set rune_error_bytes" | "c \<in> set (snd ch)" "\<not> fst ch < 32" "fst ch \<noteq> 127" "\<not> (fst ch = rune_error \<and> length (snd ch) = 1)"
    using assms(2) by (auto simp: sanitize_chunk_def split: if_splits)
  then show ?thesis
  proof cases
    case 1
    then show ?thesis by (simp add: byte_def)
  next
    case 2
    then show ?thesis by (auto simp: rune_error_bytes_def)
  next
    case 3
    then show ?thesis using assms(1) by (auto simp: chunk_ok_def)
  qed
qed

lemma SanitizeDiagnostic_clean: "c \<in> set (SanitizeDiagnostic s) \<Longrightarrow> 32 \<le> byte c \<and> byte c \<noteq> 127"
  using sanitize_chunk_clean rune_chunks_ok by (fastforce simp: SanitizeDiagnostic_def)


section \<open>A strict run simulates a plain run\<close>

definition last_warnings :: "Warning list list \<Rightarrow> Warning list \<Rightarrow> Warning list" where
  "last_warnings wss old = fold (\<lambda>ws _. filter keep_warning ws) wss old"

lemma fold_record_warnings:
  "fold record_warnings wss s = s\<lparr>x_warn := (x_warn s)\<lparr>ws_warnings := last_warnings wss (ws_warnings (x_warn s))\<rparr>\<rparr>"
  by (induction wss arbitrary: s) (simp_all add: last_warnings_def record_warnings_def)

lemma snd_perform_act:
  "snd (perform_act path r s) =
    s\<lparr>x_content := (x_content s)(OutOrStdout (x_outs s) path := x_content s (OutOrStdout (x_outs s) path) @ a_out r),
      x_warn := (x_warn s)\<lparr>ws_warnings := last_warnings (a_warnings r) (ws_warnings (x_warn s))\<rparr>\<rparr>"
  by (simp add: perform_act_def fold_record_warnings write_to_def)

lemma fst_perform_act [simp]: "fst (perform_act path r s) = a_err r"
  by (simp add: perform_act_def)

text \<open>
  The relation between a strict run and a plain run of the same command after the
  safety hook: what the plain run has written to the command's writer, the strict
  run holds in its buffer.
\<close>

definition strict_rel :: "nat list \<Rightarrow> writer \<Rightarrow> xstate \<Rightarrow> xstate \<Rightarrow> bool" where
  "strict_rel path real sA sB \<longleftrightarrow>
    x_outs sA = (x_outs sB)(hd path \<mapsto> Buf) \<and> OutOrStdout (x_outs sB) path = real \<and> real \<noteq> Buf \<and>
    (\<forall>w. w \<noteq> Buf \<longrightarrow> x_content sB w = (if w = real then x_content sA w @ x_content sA Buf else x_content sA w)) \<and>
    x_stderr sA = x_stderr sB \<and> ws_warnings (x_warn sA) = ws_warnings (x_warn sB) \<and>
    ws_strict (x_warn sA) \<and> \<not> ws_strict (x_warn sB) \<and> ws_real (x_warn sA) = Some real \<and> ws_real (x_warn sB) = None \<and>
    ws_release (x_warn sA) = Some (holdStdout (x_outs sB) (hd path) (tl path)) \<and> ws_release (x_warn sB) = None"

lemma OutOrStdout_held: "path \<noteq> [] \<Longrightarrow> OutOrStdout (outs(hd path \<mapsto> Buf)) path = Buf"
  by (cases path) auto

lemma perform_act_rel:
  assumes "strict_rel path real sA sB" and "path \<noteq> []"
  shows "strict_rel path real (snd (perform_act path r sA)) (snd (perform_act path r sB))"
  using assms OutOrStdout_held [OF assms(2), of "x_outs sB"]
  by (simp add: strict_rel_def snd_perform_act)

lemma content_act_strict:
  assumes "strict_rel path real sA sB" and "path \<noteq> []" and "w \<noteq> Buf"
  shows "x_content (snd (perform_act path r sA)) w = x_content sA w"
  using assms OutOrStdout_held [OF assms(2), of "x_outs sB"] by (auto simp: strict_rel_def snd_perform_act)

text \<open>Two runs related by their states and giving the same error or context.\<close>

definition run_rel :: "nat list \<Rightarrow> writer \<Rightarrow> (writer \<Rightarrow> string) \<Rightarrow> 'r \<times> xstate \<Rightarrow> 'r \<times> xstate \<Rightarrow> bool" where
  "run_rel path real base A B \<longleftrightarrow> fst A = fst B \<and> strict_rel path real (snd A) (snd B) \<and>
     (\<forall>w. w \<noteq> Buf \<longrightarrow> x_content (snd A) w = base w)"

lemma act_run_rel:
  assumes "run_rel path real base (x, sA) (x, sB)" and "path \<noteq> []"
  shows "run_rel path real base (perform_act path r sA) (perform_act path r sB)"
  using assms perform_act_rel content_act_strict by (auto simp: run_rel_def)

lemma run_user_hook:
  "run_hook isprint cfg act fv path (UserHook n) ctx s =
    (case a_err (act n ctx) of Some e \<Rightarrow> Inl e | None \<Rightarrow> Inr ctx, snd (perform_act path (act n ctx) s))"
  by (simp add: perform_act_def split: option.split)

lemma user_hook_rel:
  assumes "run_rel path real base (Inr ctx :: go_error + gctx, sA) (Inr ctx, sB)" and "path \<noteq> []"
  shows "run_rel path real base (run_hook isprint cfg act fv path (UserHook n) ctx sA)
    (run_hook isprint cfg act fv' path (UserHook n) ctx sB)"
  using act_run_rel [OF assms, of "act n ctx"] unfolding run_user_hook by (simp add: run_rel_def)

text \<open>The flag values agree except for \<^verbatim>\<open>--strict\<close>.\<close>

definition differ_in_strict :: "flag_view \<Rightarrow> flag_view \<Rightarrow> bool" where
  "differ_in_strict fvA fvB \<longleftrightarrow>
    LookupFlagBool fvA FlagStrict \<and> \<not> LookupFlagBool fvB FlagStrict \<and>
    (\<forall>n \<in> {FlagFormat, FlagDryRun, FlagYes, FlagIdempotencyKey}. LookupFlagString fvA n = LookupFlagString fvB n)"

lemma differ_in_strict_lookups:
  "differ_in_strict fvA fvB \<Longrightarrow> LookupFlagString fvA FlagFormat = LookupFlagString fvB FlagFormat"
  "differ_in_strict fvA fvB \<Longrightarrow> LookupFlagString fvA FlagIdempotencyKey = LookupFlagString fvB FlagIdempotencyKey"
  "differ_in_strict fvA fvB \<Longrightarrow> LookupFlagBool fvA FlagDryRun = LookupFlagBool fvB FlagDryRun"
  "differ_in_strict fvA fvB \<Longrightarrow> LookupFlagBool fvA FlagYes = LookupFlagBool fvB FlagYes"
  "differ_in_strict fvA fvB \<Longrightarrow> LookupFlagBool fvA FlagStrict" "differ_in_strict fvA fvB \<Longrightarrow> \<not> LookupFlagBool fvB FlagStrict"
  by (simp_all add: differ_in_strict_def LookupFlagBool_def)

lemma safety_setup_rel:
  assumes "differ_in_strict fvA fvB" and "x_warn s = withWarningState" and "OutOrStdout (x_outs s) path \<noteq> Buf"
  shows "(\<exists>e. safety_setup isprint cfg fvA path ctx s = Inl e \<and> safety_setup isprint cfg fvB path ctx s = Inl e) \<or>
    (\<exists>ctx' sA. safety_setup isprint cfg fvA path ctx s = Inr (ctx', sA) \<and> safety_setup isprint cfg fvB path ctx s = Inr (ctx', s) \<and>
       run_rel path (OutOrStdout (x_outs s) path) (x_content s) (Inr ctx', sA) (Inr ctx', s))"
  using assms
  by (auto simp: safety_setup_def differ_in_strict_lookups Let_def run_rel_def strict_rel_def withWarningState_def
      split: sum.splits)


lemma inner_hook_rel:
  assumes "run_rel path real base (Inr ctx :: go_error + gctx, sA) (Inr ctx, sB)" and "path \<noteq> []" and "user_only hE"
  shows "run_rel path real base
    (case hE of None \<Rightarrow> (Inr ctx, sA) | Some hk \<Rightarrow> run_hook isprint cfg act fv path hk ctx sA)
    (case hE of None \<Rightarrow> (Inr ctx, sB) | Some hk \<Rightarrow> run_hook isprint cfg act fv' path hk ctx sB)"
  using assms user_hook_rel [OF assms(1,2)] by (cases hE rule: user_only.cases) simp_all

lemma safety_hook_rel:
  assumes "differ_in_strict fvA fvB" and "x_warn s = withWarningState" and "OutOrStdout (x_outs s) path \<noteq> Buf"
    and "path \<noteq> []" and "user_only hE"
  shows "(\<exists>e. run_hook isprint cfg act fvA path (SafetyHook k hE h) ctx s = (Inl e, s) \<and>
       run_hook isprint cfg act fvB path (SafetyHook k hE h) ctx s = (Inl e, s)) \<or>
    run_rel path (OutOrStdout (x_outs s) path) (x_content s)
      (run_hook isprint cfg act fvA path (SafetyHook k hE h) ctx s) (run_hook isprint cfg act fvB path (SafetyHook k hE h) ctx s)"
proof -
  let ?real = "OutOrStdout (x_outs s) path" and ?base = "x_content s"
  consider e where "safety_setup isprint (hook_cfg cfg k) fvA path ctx s = Inl e" "safety_setup isprint (hook_cfg cfg k) fvB path ctx s = Inl e"
    | ctx' sA where "safety_setup isprint (hook_cfg cfg k) fvA path ctx s = Inr (ctx', sA)" "safety_setup isprint (hook_cfg cfg k) fvB path ctx s = Inr (ctx', s)"
        "run_rel path ?real ?base (Inr ctx' :: go_error + gctx, sA) (Inr ctx', s)"
    using safety_setup_rel [OF assms(1-3), of isprint "hook_cfg cfg k" ctx] by blast
  then show ?thesis
  proof cases
    case 1
    then show ?thesis by simp
  next
    case 2
    let ?A = "case hE of None \<Rightarrow> (Inr ctx', sA) | Some hk \<Rightarrow> run_hook isprint cfg act fvA path hk ctx' sA"
    let ?B = "case hE of None \<Rightarrow> (Inr ctx', s) | Some hk \<Rightarrow> run_hook isprint cfg act fvB path hk ctx' s"
    obtain x tA tB where t: "?A = (x, tA)" "?B = (x, tB)"
      "\<And>y :: go_error + gctx. run_rel path ?real ?base (y, tA) (y, tB)"
      using inner_hook_rel [OF 2(3) assms(4,5), of isprint cfg act fvA fvB] by (auto simp: run_rel_def prod_eq_iff)
    have "run_rel path ?real ?base (Inr c :: go_error + gctx, snd (perform_act path r tA)) (Inr c, snd (perform_act path r tB))" for c r
      using act_run_rel [OF t(3) assms(4), of r] by (simp add: run_rel_def)
    then show ?thesis
      using 2(1,2) t by (cases x; cases h) simp_all
  qed
qed

lemma ExecuteContext_rel:
  assumes "differ_in_strict fvA fvB" and "x_warn s = withWarningState" and "OutOrStdout (x_outs s) (path_ids p) \<noteq> Buf"
    and "nearest p = Some c" and "cn_hookE c = Some (SafetyHook k hE h)" and "user_only hE" and "p \<noteq> []"
  shows "(\<exists>e. ExecuteContext isprint cfg nearest act body fvA (Inr p) ctx s = (Some e, s) \<and>
       ExecuteContext isprint cfg nearest act body fvB (Inr p) ctx s = (Some e, s)) \<or>
    run_rel (path_ids p) (OutOrStdout (x_outs s) (path_ids p)) (x_content s)
      (ExecuteContext isprint cfg nearest act body fvA (Inr p) ctx s) (ExecuteContext isprint cfg nearest act body fvB (Inr p) ctx s)"
proof -
  have ne: "path_ids p \<noteq> []" using assms(7) by (simp add: path_ids_def)
  let ?A = "run_hook isprint cfg act fvA (path_ids p) (SafetyHook k hE h) ctx s"
  let ?B = "run_hook isprint cfg act fvB (path_ids p) (SafetyHook k hE h) ctx s"
  have hook: "hook_of c = Some (SafetyHook k hE h)" using assms(5) by (simp add: hook_of_def)
  consider e where "?A = (Inl e, s)" "?B = (Inl e, s)"
    | x tA tB where "?A = (x, tA)" "?B = (x, tB)" "run_rel (path_ids p) (OutOrStdout (x_outs s) (path_ids p)) (x_content s) (x, tA) (x, tB)"
    using safety_hook_rel [OF assms(1-3) ne assms(6), of isprint cfg act k h ctx] that
    by (cases ?A; cases ?B) (auto simp: run_rel_def simp del: run_hook.simps)
  then show ?thesis
  proof cases
    case 1
    then show ?thesis by (simp add: ExecuteContext_def assms(4) hook del: run_hook.simps)
  next
    case 2
    show ?thesis
    proof (cases x)
      case (Inl e)
      then show ?thesis using 2 by (simp add: ExecuteContext_def assms(4) hook run_rel_def del: run_hook.simps)
    next
      case (Inr ctx1)
      then show ?thesis
        using 2 act_run_rel [OF 2(3) ne, of "body ctx1"]
        by (simp add: ExecuteContext_def assms(4) hook del: run_hook.simps)
    qed
  qed
qed


lemma OutOrStdout_not_Buf: "\<forall>c. outs c \<noteq> Some Buf \<Longrightarrow> OutOrStdout outs p \<noteq> Buf"
  by (induction outs p rule: OutOrStdout.induct) (auto split: option.splits)

lemma OutOrStdout_other: "c \<notin> set p \<Longrightarrow> OutOrStdout (outs(c := w)) p = OutOrStdout outs p"
  by (induction outs p rule: OutOrStdout.induct) (auto split: option.splits)

lemma restore_held:
  assumes "path \<noteq> []" and "distinct path"
  shows "OutOrStdout (restore (holdStdout outs (hd path) (tl path)) (outs(hd path \<mapsto> Buf))) path = OutOrStdout outs path"
  using assms by (cases path) (auto simp: restore_def holdStdout_def OutOrStdout_other split: option.splits)

lemma shutdown_diagnostic_keeps [simp]:
  "x_content (shutdown_diagnostic isprint what err s) = x_content s"
  "x_outs (shutdown_diagnostic isprint what err s) = x_outs s"
  "x_warn (shutdown_diagnostic isprint what err s) = x_warn s"
  by (simp_all add: shutdown_diagnostic_def add_stderr_def split: option.split)

lemma restoreOut_keeps [simp]:
  "x_content (restoreOut s) = x_content s" "x_stderr (restoreOut s) = x_stderr s"
  "ws_warnings (x_warn (restoreOut s)) = ws_warnings (x_warn s)"
  by (simp_all add: restoreOut_def split: option.split)

lemma report_facts [simp]:
  "fst (report isprint ctx tool version e s) \<noteq> Some ExitSuccess"
  "x_content (snd (report isprint ctx tool version e s)) = x_content s"
  "x_outs (snd (report isprint ctx tool version e s)) = x_outs s" "x_warn (snd (report isprint ctx tool version e s)) = x_warn s"
  using ExitCode_nonzero by (auto simp: report_def add_stderr_def split: option.split)

lemma report_fst_cong: "fst (report isprint ctx tool version e s) = fst (report isprint ctx tool version e s')"
  by (simp add: report_def split: option.split)

lemma escalated_code:
  "fst (report isprint ctx tool version (escalated_error ctx ws) s) = Some ExitValidation"
  by (simp add: report_def escalated_error_def as_error_def normalizeExecuteError_def errors_as_self
      root_NewError_def NewError_def option_defs Let_def ExitCode_def exit_defs)

text \<open>What the two results say of each other, for runs related before the result is reported.\<close>

lemma finish_rel:
  fixes isprint :: "nat \<Rightarrow> bool" and ctx :: gctx and tool version :: string
  assumes rel: "run_rel path real base (err, sA) (err, sB)" and path: "path \<noteq> []" "distinct path"
  defines "A \<equiv> finishCommand isprint ctx tool version err sA" and "B \<equiv> finishCommand isprint ctx tool version err sB"
  shows "fst B \<noteq> Some ExitSuccess \<Longrightarrow> fst A = fst B \<and> (\<forall>w. w \<noteq> Buf \<longrightarrow> x_content (snd A) w = base w)"
    and "fst B = Some ExitSuccess \<Longrightarrow> ws_warnings (x_warn (snd B)) = [] \<Longrightarrow>
      fst A = Some ExitSuccess \<and> (\<forall>w. w \<noteq> Buf \<longrightarrow> x_content (snd A) w = x_content (snd B) w)"
    and "fst B = Some ExitSuccess \<Longrightarrow> ws_warnings (x_warn (snd B)) \<noteq> [] \<Longrightarrow>
      fst A = Some ExitValidation \<and> (\<forall>w. w \<noteq> Buf \<longrightarrow> x_content (snd A) w = base w)"
    and "OutOrStdout (x_outs (restoreOut (snd A))) path = OutOrStdout (x_outs (restoreOut (snd B))) path"
proof -
  have st: "strict_rel path real sA sB" and base: "\<And>w. w \<noteq> Buf \<Longrightarrow> x_content sA w = base w"
    using rel by (auto simp: run_rel_def)
  note f = st [unfolded strict_rel_def]
  have Bnone: "B = (Some ExitSuccess, sB)" if "err = None"
    using that f by (simp add: B_def finishCommand_def)
  have Bsome: "fst B \<noteq> Some ExitSuccess" "A = report isprint ctx tool version e sA" "B = report isprint ctx tool version e sB"
    if "err = Some e" for e
    using that by (simp_all add: A_def B_def finishCommand_def)
  show "fst B \<noteq> Some ExitSuccess \<Longrightarrow> fst A = fst B \<and> (\<forall>w. w \<noteq> Buf \<longrightarrow> x_content (snd A) w = base w)"
    using Bnone Bsome base report_fst_cong by (cases err) auto
  show "fst B = Some ExitSuccess \<Longrightarrow> ws_warnings (x_warn (snd B)) = [] \<Longrightarrow>
      fst A = Some ExitSuccess \<and> (\<forall>w. w \<noteq> Buf \<longrightarrow> x_content (snd A) w = x_content (snd B) w)"
    using Bnone Bsome f by (cases err) (auto simp: A_def finishCommand_def write_to_def)
  show "fst B = Some ExitSuccess \<Longrightarrow> ws_warnings (x_warn (snd B)) \<noteq> [] \<Longrightarrow>
      fst A = Some ExitValidation \<and> (\<forall>w. w \<noteq> Buf \<longrightarrow> x_content (snd A) w = base w)"
    using Bnone Bsome f base by (cases err) (auto simp: A_def finishCommand_def escalated_code)
  have "x_outs (snd A) = x_outs sA" "ws_release (x_warn (snd A)) = ws_release (x_warn sA)"
    using f by (cases err; simp add: A_def finishCommand_def Let_def write_to_def)+
  moreover have "x_outs (snd B) = x_outs sB" "ws_release (x_warn (snd B)) = ws_release (x_warn sB)"
    using f by (cases err; simp add: B_def finishCommand_def Let_def)+
  ultimately show "OutOrStdout (x_outs (restoreOut (snd A))) path = OutOrStdout (x_outs (restoreOut (snd B))) path"
    using f restore_held [OF path, of "x_outs sB"] by (simp add: restoreOut_def)
qed

text \<open>
  The environment and the terminal override of a later execution on the same tree
  do not reach the hook: it resolves the mode from the configuration it captured.
\<close>

lemma later_options_not_seen:
  assumes "user_only hE"
  shows "run_hook isprint (cfg\<lparr>xc_agent_mode := m, xc_stdoutIsTTY := tty\<rparr>) act fv path (SafetyHook k hE h) ctx s =
    run_hook isprint cfg act fv path (SafetyHook k hE h) ctx s"
  using assms by (cases hE rule: user_only.cases) (auto simp: hook_cfg_def split: sum.split)

lemma Execute_steps:
  "Execute isprint cfg nearest act body fv root selected flushErr shutdownErr ctx s0 =
    (let R = ExecuteContext isprint cfg nearest act body fv selected ctx
           (s0\<lparr>x_outs := (x_outs s0)(cn_id root \<mapsto> xc_stdout cfg), x_warn := withWarningState\<rparr>);
         F = finishCommand isprint ctx (cn_name root) (xc_version cfg) (fst R) (snd R)
     in (fst F, shutdown_diagnostic isprint ''otel shutdown'' shutdownErr
       (shutdown_diagnostic isprint ''flush'' flushErr (restoreOut (snd F)))))"
  unfolding Execute_def Let_def case_prod_beta ..

section \<open>Properties\<close>

text \<open>
  C4. A run under \<^verbatim>\<open>--strict\<close> against the same run without it. When the plain run
  fails, the strict run fails with the same exit code and prints nothing to any
  real writer. When the plain run succeeds without warnings, the strict run
  succeeds and every writer ends with the same bytes. When it succeeds with
  warnings, the strict run exits 2 and prints nothing. In every case the command's
  writer is restored, so a later run on the same tree is not affected. The
  hypotheses say that Cobra runs the hook of the nearest command that has one and
  that no command writes to the buffer of this run beforehand.
\<close>

theorem strict_run_simulates_plain_run:
  assumes "tree_ok root0" and "cmd_path (wrapPersistentPreRun first root0) p" and "distinct (path_ids p)"
    and "\<forall>q. nearest q = find has_hook q"
    and "differ_in_strict fvA fvB" and "xc_stdout cfg \<noteq> Buf" and "\<forall>c. x_outs s0 c \<noteq> Some Buf"
    and "A = Execute isprint cfg nearest act body fvA (wrapPersistentPreRun first root0) (Inr p) flushErr shutdownErr ctx s0"
    and "B = Execute isprint cfg nearest act body fvB (wrapPersistentPreRun first root0) (Inr p) flushErr shutdownErr ctx s0"
  shows "(fst B \<noteq> Some ExitSuccess \<longrightarrow> fst A = fst B \<and> (\<forall>n. x_content (snd A) (W n) = x_content s0 (W n))) \<and>
    (fst B = Some ExitSuccess \<longrightarrow>
      (if ws_warnings (x_warn (snd B)) = []
       then fst A = Some ExitSuccess \<and> (\<forall>n. x_content (snd A) (W n) = x_content (snd B) (W n))
       else fst A = Some ExitValidation \<and> (\<forall>n. x_content (snd A) (W n) = x_content s0 (W n)))) \<and>
    OutOrStdout (x_outs (snd A)) (path_ids p) = OutOrStdout (x_outs (snd B)) (path_ids p)"
proof -
  let ?root = "wrapPersistentPreRun first root0"
  define s1 where "s1 = s0\<lparr>x_outs := (x_outs s0)(cn_id ?root \<mapsto> xc_stdout cfg), x_warn := withWarningState\<rparr>"
  define RA where "RA = ExecuteContext isprint cfg nearest act body fvA (Inr p) ctx s1"
  define RB where "RB = ExecuteContext isprint cfg nearest act body fvB (Inr p) ctx s1"
  define FA where "FA = finishCommand isprint ctx (cn_name ?root) (xc_version cfg) (fst RA) (snd RA)"
  define FB where "FB = finishCommand isprint ctx (cn_name ?root) (xc_version cfg) (fst RB) (snd RB)"
  have A: "fst A = fst FA" "x_content (snd A) = x_content (snd FA)" "x_outs (snd A) = x_outs (restoreOut (snd FA))"
    and B: "fst B = fst FB" "x_content (snd B) = x_content (snd FB)" "x_outs (snd B) = x_outs (restoreOut (snd FB))"
      "ws_warnings (x_warn (snd B)) = ws_warnings (x_warn (snd FB))"
    unfolding assms(8,9) Execute_steps Let_def FA_def FB_def RA_def RB_def s1_def by simp_all
  obtain c k hE h where c: "find has_hook p = Some c" "cn_hookE c = Some (SafetyHook k hE h)" "user_only hE"
    using nearest_hook_is_safety [OF assms(1,2)] by blast
  have p: "p \<noteq> []" using c(1) by (auto simp: find_Some_iff)
  then have ids: "path_ids p \<noteq> []" by (simp add: path_ids_def)
  have out: "OutOrStdout (x_outs s1) (path_ids p) \<noteq> Buf"
    using assms(6,7) by (intro OutOrStdout_not_Buf) (simp add: s1_def)
  have "(\<exists>e. RA = (Some e, s1) \<and> RB = (Some e, s1)) \<or>
      run_rel (path_ids p) (OutOrStdout (x_outs s1) (path_ids p)) (x_content s1) RA RB"
    unfolding RA_def RB_def
    by (rule ExecuteContext_rel [OF assms(5) _ out _ c(2,3) p]) (simp_all add: s1_def assms(4) c(1))
  then show ?thesis
  proof
    assume "\<exists>e. RA = (Some e, s1) \<and> RB = (Some e, s1)"
    then show ?thesis using A B by (auto simp: FA_def FB_def finishCommand_def s1_def)
  next
    assume rel: "run_rel (path_ids p) (OutOrStdout (x_outs s1) (path_ids p)) (x_content s1) RA RB"
    then have "run_rel (path_ids p) (OutOrStdout (x_outs s1) (path_ids p)) (x_content s1) (fst RB, snd RA) (fst RB, snd RB)"
      and eq: "fst RA = fst RB" by (simp_all add: run_rel_def)
    note fin = finish_rel [OF this(1) ids assms(3), of isprint ctx "cn_name ?root" "xc_version cfg"]
    have base: "x_content s1 = x_content s0" by (simp add: s1_def)
    show ?thesis
      using fin A B by (auto simp: FA_def FB_def eq base)
  qed
qed


definition app_root :: "exec_cfg cnode" where
  "app_root = CNode 0 ''app'' None None False []"

definition app_cfg :: exec_cfg where
  "app_cfg = \<lparr>xc_stdout = W 1, xc_version = ''1.0.0'', xc_agent_mode = [], xc_stdoutIsTTY = Some False,
     xc_terminal = False, xc_new_key = ''key''\<rparr>"

definition app_flags :: "bool \<Rightarrow> flag_view" where
  "app_flags strict = \<lparr>fv_flags = [FlagStrict \<mapsto> new_flag (FormatBool strict)], fv_inherited = Map.empty\<rparr>"

definition app_body :: "gctx \<Rightarrow> act_result" where
  "app_body ctx = \<lparr>a_out = ''ok'', a_warnings = [], a_err = None\<rparr>"

definition app_state :: xstate where
  "app_state = \<lparr>x_outs = (\<lambda>_. None), x_content = (\<lambda>_. []), x_stderr = [], x_warn = withWarningState\<rparr>"

definition app_run :: "bool \<Rightarrow> (gctx \<Rightarrow> act_result) \<Rightarrow> int option \<times> xstate" where
  "app_run strict body = Execute (\<lambda>_. True) app_cfg (find has_hook) (\<lambda>_. app_body) body (app_flags strict)
     (wrapPersistentPreRun app_cfg app_root) (Inr [wrapPersistentPreRun app_cfg app_root]) None None Background app_state"

lemma app_flags_differ: "differ_in_strict (app_flags True) (app_flags False)"
  by (simp add: differ_in_strict_def app_flags_def LookupFlagBool_def LookupFlagString_def flag_name_defs
      new_flag_def FormatBool_def ParseBool_def)

theorem strict_run_simulates_plain_run_witness:
  "OutOrStdout (x_outs (snd (app_run True app_body))) (path_ids [wrapPersistentPreRun app_cfg app_root]) =
   OutOrStdout (x_outs (snd (app_run False app_body))) (path_ids [wrapPersistentPreRun app_cfg app_root])"
proof -
  have tree: "tree_ok app_root" by (simp add: app_root_def node_ok_def)
  have dist: "distinct (path_ids [wrapPersistentPreRun app_cfg app_root])" by (simp add: path_ids_def)
  have out: "xc_stdout app_cfg \<noteq> Buf" by (simp add: app_cfg_def)
  have outs: "\<forall>c. x_outs app_state c \<noteq> Some Buf" by (simp add: app_state_def)
  have near: "\<forall>q. find has_hook q = find has_hook q" by simp
  show ?thesis
    using strict_run_simulates_plain_run [OF tree path_root dist near app_flags_differ out outs app_run_def app_run_def]
    by blast
qed

definition kept :: "string \<Rightarrow> string \<Rightarrow> bool" where
  "kept old new \<longleftrightarrow> new \<noteq> [] \<and> (old \<noteq> [] \<longrightarrow> new = old)"

lemma root_trace_id: "c_trace_id ctx \<noteq> Some [] \<Longrightarrow> root_TraceIDFromContext ctx \<noteq> []"
  by (auto simp: root_TraceIDFromContext_def traceIDs_def split: option.splits)

lemma normalizeExecuteError_fields:
  assumes "errors_as is_ax_error e \<noteq> Some NilAxError" and "c_trace_id ctx \<noteq> Some []" and "tool \<noteq> []" and "version \<noteq> []"
  obtains f c where "normalizeExecuteError isprint ctx tool version e = Some (f, c)"
    and "ExitCode (AxError f c) = ErrorExitCode (Some e)"
    and "TraceID f \<noteq> [] \<and> Tool f \<noteq> [] \<and> Version f \<noteq> [] \<and> SchemaVersion f \<noteq> []"
    and "\<And>g d. errors_as is_ax_error e = Some (AxError g d) \<Longrightarrow> c = d \<and> ErrorCode f = ErrorCode g \<and> Message f = Message g \<and>
      kept (TraceID g) (TraceID f) \<and> kept (Tool g) (Tool f) \<and> kept (Version g) (Version f)"
proof (cases "errors_as is_ax_error e")
  case None
  then have "normalizeExecuteError isprint ctx tool version e =
      Some (root_NewError (Some ctx) ErrorCodeInternalError (error_text isprint e)
        [WithErrorTool tool, WithErrorVersion version, WithErrorExitCode (ErrorExitCode (Some e))])"
    by (simp add: normalizeExecuteError_def)
  moreover have "ErrorExitCode (Some e) \<noteq> 0"
    using None by (simp add: ErrorExitCode_def exit_defs)
  ultimately show ?thesis
    using that None assms(3,4) MetadataFromContext_ids
    by (auto simp: root_NewError_def NewError_def option_defs ExitCode_def TraceIDFromContext_def ErrorSchemaVersion_def)
next
  case (Some x)
  then obtain g d where x: "x = AxError g d"
    using assms(1) errors_as_type [OF Some] by (cases x) (auto simp: is_ax_error_def)
  let ?f = "g\<lparr>TraceID := if TraceID g = [] then root_TraceIDFromContext ctx else TraceID g,
    Tool := if Tool g = [] then tool else Tool g, Version := if Version g = [] then version else Version g,
    SchemaVersion := if SchemaVersion g = [] then ErrorSchemaVersion else SchemaVersion g\<rparr>"
  have "normalizeExecuteError isprint ctx tool version e = Some (?f, d)"
    using Some x by (simp add: normalizeExecuteError_def Let_def)
  moreover have "ExitCode (AxError ?f d) = ErrorExitCode (Some e)"
    using Some x by (simp add: ErrorExitCode_def ExitCode_def)
  moreover have "TraceID ?f \<noteq> [] \<and> Tool ?f \<noteq> [] \<and> Version ?f \<noteq> [] \<and> SchemaVersion ?f \<noteq> []"
    using assms(3,4) root_trace_id [OF assms(2)] by (simp add: ErrorSchemaVersion_def)
  moreover have "d = d' \<and> ErrorCode ?f = ErrorCode g' \<and> Message ?f = Message g' \<and>
      kept (TraceID g') (TraceID ?f) \<and> kept (Tool g') (Tool ?f) \<and> kept (Version g') (Version ?f)"
    if "errors_as is_ax_error e = Some (AxError g' d')" for g' d'
    using that Some x assms(3,4) root_trace_id [OF assms(2)] by (simp add: kept_def)
  ultimately show ?thesis by (rule that)
qed

lemma shutdown_diagnostic_line:
  assumes "\<forall>ch \<in> set what. 32 \<le> byte ch"
  shows "\<exists>ds. x_stderr (shutdown_diagnostic isprint what err s) = x_stderr s @ map Diagnostic ds \<and>
      (\<forall>d \<in> set ds. \<forall>ch \<in> set (butlast d). 32 \<le> byte ch)"
proof (cases err)
  case None
  then show ?thesis by (intro exI [of _ "[]"]) (simp add: shutdown_diagnostic_def)
next
  case (Some er)
  let ?d = "''ax: '' @ what @ '' failed: '' @ SanitizeDiagnostic (error_text isprint er) @ [char_of (10 :: nat)]"
  have "set (butlast ?d) \<subseteq> set ''ax: '' \<union> set what \<union> set '' failed: '' \<union> set (SanitizeDiagnostic (error_text isprint er))"
    by (auto simp: butlast_append)
  moreover have "\<forall>ch \<in> set ''ax: '' \<union> set '' failed: ''. 32 \<le> byte ch" by (simp add: byte_def)
  ultimately have "\<forall>ch \<in> set (butlast ?d). 32 \<le> byte ch" using assms SanitizeDiagnostic_clean by blast
  then show ?thesis using Some by (intro exI [of _ "[?d]"]) (simp add: shutdown_diagnostic_def add_stderr_def)
qed



end
