(* ===== verification/Schema_Tree.thy ===== *)
theory Schema_Tree
  imports Schema_Enum Schema_Json
begin

text \<open>
  Reflection of a command tree: \<^verbatim>\<open>src/internal/schema/schema.go\<close> (commands and their
  flags) and \<^verbatim>\<open>src/internal/schema/nondeterministic.go\<close> (locators of fields whose value
  changes from run to run). Cobra's command is a tree with what the code reads
  from it; flags are addresses in the store of \<^verbatim>\<open>Schema_Enum\<close>. Go types are a graph,
  because a Go type may refer to itself. The lemmas characterise the locators
  exactly, say when their computation returns, and show that registered locators
  are read back.
\<close>

section \<open>Commands and flags\<close>

record 's uflag =
  uf_flag :: "'s flag"
  uf_Shorthand :: string
  uf_Usage :: string
  uf_slice_values :: "string list"

text \<open>
  A command: \<^verbatim>\<open>t_local\<close> and \<^verbatim>\<open>t_inherited\<close> are Cobra's \<^verbatim>\<open>NonInheritedFlags\<close> and
  \<^verbatim>\<open>InheritedFlags\<close> in the order of \<^verbatim>\<open>VisitAll\<close>, \<^verbatim>\<open>t_NeedsArgs\<close> says that its \<^verbatim>\<open>Args\<close>
  validator refuses an empty argument list.
\<close>

datatype ctree = CTree
  (t_Use: string) (t_Name: string) (t_Path: string) (t_Short: string) (t_Long: string) (t_Example: string)
  (t_Hidden: bool) (t_Runnable: bool) (t_NeedsArgs: bool) (t_local: "nat list") (t_inherited: "nat list")
  (t_Annotations: annotations) (t_Commands: "ctree list")

definition flag_name :: "(nat \<Rightarrow> 's uflag) \<Rightarrow> nat \<Rightarrow> string" where
  "flag_name st a = f_Name (uf_flag (st a))"

text \<open>The flags of a command, local before inherited, each name once.\<close>

definition unique_flags :: "(nat \<Rightarrow> 's uflag) \<Rightarrow> ctree \<Rightarrow> nat list" where
  "unique_flags st cmd = fst (keepFirst {} (flag_name st) (t_local cmd @ t_inherited cmd))"

definition requiredAnnotation :: string where
  "requiredAnnotation = ''cobra_annotation_bash_completion_one_required_flag''"

definition IsRequiredFlag :: "'s flag \<Rightarrow> bool" where
  "IsRequiredFlag f \<longleftrightarrow> ''true'' \<in> set (f_Annotations f requiredAnnotation)"

record Flag =
  fl_Name :: string
  fl_Shorthand :: string
  fl_Type :: string
  fl_Default :: string
  fl_Usage :: string
  fl_Required :: bool
  fl_Enum :: "string list option"
  fl_Example :: string

definition flag_entry :: "'f parsers \<Rightarrow> 's uflag \<Rightarrow> Flag" where
  "flag_entry env u =
    (let f = uf_flag u in
     \<lparr>fl_Name = f_Name f, fl_Shorthand = uf_Shorthand u, fl_Type = value_Type (f_Value f), fl_Default = f_DefValue f,
      fl_Usage = uf_Usage u, fl_Required = IsRequiredFlag f, fl_Enum = FlagEnum f, fl_Example = FlagExample env f\<rparr>)"

definition CollectFlags :: "'f parsers \<Rightarrow> (nat \<Rightarrow> 's uflag) \<Rightarrow> ctree \<Rightarrow> Flag list" where
  "CollectFlags env st cmd = map (\<lambda>a. flag_entry env (st a)) (unique_flags st cmd)"

datatype scommand = SCommand
  (sc_Use: string) (sc_Short: string) (sc_Long: string) (sc_Example: string) (sc_Flags: "Flag list")
  (sc_Commands: "scommand list") (sc_Annotations: annotations)

fun BuildCommand :: "'f parsers \<Rightarrow> (nat \<Rightarrow> 's uflag) \<Rightarrow> ctree \<Rightarrow> scommand" where
  "BuildCommand env st (CTree u n p s l e h r na loc inh anns cs) =
    SCommand u s l e (CollectFlags env st (CTree u n p s l e h r na loc inh anns cs))
      (concat (map (\<lambda>child. if t_Hidden child then [] else [BuildCommand env st child]) cs)) anns"

fun WalkCommands :: "ctree \<Rightarrow> ctree list" where
  "WalkCommands (CTree u n p s l e h r na loc inh anns cs) =
    CTree u n p s l e h r na loc inh anns cs # concat (map WalkCommands cs)"

section \<open>Locators\<close>

text \<open>\<^verbatim>\<open>sortedUnique\<close> goes through a map's keys, which are then sorted.\<close>

definition sortedUnique :: "string list \<Rightarrow> string list" where
  "sortedUnique vs = sort (remdups vs)"

text \<open>
  A field of a struct type and the types it can have. \<^verbatim>\<open>TElem\<close> is an array, map,
  pointer or slice type with its element type; other kinds are \<^verbatim>\<open>TOther\<close>.
\<close>

record field =
  fd_Name :: string
  fd_exported :: bool
  fd_Anonymous :: bool
  fd_json :: string
  fd_ax :: string
  fd_Type :: nat

datatype gtype = TStruct "field list" | TElem nat | TOther

type_synonym type_env = "nat \<Rightarrow> gtype"

definition maxLocatorDepth :: nat where "maxLocatorDepth = 64"

text \<open>\<^verbatim>\<open>locatorElementType\<close>: a loop that need not end; then it is \<^term>\<open>None\<close>.\<close>

partial_function (option) locatorElementType :: "type_env \<Rightarrow> nat \<Rightarrow> nat option" where
  [code]: "locatorElementType env t = (case env t of TElem u \<Rightarrow> locatorElementType env u | _ \<Rightarrow> Some t)"

definition jsonFieldName :: "field \<Rightarrow> string option" where
  "jsonFieldName f = (if fd_json f = ''-'' then None else Some (takeWhile (\<lambda>c. c \<noteq> CHR '','') (fd_json f)))"

definition anonymousStructField :: "type_env \<Rightarrow> field \<Rightarrow> string \<Rightarrow> bool option" where
  "anonymousStructField env f jsonName =
    (if \<not> fd_Anonymous f \<or> jsonName \<noteq> [] then Some False
     else
       (case locatorElementType env (fd_Type f) of
          None \<Rightarrow> None
        | Some u \<Rightarrow> Some (case env u of TStruct _ \<Rightarrow> True | _ \<Rightarrow> False)))"

text \<open>The path of a field below \<^term>\<open>path\<close>; \<^term>\<open>Some None\<close> is a skipped field.\<close>

definition field_path :: "type_env \<Rightarrow> string list \<Rightarrow> field \<Rightarrow> string list option option" where
  "field_path env path f =
    (if \<not> fd_exported f then Some None
     else
       (case jsonFieldName f of
          None \<Rightarrow> Some None
        | Some name \<Rightarrow>
            (case anonymousStructField env f name of
               None \<Rightarrow> None
             | Some True \<Rightarrow> Some (Some path)
             | Some False \<Rightarrow> Some (Some (path @ [if name = [] then fd_Name f else name])))))"

text \<open>
  \<^verbatim>\<open>walkDataLocators\<close>, with the depth counted down to 0 and the locators collected
  in the order they are found.
\<close>

fun walk_fields :: "(nat \<Rightarrow> string list \<Rightarrow> string list option) \<Rightarrow> type_env \<Rightarrow> string list \<Rightarrow> field list \<Rightarrow> string list option" where
  "walk_fields walk env path [] = Some []"
| "walk_fields walk env path (f # fs) =
    (case field_path env path f of
       None \<Rightarrow> None
     | Some None \<Rightarrow> walk_fields walk env path fs
     | Some (Some fieldPath) \<Rightarrow>
         (case walk (fd_Type f) fieldPath of
            None \<Rightarrow> None
          | Some inner \<Rightarrow>
              (case walk_fields walk env path fs of
                 None \<Rightarrow> None
               | Some rest \<Rightarrow>
                   Some ((if fd_ax f = ''nondeterministic'' then [str_join ''.'' fieldPath] else []) @ inner @ rest))))"

fun walkDataLocators :: "nat \<Rightarrow> type_env \<Rightarrow> nat set \<Rightarrow> nat \<Rightarrow> string list \<Rightarrow> string list option" where
  "walkDataLocators 0 env active t path = Some []"
| "walkDataLocators (Suc d) env active t path =
    (case locatorElementType env t of
       None \<Rightarrow> None
     | Some u \<Rightarrow>
         (case env u of
            TStruct fs \<Rightarrow>
              if u \<in> active then Some []
              else walk_fields (walkDataLocators d env (insert u active)) env path fs
          | _ \<Rightarrow> Some []))"

definition DataLocators :: "type_env \<Rightarrow> nat \<Rightarrow> string list option" where
  "DataLocators env t = map_option sortedUnique (walkDataLocators maxLocatorDepth env {} t [''data''])"

section \<open>The envelope registration\<close>

definition envelopeAnnotationKey :: string where
  "envelopeAnnotationKey = ''github.com/rshade/ax-go/schema/envelope''"
definition locatorsAnnotationKey :: string where
  "locatorsAnnotationKey = ''github.com/rshade/ax-go/schema/non-deterministic-fields''"

definition enc_strings :: "string list \<Rightarrow> string" where
  "enc_strings ss = marshal (JArr (map JStr ss))"

text \<open>Decoding into \<^verbatim>\<open>[]string\<close>: null is the nil slice, and a null element the empty string.\<close>

definition dec_strings :: "string \<Rightarrow> string list option" where
  "dec_strings s =
    (case unmarshal s of
       None \<Rightarrow> None
     | Some v \<Rightarrow> decode_list (\<lambda>e. case e of JStr x \<Rightarrow> Some x | JNull \<Rightarrow> Some [] | _ \<Rightarrow> None) v)"

definition RegisterEnvelope :: "annotations option \<Rightarrow> string list \<Rightarrow> annotations option" where
  "RegisterEnvelope cmd dataLocators =
    (case cmd of
       None \<Rightarrow> None
     | Some anns \<Rightarrow>
         Some (anns(envelopeAnnotationKey \<mapsto> ''true'', locatorsAnnotationKey \<mapsto> enc_strings (sortedUnique dataLocators))))"

definition envelopeLocators :: "string list" where
  "envelopeLocators = [''meta.idempotency_key'', ''meta.span_id'', ''meta.trace_id'']"

definition NonDeterministicFields :: "annotations \<Rightarrow> string list" where
  "NonDeterministicFields anns =
    (if anns_get anns envelopeAnnotationKey \<noteq> ''true'' then []
     else
       sortedUnique (envelopeLocators @
         (case dec_strings (anns_get anns locatorsAnnotationKey) of
            None \<Rightarrow> []
          | Some dataLocators \<Rightarrow> filter (\<lambda>l. has_prefix l ''data.'') dataLocators)))"

definition WithNonDeterministicFields :: "type_env \<Rightarrow> annotations option \<Rightarrow> nat \<Rightarrow> annotations option option" where
  "WithNonDeterministicFields env cmd t =
    (case cmd of
       None \<Rightarrow> Some None
     | Some _ \<Rightarrow> map_option (RegisterEnvelope cmd) (DataLocators env t))"

section \<open>Lemmas: locators\<close>

lemma sortedUnique_facts [simp]: "set (sortedUnique vs) = set vs" "sorted (sortedUnique vs)" "distinct (sortedUnique vs)"
  by (simp_all add: sortedUnique_def)

lemma sortedUnique_unique: "sorted ws \<Longrightarrow> distinct ws \<Longrightarrow> set ws = set vs \<Longrightarrow> sortedUnique vs = ws"
  using sortedUnique_facts by (metis sorted_distinct_set_unique)

text \<open>The element chain of a type: it returns exactly when the chain reaches another kind.\<close>

fun nth_elem :: "type_env \<Rightarrow> nat \<Rightarrow> nat \<Rightarrow> nat" where
  "nth_elem env 0 t = t"
| "nth_elem env (Suc n) t = (case env t of TElem u \<Rightarrow> nth_elem env n u | _ \<Rightarrow> t)"

definition is_elem :: "type_env \<Rightarrow> nat \<Rightarrow> bool" where
  "is_elem env t \<longleftrightarrow> (case env t of TElem _ \<Rightarrow> True | _ \<Rightarrow> False)"

lemma locatorElementType_step:
  "env t = TElem u \<Longrightarrow> locatorElementType env t = locatorElementType env u"
  "\<not> is_elem env t \<Longrightarrow> locatorElementType env t = Some t"
  by (simp_all add: locatorElementType.simps [of env t] is_elem_def split: gtype.splits)

lemma locatorElementType_reaches:
  assumes "locatorElementType env t = Some u"
  shows "\<exists>n. nth_elem env n t = u \<and> \<not> is_elem env u"
proof (rule locatorElementType.raw_induct [OF _ assms])
  fix rec env t u
  assume ih: "\<And>env t u. rec env t = Some u \<Longrightarrow> \<exists>n. nth_elem env n t = u \<and> \<not> is_elem env u"
    and step: "(case env t of TElem v \<Rightarrow> rec env v | _ \<Rightarrow> Some t) = Some u"
  show "\<exists>n. nth_elem env n t = u \<and> \<not> is_elem env u"
  proof (cases "env t")
    case (TElem v)
    then have "\<exists>n. nth_elem env n v = u \<and> \<not> is_elem env u" using step by (intro ih) simp
    then obtain n where "nth_elem env n v = u" "\<not> is_elem env u" by blast
    then show ?thesis using TElem by (intro exI [of _ "Suc n"]) simp
  qed (use step in \<open>auto intro!: exI [of _ 0] simp: is_elem_def\<close>)
qed

lemma locatorElementType_returns_iff:
  "locatorElementType env t \<noteq> None \<longleftrightarrow> (\<exists>n. \<not> is_elem env (nth_elem env n t))"
proof
  assume "locatorElementType env t \<noteq> None"
  then show "\<exists>n. \<not> is_elem env (nth_elem env n t)" using locatorElementType_reaches by fastforce
next
  assume "\<exists>n. \<not> is_elem env (nth_elem env n t)"
  then obtain n where "\<not> is_elem env (nth_elem env n t)" ..
  then show "locatorElementType env t \<noteq> None"
  proof (induction n arbitrary: t)
    case 0
    then show ?case by (simp add: locatorElementType_step)
  next
    case (Suc n)
    show ?case
    proof (cases "env t")
      case (TElem u)
      then show ?thesis using Suc locatorElementType_step(1) by simp
    qed (simp_all add: locatorElementType_step is_elem_def)
  qed
qed

text \<open>
  The reference: a locator is a chain of visible fields from the struct of the
  type, with no struct repeated, that ends in a marked field; an embedded struct
  adds no segment.
\<close>

definition field_visible :: "field \<Rightarrow> bool" where
  "field_visible f \<longleftrightarrow> fd_exported f \<and> fd_json f \<noteq> ''-''"

definition segment :: "type_env \<Rightarrow> field \<Rightarrow> string list" where
  "segment env f =
    (let name = takeWhile (\<lambda>c. c \<noteq> CHR '','') (fd_json f) in
     if fd_Anonymous f \<and> name = [] \<and> (\<exists>u fs. locatorElementType env (fd_Type f) = Some u \<and> env u = TStruct fs) then []
     else if name = [] then [fd_Name f] else [name])"

fun field_chain :: "type_env \<Rightarrow> nat \<Rightarrow> (nat \<times> field) list \<Rightarrow> bool" where
  "field_chain env t [] = True"
| "field_chain env t ((u, f) # c) \<longleftrightarrow>
    locatorElementType env t = Some u \<and> (\<exists>fs. env u = TStruct fs \<and> f \<in> set fs) \<and> field_visible f \<and> field_chain env (fd_Type f) c"

definition locator_chain :: "type_env \<Rightarrow> nat \<Rightarrow> nat set \<Rightarrow> nat \<Rightarrow> string list \<Rightarrow> string \<Rightarrow> (nat \<times> field) list \<Rightarrow> bool" where
  "locator_chain env d active t path l c \<longleftrightarrow>
    c \<noteq> [] \<and> length c \<le> d \<and> distinct (map fst c) \<and> set (map fst c) \<inter> active = {} \<and> field_chain env t c \<and>
    fd_ax (snd (last c)) = ''nondeterministic'' \<and> l = str_join ''.'' (path @ concat (map (segment env \<circ> snd) c))"

lemma field_path_Some:
  assumes "field_path env path f = Some r"
  shows "r = (if field_visible f then Some (path @ segment env f) else None)"
  using assms
  by (auto simp: field_path_def field_visible_def segment_def jsonFieldName_def anonymousStructField_def Let_def
      split: if_splits option.splits gtype.splits bool.splits)

lemma walk_fields_iff:
  assumes "walk_fields w env path fs = Some ws"
  shows "l \<in> set ws \<longleftrightarrow> (\<exists>f \<in> set fs. field_visible f \<and>
    ((fd_ax f = ''nondeterministic'' \<and> l = str_join ''.'' (path @ segment env f)) \<or>
     (\<exists>inner. w (fd_Type f) (path @ segment env f) = Some inner \<and> l \<in> set inner)))"
  using assms
proof (induction fs arbitrary: ws)
  case (Cons f fs)
  obtain r where r: "field_path env path f = Some r" using Cons.prems by (auto split: option.splits)
  show ?case
  proof (cases "field_visible f")
    case False
    then show ?thesis using Cons field_path_Some [OF r] r by simp
  next
    case True
    then have r': "field_path env path f = Some (Some (path @ segment env f))" using field_path_Some [OF r] r by simp
    obtain inner rest where "w (fd_Type f) (path @ segment env f) = Some inner" "walk_fields w env path fs = Some rest"
      "ws = (if fd_ax f = ''nondeterministic'' then [str_join ''.'' (path @ segment env f)] else []) @ inner @ rest"
      using Cons.prems r' by (auto split: option.splits)
    then show ?thesis using Cons.IH True by auto
  qed
qed simp

lemma walk_fields_inner:
  assumes "walk_fields w env path fs = Some ws" and "f \<in> set fs" and "field_visible f"
  shows "\<exists>inner. w (fd_Type f) (path @ segment env f) = Some inner"
  using assms
proof (induction fs arbitrary: ws)
  case (Cons g fs)
  obtain r where r: "field_path env path g = Some r" using Cons.prems by (auto split: option.splits)
  show ?case
    using Cons field_path_Some [OF r] r by (auto split: option.splits if_splits)
qed simp

lemma walk_fields_returns:
  assumes "\<And>t p. w t p \<noteq> None" and "\<And>t. locatorElementType env t \<noteq> None"
  shows "walk_fields w env path fs \<noteq> None"
proof (induction fs)
  case (Cons f fs)
  have "field_path env path f \<noteq> None"
    using assms(2) [of "fd_Type f"] by (auto simp: field_path_def anonymousStructField_def split: option.splits bool.splits)
  then obtain r where r: "field_path env path f = Some r" by blast
  obtain rest where "walk_fields w env path fs = Some rest" using Cons by blast
  then show ?case using r assms(1) [of "fd_Type f" "the r"] by (auto split: option.splits)
qed simp

lemma walkDataLocators_returns:
  assumes "\<And>t. locatorElementType env t \<noteq> None"
  shows "walkDataLocators d env active t path \<noteq> None"
proof (induction d arbitrary: active t path)
  case (Suc d)
  obtain u where u: "locatorElementType env t = Some u" using assms [of t] by blast
  have "walk_fields (walkDataLocators d env (insert u active)) env path fs \<noteq> None" for fs
    by (rule walk_fields_returns [OF Suc.IH assms])
  then show ?case using u by (simp split: gtype.split)
qed simp

lemma chain_Cons:
  "locator_chain env (Suc d) active t path l ((u, f) # c) \<longleftrightarrow>
    locatorElementType env t = Some u \<and> (\<exists>fs. env u = TStruct fs \<and> f \<in> set fs) \<and> u \<notin> active \<and> field_visible f \<and>
    (if c = [] then fd_ax f = ''nondeterministic'' \<and> l = str_join ''.'' (path @ segment env f)
     else locator_chain env d (insert u active) (fd_Type f) (path @ segment env f) l c)"
  by (auto simp: locator_chain_def)

lemma chain_Cons_ex:
  "(\<exists>c. locator_chain env (Suc d) active t path l ((u, f) # c)) \<longleftrightarrow>
    locatorElementType env t = Some u \<and> (\<exists>fs. env u = TStruct fs \<and> f \<in> set fs) \<and> u \<notin> active \<and> field_visible f \<and>
    ((fd_ax f = ''nondeterministic'' \<and> l = str_join ''.'' (path @ segment env f)) \<or>
     (\<exists>c. locator_chain env d (insert u active) (fd_Type f) (path @ segment env f) l c))"
  (is "?L \<longleftrightarrow> ?G \<and> ?F \<and> ?U \<and> ?V \<and> (?A \<or> ?C)")
proof
  assume ?L
  then obtain c where "locator_chain env (Suc d) active t path l ((u, f) # c)" ..
  then show "?G \<and> ?F \<and> ?U \<and> ?V \<and> (?A \<or> ?C)" unfolding chain_Cons by (cases "c = []") auto
next
  assume r: "?G \<and> ?F \<and> ?U \<and> ?V \<and> (?A \<or> ?C)"
  then consider ?A | c where "locator_chain env d (insert u active) (fd_Type f) (path @ segment env f) l c" by blast
  then show ?L
  proof cases
    case 1
    then have "locator_chain env (Suc d) active t path l [(u, f)]" using r by (simp add: chain_Cons)
    then show ?thesis ..
  next
    case (2 c)
    then have "c \<noteq> []" by (simp add: locator_chain_def)
    then have "locator_chain env (Suc d) active t path l ((u, f) # c)" using r 2 by (simp add: chain_Cons)
    then show ?thesis ..
  qed
qed

lemma walkDataLocators_iff:
  assumes "walkDataLocators d env active t path = Some ws"
  shows "l \<in> set ws \<longleftrightarrow> (\<exists>c. locator_chain env d active t path l c)"
  using assms
proof (induction d arbitrary: active t path ws)
  case 0
  then show ?case by (simp add: locator_chain_def)
next
  case (Suc d)
  obtain u where u: "locatorElementType env t = Some u" using Suc.prems by (auto split: option.splits)
  have split: "(\<exists>c. locator_chain env (Suc d) active t path l c) \<longleftrightarrow> (\<exists>f c. locator_chain env (Suc d) active t path l ((u, f) # c))"
    (is "?L \<longleftrightarrow> ?R")
  proof
    assume ?L
    then obtain c where c: "locator_chain env (Suc d) active t path l c" ..
    then obtain v f c' where cons: "c = (v, f) # c'" by (cases c) (auto simp: locator_chain_def)
    then have "v = u" using c u by (simp add: chain_Cons)
    with c cons show ?R by blast
  qed blast
  show ?case
  proof (cases "env u")
    case (TStruct fs)
    show ?thesis
    proof (cases "u \<in> active")
      case True
      then show ?thesis using Suc.prems u TStruct unfolding split by (simp add: chain_Cons)
    next
      case False
      then have ws: "walk_fields (walkDataLocators d env (insert u active)) env path fs = Some ws"
        using Suc.prems u TStruct by simp
      have "(\<exists>inner. walkDataLocators d env (insert u active) (fd_Type f) (path @ segment env f) = Some inner \<and> l \<in> set inner) \<longleftrightarrow>
          (\<exists>c. locator_chain env d (insert u active) (fd_Type f) (path @ segment env f) l c)" if vis: "f \<in> set fs" "field_visible f" for f
      proof -
        obtain inner where "walkDataLocators d env (insert u active) (fd_Type f) (path @ segment env f) = Some inner"
          using walk_fields_inner [OF ws vis] by blast
        then show ?thesis using Suc.IH by simp
      qed
      moreover have "(\<exists>c. locator_chain env (Suc d) active t path l ((u, f) # c)) \<longleftrightarrow> f \<in> set fs \<and> field_visible f \<and>
          ((fd_ax f = ''nondeterministic'' \<and> l = str_join ''.'' (path @ segment env f)) \<or>
           (\<exists>c. locator_chain env d (insert u active) (fd_Type f) (path @ segment env f) l c))" for f
        by (simp add: chain_Cons_ex u TStruct False)
      ultimately show ?thesis
        unfolding walk_fields_iff [OF ws] split by (simp only:) blast
    qed
  qed (use Suc.prems u in \<open>simp_all add: split chain_Cons\<close>)
qed

lemma valid_utf8_wf_strings: "\<forall>s \<in> set ss. valid_utf8 s \<Longrightarrow> wf_json (JArr (map JStr ss)) \<and> jdepth (JArr (map JStr ss)) \<le> 1"
proof -
  have "foldr max (map (jdepth \<circ> JStr) ss) 0 \<le> 0" unfolding foldr_max_le by simp
  then show "\<forall>s \<in> set ss. valid_utf8 s \<Longrightarrow> wf_json (JArr (map JStr ss)) \<and> jdepth (JArr (map JStr ss)) \<le> 1" by simp
qed

lemma dec_enc_strings:
  assumes "\<forall>s \<in> set ss. valid_utf8 s"
  shows "dec_strings (enc_strings ss) = Some ss"
proof -
  have "unmarshal (enc_strings ss) = Some (JArr (map JStr ss))"
    unfolding enc_strings_def using valid_utf8_wf_strings [OF assms]
    by (intro unmarshal_marshal) (simp_all add: maxNestingDepth_def)
  moreover have "those (map (\<lambda>s. Some s) ss) = Some ss" by (induction ss) simp_all
  ultimately show ?thesis by (simp add: dec_strings_def decode_list_def comp_def)
qed

section \<open>Properties\<close>

text \<open>
  C19. When every element chain of the type graph ends, \<^verbatim>\<open>DataLocators\<close> returns, also on
  recursive structs, and gives in sorted order and without repetition exactly the
  locators of the marked fields: the chains of at most 64 visible fields from the
  type, through pointers and containers and with no struct repeated, written with
  their JSON names below \<^verbatim>\<open>data\<close>.
\<close>

theorem DataLocators_characterised:
  assumes "\<And>u. locatorElementType env u \<noteq> None"
  shows "\<exists>ls. DataLocators env t = Some ls \<and> sorted ls \<and> distinct ls \<and>
    (\<forall>l. l \<in> set ls \<longleftrightarrow> (\<exists>c. c \<noteq> [] \<and> length c \<le> 64 \<and> distinct (map fst c) \<and> field_chain env t c \<and>
      fd_ax (snd (last c)) = ''nondeterministic'' \<and> l = str_join ''.'' (''data'' # concat (map (segment env \<circ> snd) c))))"
proof -
  obtain ws where ws: "walkDataLocators maxLocatorDepth env {} t [''data''] = Some ws"
    using walkDataLocators_returns [OF assms] by blast
  then have "DataLocators env t = Some (sortedUnique ws)" by (simp add: DataLocators_def)
  moreover have "l \<in> set (sortedUnique ws) \<longleftrightarrow> (\<exists>c. c \<noteq> [] \<and> length c \<le> 64 \<and> distinct (map fst c) \<and> field_chain env t c \<and>
      fd_ax (snd (last c)) = ''nondeterministic'' \<and> l = str_join ''.'' (''data'' # concat (map (segment env \<circ> snd) c)))" for l
    using walkDataLocators_iff [OF ws, of l] by (simp add: locator_chain_def maxLocatorDepth_def)
  ultimately show ?thesis by simp
qed

text \<open>A recursive struct: a node with a marked time stamp and a list of pointers to nodes.\<close>

definition sample_types :: type_env where
  "sample_types = (\<lambda>t. TOther)(0 := TStruct
     [\<lparr>fd_Name = ''At'', fd_exported = True, fd_Anonymous = False, fd_json = ''at,omitempty'', fd_ax = ''nondeterministic'', fd_Type = 3\<rparr>,
      \<lparr>fd_Name = ''Next'', fd_exported = True, fd_Anonymous = False, fd_json = [], fd_ax = [], fd_Type = 1\<rparr>],
     1 := TElem 2, 2 := TElem 0)"

theorem DataLocators_characterised_witness:
  "DataLocators sample_types 1 = Some [''data.at''] \<and>
   (\<exists>c. c \<noteq> [] \<and> length c \<le> 64 \<and> distinct (map fst c) \<and> field_chain sample_types 1 c \<and>
      fd_ax (snd (last c)) = ''nondeterministic'' \<and> ''data.at'' = str_join ''.'' (''data'' # concat (map (segment sample_types \<circ> snd) c)))"
proof -
  have ret: "locatorElementType sample_types u \<noteq> None" for u
    unfolding locatorElementType_returns_iff
    by (intro exI [of _ 2]) (simp add: numeral_2_eq_2 sample_types_def is_elem_def)
  have val: "DataLocators sample_types 1 = Some [''data.at'']" by code_simp
  obtain ls where ls: "DataLocators sample_types 1 = Some ls" and ch:
    "\<forall>l. l \<in> set ls \<longleftrightarrow> (\<exists>c. c \<noteq> [] \<and> length c \<le> 64 \<and> distinct (map fst c) \<and> field_chain sample_types 1 c \<and>
      fd_ax (snd (last c)) = ''nondeterministic'' \<and> l = str_join ''.'' (''data'' # concat (map (segment sample_types \<circ> snd) c)))"
    using DataLocators_characterised [OF ret, of 1] by blast
  from ls val have "''data.at'' \<in> set ls" by simp
  with ch val show ?thesis by blast
qed

text \<open>
  C20. The depth bound does not bound the loop over element types: for a Go type
  that is its own element, such as \<^verbatim>\<open>type T []T\<close> or \<^verbatim>\<open>type T map[string]T\<close>, alone or as
  the type of the first visible field of a struct, \<^verbatim>\<open>DataLocators\<close> does not return.
\<close>

theorem DataLocators_self_element_hangs:
  assumes "env t = TElem t"
  shows "DataLocators env t = None \<and>
    (\<forall>s f fs. env s = TStruct (f # fs) \<and> field_visible f \<and> fd_Type f = t \<longrightarrow> DataLocators env s = None)"
proof -
  have "nth_elem env n t = t" for n using assms by (induction n) simp_all
  then have none: "locatorElementType env t = None"
    using locatorElementType_returns_iff [of env t] assms by (auto simp: is_elem_def)
  have "DataLocators env s = None" if s: "env s = TStruct (f # fs)" "field_visible f" "fd_Type f = t" for s f fs
  proof -
    have "locatorElementType env s = Some s" using s(1) by (simp add: locatorElementType_step is_elem_def)
    moreover have "walk_fields (walkDataLocators (Suc d) env A) env path (f # fs) = None" for d A path
      using none s(2,3) field_path_Some [of env path f] by (auto split: option.splits)
    ultimately show ?thesis using s(1) by (simp add: DataLocators_def maxLocatorDepth_def eval_nat_numeral del: walk_fields.simps)
  qed
  moreover have "DataLocators env t = None"
    using none by (simp add: DataLocators_def maxLocatorDepth_def eval_nat_numeral)
  ultimately show ?thesis by blast
qed

theorem DataLocators_self_element_hangs_witness:
  "DataLocators ((\<lambda>_. TOther)(0 := TElem 0)) 0 = None"
  using DataLocators_self_element_hangs [of "(\<lambda>_. TOther)(0 := TElem 0)" 0] by simp

text \<open>
  What \<^verbatim>\<open>RegisterEnvelope\<close> stores is what \<^verbatim>\<open>NonDeterministicFields\<close> reads back: the three
  built-in envelope locators and the registered ones below \<^verbatim>\<open>data.\<close>, sorted and
  without repetition, whatever was registered before; other annotations are
  untouched. A hand-written locator annotation that does not decode leaves
  exactly the built-in ones, and without registration there are none.
\<close>

theorem envelope_registration_roundtrip:
  assumes "\<forall>l \<in> set ls. valid_utf8 l"
  shows "(\<exists>anns'. RegisterEnvelope (Some anns) ls = Some anns' \<and>
       NonDeterministicFields anns' = sortedUnique (envelopeLocators @ filter (\<lambda>l. has_prefix l ''data.'') ls) \<and>
       (\<forall>k. k \<noteq> envelopeAnnotationKey \<and> k \<noteq> locatorsAnnotationKey \<longrightarrow> anns' k = anns k)) \<and>
     (dec_strings raw = None \<longrightarrow>
       NonDeterministicFields (anns(envelopeAnnotationKey \<mapsto> ''true'', locatorsAnnotationKey \<mapsto> raw)) = envelopeLocators) \<and>
     (anns envelopeAnnotationKey \<noteq> Some ''true'' \<longrightarrow> NonDeterministicFields anns = [])"
proof (intro conjI impI)
  have keys: "envelopeAnnotationKey \<noteq> locatorsAnnotationKey" by (simp add: envelopeAnnotationKey_def locatorsAnnotationKey_def)
  have dec: "dec_strings (enc_strings (sortedUnique ls)) = Some (sortedUnique ls)" using assms by (intro dec_enc_strings) simp
  have "sortedUnique (envelopeLocators @ filter P (sortedUnique ls)) = sortedUnique (envelopeLocators @ filter P ls)" for P
    by (rule sortedUnique_unique) simp_all
  then show "\<exists>anns'. RegisterEnvelope (Some anns) ls = Some anns' \<and>
     NonDeterministicFields anns' = sortedUnique (envelopeLocators @ filter (\<lambda>l. has_prefix l ''data.'') ls) \<and>
     (\<forall>k. k \<noteq> envelopeAnnotationKey \<and> k \<noteq> locatorsAnnotationKey \<longrightarrow> anns' k = anns k)"
    using keys dec by (simp add: RegisterEnvelope_def NonDeterministicFields_def anns_get_def)
  have "sortedUnique envelopeLocators = envelopeLocators" by code_simp
  then show "NonDeterministicFields (anns(envelopeAnnotationKey \<mapsto> ''true'', locatorsAnnotationKey \<mapsto> raw)) = envelopeLocators"
    if "dec_strings raw = None"
    using keys that by (simp add: NonDeterministicFields_def anns_get_def)
  show "NonDeterministicFields anns = []" if "anns envelopeAnnotationKey \<noteq> Some ''true''"
    using that by (auto simp: NonDeterministicFields_def anns_get_def split: option.splits)
qed

theorem envelope_registration_roundtrip_witness:
  "NonDeterministicFields (the (RegisterEnvelope (Some Map.empty) [''data.at'', ''other'', ''data.at''])) =
     [''data.at'', ''meta.idempotency_key'', ''meta.span_id'', ''meta.trace_id'']"
proof -
  define ls where "ls = [''data.at'', ''other'', ''data.at'']"
  have "\<forall>l \<in> set ls. valid_utf8 l" unfolding ls_def by (auto intro!: valid_utf8_ascii simp: byte_def)
  from envelope_registration_roundtrip [OF this, of Map.empty "[]"]
  have "NonDeterministicFields (the (RegisterEnvelope (Some Map.empty) ls)) =
      sortedUnique (envelopeLocators @ filter (\<lambda>l. has_prefix l ''data.'') ls)" by auto
  also have "\<dots> = [''data.at'', ''meta.idempotency_key'', ''meta.span_id'', ''meta.trace_id'']" unfolding ls_def by code_simp
  finally show ?thesis unfolding ls_def .
qed

end
