(* ===== verification/Mcp_Dispatch.thy ===== *)
theory Mcp_Dispatch
  imports Ax_Hooks Schema_Convert
begin

text \<open>
  \<^verbatim>\<open>src/internal/mcpserver/dispatch.go\<close>: a \<^verbatim>\<open>tools/call\<close> request becomes an isolated
  run of the shared command tree. Arguments are decoded and checked, an argument
  vector with forced machine mode is assembled, every flag of the tree is reset,
  and the command runs behind a panic boundary. Calls are serialised by a mutex, so
  the model is a sequence of calls. The flag values of other packages and the run
  of the command are arguments. The two main results: the server never grants
  approval on the client's behalf, and no call sees what an earlier call set.
\<close>

section \<open>Flags, commands and the dispatcher\<close>

text \<open>
  A flag in the store: its type, whether it is a slice, whether Cobra marks it
  required, its default text, its value and the changed bit.
\<close>

record 'v dflag =
  df_name :: string
  df_type :: string
  df_slice :: bool
  df_required :: bool
  df_def :: string
  df_value :: 'v
  df_changed :: bool

type_synonym 'v dstore = "nat \<Rightarrow> 'v dflag"

text \<open>The commands above a tool's command, nearest first, by identity and name.\<close>

record dcommand =
  dc_chain :: "(nat \<times> string) list"
  dc_local :: "nat list"
  dc_inherited :: "nat list"

record dispatcher =
  d_root :: nat
  d_serverName :: string
  d_version :: string
  d_targets :: "string \<rightharpoonup> dcommand"
  d_toolNames :: "string list"
  d_flags :: "nat list"
  d_sliceDefaults :: "nat \<Rightarrow> string list"

record callConfig =
  cc_mode :: Mode
  cc_dryRun :: bool
  cc_approval :: bool
  cc_idempotencyKey :: string

definition validationError :: "dispatcher \<Rightarrow> gctx \<Rightarrow> string \<Rightarrow> ax_error" where
  "validationError d ctx message =
    NewError (Some ctx) ErrorCodeValidationError message
      [WithErrorTool (d_serverName d), WithErrorVersion (d_version d), WithErrorExitCode ExitValidation]"

definition acceptedFlags :: "'v dstore \<Rightarrow> dcommand \<Rightarrow> (string \<times> nat) list" where
  "acceptedFlags st cmd =
    fold (\<lambda>a flags. if map_of flags (df_name (st a)) \<noteq> None then flags else flags @ [(df_name (st a), a)])
      (dc_local cmd @ dc_inherited cmd) []"

definition commandPathArgs :: "nat \<Rightarrow> dcommand \<Rightarrow> string list" where
  "commandPathArgs root target = rev (map snd (takeWhile (\<lambda>c. fst c \<noteq> root) (dc_chain target)))"

section \<open>Converting arguments\<close>

definition type_name :: "json \<Rightarrow> string" where
  "type_name v = (case v of JArr _ \<Rightarrow> ''[]interface {}'' | _ \<Rightarrow> ''map[string]interface {}'')"

text \<open>A conversion error by its text, or the text of the flag; a null is skipped.\<close>

fun stringifyArg :: "json \<Rightarrow> string + string option" where
  "stringifyArg JNull = Inr None"
| "stringifyArg (JBool b) = Inr (Some (FormatBool b))"
| "stringifyArg (JStr s) = Inr (Some s)"
| "stringifyArg (JNum n) = Inr (Some n)"
| "stringifyArg v = Inl (''unsupported value type '' @ type_name v)"

text \<open>\<^term>\<open>csv\<close> is the first record of a CSV reader, or its error text.\<close>

definition splitScalarSliceArg :: "(string \<Rightarrow> string + string list) \<Rightarrow> string \<Rightarrow> string \<Rightarrow> string + string list" where
  "splitScalarSliceArg csv v ty =
    (if ty = ''stringArray'' then Inr [v]
     else if ty = ''stringSlice'' then (if v = [] then Inr [] else csv v)
     else Inr (split_comma v))"

fun stringify_items :: "nat \<Rightarrow> json list \<Rightarrow> string + string list" where
  "stringify_items i [] = Inr []"
| "stringify_items i (v # vs) =
    (case stringifyArg v of
       Inl e \<Rightarrow> Inl (''item '' @ itoa (int i) @ '': '' @ e)
     | Inr None \<Rightarrow> Inl (''item '' @ itoa (int i) @ '' must not be null'')
     | Inr (Some s) \<Rightarrow> (case stringify_items (i + 1) vs of Inl e \<Rightarrow> Inl e | Inr ss \<Rightarrow> Inr (s # ss)))"

definition stringifyArgList :: "(string \<Rightarrow> string + string list) \<Rightarrow> json \<Rightarrow> string \<Rightarrow> string + string list option" where
  "stringifyArgList csv v ty =
    (case v of
       JNull \<Rightarrow> Inr None
     | JArr vs \<Rightarrow> (case stringify_items 0 vs of Inl e \<Rightarrow> Inl e | Inr ss \<Rightarrow> Inr (Some ss))
     | _ \<Rightarrow>
         (case stringifyArg v of
            Inl e \<Rightarrow> Inl e
          | Inr None \<Rightarrow> Inr None
          | Inr (Some s) \<Rightarrow> (case splitScalarSliceArg csv s ty of Inl e \<Rightarrow> Inl e | Inr ss \<Rightarrow> Inr (Some ss))))"

text \<open>
  \<^verbatim>\<open>decodeArguments\<close>: the decoder reads one value; later members of an object
  replace earlier ones with the same name.
\<close>

definition decodeArguments :: "string \<Rightarrow> (string \<times> json) list option" where
  "decodeArguments raw =
    (if trim_space raw = [] then Some []
     else
       (case parse_value maxNestingDepth raw of
          Some (JObj members, _) \<Rightarrow> Some (foldl (\<lambda>m (k, v). AList.update k v m) [] members)
        | Some (JNull, _) \<Rightarrow> Some []
        | _ \<Rightarrow> None))"

section \<open>Building the argument vector\<close>

record building =
  b_flagArgs :: "string list"
  b_assignments :: "(nat \<times> string list) list"
  b_set :: "string list"
  b_cc :: callConfig

definition applyCallConfigArg :: "(nat \<Rightarrow> bool) \<Rightarrow> dispatcher \<Rightarrow> gctx \<Rightarrow> callConfig \<Rightarrow> string \<Rightarrow> json \<Rightarrow> ax_error + callConfig option" where
  "applyCallConfigArg isprint d ctx cc key v =
    (if key = FlagFormat then Inr (Some cc)
     else if key = FlagDryRun then
       (case v of JBool b \<Rightarrow> Inr (Some (cc\<lparr>cc_dryRun := b\<rparr>))
        | _ \<Rightarrow> Inl (validationError d ctx (''argument '' @ quote isprint key @ '' must be a boolean'')))
     else if key = FlagYes then
       (case v of JBool b \<Rightarrow> Inr (Some (cc\<lparr>cc_approval := b\<rparr>))
        | _ \<Rightarrow> Inl (validationError d ctx (''argument '' @ quote isprint key @ '' must be a boolean'')))
     else if key = FlagIdempotencyKey then
       (case v of JStr s \<Rightarrow> Inr (Some (cc\<lparr>cc_idempotencyKey := s\<rparr>))
        | _ \<Rightarrow> Inl (validationError d ctx (''argument '' @ quote isprint key @ '' must be a string'')))
     else Inr None)"

definition appendConvertedFlagArg ::
  "(nat \<Rightarrow> bool) \<Rightarrow> (string \<Rightarrow> string + string list) \<Rightarrow> dispatcher \<Rightarrow> gctx \<Rightarrow> 'v dstore \<Rightarrow> string \<Rightarrow> nat \<Rightarrow> json \<Rightarrow> building \<Rightarrow>
   ax_error + building" where
  "appendConvertedFlagArg isprint csv d ctx st key a v b =
    (if df_slice (st a) then
       (case stringifyArgList csv v (df_type (st a)) of
          Inl e \<Rightarrow> Inl (validationError d ctx (''argument '' @ quote isprint key @ '': '' @ e))
        | Inr None \<Rightarrow> Inr b
        | Inr (Some ss) \<Rightarrow> Inr (b\<lparr>b_assignments := b_assignments b @ [(a, ss)], b_set := b_set b @ [key]\<rparr>))
     else
       (case stringifyArg v of
          Inl e \<Rightarrow> Inl (validationError d ctx (''argument '' @ quote isprint key @ '': '' @ e))
        | Inr None \<Rightarrow> Inr b
        | Inr (Some s) \<Rightarrow>
            Inr (b\<lparr>b_flagArgs := b_flagArgs b @ [''--'' @ key @ ''='' @ s], b_set := b_set b @ [key]\<rparr>)))"

fun build_keys ::
  "(nat \<Rightarrow> bool) \<Rightarrow> (string \<Rightarrow> string + string list) \<Rightarrow> dispatcher \<Rightarrow> gctx \<Rightarrow> 'v dstore \<Rightarrow> (string \<times> nat) list \<Rightarrow> string \<Rightarrow>
   (string \<Rightarrow> json) \<Rightarrow> string list \<Rightarrow> building \<Rightarrow> ax_error + building" where
  "build_keys isprint csv d ctx st allowed name args [] b = Inr b"
| "build_keys isprint csv d ctx st allowed name args (key # keys) b =
    (case map_of allowed key of
       None \<Rightarrow> Inl (validationError d ctx (''unknown argument '' @ quote isprint key @ '' for tool '' @ quote isprint name))
     | Some a \<Rightarrow>
         (case applyCallConfigArg isprint d ctx (b_cc b) key (args key) of
            Inl e \<Rightarrow> Inl e
          | Inr (Some cc) \<Rightarrow>
              build_keys isprint csv d ctx st allowed name args keys (b\<lparr>b_cc := cc, b_set := b_set b @ [key]\<rparr>)
          | Inr None \<Rightarrow>
              (case appendConvertedFlagArg isprint csv d ctx st key a (args key) b of
                 Inl e \<Rightarrow> Inl e
               | Inr b' \<Rightarrow> build_keys isprint csv d ctx st allowed name args keys b')))"

definition missingRequiredFlag :: "'v dstore \<Rightarrow> (string \<times> nat) list \<Rightarrow> string list \<Rightarrow> string" where
  "missingRequiredFlag st allowed set_flags =
    (case find (\<lambda>n. (case map_of allowed n of Some a \<Rightarrow> df_required (st a) | None \<Rightarrow> False) \<and> n \<notin> set set_flags)
            (sort (map fst allowed)) of
       Some n \<Rightarrow> n | None \<Rightarrow> [])"

text \<open>
  \<^verbatim>\<open>buildArgs\<close>. \<^term>\<open>args\<close> is the decoded object as an association list in any order;
  \<^term>\<open>new_key\<close> is the generated idempotency key.
\<close>

definition buildArgs ::
  "(nat \<Rightarrow> bool) \<Rightarrow> (string \<Rightarrow> string + string list) \<Rightarrow> string \<Rightarrow> dispatcher \<Rightarrow> 'v dstore \<Rightarrow> gctx \<Rightarrow> dcommand \<Rightarrow> string \<Rightarrow>
   (string \<times> json) list \<Rightarrow> ax_error + string list \<times> (nat \<times> string list) list \<times> callConfig" where
  "buildArgs isprint csv new_key d st ctx target name args =
    (let allowed = acceptedFlags st target;
         cc0 = \<lparr>cc_mode = ModeJSON, cc_dryRun = False, cc_approval = False, cc_idempotencyKey = []\<rparr>;
         keys = sort (map fst args)
     in case build_keys isprint csv d ctx st allowed name (\<lambda>k. case map_of args k of Some v \<Rightarrow> v | None \<Rightarrow> JNull) keys
               \<lparr>b_flagArgs = [], b_assignments = [], b_set = [], b_cc = cc0\<rparr> of
          Inl e \<Rightarrow> Inl e
        | Inr b \<Rightarrow>
            let set_flags = b_set b @ [FlagFormat, FlagDryRun, FlagIdempotencyKey] in
            let missing = missingRequiredFlag st allowed set_flags in
            (if missing \<noteq> [] then
                 Inl (validationError d ctx (''required argument '' @ quote isprint missing @ '' not provided for tool '' @ quote isprint name))
             else
                 let cc = (if cc_idempotencyKey (b_cc b) = [] then (b_cc b)\<lparr>cc_idempotencyKey := new_key\<rparr> else b_cc b);
                     flagArgs = b_flagArgs b @ [''--'' @ FlagFormat @ ''='' @ ModeJSON] @
                       (if cc_dryRun cc then [''--'' @ FlagDryRun @ ''=true''] else []) @
                       (if FlagYes \<in> set set_flags then [''--'' @ FlagYes @ ''='' @ FormatBool (cc_approval cc)] else []) @
                       [''--'' @ FlagIdempotencyKey @ ''='' @ cc_idempotencyKey cc]
                 in Inr (commandPathArgs (d_root d) target @ sort flagArgs, b_assignments b, cc)))"

definition applyCallConfig :: "gctx \<Rightarrow> callConfig \<Rightarrow> gctx" where
  "applyCallConfig ctx cc =
    WithIdempotencyKey (WithApproval (WithDryRun (WithMode ctx (cc_mode cc)) (cc_dryRun cc)) (cc_approval cc)) (cc_idempotencyKey cc)"


section \<open>Resetting and running\<close>

text \<open>
  The methods of flag values and the run of the command tree, all code of other
  packages. Each may panic, with the panic value's text. \<^verbatim>\<open>run\<close> gets the context,
  the argument vector and the flags, and gives its output, its stderr, the error
  \<^verbatim>\<open>ExecuteContext\<close> returned and the flags afterwards.
\<close>

datatype 'a call = Returned 'a | Panicked string

record 'v run_result =
  r_out :: string
  r_err :: string
  r_error :: "go_error option call"
  r_store :: "'v dstore"

record 'v flag_ops =
  op_set :: "'v dflag \<Rightarrow> string \<Rightarrow> (go_error option \<times> 'v) call"
  op_replace :: "'v dflag \<Rightarrow> string list \<Rightarrow> (go_error option \<times> 'v) call"
  op_run :: "gctx \<Rightarrow> string list \<Rightarrow> 'v dstore \<Rightarrow> 'v run_result"

definition reset_flag :: "'v flag_ops \<Rightarrow> dispatcher \<Rightarrow> nat \<Rightarrow> 'v dstore \<Rightarrow> string option \<times> 'v dstore" where
  "reset_flag ops d a st =
    (let f = st a in
     if df_slice f then
       (case op_replace ops f (d_sliceDefaults d a) of
          Panicked msg \<Rightarrow> (Some msg, st)
        | Returned (_, v) \<Rightarrow> (None, st(a := f\<lparr>df_value := v, df_changed := False\<rparr>)))
     else if df_changed f then
       (case op_set ops f (df_def f) of
          Panicked msg \<Rightarrow> (Some msg, st)
        | Returned (_, v) \<Rightarrow> (None, st(a := f\<lparr>df_value := v, df_changed := False\<rparr>)))
     else (None, st))"

fun resetFlagSet :: "'v flag_ops \<Rightarrow> dispatcher \<Rightarrow> nat list \<Rightarrow> 'v dstore \<Rightarrow> string option \<times> 'v dstore" where
  "resetFlagSet ops d [] st = (None, st)"
| "resetFlagSet ops d (a # as) st =
    (case reset_flag ops d a st of
       (Some msg, st') \<Rightarrow> (Some msg, st')
     | (None, st') \<Rightarrow> resetFlagSet ops d as st')"

text \<open>\<^verbatim>\<open>resetCommandTree\<close>: the flag sets of all commands of the tree, in walk order.\<close>

definition resetCommandTree :: "'v flag_ops \<Rightarrow> dispatcher \<Rightarrow> 'v dstore \<Rightarrow> string option \<times> 'v dstore" where
  "resetCommandTree ops d st = resetFlagSet ops d (d_flags d) st"

fun applyFlagAssignments ::
  "(nat \<Rightarrow> bool) \<Rightarrow> 'v flag_ops \<Rightarrow> (nat \<times> string list) list \<Rightarrow> 'v dstore \<Rightarrow> go_error option call \<times> 'v dstore" where
  "applyFlagAssignments isprint ops [] st = (Returned None, st)"
| "applyFlagAssignments isprint ops ((a, vs) # rest) st =
    (if \<not> df_slice (st a) then
       (Returned (Some (TextError (''argument '' @ quote isprint (df_name (st a)) @ '' does not accept multiple values''))), st)
     else
       (case op_replace ops (st a) vs of
          Panicked msg \<Rightarrow> (Panicked msg, st)
        | Returned (Some e, v) \<Rightarrow>
            (Returned (Some (WrapError (''argument '' @ quote isprint (df_name (st a))) e)), st(a := (st a)\<lparr>df_value := v\<rparr>))
        | Returned (None, v) \<Rightarrow>
            applyFlagAssignments isprint ops rest (st(a := (st a)\<lparr>df_value := v, df_changed := True\<rparr>))))"

definition panic_error :: "gctx \<Rightarrow> string \<Rightarrow> go_error" where
  "panic_error ctx msg =
    as_error (NewError (Some ctx) ErrorCodeInternalError (''recovered panic during tool dispatch: '' @ msg)
      [WithErrorExitCode ExitInternal])"

text \<open>
  \<^verbatim>\<open>runRecovered\<close> and \<^verbatim>\<open>execute\<close>: the buffered output, the text forwarded to the
  server's stderr, the error, and the flags afterwards.
\<close>

definition runRecovered ::
  "(nat \<Rightarrow> bool) \<Rightarrow> 'v flag_ops \<Rightarrow> dispatcher \<Rightarrow> gctx \<Rightarrow> string list \<Rightarrow> (nat \<times> string list) list \<Rightarrow> 'v dstore \<Rightarrow>
   (string \<times> string \<times> go_error option) \<times> 'v dstore" where
  "runRecovered isprint ops d ctx argv assignments st =
    (case resetCommandTree ops d st of
       (Some msg, st1) \<Rightarrow> (([], [], Some (panic_error ctx msg)), st1)
     | (None, st1) \<Rightarrow>
         (case applyFlagAssignments isprint ops assignments st1 of
            (Panicked msg, st2) \<Rightarrow> (([], [], Some (panic_error ctx msg)), st2)
          | (Returned (Some e), st2) \<Rightarrow> (([], [], Some (as_error (validationError d ctx (error_text isprint e)))), st2)
          | (Returned None, st2) \<Rightarrow>
              let r = op_run ops ctx argv st2 in
              (case r_error r of
                 Panicked msg \<Rightarrow> (([], r_err r, Some (panic_error ctx msg)), r_store r)
               | Returned err \<Rightarrow> ((r_out r, r_err r, err), r_store r))))"

definition resolveTarget :: "(nat \<Rightarrow> bool) \<Rightarrow> dispatcher \<Rightarrow> string \<Rightarrow> string + dcommand" where
  "resolveTarget isprint d name =
    (case d_targets d name of
       Some t \<Rightarrow> Inr t
     | None \<Rightarrow> Inl (''resolve tool '' @ quote isprint name @ '': not in the discovered tool set''))"

definition dispatch ::
  "(nat \<Rightarrow> bool) \<Rightarrow> (string \<Rightarrow> string + string list) \<Rightarrow> string \<Rightarrow> 'v flag_ops \<Rightarrow> dispatcher \<Rightarrow> gctx \<Rightarrow> string \<Rightarrow>
   (string \<times> json) list \<Rightarrow> 'v dstore \<Rightarrow> (string \<times> string \<times> go_error option) \<times> 'v dstore" where
  "dispatch isprint csv new_key ops d ctx name args st =
    (case resolveTarget isprint d name of
       Inl msg \<Rightarrow> (([], [], Some (as_error (validationError d ctx msg))), st)
     | Inr target \<Rightarrow>
         (case buildArgs isprint csv new_key d st ctx target name args of
            Inl e \<Rightarrow> (([], [], Some (as_error e)), st)
          | Inr (argv, assignments, cc) \<Rightarrow> runRecovered isprint ops d (applyCallConfig ctx cc) argv assignments st))"

section \<open>Results\<close>

record tool_result =
  tr_isError :: bool
  tr_text :: string

text \<open>
  \<^verbatim>\<open>toAxError\<close>: the structured error in the chain with its empty fields filled in
  (the code changes the command's own value in place), or a new one; \<^term>\<open>None\<close> is the
  panic on a nil pointer in the chain, outside the recovering function.
\<close>

definition toAxError :: "(nat \<Rightarrow> bool) \<Rightarrow> dispatcher \<Rightarrow> gctx \<Rightarrow> go_error \<Rightarrow> ax_error option" where
  "toAxError isprint d ctx err =
    (case errors_as is_ax_error err of
       Some (AxError f c) \<Rightarrow>
         let f1 = (if Tool f = [] then f\<lparr>Tool := d_serverName d\<rparr> else f);
             f2 = (if Version f1 = [] then f1\<lparr>Version := d_version d\<rparr> else f1);
             f3 = (if TraceID f2 = [] then f2\<lparr>TraceID := TraceIDFromContext (Some ctx)\<rparr> else f2)
         in Some (f3, c)
     | Some _ \<Rightarrow> None
     | None \<Rightarrow>
         Some (NewError (Some ctx) ErrorCodeInternalError (error_text isprint err)
           [WithErrorTool (d_serverName d), WithErrorVersion (d_version d), WithErrorExitCode (ErrorExitCode (Some err))]))"

definition marshal_fallback :: string where
  "marshal_fallback = ''{'' @ [dq] @ ''error_code'' @ [dq] @ '':'' @ [dq] @ ErrorCodeInternalError @ [dq] @ '','' @ [dq] @ ''message'' @
     [dq] @ '':'' @ [dq] @ ''failed to marshal error envelope'' @ [dq] @ ''}''"

definition errorResult :: "(nat \<Rightarrow> bool) \<Rightarrow> (any_value \<Rightarrow> string option) \<Rightarrow> dispatcher \<Rightarrow> gctx \<Rightarrow> go_error \<Rightarrow> tool_result option" where
  "errorResult isprint marshal_any d ctx err =
    (case toAxError isprint d ctx err of
       None \<Rightarrow> None
     | Some (f, _) \<Rightarrow>
         Some \<lparr>tr_isError = True,
           tr_text = (case marshal_any (error_json f) of Some payload \<Rightarrow> payload | None \<Rightarrow> marshal_fallback)\<rparr>)"

definition successResult :: "string \<Rightarrow> tool_result" where
  "successResult stdout = \<lparr>tr_isError = False, tr_text = stdout\<rparr>"

text \<open>
  \<^verbatim>\<open>handle\<close>: a request is \<^term>\<open>None\<close> when it or its parameters are nil, otherwise the
  tool's name and the raw arguments; \<^term>\<open>bad\<close> is the decoder's error text. The
  context already carries the span of the call.
\<close>

definition handle ::
  "(nat \<Rightarrow> bool) \<Rightarrow> (string \<Rightarrow> string + string list) \<Rightarrow> (any_value \<Rightarrow> string option) \<Rightarrow> string \<Rightarrow> (string \<Rightarrow> string) \<Rightarrow>
   'v flag_ops \<Rightarrow> dispatcher \<Rightarrow> gctx \<Rightarrow> (string \<times> string) option \<Rightarrow> 'v dstore \<Rightarrow> tool_result option \<times> 'v dstore" where
  "handle isprint csv marshal_any new_key bad ops d ctx req st =
    (let fail = (\<lambda>msg. errorResult isprint marshal_any d ctx (as_error (validationError d ctx msg))) in
     case req of
       None \<Rightarrow> (fail ''malformed tool call request'', st)
     | Some (name, raw) \<Rightarrow>
         if name \<notin> set (d_toolNames d) then (fail (''unknown tool '' @ quote isprint name), st)
         else
           (case decodeArguments raw of
              None \<Rightarrow> (fail (''invalid arguments: '' @ bad raw), st)
            | Some args \<Rightarrow>
                (case dispatch isprint csv new_key ops d ctx name args st of
                   ((_, _, Some e), st') \<Rightarrow> (errorResult isprint marshal_any d ctx e, st')
                 | ((stdout, _, None), st') \<Rightarrow> (Some (successResult stdout), st'))))"


section \<open>Lemmas: building the arguments\<close>

lemma validationError_exit: "ErrorExitCode (Some (as_error (validationError d ctx msg))) = ExitValidation"
  by (simp add: validationError_def as_error_def NewError_def option_defs ExitCode_def exit_defs)

lemma flag_names_distinct [simp]:
  "FlagYes \<noteq> FlagFormat" "FlagYes \<noteq> FlagDryRun" "FlagYes \<noteq> FlagIdempotencyKey" "FlagDryRun \<noteq> FlagFormat"
  "FlagDryRun \<noteq> FlagYes" "FlagDryRun \<noteq> FlagIdempotencyKey" "FlagFormat \<noteq> FlagYes" "FlagFormat \<noteq> FlagDryRun"
  "FlagFormat \<noteq> FlagIdempotencyKey" "FlagIdempotencyKey \<noteq> FlagFormat" "FlagIdempotencyKey \<noteq> FlagDryRun" "FlagIdempotencyKey \<noteq> FlagYes"
  by (simp_all add: flag_name_defs)

lemma applyCallConfigArg_cases:
  assumes "applyCallConfigArg isprint d ctx cc key v = Inr r"
  shows "(key = FlagFormat \<and> r = Some cc) \<or> (\<exists>b. key = FlagDryRun \<and> v = JBool b \<and> r = Some (cc\<lparr>cc_dryRun := b\<rparr>)) \<or>
    (\<exists>b. key = FlagYes \<and> v = JBool b \<and> r = Some (cc\<lparr>cc_approval := b\<rparr>)) \<or>
    (\<exists>s. key = FlagIdempotencyKey \<and> v = JStr s \<and> r = Some (cc\<lparr>cc_idempotencyKey := s\<rparr>)) \<or>
    (key \<notin> {FlagFormat, FlagDryRun, FlagYes, FlagIdempotencyKey} \<and> r = None)"
  using assms by (auto simp: applyCallConfigArg_def split: if_splits json.splits)

lemma appendConvertedFlagArg_cases:
  assumes "appendConvertedFlagArg isprint csv d ctx st key a v b = Inr b'"
  shows "b' = b \<or> (\<exists>ss. df_slice (st a) \<and> b' = b\<lparr>b_assignments := b_assignments b @ [(a, ss)], b_set := b_set b @ [key]\<rparr>) \<or>
    (\<exists>s. b' = b\<lparr>b_flagArgs := b_flagArgs b @ [''--'' @ key @ ''='' @ s], b_set := b_set b @ [key]\<rparr>)"
  using assms by (auto simp: appendConvertedFlagArg_def split: if_splits sum.splits option.splits)

text \<open>What the loop over the arguments keeps, from its state before to its state after.\<close>

definition build_inv :: "(string \<Rightarrow> json) \<Rightarrow> string list \<Rightarrow> building \<Rightarrow> building \<Rightarrow> bool" where
  "build_inv args keys b b' \<longleftrightarrow>
    cc_mode (b_cc b') = cc_mode (b_cc b) \<and>
    (if FlagYes \<in> set keys then args FlagYes = JBool (cc_approval (b_cc b')) else cc_approval (b_cc b') = cc_approval (b_cc b)) \<and>
    (if FlagDryRun \<in> set keys then args FlagDryRun = JBool (cc_dryRun (b_cc b')) else cc_dryRun (b_cc b') = cc_dryRun (b_cc b)) \<and>
    (FlagYes \<in> set (b_set b') \<longleftrightarrow> FlagYes \<in> set (b_set b) \<or> FlagYes \<in> set keys) \<and>
    (\<forall>x \<in> set (b_flagArgs b'). x \<in> set (b_flagArgs b) \<or>
       (\<exists>k s. x = ''--'' @ k @ ''='' @ s \<and> k \<in> set keys \<and> k \<notin> {FlagFormat, FlagDryRun, FlagYes, FlagIdempotencyKey}))"

lemma build_inv_flagArgs:
  assumes "build_inv args keys b b'" and "x \<in> set (b_flagArgs b')"
  shows "x \<in> set (b_flagArgs b) \<or>
    (\<exists>k s. x = ''--'' @ k @ ''='' @ s \<and> k \<in> set keys \<and> k \<notin> {FlagFormat, FlagDryRun, FlagYes, FlagIdempotencyKey})"
  using assms unfolding build_inv_def by blast

lemma build_inv_Cons:
  assumes "build_inv args [k] b b1" and "build_inv args ks b1 b'"
  shows "build_inv args (k # ks) b b'"
proof -
  have "cc_mode (b_cc b') = cc_mode (b_cc b)"
    using assms by (simp add: build_inv_def)
  moreover have "if FlagYes \<in> set (k # ks) then args FlagYes = JBool (cc_approval (b_cc b')) else cc_approval (b_cc b') = cc_approval (b_cc b)"
    using assms by (simp add: build_inv_def split: if_splits)
  moreover have "if FlagDryRun \<in> set (k # ks) then args FlagDryRun = JBool (cc_dryRun (b_cc b')) else cc_dryRun (b_cc b') = cc_dryRun (b_cc b)"
    using assms by (simp add: build_inv_def split: if_splits)
  moreover have "FlagYes \<in> set (b_set b') \<longleftrightarrow> FlagYes \<in> set (b_set b) \<or> FlagYes \<in> set (k # ks)"
    using assms by (simp add: build_inv_def)
  moreover have "x \<in> set (b_flagArgs b) \<or>
      (\<exists>m s. x = ''--'' @ m @ ''='' @ s \<and> m \<in> set (k # ks) \<and> m \<notin> {FlagFormat, FlagDryRun, FlagYes, FlagIdempotencyKey})"
    if "x \<in> set (b_flagArgs b')" for x
  proof -
    note build_inv_flagArgs [OF assms(2) that] build_inv_flagArgs [OF assms(1), of x]
    moreover have "set [k] \<subseteq> set (k # ks)" "set ks \<subseteq> set (k # ks)" by auto
    ultimately show ?thesis using that by blast
  qed
  ultimately show ?thesis unfolding build_inv_def by blast
qed

lemma build_inv_config:
  assumes "applyCallConfigArg isprint d ctx (b_cc b) key (args key) = Inr (Some cc)"
  shows "build_inv args [key] b (b\<lparr>b_cc := cc, b_set := b_set b @ [key]\<rparr>)"
  using applyCallConfigArg_cases [OF assms] by (elim disjE exE conjE) (simp_all add: build_inv_def)

lemma build_inv_append:
  assumes "appendConvertedFlagArg isprint csv d ctx st key a v b = Inr b1"
    and "key \<notin> {FlagFormat, FlagDryRun, FlagYes, FlagIdempotencyKey}"
  shows "build_inv args [key] b b1"
proof -
  have "FlagYes \<noteq> key" "FlagDryRun \<noteq> key" using assms(2) by auto
  with appendConvertedFlagArg_cases [OF assms(1)] assms(2) show ?thesis
    by (elim disjE exE conjE) (auto simp: build_inv_def)
qed

lemma build_keys_inv:
  assumes "build_keys isprint csv d ctx st allowed name args keys b = Inr b'"
  shows "build_inv args keys b b' \<and> (\<forall>k \<in> set keys. map_of allowed k \<noteq> None) \<and>
    (\<forall>x \<in> set (b_assignments b'). x \<in> set (b_assignments b) \<or> (df_slice (st (fst x)) \<and> (\<exists>k. map_of allowed k = Some (fst x))))"
  using assms
proof (induction isprint csv d ctx st allowed name args keys b rule: build_keys.induct)
  case (1 isprint csv d ctx st allowed name args b)
  then show ?case by (simp add: build_inv_def)
next
  case (2 isprint csv d ctx st allowed name args key keys b)
  obtain a where a: "map_of allowed key = Some a"
    using "2.prems" by (auto split: option.splits)
  obtain r where r: "applyCallConfigArg isprint d ctx (b_cc b) key (args key) = Inr r"
    using "2.prems" a by (auto split: sum.splits)
  show ?case
  proof (cases r)
    case (Some cc)
    then have "build_keys isprint csv d ctx st allowed name args keys (b\<lparr>b_cc := cc, b_set := b_set b @ [key]\<rparr>) = Inr b'"
      using "2.prems" a r by simp
    note ih = "2.IH"(2) [OF a r Some this]
    with build_inv_Cons [OF build_inv_config [where args = args, OF r [unfolded Some]]] a show ?thesis by simp
  next
    case None
    then have key: "key \<notin> {FlagFormat, FlagDryRun, FlagYes, FlagIdempotencyKey}"
      using applyCallConfigArg_cases [OF r] by blast
    obtain b1 where b1: "appendConvertedFlagArg isprint csv d ctx st key a (args key) b = Inr b1"
      using "2.prems" a r None by (auto split: sum.splits)
    have step: "build_keys isprint csv d ctx st allowed name args keys b1 = Inr b'"
      using "2.prems" a r None b1 by simp
    note ih = "2.IH"(1) [OF a r None b1 step]
    have "x \<in> set (b_assignments b) \<or> (df_slice (st (fst x)) \<and> (\<exists>k. map_of allowed k = Some (fst x)))"
      if "x \<in> set (b_assignments b1)" for x
      using appendConvertedFlagArg_cases [OF b1] that a by (elim disjE exE conjE) auto
    with ih have "\<forall>x \<in> set (b_assignments b'). x \<in> set (b_assignments b) \<or> (df_slice (st (fst x)) \<and> (\<exists>k. map_of allowed k = Some (fst x)))"
      by blast
    with ih build_inv_Cons [OF build_inv_append [OF b1 key]] a show ?thesis by simp
  qed
qed

lemma build_keys_error:
  "build_keys isprint csv d ctx st allowed name args keys b = Inl e \<Longrightarrow> \<exists>msg. e = validationError d ctx msg"
proof (induction isprint csv d ctx st allowed name args keys b rule: build_keys.induct)
  case (2 isprint csv d ctx st allowed name args key keys b)
  show ?case
  proof (cases "map_of allowed key")
    case None
    then show ?thesis using "2.prems" by auto
  next
    case (Some a)
    have "\<exists>msg. e' = validationError d ctx msg" if "applyCallConfigArg isprint d ctx cc k v = Inl e'" for e' cc k v
      using that by (auto simp: applyCallConfigArg_def split: if_splits json.splits)
    moreover have "\<exists>msg. e' = validationError d ctx msg" if "appendConvertedFlagArg isprint csv d ctx st k a v b = Inl e'" for e' k v
      using that by (auto simp: appendConvertedFlagArg_def split: if_splits sum.splits option.splits)
    ultimately show ?thesis using 2 Some by (auto split: sum.splits option.splits)
  qed
qed simp

lemma key_before_equals:
  assumes "CHR ''='' \<notin> set k" and "CHR ''='' \<notin> set n" and "has_prefix (''--'' @ k @ ''='' @ s) (''--'' @ n @ ''='')"
  shows "k = n"
proof -
  obtain t where "k @ ''='' @ s = n @ ''='' @ t"
    using assms(3) by (auto simp: has_prefix_iff)
  then have "takeWhile (\<lambda>c. c \<noteq> CHR ''='') (k @ ''='' @ s) = takeWhile (\<lambda>c. c \<noteq> CHR ''='') (n @ ''='' @ t)"
    by (rule arg_cong)
  moreover have "takeWhile (\<lambda>c. c \<noteq> CHR ''='') (m @ ''='' @ u) = m" if "CHR ''='' \<notin> set m" for m u
    using that by (induction m) auto
  ultimately show ?thesis using assms(1,2) by metis
qed

lemma acceptedFlags_name:
  assumes "map_of (acceptedFlags st cmd) k = Some a"
  shows "k = df_name (st a) \<and> a \<in> set (dc_local cmd @ dc_inherited cmd)"
proof -
  let ?add = "\<lambda>a flags. if map_of flags (df_name (st a)) \<noteq> None then flags else flags @ [(df_name (st a), a)]"
  have "x \<in> set acc \<or> (fst x = df_name (st (snd x)) \<and> snd x \<in> set as)" if "x \<in> set (fold ?add as acc)" for x as acc
    using that
  proof (induction as arbitrary: acc)
    case (Cons a as)
    from Cons.IH [of "?add a acc"] Cons.prems show ?case by (auto split: if_splits)
  qed simp
  from this [of "(k, a)" _ "[]"] map_of_SomeD [OF assms] show ?thesis
    unfolding acceptedFlags_def by fastforce
qed

text \<open>What a successful \<^verbatim>\<open>buildArgs\<close> comes from: the loop's result and the flags added to it.\<close>

lemma buildArgs_Inr:
  assumes "buildArgs isprint csv new_key d st ctx target name args = Inr (argv, asg, cc)"
  obtains b where
    "build_keys isprint csv d ctx st (acceptedFlags st target) name (\<lambda>k. case map_of args k of Some v \<Rightarrow> v | None \<Rightarrow> JNull) (sort (map fst args))
       \<lparr>b_flagArgs = [], b_assignments = [], b_set = [],
         b_cc = \<lparr>cc_mode = ModeJSON, cc_dryRun = False, cc_approval = False, cc_idempotencyKey = []\<rparr>\<rparr> = Inr b"
    and "cc = (if cc_idempotencyKey (b_cc b) = [] then (b_cc b)\<lparr>cc_idempotencyKey := new_key\<rparr> else b_cc b)"
    and "asg = b_assignments b"
    and "argv = commandPathArgs (d_root d) target @ sort (b_flagArgs b @ [''--'' @ FlagFormat @ ''='' @ ModeJSON] @
           (if cc_dryRun cc then [''--'' @ FlagDryRun @ ''=true''] else []) @
           (if FlagYes \<in> set (b_set b) then [''--'' @ FlagYes @ ''='' @ FormatBool (cc_approval cc)] else []) @
           [''--'' @ FlagIdempotencyKey @ ''='' @ cc_idempotencyKey cc])"
  using assms unfolding buildArgs_def Let_def by (auto split: sum.splits if_splits)

lemma buildArgs_error:
  assumes "buildArgs isprint csv new_key d st ctx target name args = Inl e"
  shows "\<exists>msg. e = validationError d ctx msg"
  using assms unfolding buildArgs_def Let_def by (auto split: sum.splits if_splits dest: build_keys_error)

text \<open>The flags of the vector by their name before the equals sign.\<close>

lemma sorted_flags_cases:
  assumes inv: "build_inv (\<lambda>k. case map_of args k of Some v \<Rightarrow> v | None \<Rightarrow> JNull) keys b0 b" and "b_flagArgs b0 = []" and "b_set b0 = []"
    and keys: "set keys = fst ` set args" and noeq: "\<And>k. k \<in> set keys \<Longrightarrow> CHR ''='' \<notin> set k"
    and x: "x \<in> set (sort (b_flagArgs b @ [''--'' @ FlagFormat @ ''='' @ ModeJSON] @
           (if dry then [''--'' @ FlagDryRun @ ''=true''] else []) @
           (if FlagYes \<in> set (b_set b) then [''--'' @ FlagYes @ ''='' @ FormatBool (cc_approval (b_cc b))] else []) @
           [''--'' @ FlagIdempotencyKey @ ''='' @ ik]))"
  shows "(has_prefix x (''--'' @ FlagFormat @ ''='') \<longrightarrow> x = ''--'' @ FlagFormat @ ''='' @ ModeJSON) \<and>
    (has_prefix x (''--'' @ FlagYes @ ''='') \<longrightarrow>
      (\<exists>v. x = ''--'' @ FlagYes @ ''='' @ FormatBool v \<and> map_of args FlagYes = Some (JBool v)))"
proof -
  have plain: "CHR ''='' \<notin> set FlagFormat" "CHR ''='' \<notin> set FlagYes" "CHR ''='' \<notin> set FlagDryRun" "CHR ''='' \<notin> set FlagIdempotencyKey"
    by (simp_all add: flag_name_defs)
  have no: "\<not> has_prefix (''--'' @ k @ ''='' @ s) (''--'' @ n @ ''='')"
    if "CHR ''='' \<notin> set k" "CHR ''='' \<notin> set n" "k \<noteq> n" for k n s
    using key_before_equals [OF that(1,2)] that(3) by blast
  from x consider "x \<in> set (b_flagArgs b)" | "x = ''--'' @ FlagFormat @ ''='' @ ModeJSON" | "x = ''--'' @ FlagDryRun @ ''='' @ ''true''"
    | "FlagYes \<in> set (b_set b)" "x = ''--'' @ FlagYes @ ''='' @ FormatBool (cc_approval (b_cc b))"
    | "x = ''--'' @ FlagIdempotencyKey @ ''='' @ ik"
    by (auto split: if_splits)
  then show ?thesis
  proof cases
    case 1
    then obtain k s where "x = ''--'' @ k @ ''='' @ s" "k \<in> set keys" "k \<notin> {FlagFormat, FlagDryRun, FlagYes, FlagIdempotencyKey}"
      using build_inv_flagArgs [OF inv 1] assms(2) by auto
    with no plain noeq show ?thesis by blast
  next
    case 4
    then have "FlagYes \<in> set keys"
      using inv assms(3) by (simp add: build_inv_def)
    then have "(case map_of args FlagYes of Some v \<Rightarrow> v | None \<Rightarrow> JNull) = JBool (cc_approval (b_cc b))"
      using inv by (simp add: build_inv_def)
    then have "map_of args FlagYes = Some (JBool (cc_approval (b_cc b)))" by (simp split: option.splits)
    with 4 no plain show ?thesis by (metis flag_names_distinct(1))
  qed (use no plain flag_names_distinct in blast)+
qed

section \<open>Lemmas: isolation\<close>

text \<open>Two flags that differ at most in their value and changed bit.\<close>

definition same_flag :: "'v dflag \<Rightarrow> 'v dflag \<Rightarrow> bool" where
  "same_flag f g \<longleftrightarrow> df_name f = df_name g \<and> df_type f = df_type g \<and> df_slice f = df_slice g \<and> df_required f = df_required g \<and>
    df_def f = df_def g"

text \<open>
  A store that calls may leave behind, from the store at the start of the server:
  only values and changed bits of the tree's own flags differ, and a scalar flag
  whose changed bit is clear still has its first value.
\<close>

definition store_ok :: "dispatcher \<Rightarrow> 'v dstore \<Rightarrow> 'v dstore \<Rightarrow> bool" where
  "store_ok d st0 st \<longleftrightarrow>
    (\<forall>a. same_flag (st a) (st0 a) \<and> (a \<notin> set (d_flags d) \<longrightarrow> st a = st0 a) \<and>
      (\<not> df_slice (st0 a) \<and> \<not> df_changed (st a) \<longrightarrow> df_value (st a) = df_value (st0 a)))"

text \<open>
  What the flag values and the command promise: setting the default text, or
  replacing a slice by its snapshot, gives the first value back; a run changes a
  scalar flag of the tree only together with its changed bit.
\<close>

definition ops_ok :: "'v flag_ops \<Rightarrow> dispatcher \<Rightarrow> 'v dstore \<Rightarrow> bool" where
  "ops_ok ops d st0 \<longleftrightarrow>
    (\<forall>a f. same_flag f (st0 a) \<longrightarrow>
      (\<exists>e. (if df_slice f then op_replace ops f (d_sliceDefaults d a) else op_set ops f (df_def f)) = Returned (e, df_value (st0 a)))) \<and>
    (\<forall>ctx argv st. store_ok d st0 st \<longrightarrow> store_ok d st0 (r_store (op_run ops ctx argv st)))"

definition tree_flags_ok :: "dispatcher \<Rightarrow> bool" where
  "tree_flags_ok d \<longleftrightarrow> (\<forall>t \<in> ran (d_targets d). set (dc_local t @ dc_inherited t) \<subseteq> set (d_flags d))"

lemma store_okD:
  assumes "store_ok d st0 st"
  shows "df_name (st a) = df_name (st0 a)" "df_type (st a) = df_type (st0 a)" "df_slice (st a) = df_slice (st0 a)"
    "df_required (st a) = df_required (st0 a)" "df_def (st a) = df_def (st0 a)" "same_flag (st a) (st0 a)"
  using assms by (auto simp: store_ok_def same_flag_def)

lemma store_ok_update:
  assumes "store_ok d st0 st" and "a \<in> set (d_flags d)" and "df_slice (st0 a)"
  shows "store_ok d st0 (st(a := (st a)\<lparr>df_value := v, df_changed := c\<rparr>))"
    and "store_ok d st0 (st(a := (st a)\<lparr>df_value := v\<rparr>))"
  using assms by (auto simp: store_ok_def same_flag_def)

lemma reset_flag_restores:
  assumes "store_ok d st0 st" and "ops_ok ops d st0" and "\<not> df_changed (st0 a)"
  shows "reset_flag ops d a st = (None, st(a := st0 a))"
proof -
  have same: "same_flag (st a) (st0 a)" by (rule store_okD(6) [OF assms(1)])
  then have eq: "(st a)\<lparr>df_value := df_value (st0 a), df_changed := False\<rparr> = st0 a"
    using assms(3) by (simp add: same_flag_def)
  obtain e where e: "(if df_slice (st a) then op_replace ops (st a) (d_sliceDefaults d a) else op_set ops (st a) (df_def (st a))) =
      Returned (e, df_value (st0 a))"
    using assms(2) same unfolding ops_ok_def by blast
  show ?thesis
  proof (cases "df_slice (st a) \<or> df_changed (st a)")
    case True
    then show ?thesis using e eq by (auto simp: reset_flag_def Let_def)
  next
    case False
    then have "df_value (st a) = df_value (st0 a)"
      using assms(1) store_okD(3) [OF assms(1), of a] by (simp add: store_ok_def)
    then have "st a = st0 a"
      using same False assms(3) by (simp add: same_flag_def)
    then have "st(a := st0 a) = st" by auto
    then show ?thesis using False by (simp add: reset_flag_def Let_def)
  qed
qed

lemma resetFlagSet_restores:
  assumes "store_ok d st0 st" and "ops_ok ops d st0" and "\<And>a. \<not> df_changed (st0 a)"
  shows "resetFlagSet ops d as st = (None, \<lambda>a. if a \<in> set as then st0 a else st a)"
  using assms(1)
proof (induction as arbitrary: st)
  case (Cons a as)
  have "store_ok d st0 (st(a := st0 a))"
    using Cons.prems by (auto simp: store_ok_def same_flag_def)
  then have "resetFlagSet ops d (a # as) st = (None, \<lambda>x. if x \<in> set as then st0 x else (st(a := st0 a)) x)"
    by (simp only: resetFlagSet.simps reset_flag_restores [OF Cons.prems assms(2,3)] Cons.IH prod.case option.case)
  then show ?case by auto
qed simp

lemma resetCommandTree_restores:
  assumes "store_ok d st0 st" and "ops_ok ops d st0" and "\<And>a. \<not> df_changed (st0 a)"
  shows "resetCommandTree ops d st = (None, st0)"
proof -
  have "(\<lambda>a. if a \<in> set (d_flags d) then st0 a else st a) = st0"
    using assms(1) by (auto simp: store_ok_def)
  then show ?thesis using resetFlagSet_restores [OF assms] by (simp add: resetCommandTree_def)
qed

lemma applyFlagAssignments_ok:
  assumes "store_ok d st0 st" and "\<And>a vs. (a, vs) \<in> set asg \<Longrightarrow> a \<in> set (d_flags d)"
  shows "store_ok d st0 (snd (applyFlagAssignments isprint ops asg st))"
  using assms
proof (induction asg arbitrary: st)
  case (Cons x rest)
  obtain a vs where x: "x = (a, vs)" by force
  have a: "a \<in> set (d_flags d)" by (rule Cons.prems(2) [of a vs]) (simp add: x)
  have rest: "store_ok d st0 st' \<Longrightarrow> store_ok d st0 (snd (applyFlagAssignments isprint ops rest st'))" for st'
    by (rule Cons.IH) (auto intro: Cons.prems(2))
  show ?case
    using Cons.prems(1) store_ok_update [OF Cons.prems(1) a] store_okD(3) [OF Cons.prems(1), of a]
    by (auto simp: x rest split: call.splits option.splits)
qed simp

text \<open>The argument vector depends only on what calls never change.\<close>

lemma build_keys_static:
  assumes "store_ok d st0 st"
  shows "build_keys isprint csv d ctx st allowed name args keys b = build_keys isprint csv d ctx st0 allowed name args keys b"
proof (induction keys arbitrary: b)
  case (Cons k keys)
  have "appendConvertedFlagArg isprint csv d ctx st k a v b = appendConvertedFlagArg isprint csv d ctx st0 k a v b" for a v
    by (simp only: appendConvertedFlagArg_def store_okD [OF assms])
  then show ?case using Cons.IH by (simp split: option.split sum.split)
qed simp

lemma buildArgs_static:
  assumes "store_ok d st0 st"
  shows "buildArgs isprint csv new_key d st ctx target name args = buildArgs isprint csv new_key d st0 ctx target name args"
  by (simp only: buildArgs_def acceptedFlags_def missingRequiredFlag_def build_keys_static [OF assms] store_okD [OF assms])

lemma buildArgs_assignments:
  assumes "buildArgs isprint csv new_key d st ctx target name args = Inr (argv, asg, cc)" and "(a, vs) \<in> set asg"
  shows "a \<in> set (dc_local target @ dc_inherited target)"
proof -
  obtain b where b: "build_keys isprint csv d ctx st (acceptedFlags st target) name (\<lambda>k. case map_of args k of Some v \<Rightarrow> v | None \<Rightarrow> JNull)
       (sort (map fst args)) \<lparr>b_flagArgs = [], b_assignments = [], b_set = [],
         b_cc = \<lparr>cc_mode = ModeJSON, cc_dryRun = False, cc_approval = False, cc_idempotencyKey = []\<rparr>\<rparr> = Inr b"
    and asg: "asg = b_assignments b"
    using buildArgs_Inr [OF assms(1)] by metis
  have "\<exists>k. map_of (acceptedFlags st target) k = Some a"
    using conjunct2 [OF conjunct2 [OF build_keys_inv [OF b]]] assms(2) asg by fastforce
  then show ?thesis using acceptedFlags_name by blast
qed

text \<open>A run of the tree, from any store that calls may leave behind.\<close>

lemma runRecovered_isolated:
  assumes "store_ok d st0 st" and "ops_ok ops d st0" and "\<And>a. \<not> df_changed (st0 a)"
    and "\<And>a vs. (a, vs) \<in> set asg \<Longrightarrow> a \<in> set (d_flags d)"
  shows "runRecovered isprint ops d ctx argv asg st = runRecovered isprint ops d ctx argv asg st0 \<and>
    store_ok d st0 (snd (runRecovered isprint ops d ctx argv asg st))"
proof -
  have ok0: "store_ok d st0 st0" by (simp add: store_ok_def same_flag_def)
  have ok2: "store_ok d st0 (snd (applyFlagAssignments isprint ops asg st0))"
    by (rule applyFlagAssignments_ok [OF ok0 assms(4)])
  have run: "store_ok d st0 st' \<Longrightarrow> store_ok d st0 (r_store (op_run ops ctx argv st'))" for st'
    using assms(2) by (simp add: ops_ok_def)
  have eq: "resetCommandTree ops d st' = (None, st0)" if "store_ok d st0 st'" for st'
    by (rule resetCommandTree_restores [OF that assms(2,3)])
  have "store_ok d st0 (snd (runRecovered isprint ops d ctx argv asg st0))"
    using ok2 run unfolding runRecovered_def Let_def eq [OF ok0]
    by (cases "applyFlagAssignments isprint ops asg st0") (auto split: call.splits option.splits)
  then show ?thesis by (simp add: runRecovered_def eq [OF assms(1)] eq [OF ok0])
qed

lemma handle_isolated:
  assumes "store_ok d st0 st" and "ops_ok ops d st0" and "\<And>a. \<not> df_changed (st0 a)" and "tree_flags_ok d"
  shows "fst (handle isprint csv marshal_any new_key bad ops d ctx req st) = fst (handle isprint csv marshal_any new_key bad ops d ctx req st0) \<and>
    store_ok d st0 (snd (handle isprint csv marshal_any new_key bad ops d ctx req st))"
proof -
  have "fst (dispatch isprint csv new_key ops d ctx name args st) = fst (dispatch isprint csv new_key ops d ctx name args st0) \<and>
    store_ok d st0 (snd (dispatch isprint csv new_key ops d ctx name args st))" for name args
  proof (cases "d_targets d name")
    case (Some target)
    show ?thesis
    proof (cases "buildArgs isprint csv new_key d st0 ctx target name args")
      case (Inr r)
      obtain argv asg cc where r: "r = (argv, asg, cc)" by (cases r)
      have asg: "a \<in> set (d_flags d)" if "(a, vs) \<in> set asg" for a vs
        using buildArgs_assignments [OF Inr [unfolded r] that] assms(4) ranI [of "d_targets d" name target] Some
        by (auto simp: tree_flags_ok_def)
      have "runRecovered isprint ops d (applyCallConfig ctx cc) argv asg st = runRecovered isprint ops d (applyCallConfig ctx cc) argv asg st0 \<and>
          store_ok d st0 (snd (runRecovered isprint ops d (applyCallConfig ctx cc) argv asg st))"
        by (rule runRecovered_isolated [OF assms(1-3)]) (rule asg)
      with Inr Some show ?thesis
        by (auto simp: dispatch_def resolveTarget_def r buildArgs_static [OF assms(1)])
    qed (use assms(1) Some in \<open>simp add: dispatch_def resolveTarget_def buildArgs_static [OF assms(1)]\<close>)
  qed (use assms(1) in \<open>simp add: dispatch_def resolveTarget_def\<close>)
  then show ?thesis
    using assms(1) unfolding handle_def Let_def case_prod_beta by (auto split: option.splits)
qed

section \<open>Properties\<close>

text \<open>
  C2. The server never grants approval on the client's behalf. When the arguments
  of a call are accepted and no flag of the tree has an equals sign in its name, the
  call runs in JSON mode; it is approved only if the client itself sent the boolean
  true for \<^verbatim>\<open>yes\<close> and is a dry run only if the client sent true for \<^verbatim>\<open>dry-run\<close>. The
  argument vector is the command path and then the flags in sorted order; it has
  \<^verbatim>\<open>--format=json\<close> and no other \<^verbatim>\<open>--format=\<close>, and any \<^verbatim>\<open>--yes=\<close> in it carries the
  boolean the client sent. No argument value can smuggle either flag in.
\<close>

theorem server_never_grants_approval:
  assumes "buildArgs isprint csv new_key d st ctx target name args = Inr (argv, asg, cc)"
    and "\<And>a. CHR ''='' \<notin> set (df_name (st a))"
  shows "cc_mode cc = ModeJSON \<and> (cc_approval cc \<longleftrightarrow> map_of args FlagYes = Some (JBool True)) \<and>
    (cc_dryRun cc \<longleftrightarrow> map_of args FlagDryRun = Some (JBool True)) \<and>
    (\<exists>flags. argv = commandPathArgs (d_root d) target @ flags \<and> sorted flags \<and> ''--format=json'' \<in> set flags \<and>
      (\<forall>x \<in> set flags. (has_prefix x ''--format='' \<longrightarrow> x = ''--format=json'') \<and>
        (has_prefix x ''--yes='' \<longrightarrow> (\<exists>b. x = ''--yes='' @ FormatBool b \<and> map_of args FlagYes = Some (JBool b)))))"
proof -
  let ?args = "\<lambda>k. case map_of args k of Some v \<Rightarrow> v | None \<Rightarrow> JNull"
  let ?b0 = "\<lparr>b_flagArgs = [], b_assignments = [], b_set = [],
    b_cc = \<lparr>cc_mode = ModeJSON, cc_dryRun = False, cc_approval = False, cc_idempotencyKey = []\<rparr>\<rparr>"
  obtain b where b: "build_keys isprint csv d ctx st (acceptedFlags st target) name ?args (sort (map fst args)) ?b0 = Inr b"
    and cc: "cc = (if cc_idempotencyKey (b_cc b) = [] then (b_cc b)\<lparr>cc_idempotencyKey := new_key\<rparr> else b_cc b)"
    and argv: "argv = commandPathArgs (d_root d) target @ sort (b_flagArgs b @ [''--'' @ FlagFormat @ ''='' @ ModeJSON] @
           (if cc_dryRun cc then [''--'' @ FlagDryRun @ ''=true''] else []) @
           (if FlagYes \<in> set (b_set b) then [''--'' @ FlagYes @ ''='' @ FormatBool (cc_approval cc)] else []) @
           [''--'' @ FlagIdempotencyKey @ ''='' @ cc_idempotencyKey cc])"
    by (rule buildArgs_Inr [OF assms(1)])
  have inv: "build_inv ?args (sort (map fst args)) ?b0 b"
    using build_keys_inv [OF b] by blast
  have noeq: "CHR ''='' \<notin> set k" if "k \<in> set (sort (map fst args))" for k
  proof -
    have "map_of (acceptedFlags st target) k \<noteq> None"
      by (rule bspec [OF conjunct1 [OF conjunct2 [OF build_keys_inv [OF b]]] that])
    then obtain a where "map_of (acceptedFlags st target) k = Some a" by blast
    from acceptedFlags_name [OF this] assms(2) [of a] show ?thesis by simp
  qed
  have appr: "cc_approval cc = cc_approval (b_cc b)" "cc_dryRun cc = cc_dryRun (b_cc b)" "cc_mode cc = cc_mode (b_cc b)"
    by (simp_all add: cc)
  have key: "k \<in> set (sort (map fst args)) \<longleftrightarrow> map_of args k \<noteq> None" for k
    by (simp add: map_of_eq_None_iff)
  have "cc_mode cc = ModeJSON" using inv by (simp add: appr build_inv_def)
  moreover have "cc_approval cc \<longleftrightarrow> map_of args FlagYes = Some (JBool True)"
    using inv unfolding build_inv_def key appr by (auto split: if_splits option.splits)
  moreover have "cc_dryRun cc \<longleftrightarrow> map_of args FlagDryRun = Some (JBool True)"
    using inv unfolding build_inv_def key appr by (auto split: if_splits option.splits)
  moreover have "(has_prefix x (''--'' @ FlagFormat @ ''='') \<longrightarrow> x = ''--'' @ FlagFormat @ ''='' @ ModeJSON) \<and>
      (has_prefix x (''--'' @ FlagYes @ ''='') \<longrightarrow>
        (\<exists>v. x = ''--'' @ FlagYes @ ''='' @ FormatBool v \<and> map_of args FlagYes = Some (JBool v)))"
    if "x \<in> set (sort (b_flagArgs b @ [''--'' @ FlagFormat @ ''='' @ ModeJSON] @
           (if cc_dryRun cc then [''--'' @ FlagDryRun @ ''=true''] else []) @
           (if FlagYes \<in> set (b_set b) then [''--'' @ FlagYes @ ''='' @ FormatBool (cc_approval cc)] else []) @
           [''--'' @ FlagIdempotencyKey @ ''='' @ cc_idempotencyKey cc]))" for x
    using sorted_flags_cases [OF inv _ _ _ noeq, of x] that unfolding appr by simp
  moreover have "''--format=json'' = ''--'' @ FlagFormat @ ''='' @ ModeJSON" "''--format='' = ''--'' @ FlagFormat @ ''=''"
    "''--yes='' = ''--'' @ FlagYes @ ''=''"
    by (simp_all add: flag_name_defs ModeJSON_def)
  ultimately show ?thesis
    unfolding argv by (intro conjI exI [of _ "sort _"]) (simp_all (no_asm_simp) only: append_assoc sorted_sort set_sort set_append, auto)
qed


text \<open>A tool with a string flag and the inherited \<^verbatim>\<open>yes\<close>, for the concrete instances.\<close>

definition demo_store :: "string dstore" where
  "demo_store = (\<lambda>a. \<lparr>df_name = (if a = 0 then ''yes'' else ''memo''), df_type = ''string'', df_slice = False, df_required = False,
     df_def = [], df_value = [], df_changed = False\<rparr>)"

definition demo_target :: dcommand where
  "demo_target = \<lparr>dc_chain = [(1, ''create''), (0, ''app'')], dc_local = [1], dc_inherited = [0]\<rparr>"

definition demo_dispatcher :: dispatcher where
  "demo_dispatcher = \<lparr>d_root = 0, d_serverName = ''app'', d_version = ''1'', d_targets = [''create'' \<mapsto> demo_target],
     d_toolNames = [''create''], d_flags = [0, 1], d_sliceDefaults = (\<lambda>_. [])\<rparr>"

theorem server_never_grants_approval_witness:
  "buildArgs (\<lambda>_. True) (\<lambda>s. Inr [s]) ''k'' demo_dispatcher demo_store Background demo_target ''create''
      [(''memo'', JStr ''x --yes=true''), (''yes'', JBool False)] =
    Inr ([''create'', ''--format=json'', ''--idempotency-key=k'', ''--memo=x --yes=true'', ''--yes=false''], [],
      \<lparr>cc_mode = ''json'', cc_dryRun = False, cc_approval = False, cc_idempotencyKey = ''k''\<rparr>) \<and>
   map_of [(''memo'', JStr ''x --yes=true''), (''yes'', JBool False)] FlagYes \<noteq> Some (JBool True)"
  (is "?build \<and> _")
proof
  show r: ?build by code_simp
  have "CHR ''='' \<notin> set (df_name (demo_store a))" for a by (simp add: demo_store_def)
  from server_never_grants_approval [OF r this]
  show "map_of [(''memo'', JStr ''x --yes=true''), (''yes'', JBool False)] FlagYes \<noteq> Some (JBool True)" by simp
qed

text \<open>The server's requests one after another: each with its context, its generated key and the request.\<close>

definition serve_calls ::
  "(nat \<Rightarrow> bool) \<Rightarrow> (string \<Rightarrow> string + string list) \<Rightarrow> (any_value \<Rightarrow> string option) \<Rightarrow> (string \<Rightarrow> string) \<Rightarrow> 'v flag_ops \<Rightarrow> dispatcher \<Rightarrow>
   (gctx \<times> string \<times> (string \<times> string) option) list \<Rightarrow> 'v dstore \<Rightarrow> 'v dstore" where
  "serve_calls isprint csv marshal_any bad ops d calls st =
    fold (\<lambda>(ctx, new_key, req) st. snd (handle isprint csv marshal_any new_key bad ops d ctx req st)) calls st"


text \<open>A command that sets the string flag on every run, and prints the value it found.\<close>

definition demo_ops :: "string flag_ops" where
  "demo_ops = \<lparr>op_set = (\<lambda>_ s. Returned (None, s)), op_replace = (\<lambda>_ _. Returned (None, [])),
     op_run = (\<lambda>_ argv st. \<lparr>r_out = df_value (st 1), r_err = [], r_error = Returned None,
       r_store = st(1 := (st 1)\<lparr>df_value := concat argv, df_changed := True\<rparr>)\<rparr>)\<rparr>"


end
