(* ===== verification/Mcp_Server.thy ===== *)
theory Mcp_Server
  imports Mcp_Tools Mcp_Dispatch
begin

text \<open>
  Starting the MCP server: \<^verbatim>\<open>src/internal/mcpserver/server.go\<close>, \<^verbatim>\<open>transport.go\<close> and the
  construction of the dispatcher in \<^verbatim>\<open>dispatch.go\<close>. The SDK server, the listener of
  the operating system and the parsers of host names and addresses are arguments.
  The properties connect what the server advertises with what the dispatcher of
  \<^verbatim>\<open>Mcp_Dispatch\<close> accepts.
\<close>

section \<open>Discovery\<close>

definition requiresPositionalArgs :: "ctree \<Rightarrow> bool" where
  "requiresPositionalArgs cmd = t_NeedsArgs cmd"

definition live_tool :: "'f tool \<Rightarrow> 'f MCPTool" where
  "live_tool tool =
    \<lparr>mt_Name = to_Name tool, mt_Description = to_Description tool, mt_InputSchema = to_InputSchema tool,
     mt_NonDeterministicFields = to_NonDeterministicFields tool,
     mt_Capability = (if to_CapabilityClass tool \<noteq> [] then Some (to_CapabilityClass tool, to_CapabilityNote tool) else None),
     mt_Annotations = to_Hints tool\<rparr>"

fun discover :: "'f parsers \<Rightarrow> (nat \<Rightarrow> 's uflag) \<Rightarrow> ctree list \<Rightarrow> 'f MCPTool list \<times> (string \<rightharpoonup> ctree) \<Rightarrow> 'f MCPTool list \<times> (string \<rightharpoonup> ctree)" where
  "discover env st [] acc = acc"
| "discover env st (cmd # cmds) (tools, targets) =
    (if requiresPositionalArgs cmd then discover env st cmds (tools, targets)
     else (let tool = BuildTool env st cmd in discover env st cmds (tools @ [live_tool tool], targets(to_Name tool \<mapsto> cmd))))"

definition discoverTools :: "'f parsers \<Rightarrow> (nat \<Rightarrow> 's uflag) \<Rightarrow> ctree \<Rightarrow> 'f MCPTool list \<times> (string \<rightharpoonup> ctree)" where
  "discoverTools env st root = discover env st (WalkCallableCommands root) ([], Map.empty)"

section \<open>The dispatcher of a tree\<close>

text \<open>A flag as the dispatcher sees it.\<close>

definition dispatch_flag :: "'s uflag \<Rightarrow> bool \<Rightarrow> 's flag_value dflag" where
  "dispatch_flag u changed =
    (let f = uf_flag u in
     \<lparr>df_name = f_Name f, df_type = value_Type (f_Value f), df_slice = is_slice_value (f_Value f), df_required = IsRequiredFlag f,
      df_def = f_DefValue f, df_value = f_Value f, df_changed = changed\<rparr>)"

definition dispatch_store :: "(nat \<Rightarrow> 's uflag) \<Rightarrow> 's flag_value dstore" where
  "dispatch_store st = (\<lambda>a. dispatch_flag (st a) False)"

text \<open>\<^term>\<open>parents\<close> gives a command and its parents up to Cobra's root.\<close>

definition target_command :: "(ctree \<Rightarrow> (nat \<times> string) list) \<Rightarrow> ctree \<Rightarrow> dcommand" where
  "target_command parents cmd = \<lparr>dc_chain = parents cmd, dc_local = t_local cmd, dc_inherited = t_inherited cmd\<rparr>"

datatype Transport = TransportStdio | TransportHTTP | UnknownTransport int

record Config =
  g_Transport :: Transport
  g_HTTPAddr :: string
  g_AllowNonLoopback :: bool
  g_Version :: string
  g_ServerName :: string
  g_Instructions :: string

definition snapshotSliceDefaults :: "(nat \<Rightarrow> 's uflag) \<Rightarrow> nat list \<Rightarrow> nat \<Rightarrow> string list" where
  "snapshotSliceDefaults st flags a =
    (if a \<in> set flags \<and> is_slice_value (f_Value (uf_flag (st a))) then uf_slice_values (st a) else [])"

definition tree_flags :: "ctree \<Rightarrow> nat list" where
  "tree_flags execRoot = concat (map (\<lambda>c. t_local c @ t_inherited c) (WalkCommands execRoot))"

definition newDispatcher ::
  "'f parsers \<Rightarrow> (ctree \<Rightarrow> (nat \<times> string) list) \<Rightarrow> nat \<Rightarrow> (nat \<Rightarrow> 's uflag) \<Rightarrow> ctree \<Rightarrow> ctree \<Rightarrow> Config \<Rightarrow> dispatcher" where
  "newDispatcher env parents root_id st execRoot root cfg =
    (case discoverTools env st root of (tools, targets) \<Rightarrow>
       \<lparr>d_root = root_id, d_serverName = g_ServerName cfg, d_version = g_Version cfg,
        d_targets = (\<lambda>n. map_option (target_command parents) (targets n)), d_toolNames = map mt_Name tools,
        d_flags = tree_flags execRoot, d_sliceDefaults = snapshotSliceDefaults st (tree_flags execRoot)\<rparr>)"

section \<open>Starting\<close>

definition maxInstructionsBytes :: nat where "maxInstructionsBytes = 8192"

definition startup_error :: "gctx \<Rightarrow> string \<Rightarrow> go_error" where
  "startup_error ctx message = as_error (NewError (Some ctx) ErrorCodeValidationError message [WithErrorExitCode ExitValidation])"

definition validateVersion :: "(nat \<Rightarrow> bool) \<Rightarrow> gctx \<Rightarrow> string \<Rightarrow> go_error option" where
  "validateVersion isprint ctx version =
    (if trim_space version \<in> {[], ''dev'', ''unknown''} then
       Some (startup_error ctx (''mcp: server version must be a real build version, got '' @ quote isprint version @
         '' (inject one via WithVersion or -ldflags)''))
     else None)"

definition validateInstructions :: "gctx \<Rightarrow> string \<Rightarrow> go_error option" where
  "validateInstructions ctx instr =
    (if length instr > maxInstructionsBytes then
       Some (as_error (NewError (Some ctx) ErrorCodeValidationError
         (''mcp: server instructions are '' @ itoa (int (length instr)) @ '' bytes, over the '' @ itoa (int maxInstructionsBytes) @ ''-byte limit'')
         [WithErrorExitCode ExitValidation,
          WithActionableFix (''Shorten the instructions and move long reference text into a declared resource'' @ [CHR 0x27] @ ''s content.'')]))
     else if \<not> valid_utf8 instr then
       Some (as_error (NewError (Some ctx) ErrorCodeValidationError ''mcp: server instructions are not valid UTF-8''
         [WithErrorExitCode ExitValidation, WithActionableFix ''Pass instructions as valid UTF-8 text.'']))
     else None)"

definition validateDeclarations :: "(nat \<Rightarrow> bool) \<Rightarrow> (string \<Rightarrow> string option) \<Rightarrow> gctx \<Rightarrow> ctree \<Rightarrow> go_error option" where
  "validateDeclarations isprint url_parse ctx root =
    map_option (\<lambda>c. as_error (TreeDeclarationError isprint (Some ctx) c)) (declaration_conflict url_parse root)"

record server_options =
  so_Instructions :: string
  so_PageSize :: nat

definition serverOptions :: "nat \<Rightarrow> Config \<Rightarrow> nat \<Rightarrow> server_options option" where
  "serverOptions default_page cfg declared =
    (let opts = \<lparr>so_Instructions = g_Instructions cfg, so_PageSize = (if declared > default_page then declared else 0)\<rparr> in
     if so_Instructions opts = [] \<and> so_PageSize opts = 0 then None else Some opts)"

text \<open>
  The parsers of \<^verbatim>\<open>net\<close>: \<^verbatim>\<open>split_host\<close> is the host of \<^verbatim>\<open>SplitHostPort\<close> or its error
  text, \<^verbatim>\<open>ip_loopback\<close> is \<^term>\<open>None\<close> for a text that is not an address, otherwise
  \<^verbatim>\<open>IsLoopback\<close>; \<^verbatim>\<open>listen\<close> is the error of the operating system.
\<close>

record net_env =
  split_host :: "string \<Rightarrow> string + string"
  ip_loopback :: "string \<Rightarrow> bool option"
  listen :: "string \<Rightarrow> go_error option"

definition isLoopbackHost :: "net_env \<Rightarrow> string \<Rightarrow> bool" where
  "isLoopbackHost net host =
    (if host = [] then False
     else if host = ''localhost'' then True
     else (case ip_loopback net host of Some b \<Rightarrow> b | None \<Rightarrow> False))"

text \<open>The addresses the code tries to bind, and the error or the bound address.\<close>

definition loopbackListener :: "(nat \<Rightarrow> bool) \<Rightarrow> net_env \<Rightarrow> gctx \<Rightarrow> Config \<Rightarrow> string list \<times> (go_error + string)" where
  "loopbackListener isprint net ctx cfg =
    (case split_host net (g_HTTPAddr cfg) of
       Inl err \<Rightarrow> ([], Inl (startup_error ctx (''mcp: invalid http address '' @ quote isprint (g_HTTPAddr cfg) @ '': '' @ err)))
     | Inr host \<Rightarrow>
         if \<not> g_AllowNonLoopback cfg \<and> \<not> isLoopbackHost net host then
           ([], Inl (startup_error ctx (''mcp: refusing to bind non-loopback address '' @ quote isprint (g_HTTPAddr cfg) @
              '' without WithAllowNonLoopback (fail-closed against accidental public exposure)'')))
         else
           (case listen net (g_HTTPAddr cfg) of
              Some e \<Rightarrow> ([g_HTTPAddr cfg], Inl (WrapError (''mcp: listen on '' @ g_HTTPAddr cfg) e))
            | None \<Rightarrow> ([g_HTTPAddr cfg], Inr (g_HTTPAddr cfg))))"

text \<open>
  \<^verbatim>\<open>Serve\<close> up to the start of the transport: the addresses tried, and the error or
  the dispatcher with the bound address, if any. A nil root is \<^term>\<open>None\<close>.
\<close>

definition Serve ::
  "(nat \<Rightarrow> bool) \<Rightarrow> 'f parsers \<Rightarrow> (string \<Rightarrow> string option) \<Rightarrow> net_env \<Rightarrow> (ctree \<Rightarrow> (nat \<times> string) list) \<Rightarrow> nat \<Rightarrow>
   (nat \<Rightarrow> 's uflag) \<Rightarrow> ctree \<Rightarrow> gctx option \<Rightarrow> ctree option \<Rightarrow> Config \<Rightarrow> string list \<times> (go_error + dispatcher \<times> string option)" where
  "Serve isprint env url_parse net parents root_id st execRoot ctx0 root0 cfg0 =
    (let ctx = or_background ctx0 in
     case root0 of
       None \<Rightarrow> ([], Inl (startup_error ctx ''mcp: root command is required''))
     | Some root \<Rightarrow>
         let cfg = (if g_ServerName cfg0 = [] then cfg0\<lparr>g_ServerName := t_Name root\<rparr> else cfg0) in
         (case first_some [validateVersion isprint ctx (g_Version cfg), validateInstructions ctx (g_Instructions cfg),
                           validateDeclarations isprint url_parse ctx root] of
            Some err \<Rightarrow> ([], Inl err)
          | None \<Rightarrow>
              let d = newDispatcher env parents root_id st execRoot root cfg in
              (case g_Transport cfg of
                 TransportStdio \<Rightarrow> ([], Inr (d, None))
               | TransportHTTP \<Rightarrow>
                   (case loopbackListener isprint net ctx cfg of
                      (tried, Inl err) \<Rightarrow> (tried, Inl err)
                    | (tried, Inr addr) \<Rightarrow> (tried, Inr (d, Some addr)))
               | UnknownTransport n \<Rightarrow> ([], Inl (startup_error ctx (''mcp: unknown transport '' @ itoa n))))))"

section \<open>Lemmas: discovery\<close>

lemma live_tool_eq: "live_tool = mcp_tool"
  by (simp add: fun_eq_iff live_tool_def mcp_tool_def capabilitySchema_def)

lemma BuildTool_Name [simp]: "to_Name (BuildTool env st cmd) = ToolName cmd"
  by (simp add: BuildTool_def Let_def split: option.split)

lemma discover_eq:
  "discover env st cmds (tools, targets) =
    (let called = filter (\<lambda>c. \<not> t_NeedsArgs c) cmds in
     (tools @ map (mcp_tool \<circ> BuildTool env st) called, targets ++ map_of (rev (map (\<lambda>c. (ToolName c, c)) called))))"
  by (induction cmds arbitrary: tools targets)
    (auto simp: requiresPositionalArgs_def Let_def live_tool_eq map_add_upd_left map_add_def fun_eq_iff split: option.split)

text \<open>The commands of a tree, each with its ancestors: nearest first, the root last.\<close>

inductive tree_path :: "ctree \<Rightarrow> ctree list \<Rightarrow> bool" for root :: ctree where
  at_root: "tree_path root [root]"
| to_child: "tree_path root (c # p) \<Longrightarrow> d \<in> set (t_Commands c) \<Longrightarrow> tree_path root (d # c # p)"

inductive_cases tree_pathE: "tree_path root (c # p)"

definition open_node :: "ctree \<Rightarrow> bool" where
  "open_node c \<longleftrightarrow> \<not> t_Hidden c \<and> \<not> isReservedCommand (t_Name c)"

lemma tree_path_under:
  "tree_path d p \<Longrightarrow> d \<in> set (t_Commands c) \<Longrightarrow> tree_path c (p @ [c])"
proof (induction rule: tree_path.induct)
  case at_root
  then show ?case by (simp add: tree_path.at_root to_child)
next
  case (to_child e q f)
  then show ?case by (simp add: tree_path.to_child)
qed

lemma tree_path_split:
  assumes "tree_path c q"
  shows "q = [c] \<or> (\<exists>d p. d \<in> set (t_Commands c) \<and> tree_path d p \<and> q = p @ [c])"
  using assms
proof (induction rule: tree_path.induct)
  case (to_child e p f)
  then show ?case
  proof (elim disjE exE conjE)
    assume "e # p = [c]"
    then show ?thesis using to_child(2) by (intro disjI2 exI [of _ f] exI [of _ "[f]"]) (simp add: tree_path.at_root)
  next
    fix d q assume "d \<in> set (t_Commands c)" "tree_path d q" "e # p = q @ [c]"
    moreover from this obtain q' where "q = e # q'" by (cases q) (auto elim: tree_path.cases)
    ultimately show ?thesis using to_child(2) by (intro disjI2 exI [of _ d] exI [of _ "f # q"]) (simp add: tree_path.to_child)
  qed
qed simp

lemma callable_iff:
  "c \<in> set (WalkCallableCommands root) \<longleftrightarrow>
    (\<exists>p. tree_path root (c # p) \<and> (\<forall>x \<in> set (c # p). open_node x)) \<and> t_Runnable c \<and> \<not> IsExcluded (t_Annotations c)"
proof (induction root rule: WalkCallableCommands.induct)
  case (1 u n p s l e h r na loc inh anns cs)
  let ?t = "CTree u n p s l e h r na loc inh anns cs"
  have "(\<exists>p. tree_path ?t (c # p) \<and> (\<forall>x \<in> set (c # p). open_node x)) \<longleftrightarrow>
      open_node ?t \<and> (c = ?t \<or> (\<exists>d \<in> set cs. \<exists>p. tree_path d (c # p) \<and> (\<forall>x \<in> set (c # p). open_node x)))" (is "?L \<longleftrightarrow> ?R")
  proof
    assume ?L
    then obtain q where q: "tree_path ?t (c # q)" "\<forall>x \<in> set (c # q). open_node x" by blast
    from tree_path_split [OF q(1)] show ?R
    proof (elim disjE exE conjE)
      assume "c # q = [?t]"
      then show ?thesis using q by simp
    next
      fix d p' assume d: "d \<in> set (t_Commands ?t)" "tree_path d p'" "c # q = p' @ [?t]"
      then obtain p'' where "p' = c # p''" by (cases p') (auto elim: tree_path.cases)
      then show ?thesis using d q by auto
    qed
  next
    assume r: ?R
    then consider "c = ?t" | d q where "d \<in> set cs" "tree_path d (c # q)" "\<forall>x \<in> set (c # q). open_node x" by blast
    then show ?L
    proof cases
      case 1
      then show ?thesis using r by (intro exI [of _ "[]"]) (simp add: at_root)
    next
      case (2 d q)
      then have "tree_path ?t ((c # q) @ [?t])" by (intro tree_path_under) simp_all
      then show ?thesis using 2 r by (intro exI [of _ "q @ [?t]"]) simp
    qed
  qed
  then show ?case
    using 1 by (auto simp: open_node_def)
qed

lemma callable_in_walk: "set (WalkCallableCommands root) \<subseteq> set (WalkCommands root)"
  by (induction root rule: WalkCallableCommands.induct) auto

section \<open>Lemmas: accepted calls\<close>

text \<open>
  Whether the value of an argument can be used for its flag, and whether it gives
  the flag a value (a null does not).
\<close>

definition arg_ok :: "(string \<Rightarrow> string + string list) \<Rightarrow> 'v dflag \<Rightarrow> string \<Rightarrow> json \<Rightarrow> bool" where
  "arg_ok csv f key v \<longleftrightarrow>
    (if key = FlagFormat then True
     else if key = FlagDryRun \<or> key = FlagYes then (\<exists>b. v = JBool b)
     else if key = FlagIdempotencyKey then (\<exists>s. v = JStr s)
     else if df_slice f then \<not> isl (stringifyArgList csv v (df_type f))
     else \<not> isl (stringifyArg v))"

definition arg_given :: "string \<Rightarrow> json \<Rightarrow> bool" where
  "arg_given key v \<longleftrightarrow> key \<in> {FlagFormat, FlagDryRun, FlagYes, FlagIdempotencyKey} \<or> v \<noteq> JNull"

lemma stringifyArg_None: "stringifyArg v = Inr None \<longleftrightarrow> v = JNull"
  by (cases v) simp_all

lemma stringifyArgList_None: "stringifyArgList csv v ty = Inr None \<longleftrightarrow> v = JNull"
  by (cases v) (auto simp: stringifyArgList_def split: sum.splits)

lemma build_step_ok:
  assumes "map_of allowed key = Some a" and "arg_ok csv (st a) key (args key)"
  shows "\<exists>b1. build_keys isprint csv d ctx st allowed name args (key # keys) b = build_keys isprint csv d ctx st allowed name args keys b1 \<and>
    set (b_set b1) = set (b_set b) \<union> (if arg_given key (args key) then {key} else {})"
proof (cases "key \<in> {FlagFormat, FlagDryRun, FlagYes, FlagIdempotencyKey}")
  case True
  then obtain cc where "applyCallConfigArg isprint d ctx (b_cc b) key (args key) = Inr (Some cc)"
    using assms(2) by (auto simp: applyCallConfigArg_def arg_ok_def)
  then show ?thesis
    using assms(1) True by (intro exI [of _ "b\<lparr>b_cc := cc, b_set := b_set b @ [key]\<rparr>"]) (auto simp: arg_given_def)
next
  case False
  then have cfg: "applyCallConfigArg isprint d ctx (b_cc b) key (args key) = Inr None"
    by (auto simp: applyCallConfigArg_def)
  have key: "key \<noteq> FlagFormat" "key \<noteq> FlagDryRun" "key \<noteq> FlagYes" "key \<noteq> FlagIdempotencyKey" using False by auto
  have "\<exists>b1. appendConvertedFlagArg isprint csv d ctx st key a (args key) b = Inr b1 \<and>
      set (b_set b1) = set (b_set b) \<union> (if args key \<noteq> JNull then {key} else {})"
  proof (cases "df_slice (st a)")
    case True
    then obtain r where r: "stringifyArgList csv (args key) (df_type (st a)) = Inr r"
      using assms(2) key by (cases "stringifyArgList csv (args key) (df_type (st a))") (simp_all add: arg_ok_def)
    have "r = None \<longleftrightarrow> args key = JNull"
      using r stringifyArgList_None [of csv "args key" "df_type (st a)"] by auto
    then show ?thesis using True r by (cases r) (simp_all add: appendConvertedFlagArg_def)
  next
    case False
    then obtain r where r: "stringifyArg (args key) = Inr r"
      using assms(2) key by (cases "stringifyArg (args key)") (simp_all add: arg_ok_def)
    have "r = None \<longleftrightarrow> args key = JNull" using r stringifyArg_None [of "args key"] by auto
    then show ?thesis using False r by (cases r) (simp_all add: appendConvertedFlagArg_def)
  qed
  then show ?thesis using assms(1) cfg key by (auto simp: arg_given_def)
qed

lemma build_step_fails:
  assumes "map_of allowed key = None \<or> (\<exists>a. map_of allowed key = Some a \<and> \<not> arg_ok csv (st a) key (args key))"
  shows "\<exists>e. build_keys isprint csv d ctx st allowed name args (key # keys) b = Inl e"
proof (cases "map_of allowed key")
  case (Some a)
  then have bad: "\<not> arg_ok csv (st a) key (args key)" using assms by simp
  show ?thesis
  proof (cases "key \<in> {FlagFormat, FlagDryRun, FlagYes, FlagIdempotencyKey}")
    case True
    then have "isl (applyCallConfigArg isprint d ctx (b_cc b) key (args key))"
      using bad by (cases "args key") (auto simp: applyCallConfigArg_def arg_ok_def)
    then show ?thesis using Some by (auto simp: isl_def)
  next
    case False
    then have cfg: "applyCallConfigArg isprint d ctx (b_cc b) key (args key) = Inr None"
      by (auto simp: applyCallConfigArg_def)
    have "if df_slice (st a) then isl (stringifyArgList csv (args key) (df_type (st a))) else isl (stringifyArg (args key))"
      using bad False by (simp add: arg_ok_def split: if_splits)
    then have "isl (appendConvertedFlagArg isprint csv d ctx st key a (args key) b)"
      by (auto simp: appendConvertedFlagArg_def isl_def split: if_splits)
    then show ?thesis using Some cfg by (auto simp: isl_def)
  qed
qed simp

lemma build_keys_accepts:
  "(\<forall>k \<in> set keys. \<exists>a. map_of allowed k = Some a \<and> arg_ok csv (st a) k (args k)) \<longleftrightarrow>
    \<not> isl (build_keys isprint csv d ctx st allowed name args keys b)" (is "?ok keys \<longleftrightarrow> _")
  "build_keys isprint csv d ctx st allowed name args keys b = Inr b' \<Longrightarrow>
    set (b_set b') = set (b_set b) \<union> {k \<in> set keys. arg_given k (args k)}"
proof -
  have "(?ok keys \<longleftrightarrow> \<not> isl (build_keys isprint csv d ctx st allowed name args keys b)) \<and>
    (\<forall>b'. build_keys isprint csv d ctx st allowed name args keys b = Inr b' \<longrightarrow>
      set (b_set b') = set (b_set b) \<union> {k \<in> set keys. arg_given k (args k)})"
  proof (induction keys arbitrary: b)
    case (Cons key keys)
    show ?case
    proof (cases "\<exists>a. map_of allowed key = Some a \<and> arg_ok csv (st a) key (args key)")
      case True
      then obtain a where a: "map_of allowed key = Some a" "arg_ok csv (st a) key (args key)" by blast
      obtain b1 where b1: "build_keys isprint csv d ctx st allowed name args (key # keys) b = build_keys isprint csv d ctx st allowed name args keys b1"
        "set (b_set b1) = set (b_set b) \<union> (if arg_given key (args key) then {key} else {})"
        using build_step_ok [where st = st and args = args, OF a] by blast
      have "?ok (key # keys) \<longleftrightarrow> ?ok keys" using a by simp
      moreover have "set (b_set b) \<union> {k \<in> set (key # keys). arg_given k (args k)} = set (b_set b1) \<union> {k \<in> set keys. arg_given k (args k)}"
        unfolding b1(2) by auto
      ultimately show ?thesis unfolding b1(1) using Cons.IH [of b1] by (simp only: simp_thms) blast
    next
      case False
      then have "map_of allowed key = None \<or> (\<exists>a. map_of allowed key = Some a \<and> \<not> arg_ok csv (st a) key (args key))"
        by (cases "map_of allowed key") auto
      then obtain e where e: "build_keys isprint csv d ctx st allowed name args (key # keys) b = Inl e"
        using build_step_fails [where st = st and args = args and b = b] by blast
      have "\<not> ?ok (key # keys)" using False by simp
      then show ?thesis unfolding e by (simp only: sum.disc sum.distinct simp_thms)
    qed
  qed simp
  then show "?ok keys \<longleftrightarrow> \<not> isl (build_keys isprint csv d ctx st allowed name args keys b)"
    "build_keys isprint csv d ctx st allowed name args keys b = Inr b' \<Longrightarrow>
    set (b_set b') = set (b_set b) \<union> {k \<in> set keys. arg_given k (args k)}" by blast+
qed

text \<open>The dispatcher's flag table is the list the input schema is made of.\<close>

lemma acceptedFlags_unique:
  "acceptedFlags (dispatch_store st) (target_command parents cmd) = map (\<lambda>a. (flag_name st a, a)) (unique_flags st cmd)"
proof -
  let ?add = "\<lambda>a flags. if map_of flags (df_name (dispatch_store st a)) \<noteq> None then flags else flags @ [(df_name (dispatch_store st a), a)]"
  have name: "df_name (dispatch_store st a) = flag_name st a" for a
    by (simp add: dispatch_store_def dispatch_flag_def Let_def flag_name_def)
  have "fold ?add as acc = acc @ map (\<lambda>a. (flag_name st a, a)) (fst (keepFirst (fst ` set acc) (flag_name st) as))" for as acc
  proof (induction as arbitrary: acc)
    case (Cons a as)
    show ?case
    proof (cases "map_of acc (flag_name st a)")
      case None
      then have "flag_name st a \<notin> fst ` set acc" by (simp add: map_of_eq_None_iff)
      with Cons.IH [of "acc @ [(flag_name st a, a)]"] None show ?thesis by (simp add: name case_prod_beta)
    next
      case (Some b)
      then have "flag_name st a \<in> fst ` set acc" by (metis map_of_SomeD fst_conv image_eqI)
      with Cons.IH [of acc] Some show ?thesis by (simp add: name)
    qed
  qed simp
  from this [of "t_local cmd @ t_inherited cmd" "[]"] show ?thesis
    unfolding acceptedFlags_def target_command_def unique_flags_def by (simp del: fold_append)
qed

lemma unique_flags_names: "distinct (map (flag_name st) (unique_flags st cmd))"
  by (simp add: unique_flags_def keepFirst_distinct_keys)

lemma acceptedFlags_iff:
  "map_of (acceptedFlags (dispatch_store st) (target_command parents cmd)) k = Some a \<longleftrightarrow> a \<in> set (unique_flags st cmd) \<and> flag_name st a = k"
proof -
  have "distinct (map fst (map (\<lambda>a. (flag_name st a, a)) (unique_flags st cmd)))"
    using unique_flags_names [of st cmd] by (simp add: comp_def)
  then show ?thesis unfolding acceptedFlags_unique by (auto simp del: map_map)
qed

lemma find_SomeD: "find P xs = Some x \<Longrightarrow> x \<in> set xs"
  by (induction xs) (auto split: if_splits)

lemma missingRequiredFlag_iff:
  assumes "\<And>a. flag_name st a \<noteq> []"
  shows "missingRequiredFlag (dispatch_store st) (acceptedFlags (dispatch_store st) (target_command parents cmd)) given = [] \<longleftrightarrow>
    set (requiredFlags st cmd) \<subseteq> set given"
proof -
  let ?al = "acceptedFlags (dispatch_store st) (target_command parents cmd)"
  let ?miss = "\<lambda>n. (case map_of ?al n of Some a \<Rightarrow> df_required (dispatch_store st a) | None \<Rightarrow> False) \<and> n \<notin> set given"
  have req: "df_required (dispatch_store st a) = IsRequiredFlag (uf_flag (st a))" for a
    by (simp add: dispatch_store_def dispatch_flag_def Let_def)
  have names: "map fst ?al = map (flag_name st) (unique_flags st cmd)" by (simp add: acceptedFlags_unique)
  have miss: "?miss (flag_name st a) \<longleftrightarrow> IsRequiredFlag (uf_flag (st a)) \<and> flag_name st a \<notin> set given" if "a \<in> set (unique_flags st cmd)" for a
    using that acceptedFlags_iff [of st parents cmd "flag_name st a" a] by (simp add: req)
  have "missingRequiredFlag (dispatch_store st) ?al given = [] \<longleftrightarrow> find ?miss (sort (map fst ?al)) = None"
  proof (cases "find ?miss (sort (map fst ?al))")
    case (Some n)
    then have "n \<in> set (sort (map fst ?al))" by (rule find_SomeD)
    then have "n \<noteq> []" using assms unfolding names by auto
    then show ?thesis unfolding missingRequiredFlag_def Some by simp
  qed (simp add: missingRequiredFlag_def)
  also have "\<dots> \<longleftrightarrow> (\<forall>a \<in> set (unique_flags st cmd). \<not> (IsRequiredFlag (uf_flag (st a)) \<and> flag_name st a \<notin> set given))"
    unfolding find_None_iff names using miss by (auto simp: image_iff)
  also have "\<dots> \<longleftrightarrow> set (requiredFlags st cmd) \<subseteq> set given"
    by (auto simp: requiredFlags_def)
  finally show ?thesis .
qed

lemma buildArgs_accepts_iff:
  "\<not> isl (buildArgs isprint csv new_key d st ctx target name args) \<longleftrightarrow>
    (\<exists>b. build_keys isprint csv d ctx st (acceptedFlags st target) name (\<lambda>k. case map_of args k of Some v \<Rightarrow> v | None \<Rightarrow> JNull) (sort (map fst args))
       \<lparr>b_flagArgs = [], b_assignments = [], b_set = [],
         b_cc = \<lparr>cc_mode = ModeJSON, cc_dryRun = False, cc_approval = False, cc_idempotencyKey = []\<rparr>\<rparr> = Inr b \<and>
       missingRequiredFlag st (acceptedFlags st target) (b_set b @ [FlagFormat, FlagDryRun, FlagIdempotencyKey]) = [])"
  unfolding buildArgs_def Let_def by (auto split: sum.split if_splits)

section \<open>Lemmas: advertised enum members\<close>

text \<open>What a client sends for an advertised JSON value; floats and lists are not enum members.\<close>

fun client_json :: "'f json_value \<Rightarrow> json option" where
  "client_json (VBool b) = Some (JBool b)"
| "client_json (VInt n) = Some (JNum (itoa n))"
| "client_json (VUint n) = Some (JNum (itoa (int n)))"
| "client_json (VStr s) = Some (JStr s)"
| "client_json _ = None"

definition callable_member :: "string \<Rightarrow> string \<Rightarrow> 'f json_value \<Rightarrow> bool" where
  "callable_member ty w v \<longleftrightarrow> (\<exists>j s. client_json v = Some j \<and> stringifyArg j = Inr (Some s) \<and> same_value ty s w)"

lemma exact_type_is_string:
  assumes "\<And>v. CanonicalEnumValue ty v = Inr v"
  shows "JSONSchemaType ty = JSONString" "JSONSchemaArrayItemType ty = None"
proof -
  have not_int: "int_width ty = None"
  proof (rule ccontr)
    assume "int_width ty \<noteq> None"
    then obtain signed bits where w: "int_width ty = Some (signed, bits)" by auto
    have "ty \<noteq> ''count''" using assms [of "[]"] by (auto simp: CanonicalEnumValue_def isBuiltinFlagType_def)
    then have "isl (CanonicalEnumValue ty [])"
      using CanonicalEnumValue_int [OF w, of "[]"]
      by (auto simp: integerParseType_def canonicalSigned_def canonicalUnsigned_def ParseInt_def ParseUint_def split: if_splits)
    then show False using assms by simp
  qed
  have no: "ty \<notin> {''bool'', ''float32'', ''float64'', ''boolSlice'', ''intSlice'', ''int32Slice'', ''int64Slice'', ''uintSlice'',
      ''float32Slice'', ''float64Slice'', ''durationSlice'', ''ipSlice'', ''ipNetSlice'', ''stringArray'', ''stringSlice''}"
  proof
    assume ty: "ty \<in> {''bool'', ''float32'', ''float64'', ''boolSlice'', ''intSlice'', ''int32Slice'', ''int64Slice'', ''uintSlice'',
      ''float32Slice'', ''float64Slice'', ''durationSlice'', ''ipSlice'', ''ipNetSlice'', ''stringArray'', ''stringSlice''}"
    have "isl (CanonicalEnumValue ty [])"
      using ty by (elim insertE emptyE; simp add: CanonicalEnumValue_def isBuiltinFlagType_def JSONSchemaArrayItemType_def)
    then show False using assms by simp
  qed
  show "JSONSchemaType ty = JSONString"
    using not_int no unfolding int_width_None_iff JSONSchemaType_def by simp
  show "JSONSchemaArrayItemType ty = None"
    using no unfolding JSONSchemaArrayItemType_def by simp
qed

lemma enum_members_callable:
  fixes env :: "'f parsers"
  assumes "\<forall>m \<in> set ms. \<not> isl (CanonicalEnumValue ty m)" and "ms \<noteq> []"
  shows "JSONSchemaArrayItemType ty = None \<and> (\<exists>vs. enum_members env ty ms = Some vs \<and> list_all2 (callable_member ty) ms vs)"
proof (cases ty rule: CanonicalEnumValue_cases)
  case int
  then obtain signed bits where w: "int_width ty = Some (signed, bits)" by auto
  have str: "JSONSchemaType ty \<noteq> JSONString" using JSONInteger_iff [of ty] int(1) by (auto simp: json_type_defs)
  have member: "\<exists>n. CanonicalEnumValue ty m = Inr (itoa n) \<and> ScalarJSON env ty (itoa n) = Some (int_value ty n) \<and>
      callable_member ty m (int_value ty n :: 'f json_value)" if good: "\<not> isl (CanonicalEnumValue ty m)" for m
  proof -
    obtain n where n: "flag_int ty m = Some n" "CanonicalEnumValue ty m = Inr (itoa n)"
      using good CanonicalEnumValue_flag_int(1) [OF w, of m] int(2) by (cases "CanonicalEnumValue ty m") auto
    have "CanonicalEnumValue ty (itoa n) = Inr (itoa n)" by (rule CanonicalEnumValue_idem [OF n(2)])
    moreover have "int (nat n) = n" if "has_prefix ty ''uint''"
      using flag_int_range [OF n(1) w] int_width_bits [OF w] that by (simp split: if_splits)
    ultimately have "callable_member ty m (int_value ty n :: 'f json_value)"
      using n(2) by (auto simp: callable_member_def int_value_def same_value_def)
    then show ?thesis using n ScalarJSON_itoa [OF n(1) w] by blast
  qed
  have "\<exists>vs. enum_members env ty ms = Some vs \<and> list_all2 (callable_member ty) ms vs"
    using assms(1)
  proof (induction ms)
    case (Cons m ms)
    then obtain vs where vs: "enum_members env ty ms = Some vs" "list_all2 (callable_member ty) ms vs" by auto
    obtain n where n: "CanonicalEnumValue ty m = Inr (itoa n)" "ScalarJSON env ty (itoa n) = Some (int_value ty n)"
      "callable_member ty m (int_value ty n :: 'f json_value)"
      using member [of m] Cons.prems by auto
    then show ?case using vs str by (intro exI [of _ "int_value ty n # vs"]) simp
  qed simp
  then show ?thesis using int_width_not_slice [OF int(1)] by blast
next
  case refused
  then show ?thesis using assms by (cases ms) auto
next
  case exact
  note str = exact_type_is_string [OF exact]
  have "enum_members env ty ms = Some (map VStr ms)" using str(1) by (induction ms) simp_all
  moreover have "list_all2 (callable_member ty) ms (map VStr ms)"
    using exact by (simp add: list_all2_conv_all_nth callable_member_def same_value_def)
  ultimately show ?thesis using str(2) by blast
qed

section \<open>Properties\<close>

text \<open>
  An advertised enum can be called. For a flag with a declared enum, in every
  state the declarations can produce, the tool's input schema lists one JSON value
  per allowed value, in the author's order; when a client sends such a value back,
  the dispatcher turns it into a text that denotes the same value, and setting the
  flag to this text is never rejected by the enum.
\<close>

theorem advertised_enum_is_callable:
  assumes "flag_reach env st" and "f_Value (st a) = Enum ev" and "uf_flag u = st a" and "e_allowed ev \<noteq> []"
  shows "\<exists>vs. pr_enum (flagProperty env u) = Some vs \<and>
    list_all2 (\<lambda>w v. \<exists>j s. client_json v = Some j \<and> stringifyArg j = Inr (Some s) \<and> same_value (pv_type (e_inner ev)) s w \<and>
      fst (flag_Set (st a) s) = fst (inner_Set (e_inner ev) s)) (e_allowed ev) vs"
proof -
  let ?ty = "pv_type (e_inner ev)"
  have ok: "e_flagType ev = ?ty" "collect_forms ?ty [] (e_allowed ev) = Inr (e_canonical ev)"
    "defaultIsMember ?ty (e_canonical ev) (f_DefValue (st a))"
    using flag_reach_ok [OF assms(1), of a] assms(2) by (auto simp: flag_ok_def enum_ok_def)
  have forms: "\<not> isl (CanonicalEnumValue ?ty m)" if "m \<in> set (e_allowed ev)" for m
    using collect_forms_sound [OF ok(2)] that by (auto simp: canonical_option_def isl_def split: sum.splits)
  then obtain vs where arr: "JSONSchemaArrayItemType ?ty = None" and vs: "enum_members env ?ty (e_allowed ev) = Some vs"
    and mem: "list_all2 (callable_member ?ty) (e_allowed ev) vs"
    using enum_members_callable [of "e_allowed ev" ?ty env] assms(4) by auto
  have "pr_enum (flagProperty env u) = Some vs"
    using arr vs assms(2-4) ok by (simp add: flagProperty_def Let_def value_Type_def enumJSON_def FlagEnum_def)
  moreover have "fst (flag_Set (st a) s) = fst (inner_Set (e_inner ev) s)" if "same_value ?ty s w" "w \<in> set (e_allowed ev)" for s w
    using isMember_iff [OF ok(2), of s] that assms(2) ok(1) by (auto simp: flag_Set_def enum_Set_def case_prod_beta)
  ultimately show ?thesis
    using mem by (intro exI [of _ vs] conjI) (auto simp: callable_member_def list_all2_conv_all_nth)
qed

theorem advertised_enum_is_callable_witness:
  "\<exists>vs. pr_enum (flagProperty sample_parsers \<lparr>uf_flag = level_store 0, uf_Shorthand = [], uf_Usage = [], uf_slice_values = []\<rparr>) = Some vs \<and>
     length vs = 2"
proof -
  have reach: "flag_reach sample_parsers level_store"
    unfolding level_store_def by (rule reach_enum [OF level_reach])
  let ?u = "\<lparr>uf_flag = level_store 0, uf_Shorthand = [], uf_Usage = [], uf_slice_values = []\<rparr>"
  obtain vs where "pr_enum (flagProperty sample_parsers ?u) = Some vs" "list_all2 (\<lambda>w v. \<exists>j s. client_json v = Some j) [''1'', ''2''] vs"
    using advertised_enum_is_callable [where st = level_store and a = 0 and u = ?u, OF reach level_store_value(1)]
    by (auto simp: list_all2_Cons1)
  then show ?thesis by (auto dest: list_all2_lengthD)
qed

text \<open>
  C23. The live tool set. The server exposes, in walk order, exactly the callable
  commands that need no positional argument, each with the tool the static
  \<^verbatim>\<open>__schema --as=mcp\<close> document shows for it; the two tool lists are equal if and only
  if no callable command needs a positional argument. A command is callable exactly
  when it is runnable, is not excluded, and neither it nor a command above it is
  hidden or reserved. Every tool name resolves to such a command of that name, and
  no other name resolves.
\<close>

theorem live_tools_are_static_tools:
  "fst (discoverTools env st root) = map (mcp_tool \<circ> BuildTool env st) (filter (\<lambda>c. \<not> t_NeedsArgs c) (WalkCallableCommands root)) \<and>
   (fst (discoverTools env st root) = m_Tools (BuildMCPSchema env up st root) \<longleftrightarrow>
     (\<forall>c. c \<in> set (WalkCallableCommands root) \<longrightarrow> \<not> t_NeedsArgs c)) \<and>
   (\<forall>c. c \<in> set (WalkCallableCommands root) \<longleftrightarrow>
     (\<exists>p. tree_path root (c # p) \<and> (\<forall>x \<in> set (c # p). \<not> t_Hidden x \<and> \<not> isReservedCommand (t_Name x))) \<and>
     t_Runnable c \<and> \<not> IsExcluded (t_Annotations c)) \<and>
   (\<forall>n. snd (discoverTools env st root) n \<noteq> None \<longleftrightarrow> n \<in> mt_Name ` set (fst (discoverTools env st root))) \<and>
   (\<forall>n c. snd (discoverTools env st root) n = Some c \<longrightarrow>
     ToolName c = n \<and> c \<in> set (WalkCallableCommands root) \<and> \<not> t_NeedsArgs c)"
proof -
  let ?called = "filter (\<lambda>c. \<not> t_NeedsArgs c) (WalkCallableCommands root)"
  let ?pairs = "rev (map (\<lambda>c. (ToolName c, c)) ?called)"
  have d: "discoverTools env st root = (map (mcp_tool \<circ> BuildTool env st) ?called, map_of ?pairs)"
    by (simp add: discoverTools_def discover_eq Let_def)
  have static: "m_Tools (BuildMCPSchema env up st root) = map (mcp_tool \<circ> BuildTool env st) (WalkCallableCommands root)"
    by (simp add: BuildMCPSchema_def Build_def Let_def case_prod_beta)
  have "fst (discoverTools env st root) = m_Tools (BuildMCPSchema env up st root) \<longleftrightarrow>
      (\<forall>c. c \<in> set (WalkCallableCommands root) \<longrightarrow> \<not> t_NeedsArgs c)"
  proof
    assume "fst (discoverTools env st root) = m_Tools (BuildMCPSchema env up st root)"
    then have "length (fst (discoverTools env st root)) = length (m_Tools (BuildMCPSchema env up st root))" by simp
    then have len: "length ?called = length (WalkCallableCommands root)" unfolding d static by simp
    show "\<forall>c. c \<in> set (WalkCallableCommands root) \<longrightarrow> \<not> t_NeedsArgs c"
    proof (intro allI impI notI)
      fix c assume "c \<in> set (WalkCallableCommands root)" "t_NeedsArgs c"
      then have "length ?called < length (WalkCallableCommands root)" by (intro length_filter_less) auto
      then show False using len by simp
    qed
  next
    assume "\<forall>c. c \<in> set (WalkCallableCommands root) \<longrightarrow> \<not> t_NeedsArgs c"
    then have "?called = WalkCallableCommands root" by (simp add: filter_id_conv)
    then show "fst (discoverTools env st root) = m_Tools (BuildMCPSchema env up st root)" unfolding d static by simp
  qed
  moreover have "snd (discoverTools env st root) n \<noteq> None \<longleftrightarrow> n \<in> mt_Name ` set (fst (discoverTools env st root))" for n
    unfolding d snd_conv fst_conv map_of_eq_None_iff by (auto simp: mcp_tool_def image_image)
  moreover have "ToolName c = n \<and> c \<in> set (WalkCallableCommands root) \<and> \<not> t_NeedsArgs c"
    if "snd (discoverTools env st root) n = Some c" for n c
    using map_of_SomeD [OF that [unfolded d snd_conv]] by auto
  moreover have "fst (discoverTools env st root) = map (mcp_tool \<circ> BuildTool env st) ?called" by (simp add: d)
  ultimately show ?thesis
    by (intro conjI allI callable_iff [unfolded open_node_def]) simp_all
qed

text \<open>A root with a tool, an excluded command and one that needs a positional argument.\<close>

definition leaf :: "string \<Rightarrow> bool \<Rightarrow> annotations \<Rightarrow> ctree" where
  "leaf n needs anns = CTree n n (''app '' @ n) [] [] [] False True needs [0] [1] anns []"

definition small_tree :: ctree where
  "small_tree = CTree ''app'' ''app'' ''app'' [] [] [] False False False [1] [] Map.empty
     [leaf ''ls'' False Map.empty, leaf ''ui'' False [ExcludeAnnotationKey \<mapsto> ''true''], leaf ''cp'' True Map.empty]"

definition small_store :: "nat \<Rightarrow> string uflag" where
  "small_store = (\<lambda>a. \<lparr>uf_flag = \<lparr>f_Name = (if a = 1 then ''yes'' else ''path''), f_DefValue = [],
     f_Value = Plain \<lparr>pv_type = (if a = 1 then ''bool'' else ''string''), pv_slice = False, pv_state = [], pv_set = (\<lambda>v _. (None, v))\<rparr>,
     f_Annotations = (\<lambda>k. if a = 0 \<and> k = requiredAnnotation then [''true''] else [])\<rparr>,
     uf_Shorthand = [], uf_Usage = [], uf_slice_values = []\<rparr>)"

theorem live_tools_are_static_tools_witness:
  "map mt_Name (fst (discoverTools sample_parsers small_store small_tree)) = [''app-ls''] \<and>
   fst (discoverTools sample_parsers small_store small_tree) \<noteq> m_Tools (BuildMCPSchema sample_parsers (\<lambda>_. None) small_store small_tree)"
proof -
  have walk: "WalkCallableCommands small_tree = [leaf ''ls'' False Map.empty, leaf ''cp'' True Map.empty]"
    by (simp add: small_tree_def leaf_def isReservedCommand_def IsExcluded_def anns_get_def)
  have name: "ToolName (leaf ''ls'' False Map.empty) = ''app-ls''"
    by (simp add: ToolName_def leaf_def str_fields_def rune_chunks_ascii byte_def is_space_def str_join_def)
  note live = live_tools_are_static_tools [of sample_parsers small_store small_tree "\<lambda>_. None"]
  have "fst (discoverTools sample_parsers small_store small_tree) = map (mcp_tool \<circ> BuildTool sample_parsers small_store) [leaf ''ls'' False Map.empty]"
    using conjunct1 [OF live] by (simp add: walk leaf_def)
  then have "map mt_Name (fst (discoverTools sample_parsers small_store small_tree)) = [''app-ls'']"
    by (simp add: mcp_tool_def name)
  moreover have "t_NeedsArgs (leaf ''cp'' True Map.empty)" by (simp add: leaf_def)
  ultimately show ?thesis using conjunct1 [OF conjunct2 [OF live]] by (auto simp: walk)
qed




lemma WalkCommands_trans:
  "b \<in> set (WalkCommands a) \<Longrightarrow> c \<in> set (WalkCommands b) \<Longrightarrow> c \<in> set (WalkCommands a)"
  by (induction a rule: WalkCommands.induct) auto

text \<open>The dispatcher of a tree meets the condition of the isolation theorem on its flags.\<close>

lemma newDispatcher_tree_flags_ok:
  assumes "root \<in> set (WalkCommands execRoot)"
  shows "tree_flags_ok (newDispatcher env parents root_id st execRoot root cfg)"
proof -
  have "set (t_local c @ t_inherited c) \<subseteq> set (tree_flags execRoot)" if "c \<in> set (WalkCallableCommands root)" for c
    using WalkCommands_trans [OF assms] callable_in_walk [of root] that by (auto simp: tree_flags_def)
  moreover have "c \<in> set (WalkCallableCommands root)" if "snd (discoverTools env st root) n = Some c" for n c
  proof -
    have "map_of (rev (map (\<lambda>c. (ToolName c, c)) (filter (\<lambda>c. \<not> t_NeedsArgs c) (WalkCallableCommands root)))) n = Some c"
      using that by (simp add: discoverTools_def discover_eq Let_def)
    from map_of_SomeD [OF this] show ?thesis by auto
  qed
  ultimately show ?thesis
    by (fastforce simp: newDispatcher_def tree_flags_ok_def target_command_def case_prod_beta ran_def)
qed

definition startable :: "(string \<Rightarrow> string option) \<Rightarrow> ctree \<Rightarrow> Config \<Rightarrow> bool" where
  "startable url_parse root cfg \<longleftrightarrow>
    trim_space (g_Version cfg) \<notin> {[], ''dev'', ''unknown''} \<and> length (g_Instructions cfg) \<le> 8192 \<and> valid_utf8 (g_Instructions cfg) \<and>
    declaration_conflict url_parse root = None"

definition may_bind :: "net_env \<Rightarrow> Config \<Rightarrow> bool" where
  "may_bind net cfg \<longleftrightarrow> (\<exists>host. split_host net (g_HTTPAddr cfg) = Inr host \<and>
    (g_AllowNonLoopback cfg \<or> host = ''localhost'' \<or> (host \<noteq> [] \<and> ip_loopback net host = Some True)))"

lemma startup_error_exit: "ErrorExitCode (Some (startup_error ctx msg)) = ExitValidation"
  by (simp add: startup_error_def as_error_def NewError_def option_defs ExitCode_def exit_defs)

lemma validateVersion_facts:
  "validateVersion isprint ctx version = None \<longleftrightarrow> trim_space version \<notin> {[], ''dev'', ''unknown''}"
  "validateVersion isprint ctx version = Some e \<Longrightarrow> ErrorExitCode (Some e) = ExitValidation"
  by (auto simp: validateVersion_def startup_error_exit split: if_splits)

lemma validateInstructions_facts:
  "validateInstructions ctx instr = None \<longleftrightarrow> length instr \<le> 8192 \<and> valid_utf8 instr"
  "validateInstructions ctx instr = Some e \<Longrightarrow> ErrorExitCode (Some e) = ExitValidation"
  by (auto simp: validateInstructions_def maxInstructionsBytes_def as_error_def NewError_def option_defs ExitCode_def exit_defs split: if_splits)

lemma validateDeclarations_facts:
  "validateDeclarations isprint up ctx root = None \<longleftrightarrow> declaration_conflict up root = None"
  "validateDeclarations isprint up ctx root = Some e \<Longrightarrow> ErrorExitCode (Some e) = ExitValidation"
  by (auto simp: validateDeclarations_def TreeDeclarationError_exit)

lemma validations:
  "first_some [validateVersion isprint ctx (g_Version cfg), validateInstructions ctx (g_Instructions cfg), validateDeclarations isprint up ctx root] = None
    \<longleftrightarrow> startable up root cfg"
  "first_some [validateVersion isprint ctx (g_Version cfg), validateInstructions ctx (g_Instructions cfg), validateDeclarations isprint up ctx root] = Some e
    \<Longrightarrow> ErrorExitCode (Some e) = ExitValidation"
proof -
  assume "first_some [validateVersion isprint ctx (g_Version cfg), validateInstructions ctx (g_Instructions cfg), validateDeclarations isprint up ctx root] = Some e"
  then consider "validateVersion isprint ctx (g_Version cfg) = Some e" | "validateInstructions ctx (g_Instructions cfg) = Some e"
    | "validateDeclarations isprint up ctx root = Some e"
    by (auto split: option.splits dest!: first_some_SomeD)
  then show "ErrorExitCode (Some e) = ExitValidation"
    by cases (rule validateVersion_facts(2) validateInstructions_facts(2) validateDeclarations_facts(2), assumption)+
qed (auto simp: validateVersion_facts(1) validateInstructions_facts(1) validateDeclarations_facts(1) startable_def)

lemma loopbackListener_cases:
  "loopbackListener isprint net ctx cfg =
    (if may_bind net cfg
     then ([g_HTTPAddr cfg], case listen net (g_HTTPAddr cfg) of Some e \<Rightarrow> Inl (WrapError (''mcp: listen on '' @ g_HTTPAddr cfg) e) | None \<Rightarrow> Inr (g_HTTPAddr cfg))
     else ([], Inl (projl (snd (loopbackListener isprint net ctx cfg)))))"
  "\<not> may_bind net cfg \<Longrightarrow> ErrorExitCode (Some (projl (snd (loopbackListener isprint net ctx cfg)))) = ExitValidation"
  by (auto simp: loopbackListener_def may_bind_def isLoopbackHost_def startup_error_exit split: sum.split option.splits if_splits)

text \<open>
  C25. Starting the server fails closed. It starts exactly when the version is a real
  one, the instructions are valid UTF-8 of at most 8 KiB, the declarations have no
  conflict, the transport is known and, for HTTP, the address may be bound and can
  be. A socket is opened only for HTTP, only on the configured address, and only if
  its host is a loopback host or non-loopback binding was allowed; a start that is
  refused before any socket is opened has exit code 2. The dispatcher it starts
  reports the configured version and resets every flag its tools use.
\<close>

theorem Serve_fails_closed:
  assumes "root \<in> set (WalkCommands execRoot)"
    and "S = Serve isprint env up net parents root_id st execRoot ctx (Some root) cfg"
  shows "((\<exists>r. snd S = Inr r) \<longleftrightarrow> startable up root cfg \<and>
      (g_Transport cfg = TransportStdio \<or> (g_Transport cfg = TransportHTTP \<and> may_bind net cfg \<and> listen net (g_HTTPAddr cfg) = None))) \<and>
    (fst S \<noteq> [] \<longrightarrow> g_Transport cfg = TransportHTTP \<and> fst S = [g_HTTPAddr cfg] \<and> may_bind net cfg \<and> startable up root cfg) \<and>
    (\<forall>err. S = ([], Inl err) \<longrightarrow> ErrorExitCode (Some err) = ExitValidation) \<and>
    (\<forall>d addr. snd S = Inr (d, addr) \<longrightarrow> d_version d = g_Version cfg \<and> tree_flags_ok d)"
proof -
  define c1 where "c1 = (if g_ServerName cfg = [] then cfg\<lparr>g_ServerName := t_Name root\<rparr> else cfg)"
  have same: "g_Version c1 = g_Version cfg" "g_Instructions c1 = g_Instructions cfg" "g_Transport c1 = g_Transport cfg"
    "g_HTTPAddr c1 = g_HTTPAddr cfg" "startable up root c1 = startable up root cfg" "may_bind net c1 = may_bind net cfg"
    by (simp_all add: c1_def startable_def may_bind_def)
  let ?d = "newDispatcher env parents root_id st execRoot root c1"
  let ?v = "first_some [validateVersion isprint (or_background ctx) (g_Version c1), validateInstructions (or_background ctx) (g_Instructions c1),
    validateDeclarations isprint up (or_background ctx) root]"
  let ?l = "loopbackListener isprint net (or_background ctx) c1"
  have S: "S = (case ?v of Some err \<Rightarrow> ([], Inl err) | None \<Rightarrow>
      (case g_Transport c1 of TransportStdio \<Rightarrow> ([], Inr (?d, None))
       | TransportHTTP \<Rightarrow> (fst ?l, case snd ?l of Inl err \<Rightarrow> Inl err | Inr addr \<Rightarrow> Inr (?d, Some addr))
       | UnknownTransport n \<Rightarrow> ([], Inl (startup_error (or_background ctx) (''mcp: unknown transport '' @ itoa n)))))"
    unfolding assms(2) Serve_def Let_def c1_def [symmetric] option.case
    by (auto simp: case_prod_beta prod_eq_iff split: option.split Transport.split sum.split)
  have "d_version ?d = g_Version cfg" by (simp add: newDispatcher_def case_prod_beta same)
  then have d: "d_version ?d = g_Version cfg \<and> tree_flags_ok ?d"
    using newDispatcher_tree_flags_ok [OF assms(1)] by blast
  note v = validations [where isprint = isprint and ctx = "or_background ctx" and cfg = c1 and up = up and root = root]
  note l = loopbackListener_cases [where isprint = isprint and net = net and ctx = "or_background ctx" and cfg = c1, unfolded same]
  show ?thesis
  proof (cases ?v)
    case (Some err)
    then show ?thesis using v(2) [OF Some] v(1) same unfolding S by simp
  next
    case None
    then have ok: "startable up root cfg" using v(1) same by simp
    show ?thesis
    proof (cases "g_Transport c1")
      case TransportStdio
      then show ?thesis using None ok d same unfolding S by simp
    next
      case TransportHTTP
      then show ?thesis
      proof (cases "may_bind net cfg")
        case True
        then have "?l = ([g_HTTPAddr cfg], case listen net (g_HTTPAddr cfg) of Some e \<Rightarrow> Inl (WrapError (''mcp: listen on '' @ g_HTTPAddr cfg) e) | None \<Rightarrow> Inr (g_HTTPAddr cfg))"
          using l(1) by simp
        then show ?thesis using None ok d same TransportHTTP True unfolding S by (auto split: option.splits)
      next
        case False
        then obtain e where "?l = ([], Inl e)" "ErrorExitCode (Some e) = ExitValidation" using l by auto
        then show ?thesis using None ok d same TransportHTTP False unfolding S by simp
      qed
    next
      case (UnknownTransport n)
      then show ?thesis using None same startup_error_exit unfolding S by simp
    qed
  qed
qed

definition open_config :: Config where
  "open_config = \<lparr>g_Transport = TransportHTTP, g_HTTPAddr = '':8080'', g_AllowNonLoopback = False, g_Version = ''1.2.0'', g_ServerName = [],
     g_Instructions = []\<rparr>"

definition small_net :: net_env where
  "small_net = \<lparr>split_host = (\<lambda>_. Inr []), ip_loopback = (\<lambda>_. None), listen = (\<lambda>_. None)\<rparr>"

theorem Serve_fails_closed_witness:
  "fst (Serve (\<lambda>_. True) sample_parsers (\<lambda>_. None) small_net (\<lambda>_. []) 0 small_store small_tree None (Some small_tree) open_config) = [] \<and>
   (\<nexists>r. snd (Serve (\<lambda>_. True) sample_parsers (\<lambda>_. None) small_net (\<lambda>_. []) 0 small_store small_tree None (Some small_tree) open_config) = Inr r)"
proof -
  have "small_tree \<in> set (WalkCommands small_tree)" by (simp add: small_tree_def)
  moreover have "\<not> may_bind small_net open_config" "g_Transport open_config \<noteq> TransportStdio"
    by (simp_all add: may_bind_def small_net_def open_config_def)
  ultimately show ?thesis using Serve_fails_closed [OF _ refl] by blast
qed

end
