(* ===== verification/Go_Text.thy ===== *)
theory Go_Text
  imports Go_Strconv
begin

text \<open>
  Line-oriented text as the Go standard library handles it: splitting and cutting of
  strings, \<^verbatim>\<open>bufio.Scanner\<close> over lines with its token limit, reading through an
  \<^verbatim>\<open>io.LimitedReader\<close>, padding of \<^verbatim>\<open>fmt\<close>, and the wrap-around of \<^verbatim>\<open>int64\<close>. Used by the
  discovery document and by the repository's gate commands.
\<close>

section \<open>Lines\<close>

definition nl :: char where "nl = char_of (10 :: nat)"
definition cr :: char where "cr = char_of (13 :: nat)"

text \<open>\<^verbatim>\<open>strings.TrimRight\<close> with one ASCII character, and \<^verbatim>\<open>strings.Split\<close> at line ends.\<close>

definition trim_right :: "char \<Rightarrow> string \<Rightarrow> string" where
  "trim_right c s = rev (dropWhile (\<lambda>x. x = c) (rev s))"

fun split_lines :: "string \<Rightarrow> string list" where
  "split_lines [] = [[]]"
| "split_lines (c # s) =
    (if c = nl then [] # split_lines s
     else (case split_lines s of x # xs \<Rightarrow> (c # x) # xs | [] \<Rightarrow> [[c]]))"

text \<open>
  The lines of a \<^verbatim>\<open>bufio.Scanner\<close>: no empty line after the last line end, and one
  carriage return dropped from the end of a line.
\<close>

definition raw_lines :: "string \<Rightarrow> string list" where
  "raw_lines s = (let ls = split_lines s in if last ls = [] then butlast ls else ls)"

definition drop_cr :: "string \<Rightarrow> string" where
  "drop_cr l = (if l \<noteq> [] \<and> last l = cr then butlast l else l)"

text \<open>
  The tokens a scanner with a buffer of \<^term>\<open>n\<close> bytes delivers, and whether it then
  stops with \<^verbatim>\<open>ErrTooLong\<close>: a line has to fit the buffer with one byte to spare.
\<close>

definition scan_lines :: "nat \<Rightarrow> string \<Rightarrow> string list \<times> bool" where
  "scan_lines n s = (map drop_cr (takeWhile (\<lambda>l. length l < n) (raw_lines s)), list_ex (\<lambda>l. n \<le> length l) (raw_lines s))"

definition max_token :: nat where "max_token = 65536"

text \<open>\<^verbatim>\<open>ast.IsExported\<close>: the first rune is upper case.\<close>

definition is_exported :: "(nat \<Rightarrow> bool) \<Rightarrow> string \<Rightarrow> bool" where
  "is_exported is_upper name \<longleftrightarrow> (case runes name of [] \<Rightarrow> is_upper rune_error | r # _ \<Rightarrow> is_upper r)"

text \<open>The nearest directory with a \<^verbatim>\<open>go.mod\<close>, on the path's elements, innermost first.\<close>

fun find_root :: "(string list \<Rightarrow> bool) \<Rightarrow> string list \<Rightarrow> string list option" where
  "find_root has_gomod [] = (if has_gomod [] then Some [] else None)"
| "find_root has_gomod (d # ds) = (if has_gomod (d # ds) then Some (d # ds) else find_root has_gomod ds)"

section \<open>Cutting\<close>

text \<open>\<^verbatim>\<open>strings.Cut\<close> and \<^verbatim>\<open>strings.CutLast\<close>; \<^term>\<open>None\<close> when the separator does not occur.\<close>

fun str_cut :: "string \<Rightarrow> string \<Rightarrow> (string \<times> string) option" where
  "str_cut sep [] = (if sep = [] then Some ([], []) else None)"
| "str_cut sep (c # s) =
    (if has_prefix (c # s) sep then Some ([], drop (length sep) (c # s))
     else map_option (\<lambda>(a, b). (c # a, b)) (str_cut sep s))"

fun str_cut_last :: "string \<Rightarrow> string \<Rightarrow> (string \<times> string) option" where
  "str_cut_last sep [] = (if sep = [] then Some ([], []) else None)"
| "str_cut_last sep (c # s) =
    (case str_cut_last sep s of
       Some (a, b) \<Rightarrow> Some (c # a, b)
     | None \<Rightarrow> if has_prefix (c # s) sep then Some ([], drop (length sep) (c # s)) else None)"

definition cut_prefix :: "string \<Rightarrow> string \<Rightarrow> string option" where
  "cut_prefix s p = (if has_prefix s p then Some (drop (length p) s) else None)"

definition has_suffix :: "string \<Rightarrow> string \<Rightarrow> bool" where
  "has_suffix s p = has_prefix (rev s) (rev p)"

definition str_contains :: "string \<Rightarrow> string \<Rightarrow> bool" where
  "str_contains s p \<longleftrightarrow> str_cut p s \<noteq> None"

text \<open>\<^verbatim>\<open>strings.Split\<close> on one byte.\<close>

fun split_char :: "char \<Rightarrow> string \<Rightarrow> string list" where
  "split_char c [] = [[]]"
| "split_char c (x # xs) = (if x = c then [] # split_char c xs else (x # hd (split_char c xs)) # tl (split_char c xs))"

lemma str_cut_Some: "str_cut sep s = Some (a, b) \<Longrightarrow> s = a @ sep @ b"
  by (induction sep s arbitrary: a b rule: str_cut.induct) (auto simp: has_prefix_iff split: if_splits)

lemma str_cut_last_Some: "str_cut_last sep s = Some (a, b) \<Longrightarrow> s = a @ sep @ b"
  by (induction sep s arbitrary: a b rule: str_cut_last.induct)
    (auto simp: has_prefix_iff split: if_splits option.splits)

lemma str_cut_None: "str_cut sep s = None \<longleftrightarrow> (\<nexists>a b. s = a @ sep @ b)"
proof (induction sep s rule: str_cut.induct)
  case (2 sep c s)
  show ?case
  proof (cases "has_prefix (c # s) sep")
    case True
    then obtain t where "c # s = [] @ sep @ t" by (auto simp: has_prefix_iff)
    then have "\<exists>a b. c # s = a @ sep @ b" by blast
    with True show ?thesis by simp
  next
    case False
    then have "(\<exists>a b. c # s = a @ sep @ b) \<longleftrightarrow> (\<exists>a b. s = a @ sep @ b)"
      by (auto simp: has_prefix_iff Cons_eq_append_conv)
    with False 2 show ?thesis by simp
  qed
qed simp

lemma str_cut_last_None: "str_cut_last sep s = None \<longleftrightarrow> str_cut sep s = None"
  by (induction sep s rule: str_cut_last.induct) (auto split: option.splits)

lemma str_contains_iff: "str_contains s p \<longleftrightarrow> (\<exists>a b. s = a @ p @ b)"
  using str_cut_None [of p s] by (auto simp: str_contains_def)

lemma has_suffix_iff: "has_suffix s p \<longleftrightarrow> (\<exists>t. s = t @ p)"
  by (auto simp: has_suffix_def has_prefix_iff) (metis rev_append rev_rev_ident)

lemma nl_cr_code: "nl = CHR 0x0A" "cr = CHR 0x0D"
  by code_simp+

lemma str_cut_char:
  "str_cut_last [c] s = Some (a, b) \<longleftrightarrow> s = a @ c # b \<and> c \<notin> set b"
proof (induction s arbitrary: a)
  case (Cons x s)
  have none: "str_cut_last [c] s = None \<longleftrightarrow> c \<notin> set s"
    unfolding str_cut_last_None str_cut_None by (simp add: in_set_conv_decomp)
  show ?case
  proof (cases "str_cut_last [c] s")
    case None
    then have "c \<notin> set s" using none by simp
    then show ?thesis using None by (cases a) (auto simp: has_prefix_def)
  next
    case (Some p)
    then have "c \<in> set s" using none by simp
    moreover obtain a' b' where "p = (a', b')" by (cases p)
    ultimately show ?thesis using Some Cons.IH by (cases a) auto
  qed
qed simp

lemma str_cut_char_first:
  "str_cut [c] s = Some (a, b) \<longleftrightarrow> s = a @ c # b \<and> c \<notin> set a"
proof (induction s arbitrary: a)
  case (Cons x s)
  then show ?case by (cases a) (auto simp: has_prefix_def)
qed simp

section \<open>Printed lines\<close>

definition print_lines :: "string list \<Rightarrow> string" where
  "print_lines ls = concat (map (\<lambda>l. l @ [nl]) ls)"

lemma split_lines_nonempty: "split_lines s \<noteq> []"
  by (induction s rule: split_lines.induct) (auto split: list.splits)

lemma split_lines_line: "nl \<notin> set l \<Longrightarrow> split_lines (l @ nl # s) = l # split_lines s"
  by (induction l) auto

lemma raw_lines_print: "\<forall>l \<in> set ls. nl \<notin> set l \<Longrightarrow> raw_lines (print_lines ls) = ls"
proof -
  assume "\<forall>l \<in> set ls. nl \<notin> set l"
  then have "split_lines (print_lines ls) = ls @ [[]]"
    by (induction ls) (auto simp: print_lines_def split_lines_line)
  then show ?thesis by (simp add: raw_lines_def)
qed

lemma scan_lines_print:
  assumes "\<forall>l \<in> set ls. nl \<notin> set l \<and> length l < n \<and> (l \<noteq> [] \<longrightarrow> last l \<noteq> cr)"
  shows "scan_lines n (print_lines ls) = (ls, False)"
proof -
  have lines: "raw_lines (print_lines ls) = ls" using assms by (intro raw_lines_print) auto
  have fit: "takeWhile (\<lambda>l. length l < n) ls = ls" using assms by (subst takeWhile_eq_all_conv) blast
  have same: "map drop_cr ls = ls" using assms by (intro map_idI) (auto simp: drop_cr_def)
  have "\<not> list_ex (\<lambda>l. n \<le> length l) ls" using assms by (auto simp: list_ex_iff)
  then show ?thesis unfolding scan_lines_def lines fit same by simp
qed

text \<open>A text without space at its ends is what trimming leaves of it with ASCII text before it.\<close>

lemma dropWhile_self: "dropWhile P xs = xs \<longleftrightarrow> xs = [] \<or> \<not> P (hd xs)"
proof (cases xs)
  case (Cons x ys)
  have "length (dropWhile P ys) < length xs" using Cons length_dropWhile_le [of P ys] by simp
  then show ?thesis using Cons by auto
qed simp

lemma trim_chunks_length: "length (concat (map snd (trim_chunks P cs))) \<le> length (concat (map snd cs))"
proof -
  have drop: "length (concat (map snd (dropWhile P xs))) \<le> length (concat (map snd xs))" for P and xs :: "(nat \<times> string) list"
    by (induction xs) auto
  have rev: "length (concat (map snd (rev xs))) = length (concat (map snd xs))" for xs :: "(nat \<times> string) list"
    by (simp add: length_concat sum_list_rev flip: rev_map)
  show ?thesis
    unfolding trim_chunks_def rev using drop [of "P \<circ> fst" "rev (dropWhile (P \<circ> fst) cs)"] drop [of "P \<circ> fst" cs]
    unfolding rev by simp
qed

lemma trimmed_ends:
  assumes "trim_space s = s" and "s \<noteq> []"
  shows "\<not> is_space (fst (hd (rune_chunks s)))" and "\<not> is_space (fst (last (rune_chunks s)))"
proof -
  let ?cs = "rune_chunks s"
  have ne: "bs \<noteq> []" if "(r, bs) \<in> set ?cs" for r bs using rune_chunks_nonempty that by blast
  have cs: "?cs \<noteq> []" using assms(2) by simp
  have len: "length (concat (map snd (trim_chunks is_space ?cs))) = length (concat (map snd ?cs))"
    using assms(1) unfolding trim_space_def by (metis concat_rune_chunks)
  have pos: "0 < length (snd (hd ?cs))" "0 < length (snd (last ?cs))"
    using cs ne [of "fst (hd ?cs)" "snd (hd ?cs)"] ne [of "fst (last ?cs)" "snd (last ?cs)"] by auto
  show "\<not> is_space (fst (hd ?cs))"
  proof
    assume sp: "is_space (fst (hd ?cs))"
    obtain c cs' where c: "?cs = c # cs'" using cs by (cases ?cs) auto
    have "trim_chunks is_space ?cs = trim_chunks is_space cs'" using sp c by (simp add: trim_chunks_def)
    then have "length (concat (map snd ?cs)) \<le> length (concat (map snd cs'))"
      using len trim_chunks_length [of is_space cs'] by simp
    then show False using pos c by simp
  qed
  then have keep: "dropWhile (is_space \<circ> fst) ?cs = ?cs" by (simp add: dropWhile_self)
  show "\<not> is_space (fst (last ?cs))"
  proof
    assume sp: "is_space (fst (last ?cs))"
    have split: "?cs = butlast ?cs @ [last ?cs]" using cs by simp
    have "trim_chunks is_space ?cs = rev (dropWhile (is_space \<circ> fst) (rev (butlast ?cs)))"
      unfolding trim_chunks_def keep using sp by (subst split) simp
    moreover have "length (concat (map snd (rev (dropWhile (is_space \<circ> fst) (rev xs))))) \<le> length (concat (map snd xs))"
      for xs :: "(nat \<times> string) list"
    proof (induction xs rule: rev_induct)
      case (snoc x xs)
      then show ?case by auto
    qed simp
    ultimately have "length (concat (map snd ?cs)) \<le> length (concat (map snd (butlast ?cs)))" using len by metis
    also have "\<dots> < length (concat (map snd ?cs))" using pos by (subst (2) split) simp
    finally show False by simp
  qed
qed

lemma trim_space_ascii_prefix:
  assumes "trim_space s = s" and "s \<noteq> []" and "\<forall>c \<in> set a. byte c < 0x80"
  shows "trim_space (a @ s) = dropWhile (\<lambda>c. is_space (byte c)) a @ s"
proof -
  let ?cs = "rune_chunks s"
  have chunks: "rune_chunks (a @ s) = map (\<lambda>c. (byte c, [c])) a @ ?cs"
    using assms(3) by (induction a) (auto simp: rune_chunks_ascii)
  have cs: "?cs \<noteq> []" using assms(2) by simp
  note ends = trimmed_ends [OF assms(1,2)]
  have front: "dropWhile (is_space \<circ> fst) (map (\<lambda>c. (byte c, [c])) a @ ?cs) =
      map (\<lambda>c. (byte c, [c])) (dropWhile (\<lambda>c. is_space (byte c)) a) @ ?cs"
    using ends(1) cs by (induction a) (auto simp: dropWhile_self)
  have rear: "dropWhile (is_space \<circ> fst) (rev (xs @ ?cs)) = rev (xs @ ?cs)" for xs
    using ends(2) cs by (simp add: dropWhile_self hd_rev)
  show ?thesis
    unfolding trim_space_def trim_chunks_def chunks front rear by (simp add: comp_def concat_map_singleton)
qed

text \<open>An ASCII byte is a chunk of its own.\<close>

lemma decode_rune_ascii_byte:
  assumes "decode_rune (c # s) = (r, w)" and "x \<in> set (take w (c # s))" and "byte x < 0x80"
  shows "r = byte x"
proof (cases "byte c < 0x80")
  case True
  with assms show ?thesis by (auto simp: decode_rune_ascii)
next
  case False
  have high: "y \<noteq> x" if "0x80 \<le> byte y" for y
    using that assms(3) by auto
  have second: "0x80 \<le> b1" if "utf8_second b0 b1" for b0 b1
    using that by (auto simp: utf8_second_def utf8_lo_def split: if_splits)
  have cont: "0x80 \<le> b1" if "utf8_cont b1" for b1
    using that by (simp add: utf8_cont_def)
  note lows = high [OF second] high [OF cont]
  have c: "c \<noteq> x" "utf8_size (byte c) \<noteq> Suc 0"
    using False high [of c] by (auto simp: utf8_size_def)
  have "x \<notin> set (take (snd (decode_rune (c # s))) (c # s))"
    using c by (auto simp: decode_rune_def Let_def split: list.splits if_splits dest: lows)
  with assms show ?thesis by simp
qed

lemma rune_chunks_ascii_byte:
  "(r, bs) \<in> set (rune_chunks s) \<Longrightarrow> x \<in> set bs \<Longrightarrow> byte x < 0x80 \<Longrightarrow> r = byte x"
proof (induction s rule: rune_chunks.induct)
  case (1 s)
  obtain c cs where s: "s = c # cs" using 1 by (cases s) auto
  obtain r' w where d: "decode_rune s = (r', w)" by fastforce
  show ?case
  proof (cases "(r, bs) = (r', take w s)")
    case True
    then show ?thesis using decode_rune_ascii_byte d "1.prems" s by simp
  next
    case False
    then have "(r, bs) \<in> set (rune_chunks (drop w s))"
      using "1.prems"(1) s d unfolding rune_chunks.simps [of s] by auto
    then show ?thesis using "1.IH" d s "1.prems" by fastforce
  qed
qed

section \<open>Formatting and machine integers\<close>

text \<open>\<^verbatim>\<open>%-*s\<close> pads to a number of runes, \<^verbatim>\<open>int64\<close> arithmetic wraps around.\<close>

definition pad_right :: "nat \<Rightarrow> string \<Rightarrow> string" where
  "pad_right w s = s @ replicate (w - length (runes s)) (CHR '' '')"

definition i64 :: "int \<Rightarrow> int" where
  "i64 x = (x + 2 ^ 63) mod 2 ^ 64 - 2 ^ 63"

lemma i64_id: "- (2 ^ 63) \<le> x \<Longrightarrow> x < 2 ^ 63 \<Longrightarrow> i64 x = x"
  by (simp add: i64_def)

lemma i64_range: "- (2 ^ 63) \<le> i64 x" "i64 x < 2 ^ 63"
  using pos_mod_bound [of "2 ^ 64" "x + 2 ^ 63"] by (simp_all add: i64_def)

lemma i64_add_left: "i64 (i64 a + b) = i64 (a + b)"
proof -
  have "i64 a + b + 2 ^ 63 = (a + 2 ^ 63) mod 2 ^ 64 + b" by (simp add: i64_def)
  then have "(i64 a + b + 2 ^ 63) mod 2 ^ 64 = ((a + 2 ^ 63) mod 2 ^ 64 + b) mod 2 ^ 64" by (rule arg_cong)
  also have "\<dots> = (a + 2 ^ 63 + b) mod 2 ^ 64" by (rule mod_add_left_eq)
  finally show ?thesis unfolding i64_def [of "i64 a + b"] i64_def [of "a + b"] by (simp add: ac_simps)
qed

end
