(* ===== verification/Llms_Txt.thy ===== *)
theory Llms_Txt
  imports Schema_Tree Go_Text
begin

text \<open>
  \<^verbatim>\<open>src/llmstxt.go\<close>: the static discovery document. The curated opening comes from
  an option or a file, link sections from the author, and the command reference
  from the reflected tree of \<^verbatim>\<open>Schema_Tree\<close>. The file, the writer and the
  cancellation of the context are arguments: \<^term>\<open>ctx_err\<close> gives the answer of the
  n-th look at the context. The lemmas give the contract of the generator and the
  structure of the document.
\<close>

section \<open>Text\<close>

definition oneLine :: "string \<Rightarrow> string" where
  "oneLine s = str_join '' '' (str_fields s)"

fun literalLine :: "string \<Rightarrow> string" where
  "literalLine [] = []"
| "literalLine (c # s) =
    (if c = cr then
       (case s of
          d # t \<Rightarrow> CHR '' '' # (if d = nl then literalLine t else literalLine s)
        | [] \<Rightarrow> '' '')
     else if c = nl then CHR '' '' # literalLine s
     else c # literalLine s)"

definition commandToken :: "string \<Rightarrow> string" where
  "commandToken use = takeWhile (\<lambda>c. c \<noteq> CHR '' '' \<and> c \<noteq> char_of (9 :: nat)) (trim_space use)"

section \<open>Options\<close>

record Link =
  lk_Title :: string
  lk_URL :: string
  lk_Notes :: string

record LinkSection =
  ls_Heading :: string
  ls_Links :: "Link list"

record llmsConfig =
  lc_preamble :: string
  lc_file :: string
  lc_useFile :: bool
  lc_links :: "LinkSection list"

definition WithPreamble :: "string \<Rightarrow> llmsConfig \<Rightarrow> llmsConfig" where
  "WithPreamble s cfg = cfg\<lparr>lc_preamble := s, lc_file := [], lc_useFile := False\<rparr>"

definition WithPreambleFile :: "string \<Rightarrow> llmsConfig \<Rightarrow> llmsConfig" where
  "WithPreambleFile path cfg = cfg\<lparr>lc_file := path, lc_preamble := [], lc_useFile := True\<rparr>"

definition WithLinks :: "LinkSection list \<Rightarrow> llmsConfig \<Rightarrow> llmsConfig" where
  "WithLinks sections cfg = cfg\<lparr>lc_links := sections\<rparr>"

section \<open>Validation\<close>

definition llmsValidation :: "gctx \<Rightarrow> string \<Rightarrow> error_option list \<Rightarrow> go_error" where
  "llmsValidation ctx message opts =
    as_error (NewError (Some ctx) ErrorCodeValidationError message (WithErrorExitCode ExitValidation # opts))"

definition is_title :: "string \<Rightarrow> bool" where
  "is_title line \<longleftrightarrow> has_prefix line ''# '' \<and> trim_space (drop 2 line) \<noteq> []"

definition is_summary :: "string \<Rightarrow> bool" where
  "is_summary line \<longleftrightarrow> has_prefix line ''> '' \<and> trim_space (drop 2 line) \<noteq> []"

fun opening_lines :: "bool \<Rightarrow> string list \<Rightarrow> bool" where
  "opening_lines sawTitle [] = False"
| "opening_lines sawTitle (l # ls) =
    (let line = trim_right cr l in
     if trim_space line = [] then opening_lines sawTitle ls
     else if \<not> sawTitle then (if is_title line then opening_lines True ls else False)
     else if is_summary line then True
     else opening_lines sawTitle ls)"

definition validOpening :: "string \<Rightarrow> bool" where
  "validOpening s = opening_lines False (split_lines s)"

definition link_ok :: "Link \<Rightarrow> bool" where
  "link_ok link \<longleftrightarrow> trim_space (lk_Title link) \<noteq> [] \<and> trim_space (lk_URL link) \<noteq> []"

fun validLinks :: "gctx \<Rightarrow> LinkSection list \<Rightarrow> go_error option" where
  "validLinks ctx [] = None"
| "validLinks ctx (sec # secs) =
    (if trim_space (ls_Heading sec) = [] \<or> ls_Links sec = []
     then Some (llmsValidation ctx ''a link section needs a heading and at least one link'' [])
     else if \<not> list_all link_ok (ls_Links sec) then Some (llmsValidation ctx ''a link needs a title and a URL'' [])
     else validLinks ctx secs)"

text \<open>The opening's file: the error of opening or of reading it, or its bytes.\<close>

datatype file_result = OpenFails go_error | ReadFails go_error | Bytes string

definition maxOpeningBytes :: nat where "maxOpeningBytes = 1048576"

definition readPreamble :: "gctx \<Rightarrow> go_error option \<Rightarrow> (string \<Rightarrow> file_result) \<Rightarrow> string \<Rightarrow> go_error + string" where
  "readPreamble ctx ctx_err files path =
    (case ctx_err of
       Some e \<Rightarrow> Inl e
     | None \<Rightarrow>
         if path = [] then Inl (llmsValidation ctx ''curated opening file is required'' [])
         else
           (case files path of
              OpenFails e \<Rightarrow> Inl (llmsValidation ctx ''curated opening file is not readable'' [WithErrorCause (Some e)])
            | ReadFails e \<Rightarrow> Inl (llmsValidation ctx ''curated opening file is not readable'' [WithErrorCause (Some e)])
            | Bytes s \<Rightarrow>
                let buf = take (maxOpeningBytes + 1) s in
                if length buf > maxOpeningBytes then Inl (llmsValidation ctx ''curated opening file exceeds 1 MiB'' [])
                else Inr buf))"

definition opening_text :: "gctx \<Rightarrow> (nat \<Rightarrow> go_error option) \<Rightarrow> (string \<Rightarrow> file_result) \<Rightarrow> llmsConfig \<Rightarrow> go_error + string" where
  "opening_text ctx ctx_err files cfg =
    (case (if lc_useFile cfg then readPreamble ctx (ctx_err 1) files (lc_file cfg) else Inr (lc_preamble cfg)) of
       Inl e \<Rightarrow> Inl e
     | Inr preamble \<Rightarrow>
         (case ctx_err 2 of
            Some e \<Rightarrow> Inl e
          | None \<Rightarrow>
              if trim_space preamble = [] then Inl (llmsValidation ctx ''curated opening is required'' [])
              else if \<not> validOpening preamble
              then Inl (llmsValidation ctx ''curated opening must start with a title and contain a summary quote'' [])
              else Inr preamble))"

section \<open>Rendering\<close>

definition tick :: char where "tick = char_of (96 :: nat)"

definition ticked :: "string \<Rightarrow> string" where
  "ticked s = [tick] @ s @ [tick]"

definition writeFlag :: "Flag \<Rightarrow> string" where
  "writeFlag f =
    ''- '' @ ticked (''--'' @ fl_Name f) @
    (if fl_Shorthand f \<noteq> [] then '', '' @ ticked (''-'' @ fl_Shorthand f) else []) @
    '' ('' @ fl_Type f @ (if fl_Required f then '', required'' else []) @ '')'' @
    (let usage = oneLine (fl_Usage f) in if usage \<noteq> [] then '': '' @ usage else []) @
    (if fl_Default f \<noteq> [] then ''. Default: '' @ ticked (literalLine (fl_Default f)) else []) @
    (case fl_Enum f of
       None \<Rightarrow> []
     | Some vs \<Rightarrow> if vs = [] then [] else ''. Values: '' @ str_join '', '' (map (\<lambda>v. ticked (literalLine v)) vs)) @
    (let ex = literalLine (fl_Example f) in if ex \<noteq> [] then ''. Example: '' @ ticked ex else []) @
    ''.'' @ [nl]"

definition write_examples :: "string \<Rightarrow> string" where
  "write_examples ex =
    (let body = trim_right nl ex in
     if body = [] then []
     else [nl] @ ''Examples:'' @ [nl, nl] @ concat (map (\<lambda>l. ''    '' @ trim_right cr l @ [nl]) (split_lines body)))"

text \<open>The part of \<^verbatim>\<open>writeCommands\<close> for one command, given its path and its flags in order.\<close>

definition command_section :: "string \<Rightarrow> string \<Rightarrow> string \<Rightarrow> string \<Rightarrow> Flag list \<Rightarrow> string" where
  "command_section path short long ex flags =
    [nl] @ ''### '' @ path @ [nl] @
    (if oneLine short \<noteq> [] then [nl] @ oneLine short @ [nl] else []) @
    (if oneLine long \<noteq> [] \<and> oneLine long \<noteq> oneLine short then [nl] @ oneLine long @ [nl] else []) @
    write_examples ex @ (if flags \<noteq> [] then [nl] else []) @ concat (map writeFlag flags)"

lemma child_size: "c \<in> set (sc_Commands cmd) \<Longrightarrow> size c < size cmd"
proof (cases cmd)
  case (SCommand u s l e fs cs an)
  assume "c \<in> set (sc_Commands cmd)"
  then have "size c \<le> size_list size cs"
    using SCommand by (intro size_list_estimation' [of c]) simp_all
  then show ?thesis using SCommand by simp
qed

function writeCommands :: "scommand \<Rightarrow> string \<Rightarrow> string" where
  "writeCommands cmd parent =
    (let name = commandToken (sc_Use cmd) in
     if name = ''__schema'' \<or> name = ''mcp-server'' then []
     else
       (let path = (if parent \<noteq> [] then parent @ '' '' @ name else name) in
        command_section path (sc_Short cmd) (sc_Long cmd) (sc_Example cmd) (sort_key fl_Name (sc_Flags cmd)) @
        concat (map (\<lambda>child. writeCommands child path) (sort_key (\<lambda>c. commandToken (sc_Use c)) (sc_Commands cmd)))))"
  by pat_completeness auto

termination
  by (relation "measure (\<lambda>(cmd, parent). size cmd)") (auto dest: child_size)

declare writeCommands.simps [simp del]

definition write_link :: "Link \<Rightarrow> string" where
  "write_link link =
    ''- ['' @ oneLine (lk_Title link) @ ''](''  @ oneLine (lk_URL link) @ '')'' @
    (let notes = oneLine (lk_Notes link) in if notes \<noteq> [] then '': '' @ notes else []) @ [nl]"

definition write_section :: "LinkSection \<Rightarrow> string" where
  "write_section sec = [nl] @ ''## '' @ oneLine (ls_Heading sec) @ [nl, nl] @ concat (map write_link (ls_Links sec))"

definition renderDocument :: "string \<Rightarrow> LinkSection list \<Rightarrow> scommand \<Rightarrow> string" where
  "renderDocument preamble sections root =
    trim_right nl preamble @ [nl] @ concat (map write_section sections) @
    [nl] @ ''## Commands'' @ [nl, nl] @ ''Generated from the live command tree.'' @ [nl] @ writeCommands root []"

text \<open>
  \<^verbatim>\<open>GenerateLLMsTxt\<close>: the error and the text given to the writer, if any. A nil
  context, writer or root is \<^term>\<open>None\<close>; \<^term>\<open>sink\<close> is the error of the write.
\<close>

definition GenerateLLMsTxt ::
  "(nat \<Rightarrow> go_error option) \<Rightarrow> (string \<Rightarrow> file_result) \<Rightarrow> 'f parsers \<Rightarrow> (nat \<Rightarrow> 's uflag) \<Rightarrow> gctx option \<Rightarrow>
   (string \<Rightarrow> go_error option) option \<Rightarrow> ctree option \<Rightarrow> (llmsConfig \<Rightarrow> llmsConfig) list \<Rightarrow> go_error option \<times> string option" where
  "GenerateLLMsTxt ctx_err files env st ctx0 w root opts =
    (case ctx0 of
       None \<Rightarrow> (Some (llmsValidation Background ''context is required'' []), None)
     | Some ctx \<Rightarrow>
         (case ctx_err 0 of
            Some e \<Rightarrow> (Some e, None)
          | None \<Rightarrow>
              (case w of
                 None \<Rightarrow> (Some (llmsValidation ctx ''discovery document destination is required'' []), None)
               | Some sink \<Rightarrow>
                   (case root of
                      None \<Rightarrow> (Some (llmsValidation ctx ''command tree is required'' []), None)
                    | Some cmd \<Rightarrow>
                        let cfg = apply_opts opts \<lparr>lc_preamble = [], lc_file = [], lc_useFile = False, lc_links = []\<rparr> in
                        (case opening_text ctx ctx_err files cfg of
                           Inl e \<Rightarrow> (Some e, None)
                         | Inr preamble \<Rightarrow>
                             (case validLinks ctx (lc_links cfg) of
                                Some e \<Rightarrow> (Some e, None)
                              | None \<Rightarrow>
                                  let doc = renderDocument preamble (lc_links cfg) (BuildCommand env st cmd) in
                                  (case ctx_err 3 of
                                     Some e \<Rightarrow> (Some e, None)
                                   | None \<Rightarrow> (sink doc, Some doc))))))))"

lemma nl_code: "nl = CHR 0x0A" "cr = CHR 0x0D" "tick = CHR 0x60"
  by (rule nl_cr_code, rule nl_cr_code, code_simp)

section \<open>The contract of the generator\<close>

text \<open>
  What the options ask for: the curated opening, if there is one that can be used,
  and link sections with nothing missing.
\<close>

definition curated :: "(string \<Rightarrow> file_result) \<Rightarrow> llmsConfig \<Rightarrow> string option" where
  "curated files cfg =
    (let text = (if lc_useFile cfg
                 then (if lc_file cfg = [] then None
                       else (case files (lc_file cfg) of
                               Bytes s \<Rightarrow> if length s \<le> maxOpeningBytes then Some s else None
                             | _ \<Rightarrow> None))
                 else Some (lc_preamble cfg)) in
     (case text of
        None \<Rightarrow> None
      | Some s \<Rightarrow> if trim_space s \<noteq> [] \<and> validOpening s then Some s else None))"

definition complete_links :: "LinkSection list \<Rightarrow> bool" where
  "complete_links = list_all (\<lambda>sec. trim_space (ls_Heading sec) \<noteq> [] \<and> ls_Links sec \<noteq> [] \<and> list_all link_ok (ls_Links sec))"

lemma llms_validation_exit:
  "ErrorExitCode (Some (llmsValidation ctx m [])) = ExitValidation"
  "ErrorExitCode (Some (llmsValidation ctx m [WithErrorCause c])) = ExitValidation"
  by (simp_all add: llmsValidation_def as_error_def NewError_def option_defs ExitCode_def exit_defs)

lemma validLinks_cases:
  "if complete_links secs then validLinks ctx secs = None
   else (\<exists>m. validLinks ctx secs = Some (llmsValidation ctx m []))"
  by (induction ctx secs rule: validLinks.induct) (auto simp: complete_links_def split: if_splits)

lemma readPreamble_cases:
  "case readPreamble ctx ce files path of
     Inl e \<Rightarrow> ce = Some e \<or> (ce = None \<and> ErrorExitCode (Some e) = ExitValidation \<and>
       \<not> (path \<noteq> [] \<and> (\<exists>s. files path = Bytes s \<and> length s \<le> maxOpeningBytes)))
   | Inr s \<Rightarrow> ce = None \<and> path \<noteq> [] \<and> files path = Bytes s \<and> length s \<le> maxOpeningBytes"
  by (auto simp: readPreamble_def Let_def llms_validation_exit min_def split: option.splits file_result.splits)

lemma opening_text_cases:
  "case opening_text ctx ctx_err files cfg of
     Inl e \<Rightarrow> (\<exists>n \<le> 2. ctx_err n = Some e) \<or> (ErrorExitCode (Some e) = ExitValidation \<and> curated files cfg = None)
   | Inr s \<Rightarrow> curated files cfg = Some s"
proof (cases "lc_useFile cfg")
  case True
  show ?thesis
  proof (cases "readPreamble ctx (ctx_err 1) files (lc_file cfg)")
    case (Inl e)
    then show ?thesis
      using True readPreamble_cases [where ctx = ctx and ce = "ctx_err 1" and files = files and path = "lc_file cfg"]
      by (auto simp: opening_text_def curated_def split: file_result.splits
          intro: exI [of _ "1 :: nat"] exI [of _ "2 :: nat"])
  next
    case (Inr s)
    then show ?thesis
      using True readPreamble_cases [where ctx = ctx and ce = "ctx_err 1" and files = files and path = "lc_file cfg"]
      by (auto simp: opening_text_def curated_def llms_validation_exit split: option.splits)
  qed
next
  case False
  then show ?thesis
    by (auto simp: opening_text_def curated_def llms_validation_exit split: option.splits)
qed


definition small_leaf :: ctree where
  "small_leaf = CTree ''app'' ''app'' ''app'' ''An app.'' [] [] False True False [] [] Map.empty []"


section \<open>Independence of the registration order\<close>

text \<open>Two reflected trees that differ only in the order of flags and of children.\<close>

inductive same_tree :: "scommand \<Rightarrow> scommand \<Rightarrow> bool" where
  node: "mset fs = mset fs' \<Longrightarrow> distinct (map fl_Name fs) \<Longrightarrow>
    list_all2 same_tree cs ds \<Longrightarrow> mset ds = mset cs' \<Longrightarrow>
    distinct (map (\<lambda>c. commandToken (sc_Use c)) cs) \<Longrightarrow>
    same_tree (SCommand u s l e fs cs an) (SCommand u s l e fs' cs' an')"
monos list_all2_mono

lemma list_all2_sort_key:
  assumes "list_all2 P xs ys" and "\<And>x y. P x y \<Longrightarrow> k x = k y"
  shows "list_all2 P (sort_key k xs) (sort_key k ys)"
proof -
  have ins: "list_all2 P (insort_key k x xs) (insort_key k y ys)"
    if "P x y" "list_all2 P xs ys" for x y xs ys
    using that(2) by (induction rule: list_all2_induct) (use that(1) assms(2) in auto)
  show ?thesis
    using assms(1) by (induction rule: list_all2_induct) (auto intro: ins)
qed

lemma same_tree_Use: "same_tree a b \<Longrightarrow> sc_Use a = sc_Use b"
  by (erule same_tree.cases) simp

text \<open>
  The document does not depend on the order in which a program registers its
  commands and flags: as long as siblings have different names, reordering flags
  and children at any depth gives the same bytes.
\<close>

theorem writeCommands_order_independent:
  assumes "same_tree a b"
  shows "renderDocument preamble links a = renderDocument preamble links b"
proof -
  have "writeCommands a parent = writeCommands b parent" for parent
    using assms
  proof (induction arbitrary: parent rule: same_tree.induct)
    case (node fs fs' cs ds cs' u s l e an an')
    let ?k = "\<lambda>c. commandToken (sc_Use c)"
    let ?P = "\<lambda>x y. same_tree x y \<and> (\<forall>p. writeCommands x p = writeCommands y p)"
    have same: "list_all2 ?P cs ds"
      using node.IH by (rule list_all2_mono) auto
    then have tokens: "map ?k cs = map ?k ds"
      by (induction rule: list_all2_induct) (auto dest: same_tree_Use)
    have flags: "sort_key fl_Name fs = sort_key fl_Name fs'"
      using node.hyps by (intro sort_key_mset_eq) auto
    have children: "sort_key ?k ds = sort_key ?k cs'"
      using node.hyps tokens by (intro sort_key_mset_eq) auto
    have "list_all2 ?P (sort_key ?k cs) (sort_key ?k ds)"
      using same by (rule list_all2_sort_key) (auto dest: same_tree_Use)
    then have "map (\<lambda>c. writeCommands c p) (sort_key ?k cs) = map (\<lambda>c. writeCommands c p) (sort_key ?k cs')" for p
      unfolding children by (induction rule: list_all2_induct) auto
    then show ?case
      by (simp add: writeCommands.simps [of "SCommand u s l e fs cs an"]
          writeCommands.simps [of "SCommand u s l e fs' cs' an'"] flags Let_def)
  qed
  then show ?thesis by (simp add: renderDocument_def)
qed

definition demo_command :: "string \<Rightarrow> scommand list \<Rightarrow> scommand" where
  "demo_command use cs = SCommand use [] [] [] [] cs Map.empty"

theorem writeCommands_order_independent_witness:
  "renderDocument ''# T'' [] (demo_command ''app'' [demo_command ''b'' [], demo_command ''a'' []]) =
   renderDocument ''# T'' [] (demo_command ''app'' [demo_command ''a'' [], demo_command ''b'' []])"
proof (rule writeCommands_order_independent)
  have leaf: "same_tree (demo_command u []) (demo_command u [])" for u
    unfolding demo_command_def by (rule same_tree.intros) simp_all
  have tok: "commandToken ''b'' \<noteq> commandToken ''a''"
    by (simp add: commandToken_def trim_space_def trim_chunks_def rune_chunks_ascii byte_def is_space_def char_of_def)
  show "same_tree (demo_command ''app'' [demo_command ''b'' [], demo_command ''a'' []])
      (demo_command ''app'' [demo_command ''a'' [], demo_command ''b'' []])"
    unfolding demo_command_def [of "''app''"]
    by (rule same_tree.intros [where ds = "[demo_command ''b'' [], demo_command ''a'' []]"])
       (use leaf tok in \<open>simp_all add: demo_command_def\<close>)
qed

section \<open>One line per item\<close>

text \<open>A space rune is never part of a field, and a line break is a space rune of its own.\<close>

lemma rune_chunks_nl: "(r, bs) \<in> set (rune_chunks s) \<Longrightarrow> nl \<in> set bs \<Longrightarrow> is_space r"
  using rune_chunks_ascii_byte [of r bs s nl] by (simp add: nl_def byte_def is_space_def)

lemma fields_of_no_nl:
  assumes "\<And>r bs. (r, bs) \<in> set cs \<Longrightarrow> nl \<in> set bs \<Longrightarrow> is_space r" and "nl \<notin> set cur" and "x \<in> set (fields_of cs cur)"
  shows "nl \<notin> set x"
  using assms by (induction cs cur rule: fields_of.induct) (fastforce split: if_splits)+

lemma str_join_set: "set (str_join sep xs) \<subseteq> set sep \<union> (\<Union>x \<in> set xs. set x)"
proof (induction xs)
  case (Cons x xs)
  then show ?case by (cases xs) (auto simp: str_join_Cons)
qed (simp add: str_join_def)

lemma oneLine_no_nl: "nl \<notin> set (oneLine s)"
proof -
  have "nl \<notin> set x" if "x \<in> set (str_fields s)" for x
    using that unfolding str_fields_def by (rule fields_of_no_nl [rotated 2]) (auto intro: rune_chunks_nl)
  then show ?thesis
    using str_join_set [of "'' ''" "str_fields s"] by (auto simp: oneLine_def nl_code)
qed

lemma literalLine_no_nl: "nl \<notin> set (literalLine s)"
proof (induction s rule: literalLine.induct)
  case (2 c s)
  have "CHR '' '' \<noteq> nl" "nl \<noteq> cr" by (simp_all add: nl_code)
  with 2 show ?case by (cases s) (simp_all del: literalLine.simps(2) add: literalLine.simps(2) [of c])
qed simp

text \<open>
  An item of the document is one line: whatever a program puts in a flag's usage,
  default, enum members or example, or in a link's title, URL or notes, the item
  ends with its only line break, so no text can start a heading or an item of its own.
\<close>

theorem items_are_lines:
  "nl \<notin> set (fl_Name f) \<Longrightarrow> nl \<notin> set (fl_Shorthand f) \<Longrightarrow> nl \<notin> set (fl_Type f) \<Longrightarrow>
   (\<exists>line. writeFlag f = line @ [nl] \<and> nl \<notin> set line) \<and> (\<exists>line. write_link link = line @ [nl] \<and> nl \<notin> set line)"
proof
  have vals: "nl \<notin> set (str_join '', '' (map (\<lambda>v. ticked (literalLine v)) vs))" for vs
    using str_join_set [of "'', ''" "map (\<lambda>v. ticked (literalLine v)) vs"] literalLine_no_nl
    by (auto simp: ticked_def nl_code split: if_splits)
  assume "nl \<notin> set (fl_Name f)" "nl \<notin> set (fl_Shorthand f)" "nl \<notin> set (fl_Type f)"
  then have "nl \<notin> set (butlast (writeFlag f))"
    using vals oneLine_no_nl literalLine_no_nl unfolding writeFlag_def Let_def ticked_def
    by (simp add: butlast_append nl_code split: option.split)
  moreover have "writeFlag f = butlast (writeFlag f) @ [nl]"
    by (simp add: writeFlag_def butlast_append)
  ultimately show "\<exists>line. writeFlag f = line @ [nl] \<and> nl \<notin> set line" by blast
  have "nl \<notin> set (butlast (write_link link))"
    using oneLine_no_nl by (simp add: write_link_def Let_def butlast_append nl_code)
  moreover have "write_link link = butlast (write_link link) @ [nl]"
    by (simp add: write_link_def butlast_append)
  ultimately show "\<exists>line. write_link link = line @ [nl] \<and> nl \<notin> set line" by blast
qed

definition demo_flag :: Flag where
  "demo_flag =
    \<lparr>fl_Name = ''f'', fl_Shorthand = [], fl_Type = ''string'', fl_Default = [nl] @ ''## x'', fl_Usage = [], fl_Required = False,
     fl_Enum = None, fl_Example = []\<rparr>"

theorem items_are_lines_witness:
  "writeFlag demo_flag = ''- '' @ ticked ''--f'' @ '' (string). Default: '' @ ticked '' ## x'' @ ''.'' @ [nl] \<and>
   (\<exists>line. writeFlag demo_flag = line @ [nl] \<and> nl \<notin> set line)"
proof
  show "writeFlag demo_flag = ''- '' @ ticked ''--f'' @ '' (string). Default: '' @ ticked '' ## x'' @ ''.'' @ [nl]"
    by (simp add: writeFlag_def demo_flag_def oneLine_def str_fields_def str_join_def nl_code)
  show "\<exists>line. writeFlag demo_flag = line @ [nl] \<and> nl \<notin> set line"
    using items_are_lines [of demo_flag "\<lparr>lk_Title = [], lk_URL = [], lk_Notes = []\<rparr>"]
    by (simp add: demo_flag_def nl_code)
qed

end
