(* ===== verification/Cover_Check.thy ===== *)
theory Cover_Check
  imports Go_Text Complex_Main "HOL-Library.AList"
begin

text \<open>
  The coverage gate \<^verbatim>\<open>src/internal/cmd/covercheck/main.go\<close>: a coverage profile is
  parsed and summed per package, every package and the repository are held
  against floors, and the outcome is printed. Counters are \<^verbatim>\<open>int\<close> values that wrap
  around (\<^const>\<open>i64\<close>). Floors and percentages are exact rationals where the code has
  \<^verbatim>\<open>float64\<close>; the comparison itself is in integers in both. The order of a map
  iteration, the text of a percentage and the progress of the reader are arguments.
\<close>

section \<open>Policy\<close>

definition repoWideFloor :: rat where "repoWideFloor = 78"
definition defaultPackageFloor :: rat where "defaultPackageFloor = 25"
definition floorScale :: int where "floorScale = 1000"
definition floorTenths :: rat where "floorTenths = 10"
definition profileFieldCount :: nat where "profileFieldCount = 3"
definition repoWideScope :: string where "repoWideScope = ''repo-wide''"
definition maxProfileBytes :: nat where "maxProfileBytes = 1048576"

definition exitOK :: int where "exitOK = 0"
definition exitViolation :: int where "exitViolation = 1"
definition exitBadInput :: int where "exitBadInput = 2"

lemmas cover_exit_defs = exitOK_def exitViolation_def exitBadInput_def

record PackageCoverage =
  pc_ImportPath :: string
  pc_Stmts :: int
  pc_Covered :: int

record cover_violation =
  cv_Scope :: string
  cv_Actual :: rat
  cv_Floor :: rat

record cover_result =
  cr_Pass :: bool
  cr_RepoWide :: PackageCoverage
  cr_Packages :: "PackageCoverage list"
  cr_Excluded :: "PackageCoverage list"
  cr_Violations :: "cover_violation list"

record floorConfig =
  fc_repoWide :: rat
  fc_default :: rat
  fc_perPackage :: "(string \<times> rat) list"
  fc_excluded :: "string list"

definition floorFor :: "floorConfig \<Rightarrow> string \<Rightarrow> rat" where
  "floorFor cfg path = (case map_of (fc_perPackage cfg) path of Some f \<Rightarrow> f | None \<Rightarrow> fc_default cfg)"

definition ax_module :: string where "ax_module = ''github.com/rshade/ax-go''"

definition defaultFloorConfig :: floorConfig where
  "defaultFloorConfig =
    \<lparr>fc_repoWide = repoWideFloor, fc_default = defaultPackageFloor,
     fc_perPackage =
       [(ax_module, 85), (ax_module @ ''/examples/integration'', 85), (ax_module @ ''/logging'', 98),
        (ax_module @ ''/internal/logcore'', 193 / 2), (ax_module @ ''/internal/cmd/sizecheck'', 86),
        (ax_module @ ''/examples/logging'', 98), (ax_module @ ''/examples/rootlogging'', 98),
        (ax_module @ ''/internal/cli'', 98), (ax_module @ ''/internal/cmd/benchcheck'', 80),
        (ax_module @ ''/internal/cmd/doccover'', 45), (ax_module @ ''/internal/cmd/surfacecheck'', 80),
        (ax_module @ ''/internal/config'', 65), (ax_module @ ''/internal/mcp'', 969 / 10),
        (ax_module @ ''/internal/schema'', 93), (ax_module @ ''/internal/telemetry'', 60),
        (ax_module @ ''/internal/testutil'', 25), (ax_module @ ''/axtest'', 98)],
     fc_excluded = []\<rparr>"

section \<open>Parsing a profile\<close>

definition num_error_text :: "num_error \<Rightarrow> string" where
  "num_error_text e = (case e of ErrSyntax \<Rightarrow> ''invalid syntax'' | ErrRange \<Rightarrow> ''value out of range'')"

definition atoi_error :: "(nat \<Rightarrow> bool) \<Rightarrow> string \<Rightarrow> num_error \<Rightarrow> string" where
  "atoi_error isprint s e = ''strconv.Atoi: parsing '' @ quote isprint s @ '': '' @ num_error_text e"

definition parseProfileLine :: "(nat \<Rightarrow> bool) \<Rightarrow> string \<Rightarrow> string + string \<times> int \<times> int" where
  "parseProfileLine isprint line =
    (case str_fields line of
       [block, stmts, cnt] \<Rightarrow>
         (case str_cut_last '':'' block of
            None \<Rightarrow> Inl (''malformed coverage block '' @ quote isprint block @ '': missing position separator'')
          | Some (file_name, _) \<Rightarrow>
              (case str_cut_last ''/'' file_name of
                 None \<Rightarrow> Inl (''malformed coverage path '' @ quote isprint file_name @ '': missing package separator'')
               | Some (pkgDir, _) \<Rightarrow>
                   (case Atoi stmts of
                      Inl e \<Rightarrow> Inl (''parsing statement count in '' @ quote isprint line @ '': '' @ atoi_error isprint stmts e)
                    | Inr numStmt \<Rightarrow>
                        if numStmt < 0 then Inl (''negative statement count in '' @ quote isprint line)
                        else
                          (case Atoi cnt of
                             Inl e \<Rightarrow> Inl (''parsing execution count in '' @ quote isprint line @ '': '' @ atoi_error isprint cnt e)
                           | Inr execs \<Rightarrow>
                               if execs < 0 then Inl (''negative execution count in '' @ quote isprint line)
                               else Inr (pkgDir, numStmt, execs)))))
     | _ \<Rightarrow> Inl (''malformed coverage line '' @ quote isprint line @ '': want '' @ itoa (int profileFieldCount) @ '' fields''))"

definition oversize :: string where
  "oversize = ''coverage profile exceeds the '' @ itoa (int maxProfileBytes) @ ''-byte size limit''"

text \<open>A Go map from import paths, as a list with one entry per key.\<close>

type_synonym packages = "(string \<times> PackageCoverage) list"

definition add_block :: "string \<times> int \<times> int \<Rightarrow> packages \<Rightarrow> packages" where
  "add_block b acc =
    (case b of (path, numStmt, execs) \<Rightarrow>
       let pc = (case map_of acc path of Some p \<Rightarrow> p | None \<Rightarrow> \<lparr>pc_ImportPath = [], pc_Stmts = 0, pc_Covered = 0\<rparr>) in
       AList.update path
         \<lparr>pc_ImportPath = path, pc_Stmts = i64 (pc_Stmts pc + numStmt),
          pc_Covered = (if execs > 0 then i64 (pc_Covered pc + numStmt) else pc_Covered pc)\<rparr> acc)"

definition is_data_line :: "string \<Rightarrow> bool" where
  "is_data_line line \<longleftrightarrow> line \<noteq> [] \<and> \<not> has_prefix line ''mode:''"

text \<open>\<^term>\<open>consumed n\<close> says how many bytes the scanner has read when it delivers line \<^term>\<open>n\<close>.\<close>

fun parse_lines :: "(nat \<Rightarrow> bool) \<Rightarrow> (nat \<Rightarrow> nat) \<Rightarrow> nat \<Rightarrow> packages \<Rightarrow> string list \<Rightarrow> string + packages" where
  "parse_lines isprint consumed n acc [] = Inr acc"
| "parse_lines isprint consumed n acc (tok # toks) =
    (let line = trim_space tok in
     if \<not> is_data_line line then parse_lines isprint consumed (Suc n) acc toks
     else
       (case parseProfileLine isprint line of
          Inl err \<Rightarrow> Inl (if consumed n > maxProfileBytes then oversize else err)
        | Inr b \<Rightarrow> parse_lines isprint consumed (Suc n) (add_block b acc) toks))"

text \<open>The reader gives \<^term>\<open>content\<close> and then end of file, or the error \<^term>\<open>read_err\<close>.\<close>

definition parseCoverage :: "(nat \<Rightarrow> bool) \<Rightarrow> (nat \<Rightarrow> nat) \<Rightarrow> string \<Rightarrow> string option \<Rightarrow> string + packages" where
  "parseCoverage isprint ahead content read_err =
    (let bytes = take (maxProfileBytes + 1) content in
     case scan_lines max_token bytes of
       (toks, too_long) \<Rightarrow>
         (case parse_lines isprint (\<lambda>n. min (ahead n) (length bytes)) 0 [] toks of
            Inl err \<Rightarrow> Inl err
          | Inr acc \<Rightarrow>
              if too_long then Inl ''reading coverage profile: bufio.Scanner: token too long''
              else if length bytes > maxProfileBytes then Inl oversize
              else (case read_err of Some e \<Rightarrow> Inl (''reading coverage profile: '' @ e) | None \<Rightarrow> Inr acc)))"

section \<open>Floors\<close>

definition percent :: "int \<Rightarrow> int \<Rightarrow> rat" where
  "percent covered tot = (if tot = 0 then 0 else of_int covered / of_int tot * 100)"

definition Pct :: "PackageCoverage \<Rightarrow> rat" where
  "Pct p = percent (pc_Covered p) (pc_Stmts p)"

definition Delta :: "cover_violation \<Rightarrow> rat" where
  "Delta v = cv_Actual v - cv_Floor v"

text \<open>\<^verbatim>\<open>math.Round\<close>: half away from zero.\<close>

definition round_away :: "rat \<Rightarrow> int" where
  "round_away q = (if 0 \<le> q then \<lfloor>q + 1 / 2\<rfloor> else - \<lfloor>1 / 2 - q\<rfloor>)"

definition meetsFloor :: "int \<Rightarrow> int \<Rightarrow> rat \<Rightarrow> bool" where
  "meetsFloor covered tot floor_pct =
    (if tot = 0 then floor_pct \<le> 0
     else i64 (covered * floorScale) \<ge> i64 (round_away (floor_pct * floorTenths) * tot))"

definition package_violation :: "floorConfig \<Rightarrow> PackageCoverage \<Rightarrow> cover_violation list" where
  "package_violation cfg p =
    (let fl = floorFor cfg (pc_ImportPath p) in
     if meetsFloor (pc_Covered p) (pc_Stmts p) fl then []
     else [\<lparr>cv_Scope = pc_ImportPath p, cv_Actual = Pct p, cv_Floor = fl\<rparr>])"

text \<open>The argument is the packages in the order the map iteration gives them.\<close>

definition checkFloors :: "PackageCoverage list \<Rightarrow> floorConfig \<Rightarrow> cover_result" where
  "checkFloors pkgs cfg =
    (let totalStmts = foldl (\<lambda>t p. i64 (t + pc_Stmts p)) 0 pkgs;
         totalCovered = foldl (\<lambda>t p. i64 (t + pc_Covered p)) 0 pkgs;
         checked = sort_key pc_ImportPath (filter (\<lambda>p. pc_ImportPath p \<notin> set (fc_excluded cfg)) pkgs);
         excl = sort_key pc_ImportPath (filter (\<lambda>p. pc_ImportPath p \<in> set (fc_excluded cfg)) pkgs);
         repo = \<lparr>pc_ImportPath = repoWideScope, pc_Stmts = totalStmts, pc_Covered = totalCovered\<rparr>;
         violations = concat (map (package_violation cfg) checked) @
           (if meetsFloor totalCovered totalStmts (fc_repoWide cfg) then []
            else [\<lparr>cv_Scope = repoWideScope, cv_Actual = Pct repo, cv_Floor = fc_repoWide cfg\<rparr>]) in
     \<lparr>cr_Pass = (violations = []), cr_RepoWide = repo, cr_Packages = checked, cr_Excluded = excl, cr_Violations = violations\<rparr>)"

section \<open>Output\<close>

definition max_width :: "nat \<Rightarrow> nat list \<Rightarrow> nat" where
  "max_width w ns = foldl (\<lambda>w n. if n > w then n else w) w ns"

text \<open>\<^term>\<open>pct_text\<close> is the verb \<^verbatim>\<open>%.1f\<close>.\<close>

definition floor_line :: "(rat \<Rightarrow> string) \<Rightarrow> nat \<Rightarrow> string \<Rightarrow> rat \<Rightarrow> rat \<Rightarrow> string" where
  "floor_line pct_text width scope pct fl =
    ''  '' @ pad_right width (scope @ '':'') @ ''  '' @ pct_text pct @ ''% >= '' @ pct_text fl @ ''% floor'' @ [nl]"

definition cover_formatPass :: "(rat \<Rightarrow> string) \<Rightarrow> cover_result \<Rightarrow> floorConfig \<Rightarrow> string" where
  "cover_formatPass pct_text r cfg =
    (let width = max_width (length repoWideScope + 1)
           (map (\<lambda>p. length (pc_ImportPath p) + 1) (cr_Packages r) @ map (\<lambda>p. length (pc_ImportPath p)) (cr_Excluded r)) in
     ''PASS  coverage floors met'' @ [nl] @
     floor_line pct_text width repoWideScope (Pct (cr_RepoWide r)) (fc_repoWide cfg) @
     concat (map (\<lambda>p. floor_line pct_text width (pc_ImportPath p) (Pct p) (floorFor cfg (pc_ImportPath p))) (cr_Packages r)) @
     (if cr_Excluded r = [] then []
      else ''excluded (per-package floor not enforced):'' @ [nl] @
        concat (map (\<lambda>p. ''  '' @ pad_right width (pc_ImportPath p) @ ''  '' @ pct_text (Pct p) @ ''%'' @ [nl]) (cr_Excluded r))))"

definition cover_formatFail :: "(rat \<Rightarrow> string) \<Rightarrow> cover_result \<Rightarrow> string" where
  "cover_formatFail pct_text r =
    (let width = max_width 0 (map (\<lambda>v. length (cv_Scope v) + 1) (cr_Violations r)) in
     ''FAIL  '' @ itoa (int (length (cr_Violations r))) @ '' coverage floor violation(s):'' @ [nl] @
     concat (map (\<lambda>v. ''  '' @ pad_right width (cv_Scope v @ '':'') @ ''  '' @ pct_text (cv_Actual v) @ ''% < '' @
       pct_text (cv_Floor v) @ ''% floor  ('' @ pct_text (Delta v) @ ''pp)'' @ [nl]) (cr_Violations r)))"

text \<open>
  The command: exit code, standard output and standard error. The file is the error
  of opening it, or its content and the error that follows it, if any.
\<close>

definition run_covercheck ::
  "(nat \<Rightarrow> bool) \<Rightarrow> (rat \<Rightarrow> string) \<Rightarrow> (nat \<Rightarrow> nat) \<Rightarrow> (packages \<Rightarrow> PackageCoverage list) \<Rightarrow> string \<Rightarrow>
   string + string \<times> string option \<Rightarrow> int \<times> string \<times> string" where
  "run_covercheck isprint pct_text ahead order path profile =
    (case profile of
       Inl err \<Rightarrow> (exitBadInput, [], ''covercheck: cannot open coverage file '' @ quote isprint path @ '': '' @ err @ [nl])
     | Inr (content, read_err) \<Rightarrow>
         (case parseCoverage isprint ahead content read_err of
            Inl err \<Rightarrow> (exitBadInput, [], ''covercheck: cannot parse coverage file '' @ quote isprint path @ '': '' @ err @ [nl])
          | Inr pkgs \<Rightarrow>
              let r = checkFloors (order pkgs) defaultFloorConfig in
              if cr_Pass r then (exitOK, cover_formatPass pct_text r defaultFloorConfig, [])
              else (exitViolation, [], cover_formatFail pct_text r)))"

section \<open>Lemmas: parsing\<close>

text \<open>The data lines of a profile and the blocks they hold.\<close>

definition data_lines :: "string \<Rightarrow> string list" where
  "data_lines content = filter is_data_line (map trim_space (fst (scan_lines max_token content)))"

definition is_block :: "(nat \<Rightarrow> bool) \<Rightarrow> string \<Rightarrow> bool" where
  "is_block isprint line = (case parseProfileLine isprint line of Inr _ \<Rightarrow> True | Inl _ \<Rightarrow> False)"

definition block_of :: "(nat \<Rightarrow> bool) \<Rightarrow> string \<Rightarrow> string \<times> int \<times> int" where
  "block_of isprint line = (case parseProfileLine isprint line of Inr b \<Rightarrow> b | Inl _ \<Rightarrow> ([], 0, 0))"

lemma parse_lines_result:
  "case parse_lines isprint consumed n acc toks of
     Inl _ \<Rightarrow> \<not> list_all (is_block isprint) (filter is_data_line (map trim_space toks))
   | Inr acc' \<Rightarrow> list_all (is_block isprint) (filter is_data_line (map trim_space toks)) \<and>
       acc' = foldl (\<lambda>a b. add_block b a) acc (map (block_of isprint) (filter is_data_line (map trim_space toks)))"
proof (induction toks arbitrary: n acc)
  case (Cons tok toks)
  show ?case
  proof (cases "is_data_line (trim_space tok)")
    case True
    then show ?thesis
    proof (cases "parseProfileLine isprint (trim_space tok)")
      case (Inl err)
      with True show ?thesis by (simp add: Let_def is_block_def)
    next
      case (Inr b)
      with True have "is_block isprint (trim_space tok)" "block_of isprint (trim_space tok) = b"
        by (simp_all add: is_block_def block_of_def)
      with True Inr Cons [where n = "Suc n" and acc = "add_block b acc"] show ?thesis by (simp add: Let_def split: sum.splits)
    qed
  next
    case False
    with Cons [where n = "Suc n" and acc = acc] show ?thesis by (simp add: Let_def split: sum.splits)
  qed
qed simp

definition readable :: "string \<Rightarrow> string option \<Rightarrow> bool" where
  "readable content read_err \<longleftrightarrow> length content \<le> maxProfileBytes \<and> read_err = None \<and> \<not> snd (scan_lines max_token content)"

lemma parseCoverage_result:
  "case parseCoverage isprint ahead content read_err of
     Inl _ \<Rightarrow> \<not> (readable content read_err \<and> list_all (is_block isprint) (data_lines content))
   | Inr acc \<Rightarrow> readable content read_err \<and> list_all (is_block isprint) (data_lines content) \<and>
       acc = foldl (\<lambda>a b. add_block b a) [] (map (block_of isprint) (data_lines content))"
proof (cases "length content \<le> maxProfileBytes")
  case True
  then have all: "take (maxProfileBytes + 1) content = content" by simp
  have "case parse_lines isprint (\<lambda>n. min (ahead n) (length content)) 0 [] (fst (scan_lines max_token content)) of
     Inl _ \<Rightarrow> \<not> list_all (is_block isprint) (data_lines content)
   | Inr acc' \<Rightarrow> list_all (is_block isprint) (data_lines content) \<and>
       acc' = foldl (\<lambda>a b. add_block b a) [] (map (block_of isprint) (data_lines content))"
    unfolding data_lines_def by (rule parse_lines_result)
  with True show ?thesis
    unfolding parseCoverage_def Let_def all readable_def
    by (auto simp: case_prod_beta split: sum.splits option.splits)
next
  case False
  then have "length (take (maxProfileBytes + 1) content) > maxProfileBytes" by simp
  with False show ?thesis
    unfolding parseCoverage_def Let_def readable_def by (auto simp: case_prod_beta split: sum.splits option.splits)
qed

lemma parseProfileLine_counts:
  "parseProfileLine isprint line = Inr (path, s, k) \<Longrightarrow> 0 \<le> s \<and> 0 \<le> k"
  by (auto simp: parseProfileLine_def split: list.splits option.splits sum.splits prod.splits if_splits)

lemma block_of_nonneg: "0 \<le> fst (snd (block_of isprint line))"
  using parseProfileLine_counts by (auto simp: block_of_def split: sum.split)

section \<open>Lemmas: sums\<close>

abbreviation b_path :: "string \<times> int \<times> int \<Rightarrow> string" where "b_path \<equiv> fst"
abbreviation b_stmts :: "string \<times> int \<times> int \<Rightarrow> int" where "b_stmts b \<equiv> fst (snd b)"

definition b_covered :: "string \<times> int \<times> int \<Rightarrow> int" where
  "b_covered b = (if snd (snd b) > 0 then b_stmts b else 0)"

definition stmts_in :: "string \<Rightarrow> (string \<times> int \<times> int) list \<Rightarrow> int" where
  "stmts_in path bs = sum_list (map b_stmts (filter (\<lambda>b. b_path b = path) bs))"

definition covered_in :: "string \<Rightarrow> (string \<times> int \<times> int) list \<Rightarrow> int" where
  "covered_in path bs = sum_list (map b_covered (filter (\<lambda>b. b_path b = path) bs))"

definition summed :: "(string \<times> int \<times> int) list \<Rightarrow> string \<Rightarrow> PackageCoverage" where
  "summed bs path = \<lparr>pc_ImportPath = path, pc_Stmts = stmts_in path bs, pc_Covered = covered_in path bs\<rparr>"

definition added :: "(string \<times> int \<times> int) list \<Rightarrow> packages" where
  "added bs = foldl (\<lambda>a b. add_block b a) [] bs"

lemma added_simps [simp]: "added [] = []" "added (bs @ [b]) = add_block b (added bs)"
  by (simp_all add: added_def)

lemma add_block_update: "\<exists>pc. add_block b acc = AList.update (fst b) pc acc"
  by (cases b) (auto simp: add_block_def Let_def)

lemma distinct_added: "distinct (map fst (added bs))"
proof (induction bs rule: rev_induct)
  case (snoc b bs)
  then show ?case using add_block_update [of b "added bs"] by (auto intro: distinct_update)
qed simp

text \<open>Without overflow, the map holds the sums of each package that has a block.\<close>

lemma sum_filter_le:
  fixes f :: "'a \<Rightarrow> int"
  assumes "\<forall>x \<in> set xs. 0 \<le> f x"
  shows "sum_list (map f (filter P xs)) \<le> sum_list (map f xs)" and "0 \<le> sum_list (map f (filter P xs))"
  using assms by (induction xs) auto

lemma b_covered_le: "0 \<le> b_stmts b \<Longrightarrow> 0 \<le> b_covered b \<and> b_covered b \<le> b_stmts b"
  by (simp add: b_covered_def)

lemma covered_stmts_in:
  assumes "\<forall>b \<in> set bs. 0 \<le> b_stmts b"
  shows "0 \<le> covered_in path bs" and "covered_in path bs \<le> stmts_in path bs" and "stmts_in path bs \<le> sum_list (map b_stmts bs)"
proof -
  show "0 \<le> covered_in path bs" "covered_in path bs \<le> stmts_in path bs"
    unfolding covered_in_def stmts_in_def using assms by (induction bs) (auto simp: b_covered_def)
  show "stmts_in path bs \<le> sum_list (map b_stmts bs)"
    unfolding stmts_in_def using assms by (rule sum_filter_le)
qed

lemma stmts_in_snoc:
  "stmts_in path (bs @ [b]) = stmts_in path bs + (if b_path b = path then b_stmts b else 0)"
  "covered_in path (bs @ [b]) = covered_in path bs + (if b_path b = path then b_covered b else 0)"
  by (simp_all add: stmts_in_def covered_in_def)

lemma map_of_added:
  assumes "\<forall>b \<in> set bs. 0 \<le> b_stmts b" and "sum_list (map b_stmts bs) < 2 ^ 63"
  shows "map_of (added bs) path = (if path \<in> b_path ` set bs then Some (summed bs path) else None)"
  using assms
proof (induction bs arbitrary: path rule: rev_induct)
  case (snoc b bs)
  obtain q s k where b: "b = (q, s, k)" by (cases b)
  have nonneg: "\<forall>b \<in> set bs. 0 \<le> b_stmts b" "0 \<le> s" using snoc.prems(1) b by auto
  have bound: "sum_list (map b_stmts bs) + s < 2 ^ 63" using snoc.prems(2) b by simp
  have look: "map_of (added bs) path = (if path \<in> b_path ` set bs then Some (summed bs path) else None)" for path
    using snoc.IH nonneg bound by simp
  note le = covered_stmts_in [OF nonneg(1), of q]
  have ids: "i64 (stmts_in q bs + s) = stmts_in q bs + s" "i64 (covered_in q bs + s) = covered_in q bs + s" "i64 s = s"
    using le nonneg(2) bound by (intro i64_id; linarith)+
  have none: "q \<notin> b_path ` set bs \<Longrightarrow> stmts_in q bs = 0 \<and> covered_in q bs = 0"
    by (auto simp: stmts_in_def covered_in_def filter_empty_conv image_iff)
      (metis (mono_tags, lifting) filter_False fst_conv list.map(1) sum_list.Nil)+
  have "add_block b (added bs) = AList.update q (summed (bs @ [b]) q) (added bs)"
    using ids none by (auto simp: add_block_def b look summed_def stmts_in_snoc b_covered_def Let_def)
  then show ?case
    by (auto simp: update_conv' look summed_def stmts_in_snoc b)
qed simp

lemma sum_update:
  fixes f :: "PackageCoverage \<Rightarrow> int"
  assumes "distinct (map fst al)"
  shows "(\<Sum>a\<leftarrow>AList.update k v al. f (snd a)) =
    (\<Sum>a\<leftarrow>al. f (snd a)) - (case map_of al k of Some w \<Rightarrow> f w | None \<Rightarrow> 0) + f v"
  using assms by (induction al) (auto split: option.splits simp: map_of_eq_None_iff)

text \<open>Summing over the packages is summing over the blocks.\<close>

lemma added_totals:
  assumes "\<forall>b \<in> set bs. 0 \<le> b_stmts b" and "sum_list (map b_stmts bs) < 2 ^ 63"
  shows "sum_list (map (pc_Stmts \<circ> snd) (added bs)) = sum_list (map b_stmts bs) \<and>
    sum_list (map (pc_Covered \<circ> snd) (added bs)) = sum_list (map b_covered bs)"
  using assms
proof (induction bs rule: rev_induct)
  case (snoc b bs)
  have old: "\<forall>b \<in> set bs. 0 \<le> b_stmts b" "sum_list (map b_stmts bs) < 2 ^ 63" using snoc.prems by auto
  have new: "\<forall>b \<in> set (bs @ [b]). 0 \<le> b_stmts b" "sum_list (map b_stmts (bs @ [b])) < 2 ^ 63" using snoc.prems by auto
  obtain pc where upd: "add_block b (added bs) = AList.update (fst b) pc (added bs)" using add_block_update by blast
  have pc: "pc = summed (bs @ [b]) (fst b)"
    using map_of_added [OF new, of "fst b"] upd by (simp add: update_conv')
  have none: "stmts_in (fst b) bs = 0 \<and> covered_in (fst b) bs = 0" if "fst b \<notin> b_path ` set bs"
    using that by (simp add: stmts_in_def covered_in_def) (metis (mono_tags, lifting) filter_False image_eqI list.map(1) sum_list.Nil)
  show ?case
    using snoc.IH [OF old] none by (auto simp: upd pc sum_update distinct_added map_of_added [OF old] summed_def stmts_in_snoc)
qed simp

lemma added_set:
  assumes "\<forall>b \<in> set bs. 0 \<le> b_stmts b" and "sum_list (map b_stmts bs) < 2 ^ 63"
  shows "set (map snd (added bs)) = summed bs ` b_path ` set bs"
proof -
  have "(k, pc) \<in> set (added bs) \<longleftrightarrow> k \<in> b_path ` set bs \<and> pc = summed bs k" for k pc
    using map_of_eq_Some_iff [OF distinct_added, of bs k pc] map_of_added [OF assms, of k]
    by (cases "k \<in> b_path ` set bs") auto
  then show ?thesis by (force simp: image_iff)
qed

lemma fold_i64:
  "foldl (\<lambda>t p. i64 (t + f p)) (i64 x) ps = i64 (x + sum_list (map f ps))"
  by (induction ps arbitrary: x) (simp_all add: i64_add_left ac_simps)

lemma total_eq: "foldl (\<lambda>t p. i64 (t + f p)) 0 ps = i64 (sum_list (map f ps))"
  using fold_i64 [of f 0 ps] by (simp add: i64_id)

section \<open>Lemmas: floors\<close>

text \<open>A floor with one decimal place between 0 and 100 per cent.\<close>

definition tenth_floor :: "rat \<Rightarrow> bool" where
  "tenth_floor f \<longleftrightarrow> (\<exists>k \<ge> 0. k \<le> 1000 \<and> f * 10 = of_int k)"

lemma round_away_int [simp]: "round_away (of_int k) = k"
  by (simp add: round_away_def floor_eq_iff)

lemma meetsFloor_exact:
  assumes "0 \<le> c" and "c \<le> s" and "s < 2 ^ 50" and "tenth_floor f"
  shows "meetsFloor c s f \<longleftrightarrow> percent c s \<ge> f"
proof (cases "s = 0")
  case True
  then show ?thesis by (simp add: meetsFloor_def percent_def)
next
  case False
  obtain k where k: "0 \<le> k" "k \<le> 1000" "f * 10 = of_int k" using assms(4) by (auto simp: tenth_floor_def)
  have "k * s \<le> 1000 * s" using k assms by (intro mult_right_mono) auto
  then have ids: "i64 (c * 1000) = c * 1000" "i64 (k * s) = k * s"
    using assms k by (intro i64_id; auto intro: order_trans [of _ 0])+
  have "percent c s \<ge> f \<longleftrightarrow> of_int (c * 1000) \<ge> (of_int (k * s) :: rat)"
    using False assms k(3) by (simp add: percent_def field_simps flip: k(3))
  then show ?thesis
    using False ids k by (simp add: meetsFloor_def floorScale_def floorTenths_def del: of_int_mult)
qed

lemma tenth_floorI: "f * 10 = of_int k \<Longrightarrow> 0 \<le> k \<Longrightarrow> k \<le> 1000 \<Longrightarrow> tenth_floor f"
  unfolding tenth_floor_def by blast

lemma default_floors: "tenth_floor (floorFor defaultFloorConfig path)" "tenth_floor (fc_repoWide defaultFloorConfig)"
proof -
  have fraction: "tenth_floor (193 / 2)" "tenth_floor (969 / 10)"
    by (rule tenth_floorI [of _ 965], simp_all) (rule tenth_floorI [of _ 969], simp_all)
  have whole: "tenth_floor (of_int n)" if "0 \<le> n" "n \<le> 100" for n
    using that by (intro tenth_floorI [of _ "n * 10"]) auto
  have whole_floors: "tenth_floor 85" "tenth_floor 98" "tenth_floor 86" "tenth_floor 80" "tenth_floor 45" "tenth_floor 65"
    "tenth_floor 93" "tenth_floor 60" "tenth_floor 25" "tenth_floor 78"
    using whole [of 85] whole [of 98] whole [of 86] whole [of 80] whole [of 45] whole [of 65] whole [of 93]
      whole [of 60] whole [of 25] whole [of 78] by simp_all
  have "tenth_floor f" if "f \<in> {85, 98, 193 / 2, 86, 80, 45, 65, 969 / 10, 93, 60, 25, 78}" for f
    using that by (elim insertE emptyE) (simp_all only: fraction whole_floors)
  note known = this
  have "f \<in> {85, 98, 193 / 2, 86, 80, 45, 65, 969 / 10, 93, 60, 25, 78}" if "map_of (fc_perPackage defaultFloorConfig) path = Some f" for f
    using map_of_SomeD [OF that] by (auto simp: defaultFloorConfig_def)
  moreover have default: "fc_default defaultFloorConfig = 25" by (simp add: defaultFloorConfig_def defaultPackageFloor_def)
  ultimately show "tenth_floor (floorFor defaultFloorConfig path)"
    using known [of 25] known unfolding floorFor_def by (simp add: default split: option.split)
  show "tenth_floor (fc_repoWide defaultFloorConfig)"
    using known by (simp add: defaultFloorConfig_def repoWideFloor_def)
qed

section \<open>Properties\<close>

text \<open>A map iteration gives every entry once, in any order.\<close>

definition iterates :: "(packages \<Rightarrow> PackageCoverage list) \<Rightarrow> bool" where
  "iterates order \<longleftrightarrow> (\<forall>m. mset (order m) = mset (map snd m))"

lemma sum_list_perm:
  fixes f :: "'a \<Rightarrow> int"
  shows "mset xs = mset ys \<Longrightarrow> sum_list (map f xs) = sum_list (map f ys)"
  by (metis mset_map sum_mset_sum_list)

lemma checkFloors_Pass:
  "cr_Pass (checkFloors ps cfg) \<longleftrightarrow>
    (\<forall>p \<in> set ps. pc_ImportPath p \<notin> set (fc_excluded cfg) \<longrightarrow> meetsFloor (pc_Covered p) (pc_Stmts p) (floorFor cfg (pc_ImportPath p))) \<and>
    meetsFloor (i64 (sum_list (map pc_Covered ps))) (i64 (sum_list (map pc_Stmts ps))) (fc_repoWide cfg)"
  unfolding checkFloors_def Let_def total_eq by (auto simp: package_violation_def Let_def)


definition demo_profile :: "string \<Rightarrow> string" where
  "demo_profile counts = ''mode: set'' @ [nl] @ ''m/a.go:1.1,2.2 '' @ counts @ [nl]"

lemmas text_eval = scan_lines_def raw_lines_def drop_cr_def nl_cr_code trim_space_def trim_chunks_def rune_chunks_ascii
  byte_def is_space_def str_fields_def has_prefix_def

lemma demo_lines:
  "scan_lines max_token (demo_profile ''4 1'') = ([''mode: set'', ''m/a.go:1.1,2.2 4 1''], False)"
  "scan_lines max_token (demo_profile ''9223372036854775807 0'') = ([''mode: set'', ''m/a.go:1.1,2.2 9223372036854775807 0''], False)"
  by (simp_all add: demo_profile_def text_eval max_token_def)

lemma demo_trim:
  "trim_space ''mode: set'' = ''mode: set''" "trim_space ''m/a.go:1.1,2.2 4 1'' = ''m/a.go:1.1,2.2 4 1''"
  "trim_space ''m/a.go:1.1,2.2 9223372036854775807 0'' = ''m/a.go:1.1,2.2 9223372036854775807 0''"
  by (simp_all add: text_eval)

lemma demo_data:
  "data_lines (demo_profile ''4 1'') = [''m/a.go:1.1,2.2 4 1'']"
  "data_lines (demo_profile ''9223372036854775807 0'') = [''m/a.go:1.1,2.2 9223372036854775807 0'']"
  by (simp_all add: data_lines_def demo_lines demo_trim is_data_line_def has_prefix_def)

lemma demo_block:
  "parseProfileLine isprint ''m/a.go:1.1,2.2 4 1'' = Inr (''m'', 4, 1)"
  "parseProfileLine isprint ''m/a.go:1.1,2.2 9223372036854775807 0'' = Inr (''m'', 9223372036854775807, 0)"
  by (simp_all add: parseProfileLine_def text_eval Atoi_def ParseInt_def ParseUint_def digit_val_def is_digit_def Let_def)

lemma iterates_map: "iterates (map snd)" "iterates (rev \<circ> map snd)"
  by (simp_all add: iterates_def)


text \<open>
  The output does not depend on the order in which Go iterates over the map of
  packages: for any two orders the exit code and every byte written are the same,
  also when counters wrap around.
\<close>

theorem covercheck_order_independent:
  assumes "iterates order_a" and "iterates order_b"
  shows "run_covercheck isprint pct_text ahead order_a path profile = run_covercheck isprint pct_text ahead order_b path profile"
proof -
  have "checkFloors (order_a (added bs)) cfg = checkFloors (order_b (added bs)) cfg" for bs cfg
  proof -
    have keys: "pc_ImportPath pc = k" if "(k, pc) \<in> set (added bs)" for k pc
      using that
    proof (induction bs arbitrary: k pc rule: rev_induct)
      case (snoc b bs)
      obtain v where v: "add_block b (added bs) = AList.update (fst b) v (added bs)" "pc_ImportPath v = fst b"
        by (cases b) (auto simp: add_block_def Let_def)
      have "map_of (AList.update (fst b) v (added bs)) k = Some pc"
        using snoc.prems v(1) distinct_added [of "bs @ [b]"] by simp
      then show ?case
        using snoc.IH [of k pc] map_of_SomeD [of "added bs" k pc] v(2) by (auto simp: update_conv' split: if_splits)
    qed simp
    have paths: "map pc_ImportPath (map snd (added bs)) = map fst (added bs)"
      unfolding map_map using keys by (intro map_cong) auto
    have dist: "distinct (map pc_ImportPath (map snd (added bs)))"
      unfolding paths by (rule distinct_added)
    have perms: "mset (order_a (added bs)) = mset (map snd (added bs))" "mset (order_b (added bs)) = mset (map snd (added bs))"
      using assms by (simp_all add: iterates_def)
    have d1: "distinct (map pc_ImportPath (order_a (added bs)))"
      using dist perms(1) by (metis mset_eq_imp_distinct_iff mset_map)
    have sorts: "sort_key pc_ImportPath (filter P (order_a (added bs))) = sort_key pc_ImportPath (filter P (order_b (added bs)))" for P
      using perms d1 by (intro sort_key_mset_eq) (simp_all add: mset_filter distinct_map_filterI)
    have "sum_list (map f (order_a (added bs))) = sum_list (map f (order_b (added bs)))" for f :: "PackageCoverage \<Rightarrow> int"
      using perms by (intro sum_list_perm) simp
    then show ?thesis unfolding checkFloors_def sorts total_eq by simp
  qed
  note same = this
  show ?thesis
  proof (cases profile)
    case (Inr c)
    then show ?thesis
      using same parseCoverage_result [where isprint = isprint and ahead = ahead and content = "fst c" and read_err = "snd c"]
      by (cases c) (auto simp: run_covercheck_def added_def split: sum.splits)
  qed (simp add: run_covercheck_def)
qed

theorem covercheck_order_independent_witness:
  "\<forall>isprint pct_text ahead path profile.
    run_covercheck isprint pct_text ahead (map snd) path profile = run_covercheck isprint pct_text ahead (rev \<circ> map snd) path profile"
  using covercheck_order_independent [OF iterates_map] by blast

text \<open>
  The int64 comparison can overflow: a profile of one line, with no statement
  executed, passes the gate. Its statement count is accepted by the parser, and the
  product with the scaled floor wraps to a negative number, for the package floor and
  for the floor of the repository.
\<close>

theorem covercheck_overflow_passes:
  "\<exists>content. length content < 64 \<and> list_all (\<lambda>line. \<exists>n. parseProfileLine isprint line = Inr (''m'', n, 0) \<and> n > 0) (data_lines content) \<and>
     data_lines content \<noteq> [] \<and>
     fst (run_covercheck isprint pct_text ahead (map snd) path (Inr (content, None))) = exitOK"
proof -
  let ?c = "demo_profile ''9223372036854775807 0''"
  have blocks: "map (block_of isprint) (data_lines ?c) = [(''m'', 9223372036854775807, 0)]"
    by (simp add: demo_data block_of_def demo_block)
  have readable: "readable ?c None"
    by (simp add: readable_def demo_lines) (simp add: demo_profile_def maxProfileBytes_def)
  have "parseCoverage isprint ahead ?c None = Inr (added [(''m'', 9223372036854775807, 0)])"
    using parseCoverage_result [where isprint = isprint and ahead = ahead and content = ?c and read_err = None] blocks readable
    by (simp add: demo_data is_block_def demo_block added_def split: sum.splits)
  moreover have "added [(''m'', 9223372036854775807, 0)] =
      [(''m'', \<lparr>pc_ImportPath = ''m'', pc_Stmts = 9223372036854775807, pc_Covered = 0\<rparr>)]"
    by (simp add: added_def add_block_def i64_def)
  moreover have "floorFor defaultFloorConfig ''m'' = 25"
    by (simp add: floorFor_def defaultFloorConfig_def ax_module_def defaultPackageFloor_def)
  moreover have "meetsFloor 0 9223372036854775807 25" "meetsFloor 0 9223372036854775807 78"
    using round_away_int [of 250] round_away_int [of 780] by (simp_all add: meetsFloor_def floorTenths_def i64_def floorScale_def)
  ultimately have "fst (run_covercheck isprint pct_text ahead (map snd) path (Inr (?c, None))) = exitOK"
    by (simp add: run_covercheck_def Let_def checkFloors_Pass i64_id) (simp add: defaultFloorConfig_def repoWideFloor_def)
  then show ?thesis
    by (intro exI [of _ ?c]) (simp add: demo_data demo_block, simp add: demo_profile_def)
qed

end
