(* ===== verification/Api_Verdict.thy ===== *)
theory Api_Verdict
  imports Go_Text
begin

text \<open>
  The public-API gate \<^verbatim>\<open>src/internal/cmd/apidiff-verdict/main.go\<close>: the report of
  \<^verbatim>\<open>go-apidiff\<close> is parsed, restricted to the public packages, sorted into breaking
  findings, relocations and compatible findings, and rendered; a second command
  holds the package list of \<^verbatim>\<open>go list\<close> against the same allowlist. Files and the
  outcome of each write are arguments. The lemmas show that a printed report parses
  back, that rendering hides nothing, and what exactly is excused.
\<close>

section \<open>Allowlist and sections\<close>

definition commentMarker :: string where "commentMarker = ''<!-- apidiff-report -->''"
definition commentFile :: string where "commentFile = ''apidiff-comment.md''"
definition scanBufMax :: nat where "scanBufMax = 1048576"
definition goListFieldCount :: nat where "goListFieldCount = 2"

definition rootImportPath :: string where "rootImportPath = ''github.com/rshade/ax-go''"
definition moduleRoot :: string where "moduleRoot = rootImportPath @ ''/''"

definition allowedPackages :: "string list" where
  "allowedPackages =
    [rootImportPath, moduleRoot @ ''axtest'', moduleRoot @ ''config'', moduleRoot @ ''contract'', moduleRoot @ ''id'',
     moduleRoot @ ''logging'', moduleRoot @ ''mcp'', moduleRoot @ ''schema'']"

datatype changeKind = kindNone | kindIncompatible | kindCompatible

record api_section =
  as_pkg :: string
  as_incompatible :: "string list"
  as_compatible :: "string list"

section \<open>Relocations\<close>

definition ascii_in :: "nat \<Rightarrow> nat \<Rightarrow> char \<Rightarrow> bool" where
  "ascii_in lo hi c \<longleftrightarrow> lo \<le> byte c \<and> byte c \<le> hi"

definition ident_rune :: "bool \<Rightarrow> char \<Rightarrow> bool" where
  "ident_rune at_start c \<longleftrightarrow>
    ascii_in 97 122 c \<or> ascii_in 65 90 c \<or> c = CHR ''_'' \<or> (ascii_in 48 57 c \<and> \<not> at_start)"

definition isBareIdentifier :: "string \<Rightarrow> bool" where
  "isBareIdentifier s = (case s of [] \<Rightarrow> False | c # cs \<Rightarrow> ident_rune True c \<and> list_all (ident_rune False) cs)"

definition stripTypeParams :: "string \<Rightarrow> string" where
  "stripTypeParams s = (case str_cut ''['' s of Some (before, _) \<Rightarrow> before | None \<Rightarrow> s)"

definition isOptionPrefixDrop :: "string \<Rightarrow> string \<Rightarrow> bool" where
  "isOptionPrefixDrop before target =
    (if target \<noteq> ''Option'' \<or> \<not> has_suffix before target then False
     else if length before - length target = 0 then False
     else ascii_in 65 90 (hd before))"

definition parseChangedFinding :: "string \<Rightarrow> (string \<times> string \<times> string) option" where
  "parseChangedFinding item =
    (case str_cut '': changed from '' item of
       None \<Rightarrow> None
     | Some (rawName, rest) \<Rightarrow>
         (case str_cut_last '' to '' rest of
            None \<Rightarrow> None
          | Some (rawBefore, rawAfter) \<Rightarrow>
              if trim_space rawName = [] \<or> trim_space rawBefore = [] \<or> trim_space rawAfter = [] then None
              else Some (trim_space rawName, trim_space rawBefore, trim_space rawAfter)))"

definition same_artifact :: "string \<Rightarrow> string \<Rightarrow> bool" where
  "same_artifact before after =
    (let b = stripTypeParams before in
     if \<not> isBareIdentifier b then False
     else
       (case cut_prefix after moduleRoot of
          None \<Rightarrow> False
        | Some suffix \<Rightarrow>
            (case str_cut_last ''.'' suffix of
               None \<Rightarrow> False
             | Some (pkgPath, tail) \<Rightarrow>
                 let target = stripTypeParams tail in
                 if str_contains pkgPath ''.'' \<or> \<not> isBareIdentifier target then False
                 else b = target \<or> isOptionPrefixDrop b target)))"

definition isTypeRelocation :: "string \<Rightarrow> bool" where
  "isTypeRelocation item =
    (case parseChangedFinding item of
       None \<Rightarrow> False
     | Some (_, before, after) \<Rightarrow> if before = after then True else same_artifact before after)"

definition relocated :: "api_section \<Rightarrow> string list \<times> string list" where
  "relocated s =
    (filter (\<lambda>item. \<not> isTypeRelocation item) (as_incompatible s), filter isTypeRelocation (as_incompatible s))"

section \<open>Parsing the report\<close>

definition hasLeadingSpace :: "string \<Rightarrow> bool" where
  "hasLeadingSpace s = (case s of c # _ \<Rightarrow> c = CHR '' '' \<or> c = char_of (9 :: nat) | [] \<Rightarrow> False)"

definition add_item :: "changeKind \<Rightarrow> string \<Rightarrow> api_section \<Rightarrow> api_section" where
  "add_item kind item s =
    (case kind of
       kindIncompatible \<Rightarrow> s\<lparr>as_incompatible := as_incompatible s @ [item]\<rparr>
     | kindCompatible \<Rightarrow> s\<lparr>as_compatible := as_compatible s @ [item]\<rparr>
     | kindNone \<Rightarrow> s)"

text \<open>The sections before the current one, the current one, if any, and the kind.\<close>

type_synonym report_state = "api_section list \<times> api_section option \<times> changeKind"

definition report_line :: "report_state \<Rightarrow> string \<Rightarrow> report_state" where
  "report_line st raw =
    (case st of (done_secs, cur, kind) \<Rightarrow>
       let trimmed = trim_space raw in
       if trimmed = [] then st
       else if \<not> hasLeadingSpace raw then
         (done_secs @ (case cur of Some s \<Rightarrow> [s] | None \<Rightarrow> []),
          Some \<lparr>as_pkg = trimmed, as_incompatible = [], as_compatible = []\<rparr>, kindNone)
       else
         (case cur of
            None \<Rightarrow> st
          | Some s \<Rightarrow>
              if trimmed = ''Incompatible changes:'' then (done_secs, cur, kindIncompatible)
              else if trimmed = ''Compatible changes:'' then (done_secs, cur, kindCompatible)
              else
                (case cut_prefix trimmed ''- '' of
                   None \<Rightarrow> st
                 | Some item \<Rightarrow> (done_secs, Some (add_item kind item s), kind))))"

definition report_sections :: "report_state \<Rightarrow> api_section list" where
  "report_sections st = (case st of (done_secs, cur, _) \<Rightarrow> done_secs @ (case cur of Some s \<Rightarrow> [s] | None \<Rightarrow> []))"

text \<open>The input is what the reader gives before its end or its error.\<close>

definition parseReport :: "string \<Rightarrow> string option \<Rightarrow> api_section list \<times> string option" where
  "parseReport input read_err =
    (case scan_lines scanBufMax input of
       (toks, too_long) \<Rightarrow>
         (report_sections (foldl report_line ([], None, kindNone) toks),
          if too_long then Some ''bufio.Scanner: token too long'' else read_err))"

section \<open>Verdict\<close>

definition filterPublic :: "api_section list \<Rightarrow> string list \<Rightarrow> api_section list" where
  "filterPublic sections allow = filter (\<lambda>s. as_pkg s \<in> set allow) sections"

definition hasBreaking :: "api_section list \<Rightarrow> bool" where
  "hasBreaking sections = list_ex (\<lambda>s. fst (relocated s) \<noteq> []) sections"

definition hasRelocations :: "api_section list \<Rightarrow> bool" where
  "hasRelocations sections = list_ex (\<lambda>s. snd (relocated s) \<noteq> []) sections"

definition hasAnyChange :: "api_section list \<Rightarrow> bool" where
  "hasAnyChange sections = list_ex (\<lambda>s. as_incompatible s \<noteq> [] \<or> as_compatible s \<noteq> []) sections"

definition bytes_of :: "nat list \<Rightarrow> string" where "bytes_of bs = map char_of bs"

definition backtick :: char where "backtick = char_of (96 :: nat)"

definition in_backticks :: "string \<Rightarrow> string" where "in_backticks s = [backtick] @ s @ [backtick]"

definition writeChanges :: "string \<Rightarrow> string list \<Rightarrow> string" where
  "writeChanges label items =
    (if items = [] then []
     else ''**'' @ label @ '':**'' @ [nl, nl] @ concat (map (\<lambda>item. ''- '' @ item @ [nl]) items) @ [nl])"

definition render_section :: "api_section \<Rightarrow> string" where
  "render_section s =
    (if as_incompatible s = [] \<and> as_compatible s = [] then []
     else
       (case relocated s of (breaking, relocations) \<Rightarrow>
          ''### '' @ in_backticks (as_pkg s) @ [nl, nl] @ writeChanges ''Incompatible changes'' breaking @
          writeChanges ''Type relocations (not gated)'' relocations @ writeChanges ''Compatible changes'' (as_compatible s)))"

definition breaking_note :: string where
  "breaking_note =
    bytes_of [226, 154, 160, 239, 184, 143] @ '' **Breaking public API change detected.** '' @
    ''If intentional, add the '' @ in_backticks ''breaking-change-approved'' @ '' label and use a '' @
    in_backticks ''feat!:'' @ '' / '' @ in_backticks ''BREAKING CHANGE:'' @ '' commit so release-please bumps the minor '' @
    ''digit (Constitution Principle XI).'' @ [nl, nl]"

definition relocation_note :: string where
  "relocation_note =
    bytes_of [226, 132, 185, 239, 184, 143] @ '' **Type relocations detected and not gated.** go-apidiff reports a type '' @
    ''whose declaring package changed as incompatible, even when an '' @
    ''identity-preserving alias keeps every consumer compiling unchanged. '' @
    ''ax-go shipped exactly this refactor in v0.1.0 '' @ bytes_of [226, 134, 146] @ '' v0.2.0 as a non-breaking '' @
    in_backticks ''feat:'' @ ''. The findings are listed below so they are reviewed, not hidden; '' @
    ''structural changes to these types are still gated by '' @ in_backticks ''make surface-check'' @ ''.'' @ [nl, nl]"

definition render :: "api_section list \<Rightarrow> string" where
  "render sections =
    commentMarker @ [nl] @ ''## Public API diff'' @ [nl, nl] @
    (if \<not> hasAnyChange sections then ''No public API changes detected against the base branch.'' @ [nl]
     else (if hasBreaking sections then breaking_note else []) @
       (if hasRelocations sections then relocation_note else []) @ concat (map render_section sections))"

text \<open>
  The writes of a run, in order. A write fails with the error \<^term>\<open>fails\<close> gives for it;
  then the run ends with exit code 1.
\<close>

datatype api_write = ToStdout string | ToStderr string | Append string string | Overwrite string string

fun perform_writes :: "(api_write \<Rightarrow> string option) \<Rightarrow> (string \<times> api_write) list \<Rightarrow> api_write list \<times> string option" where
  "perform_writes fails [] = ([], None)"
| "perform_writes fails ((label, w) # ws) =
    (case fails w of
       Some e \<Rightarrow> ([], Some (label @ '': '' @ e))
     | None \<Rightarrow> (case perform_writes fails ws of (done_writes, e) \<Rightarrow> (w # done_writes, e)))"

definition failf :: "string \<Rightarrow> api_write" where
  "failf msg = ToStderr (''apidiff-verdict: '' @ msg @ [nl])"

definition emitSummary :: "string \<Rightarrow> string \<Rightarrow> api_write" where
  "emitSummary summary_path rendered = (if summary_path = [] then ToStdout rendered else Append summary_path rendered)"

definition bool_text :: "bool \<Rightarrow> string" where
  "bool_text b = (if b then ''true'' else ''false'')"

definition emitOutput :: "string \<Rightarrow> string \<Rightarrow> bool \<Rightarrow> api_write" where
  "emitOutput output_path key b =
    (let line = key @ ''='' @ bool_text b @ [nl] in
     if output_path = [] then ToStderr (''apidiff-verdict: '' @ line) else Append output_path line)"

definition runVerdict ::
  "(api_write \<Rightarrow> string option) \<Rightarrow> string \<Rightarrow> string \<Rightarrow> string \<Rightarrow> string option \<Rightarrow> int \<times> api_write list" where
  "runVerdict fails summary_path output_path input read_err =
    (case parseReport input read_err of
       (sections, Some e) \<Rightarrow> (1, [failf (''parsing go-apidiff report: '' @ e)])
     | (sections, None) \<Rightarrow>
         let public = filterPublic sections allowedPackages; rendered = render public in
         (case perform_writes fails
              [(''writing summary'', emitSummary summary_path rendered),
               (''writing '' @ commentFile, Overwrite commentFile rendered),
               (''writing output'', emitOutput output_path ''public_breaking'' (hasBreaking public)),
               (''writing output'', emitOutput output_path ''has_public_changes'' (hasAnyChange public))] of
            (ws, None) \<Rightarrow> (0, ws)
          | (ws, Some e) \<Rightarrow> (1, ws @ [failf e])))"

section \<open>The package list\<close>

definition isInternal :: "string \<Rightarrow> bool" where
  "isInternal path \<longleftrightarrow> path = ''internal'' \<or> has_suffix path ''/internal'' \<or> str_contains path ''/internal/''"

definition isExample :: "string \<Rightarrow> bool" where
  "isExample path \<longleftrightarrow> has_suffix path ''/examples'' \<or> str_contains path ''/examples/''"

fun list_packages :: "(nat \<Rightarrow> bool) \<Rightarrow> string list \<Rightarrow> string list \<Rightarrow> string + string list" where
  "list_packages isprint got [] = Inr got"
| "list_packages isprint got (tok # toks) =
    (let line = trim_space tok in
     if line = [] then list_packages isprint got toks
     else
       (case str_fields line of
          importPath # pkgName # _ \<Rightarrow>
            if pkgName = ''main'' \<or> isInternal importPath \<or> isExample importPath then list_packages isprint got toks
            else list_packages isprint (List.insert importPath got) toks
        | _ \<Rightarrow>
            Inl (''malformed '' @ in_backticks ''go list'' @ '' line: '' @ quote isprint line @ '' (want '' @ [CHR 0x27] @
              ''<import-path> <package-name>'' @ [CHR 0x27] @ '')'')))"

text \<open>The sets \<^verbatim>\<open>want\<close> and \<^verbatim>\<open>got\<close> are maps; both differences are sorted before they are printed.\<close>

definition checkAllowlist :: "(nat \<Rightarrow> bool) \<Rightarrow> string \<Rightarrow> string option \<Rightarrow> string list \<Rightarrow> string option" where
  "checkAllowlist isprint input read_err allow =
    (case scan_lines max_token input of
       (toks, too_long) \<Rightarrow>
         (case list_packages isprint [] toks of
            Inl e \<Rightarrow> Some e
          | Inr got \<Rightarrow>
              (case (if too_long then Some ''bufio.Scanner: token too long'' else read_err) of
                 Some e \<Rightarrow> Some e
               | None \<Rightarrow>
                   let missing = sort (remdups (filter (\<lambda>p. p \<notin> set got) allow));
                       extra = sort (remdups (filter (\<lambda>p. p \<notin> set allow) got)) in
                   if missing = [] \<and> extra = [] then None
                   else Some (''public package allowlist drift (update allowedPackages in internal/cmd/apidiff-verdict/main.go):'' @
                     concat (map (\<lambda>p. [nl] @ ''  + '' @ p @ '' is public but not in the allowlist (guard it, or move it under internal/)'') extra) @
                     concat (map (\<lambda>p. [nl] @ ''  - '' @ p @ '' is in the allowlist but is no longer a public package'') missing)))))"

definition runCheckPackages :: "(nat \<Rightarrow> bool) \<Rightarrow> string \<Rightarrow> string option \<Rightarrow> int \<times> api_write list" where
  "runCheckPackages isprint input read_err =
    (case checkAllowlist isprint input read_err allowedPackages of
       Some e \<Rightarrow> (1, [ToStderr (''apidiff-verdict: '' @ e @ [nl])])
     | None \<Rightarrow> (0, [ToStdout (''OK: public package set matches the apidiff allowlist.'' @ [nl])]))"

definition apidiff_main ::
  "(nat \<Rightarrow> bool) \<Rightarrow> (api_write \<Rightarrow> string option) \<Rightarrow> string \<Rightarrow> string \<Rightarrow> string list \<Rightarrow> string \<Rightarrow> string option \<Rightarrow> int \<times> api_write list" where
  "apidiff_main isprint fails summary_path output_path args input read_err =
    (case args of
       [] \<Rightarrow> (1, [failf ''usage: apidiff-verdict <verdict|check-packages>''])
     | sub # _ \<Rightarrow>
         if sub = ''verdict'' then runVerdict fails summary_path output_path input read_err
         else if sub = ''check-packages'' then runCheckPackages isprint input read_err
         else (1, [failf (''unknown subcommand '' @ quote isprint sub @ '' (want verdict or check-packages)'')]))"

section \<open>Lemmas: reading a printed report\<close>

text \<open>A report as \<^verbatim>\<open>go-apidiff\<close> prints it.\<close>

definition change_lines :: "string \<Rightarrow> string list \<Rightarrow> string list" where
  "change_lines heading items = (if items = [] then [] else (''  '' @ heading) # map (\<lambda>x. ''  - '' @ x) items)"

definition report_lines :: "api_section \<Rightarrow> string list" where
  "report_lines s =
    as_pkg s # change_lines ''Incompatible changes:'' (as_incompatible s) @ change_lines ''Compatible changes:'' (as_compatible s)"

definition plain_text :: "string \<Rightarrow> bool" where
  "plain_text s \<longleftrightarrow> s \<noteq> [] \<and> trim_space s = s \<and> nl \<notin> set s \<and> length s + 4 < scanBufMax"

definition plain_section :: "api_section \<Rightarrow> bool" where
  "plain_section s \<longleftrightarrow> plain_text (as_pkg s) \<and> list_all plain_text (as_incompatible s) \<and> list_all plain_text (as_compatible s)"

lemma headings:
  "trim_space ''Incompatible changes:'' = ''Incompatible changes:''" "trim_space ''Compatible changes:'' = ''Compatible changes:''"
  by (simp_all add: trim_space_def trim_chunks_def rune_chunks_ascii byte_def is_space_def)

lemma indented:
  assumes "trim_space s = s" and "s \<noteq> []"
  shows "trim_space (''  '' @ s) = s" and "trim_space (''  - '' @ s) = ''- '' @ s"
  using trim_space_ascii_prefix [OF assms, of "''  ''"] trim_space_ascii_prefix [OF assms, of "''  - ''"]
  by (simp_all add: byte_def is_space_def)

lemma plain_start: "plain_text s \<Longrightarrow> \<not> hasLeadingSpace s"
proof
  assume s: "plain_text s" and lead: "hasLeadingSpace s"
  then obtain c t where st: "s = c # t" "c = CHR '' '' \<or> c = char_of (9 :: nat)"
    by (cases s) (auto simp: hasLeadingSpace_def)
  then have "rune_chunks s = (byte c, [c]) # rune_chunks t" "is_space (byte c)"
    by (auto simp: rune_chunks_ascii byte_def is_space_def)
  with trimmed_ends(1) [of s] s show False by (simp add: plain_text_def)
qed

lemma plain_end: "plain_text s \<Longrightarrow> last s \<noteq> cr"
proof
  assume s: "plain_text s" and last: "last s = cr"
  have ne: "rune_chunks s \<noteq> []" using s by (simp add: plain_text_def)
  obtain r bs where rb: "last (rune_chunks s) = (r, bs)" by fastforce
  have mem: "(r, bs) \<in> set (rune_chunks s)" using ne rb by (metis last_in_set)
  then have "bs \<noteq> []" by (rule rune_chunks_nonempty)
  moreover have "s = concat (map snd (butlast (rune_chunks s))) @ bs"
  proof -
    have "rune_chunks s = butlast (rune_chunks s) @ [(r, bs)]" using ne rb by (metis append_butlast_last_id)
    then have "concat (map snd (rune_chunks s)) = concat (map snd (butlast (rune_chunks s) @ [(r, bs)]))" by (rule arg_cong)
    then show ?thesis by simp
  qed
  ultimately have "last bs = cr" using last by (metis last_appendR)
  then have "cr \<in> set bs" using \<open>bs \<noteq> []\<close> by (metis last_in_set)
  then have "is_space r"
    using rune_chunks_ascii_byte [OF mem, of cr] by (simp add: cr_def byte_def is_space_def)
  with trimmed_ends(2) [of s] s rb show False by (simp add: plain_text_def)
qed

definition with_items :: "changeKind \<Rightarrow> string list \<Rightarrow> api_section \<Rightarrow> api_section" where
  "with_items kind items s = foldl (\<lambda>s x. add_item kind x s) s items"

lemma with_items_simps:
  "with_items kindIncompatible xs s = s\<lparr>as_incompatible := as_incompatible s @ xs\<rparr>"
  "with_items kindCompatible xs s = s\<lparr>as_compatible := as_compatible s @ xs\<rparr>"
  unfolding with_items_def by (induction xs arbitrary: s) (simp_all add: add_item_def)

lemma item_lines:
  "list_all plain_text items \<Longrightarrow>
   foldl report_line (secs, Some s, kind) (map (\<lambda>x. ''  - '' @ x) items) = (secs, Some (with_items kind items s), kind)"
proof (induction items arbitrary: s)
  case (Cons x items)
  have x: "x \<noteq> []" "trim_space x = x" using Cons.prems by (simp_all add: plain_text_def)
  have "report_line (secs, Some s, kind) (''  - '' @ x) = (secs, Some (add_item kind x s), kind)"
    unfolding report_line_def prod.case Let_def indented(2) [OF x(2,1)]
    by (simp add: hasLeadingSpace_def cut_prefix_def has_prefix_def)
  with Cons show ?case by (simp add: with_items_def del: append.simps)
qed (simp add: with_items_def)

lemma heading_line:
  "report_line (secs, Some s, k) (''  '' @ ''Incompatible changes:'') = (secs, Some s, kindIncompatible)"
  "report_line (secs, Some s, k) (''  '' @ ''Compatible changes:'') = (secs, Some s, kindCompatible)"
  unfolding report_line_def prod.case Let_def indented(1) [OF headings(1) list.distinct(2)] indented(1) [OF headings(2) list.distinct(2)]
  by (simp_all add: hasLeadingSpace_def)

lemma section_lines:
  assumes "plain_section s"
  shows "\<exists>k. foldl report_line (secs, cur, kind) (report_lines s) = (secs @ (case cur of Some c \<Rightarrow> [c] | None \<Rightarrow> []), Some s, k)"
proof -
  let ?secs = "secs @ (case cur of Some c \<Rightarrow> [c] | None \<Rightarrow> [])"
  let ?empty = "\<lparr>as_pkg = as_pkg s, as_incompatible = [], as_compatible = []\<rparr>"
  have pkg: "plain_text (as_pkg s)" and items: "list_all plain_text (as_incompatible s)" "list_all plain_text (as_compatible s)"
    using assms by (simp_all add: plain_section_def)
  have start: "report_line (secs, cur, kind) (as_pkg s) = (?secs, Some ?empty, kindNone)"
    using pkg plain_start [OF pkg] by (simp add: report_line_def plain_text_def Let_def)
  have block: "foldl report_line (ss, Some c, k) (change_lines h xs) = (ss, Some (with_items k' xs c), if xs = [] then k else k')"
    if "list_all plain_text xs" "\<And>ss c k. report_line (ss, Some c, k) (''  '' @ h) = (ss, Some c, k')" for ss c k k' h xs
    using item_lines [OF that(1)] that(2) [of ss c k] by (auto simp: change_lines_def with_items_def simp del: append.simps)
  show ?thesis
    unfolding report_lines_def foldl_Cons start foldl_append
      block [OF items(1) heading_line(1)] block [OF items(2) heading_line(2)] by (simp add: with_items_simps)
qed

text \<open>
  C28. A report is read back as it was printed: each finding lands in its own package and
  under its own kind, in order, and nothing leaks from one package into the next.
\<close>

theorem parseReport_roundtrip:
  assumes "list_all plain_section secs"
  shows "parseReport (print_lines (concat (map report_lines secs))) None = (secs, None)"
proof -
  have line_ok: "nl \<notin> set l \<and> length l < scanBufMax \<and> (l \<noteq> [] \<longrightarrow> last l \<noteq> cr)"
    if l: "l \<in> set (report_lines s)" and s: "plain_section s" for l s
  proof -
    have plain: "plain_text x" if "x \<in> {as_pkg s} \<union> set (as_incompatible s) \<union> set (as_compatible s)" for x
      using that s by (auto simp: plain_section_def list_all_iff)
    have "l = as_pkg s \<or> l = ''  Incompatible changes:'' \<or> l = ''  Compatible changes:'' \<or>
        (\<exists>x \<in> set (as_incompatible s) \<union> set (as_compatible s). l = ''  - '' @ x)"
      using l by (auto simp: report_lines_def change_lines_def split: if_splits)
    then consider "l = as_pkg s" | "l = ''  Incompatible changes:'' \<or> l = ''  Compatible changes:''"
      | x where "x \<in> set (as_incompatible s) \<union> set (as_compatible s)" "l = ''  - '' @ x"
      by blast
    then show ?thesis
    proof cases
      case 1
      then show ?thesis using plain [of l] plain_end [of l] by (simp add: plain_text_def)
    next
      case 2
      then show ?thesis by (auto simp: nl_cr_code scanBufMax_def)
    next
      case (3 x)
      then have "plain_text x" using plain by blast
      then show ?thesis using plain_end [of x] 3 by (simp add: plain_text_def nl_cr_code)
    qed
  qed
  have scan: "scan_lines scanBufMax (print_lines (concat (map report_lines secs))) = (concat (map report_lines secs), False)"
    using line_ok assms by (intro scan_lines_print) (auto simp: list_all_iff)
  have "report_sections (foldl report_line st (concat (map report_lines secs))) = report_sections st @ secs" for st
    using assms
  proof (induction secs arbitrary: st)
    case (Cons s secs)
    obtain ss cur k where st: "st = (ss, cur, k)" by (cases st)
    obtain k' where "foldl report_line st (report_lines s) = (ss @ (case cur of Some c \<Rightarrow> [c] | None \<Rightarrow> []), Some s, k')"
      using section_lines [of s ss cur k] Cons.prems st by auto
    with Cons show ?case by (simp add: st report_sections_def)
  qed (simp add: report_sections_def)
  then show ?thesis unfolding parseReport_def scan by (simp add: report_sections_def)
qed

definition demo_section :: api_section where
  "demo_section = \<lparr>as_pkg = ''p'', as_incompatible = [''F: removed''], as_compatible = []\<rparr>"

theorem parseReport_roundtrip_witness:
  "parseReport (print_lines [''p'', ''  Incompatible changes:'', ''  - F: removed'']) None = ([demo_section], None)"
proof -
  have "plain_text ''p''" "plain_text ''F: removed''"
    by (simp_all add: plain_text_def trim_space_def trim_chunks_def rune_chunks_ascii byte_def is_space_def nl_cr_code scanBufMax_def)
  then have "list_all plain_section [demo_section]" by (simp add: plain_section_def demo_section_def)
  from parseReport_roundtrip [OF this] show ?thesis
    by (simp add: report_lines_def change_lines_def demo_section_def)
qed

section \<open>What is excused\<close>

text \<open>
  The same declaration in another package of this module: a bare name, with its type
  parameters aside, now qualified by an import path of the module, and either kept
  or an option type that loses an exported prefix.
\<close>

definition type_args :: "string \<Rightarrow> bool" where
  "type_args s \<longleftrightarrow> s = [] \<or> hd s = CHR ''[''"

definition moved_within_module :: "string \<Rightarrow> string \<Rightarrow> bool" where
  "moved_within_module before after \<longleftrightarrow>
    (\<exists>base params pkg target args.
       before = base @ params \<and> type_args params \<and> isBareIdentifier base \<and>
       after = moduleRoot @ pkg @ ''.'' @ target @ args \<and> type_args args \<and> isBareIdentifier target \<and>
       CHR ''.'' \<notin> set pkg \<and> CHR ''.'' \<notin> set args \<and>
       (base = target \<or> target = ''Option'' \<and> (\<exists>c p. base = c # p @ ''Option'' \<and> ascii_in 65 90 c)))"

lemma type_args_cases: "type_args s \<longleftrightarrow> s = [] \<or> (\<exists>q. s = CHR ''['' # q)"
  by (cases s) (auto simp: type_args_def)

lemma ident_no_punct: "isBareIdentifier s \<Longrightarrow> CHR ''['' \<notin> set s \<and> CHR ''.'' \<notin> set s"
  by (auto simp: isBareIdentifier_def ident_rune_def ascii_in_def byte_def list_all_iff split: list.splits)

lemma stripTypeParams_eq:
  assumes "CHR ''['' \<notin> set base"
  shows "stripTypeParams s = base \<longleftrightarrow> (\<exists>params. s = base @ params \<and> type_args params)"
proof (cases "str_cut ''['' s")
  case None
  then have "CHR ''['' \<notin> set s" unfolding str_cut_None by (auto simp: in_set_conv_decomp)
  then show ?thesis using None by (auto simp: stripTypeParams_def type_args_def) (metis hd_in_set)
next
  case (Some ab)
  then obtain a b where s: "ab = (a, b)" "s = a @ CHR ''['' # b" "CHR ''['' \<notin> set a"
    using str_cut_char_first by (cases ab) auto
  have "a = base \<longleftrightarrow> (\<exists>params. s = base @ params \<and> type_args params)"
  proof
    assume "\<exists>params. s = base @ params \<and> type_args params"
    then obtain params where p: "s = base @ params" "params = [] \<or> (\<exists>q. params = CHR ''['' # q)"
      unfolding type_args_cases by blast
    then obtain q where "s = base @ CHR ''['' # q" using s(2) assms by (metis append.right_neutral in_set_conv_decomp)
    then have "str_cut ''['' s = Some (base, q)" using str_cut_char_first assms by blast
    then show "a = base" using Some s(1) by simp
  qed (auto simp: s(2) type_args_def)
  then show ?thesis using Some s(1) by (simp add: stripTypeParams_def)
qed

lemma option_prefix:
  "isOptionPrefixDrop base target \<longleftrightarrow> target = ''Option'' \<and> (\<exists>c p. base = c # p @ ''Option'' \<and> ascii_in 65 90 c)"
  by (auto simp: isOptionPrefixDrop_def has_suffix_iff Cons_eq_append_conv append_eq_Cons_conv neq_Nil_conv)

lemma no_dot: "\<not> str_contains s ''.'' \<longleftrightarrow> CHR ''.'' \<notin> set s"
  unfolding str_contains_iff by (auto simp: in_set_conv_decomp)

lemma same_artifact_iff: "same_artifact before after \<longleftrightarrow> moved_within_module before after"
proof
  assume same: "same_artifact before after"
  define base where "base = stripTypeParams before"
  obtain pkg tail where pt: "isBareIdentifier base" "after = moduleRoot @ pkg @ CHR ''.'' # tail"
    "CHR ''.'' \<notin> set tail" "\<not> str_contains pkg ''.''" "isBareIdentifier (stripTypeParams tail)"
    "base = stripTypeParams tail \<or> isOptionPrefixDrop base (stripTypeParams tail)"
    using same
    by (auto simp: base_def same_artifact_def Let_def cut_prefix_def has_prefix_iff str_cut_char split: option.splits if_splits)
  define target where "target = stripTypeParams tail"
  have brackets: "CHR ''['' \<notin> set base" "CHR ''['' \<notin> set target"
    using ident_no_punct pt(1,5) by (simp_all add: target_def)
  obtain params where params: "before = base @ params" "type_args params"
    using stripTypeParams_eq [OF brackets(1), of before] base_def by auto
  obtain args where args: "tail = target @ args" "type_args args"
    using stripTypeParams_eq [OF brackets(2), of tail] target_def by auto
  have "CHR ''.'' \<notin> set args" "CHR ''.'' \<notin> set pkg" using pt(3,4) args(1) no_dot by auto
  moreover have "after = moduleRoot @ pkg @ ''.'' @ target @ args" using pt(2) args(1) by simp
  moreover have "base = target \<or> target = ''Option'' \<and> (\<exists>c p. base = c # p @ ''Option'' \<and> ascii_in 65 90 c)"
    using pt(6) unfolding target_def [symmetric] option_prefix .
  ultimately show "moved_within_module before after"
    unfolding moved_within_module_def using params args(2) pt(1,5) unfolding target_def [symmetric]
    by (intro exI [of _ base] exI [of _ params] exI [of _ pkg] exI [of _ target] exI [of _ args] conjI)
next
  assume "moved_within_module before after"
  then obtain base params pkg target args where m: "before = base @ params" "type_args params" "isBareIdentifier base"
    "after = moduleRoot @ pkg @ ''.'' @ target @ args" "type_args args" "isBareIdentifier target"
    "CHR ''.'' \<notin> set pkg" "CHR ''.'' \<notin> set args" "base = target \<or> isOptionPrefixDrop base target"
    unfolding moved_within_module_def option_prefix by blast
  have b: "stripTypeParams before = base" using m(1,2,3) stripTypeParams_eq ident_no_punct by blast
  have tg: "stripTypeParams (target @ args) = target" using m(5,6) stripTypeParams_eq ident_no_punct by blast
  have cut: "str_cut_last ''.'' (pkg @ ''.'' @ target @ args) = Some (pkg, target @ args)"
    using m(8) ident_no_punct [OF m(6)] by (simp add: str_cut_char)
  show "same_artifact before after"
    using m(3,6,9) m(7) cut unfolding same_artifact_def Let_def b m(4)
    by (simp add: cut_prefix_def has_prefix_def tg no_dot)
qed

text \<open>
  What the gate excuses. An incompatible finding is set aside exactly when it says
  "changed from ... to ..." with two equal texts, or with a bare type that moved to
  another package of this module under the same name (or an option type that lost its
  prefix). A removal, a rename, a changed signature or a move out of the module is breaking.
\<close>

theorem isTypeRelocation_iff:
  "isTypeRelocation item \<longleftrightarrow>
    (\<exists>name before after. parseChangedFinding item = Some (name, before, after) \<and> (before = after \<or> moved_within_module before after))"
  by (auto simp: isTypeRelocation_def same_artifact_iff split: option.splits)

section \<open>What is reported\<close>

lemma writeChanges_bullet: "x \<in> set xs \<Longrightarrow> \<exists>a b. writeChanges label xs = a @ ''- '' @ x @ nl # b"
proof -
  assume "x \<in> set xs"
  then obtain ys zs where xs: "xs = ys @ x # zs" by (meson split_list)
  show ?thesis
    by (rule exI [of _ "''**'' @ label @ '':**'' @ [nl, nl] @ concat (map (\<lambda>item. ''- '' @ item @ [nl]) ys)"],
        rule exI [of _ "concat (map (\<lambda>item. ''- '' @ item @ [nl]) zs) @ [nl]"]) (simp add: writeChanges_def xs)
qed

lemma str_contains_append: "str_contains b p \<Longrightarrow> str_contains (a @ b @ c) p"
  unfolding str_contains_iff by (metis append.assoc)

lemma render_section_bullet:
  assumes "x \<in> set (as_incompatible s) \<union> set (as_compatible s)"
  shows "str_contains (render_section s) (''- '' @ x @ [nl])"
proof -
  define bs where "bs = filter (\<lambda>item. \<not> isTypeRelocation item) (as_incompatible s)"
  define rs where "rs = filter isTypeRelocation (as_incompatible s)"
  have r: "render_section s = ''### '' @ in_backticks (as_pkg s) @ [nl, nl] @ writeChanges ''Incompatible changes'' bs @
      writeChanges ''Type relocations (not gated)'' rs @ writeChanges ''Compatible changes'' (as_compatible s)"
    using assms by (auto simp: render_section_def relocated_def bs_def rs_def)
  note sub = str_contains_append
  have "x \<in> set bs \<or> x \<in> set rs \<or> x \<in> set (as_compatible s)" using assms by (auto simp: bs_def rs_def)
  moreover have bullet: "str_contains (writeChanges label xs) (''- '' @ x @ [nl])" if "x \<in> set xs" for label xs
    using writeChanges_bullet [OF that, of label] unfolding str_contains_iff by auto
  ultimately show ?thesis
    unfolding r using sub [OF bullet, of bs "''### '' @ in_backticks (as_pkg s) @ [nl, nl]"]
      sub [OF bullet, of rs "''### '' @ in_backticks (as_pkg s) @ [nl, nl] @ writeChanges ''Incompatible changes'' bs"]
      sub [OF bullet, of "as_compatible s" "''### '' @ in_backticks (as_pkg s) @ [nl, nl] @ writeChanges ''Incompatible changes'' bs @
        writeChanges ''Type relocations (not gated)'' rs" _ "[]"]
    by auto
qed

lemma render_bullet:
  assumes "s \<in> set secs" and "x \<in> set (as_incompatible s) \<union> set (as_compatible s)"
  shows "str_contains (render secs) (''- '' @ x @ [nl])"
proof -
  obtain ys zs where secs: "secs = ys @ s # zs" using assms(1) by (meson split_list)
  have "hasAnyChange secs" using assms unfolding hasAnyChange_def list_ex_iff by (intro bexI [of _ s]) auto
  then obtain pre where "render secs = pre @ concat (map render_section secs)" unfolding render_def by simp
  then have r: "render secs = (pre @ concat (map render_section ys)) @ render_section s @ concat (map render_section zs)"
    by (simp add: secs)
  show ?thesis unfolding r by (rule str_contains_append) (rule render_section_bullet [OF assms(2)])
qed

text \<open>
  C29. A run that can write its outputs ends with exit code 0, records public_breaking as
  true exactly when some allowlisted package has an incompatible finding that is not a
  relocation, and publishes a report that lists every finding of every allowlisted
  package, the excused ones included.
\<close>

theorem verdict_reports_everything:
  assumes "parseReport input read_err = (secs, None)" and "\<forall>w. fails w = None"
  shows "\<exists>report. runVerdict fails summary_path output_path input read_err =
      (0, [emitSummary summary_path report, Overwrite commentFile report,
        emitOutput output_path ''public_breaking''
          (\<exists>s \<in> set secs. as_pkg s \<in> set allowedPackages \<and> (\<exists>x \<in> set (as_incompatible s). \<not> isTypeRelocation x)),
        emitOutput output_path ''has_public_changes''
          (\<exists>s \<in> set secs. as_pkg s \<in> set allowedPackages \<and> set (as_incompatible s) \<union> set (as_compatible s) \<noteq> {})]) \<and>
      (\<forall>s \<in> set secs. as_pkg s \<in> set allowedPackages \<longrightarrow>
         (\<forall>x \<in> set (as_incompatible s) \<union> set (as_compatible s). str_contains report (''- '' @ x @ [nl])))"
proof -
  let ?public = "filterPublic secs allowedPackages"
  have breaking: "hasBreaking ?public \<longleftrightarrow>
      (\<exists>s \<in> set secs. as_pkg s \<in> set allowedPackages \<and> (\<exists>x \<in> set (as_incompatible s). \<not> isTypeRelocation x))"
    by (auto simp: hasBreaking_def filterPublic_def relocated_def list_ex_iff filter_empty_conv)
  have change: "hasAnyChange ?public \<longleftrightarrow>
      (\<exists>s \<in> set secs. as_pkg s \<in> set allowedPackages \<and> set (as_incompatible s) \<union> set (as_compatible s) \<noteq> {})"
    by (auto simp: hasAnyChange_def filterPublic_def list_ex_iff)
  have bullets: "\<forall>s \<in> set secs. as_pkg s \<in> set allowedPackages \<longrightarrow>
      (\<forall>x \<in> set (as_incompatible s) \<union> set (as_compatible s). str_contains (render ?public) (''- '' @ x @ [nl]))"
    using render_bullet by (simp add: filterPublic_def)
  show ?thesis
    by (rule exI [of _ "render ?public"])
      (use bullets in \<open>simp only: runVerdict_def assms(1) prod.case option.case Let_def perform_writes.simps assms(2) breaking change simp_thms\<close>)
qed

theorem verdict_reports_everything_witness:
  "\<exists>report. runVerdict (\<lambda>_. None) [] [] (print_lines [''p'', ''  Incompatible changes:'', ''  - F: removed'']) None =
     (0, [ToStdout report, Overwrite commentFile report, ToStderr (''apidiff-verdict: public_breaking=false'' @ [nl]),
          ToStderr (''apidiff-verdict: has_public_changes=false'' @ [nl])])"
proof -
  have "''p'' \<notin> set allowedPackages" by (simp add: allowedPackages_def moduleRoot_def rootImportPath_def)
  then show ?thesis
    using verdict_reports_everything [OF parseReport_roundtrip_witness, of "\<lambda>_. None" "[]" "[]"]
    by (auto simp: demo_section_def emitSummary_def emitOutput_def bool_text_def)
qed

section \<open>The allowlist check\<close>

definition package_line :: "string \<Rightarrow> (string \<times> string) option" where
  "package_line line = (case str_fields line of p # n # _ \<Rightarrow> Some (p, n) | _ \<Rightarrow> None)"

definition is_public :: "string \<times> string \<Rightarrow> bool" where
  "is_public pn \<longleftrightarrow> snd pn \<noteq> ''main'' \<and> \<not> isInternal (fst pn) \<and> \<not> isExample (fst pn)"

lemma list_packages_result:
  "let lines = filter (\<lambda>l. l \<noteq> []) (map trim_space toks) in
   case list_packages isprint got toks of
     Inl _ \<Rightarrow> list_ex (\<lambda>l. package_line l = None) lines
   | Inr ps \<Rightarrow> list_all (\<lambda>l. package_line l \<noteq> None) lines \<and>
       set ps = set got \<union> {p. \<exists>l \<in> set lines. \<exists>n. package_line l = Some (p, n) \<and> is_public (p, n)}"
proof (induction toks arbitrary: got)
  case (Cons tok toks)
  define line where "line = trim_space tok"
  show ?case
  proof (cases "line = []")
    case True
    then show ?thesis using Cons [of got] by (simp add: line_def)
  next
    case False
    note line = this
    show ?thesis
    proof (cases "package_line line")
      case None
      then have "\<exists>e. list_packages isprint got (tok # toks) = Inl e"
        using False by (auto simp: package_line_def line_def Let_def split: list.splits)
      then show ?thesis using None False by (auto simp: line_def)
    next
      case (Some pn)
      then obtain p n rest where f: "str_fields line = p # n # rest" "pn = (p, n)"
        by (auto simp: package_line_def split: list.splits)
      define got' where "got' = (if is_public (p, n) then List.insert p got else got)"
      have step: "list_packages isprint got (tok # toks) = list_packages isprint got' toks"
        using False f by (auto simp: line_def Let_def is_public_def got'_def)
      have lines: "filter (\<lambda>l. l \<noteq> []) (map trim_space (tok # toks)) = line # filter (\<lambda>l. l \<noteq> []) (map trim_space toks)"
        using False by (simp add: line_def)
      have "set got' = set got \<union> {q. q = p \<and> is_public (p, n)}" by (auto simp: got'_def)
      then show ?thesis
        using Cons [of got'] Some f(2) unfolding Let_def lines step by (auto split: sum.splits)
    qed
  qed
qed simp

text \<open>
  The allowlist check passes exactly when the package list can be read, every line
  names a package, and the public packages in it (no main package, nothing internal or
  under examples) are exactly those of the allowlist, so neither a forgotten guard
  nor a stale entry goes unnoticed.
\<close>

theorem checkAllowlist_iff:
  "checkAllowlist isprint input read_err allow = None \<longleftrightarrow>
    (let lines = filter (\<lambda>l. l \<noteq> []) (map trim_space (fst (scan_lines max_token input))) in
     read_err = None \<and> \<not> snd (scan_lines max_token input) \<and> list_all (\<lambda>l. package_line l \<noteq> None) lines \<and>
     {p. \<exists>l \<in> set lines. \<exists>n. package_line l = Some (p, n) \<and> is_public (p, n)} = set allow)"
proof -
  obtain toks too_long where scan: "scan_lines max_token input = (toks, too_long)" by fastforce
  note r = list_packages_result [where toks = toks and isprint = isprint and got = "[]"]
  show ?thesis
  proof (cases "list_packages isprint [] toks")
    case (Inl e)
    then show ?thesis using r scan by (auto simp: checkAllowlist_def Let_def list_ex_iff list_all_iff)
  next
    case (Inr ps)
    have diff: "sort (remdups (filter P xs)) = [] \<longleftrightarrow> (\<forall>x \<in> set xs. \<not> P x)" for P and xs :: "string list"
      by (metis filter_empty_conv remdups_eq_nil_iff set_empty set_sort)
    define lines where "lines = filter (\<lambda>l. l \<noteq> []) (map trim_space toks)"
    define P where "P = {p. \<exists>l \<in> set lines. \<exists>n. package_line l = Some (p, n) \<and> is_public (p, n)}"
    have lines: "list_all (\<lambda>l. package_line l \<noteq> None) lines" and got: "set ps = P"
      using r Inr by (simp_all add: lines_def P_def Let_def)
    have "checkAllowlist isprint input read_err allow = None \<longleftrightarrow>
        read_err = None \<and> \<not> too_long \<and> (\<forall>x \<in> set allow. x \<in> P) \<and> (\<forall>x \<in> P. x \<in> set allow)"
      unfolding got [symmetric] checkAllowlist_def scan prod.case Inr sum.case Let_def diff
      by (cases read_err) (simp_all only: option.case if_True if_False split: if_split, auto)
    moreover have "(\<forall>x \<in> set allow. x \<in> P) \<and> (\<forall>x \<in> P. x \<in> set allow) \<longleftrightarrow> P = set allow" by blast
    ultimately have "checkAllowlist isprint input read_err allow = None \<longleftrightarrow>
        read_err = None \<and> \<not> too_long \<and> list_all (\<lambda>l. package_line l \<noteq> None) lines \<and> P = set allow"
      using lines got by argo
    then show ?thesis
      unfolding Let_def scan fst_conv snd_conv lines_def [symmetric] P_def [symmetric] .
  qed
qed

end
