(* ===== verification/Surface_Check.thy ===== *)
theory Surface_Check
  imports Go_Text Ax_Contract "HOL-Library.Product_Lexorder"
begin

text \<open>
  The surface gate \<^verbatim>\<open>src/internal/cmd/surfacecheck\<close> (\<^verbatim>\<open>main.go\<close> and the reconciliation
  half of \<^verbatim>\<open>inventory.go\<close>): scans of the public packages in every combination of a build
  configuration and a platform are folded into one inventory, which is compared with a
  reviewed baseline and with the audit of the root package. The scans, the decoded
  artifacts, \<^verbatim>\<open>time.Parse\<close> and the notices of the source files are arguments. The lemmas
  say exactly when the gate passes and that a generated baseline is valid and passes.
\<close>

section \<open>Combinations\<close>

record Configuration =
  cn_Name :: string
  cn_Tags :: "string list"

record Profile =
  pf_GOOS :: string
  pf_GOARCH :: string

record Combination =
  cb_Configuration :: string
  cb_Profile :: string

definition profile_string :: "Profile \<Rightarrow> string" where
  "profile_string p = pf_GOOS p @ ''/'' @ pf_GOARCH p"

definition combination_string :: "Combination \<Rightarrow> string" where
  "combination_string c = ''configuration '' @ cb_Configuration c @ '' on '' @ cb_Profile c"

definition surface_root :: string where "surface_root = ''github.com/rshade/ax-go''"

definition PublicPackages :: "string list" where
  "PublicPackages =
    [surface_root, surface_root @ ''/axtest'', surface_root @ ''/config'', surface_root @ ''/contract'', surface_root @ ''/id'',
     surface_root @ ''/logging'', surface_root @ ''/mcp'', surface_root @ ''/schema'']"

definition DefaultConfigurations :: "Configuration list" where
  "DefaultConfigurations =
    [\<lparr>cn_Name = ''default'', cn_Tags = []\<rparr>, \<lparr>cn_Name = ''minimal'', cn_Tags = [''ax_no_grpc'', ''ax_no_otlp'']\<rparr>,
     \<lparr>cn_Name = ''no-grpc'', cn_Tags = [''ax_no_grpc'']\<rparr>, \<lparr>cn_Name = ''no-otlp'', cn_Tags = [''ax_no_otlp'']\<rparr>]"

definition DefaultProfiles :: "Profile list" where
  "DefaultProfiles =
    [\<lparr>pf_GOOS = ''linux'', pf_GOARCH = ''amd64''\<rparr>, \<lparr>pf_GOOS = ''linux'', pf_GOARCH = ''arm64''\<rparr>,
     \<lparr>pf_GOOS = ''darwin'', pf_GOARCH = ''amd64''\<rparr>, \<lparr>pf_GOOS = ''darwin'', pf_GOARCH = ''arm64''\<rparr>,
     \<lparr>pf_GOOS = ''windows'', pf_GOARCH = ''amd64''\<rparr>, \<lparr>pf_GOOS = ''windows'', pf_GOARCH = ''arm64''\<rparr>]"

definition configurationNames :: "Configuration list \<Rightarrow> string list" where
  "configurationNames configs = map cn_Name configs"

definition profileNames :: "Profile list \<Rightarrow> string list" where
  "profileNames profiles = map profile_string profiles"

definition DefaultCombinations :: "Configuration list \<Rightarrow> Profile list \<Rightarrow> Combination list" where
  "DefaultCombinations configs profiles =
    concat (map (\<lambda>cfg. map (\<lambda>p. \<lparr>cb_Configuration = cn_Name cfg, cb_Profile = profile_string p\<rparr>) profiles) configs)"

section \<open>Features, drift and the inventory\<close>

record Feature =
  ft_Package :: string
  ft_ID :: string
  ft_Kind :: string
  ft_Owner :: string
  ft_Name :: string
  ft_Signature :: string
  ft_Access :: string
  ft_sourceID :: string

record DriftItem =
  dr_ID :: string
  dr_Drift :: string
  dr_Expected :: string
  dr_Actual :: string

definition drift_string :: "DriftItem \<Rightarrow> string" where
  "drift_string d = dr_Drift d @ '' '' @ dr_ID d"

text \<open>\<^verbatim>\<open>sortDrift\<close> compares all four fields, so equal items are interchangeable.\<close>

definition drift_key :: "DriftItem \<Rightarrow> string \<times> string \<times> string \<times> string" where
  "drift_key d = (dr_ID d, dr_Drift d, dr_Expected d, dr_Actual d)"

definition sortDrift :: "DriftItem list \<Rightarrow> DriftItem list" where
  "sortDrift = sort_key drift_key"

record combinationScan =
  sn_combination :: Combination
  sn_features :: "Feature list"
  sn_files :: "string list"

text \<open>A feature key: package and id. A set of combinations is a list without repetition.\<close>

type_synonym featureKey = "string \<times> string"

definition feature_key :: "Feature \<Rightarrow> featureKey" where
  "feature_key f = (ft_Package f, ft_ID f)"

record Observation =
  ob_Feature :: Feature
  ob_Present :: "Combination list"

definition qualifiedID :: "featureKey \<Rightarrow> string \<Rightarrow> string" where
  "qualifiedID key root = (if fst key = root then snd key else fst key @ ''.'' @ snd key)"

record reconcile_record =
  rr_feature :: Feature
  rr_present :: "Combination list"
  rr_first :: Combination

type_synonym reconcile_state = "(featureKey \<times> reconcile_record) list \<times> DriftItem list"

definition reconcile_feature :: "string \<Rightarrow> Combination \<Rightarrow> Feature \<Rightarrow> reconcile_state \<Rightarrow> reconcile_state" where
  "reconcile_feature root combo f st =
    (case st of (recs, drift) \<Rightarrow>
       (case map_of recs (feature_key f) of
          None \<Rightarrow> (recs @ [(feature_key f, \<lparr>rr_feature = f, rr_present = [combo], rr_first = combo\<rparr>)], drift)
        | Some r \<Rightarrow>
            if ft_Signature f \<noteq> ft_Signature (rr_feature r) then
              (recs, drift @ [\<lparr>dr_ID = qualifiedID (feature_key f) root, dr_Drift = ''signature-divergent'',
                 dr_Expected = ft_Signature (rr_feature r) @ '' in '' @ combination_string (rr_first r),
                 dr_Actual = ft_Signature f @ '' in '' @ combination_string combo\<rparr>])
            else (AList.update (feature_key f) (r\<lparr>rr_present := List.insert combo (rr_present r)\<rparr>) recs, drift)))"

definition reconcile_scan :: "string \<Rightarrow> reconcile_state \<Rightarrow> combinationScan \<Rightarrow> reconcile_state" where
  "reconcile_scan root st scan = foldl (\<lambda>st f. reconcile_feature root (sn_combination scan) f st) st (sn_features scan)"

definition reconcile :: "combinationScan list \<Rightarrow> string \<Rightarrow> Observation list \<times> DriftItem list" where
  "reconcile scans root =
    (case foldl (reconcile_scan root) ([], []) scans of
       (recs, drift) \<Rightarrow>
         if drift \<noteq> [] then ([], sortDrift drift)
         else (map (\<lambda>(k, r). \<lparr>ob_Feature = rr_feature r, ob_Present = rr_present r\<rparr>) (sort_key fst recs), []))"

section \<open>Presence and the baseline\<close>

record presenceSet =
  ps_All :: bool
  ps_Values :: "string list"

definition ps_contains :: "presenceSet \<Rightarrow> string \<Rightarrow> bool" where
  "ps_contains s member \<longleftrightarrow> ps_All s \<or> member \<in> set (ps_Values s)"

fun check_members :: "(nat \<Rightarrow> bool) \<Rightarrow> string list \<Rightarrow> string option \<Rightarrow> string list \<Rightarrow> string option" where
  "check_members isprint universe prev [] = None"
| "check_members isprint universe prev (v # vs) =
    (if v \<notin> set universe then Some (''presence member '' @ quote isprint v @ '' is not a known value'')
     else if (case prev of Some p \<Rightarrow> p \<ge> v | None \<Rightarrow> False)
     then Some (''presence must be sorted bytewise and duplicate-free near '' @ quote isprint v)
     else check_members isprint universe (Some v) vs)"

definition ps_validate :: "(nat \<Rightarrow> bool) \<Rightarrow> presenceSet \<Rightarrow> string list \<Rightarrow> string option" where
  "ps_validate isprint s universe =
    (if ps_All s then
       (if ps_Values s \<noteq> [] then Some ''the \"all\" sentinel carries no explicit values'' else None)
     else if ps_Values s = [] then Some ''presence must list at least one member''
     else if length (ps_Values s) = length universe then Some ''an exhaustive presence list must be written as \"all\"''
     else check_members isprint universe None (ps_Values s))"

definition newPresenceSet :: "string list \<Rightarrow> string list \<Rightarrow> presenceSet" where
  "newPresenceSet members universe =
    (if length members = length universe then \<lparr>ps_All = True, ps_Values = []\<rparr>
     else \<lparr>ps_All = False, ps_Values = sort members\<rparr>)"

record baselineFeature =
  bf_ID :: string
  bf_Signature :: string
  bf_Configurations :: presenceSet
  bf_Profiles :: presenceSet

definition bf_combinations :: "baselineFeature \<Rightarrow> Combination list \<Rightarrow> Combination list" where
  "bf_combinations f universe =
    remdups (filter (\<lambda>c. ps_contains (bf_Configurations f) (cb_Configuration c) \<and> ps_contains (bf_Profiles f) (cb_Profile c)) universe)"

record packageBaseline =
  pb_Path :: string
  pb_Features :: "baselineFeature list option"

record baselineDoc =
  bd_SchemaVersion :: int
  bd_Packages :: "packageBaseline list option"

definition baselineSchemaVersion :: int where "baselineSchemaVersion = 2"

text \<open>A nil slice is \<^term>\<open>None\<close>; ranging over it does nothing.\<close>

definition slice :: "'a list option \<Rightarrow> 'a list" where
  "slice xs = (case xs of Some ys \<Rightarrow> ys | None \<Rightarrow> [])"

definition rootFeatures :: "baselineDoc \<Rightarrow> string \<Rightarrow> baselineFeature list" where
  "rootFeatures d root =
    (case List.find (\<lambda>p. pb_Path p = root) (slice (bd_Packages d)) of Some p \<Rightarrow> slice (pb_Features p) | None \<Rightarrow> [])"

record surfaceConfig =
  sc_Configurations :: "Configuration list"
  sc_Profiles :: "Profile list"
  sc_Packages :: "string list"

definition resolve_config :: "surfaceConfig \<Rightarrow> surfaceConfig" where
  "resolve_config c =
    \<lparr>sc_Configurations = (if sc_Configurations c = [] then DefaultConfigurations else sc_Configurations c),
     sc_Profiles = (if sc_Profiles c = [] then DefaultProfiles else sc_Profiles c),
     sc_Packages = (if sc_Packages c = [] then PublicPackages else sc_Packages c)\<rparr>"

definition config_root :: "surfaceConfig \<Rightarrow> string" where
  "config_root c = hd (sc_Packages c)"

fun check_features :: "(nat \<Rightarrow> bool) \<Rightarrow> string list \<Rightarrow> string list \<Rightarrow> nat \<Rightarrow> string option \<Rightarrow> baselineFeature list \<Rightarrow> string option" where
  "check_features isprint configs profiles j prev [] = None"
| "check_features isprint configs profiles j prev (f # fs) =
    (let at = ''features['' @ itoa (int j) @ '']'' in
     if bf_ID f = [] \<or> bf_Signature f = [] then Some (at @ '': id and signature are required'')
     else if (case prev of Some p \<Rightarrow> p \<ge> bf_ID f | None \<Rightarrow> False)
     then Some (''features must be sorted bytewise by unique id near '' @ quote isprint (bf_ID f))
     else
       (case ps_validate isprint (bf_Configurations f) configs of
          Some e \<Rightarrow> Some (at @ '' ('' @ bf_ID f @ ''): configurations: '' @ e)
        | None \<Rightarrow>
            (case ps_validate isprint (bf_Profiles f) profiles of
               Some e \<Rightarrow> Some (at @ '' ('' @ bf_ID f @ ''): profiles: '' @ e)
             | None \<Rightarrow> check_features isprint configs profiles (Suc j) (Some (bf_ID f)) fs)))"

definition validatePackageFeatures :: "(nat \<Rightarrow> bool) \<Rightarrow> packageBaseline \<Rightarrow> string list \<Rightarrow> string list \<Rightarrow> string option" where
  "validatePackageFeatures isprint pkg configs profiles = check_features isprint configs profiles 0 None (slice (pb_Features pkg))"

fun check_packages :: "(nat \<Rightarrow> bool) \<Rightarrow> surfaceConfig \<Rightarrow> nat \<Rightarrow> packageBaseline list \<Rightarrow> string list \<Rightarrow> string option" where
  "check_packages isprint cfg i (pkg # pkgs) (path # paths) =
    (let at = ''packages['' @ itoa (int i) @ '']'' in
     if pb_Path pkg \<noteq> path then Some (at @ '': expected '' @ quote isprint path @ '', got '' @ quote isprint (pb_Path pkg))
     else if pb_Features pkg = None then Some (at @ '' ('' @ pb_Path pkg @ ''): features is required'')
     else
       (case validatePackageFeatures isprint pkg (configurationNames (sc_Configurations cfg)) (profileNames (sc_Profiles cfg)) of
          Some e \<Rightarrow> Some (at @ '' ('' @ pb_Path pkg @ ''): '' @ e)
        | None \<Rightarrow> check_packages isprint cfg (Suc i) pkgs paths))"
| "check_packages isprint cfg i pkgs paths = None"

definition validateBaseline :: "(nat \<Rightarrow> bool) \<Rightarrow> baselineDoc \<Rightarrow> surfaceConfig \<Rightarrow> string option" where
  "validateBaseline isprint doc cfg =
    (if bd_SchemaVersion doc \<noteq> baselineSchemaVersion
     then Some (''schema_version must be '' @ itoa baselineSchemaVersion @ '', got '' @ itoa (bd_SchemaVersion doc))
     else
       (case bd_Packages doc of
          None \<Rightarrow> Some ''packages is required''
        | Some pkgs \<Rightarrow>
            if length pkgs \<noteq> length (sc_Packages cfg)
            then Some (''packages must record the '' @ itoa (int (length (sc_Packages cfg))) @ '' public packages, got '' @ itoa (int (length pkgs)))
            else check_packages isprint cfg 0 pkgs (sc_Packages cfg)))"

section \<open>The generated baseline\<close>

definition presenceFactorises :: "Combination list \<Rightarrow> baselineFeature \<Rightarrow> Combination list \<Rightarrow> bool" where
  "presenceFactorises observed feature universe =
    (let expected = bf_combinations feature universe in
     length expected = length observed \<and> list_all (\<lambda>c. c \<in> set observed) expected)"

definition observed_feature :: "string list \<Rightarrow> string list \<Rightarrow> Observation \<Rightarrow> baselineFeature" where
  "observed_feature configs profiles obs =
    \<lparr>bf_ID = ft_ID (ob_Feature obs), bf_Signature = ft_Signature (ob_Feature obs),
     bf_Configurations = newPresenceSet (remdups (map cb_Configuration (ob_Present obs))) configs,
     bf_Profiles = newPresenceSet (remdups (map cb_Profile (ob_Present obs))) profiles\<rparr>"

definition unfactored :: "string \<Rightarrow> Observation \<Rightarrow> DriftItem" where
  "unfactored root obs =
    \<lparr>dr_ID = qualifiedID (feature_key (ob_Feature obs)) root, dr_Drift = ''presence-unfactored'',
     dr_Expected = ''presence expressible as configurations '' @ map char_of [195 :: nat, 151] @ '' profiles'',
     dr_Actual = ''presence varies by configuration and profile together''\<rparr>"

definition baselineFromInventory :: "Observation list \<Rightarrow> surfaceConfig \<Rightarrow> Combination list \<Rightarrow> baselineDoc option \<times> DriftItem list" where
  "baselineFromInventory invent cfg universe =
    (let feature = observed_feature (configurationNames (sc_Configurations cfg)) (profileNames (sc_Profiles cfg));
         drift = map (unfactored (config_root cfg)) (filter (\<lambda>obs. \<not> presenceFactorises (ob_Present obs) (feature obs) universe) invent) in
     if drift \<noteq> [] then (None, sortDrift drift)
     else
       (Some \<lparr>bd_SchemaVersion = baselineSchemaVersion,
          bd_Packages = Some (map (\<lambda>path. \<lparr>pb_Path = path,
            pb_Features = Some (map feature (filter (\<lambda>obs. ft_Package (ob_Feature obs) = path) invent))\<rparr>) (sc_Packages cfg))\<rparr>, []))"

section \<open>Comparison with the baseline\<close>

definition detail :: "bool \<Rightarrow> string" where
  "detail b = (if b then ''present'' else ''absent'')"

fun presence_search :: "string \<Rightarrow> featureKey \<Rightarrow> Combination list \<Rightarrow> Combination list \<Rightarrow> Combination list \<Rightarrow> DriftItem list" where
  "presence_search root key expected observed [] = []"
| "presence_search root key expected observed (c # cs) =
    (if (c \<in> set expected) = (c \<in> set observed) then presence_search root key expected observed cs
     else [\<lparr>dr_ID = qualifiedID key root, dr_Drift = ''presence-changed'',
             dr_Expected = detail (c \<in> set expected) @ '' in '' @ combination_string c,
             dr_Actual = detail (c \<in> set observed) @ '' in '' @ combination_string c\<rparr>])"

definition presenceDrift :: "featureKey \<Rightarrow> Observation \<Rightarrow> baselineFeature \<Rightarrow> Combination list \<Rightarrow> string \<Rightarrow> DriftItem list" where
  "presenceDrift key live recorded universe root =
    presence_search root key (bf_combinations recorded universe) (ob_Present live) universe"

text \<open>\<^verbatim>\<open>baseMap\<close>: a later entry for a key replaces an earlier one.\<close>

definition base_map :: "baselineDoc \<Rightarrow> (featureKey \<times> baselineFeature) list" where
  "base_map base =
    foldl (\<lambda>m (k, f). AList.update k f m) []
      (concat (map (\<lambda>pkg. map (\<lambda>f. ((pb_Path pkg, bf_ID f), f)) (slice (pb_Features pkg))) (slice (bd_Packages base))))"

definition live_drift :: "string \<Rightarrow> Combination list \<Rightarrow> (featureKey \<times> baselineFeature) list \<Rightarrow> Observation \<Rightarrow> DriftItem list" where
  "live_drift root universe baseMap obs =
    (let key = feature_key (ob_Feature obs); signature = ft_Signature (ob_Feature obs) in
     case map_of baseMap key of
       None \<Rightarrow> [\<lparr>dr_ID = qualifiedID key root, dr_Drift = ''added'', dr_Expected = [], dr_Actual = signature\<rparr>]
     | Some recorded \<Rightarrow>
         (if bf_Signature recorded \<noteq> signature
          then [\<lparr>dr_ID = qualifiedID key root, dr_Drift = ''signature-changed'', dr_Expected = bf_Signature recorded, dr_Actual = signature\<rparr>]
          else []) @ presenceDrift key obs recorded universe root)"

definition missing_drift :: "string \<Rightarrow> Observation list \<Rightarrow> featureKey \<times> baselineFeature \<Rightarrow> DriftItem list" where
  "missing_drift root live kf =
    (if fst kf \<in> set (map (\<lambda>obs. feature_key (ob_Feature obs)) live) then []
     else [\<lparr>dr_ID = qualifiedID (fst kf) root, dr_Drift = ''missing'', dr_Expected = bf_Signature (snd kf), dr_Actual = []\<rparr>])"

definition diffBaseline :: "Observation list \<Rightarrow> baselineDoc \<Rightarrow> Combination list \<Rightarrow> string \<Rightarrow> DriftItem list" where
  "diffBaseline live base universe root =
    sortDrift (concat (map (live_drift root universe (base_map base)) live) @ concat (map (missing_drift root live) (base_map base)))"

section \<open>Lemmas: reconciliation\<close>

text \<open>What folding scans keeps: one record per key, with the combinations it was seen in.\<close>

definition rec_ok :: "Combination set \<Rightarrow> Feature set \<Rightarrow> featureKey \<times> reconcile_record \<Rightarrow> bool" where
  "rec_ok combos features kr \<longleftrightarrow> fst kr = feature_key (rr_feature (snd kr)) \<and> rr_feature (snd kr) \<in> features \<and>
    rr_present (snd kr) \<noteq> [] \<and> distinct (rr_present (snd kr)) \<and> set (rr_present (snd kr)) \<subseteq> combos"

definition recs_ok :: "Combination set \<Rightarrow> Feature set \<Rightarrow> (featureKey \<times> reconcile_record) list \<Rightarrow> bool" where
  "recs_ok combos features recs \<longleftrightarrow> distinct (map fst recs) \<and> (\<forall>kr \<in> set recs. rec_ok combos features kr)"

lemma set_update_cases: "x \<in> set (AList.update k v al) \<Longrightarrow> x = (k, v) \<or> x \<in> set al"
  by (induction al) (auto split: if_splits)

lemma recs_ok_update:
  assumes "recs_ok combos features recs" and "rec_ok combos features (k, r)"
  shows "recs_ok combos features (AList.update k r recs)"
  using assms set_update_cases [of _ k r recs] by (auto simp: recs_ok_def distinct_update)

lemma recs_ok_feature:
  assumes "recs_ok combos features (fst st)" and "combo \<in> combos" and "f \<in> features"
  shows "recs_ok combos features (fst (reconcile_feature root combo f st))"
proof -
  obtain recs drift where st: "st = (recs, drift)" by (cases st)
  have recs: "recs_ok combos features recs" using assms(1) by (simp add: st)
  show ?thesis
  proof (cases "map_of recs (feature_key f)")
    case None
    then have "feature_key f \<notin> fst ` set recs" by (simp add: map_of_eq_None_iff)
    with assms None show ?thesis by (auto simp: st reconcile_feature_def recs_ok_def rec_ok_def)
  next
    case (Some r)
    then have "rec_ok combos features (feature_key f, r)" using recs map_of_SomeD by (fastforce simp: recs_ok_def)
    then have "rec_ok combos features (feature_key f, r\<lparr>rr_present := List.insert combo (rr_present r)\<rparr>)"
      using assms(2) by (simp add: rec_ok_def set_empty [symmetric] del: set_empty)
    from recs_ok_update [OF recs this] Some recs show ?thesis by (simp add: st reconcile_feature_def)
  qed
qed

lemma recs_ok_scan:
  assumes "recs_ok combos features (fst st)" and "sn_combination scan \<in> combos" and "set (sn_features scan) \<subseteq> features"
  shows "recs_ok combos features (fst (reconcile_scan root st scan))"
proof -
  have "recs_ok combos features (fst (foldl (\<lambda>st f. reconcile_feature root c f st) st fs))"
    if "recs_ok combos features (fst st)" "c \<in> combos" "set fs \<subseteq> features" for c fs st
    using that
  proof (induction fs arbitrary: st)
    case (Cons f fs)
    then have "recs_ok combos features (fst (reconcile_feature root c f st))" by (intro recs_ok_feature) simp_all
    with Cons.IH [OF this] Cons.prems show ?case by simp
  qed simp
  with assms show ?thesis by (simp add: reconcile_scan_def)
qed

lemma recs_ok_scans:
  assumes "sn_combination ` set scans \<subseteq> combos" and "(\<Union>s \<in> set scans. set (sn_features s)) \<subseteq> features"
    and "recs_ok combos features (fst st)"
  shows "recs_ok combos features (fst (foldl (reconcile_scan root) st scans))"
  using assms
proof (induction scans arbitrary: st)
  case (Cons s scans)
  then have "recs_ok combos features (fst (reconcile_scan root st s))" by (intro recs_ok_scan) auto
  with Cons.IH [OF _ _ this] Cons.prems show ?case by simp
qed simp

definition inventory_ok :: "Combination set \<Rightarrow> Feature set \<Rightarrow> Observation list \<Rightarrow> bool" where
  "inventory_ok combos features invent \<longleftrightarrow>
    sorted_wrt (<) (map (\<lambda>obs. feature_key (ob_Feature obs)) invent) \<and>
    (\<forall>obs \<in> set invent. ob_Feature obs \<in> features \<and> ob_Present obs \<noteq> [] \<and> distinct (ob_Present obs) \<and> set (ob_Present obs) \<subseteq> combos)"

lemma reconcile_ok:
  assumes "reconcile scans root = (invent, [])" and "sn_combination ` set scans \<subseteq> combos"
    and "(\<Union>s \<in> set scans. set (sn_features s)) \<subseteq> features"
  shows "inventory_ok combos features invent"
proof -
  obtain recs drift where fold: "foldl (reconcile_scan root) ([], []) scans = (recs, drift)" by fastforce
  have ok: "recs_ok combos features recs"
    using recs_ok_scans [OF assms(2,3), of "([], [])" root] fold by (simp add: recs_ok_def)
  let ?obs = "\<lambda>(k, r). \<lparr>ob_Feature = rr_feature r, ob_Present = rr_present r\<rparr>"
  have invent: "invent = map ?obs (sort_key fst recs)"
    using assms(1) fold by (auto simp: reconcile_def sortDrift_def split: if_splits dest: arg_cong [of _ _ length])
  have keys: "map (\<lambda>obs. feature_key (ob_Feature obs)) invent = map fst (sort_key fst recs)"
    using ok by (auto simp: invent recs_ok_def rec_ok_def split: prod.splits)
  have "sorted_wrt (<) (map fst (sort_key fst recs))"
  proof (rule sorted_distinct_strict)
    show "sorted (map fst (sort_key fst recs))" by simp
    have "mset (map fst (sort_key fst recs)) = mset (map fst recs)" by simp
    then show "distinct (map fst (sort_key fst recs))" using ok by (metis mset_eq_imp_distinct_iff recs_ok_def)
  qed
  moreover have "ob_Feature obs \<in> features \<and> ob_Present obs \<noteq> [] \<and> distinct (ob_Present obs) \<and> set (ob_Present obs) \<subseteq> combos"
    if "obs \<in> set invent" for obs
  proof -
    from that obtain kr where "kr \<in> set recs" "obs = ?obs kr" by (auto simp: invent)
    moreover from this ok have "rec_ok combos features kr" by (simp add: recs_ok_def)
    ultimately show ?thesis by (simp add: rec_ok_def split: prod.splits)
  qed
  ultimately show ?thesis by (simp add: inventory_ok_def keys)
qed

text \<open>
  The fold over every feature of every scan: it stays free of drift exactly when no two
  features with one key have different signatures, and then a record holds the combinations
  in which its key was seen.
\<close>

definition observations :: "combinationScan list \<Rightarrow> (Combination \<times> Feature) list" where
  "observations scans = concat (map (\<lambda>s. map (Pair (sn_combination s)) (sn_features s)) scans)"

definition consistent :: "(Combination \<times> Feature) list \<Rightarrow> bool" where
  "consistent obs \<longleftrightarrow> (\<forall>f \<in> snd ` set obs. \<forall>g \<in> snd ` set obs. feature_key f = feature_key g \<longrightarrow> ft_Signature f = ft_Signature g)"

definition seen_at :: "(Combination \<times> Feature) list \<Rightarrow> featureKey \<Rightarrow> Combination set" where
  "seen_at obs k = {c. \<exists>f. (c, f) \<in> set obs \<and> feature_key f = k}"

lemma fold_observed:
  "foldl (reconcile_scan root) st scans = foldl (\<lambda>st (c, f). reconcile_feature root c f st) st (observations scans)"
proof (induction scans arbitrary: st)
  case (Cons s scans)
  have "reconcile_scan root st s = foldl (\<lambda>st (c, f). reconcile_feature root c f st) st (map (Pair (sn_combination s)) (sn_features s))"
    by (simp add: reconcile_scan_def foldl_map)
  with Cons show ?case by (simp add: observations_def)
qed (simp add: observations_def)

definition exact :: "(Combination \<times> Feature) list \<Rightarrow> (featureKey \<times> reconcile_record) list \<Rightarrow> bool" where
  "exact obs recs \<longleftrightarrow> (\<forall>k. case map_of recs k of
     None \<Rightarrow> seen_at obs k = {}
   | Some r \<Rightarrow> set (rr_present r) = seen_at obs k \<and> seen_at obs k \<noteq> {} \<and>
       (\<forall>(c, f) \<in> set obs. feature_key f = k \<longrightarrow> ft_Signature f = ft_Signature (rr_feature r)))"

lemma seen_at_snoc: "seen_at (obs @ [(c, f)]) k = (if feature_key f = k then insert c (seen_at obs k) else seen_at obs k)"
  by (auto simp: seen_at_def)

lemma seen_at_empty: "seen_at obs k = {} \<longleftrightarrow> (\<forall>(c, f) \<in> set obs. feature_key f \<noteq> k)"
  by (auto simp: seen_at_def)

lemma exact_new:
  assumes "exact obs recs" and "map_of recs (feature_key f) = None"
  shows "exact (obs @ [(c, f)]) (recs @ [(feature_key f, \<lparr>rr_feature = f, rr_present = [c], rr_first = c\<rparr>)])"
  unfolding exact_def
proof
  fix k
  show "case map_of (recs @ [(feature_key f, \<lparr>rr_feature = f, rr_present = [c], rr_first = c\<rparr>)]) k of
      None \<Rightarrow> seen_at (obs @ [(c, f)]) k = {}
    | Some r \<Rightarrow> set (rr_present r) = seen_at (obs @ [(c, f)]) k \<and> seen_at (obs @ [(c, f)]) k \<noteq> {} \<and>
       (\<forall>(c, f) \<in> set (obs @ [(c, f)]). feature_key f = k \<longrightarrow> ft_Signature f = ft_Signature (rr_feature r))"
    using assms(1)[unfolded exact_def, rule_format, of k] assms(2)
    by (cases "k = feature_key f") (auto simp: seen_at_snoc seen_at_def map_add_def split: option.splits)
qed

lemma exact_seen:
  assumes "exact obs recs" and "map_of recs (feature_key f) = Some r" and "ft_Signature f = ft_Signature (rr_feature r)"
  shows "exact (obs @ [(c, f)]) (AList.update (feature_key f) (r\<lparr>rr_present := List.insert c (rr_present r)\<rparr>) recs)"
  unfolding exact_def
proof
  fix k
  show "case map_of (AList.update (feature_key f) (r\<lparr>rr_present := List.insert c (rr_present r)\<rparr>) recs) k of
      None \<Rightarrow> seen_at (obs @ [(c, f)]) k = {}
    | Some r \<Rightarrow> set (rr_present r) = seen_at (obs @ [(c, f)]) k \<and> seen_at (obs @ [(c, f)]) k \<noteq> {} \<and>
       (\<forall>(c, f) \<in> set (obs @ [(c, f)]). feature_key f = k \<longrightarrow> ft_Signature f = ft_Signature (rr_feature r))"
    using assms(1)[unfolded exact_def, rule_format, of k] assms(2,3)
    by (cases "k = feature_key f") (auto simp: seen_at_snoc update_conv' split: option.splits)
qed

lemma consistent_snoc:
  "consistent (obs @ [(c, f)]) \<longleftrightarrow> consistent obs \<and> (\<forall>(d, g) \<in> set obs. feature_key g = feature_key f \<longrightarrow> ft_Signature g = ft_Signature f)"
proof -
  have "snd ` set (obs @ [(c, f)]) = insert f (snd ` set obs)" by auto
  moreover have "(\<forall>(d, g) \<in> set obs. feature_key g = feature_key f \<longrightarrow> ft_Signature g = ft_Signature f) \<longleftrightarrow>
      (\<forall>g \<in> snd ` set obs. feature_key g = feature_key f \<longrightarrow> ft_Signature g = ft_Signature f)" by auto
  moreover have "(\<forall>f' \<in> insert f S. \<forall>g \<in> insert f S. K f' = K g \<longrightarrow> s f' = s g) \<longleftrightarrow>
      (\<forall>f' \<in> S. \<forall>g \<in> S. K f' = K g \<longrightarrow> s f' = s g) \<and> (\<forall>g \<in> S. K g = K f \<longrightarrow> s g = s f)" (is "?l = ?r")
    for S and K :: "Feature \<Rightarrow> featureKey" and s :: "Feature \<Rightarrow> string"
  proof
    show "?l \<Longrightarrow> ?r" by blast
    assume ?r
    then show ?l by (metis insert_iff)
  qed
  ultimately show ?thesis by (simp only: consistent_def)
qed

lemma reconcile_fold:
  fixes root :: string and obs :: "(Combination \<times> Feature) list"
  defines "st \<equiv> foldl (\<lambda>st (c, f). reconcile_feature root c f st) ([], []) obs"
  shows "(snd st = [] \<longleftrightarrow> consistent obs) \<and> (snd st = [] \<longrightarrow> exact obs (fst st))"
  unfolding st_def
proof (induction obs rule: rev_induct)
  case Nil
  show ?case by (simp add: consistent_def exact_def seen_at_def)
next
  case (snoc cf obs)
  obtain c f where cf: "cf = (c, f)" by (cases cf)
  define old where "old = foldl (\<lambda>st (c, f). reconcile_feature root c f st) ([], []) obs"
  obtain recs drift where old: "old = (recs, drift)" by (cases old)
  have IH: "drift = [] \<longleftrightarrow> consistent obs" "drift = [] \<Longrightarrow> exact obs recs"
    using snoc.IH by (simp_all add: old old_def [symmetric])
  have "(snd (reconcile_feature root c f (recs, drift)) = [] \<longleftrightarrow> consistent (obs @ [(c, f)])) \<and>
      (snd (reconcile_feature root c f (recs, drift)) = [] \<longrightarrow> exact (obs @ [(c, f)]) (fst (reconcile_feature root c f (recs, drift))))"
  proof (cases "drift = []")
    case False
    then have "snd (reconcile_feature root c f (recs, drift)) \<noteq> []"
      by (simp add: reconcile_feature_def split: option.splits)
    with False IH(1) show ?thesis by (simp add: consistent_snoc)
  next
    case True
    note ex = IH(2) [OF True]
    show ?thesis
    proof (cases "map_of recs (feature_key f)")
      case None
      with ex have "seen_at obs (feature_key f) = {}" unfolding exact_def by (metis (mono_tags, lifting) option.simps(4))
      then have "consistent (obs @ [(c, f)])" using IH(1) True by (auto simp: consistent_snoc seen_at_empty)
      with None True exact_new [OF ex None, of c] show ?thesis by (simp add: reconcile_feature_def)
    next
      case (Some r)
      then have r: "seen_at obs (feature_key f) \<noteq> {}"
        "\<forall>(d, g) \<in> set obs. feature_key g = feature_key f \<longrightarrow> ft_Signature g = ft_Signature (rr_feature r)"
        using ex [unfolded exact_def, rule_format, of "feature_key f"] by simp_all
      then have "consistent (obs @ [(c, f)]) \<longleftrightarrow> ft_Signature f = ft_Signature (rr_feature r)"
      proof -
        obtain d g where "(d, g) \<in> set obs" "feature_key g = feature_key f" using r(1) by (auto simp: seen_at_def)
        then show ?thesis using r(2) IH(1) True by (fastforce simp: consistent_snoc)
      qed
      with Some True exact_seen [OF ex Some, of c] show ?thesis by (simp add: reconcile_feature_def)
    qed
  qed
  then show ?case by (simp add: cf old [unfolded old_def])
qed

lemma reconcile_consistent: "snd (reconcile scans root) = [] \<longleftrightarrow> consistent (observations scans)"
proof -
  have "snd (reconcile scans root) = [] \<longleftrightarrow> snd (foldl (reconcile_scan root) ([], []) scans) = []"
    by (auto simp: reconcile_def sortDrift_def split: prod.splits dest: arg_cong [of _ _ length])
  then show ?thesis using reconcile_fold [of root "observations scans"] by (simp add: fold_observed)
qed

lemma reconcile_exact:
  assumes "reconcile scans root = (invent, [])" and "obs \<in> set invent"
  shows "set (ob_Present obs) = seen_at (observations scans) (feature_key (ob_Feature obs))"
    and "(c, f) \<in> set (observations scans) \<Longrightarrow> feature_key f = feature_key (ob_Feature obs) \<Longrightarrow> ft_Signature f = ft_Signature (ob_Feature obs)"
proof -
  obtain recs drift where fold: "foldl (reconcile_scan root) ([], []) scans = (recs, drift)" by fastforce
  have ok: "recs_ok UNIV UNIV recs"
    using recs_ok_scans [of scans UNIV UNIV "([], [])" root] fold by (simp add: recs_ok_def)
  have inv: "drift = []" "invent = map (\<lambda>(k, r). \<lparr>ob_Feature = rr_feature r, ob_Present = rr_present r\<rparr>) (sort_key fst recs)"
    using assms(1) fold by (auto simp: reconcile_def sortDrift_def split: if_splits dest: arg_cong [of _ _ length])
  from assms(2) obtain k r where kr: "(k, r) \<in> set recs" "obs = \<lparr>ob_Feature = rr_feature r, ob_Present = rr_present r\<rparr>"
    by (auto simp: inv)
  have look: "map_of recs k = Some r" using ok kr(1) by (simp add: recs_ok_def)
  have k: "k = feature_key (ob_Feature obs)" using ok kr by (auto simp: recs_ok_def rec_ok_def)
  have "exact (observations scans) recs"
    using reconcile_fold [of root "observations scans"] fold inv(1) by (simp add: fold_observed)
  from this [unfolded exact_def, rule_format, of k] look
  show "set (ob_Present obs) = seen_at (observations scans) (feature_key (ob_Feature obs))"
    and "(c, f) \<in> set (observations scans) \<Longrightarrow> feature_key f = feature_key (ob_Feature obs) \<Longrightarrow> ft_Signature f = ft_Signature (ob_Feature obs)"
    by (auto simp: kr(2) k)
qed

lemma reconcile_keys:
  assumes "reconcile scans root = (invent, [])"
  shows "(\<lambda>obs. feature_key (ob_Feature obs)) ` set invent = (\<lambda>(c, f). feature_key f) ` set (observations scans)"
proof -
  obtain recs drift where fold: "foldl (reconcile_scan root) ([], []) scans = (recs, drift)" by fastforce
  have ok: "recs_ok UNIV UNIV recs"
    using recs_ok_scans [of scans UNIV UNIV "([], [])" root] fold by (simp add: recs_ok_def)
  have inv: "drift = []" "invent = map (\<lambda>(k, r). \<lparr>ob_Feature = rr_feature r, ob_Present = rr_present r\<rparr>) (sort_key fst recs)"
    using assms(1) fold by (auto simp: reconcile_def sortDrift_def split: if_splits dest: arg_cong [of _ _ length])
  have ex: "exact (observations scans) recs"
    using reconcile_fold [of root "observations scans"] fold inv(1) by (simp add: fold_observed)
  have "(\<lambda>obs. feature_key (ob_Feature obs)) ` set invent = fst ` set recs"
    using ok by (force simp: inv recs_ok_def rec_ok_def)
  also have "\<dots> = dom (map_of recs)" by (simp add: dom_map_of_conv_image_fst)
  also have "\<dots> = {k. seen_at (observations scans) k \<noteq> {}}"
  proof -
    have "k \<in> dom (map_of recs) \<longleftrightarrow> seen_at (observations scans) k \<noteq> {}" for k
      using ex [unfolded exact_def, rule_format, of k] by (cases "map_of recs k") (simp_all add: domIff)
    then show ?thesis by blast
  qed
  also have "\<dots> = (\<lambda>(c, f). feature_key f) ` set (observations scans)" by (force simp: seen_at_def)
  finally show ?thesis .
qed

section \<open>Lemmas: presence\<close>

text \<open>
  The combinations of a grid: every pair of a configuration and a profile name, once.
\<close>

lemma check_members_iff:
  "check_members isprint universe prev vs = None \<longleftrightarrow>
    set vs \<subseteq> set universe \<and> sorted_wrt (<) (case prev of Some p \<Rightarrow> p # vs | None \<Rightarrow> vs)"
  by (induction isprint universe prev vs rule: check_members.induct)
    (auto split: option.splits simp: not_le intro: less_trans)

lemma ps_validate_iff:
  "ps_validate isprint s universe = None \<longleftrightarrow>
    (if ps_All s then ps_Values s = []
     else ps_Values s \<noteq> [] \<and> length (ps_Values s) \<noteq> length universe \<and> set (ps_Values s) \<subseteq> set universe \<and> sorted_wrt (<) (ps_Values s))"
  by (simp add: ps_validate_def check_members_iff)

lemma newPresenceSet_valid:
  assumes "distinct ms" and "set ms \<subseteq> set us" and "ms \<noteq> []"
  shows "ps_validate isprint (newPresenceSet ms us) us = None"
proof -
  have "set (sort ms) \<subseteq> set us" "sort ms \<noteq> []" using assms by (simp_all add: set_empty [symmetric] del: set_empty)
  moreover have "sorted_wrt (<) (sort ms)" by (rule sorted_distinct_strict) (simp_all add: assms)
  ultimately show ?thesis by (simp add: ps_validate_iff newPresenceSet_def)
qed

text \<open>A valid explicit list names a proper subset, so no two valid encodings say the same.\<close>

lemma ps_proper:
  assumes "ps_validate isprint s universe = None" and "\<not> ps_All s" and "distinct universe"
  shows "set (ps_Values s) \<noteq> set universe"
proof
  assume "set (ps_Values s) = set universe"
  moreover have "distinct (ps_Values s)" "length (ps_Values s) \<noteq> length universe"
    using assms(1,2) by (auto simp: ps_validate_iff strict_sorted_iff)
  ultimately show False using assms(3) by (metis distinct_card)
qed

lemma ps_canonical:
  assumes "ps_validate isprint s universe = None" and "ps_validate isprint s' universe = None" and "distinct universe"
    and same: "\<And>m. m \<in> set universe \<Longrightarrow> ps_contains s m = ps_contains s' m"
  shows "s = s'"
proof -
  have sub: "\<not> ps_All r \<Longrightarrow> set (ps_Values r) \<subseteq> set universe" "\<not> ps_All r \<Longrightarrow> sorted_wrt (<) (ps_Values r)"
    "ps_All r \<Longrightarrow> ps_Values r = []" if "ps_validate isprint r universe = None" for r
    using that by (auto simp: ps_validate_iff)
  have "ps_All s = ps_All s'"
    using ps_proper [OF assms(1) _ assms(3)] ps_proper [OF assms(2) _ assms(3)] sub [OF assms(1)] sub [OF assms(2)] same
    by (auto simp: ps_contains_def)
  moreover have "ps_Values s = ps_Values s'"
  proof (cases "ps_All s")
    case True
    with calculation show ?thesis using sub [OF assms(1)] sub [OF assms(2)] by simp
  next
    case False
    then have "set (ps_Values s) = set (ps_Values s')"
      using calculation sub [OF assms(1)] sub [OF assms(2)] same by (auto simp: ps_contains_def)
    then show ?thesis using False calculation sub [OF assms(1)] sub [OF assms(2)] by (metis strict_sorted_equal)
  qed
  ultimately show ?thesis by (cases s, cases s') simp
qed

locale grid =
  fixes universe :: "Combination list" and configs profiles :: "string list"
  assumes distinct_configs: "distinct configs" and distinct_profiles: "distinct profiles"
    and universe_iff: "c \<in> set universe \<longleftrightarrow> cb_Configuration c \<in> set configs \<and> cb_Profile c \<in> set profiles"
begin

lemma newPresenceSet_contains:
  assumes "distinct ms" and "set ms \<subseteq> set us" and "distinct us" and "x \<in> set us"
  shows "ps_contains (newPresenceSet ms us) x \<longleftrightarrow> x \<in> set ms"
proof (cases "length ms = length us")
  case True
  then have "set ms = set us" using assms by (metis card_subset_eq distinct_card finite_set)
  with True assms show ?thesis by (simp add: newPresenceSet_def ps_contains_def)
next
  case False
  then show ?thesis by (simp add: newPresenceSet_def ps_contains_def)
qed

lemma observed_combinations:
  assumes "set (ob_Present obs) \<subseteq> set universe"
  shows "set (bf_combinations (observed_feature configs profiles obs) universe) =
    {c \<in> set universe. cb_Configuration c \<in> cb_Configuration ` set (ob_Present obs) \<and> cb_Profile c \<in> cb_Profile ` set (ob_Present obs)}"
proof -
  have sub: "set (remdups (map cb_Configuration (ob_Present obs))) \<subseteq> set configs" "set (remdups (map cb_Profile (ob_Present obs))) \<subseteq> set profiles"
    using assms universe_iff by auto
  show ?thesis
    using newPresenceSet_contains [OF distinct_remdups sub(1) distinct_configs] newPresenceSet_contains [OF distinct_remdups sub(2) distinct_profiles]
      universe_iff
    by (auto simp: bf_combinations_def observed_feature_def)
qed

lemma factorises_set:
  assumes "distinct (ob_Present obs)" and "set (ob_Present obs) \<subseteq> set universe"
  shows "presenceFactorises (ob_Present obs) (observed_feature configs profiles obs) universe \<longleftrightarrow>
    set (bf_combinations (observed_feature configs profiles obs) universe) = set (ob_Present obs)"
proof -
  let ?e = "bf_combinations (observed_feature configs profiles obs) universe"
  have d: "distinct ?e" by (simp add: bf_combinations_def)
  have "length ?e = length (ob_Present obs) \<and> set ?e \<subseteq> set (ob_Present obs) \<longleftrightarrow> set ?e = set (ob_Present obs)"
    using d assms(1) by (metis card_subset_eq distinct_card finite_set order_refl)
  then show ?thesis by (auto simp: presenceFactorises_def Let_def list_all_iff subset_iff)
qed

text \<open>A presence can be written as configurations times profiles exactly when it is such a product.\<close>

lemma factorises_iff:
  assumes "distinct (ob_Present obs)" and "set (ob_Present obs) \<subseteq> set universe"
  shows "presenceFactorises (ob_Present obs) (observed_feature configs profiles obs) universe \<longleftrightarrow>
    (\<exists>C P. set (ob_Present obs) = {c \<in> set universe. cb_Configuration c \<in> C \<and> cb_Profile c \<in> P})"
proof
  assume "presenceFactorises (ob_Present obs) (observed_feature configs profiles obs) universe"
  then show "\<exists>C P. set (ob_Present obs) = {c \<in> set universe. cb_Configuration c \<in> C \<and> cb_Profile c \<in> P}"
    using factorises_set [OF assms] observed_combinations [OF assms(2)]
    by (intro exI [of _ "cb_Configuration ` set (ob_Present obs)"] exI [of _ "cb_Profile ` set (ob_Present obs)"]) simp
next
  assume "\<exists>C P. set (ob_Present obs) = {c \<in> set universe. cb_Configuration c \<in> C \<and> cb_Profile c \<in> P}"
  then obtain C P where cp: "set (ob_Present obs) = {c \<in> set universe. cb_Configuration c \<in> C \<and> cb_Profile c \<in> P}" by blast
  have "{c \<in> set universe. cb_Configuration c \<in> cb_Configuration ` set (ob_Present obs) \<and> cb_Profile c \<in> cb_Profile ` set (ob_Present obs)} =
      set (ob_Present obs)"
    unfolding cp by auto
  then show "presenceFactorises (ob_Present obs) (observed_feature configs profiles obs) universe"
    using factorises_set [OF assms] observed_combinations [OF assms(2)] by simp
qed

end

lemma default_names:
  "configurationNames DefaultConfigurations = [''default'', ''minimal'', ''no-grpc'', ''no-otlp'']"
  "profileNames DefaultProfiles = [''linux/amd64'', ''linux/arm64'', ''darwin/amd64'', ''darwin/arm64'', ''windows/amd64'', ''windows/arm64'']"
  by (simp_all add: configurationNames_def profileNames_def DefaultConfigurations_def DefaultProfiles_def profile_string_def)

lemma combination_iff:
  "c \<in> set (DefaultCombinations configs profiles) \<longleftrightarrow>
    cb_Configuration c \<in> set (configurationNames configs) \<and> cb_Profile c \<in> set (profileNames profiles)"
  by (cases c) (auto simp: DefaultCombinations_def configurationNames_def profileNames_def)

interpretation default_grid: grid "DefaultCombinations DefaultConfigurations DefaultProfiles"
  "configurationNames DefaultConfigurations" "profileNames DefaultProfiles"
  by unfold_locales (simp_all only: combination_iff default_names, simp_all)

section \<open>Lemmas: baselines\<close>

lemma check_features_None:
  assumes "sorted_wrt (<) (case prev of Some p \<Rightarrow> p # map bf_ID fs | None \<Rightarrow> map bf_ID fs)"
    and "\<And>f. f \<in> set fs \<Longrightarrow> bf_ID f \<noteq> [] \<and> bf_Signature f \<noteq> [] \<and>
      ps_validate isprint (bf_Configurations f) configs = None \<and> ps_validate isprint (bf_Profiles f) profiles = None"
  shows "check_features isprint configs profiles j prev fs = None"
  using assms by (induction isprint configs profiles j prev fs rule: check_features.induct)
    (auto split: option.splits simp: Let_def not_le)

lemma check_packages_map:
  assumes "\<And>p. p \<in> set paths \<Longrightarrow> check_features isprint (configurationNames (sc_Configurations cfg)) (profileNames (sc_Profiles cfg)) 0 None (fs p) = None"
  shows "check_packages isprint cfg i (map (\<lambda>p. \<lparr>pb_Path = p, pb_Features = Some (fs p)\<rparr>) paths) paths = None"
  using assms by (induction paths arbitrary: i) (simp_all add: validatePackageFeatures_def slice_def)

lemma sortDrift_Nil [simp]: "sortDrift ds = [] \<longleftrightarrow> ds = []"
  by (auto simp: sortDrift_def dest: arg_cong [of _ _ length])

lemma map_of_updates:
  "map_of (foldl (\<lambda>m (k, f). AList.update k f m) m es) = map_of m ++ map_of (rev es)"
  by (induction es arbitrary: m) (auto simp: update_conv' map_add_def fun_eq_iff split: option.splits)

lemma distinct_updates:
  "distinct (map fst m) \<Longrightarrow> distinct (map fst (foldl (\<lambda>m (k, f). AList.update k f m) m es))"
  by (induction es arbitrary: m) (auto simp: distinct_update)

lemma base_map_iff: "(k, f) \<in> set (base_map base) \<longleftrightarrow> map_of (base_map base) k = Some f"
  by (simp add: base_map_def distinct_updates)

lemma presence_search_Nil:
  "presence_search root key expected observed cs = [] \<longleftrightarrow> (\<forall>c \<in> set cs. (c \<in> set expected) = (c \<in> set observed))"
  by (induction cs) auto

lemma live_drift_Nil:
  "live_drift root universe m obs = [] \<longleftrightarrow>
    (\<exists>f. map_of m (feature_key (ob_Feature obs)) = Some f \<and> bf_Signature f = ft_Signature (ob_Feature obs) \<and>
      (\<forall>c \<in> set universe. c \<in> set (bf_combinations f universe) \<longleftrightarrow> c \<in> set (ob_Present obs)))"
  by (simp add: live_drift_def presenceDrift_def presence_search_Nil Let_def split: option.splits)

lemma diff_Nil:
  "diffBaseline live base universe root = [] \<longleftrightarrow>
    (\<forall>obs \<in> set live. live_drift root universe (base_map base) obs = []) \<and>
    dom (map_of (base_map base)) \<subseteq> (\<lambda>obs. feature_key (ob_Feature obs)) ` set live"
proof -
  have "(\<forall>kf \<in> set (base_map base). missing_drift root live kf = []) \<longleftrightarrow> dom (map_of (base_map base)) \<subseteq> (\<lambda>obs. feature_key (ob_Feature obs)) ` set live"
    by (auto simp: missing_drift_def dom_map_of_conv_image_fst image_iff split: if_splits) (metis fst_conv)
  then show ?thesis by (simp add: diffBaseline_def)
qed

context grid begin

text \<open>The baseline generated from a reconciled inventory is valid and shows no drift.\<close>

lemma generated_accepted:
  assumes invent: "inventory_ok (set universe) {f. ft_ID f \<noteq> [] \<and> ft_Signature f \<noteq> [] \<and> ft_Package f \<in> set (sc_Packages cfg)} invent"
    and names: "configurationNames (sc_Configurations cfg) = configs" "profileNames (sc_Profiles cfg) = profiles"
    and paths: "distinct (sc_Packages cfg)"
    and gen: "baselineFromInventory invent cfg universe = (Some doc, [])"
  shows "validateBaseline isprint doc cfg = None" and "diffBaseline invent doc universe root = []"
proof -
  let ?feature = "observed_feature configs profiles"
  let ?key = "\<lambda>obs. feature_key (ob_Feature obs)"
  let ?fs = "\<lambda>p. map ?feature (filter (\<lambda>obs. ft_Package (ob_Feature obs) = p) invent)"
  have factors: "\<And>obs. obs \<in> set invent \<Longrightarrow> presenceFactorises (ob_Present obs) (?feature obs) universe"
    and doc: "doc = \<lparr>bd_SchemaVersion = baselineSchemaVersion,
      bd_Packages = Some (map (\<lambda>p. \<lparr>pb_Path = p, pb_Features = Some (?fs p)\<rparr>) (sc_Packages cfg))\<rparr>"
    using gen by (auto simp: baselineFromInventory_def names Let_def filter_empty_conv split: if_splits)
  have obs: "ft_ID (ob_Feature obs) \<noteq> []" "ft_Signature (ob_Feature obs) \<noteq> []" "ft_Package (ob_Feature obs) \<in> set (sc_Packages cfg)"
    "ob_Present obs \<noteq> []" "distinct (ob_Present obs)" "set (ob_Present obs) \<subseteq> set universe" if "obs \<in> set invent" for obs
    using invent that by (auto simp: inventory_ok_def)
  have valid: "ps_validate isprint (bf_Configurations (?feature obs)) configs = None \<and> ps_validate isprint (bf_Profiles (?feature obs)) profiles = None"
    if "obs \<in> set invent" for obs
  proof -
    have "set (remdups (map cb_Configuration (ob_Present obs))) \<subseteq> set configs" "set (remdups (map cb_Profile (ob_Present obs))) \<subseteq> set profiles"
      using obs(6) [OF that] universe_iff by auto
    with obs(4) [OF that] show ?thesis by (simp add: observed_feature_def newPresenceSet_valid)
  qed
  have sorted: "sorted_wrt (<) (map ?key invent)" using invent by (simp add: inventory_ok_def)
  have "sorted_wrt (<) (map bf_ID (?fs p))" for p
    using sorted by (induction invent) (auto simp: feature_key_def observed_feature_def less_prod_simp)
  then have "check_features isprint configs profiles 0 None (?fs p) = None" for p
    using obs(1,2) valid by (intro check_features_None) (auto simp: observed_feature_def)
  then have "check_packages isprint cfg 0 (map (\<lambda>p. \<lparr>pb_Path = p, pb_Features = Some (?fs p)\<rparr>) (sc_Packages cfg)) (sc_Packages cfg) = None"
    by (intro check_packages_map) (simp add: names)
  then show "validateBaseline isprint doc cfg = None" by (simp add: validateBaseline_def doc)
  let ?es = "concat (map (\<lambda>p. map (\<lambda>f. ((p, bf_ID f), f)) (?fs p)) (sc_Packages cfg))"
  have entries: "base_map doc = foldl (\<lambda>m (k, f). AList.update k f m) [] ?es"
    by (simp add: base_map_def doc slice_def comp_def)
  have dist: "distinct (map fst ?es)"
  proof -
    have "distinct (map (\<lambda>obs. (p, ft_ID (ob_Feature obs))) (filter (\<lambda>obs. ft_Package (ob_Feature obs) = p) invent))" for p
      using sorted by (induction invent) (auto simp: feature_key_def)
    then have "distinct (concat (map (\<lambda>p. map (\<lambda>obs. (p, ft_ID (ob_Feature obs))) (filter (\<lambda>obs. ft_Package (ob_Feature obs) = p) invent)) ps))"
      if "distinct ps" for ps
      using that by (induction ps) auto
    from this [OF paths] show ?thesis by (simp add: map_concat comp_def observed_feature_def)
  qed
  have lookup: "map_of (base_map doc) k = Some f \<longleftrightarrow> (\<exists>obs \<in> set invent. k = ?key obs \<and> f = ?feature obs)" for k f
  proof -
    have "map_of (base_map doc) k = Some f \<longleftrightarrow> (k, f) \<in> set (rev ?es)"
      using dist by (subst map_of_eq_Some_iff [symmetric]) (simp_all add: entries map_of_updates rev_map [symmetric])
    also have "\<dots> \<longleftrightarrow> (\<exists>obs \<in> set invent. k = ?key obs \<and> f = ?feature obs)"
      using obs(3) by (auto simp: feature_key_def observed_feature_def)
    finally show ?thesis .
  qed
  have "live_drift root universe (base_map doc) obs = []" if "obs \<in> set invent" for obs
    unfolding live_drift_Nil
    using that lookup [of "?key obs" "?feature obs"] factorises_set [OF obs(5,6), OF that that] factors [OF that]
    by (intro exI [of _ "?feature obs"]) (auto simp: observed_feature_def)
  moreover have "dom (map_of (base_map doc)) \<subseteq> ?key ` set invent" using lookup by fastforce
  ultimately show "diffBaseline invent doc universe root = []" by (simp add: diff_Nil)
qed

end

section \<open>Lemmas: what the gate compares\<close>

text \<open>
  The scans agree with the baseline: a key is recorded exactly when some scan shows it, with
  the signature every scan shows, in exactly the combinations the record expands to.
\<close>

definition surface_matches :: "Combination list \<Rightarrow> baselineDoc \<Rightarrow> combinationScan list \<Rightarrow> bool" where
  "surface_matches universe base scans \<longleftrightarrow> (\<forall>k. case map_of (base_map base) k of
     None \<Rightarrow> seen_at (observations scans) k = {}
   | Some r \<Rightarrow> seen_at (observations scans) k \<noteq> {} \<and>
       seen_at (observations scans) k = {c \<in> set universe. ps_contains (bf_Configurations r) (cb_Configuration c) \<and> ps_contains (bf_Profiles r) (cb_Profile c)} \<and>
       (\<forall>(c, f) \<in> set (observations scans). feature_key f = k \<longrightarrow> ft_Signature f = bf_Signature r))"

lemma seen_at_combos: "sn_combination ` set scans \<subseteq> S \<Longrightarrow> seen_at (observations scans) k \<subseteq> S"
  by (auto simp: seen_at_def observations_def)

lemma seen_at_keys: "seen_at (observations scans) k \<noteq> {} \<longleftrightarrow> k \<in> (\<lambda>(c, f). feature_key f) ` set (observations scans)"
  by (force simp: seen_at_def)

lemma live_drift_recorded:
  assumes "reconcile scans root = (invent, [])" and "sn_combination ` set scans \<subseteq> set universe" and "obs \<in> set invent"
  shows "live_drift root universe m obs = [] \<longleftrightarrow>
    (\<exists>r. map_of m (feature_key (ob_Feature obs)) = Some r \<and> bf_Signature r = ft_Signature (ob_Feature obs) \<and>
      seen_at (observations scans) (feature_key (ob_Feature obs)) =
        {c \<in> set universe. ps_contains (bf_Configurations r) (cb_Configuration c) \<and> ps_contains (bf_Profiles r) (cb_Profile c)})"
proof -
  have pres: "set (ob_Present obs) = seen_at (observations scans) (feature_key (ob_Feature obs))"
    using assms(1,3) by (rule reconcile_exact)
  have "seen_at (observations scans) (feature_key (ob_Feature obs)) \<subseteq> set universe"
    using assms(2) by (rule seen_at_combos)
  then show ?thesis unfolding live_drift_Nil pres by (auto simp: bf_combinations_def)
qed

lemma diff_matches:
  assumes rec: "reconcile scans root = (invent, [])" and combos: "sn_combination ` set scans \<subseteq> set universe"
  shows "diffBaseline invent base universe root = [] \<longleftrightarrow> surface_matches universe base scans"
proof -
  let ?key = "\<lambda>obs. feature_key (ob_Feature obs)" and ?seen = "seen_at (observations scans)"
  have keys: "?seen k \<noteq> {} \<longleftrightarrow> k \<in> ?key ` set invent" for k
    by (simp only: seen_at_keys reconcile_keys [OF rec])
  have sig: "ft_Signature f = ft_Signature (ob_Feature obs)"
    if "(c, f) \<in> set (observations scans)" "obs \<in> set invent" "feature_key f = ?key obs" for c f obs
    using reconcile_exact(2) [OF rec that(2,1,3)] .
  show ?thesis
  proof
    assume diff: "diffBaseline invent base universe root = []"
    show "surface_matches universe base scans"
      unfolding surface_matches_def
    proof
      fix k
      show "case map_of (base_map base) k of None \<Rightarrow> ?seen k = {}
        | Some r \<Rightarrow> ?seen k \<noteq> {} \<and>
            ?seen k = {c \<in> set universe. ps_contains (bf_Configurations r) (cb_Configuration c) \<and> ps_contains (bf_Profiles r) (cb_Profile c)} \<and>
            (\<forall>(c, f) \<in> set (observations scans). feature_key f = k \<longrightarrow> ft_Signature f = bf_Signature r)"
      proof (cases "k \<in> ?key ` set invent")
        case False
        then show ?thesis using diff keys [of k] by (auto simp: diff_Nil split: option.splits)
      next
        case True
        then obtain obs where obs: "obs \<in> set invent" "k = ?key obs" by blast
        with diff have "live_drift root universe (base_map base) obs = []" by (simp add: diff_Nil)
        then show ?thesis using keys [of k] True sig [OF _ obs(1)] obs
          unfolding live_drift_recorded [OF rec combos obs(1)] by (auto simp: obs(2))
      qed
    qed
  next
    assume m: "surface_matches universe base scans"
    have "live_drift root universe (base_map base) obs = []" if obs: "obs \<in> set invent" for obs
    proof -
      have seen: "?seen (?key obs) \<noteq> {}" using keys obs by blast
      then obtain c f where cf: "(c, f) \<in> set (observations scans)" "feature_key f = ?key obs" by (auto simp: seen_at_def)
      show ?thesis
        unfolding live_drift_recorded [OF rec combos obs]
        using m [unfolded surface_matches_def, rule_format, of "?key obs"] seen cf sig [OF cf(1) obs cf(2)]
        by (auto split: option.splits)
    qed
    moreover have "dom (map_of (base_map base)) \<subseteq> ?key ` set invent"
    proof
      fix k assume "k \<in> dom (map_of (base_map base))"
      then show "k \<in> ?key ` set invent"
        using m [unfolded surface_matches_def, rule_format, of k] keys [of k] by auto
    qed
    ultimately show "diffBaseline invent base universe root = []" by (simp add: diff_Nil)
  qed
qed

lemma matches_consistent:
  assumes "surface_matches universe base scans"
  shows "consistent (observations scans)"
proof -
  have "\<exists>r. ft_Signature f = bf_Signature r \<and> map_of (base_map base) (feature_key f) = Some r" if "f \<in> snd ` set (observations scans)" for f
  proof -
    from that obtain c where c: "(c, f) \<in> set (observations scans)" by auto
    then have "seen_at (observations scans) (feature_key f) \<noteq> {}" by (auto simp: seen_at_def)
    then show ?thesis using assms [unfolded surface_matches_def, rule_format, of "feature_key f"] c
      by (cases "map_of (base_map base) (feature_key f)") auto
  qed
  then show ?thesis unfolding consistent_def by (metis option.inject)
qed

lemma generated_iff:
  "(\<exists>doc. baselineFromInventory invent cfg universe = (Some doc, [])) \<longleftrightarrow>
    (\<forall>obs \<in> set invent. presenceFactorises (ob_Present obs)
       (observed_feature (configurationNames (sc_Configurations cfg)) (profileNames (sc_Profiles cfg)) obs) universe)"
  by (auto simp: baselineFromInventory_def Let_def filter_empty_conv)

section \<open>Properties\<close>

text \<open>The configuration the command runs with: every field at its default.\<close>

definition main_config :: surfaceConfig where
  "main_config = resolve_config \<lparr>sc_Configurations = [], sc_Profiles = [], sc_Packages = []\<rparr>"

abbreviation main_universe :: "Combination list" where
  "main_universe \<equiv> DefaultCombinations (sc_Configurations main_config) (sc_Profiles main_config)"

lemma main_config_fields:
  "sc_Configurations main_config = DefaultConfigurations" "sc_Profiles main_config = DefaultProfiles" "sc_Packages main_config = PublicPackages"
  by (simp_all add: main_config_def resolve_config_def)

lemma PublicPackages_distinct: "distinct PublicPackages"
  by (simp add: PublicPackages_def surface_root_def)

lemma matches_generated:
  assumes combos: "sn_combination ` set scans \<subseteq> set main_universe" and "surface_matches main_universe base scans"
  shows "\<exists>invent doc. reconcile scans root = (invent, []) \<and> baselineFromInventory invent main_config main_universe = (Some doc, []) \<and>
    diffBaseline invent base main_universe root = []"
proof -
  have "snd (reconcile scans root) = []"
    using matches_consistent [OF assms(2)] by (simp add: reconcile_consistent)
  then obtain invent where rec: "reconcile scans root = (invent, [])" by (metis surjective_pairing)
  have diff: "diffBaseline invent base main_universe root = []"
    using assms(2) by (simp add: diff_matches [OF rec combos])
  have ok: "inventory_ok (set main_universe) UNIV invent"
    by (rule reconcile_ok [OF rec combos]) simp
  have "presenceFactorises (ob_Present obs)
      (observed_feature (configurationNames DefaultConfigurations) (profileNames DefaultProfiles) obs) main_universe"
    if obs: "obs \<in> set invent" for obs
  proof -
    have o: "distinct (ob_Present obs)" "set (ob_Present obs) \<subseteq> set (DefaultCombinations DefaultConfigurations DefaultProfiles)"
      using ok obs by (auto simp: inventory_ok_def main_config_fields)
    have "live_drift root main_universe (base_map base) obs = []" using diff obs by (simp add: diff_Nil)
    then obtain r :: baselineFeature where "seen_at (observations scans) (feature_key (ob_Feature obs)) =
        {c \<in> set main_universe. ps_contains (bf_Configurations r) (cb_Configuration c) \<and> ps_contains (bf_Profiles r) (cb_Profile c)}"
      unfolding live_drift_recorded [OF rec combos obs] by blast
    then have "set (ob_Present obs) = {c \<in> set (DefaultCombinations DefaultConfigurations DefaultProfiles).
        cb_Configuration c \<in> Collect (ps_contains (bf_Configurations r)) \<and> cb_Profile c \<in> Collect (ps_contains (bf_Profiles r))}"
      using reconcile_exact(1) [OF rec obs] by (simp add: main_config_fields)
    then show ?thesis unfolding main_config_fields default_grid.factorises_iff [OF o] by blast
  qed
  then have "\<exists>doc. baselineFromInventory invent main_config main_universe = (Some doc, [])"
    by (simp add: generated_iff main_config_fields)
  with rec diff show ?thesis by blast
qed

text \<open>
  A baseline regenerated from scans of the supported combinations is valid, and the
  inventory it was generated from shows no drift against it.
\<close>

theorem generated_baseline_passes:
  assumes "reconcile scans (config_root main_config) = (invent, [])"
    and "baselineFromInventory invent main_config main_universe = (Some doc, [])"
    and "sn_combination ` set scans \<subseteq> set main_universe"
    and "\<And>scan f. scan \<in> set scans \<Longrightarrow> f \<in> set (sn_features scan) \<Longrightarrow>
      ft_ID f \<noteq> [] \<and> ft_Signature f \<noteq> [] \<and> ft_Package f \<in> set PublicPackages"
  shows "validateBaseline isprint doc main_config = None \<and> diffBaseline invent doc main_universe (config_root main_config) = []"
proof -
  have "inventory_ok (set main_universe) {f. ft_ID f \<noteq> [] \<and> ft_Signature f \<noteq> [] \<and> ft_Package f \<in> set (sc_Packages main_config)} invent"
    using assms(3,4) by (intro reconcile_ok [OF assms(1)]) (auto simp: main_config_fields)
  from default_grid.generated_accepted [of main_config, folded main_config_fields, OF this refl refl _ assms(2)]
  show ?thesis using PublicPackages_distinct by (simp add: main_config_fields)
qed

definition demo_scans :: "combinationScan list" where
  "demo_scans = map (\<lambda>g. \<lparr>sn_combination = \<lparr>cb_Configuration = ''minimal'', cb_Profile = g\<rparr>,
     sn_features = [\<lparr>ft_Package = surface_root, ft_ID = ''func:F'', ft_Kind = ''func'', ft_Owner = [], ft_Name = ''F'',
       ft_Signature = ''func()'', ft_Access = ''direct'', ft_sourceID = []\<rparr>], sn_files = []\<rparr>) [''linux/amd64'', ''windows/arm64'']"

theorem generated_baseline_passes_witness:
  "\<exists>invent doc. reconcile demo_scans (config_root main_config) = (invent, []) \<and> invent \<noteq> [] \<and>
    validateBaseline (\<lambda>_. True) doc main_config = None \<and> diffBaseline invent doc main_universe (config_root main_config) = []"
proof -
  let ?F = "\<lparr>ft_Package = surface_root, ft_ID = ''func:F'', ft_Kind = ''func'', ft_Owner = [], ft_Name = ''F'',
       ft_Signature = ''func()'', ft_Access = ''direct'', ft_sourceID = []\<rparr>"
  let ?obs = "\<lparr>ob_Feature = ?F, ob_Present = [\<lparr>cb_Configuration = ''minimal'', cb_Profile = ''windows/arm64''\<rparr>,
    \<lparr>cb_Configuration = ''minimal'', cb_Profile = ''linux/amd64''\<rparr>]\<rparr>"
  have rec: "reconcile demo_scans (config_root main_config) = ([?obs], [])"
    by (simp add: reconcile_def demo_scans_def reconcile_scan_def reconcile_feature_def feature_key_def)
  have mem: "c \<in> set main_universe \<longleftrightarrow> cb_Configuration c \<in> set (configurationNames DefaultConfigurations) \<and>
      cb_Profile c \<in> set (profileNames DefaultProfiles)" for c
    by (simp only: main_config_fields combination_iff)
  have sub: "set (ob_Present ?obs) \<subseteq> set main_universe" unfolding subset_iff mem default_names by simp
  have "set (ob_Present ?obs) = {c \<in> set (DefaultCombinations DefaultConfigurations DefaultProfiles).
      cb_Configuration c \<in> {''minimal''} \<and> cb_Profile c \<in> {''linux/amd64'', ''windows/arm64''}}"
  proof -
    have "c = d \<longleftrightarrow> cb_Configuration c = cb_Configuration d \<and> cb_Profile c = cb_Profile d" for c d :: Combination
      by (cases c, cases d) simp
    then show ?thesis unfolding combination_iff default_names by auto
  qed
  then have product: "\<exists>C P. set (ob_Present ?obs) = {c \<in> set (DefaultCombinations DefaultConfigurations DefaultProfiles).
      cb_Configuration c \<in> C \<and> cb_Profile c \<in> P}" by blast
  have "distinct (ob_Present ?obs)" by simp
  from default_grid.factorises_iff [OF this sub [unfolded main_config_fields]] product
  have "presenceFactorises (ob_Present ?obs)
      (observed_feature (configurationNames DefaultConfigurations) (profileNames DefaultProfiles) ?obs) main_universe"
    unfolding main_config_fields by (rule iffD2)
  then obtain doc where "baselineFromInventory [?obs] main_config main_universe = (Some doc, [])"
    using generated_iff [of "[?obs]" main_config main_universe] by (auto simp: main_config_fields)
  moreover have "sn_combination ` set demo_scans \<subseteq> set main_universe"
    using sub by (simp add: demo_scans_def)
  moreover have "\<And>scan f. scan \<in> set demo_scans \<Longrightarrow> f \<in> set (sn_features scan) \<Longrightarrow>
      ft_ID f \<noteq> [] \<and> ft_Signature f \<noteq> [] \<and> ft_Package f \<in> set PublicPackages"
    by (auto simp: demo_scans_def PublicPackages_def)
  ultimately show ?thesis using generated_baseline_passes [OF rec] rec by blast
qed

text \<open>
  The comparison is silent exactly when the live and the recorded features have the same
  keys, the same signatures, and the same presence in every combination.
\<close>

theorem diffBaseline_silent_iff:
  "diffBaseline live base universe root = [] \<longleftrightarrow>
    list_all (\<lambda>obs. case map_of (base_map base) (feature_key (ob_Feature obs)) of
        None \<Rightarrow> False
      | Some f \<Rightarrow> bf_Signature f = ft_Signature (ob_Feature obs) \<and>
          list_all (\<lambda>c. (c \<in> set (ob_Present obs)) = (ps_contains (bf_Configurations f) (cb_Configuration c) \<and> ps_contains (bf_Profiles f) (cb_Profile c)))
            universe) live \<and>
    dom (map_of (base_map base)) \<subseteq> (\<lambda>obs. feature_key (ob_Feature obs)) ` set live"
proof -
  have "live_drift root universe (base_map base) obs = [] \<longleftrightarrow>
      (case map_of (base_map base) (feature_key (ob_Feature obs)) of
        None \<Rightarrow> False
      | Some f \<Rightarrow> bf_Signature f = ft_Signature (ob_Feature obs) \<and>
          list_all (\<lambda>c. (c \<in> set (ob_Present obs)) = (ps_contains (bf_Configurations f) (cb_Configuration c) \<and> ps_contains (bf_Profiles f) (cb_Profile c)))
            universe)" for obs
    unfolding live_drift_Nil by (auto simp: list_all_iff bf_combinations_def split: option.splits)
  then show ?thesis unfolding diff_Nil by (simp add: list_all_iff [of _ live])
qed

theorem presence_encoding_canonical:
  assumes "ps_validate isprint s universe = None" and "ps_validate isprint s' universe = None" and "distinct universe"
    and "\<And>m. m \<in> set universe \<Longrightarrow> ps_contains s m = ps_contains s' m"
  shows "s = s'"
  using assms by (rule ps_canonical)

theorem presence_encoding_canonical_witness:
  "\<lparr>ps_All = False, ps_Values = [''a'']\<rparr> = (newPresenceSet [''a''] [''a'', ''b''] :: presenceSet)"
proof (rule presence_encoding_canonical [where isprint = "\<lambda>_. True" and universe = "[''a'', ''b'']"])
  show "ps_validate (\<lambda>_. True) \<lparr>ps_All = False, ps_Values = [''a'']\<rparr> [''a'', ''b''] = None" by (simp add: ps_validate_def)
  show "ps_validate (\<lambda>_. True) (newPresenceSet [''a''] [''a'', ''b'']) [''a'', ''b''] = None" by (rule newPresenceSet_valid) simp_all
qed (simp_all add: newPresenceSet_def ps_contains_def)

theorem default_presence_factorises_iff:
  assumes "distinct (ob_Present obs)" and "set (ob_Present obs) \<subseteq> set (DefaultCombinations DefaultConfigurations DefaultProfiles)"
  shows "presenceFactorises (ob_Present obs)
      (observed_feature (configurationNames DefaultConfigurations) (profileNames DefaultProfiles) obs)
      (DefaultCombinations DefaultConfigurations DefaultProfiles) \<longleftrightarrow>
    (\<exists>C P. set (ob_Present obs) = {c \<in> set (DefaultCombinations DefaultConfigurations DefaultProfiles). cb_Configuration c \<in> C \<and> cb_Profile c \<in> P})"
  using assms by (rule default_grid.factorises_iff)

end
