(* ===== verification/Surface_Audit.thy ===== *)
theory Surface_Audit
  imports Surface_Check
begin

text \<open>
  The rest of \<^verbatim>\<open>src/internal/cmd/surfacecheck\<close>: the encoding of presence, the permanent audit of
  the root package with its rules per record, the cross validation of audit and baseline, the
  search for deprecation notices in the syntax trees, and the command's run. The decoders, the
  parser, \<^verbatim>\<open>go list\<close> and the streams are fields of a record of the outside world. The lemmas
  say what each validator accepts and what a passing run means.
\<close>

section \<open>Presence as JSON\<close>

definition allSentinel :: string where "allSentinel = ''all''"

definition presence_json :: "presenceSet \<Rightarrow> any_value" where
  "presence_json s = (if ps_All s then StrVal allSentinel else ListVal (map StrVal (ps_Values s)))"

text \<open>Decoding into a string leaves it as it was on \<^verbatim>\<open>null\<close>.\<close>

definition json_string :: "any_value \<Rightarrow> string option" where
  "json_string v = (case v of StrVal s \<Rightarrow> Some s | NullVal \<Rightarrow> Some [] | _ \<Rightarrow> None)"

definition json_strings :: "any_value \<Rightarrow> string list option" where
  "json_strings v = (case v of ListVal vs \<Rightarrow> those (map json_string vs) | NullVal \<Rightarrow> Some [] | _ \<Rightarrow> None)"

definition presence_unmarshal :: "(nat \<Rightarrow> bool) \<Rightarrow> (any_value \<Rightarrow> string) \<Rightarrow> any_value \<Rightarrow> string + presenceSet" where
  "presence_unmarshal isprint json_error v =
    (case json_string v of
       Some sentinel \<Rightarrow>
         if sentinel \<noteq> allSentinel
         then Inl (''presence must be '' @ quote isprint allSentinel @ '' or a list, got '' @ quote isprint sentinel)
         else Inr \<lparr>ps_All = True, ps_Values = []\<rparr>
     | None \<Rightarrow>
         (case json_strings v of
            None \<Rightarrow> Inl (''presence must be '' @ quote isprint allSentinel @ '' or a list of strings: '' @ json_error v)
          | Some ms \<Rightarrow> Inr \<lparr>ps_All = False, ps_Values = ms\<rparr>))"

definition baseline_json :: "baselineDoc \<Rightarrow> any_value" where
  "baseline_json doc = ObjVal
    [(''schema_version'', IntVal (bd_SchemaVersion doc)),
     (''packages'', case bd_Packages doc of None \<Rightarrow> NullVal | Some pkgs \<Rightarrow> ListVal (map (\<lambda>p. ObjVal
        [(''path'', StrVal (pb_Path p)),
         (''features'', case pb_Features p of None \<Rightarrow> NullVal | Some fs \<Rightarrow> ListVal (map (\<lambda>f. ObjVal
            [(''id'', StrVal (bf_ID f)), (''signature'', StrVal (bf_Signature f)),
             (''configurations'', presence_json (bf_Configurations f)), (''profiles'', presence_json (bf_Profiles f))]) fs))]) pkgs))]"

section \<open>Audit records\<close>

record auditRecord =
  ar_ID :: string
  ar_Kind :: string
  ar_Owner :: string
  ar_Name :: string
  ar_Signature :: string
  ar_Classification :: string
  ar_Rationale :: string
  ar_Disposition :: string
  ar_InternalTarget :: string
  ar_Replacement :: string
  ar_CompatibilityStrategy :: string
  ar_Lifecycle :: string
  ar_FirstPublished :: string
  ar_DeprecatedIn :: string
  ar_RemovedIn :: string
  ar_DownstreamCheckedAt :: string
  ar_DownstreamEvidence :: "string list option"

record auditDoc =
  ad_SchemaVersion :: int
  ad_AuditedAt :: string
  ad_Records :: "auditRecord list option"

definition kindConst :: string where "kindConst = ''const''"
definition kindVar :: string where "kindVar = ''var''"
definition kindFunc :: string where "kindFunc = ''func''"
definition kindType :: string where "kindType = ''type''"
definition kindField :: string where "kindField = ''field''"
definition kindInterfaceMethod :: string where "kindInterfaceMethod = ''interface-method''"
definition kindMethod :: string where "kindMethod = ''method''"

lemmas kind_defs = kindConst_def kindVar_def kindFunc_def kindType_def kindField_def kindInterfaceMethod_def kindMethod_def

definition lifecycleLive :: string where "lifecycleLive = ''live''"
definition lifecycleDeprecated :: string where "lifecycleDeprecated = ''deprecated''"
definition lifecycleRemovable :: string where "lifecycleRemovable = ''removable''"
definition lifecycleRemoved :: string where "lifecycleRemoved = ''removed''"

lemmas lifecycle_defs = lifecycleLive_def lifecycleDeprecated_def lifecycleRemovable_def lifecycleRemoved_def

definition memberKind :: "string \<Rightarrow> bool" where
  "memberKind k \<longleftrightarrow> k \<in> set [kindField, kindInterfaceMethod, kindMethod]"

definition expectedFeatureIDs :: "string \<Rightarrow> string \<Rightarrow> string \<Rightarrow> string list" where
  "expectedFeatureIDs kind owner name =
    (if owner = [] then [kind @ '':'' @ name]
     else (kind @ '':'' @ owner @ ''.'' @ name) # (if kind = kindMethod then [kind @ '':*'' @ owner @ ''.'' @ name] else []))"

definition validateOwnerScope :: "(nat \<Rightarrow> bool) \<Rightarrow> auditRecord \<Rightarrow> string option" where
  "validateOwnerScope isprint r =
    (if memberKind (ar_Kind r) then
       (if ar_Owner r = [] then Some (''member kind '' @ quote isprint (ar_Kind r) @ '' requires a non-empty owner'') else None)
     else if ar_Owner r \<noteq> []
     then Some (''package-scope kind '' @ quote isprint (ar_Kind r) @ '' requires an empty owner, got '' @ quote isprint (ar_Owner r))
     else None)"

definition validateRecordIdentity :: "(nat \<Rightarrow> bool) \<Rightarrow> auditRecord \<Rightarrow> string option" where
  "validateRecordIdentity isprint r =
    (if ar_ID r = [] \<or> ar_Name r = [] \<or> ar_Signature r = [] then Some ''id, name, and signature are required''
     else if ar_Kind r \<notin> set [kindConst, kindVar, kindFunc, kindType, kindField, kindInterfaceMethod, kindMethod]
     then Some (''kind '' @ quote isprint (ar_Kind r) @ '' is not a valid feature kind'')
     else
       (case validateOwnerScope isprint r of
          Some e \<Rightarrow> Some e
        | None \<Rightarrow>
            if ar_ID r \<notin> set (expectedFeatureIDs (ar_Kind r) (ar_Owner r) (ar_Name r))
            then Some (''id '' @ quote isprint (ar_ID r) @ '' does not match kind '' @ quote isprint (ar_Kind r) @ '', owner '' @
              quote isprint (ar_Owner r) @ '', and name '' @ quote isprint (ar_Name r))
            else if ar_Rationale r = [] \<or> nl \<in> set (ar_Rationale r) \<or> cr \<in> set (ar_Rationale r)
            then Some ''rationale must be a single non-empty line''
            else None))"

text \<open>The regular expression \<^verbatim>\<open>^v\d+\.\d+\.\d+$\<close>: three runs of decimal digits.\<close>

definition dec_digit :: "char \<Rightarrow> bool" where
  "dec_digit c \<longleftrightarrow> CHR ''0'' \<le> c \<and> c \<le> CHR ''9''"

definition semverTag :: "string \<Rightarrow> bool" where
  "semverTag s \<longleftrightarrow>
    (case s of
       v # rest \<Rightarrow> v = CHR ''v'' \<and> length (split_char CHR ''.'' rest) = 3 \<and>
         list_all (\<lambda>p. p \<noteq> [] \<and> list_all dec_digit p) (split_char CHR ''.'' rest)
     | [] \<Rightarrow> False)"

text \<open>
  The regular expression of \<^verbatim>\<open>internalTarget\<close>: \<^verbatim>\<open>internal\<close> followed by segments, each a sequence of
  runs of lower-case letters and digits joined by single \<^verbatim>\<open>_\<close> or \<^verbatim>\<open>-\<close>.
\<close>

definition lower_digit :: "char \<Rightarrow> bool" where
  "lower_digit c \<longleftrightarrow> CHR ''a'' \<le> c \<and> c \<le> CHR ''z'' \<or> dec_digit c"

definition target_segment :: "string \<Rightarrow> bool" where
  "target_segment s \<longleftrightarrow>
    list_all (\<lambda>p. p \<noteq> [] \<and> list_all lower_digit p) (concat (map (split_char CHR ''-'') (split_char CHR ''_'' s)))"

definition internalTarget :: "string \<Rightarrow> bool" where
  "internalTarget s \<longleftrightarrow>
    (case split_char CHR ''/'' s of
       p # q # ps \<Rightarrow> p = ''internal'' \<and> list_all target_segment (q # ps)
     | _ \<Rightarrow> False)"

definition validRelocationTarget :: "string \<Rightarrow> bool" where
  "validRelocationTarget target \<longleftrightarrow>
    internalTarget target \<and> target \<noteq> ''internal/helpers'' \<and> \<not> has_prefix target ''internal/helpers/''"

text \<open>\<^verbatim>\<open>time.Parse\<close> with the layout \<^verbatim>\<open>2006-01-02\<close>: does it accept the text?\<close>

definition digit_value :: "char \<Rightarrow> nat" where "digit_value c = byte c - 48"

definition leap_year :: "nat \<Rightarrow> bool" where
  "leap_year y \<longleftrightarrow> y mod 4 = 0 \<and> (y mod 100 \<noteq> 0 \<or> y mod 400 = 0)"

definition days_in :: "nat \<Rightarrow> nat \<Rightarrow> nat" where
  "days_in m y = (if m = 2 then (if leap_year y then 29 else 28) else [31, 28, 31, 30, 31, 30, 31, 31, 30, 31, 30, 31] ! (m - 1))"

definition full_date :: "string \<Rightarrow> bool" where
  "full_date s \<longleftrightarrow>
    (case s of
       [a, b, c, d, h, m, n, k, e, f] \<Rightarrow>
         list_all dec_digit [a, b, c, d, m, n, e, f] \<and> h = CHR ''-'' \<and> k = CHR ''-'' \<and>
         (let year = 1000 * digit_value a + 100 * digit_value b + 10 * digit_value c + digit_value d;
              month = 10 * digit_value m + digit_value n; day = 10 * digit_value e + digit_value f in
          1 \<le> month \<and> month \<le> 12 \<and> 1 \<le> day \<and> day \<le> days_in month year)
     | _ \<Rightarrow> False)"

fun bad_tag :: "(string \<times> string) list \<Rightarrow> (string \<times> string) option" where
  "bad_tag [] = None"
| "bad_tag ((name, tag) # tags) = (if tag \<noteq> [] \<and> \<not> semverTag tag then Some (name, tag) else bad_tag tags)"

definition validateRecordDates :: "(nat \<Rightarrow> bool) \<Rightarrow> (string \<Rightarrow> string) \<Rightarrow> auditRecord \<Rightarrow> string option" where
  "validateRecordDates isprint time_error r =
    (case bad_tag [(''first_published'', ar_FirstPublished r), (''deprecated_in'', ar_DeprecatedIn r), (''removed_in'', ar_RemovedIn r)] of
       Some (name, tag) \<Rightarrow> Some (name @ '' '' @ quote isprint tag @ '' is not a vX.Y.Z tag'')
     | None \<Rightarrow>
         if ar_DownstreamCheckedAt r \<noteq> [] \<and> \<not> full_date (ar_DownstreamCheckedAt r)
         then Some (''downstream_checked_at must be an RFC 3339 full-date: '' @ time_error (ar_DownstreamCheckedAt r))
         else None)"

fun check_evidence :: "string option \<Rightarrow> string list \<Rightarrow> string option" where
  "check_evidence prev [] = None"
| "check_evidence prev (e # es) =
    (if e = [] then Some ''downstream_evidence entries must be non-empty''
     else if (case prev of Some p \<Rightarrow> p \<ge> e | None \<Rightarrow> False) then Some ''downstream_evidence must be sorted bytewise and duplicate-free''
     else check_evidence (Some e) es)"

definition validateRecordEvidence :: "auditRecord \<Rightarrow> string option" where
  "validateRecordEvidence r = check_evidence None (slice (ar_DownstreamEvidence r))"

definition validateLifecycle :: "(nat \<Rightarrow> bool) \<Rightarrow> auditRecord \<Rightarrow> string option" where
  "validateLifecycle isprint r =
    (if ar_Lifecycle r = lifecycleLive \<or> ar_Lifecycle r = lifecycleDeprecated then
       (if ar_DeprecatedIn r \<noteq> [] \<or> ar_RemovedIn r \<noteq> [] then Some ''live and deprecated require empty deprecated_in and removed_in'' else None)
     else if ar_Lifecycle r = lifecycleRemovable then
       (if ar_DeprecatedIn r = [] then Some ''removable requires a verified deprecated_in''
        else if ar_RemovedIn r \<noteq> [] then Some ''removable requires an empty removed_in'' else None)
     else if ar_Lifecycle r = lifecycleRemoved then
       (if ar_DeprecatedIn r = [] \<or> ar_RemovedIn r = [] then Some ''removed requires deprecated_in and removed_in'' else None)
     else Some (''lifecycle '' @ quote isprint (ar_Lifecycle r) @ '' is not valid''))"

definition validateSupported :: "auditRecord \<Rightarrow> string option" where
  "validateSupported r =
    (if ar_Disposition r \<noteq> ''keep-public'' then Some ''supported pairs only with keep-public''
     else if ar_Lifecycle r \<noteq> lifecycleLive then Some ''supported pairs only with lifecycle live''
     else if ar_InternalTarget r \<noteq> [] \<or> ar_Replacement r \<noteq> [] \<or> ar_DownstreamCheckedAt r \<noteq> []
     then Some ''supported rows leave internal_target, replacement, and downstream_checked_at empty''
     else None)"

definition validateLeakDisposition :: "(nat \<Rightarrow> bool) \<Rightarrow> auditRecord \<Rightarrow> string option" where
  "validateLeakDisposition isprint r =
    (if ar_Disposition r = ''relocate-with-forwarder'' then
       (if \<not> validRelocationTarget (ar_InternalTarget r)
        then Some (''relocate-with-forwarder requires a cohesive internal/<role> target, got '' @ quote isprint (ar_InternalTarget r)) else None)
     else if ar_Disposition r = ''deprecate-in-place'' then
       (if ar_InternalTarget r \<noteq> [] \<and> \<not> validRelocationTarget (ar_InternalTarget r)
        then Some (''internal_target '' @ quote isprint (ar_InternalTarget r) @ '' is not a cohesive internal/<role> target'') else None)
     else Some ''implementation-leak pairs only with relocate-with-forwarder or deprecate-in-place'')"

definition validateLeak :: "(nat \<Rightarrow> bool) \<Rightarrow> auditRecord \<Rightarrow> string option" where
  "validateLeak isprint r =
    (case validateLeakDisposition isprint r of
       Some e \<Rightarrow> Some e
     | None \<Rightarrow>
         if ar_Replacement r = [] then Some ''implementation-leak requires a replacement or an explicit no-replacement reason''
         else if ar_CompatibilityStrategy r = [] then Some ''implementation-leak requires a compatibility strategy''
         else if ar_DownstreamCheckedAt r = [] then Some ''implementation-leak requires a downstream evidence search date''
         else if ar_DownstreamEvidence r = None then Some ''implementation-leak requires a downstream evidence array''
         else None)"

definition validateClassification :: "(nat \<Rightarrow> bool) \<Rightarrow> auditRecord \<Rightarrow> string option" where
  "validateClassification isprint r =
    (if ar_Classification r = ''supported'' then validateSupported r
     else if ar_Classification r = ''implementation-leak'' then validateLeak isprint r
     else Some (''classification '' @ quote isprint (ar_Classification r) @ '' is not valid''))"

definition first_error :: "string option list \<Rightarrow> string option" where
  "first_error es = (case List.find (\<lambda>e. e \<noteq> None) es of Some e \<Rightarrow> e | None \<Rightarrow> None)"

definition validateRecord :: "(nat \<Rightarrow> bool) \<Rightarrow> (string \<Rightarrow> string) \<Rightarrow> auditRecord \<Rightarrow> string option" where
  "validateRecord isprint time_error r = first_error
    [validateRecordIdentity isprint r, validateRecordDates isprint time_error r, validateRecordEvidence r,
     validateClassification isprint r, validateLifecycle isprint r]"

fun check_records :: "(nat \<Rightarrow> bool) \<Rightarrow> (string \<Rightarrow> string) \<Rightarrow> nat \<Rightarrow> string option \<Rightarrow> auditRecord list \<Rightarrow> string option" where
  "check_records isprint time_error i prev [] = None"
| "check_records isprint time_error i prev (r # rs) =
    (case validateRecord isprint time_error r of
       Some e \<Rightarrow> Some (''records['' @ itoa (int i) @ ''] ('' @ ar_ID r @ ''): '' @ e)
     | None \<Rightarrow>
         if (case prev of Some p \<Rightarrow> p \<ge> ar_ID r | None \<Rightarrow> False)
         then Some (''records must be sorted bytewise by unique id near '' @ quote isprint (ar_ID r))
         else check_records isprint time_error (Suc i) (Some (ar_ID r)) rs)"

definition validateAudit :: "(nat \<Rightarrow> bool) \<Rightarrow> (string \<Rightarrow> string) \<Rightarrow> auditDoc \<Rightarrow> string option" where
  "validateAudit isprint time_error doc =
    (if ad_SchemaVersion doc \<noteq> 1 then Some (''schema_version must be 1, got '' @ itoa (ad_SchemaVersion doc))
     else if \<not> full_date (ad_AuditedAt doc) then Some (''audited_at must be an RFC 3339 full-date: '' @ time_error (ad_AuditedAt doc))
     else
       (case ad_Records doc of
          None \<Rightarrow> Some ''records is required''
        | Some rs \<Rightarrow> check_records isprint time_error 0 None rs))"

definition seedAudit :: "Observation list \<Rightarrow> string \<Rightarrow> auditDoc" where
  "seedAudit invent root =
    \<lparr>ad_SchemaVersion = 1, ad_AuditedAt = [],
     ad_Records = Some (map (\<lambda>obs. let f = ob_Feature obs in
       \<lparr>ar_ID = ft_ID f, ar_Kind = ft_Kind f, ar_Owner = ft_Owner f, ar_Name = ft_Name f, ar_Signature = ft_Signature f,
        ar_Classification = [], ar_Rationale = [], ar_Disposition = [], ar_InternalTarget = [], ar_Replacement = [],
        ar_CompatibilityStrategy = [], ar_Lifecycle = [], ar_FirstPublished = [], ar_DeprecatedIn = [], ar_RemovedIn = [],
        ar_DownstreamCheckedAt = [], ar_DownstreamEvidence = Some []\<rparr>) (filter (\<lambda>obs. ft_Package (ob_Feature obs) = root) invent))\<rparr>"

section \<open>Audit against baseline\<close>

definition audit_active :: "auditDoc \<Rightarrow> string list" where
  "audit_active a = remdups (map ar_ID (filter (\<lambda>r. ar_Lifecycle r \<noteq> lifecycleRemoved) (slice (ad_Records a))))"

definition audit_removed :: "auditDoc \<Rightarrow> string list" where
  "audit_removed a = map ar_ID (filter (\<lambda>r. ar_Lifecycle r = lifecycleRemoved) (slice (ad_Records a)))"

definition crossValidateAudit :: "baselineDoc \<Rightarrow> auditDoc \<Rightarrow> string \<Rightarrow> DriftItem list" where
  "crossValidateAudit base a root =
    (let ids = map bf_ID (rootFeatures base root) in
     sortDrift
       (concat (map (\<lambda>i.
          if i \<in> set (audit_removed a)
          then [\<lparr>dr_ID = i, dr_Drift = ''audit-state-invalid'', dr_Expected = ''absent from live baseline'', dr_Actual = ''removed audit record''\<rparr>]
          else if i \<notin> set (audit_active a)
          then [\<lparr>dr_ID = i, dr_Drift = ''audit-missing'', dr_Expected = ''active audit record'', dr_Actual = ''absent''\<rparr>]
          else []) ids) @
        map (\<lambda>i. \<lparr>dr_ID = i, dr_Drift = ''audit-state-invalid'',
            dr_Expected = ''absent from live baseline or transitioned to removed'', dr_Actual = ''active audit record''\<rparr>)
          (filter (\<lambda>i. i \<notin> set ids) (audit_active a))))"

section \<open>Deprecation notices\<close>

text \<open>
  The syntax trees \<^verbatim>\<open>go/parser\<close> gives, as far as they are inspected; a doc comment is
  what its \<^verbatim>\<open>Text\<close> method returns, if it is there.
\<close>

datatype ast_expr = Ident string | StarExpr ast_expr | IndexExpr ast_expr | IndexListExpr ast_expr | OtherExpr

record ast_member =
  am_Names :: "string list"
  am_Doc :: "string option"

datatype ast_type = StructType "ast_member list" | InterfaceType "ast_member list" | OtherType

datatype ast_spec = ValueSpec "string list" "string option" | TypeSpec string "string option" ast_type | ImportSpec

datatype ast_decl = FuncDecl "ast_expr list option" string "string option" | GenDecl bool "string option" "ast_spec list" | BadDecl

type_synonym ast_file = "ast_decl list"

function paragraphs :: "string \<Rightarrow> string list" where
  "paragraphs s = (case str_cut [nl, nl] s of None \<Rightarrow> [s] | Some (a, b) \<Rightarrow> a # paragraphs b)"
  by pat_completeness auto
termination by (relation "measure length") (auto dest!: str_cut_Some)

declare paragraphs.simps [simp del]

definition hasDeprecatedParagraph :: "string option \<Rightarrow> bool" where
  "hasDeprecatedParagraph doc =
    (case doc of None \<Rightarrow> False | Some t \<Rightarrow> list_ex (\<lambda>p. has_prefix (trim_space p) ''Deprecated:'') (paragraphs t))"

definition strip_index :: "ast_expr \<Rightarrow> ast_expr" where
  "strip_index e = (case e of IndexExpr x \<Rightarrow> x | IndexListExpr x \<Rightarrow> x | _ \<Rightarrow> e)"

definition recvBaseName :: "ast_expr list option \<Rightarrow> string \<times> bool" where
  "recvBaseName recv =
    (case recv of
       Some (e # es) \<Rightarrow>
         (case e of StarExpr x \<Rightarrow> (case strip_index x of Ident n \<Rightarrow> (n, True) | _ \<Rightarrow> ([], False))
          | _ \<Rightarrow> (case strip_index e of Ident n \<Rightarrow> (n, False) | _ \<Rightarrow> ([], False)))
     | _ \<Rightarrow> ([], False))"

definition specDoc :: "string option \<Rightarrow> string option \<Rightarrow> string option" where
  "specDoc spec decl = (if spec \<noteq> None then spec else decl)"

text \<open>The calls of \<^verbatim>\<open>mark\<close>, in order: the id and the doc comment.\<close>

definition collectDeprecatedFunc :: "ast_expr list option \<Rightarrow> string \<Rightarrow> string option \<Rightarrow> (string \<times> string option) list" where
  "collectDeprecatedFunc recv name doc =
    (if recv = None then [(kindFunc @ '':'' @ name, doc)]
     else
       (case recvBaseName recv of (owner, pointer) \<Rightarrow>
          if owner = [] then []
          else [(kindMethod @ '':'' @ (if pointer then ''*'' else []) @ owner @ ''.'' @ name, doc)]))"

definition collectDeprecatedMembers :: "string \<Rightarrow> ast_type \<Rightarrow> (string \<times> string option) list" where
  "collectDeprecatedMembers owner t =
    (let marks = (\<lambda>kind ms. concat (map (\<lambda>m. map (\<lambda>n. (kind @ '':'' @ owner @ ''.'' @ n, am_Doc m)) (am_Names m)) ms)) in
     case t of StructType ms \<Rightarrow> marks kindField ms | InterfaceType ms \<Rightarrow> marks kindInterfaceMethod ms | OtherType \<Rightarrow> [])"

definition collectDeprecatedSpec :: "bool \<Rightarrow> string option \<Rightarrow> ast_spec \<Rightarrow> (string \<times> string option) list" where
  "collectDeprecatedSpec is_const decl_doc spec =
    (case spec of
       ValueSpec names doc \<Rightarrow> map (\<lambda>n. ((if is_const then kindConst else kindVar) @ '':'' @ n, specDoc doc decl_doc)) names
     | TypeSpec name doc t \<Rightarrow> (kindType @ '':'' @ name, specDoc doc decl_doc) # collectDeprecatedMembers name t
     | ImportSpec \<Rightarrow> [])"

definition collectDeprecatedDecls :: "ast_file \<Rightarrow> string list" where
  "collectDeprecatedDecls decls =
    map fst (filter (\<lambda>(i, doc). hasDeprecatedParagraph doc) (concat (map (\<lambda>d.
      case d of
        FuncDecl recv name doc \<Rightarrow> collectDeprecatedFunc recv name doc
      | GenDecl is_const doc specs \<Rightarrow> concat (map (collectDeprecatedSpec is_const doc) specs)
      | BadDecl \<Rightarrow> []) decls)))"

fun deprecatedDecls :: "(string \<Rightarrow> go_error + ast_file) \<Rightarrow> string list \<Rightarrow> go_error + string list" where
  "deprecatedDecls parse_file [] = Inr []"
| "deprecatedDecls parse_file (name # names) =
    (case parse_file name of
       Inl e \<Rightarrow> Inl (WrapError (''parsing '' @ name) e)
     | Inr decls \<Rightarrow>
         (case deprecatedDecls parse_file names of Inl e \<Rightarrow> Inl e | Inr ids \<Rightarrow> Inr (collectDeprecatedDecls decls @ ids)))"

record deprecationProfile =
  dp_declarations :: "string \<Rightarrow> string option"
  dp_deprecated :: "string list"

definition rootFeaturesOf :: "Feature list \<Rightarrow> string \<Rightarrow> Feature list" where
  "rootFeaturesOf fs root = filter (\<lambda>f. ft_Package f = root) fs"

definition declarationSources :: "Feature list \<Rightarrow> string \<Rightarrow> string option" where
  "declarationSources fs = map_of (rev (map (\<lambda>f. (ft_ID f, if ft_sourceID f = [] then ft_ID f else ft_sourceID f)) fs))"

fun deprecationProfiles :: "(string \<Rightarrow> go_error + ast_file) \<Rightarrow> string \<Rightarrow> combinationScan list \<Rightarrow> go_error + deprecationProfile list" where
  "deprecationProfiles parse_file root [] = Inr []"
| "deprecationProfiles parse_file root (s # ss) =
    (case deprecatedDecls parse_file (sn_files s) of
       Inl e \<Rightarrow> Inl (WrapError (combination_string (sn_combination s)) e)
     | Inr ids \<Rightarrow>
         (case deprecationProfiles parse_file root ss of
            Inl e \<Rightarrow> Inl e
          | Inr ps \<Rightarrow> Inr (\<lparr>dp_declarations = declarationSources (rootFeaturesOf (sn_features s) root), dp_deprecated = ids\<rparr> # ps)))"

definition declaration_id :: "string \<Rightarrow> deprecationProfile \<Rightarrow> string" where
  "declaration_id i p = (case dp_declarations p i of Some s \<Rightarrow> (if s \<noteq> [] then s else i) | None \<Rightarrow> i)"

definition deprecationMissing :: "string \<Rightarrow> deprecationProfile list \<Rightarrow> bool" where
  "deprecationMissing i profiles \<longleftrightarrow> list_ex (\<lambda>p. declaration_id i p \<notin> set (dp_deprecated p)) profiles"

definition deprecationGaps ::
  "(string \<Rightarrow> go_error + ast_file) \<Rightarrow> auditDoc \<Rightarrow> combinationScan list \<Rightarrow> string \<Rightarrow> go_error + DriftItem list" where
  "deprecationGaps parse_file a scans root =
    (case deprecationProfiles parse_file root scans of
       Inl e \<Rightarrow> Inl e
     | Inr profiles \<Rightarrow> Inr (sortDrift (map
         (\<lambda>r. \<lparr>dr_ID = ar_ID r, dr_Drift = ''deprecation-missing'', dr_Expected = ''Deprecated: paragraph on the source declaration'', dr_Actual = ''absent''\<rparr>)
         (filter (\<lambda>r. (ar_Lifecycle r = lifecycleDeprecated \<or> ar_Lifecycle r = lifecycleRemovable) \<and> deprecationMissing (ar_ID r) profiles)
           (slice (ad_Records a))))))"

section \<open>The command\<close>

definition codeDrift :: string where "codeDrift = ''surface_drift''"
definition codeArtifact :: string where "codeArtifact = ''invalid_surface_artifact''"
definition codePermission :: string where "codePermission = ''surface_permission''"
definition codeInternal :: string where "codeInternal = ''surface_internal''"

definition maxArtifactBytes :: nat where "maxArtifactBytes = 8 * 2 ^ 20"

definition defaultBaselinePath :: string where "defaultBaselinePath = ''internal/cmd/surfacecheck/baseline.json''"
definition defaultAuditPath :: string where "defaultAuditPath = ''specs/023-internalize-helpers/public-surface-audit.json''"

text \<open>An error of the outside, and whether it is \<^verbatim>\<open>fs.ErrPermission\<close>.\<close>

type_synonym outside_error = "bool \<times> go_error"

text \<open>
  What the command calls: printable runes, the error texts of \<^verbatim>\<open>time.Parse\<close>, the JSON
  encoders, the strict decoders, the two streams, files, \<^verbatim>\<open>filepath\<close>, the environment, the
  \<^verbatim>\<open>go\<close> command (arguments and environment to the chunks it writes and its failure), the
  decoder of its output, the walk over the types of a package (export files to the
  features handed to \<^verbatim>\<open>add\<close>, in order), the Go parser, and the build information.
\<close>

record listedPackage =
  lp_ImportPath :: string
  lp_Export :: string
  lp_DepOnly :: bool
  lp_GoFiles :: "string list"
  lp_CgoFiles :: "string list"

record surface_world =
  sw_isprint :: "nat \<Rightarrow> bool"
  sw_time_error :: "string \<Rightarrow> string"
  sw_marshal :: "any_value \<Rightarrow> go_error + string"
  sw_marshal_indent :: "any_value \<Rightarrow> go_error + string"
  sw_decode_baseline :: "string \<Rightarrow> go_error + baselineDoc"
  sw_decode_audit :: "string \<Rightarrow> go_error + auditDoc"
  sw_stdout :: "string \<Rightarrow> go_error option"
  sw_stderr :: "string \<Rightarrow> go_error option"
  sw_read :: "string \<Rightarrow> outside_error + string"
  sw_write :: "string \<Rightarrow> string \<Rightarrow> outside_error option"
  sw_at_dir :: "string \<Rightarrow> string"
  sw_environ :: "string list"
  sw_go :: "string list \<Rightarrow> string list \<Rightarrow> string list \<times> outside_error option"
  sw_decode_list :: "string \<Rightarrow> listedPackage list \<times> go_error option"
  sw_walk :: "(string \<Rightarrow> string option) \<Rightarrow> string \<Rightarrow> outside_error + Feature list"
  sw_parse_file :: "string \<Rightarrow> go_error + ast_file"
  sw_version :: "string option"
  sw_ctx :: "gctx option"

text \<open>Exit code, then the payloads handed to stdout and to stderr.\<close>

type_synonym surface_out = "int \<times> string list \<times> string list"

definition toolVersion :: "string option \<Rightarrow> string" where
  "toolVersion info = (case info of Some v \<Rightarrow> (if v \<noteq> [] \<and> v \<noteq> ''(devel)'' then v else ''dev'') | None \<Rightarrow> ''dev'')"

definition write_envelope :: "surface_world \<Rightarrow> int \<Rightarrow> ax_error \<Rightarrow> surface_out" where
  "write_envelope w exit env =
    (case WriteError (sw_isprint w) (sw_marshal w) (sw_stderr w) (Some (as_error env)) of
       (payload, err) \<Rightarrow> (if err \<noteq> None then ExitInternal else exit, [], case payload of Some p \<Rightarrow> [p] | None \<Rightarrow> []))"

definition surface_failure :: "surface_world \<Rightarrow> string \<Rightarrow> string \<Rightarrow> string \<Rightarrow> int \<Rightarrow> go_error \<Rightarrow> surface_out" where
  "surface_failure w errcode message suggestion exit cause =
    write_envelope w exit (NewError (sw_ctx w) errcode message
      ([WithErrorTool ''surfacecheck'', WithErrorVersion (toolVersion (sw_version w)), WithErrorExitCode exit,
        WithRetryable False, WithErrorCause (Some cause)] @ (if suggestion \<noteq> [] then [WithSuggestions [suggestion]] else [])))"

definition suggestionsOf :: "DriftItem list \<Rightarrow> string list" where
  "suggestionsOf drift = map drift_string (sortDrift drift)"

definition emitDrift :: "surface_world \<Rightarrow> string list \<Rightarrow> surface_out" where
  "emitDrift w suggestions =
    write_envelope w ExitValidation (NewError (sw_ctx w) codeDrift ''public surface differs from the reviewed baseline''
      [WithErrorTool ''surfacecheck'', WithErrorVersion (toolVersion (sw_version w)), WithErrorExitCode ExitValidation,
       WithActionableFix ''review the sorted drift and update source, audit, and baseline intentionally'',
       WithSuggestions suggestions, WithRetryable False])"

definition writeDocument :: "surface_world \<Rightarrow> any_value \<Rightarrow> surface_out" where
  "writeDocument w v =
    (case sw_marshal w v of
       Inl e \<Rightarrow> surface_failure w codeInternal ''unexpected internal failure encoding the result'' [] ExitInternal e
     | Inr payload \<Rightarrow>
         (case sw_stdout w (payload @ [nl]) of
            None \<Rightarrow> (ExitSuccess, [payload @ [nl]], [])
          | Some e \<Rightarrow>
              (case surface_failure w codeInternal ''unexpected internal failure writing the result'' [] ExitInternal e of
                 (exit, out, err) \<Rightarrow> (exit, (payload @ [nl]) # out, err))))"

definition readArtifact :: "surface_world \<Rightarrow> string \<Rightarrow> outside_error + string" where
  "readArtifact w path =
    (case sw_read w path of
       Inl e \<Rightarrow> Inl e
     | Inr data \<Rightarrow>
         if length data > maxArtifactBytes
         then Inl (False, TextError (''artifact exceeds '' @ itoa (int maxArtifactBytes) @ '' bytes'')) else Inr data)"

definition parseBaseline :: "surface_world \<Rightarrow> surfaceConfig \<Rightarrow> string \<Rightarrow> go_error + baselineDoc" where
  "parseBaseline w cfg data =
    (case sw_decode_baseline w data of
       Inl e \<Rightarrow> Inl e
     | Inr doc \<Rightarrow> (case validateBaseline (sw_isprint w) doc cfg of Some e \<Rightarrow> Inl (TextError e) | None \<Rightarrow> Inr doc))"

definition parseAudit :: "surface_world \<Rightarrow> string \<Rightarrow> go_error + auditDoc" where
  "parseAudit w data =
    (case sw_decode_audit w data of
       Inl e \<Rightarrow> Inl e
     | Inr doc \<Rightarrow> (case validateAudit (sw_isprint w) (sw_time_error w) doc of Some e \<Rightarrow> Inl (TextError e) | None \<Rightarrow> Inr doc))"

definition loadArtifact :: "surface_world \<Rightarrow> string \<Rightarrow> string \<Rightarrow> (string \<Rightarrow> go_error + 'a) \<Rightarrow> surface_out + 'a" where
  "loadArtifact w path label parse =
    (case readArtifact w (sw_at_dir w path) of
       Inl (permission, e) \<Rightarrow> Inl (
         if permission
         then surface_failure w codePermission (''permission denied reading the '' @ label @ '' artifact'')
           (''check read permissions on the '' @ label @ '' artifact'') ExitAuth e
         else surface_failure w codeArtifact (''the '' @ label @ '' artifact is missing or unreadable'')
           (''restore the reviewed '' @ label @ '' artifact or pass its path explicitly'') ExitValidation e)
     | Inr data \<Rightarrow>
         (case parse data of
            Inl e \<Rightarrow> Inl (surface_failure w codeArtifact (''the '' @ label @ '' artifact is malformed or schema-invalid'')
              (error_text (sw_isprint w) e) ExitValidation e)
          | Inr doc \<Rightarrow> Inr doc))"

definition loadArtifacts :: "surface_world \<Rightarrow> surfaceConfig \<Rightarrow> string \<Rightarrow> string \<Rightarrow> surface_out + baselineDoc \<times> auditDoc" where
  "loadArtifacts w cfg baseline_path audit_path =
    (case loadArtifact w (if baseline_path = [] then defaultBaselinePath else baseline_path) ''baseline'' (parseBaseline w cfg) of
       Inl out \<Rightarrow> Inl out
     | Inr base \<Rightarrow>
         (case loadArtifact w (if audit_path = [] then defaultAuditPath else audit_path) ''audit'' (parseAudit w) of
            Inl out \<Rightarrow> Inl out
          | Inr a \<Rightarrow> Inr (base, a)))"

section \<open>Scanning one combination\<close>

definition maxGoListBytes :: nat where "maxGoListBytes = 64 * 2 ^ 20"

record limitedWriter =
  lw_buf :: string
  lw_n :: nat
  lw_err :: "string option"

definition limited_write :: "nat \<Rightarrow> limitedWriter \<Rightarrow> string \<Rightarrow> limitedWriter" where
  "limited_write max_bytes l p =
    (if lw_n l + length p > max_bytes then l\<lparr>lw_err := Some (''output exceeds '' @ itoa (int max_bytes) @ '' bytes'')\<rparr>
     else l\<lparr>lw_buf := lw_buf l @ p, lw_n := lw_n l + length p\<rparr>)"

definition combinationEnv :: "string list \<Rightarrow> Profile \<Rightarrow> string list" where
  "combinationEnv environ p =
    filter (\<lambda>e. \<not> (has_prefix e ''GOOS='' \<or> has_prefix e ''GOARCH='' \<or> has_prefix e ''CGO_ENABLED='')) environ @
    [''GOOS='' @ pf_GOOS p, ''GOARCH='' @ pf_GOARCH p, ''CGO_ENABLED=0'']"

record go_listing =
  li_exports :: "(string \<times> string) list"
  li_files :: "(string \<times> string list) list"

definition add_listed :: "go_listing \<Rightarrow> listedPackage \<Rightarrow> go_listing" where
  "add_listed l lp =
    (let l' = (if lp_Export lp \<noteq> [] then l\<lparr>li_exports := AList.update (lp_ImportPath lp) (lp_Export lp) (li_exports l)\<rparr> else l) in
     if \<not> lp_DepOnly lp then l'\<lparr>li_files := AList.update (lp_ImportPath lp) (lp_GoFiles lp @ lp_CgoFiles lp) (li_files l')\<rparr> else l')"

definition goList :: "surface_world \<Rightarrow> Configuration \<Rightarrow> Profile \<Rightarrow> string list \<Rightarrow> outside_error + go_listing" where
  "goList w cfg p requested =
    (let args = [''list'', ''-deps'', ''-export'', ''-json''] @
           (if cn_Tags cfg \<noteq> [] then [''-tags='' @ str_join '','' (cn_Tags cfg)] else []) @ requested;
         (chunks, failure) = sw_go w args (combinationEnv (sw_environ w) p);
         limited = foldl (limited_write maxGoListBytes) \<lparr>lw_buf = [], lw_n = 0, lw_err = None\<rparr> chunks in
     case lw_err limited of
       Some e \<Rightarrow> Inl (False, TextError e)
     | None \<Rightarrow>
         (case failure of
            Some (permission, e) \<Rightarrow> Inl (permission, WrapError ''go list'' e)
          | None \<Rightarrow>
              (case sw_decode_list w (lw_buf limited) of
                 (lps, Some e) \<Rightarrow> Inl (False, WrapError ''decoding go list output'' e)
               | (lps, None) \<Rightarrow> Inr (foldl add_listed \<lparr>li_exports = [], li_files = []\<rparr> lps))))"

text \<open>\<^verbatim>\<open>collector.add\<close>: the first feature of an id stays.\<close>

definition collector_add :: "string \<Rightarrow> (string \<times> Feature) list \<Rightarrow> Feature \<Rightarrow> (string \<times> Feature) list" where
  "collector_add path feats f =
    (if map_of feats (ft_ID f) = None then feats @ [(ft_ID f, f\<lparr>ft_Package := path\<rparr>)] else feats)"

definition collectFeatures :: "string \<Rightarrow> Feature list \<Rightarrow> Feature list" where
  "collectFeatures path walked = sort_key ft_ID (map snd (foldl (collector_add path) [] walked))"

fun scan_packages :: "surface_world \<Rightarrow> string \<Rightarrow> go_listing \<Rightarrow> string list \<Rightarrow> outside_error + Feature list \<times> string list" where
  "scan_packages w root listing [] = Inr ([], [])"
| "scan_packages w root listing (path # paths) =
    (case map_of (li_files listing) path of
       None \<Rightarrow> Inl (False, TextError (''package '' @ path @ '' did not load''))
     | Some files \<Rightarrow>
         (case sw_walk w (map_of (li_exports listing)) path of
            Inl (permission, e) \<Rightarrow> Inl (permission, WrapError (''importing '' @ path) e)
          | Inr walked \<Rightarrow>
              (case scan_packages w root listing paths of
                 Inl e \<Rightarrow> Inl e
               | Inr (features, rest) \<Rightarrow>
                   Inr (collectFeatures path walked @ features, (if path = root then files else []) @ rest))))"

definition scanCombination :: "surface_world \<Rightarrow> Configuration \<Rightarrow> Profile \<Rightarrow> string list \<Rightarrow> outside_error + combinationScan" where
  "scanCombination w cfg p requested =
    (case goList w cfg p requested of
       Inl e \<Rightarrow> Inl e
     | Inr listing \<Rightarrow>
         (case scan_packages w (hd requested) listing requested of
            Inl e \<Rightarrow> Inl e
          | Inr (features, files) \<Rightarrow>
              Inr \<lparr>sn_combination = \<lparr>cb_Configuration = cn_Name cfg, cb_Profile = profile_string p\<rparr>,
                sn_features = sort_key feature_key features, sn_files = sort files\<rparr>))"

fun scan_all :: "surface_world \<Rightarrow> string list \<Rightarrow> (Configuration \<times> Profile) list \<Rightarrow> outside_error + combinationScan list" where
  "scan_all w packages [] = Inr []"
| "scan_all w packages ((c, p) # cps) =
    (case scanCombination w c p packages of
       Inl (permission, e) \<Rightarrow>
         Inl (permission, WrapError (''scanning '' @ combination_string \<lparr>cb_Configuration = cn_Name c, cb_Profile = profile_string p\<rparr>) e)
     | Inr s \<Rightarrow> (case scan_all w packages cps of Inl e \<Rightarrow> Inl e | Inr ss \<Rightarrow> Inr (s # ss)))"

definition scanAll :: "surface_world \<Rightarrow> surfaceConfig \<Rightarrow> outside_error + combinationScan list" where
  "scanAll w cfg = scan_all w (sc_Packages cfg) (List.product (sc_Configurations cfg) (sc_Profiles cfg))"

section \<open>The run\<close>

definition featureCount :: "baselineDoc \<Rightarrow> int" where
  "featureCount doc = sum_list (map (\<lambda>p. int (length (slice (pb_Features p)))) (slice (bd_Packages doc)))"

definition audit_json :: "auditDoc \<Rightarrow> any_value" where
  "audit_json a = ObjVal
    [(''schema_version'', IntVal (ad_SchemaVersion a)), (''audited_at'', StrVal (ad_AuditedAt a)),
     (''records'', case ad_Records a of None \<Rightarrow> NullVal | Some rs \<Rightarrow> ListVal (map (\<lambda>r. ObjVal
        [(''id'', StrVal (ar_ID r)), (''kind'', StrVal (ar_Kind r)), (''owner'', StrVal (ar_Owner r)), (''name'', StrVal (ar_Name r)),
         (''signature'', StrVal (ar_Signature r)), (''classification'', StrVal (ar_Classification r)),
         (''rationale'', StrVal (ar_Rationale r)), (''disposition'', StrVal (ar_Disposition r)),
         (''internal_target'', StrVal (ar_InternalTarget r)), (''replacement'', StrVal (ar_Replacement r)),
         (''compatibility_strategy'', StrVal (ar_CompatibilityStrategy r)), (''lifecycle'', StrVal (ar_Lifecycle r)),
         (''first_published'', StrVal (ar_FirstPublished r)), (''deprecated_in'', StrVal (ar_DeprecatedIn r)),
         (''removed_in'', StrVal (ar_RemovedIn r)), (''downstream_checked_at'', StrVal (ar_DownstreamCheckedAt r)),
         (''downstream_evidence'', case ar_DownstreamEvidence r of None \<Rightarrow> NullVal | Some es \<Rightarrow> ListVal (map StrVal es))]) rs))]"

definition updateBaseline :: "surface_world \<Rightarrow> string \<Rightarrow> baselineDoc \<Rightarrow> surface_out" where
  "updateBaseline w path generated =
    (let target = sw_at_dir w (if path = [] then defaultBaselinePath else path) in
     case sw_marshal_indent w (baseline_json generated) of
       Inl e \<Rightarrow> surface_failure w codeInternal ''unexpected internal failure encoding the baseline'' [] ExitInternal e
     | Inr payload \<Rightarrow>
         (case sw_write w target (payload @ [nl]) of
            Some (permission, e) \<Rightarrow>
              if permission
              then surface_failure w codePermission ''permission denied writing the baseline artifact''
                ''check write permissions on the baseline artifact'' ExitAuth e
              else surface_failure w codeArtifact ''the baseline artifact could not be written''
                ''check that the baseline path is writable'' ExitValidation e
          | None \<Rightarrow> writeDocument w (ObjVal
              [(''status'', StrVal ''updated''), (''baseline'', StrVal target), (''features_written'', IntVal (featureCount generated))])))"

definition checkAgainstArtifacts ::
  "surface_world \<Rightarrow> surfaceConfig \<Rightarrow> Observation list \<Rightarrow> baselineDoc \<Rightarrow> auditDoc \<Rightarrow> combinationScan list \<Rightarrow> Combination list \<Rightarrow> go_error + DriftItem list" where
  "checkAgainstArtifacts w cfg invent base a scans universe =
    (case deprecationGaps (sw_parse_file w) a scans (config_root cfg) of
       Inl e \<Rightarrow> Inl e
     | Inr gaps \<Rightarrow> Inr (diffBaseline invent base universe (config_root cfg) @ crossValidateAudit base a (config_root cfg) @ gaps))"

record surface_flags =
  fl_list :: bool
  fl_seed :: bool
  fl_update :: bool
  fl_baseline :: string
  fl_audit :: string
  fl_args :: "string list"

definition gate_json :: "surfaceConfig \<Rightarrow> Observation list \<Rightarrow> auditDoc \<Rightarrow> any_value" where
  "gate_json cfg invent a = ObjVal
    [(''status'', StrVal ''pass''), (''features_checked'', IntVal (int (length invent))),
     (''audit_records_checked'', IntVal (int (length (slice (ad_Records a))))),
     (''packages_checked'', IntVal (int (length (sc_Packages cfg)))),
     (''configurations_checked'', IntVal (int (length (sc_Configurations cfg)))),
     (''profiles_checked'', IntVal (int (length (sc_Profiles cfg))))]"

text \<open>What follows the loading of the artifacts, if they are needed.\<close>

definition surface_scan_phase :: "surface_world \<Rightarrow> surfaceConfig \<Rightarrow> surface_flags \<Rightarrow> (baselineDoc \<times> auditDoc) option \<Rightarrow> surface_out" where
  "surface_scan_phase w cfg fl artifacts =
    (case scanAll w cfg of
       Inl (permission, e) \<Rightarrow>
         if permission
         then surface_failure w codePermission ''permission denied executing the required tooling''
           ''check execute and read permissions on the Go toolchain and module'' ExitAuth e
         else surface_failure w codeInternal ''unexpected internal failure scanning the public surface'' [] ExitInternal e
     | Inr scans \<Rightarrow>
         let universe = DefaultCombinations (sc_Configurations cfg) (sc_Profiles cfg);
             (invent, drift) = reconcile scans (config_root cfg) in
         if drift \<noteq> [] then emitDrift w (suggestionsOf drift)
         else if fl_seed fl then writeDocument w (audit_json (seedAudit invent (config_root cfg)))
         else
           (case baselineFromInventory invent cfg universe of
              (None, unfact) \<Rightarrow> emitDrift w (suggestionsOf unfact)
            | (Some generated, _) \<Rightarrow>
                if fl_list fl then writeDocument w (baseline_json generated)
                else if fl_update fl then updateBaseline w (fl_baseline fl) generated
                else
                  (case artifacts of
                     None \<Rightarrow> (ExitSuccess, [], [])
                   | Some (base, a) \<Rightarrow>
                       (case checkAgainstArtifacts w cfg invent base a scans universe of
                          Inl e \<Rightarrow> surface_failure w codeInternal ''unexpected internal failure checking deprecation notices'' [] ExitInternal e
                        | Inr gaps \<Rightarrow>
                            if gaps \<noteq> [] then emitDrift w (suggestionsOf gaps)
                            else writeDocument w (gate_json cfg invent a)))))"

definition run_surfacecheck :: "surface_world \<Rightarrow> surfaceConfig \<Rightarrow> go_error + surface_flags \<Rightarrow> surface_out" where
  "run_surfacecheck w config parsed =
    (case parsed of
       Inl e \<Rightarrow> surface_failure w codeArtifact ''invalid surfacecheck flags''
         (''fix the command line: '' @ error_text (sw_isprint w) e) ExitValidation e
     | Inr fl \<Rightarrow>
         if fl_args fl \<noteq> [] then
           surface_failure w codeArtifact ''invalid surfacecheck arguments'' ''remove the positional arguments'' ExitValidation
             (TextError (''unexpected positional arguments: '' @ str_join '' '' (fl_args fl)))
         else
           let cfg = resolve_config config in
           if fl_list fl \<or> fl_seed fl \<or> fl_update fl then surface_scan_phase w cfg fl None
           else
             (case loadArtifacts w cfg (fl_baseline fl) (fl_audit fl) of
                Inl out \<Rightarrow> out
              | Inr arts \<Rightarrow> surface_scan_phase w cfg fl (Some arts)))"

section \<open>Lemmas: the audit\<close>

lemma concat_map_Nil: "concat (map f xs) = [] \<longleftrightarrow> (\<forall>x \<in> set xs. f x = [])"
  by (induction xs) simp_all

lemma crossValidate_Nil:
  "crossValidateAudit base a root = [] \<longleftrightarrow>
    set (map bf_ID (rootFeatures base root)) = set (audit_active a) \<and> set (audit_active a) \<inter> set (audit_removed a) = {}"
proof -
  define ids act rmv where "ids = map bf_ID (rootFeatures base root)" and "act = audit_active a" and "rmv = audit_removed a"
  have "crossValidateAudit base a root = [] \<longleftrightarrow> (\<forall>i \<in> set ids. i \<notin> set rmv \<and> i \<in> set act) \<and> (\<forall>i \<in> set act. i \<in> set ids)"
    unfolding crossValidateAudit_def Let_def sortDrift_Nil append_is_Nil_conv concat_map_Nil map_is_Nil_conv filter_empty_conv
      ids_def [symmetric] act_def [symmetric] rmv_def [symmetric]
    by (rule arg_cong2 [where f = "(\<and>)"], rule ball_cong) simp_all
  then show ?thesis unfolding ids_def [symmetric] act_def [symmetric] rmv_def [symmetric] by blast
qed

lemma first_error_None: "first_error es = None \<longleftrightarrow> list_all (\<lambda>e. e = None) es"
  by (induction es) (auto simp: first_error_def)

lemma validateRecord_None:
  "validateRecord isprint time_error r = None \<longleftrightarrow>
    validateRecordIdentity isprint r = None \<and> validateRecordDates isprint time_error r = None \<and> validateRecordEvidence r = None \<and>
    validateClassification isprint r = None \<and> validateLifecycle isprint r = None"
  by (simp add: validateRecord_def first_error_None)

lemma check_records_iff:
  "check_records isprint time_error i prev rs = None \<longleftrightarrow>
    (\<forall>r \<in> set rs. validateRecord isprint time_error r = None) \<and>
    sorted_wrt (<) (case prev of Some p \<Rightarrow> p # map ar_ID rs | None \<Rightarrow> map ar_ID rs)"
  by (induction isprint time_error i prev rs rule: check_records.induct)
    (auto split: option.splits simp: not_le intro: less_trans)

lemma validateAudit_iff:
  "validateAudit isprint time_error a = None \<longleftrightarrow>
    ad_SchemaVersion a = 1 \<and> full_date (ad_AuditedAt a) \<and> ad_Records a \<noteq> None \<and>
    (\<forall>r \<in> set (slice (ad_Records a)). validateRecord isprint time_error r = None) \<and> sorted_wrt (<) (map ar_ID (slice (ad_Records a)))"
  by (auto simp: validateAudit_def check_records_iff slice_def split: option.splits)

lemma audit_disjoint:
  assumes "validateAudit isprint time_error a = None"
  shows "set (audit_active a) \<inter> set (audit_removed a) = {}"
proof -
  have "distinct (map ar_ID (slice (ad_Records a)))"
    using assms by (auto simp: validateAudit_iff strict_sorted_iff)
  then show ?thesis by (auto simp: audit_active_def audit_removed_def distinct_map inj_on_def)
qed

lemma lifecycle_rules:
  assumes "validateLifecycle isprint r = None"
  shows "ar_RemovedIn r \<noteq> [] \<longleftrightarrow> ar_Lifecycle r = lifecycleRemoved"
    and "ar_DeprecatedIn r \<noteq> [] \<longleftrightarrow> ar_Lifecycle r \<in> {lifecycleRemovable, lifecycleRemoved}"
  using assms by (auto simp: validateLifecycle_def lifecycle_defs split: if_splits)

lemma presence_roundtrip:
  assumes "ps_validate isprint s universe = None"
  shows "presence_unmarshal isprint json_error (presence_json s) = Inr s"
proof -
  have "those (map (json_string \<circ> StrVal) vs) = Some vs" for vs
    by (induction vs) (simp_all add: json_string_def)
  then show ?thesis using assms
    by (cases s) (auto simp: presence_unmarshal_def presence_json_def json_string_def json_strings_def ps_validate_iff split: if_splits)
qed

section \<open>Lemmas: the run\<close>

lemma write_envelope_exit: "exit \<noteq> ExitSuccess \<Longrightarrow> fst (write_envelope w exit env) \<noteq> ExitSuccess"
  by (simp add: write_envelope_def ExitInternal_def ExitSuccess_def split: prod.splits)

lemma surface_failure_exit: "exit \<noteq> ExitSuccess \<Longrightarrow> fst (surface_failure w errcode message suggestion exit cause) \<noteq> ExitSuccess"
  by (simp add: surface_failure_def write_envelope_exit)

lemma exits: "ExitInternal \<noteq> ExitSuccess" "ExitValidation \<noteq> ExitSuccess" "ExitAuth \<noteq> ExitSuccess"
  by (simp_all add: exit_defs)

lemma emitDrift_exit: "fst (emitDrift w suggestions) \<noteq> ExitSuccess"
  unfolding emitDrift_def by (rule write_envelope_exit) (rule exits)

lemma loadArtifact_exit: "loadArtifact w path label parse = Inl out \<Longrightarrow> fst out \<noteq> ExitSuccess"
  by (auto simp: loadArtifact_def surface_failure_exit exits split: sum.splits prod.splits if_splits)

lemma loadArtifacts_exit: "loadArtifacts w cfg b a = Inl out \<Longrightarrow> fst out \<noteq> ExitSuccess"
  by (auto simp: loadArtifacts_def split: sum.splits dest: loadArtifact_exit)

lemma loadArtifacts_valid:
  assumes "loadArtifacts w cfg b p = Inr (base, a)"
  shows "validateBaseline (sw_isprint w) base cfg = None" and "validateAudit (sw_isprint w) (sw_time_error w) a = None"
  using assms by (auto simp: loadArtifacts_def loadArtifact_def parseBaseline_def parseAudit_def split: sum.splits prod.splits option.splits)

lemma scan_all_combos:
  "scan_all w packages cps = Inr scans \<Longrightarrow>
    map sn_combination scans = map (\<lambda>(c, p). \<lparr>cb_Configuration = cn_Name c, cb_Profile = profile_string p\<rparr>) cps"
  by (induction w packages cps arbitrary: scans rule: scan_all.induct)
    (auto simp: scanCombination_def split: sum.splits prod.splits)

lemma scanAll_combos:
  assumes "scanAll w cfg = Inr scans"
  shows "map sn_combination scans = DefaultCombinations (sc_Configurations cfg) (sc_Profiles cfg)"
  using scan_all_combos [OF assms [unfolded scanAll_def]]
  by (simp add: DefaultCombinations_def product_concat_map map_concat comp_def)

section \<open>Properties\<close>

text \<open>Every deprecated or removable record has its notice in every scanned combination.\<close>

definition notices_present :: "auditDoc \<Rightarrow> deprecationProfile list \<Rightarrow> bool" where
  "notices_present a profiles \<longleftrightarrow>
    list_all (\<lambda>r. ar_Lifecycle r \<in> {lifecycleDeprecated, lifecycleRemovable} \<longrightarrow>
      list_all (\<lambda>p. declaration_id (ar_ID r) p \<in> set (dp_deprecated p)) profiles) (slice (ad_Records a))"

lemma gaps_Nil:
  "deprecationGaps parse_file a scans root = Inr [] \<longleftrightarrow>
    (\<exists>profiles. deprecationProfiles parse_file root scans = Inr profiles \<and> notices_present a profiles)"
  by (auto simp: deprecationGaps_def notices_present_def deprecationMissing_def filter_empty_conv list_all_iff list_ex_iff split: sum.splits)

definition check_only :: "surface_flags \<Rightarrow> bool" where
  "check_only fl \<longleftrightarrow> \<not> fl_list fl \<and> \<not> fl_seed fl \<and> \<not> fl_update fl"

lemma generated_drift: "baselineFromInventory invent cfg universe = (Some doc, ds) \<Longrightarrow> ds = []"
  by (auto simp: baselineFromInventory_def Let_def split: if_splits)

lemma scan_phase_exit:
  assumes "check_only fl" and "scanAll w cfg = Inr scans"
  shows "fst (surface_scan_phase w cfg fl (Some (base, a))) = ExitSuccess \<longleftrightarrow>
    (\<exists>invent doc. reconcile scans (config_root cfg) = (invent, []) \<and>
      baselineFromInventory invent cfg (DefaultCombinations (sc_Configurations cfg) (sc_Profiles cfg)) = (Some doc, []) \<and>
      diffBaseline invent base (DefaultCombinations (sc_Configurations cfg) (sc_Profiles cfg)) (config_root cfg) = [] \<and>
      crossValidateAudit base a (config_root cfg) = [] \<and>
      deprecationGaps (sw_parse_file w) a scans (config_root cfg) = Inr [] \<and>
      fst (writeDocument w (gate_json cfg invent a)) = ExitSuccess)"
proof -
  obtain invent drift where rec: "reconcile scans (config_root cfg) = (invent, drift)" by fastforce
  let ?u = "DefaultCombinations (sc_Configurations cfg) (sc_Profiles cfg)"
  obtain generated unfact where gen: "baselineFromInventory invent cfg ?u = (generated, unfact)" by fastforce
  have "generated = Some doc \<Longrightarrow> unfact = []" for doc using gen generated_drift by simp
  then show ?thesis using assms
    by (cases "drift = []"; cases generated; cases "deprecationGaps (sw_parse_file w) a scans (config_root cfg)")
      (auto simp: surface_scan_phase_def rec gen checkAgainstArtifacts_def check_only_def emitDrift_exit surface_failure_exit exits Let_def)
qed

text \<open>
  C30. The command in its default mode exits with 0 exactly when both artifacts load, every
  combination scans, the scans agree with the baseline, the root package's recorded ids
  are the active ids of the audit, every deprecated or removable record has its notice,
  and the result could be written.
\<close>

theorem surface_gate_exact:
  assumes "check_only fl"
  shows "fst (run_surfacecheck w \<lparr>sc_Configurations = [], sc_Profiles = [], sc_Packages = []\<rparr> (Inr fl)) = ExitSuccess \<longleftrightarrow>
    fl_args fl = [] \<and>
    (\<exists>base a scans profiles.
      loadArtifacts w main_config (fl_baseline fl) (fl_audit fl) = Inr (base, a) \<and>
      scanAll w main_config = Inr scans \<and>
      surface_matches main_universe base scans \<and>
      set (map bf_ID (rootFeatures base surface_root)) = set (audit_active a) \<and>
      deprecationProfiles (sw_parse_file w) surface_root scans = Inr profiles \<and> notices_present a profiles \<and>
      fst (writeDocument w (gate_json main_config (fst (reconcile scans surface_root)) a)) = ExitSuccess)"
    (is "?run \<longleftrightarrow> fl_args fl = [] \<and> ?ok")
proof (cases "fl_args fl = []")
  case False
  then show ?thesis by (simp add: run_surfacecheck_def surface_failure_exit exits)
next
  case True
  have root: "config_root main_config = surface_root"
    by (simp add: config_root_def main_config_fields PublicPackages_def)
  show ?thesis
  proof (cases "loadArtifacts w main_config (fl_baseline fl) (fl_audit fl)")
    case (Inl out)
    then show ?thesis using True assms loadArtifacts_exit [OF Inl]
      by (simp add: run_surfacecheck_def Let_def check_only_def main_config_def [symmetric])
  next
    case (Inr arts)
    obtain base a where arts: "arts = (base, a)" by (cases arts)
    have run: "?run \<longleftrightarrow> fst (surface_scan_phase w main_config fl (Some (base, a))) = ExitSuccess"
      using True assms Inr by (simp add: run_surfacecheck_def Let_def check_only_def main_config_def [symmetric] arts)
    show ?thesis
    proof (cases "scanAll w main_config")
      case Inl': (Inl e)
      then show ?thesis using True by (cases e) (auto simp: run surface_scan_phase_def surface_failure_exit exits)
    next
      case scans: (Inr scans)
      have combos: "sn_combination ` set scans \<subseteq> set main_universe"
        using scanAll_combos [OF scans] by (metis list.set_map order_refl)
      have active: "crossValidateAudit base a surface_root = [] \<longleftrightarrow> set (map bf_ID (rootFeatures base surface_root)) = set (audit_active a)"
        using audit_disjoint [OF loadArtifacts_valid(2) [OF Inr [unfolded arts]]] by (auto simp: crossValidate_Nil)
      let ?fine = "\<lambda>invent. fst (writeDocument w (gate_json main_config invent a)) = ExitSuccess"
      have "(\<exists>invent doc. reconcile scans surface_root = (invent, []) \<and> baselineFromInventory invent main_config main_universe = (Some doc, []) \<and>
          diffBaseline invent base main_universe surface_root = [] \<and> ?fine invent) \<longleftrightarrow>
        surface_matches main_universe base scans \<and> ?fine (fst (reconcile scans surface_root))"
        using matches_generated [OF combos, of base surface_root] diff_matches [OF _ combos, of surface_root _ base] by fastforce
      then have "?run \<longleftrightarrow> surface_matches main_universe base scans \<and> ?fine (fst (reconcile scans surface_root)) \<and>
          set (map bf_ID (rootFeatures base surface_root)) = set (audit_active a) \<and>
          deprecationGaps (sw_parse_file w) a scans surface_root = Inr []"
        unfolding run scan_phase_exit [OF assms scans] root active by blast
      then show ?thesis using True by (simp add: Inr arts scans gaps_Nil) blast
    qed
  qed
qed

definition demo_feature :: Feature where
  "demo_feature = \<lparr>ft_Package = [], ft_ID = ''func:F'', ft_Kind = kindFunc, ft_Owner = [], ft_Name = ''F'',
     ft_Signature = ''func()'', ft_Access = ''direct'', ft_sourceID = []\<rparr>"

definition demo_record :: auditRecord where
  "demo_record = \<lparr>ar_ID = ''func:F'', ar_Kind = kindFunc, ar_Owner = [], ar_Name = ''F'', ar_Signature = ''func()'',
     ar_Classification = ''supported'', ar_Rationale = ''r'', ar_Disposition = ''keep-public'', ar_InternalTarget = [], ar_Replacement = [],
     ar_CompatibilityStrategy = [], ar_Lifecycle = ''live'', ar_FirstPublished = ''v0.1.0'', ar_DeprecatedIn = [], ar_RemovedIn = [],
     ar_DownstreamCheckedAt = [], ar_DownstreamEvidence = None\<rparr>"

definition demo_base :: baselineDoc where
  "demo_base = \<lparr>bd_SchemaVersion = 2, bd_Packages = Some (map (\<lambda>p. \<lparr>pb_Path = p, pb_Features =
     Some (if p = surface_root then [\<lparr>bf_ID = ''func:F'', bf_Signature = ''func()'',
       bf_Configurations = \<lparr>ps_All = True, ps_Values = []\<rparr>, bf_Profiles = \<lparr>ps_All = True, ps_Values = []\<rparr>\<rparr>] else [])\<rparr>) PublicPackages)\<rparr>"

definition demo_audit :: auditDoc where
  "demo_audit = \<lparr>ad_SchemaVersion = 1, ad_AuditedAt = ''2024-02-29'', ad_Records = Some [demo_record]\<rparr>"

definition demo_world :: surface_world where
  "demo_world = \<lparr>sw_isprint = (\<lambda>_. True), sw_time_error = (\<lambda>s. s), sw_marshal = (\<lambda>_. Inr ''{}''), sw_marshal_indent = (\<lambda>_. Inr ''{}''),
     sw_decode_baseline = (\<lambda>_. Inr demo_base), sw_decode_audit = (\<lambda>_. Inr demo_audit),
     sw_stdout = (\<lambda>_. None), sw_stderr = (\<lambda>_. None), sw_read = (\<lambda>_. Inr ''{}''), sw_write = (\<lambda>_ _. None), sw_at_dir = (\<lambda>p. p),
     sw_environ = [''GOOS=plan9''], sw_go = (\<lambda>_ _. ([''{}''], None)),
     sw_decode_list = (\<lambda>_. (map (\<lambda>p. \<lparr>lp_ImportPath = p, lp_Export = ''x'', lp_DepOnly = False, lp_GoFiles = [''a.go''], lp_CgoFiles = []\<rparr>) PublicPackages, None)),
     sw_walk = (\<lambda>_ p. Inr (if p = surface_root then [demo_feature] else [])), sw_parse_file = (\<lambda>_. Inr []), sw_version = None, sw_ctx = None\<rparr>"

definition demo_flags :: surface_flags where
  "demo_flags = \<lparr>fl_list = False, fl_seed = False, fl_update = False, fl_baseline = [], fl_audit = [], fl_args = []\<rparr>"

lemma demo_load: "loadArtifacts demo_world main_config (fl_baseline demo_flags) (fl_audit demo_flags) = Inr (demo_base, demo_audit)"
proof -
  have "validateBaseline (sw_isprint demo_world) demo_base main_config = None"
    by (simp add: validateBaseline_def demo_base_def baselineSchemaVersion_def main_config_fields)
      (rule check_packages_map, rule check_features_None, auto simp: ps_validate_def)
  moreover have "validateAudit (sw_isprint demo_world) (sw_time_error demo_world) demo_audit = None"
    by code_simp
  ultimately show ?thesis
    by (simp add: loadArtifacts_def loadArtifact_def readArtifact_def parseBaseline_def parseAudit_def maxArtifactBytes_def
        demo_world_def demo_flags_def)
qed

lemma demo_listing:
  "goList demo_world c p PublicPackages =
    Inr \<lparr>li_exports = map (\<lambda>p. (p, ''x'')) PublicPackages, li_files = map (\<lambda>p. (p, [''a.go''])) PublicPackages\<rparr>"
  by (simp add: goList_def demo_world_def limited_write_def maxGoListBytes_def add_listed_def PublicPackages_def Let_def)

lemma demo_packages:
  "scan_packages demo_world surface_root \<lparr>li_exports = map (\<lambda>p. (p, ''x'')) PublicPackages, li_files = map (\<lambda>p. (p, [''a.go''])) PublicPackages\<rparr> PublicPackages =
    Inr ([demo_feature\<lparr>ft_Package := surface_root\<rparr>], [''a.go''])"
  by (simp add: demo_world_def PublicPackages_def collectFeatures_def collector_add_def)

lemma demo_scan:
  "scanCombination demo_world c p PublicPackages =
    Inr \<lparr>sn_combination = \<lparr>cb_Configuration = cn_Name c, cb_Profile = profile_string p\<rparr>,
      sn_features = [demo_feature\<lparr>ft_Package := surface_root\<rparr>], sn_files = [''a.go'']\<rparr>"
proof -
  have "hd PublicPackages = surface_root" by (simp add: PublicPackages_def)
  then show ?thesis by (simp add: scanCombination_def demo_listing demo_packages)
qed

lemma demo_all_scans:
  "scan_all demo_world PublicPackages cps = Inr (map (\<lambda>(c, p). \<lparr>sn_combination = \<lparr>cb_Configuration = cn_Name c, cb_Profile = profile_string p\<rparr>,
      sn_features = [demo_feature\<lparr>ft_Package := surface_root\<rparr>], sn_files = [''a.go'']\<rparr>) cps)"
  by (induction cps) (auto simp: demo_scan)

lemma demo_matches:
  assumes "map sn_combination scans = main_universe" and "\<forall>s \<in> set scans. sn_features s = [demo_feature\<lparr>ft_Package := surface_root\<rparr>]"
  shows "surface_matches main_universe demo_base scans"
proof -
  let ?F = "demo_feature\<lparr>ft_Package := surface_root\<rparr>"
  have base: "base_map demo_base = [((surface_root, ''func:F''), \<lparr>bf_ID = ''func:F'', bf_Signature = ''func()'',
      bf_Configurations = \<lparr>ps_All = True, ps_Values = []\<rparr>, bf_Profiles = \<lparr>ps_All = True, ps_Values = []\<rparr>\<rparr>)]"
    by (simp add: base_map_def demo_base_def slice_def PublicPackages_def)
  have obs: "observations scans = map (\<lambda>c. (c, ?F)) main_universe"
    using assms(2) unfolding assms(1) [symmetric] by (induction scans) (simp_all add: observations_def)
  have "main_universe \<noteq> []"
    by (simp add: DefaultCombinations_def main_config_fields DefaultConfigurations_def DefaultProfiles_def)
  moreover have "seen_at (observations scans) k = (if k = (surface_root, ''func:F'') then set main_universe else {})" for k
    by (auto simp: obs seen_at_def feature_key_def demo_feature_def image_iff)
  moreover have "ft_Signature f = ''func()''" if "(c, f) \<in> set (observations scans)" for c f
    using that by (auto simp: obs demo_feature_def)
  ultimately show ?thesis
    unfolding surface_matches_def base by (auto simp: ps_contains_def)
qed

lemma demo_profiles:
  "\<exists>profiles. deprecationProfiles (sw_parse_file demo_world) root scans = Inr profiles"
proof -
  have "deprecatedDecls (sw_parse_file demo_world) names = Inr []" for names
    by (induction names) (simp_all add: demo_world_def collectDeprecatedDecls_def)
  then show ?thesis by (induction scans) auto
qed

theorem surface_gate_exact_witness:
  "fst (run_surfacecheck demo_world \<lparr>sc_Configurations = [], sc_Profiles = [], sc_Packages = []\<rparr> (Inr demo_flags)) = ExitSuccess"
proof -
  have flags: "check_only demo_flags" "fl_args demo_flags = []" by (simp_all add: check_only_def demo_flags_def)
  obtain scans where scans: "scanAll demo_world main_config = Inr scans"
      "map sn_combination scans = main_universe" "\<forall>s \<in> set scans. sn_features s = [demo_feature\<lparr>ft_Package := surface_root\<rparr>]"
    using scanAll_combos [of demo_world main_config]
    by (auto simp: scanAll_def main_config_fields demo_all_scans)
  obtain profiles where "deprecationProfiles (sw_parse_file demo_world) surface_root scans = Inr profiles"
    using demo_profiles by blast
  moreover have "notices_present demo_audit profiles"
    by (simp add: notices_present_def demo_audit_def demo_record_def slice_def lifecycle_defs)
  moreover have "set (map bf_ID (rootFeatures demo_base surface_root)) = set (audit_active demo_audit)"
    by (simp add: rootFeatures_def demo_base_def slice_def PublicPackages_def audit_active_def demo_audit_def demo_record_def lifecycle_defs)
  moreover have "fst (writeDocument demo_world (gate_json main_config x demo_audit)) = ExitSuccess" for x
    by (simp add: writeDocument_def demo_world_def)
  ultimately show ?thesis
    using surface_gate_exact [OF flags(1), of demo_world] flags(2) demo_load scans(1) demo_matches [OF scans(2,3)] by blast
qed

end
