(* ===== verification/Surface_Fields.thy ===== *)
theory Surface_Fields
  imports Ax_Prelude
begin

text \<open>
  The breadth-first search of \<^verbatim>\<open>src/internal/cmd/surfacecheck/inventory.go\<close> for the fields a
  struct type makes selectable (\<^verbatim>\<open>fields\<close>, \<^verbatim>\<open>fieldFrame\<close>). The lemmas compare it with Go's rule:
  a selector denotes the one field of its name at the shallowest depth that has any.
\<close>

section \<open>The search\<close>

text \<open>
  The struct types of a package by number, each with its fields; \<^verbatim>\<open>sf_Object\<close> is the identity of the field,
  \<^verbatim>\<open>sf_struct\<close> the struct type its type resolves to, if it does.
\<close>

record struct_field =
  sf_Object :: nat
  sf_Name :: string
  sf_Anonymous :: bool
  sf_Exported :: bool
  sf_struct :: "nat option"

type_synonym structs = "(nat \<times> struct_field list) list"

definition struct_fields :: "structs \<Rightarrow> nat \<Rightarrow> struct_field list" where
  "struct_fields g s = (case map_of g s of Some fs \<Rightarrow> fs | None \<Rightarrow> [])"

definition underlyingStruct :: "structs \<Rightarrow> struct_field \<Rightarrow> nat option" where
  "underlyingStruct g f = (case sf_struct f of Some s \<Rightarrow> (if s \<in> fst ` set g then Some s else None) | None \<Rightarrow> None)"

definition frame_field ::
  "string list \<Rightarrow> (string \<times> struct_field) list \<times> (string \<Rightarrow> nat) \<Rightarrow> struct_field \<Rightarrow> (string \<times> struct_field) list \<times> (string \<Rightarrow> nat)" where
  "frame_field emitted cc f =
    (case cc of (candidates, counts) \<Rightarrow>
       if \<not> sf_Exported f \<or> sf_Name f \<in> set emitted then (candidates, counts)
       else (if counts (sf_Name f) = 0 then candidates @ [(sf_Name f, f)] else candidates, counts(sf_Name f := counts (sf_Name f) + 1)))"

definition embedded_next :: "structs \<Rightarrow> nat list \<Rightarrow> nat \<Rightarrow> nat list" where
  "embedded_next g seen s = concat (map (\<lambda>f.
     if sf_Anonymous f then (case underlyingStruct g f of Some i \<Rightarrow> (if i \<in> set seen then [] else [i]) | None \<Rightarrow> []) else []) (struct_fields g s))"

definition fieldFrame ::
  "structs \<Rightarrow> nat list \<Rightarrow> string list \<Rightarrow> nat list \<Rightarrow> (string \<times> struct_field) list \<times> (string \<Rightarrow> nat) \<times> nat list" where
  "fieldFrame g frontier emitted seen =
    (case foldl (frame_field emitted) ([], \<lambda>_. 0) (concat (map (struct_fields g) frontier)) of
       (candidates, counts) \<Rightarrow> (candidates, counts, concat (map (embedded_next g seen) frontier)))"

definition frame_emits :: "(string \<times> struct_field) list \<Rightarrow> (string \<Rightarrow> nat) \<Rightarrow> (string \<times> struct_field) list" where
  "frame_emits candidates counts = filter (\<lambda>(n, f). \<not> counts n > 1) candidates"

lemma embedded_next_fresh: "i \<in> set (embedded_next g seen s) \<Longrightarrow> i \<in> fst ` set g - set seen"
  by (auto simp: embedded_next_def underlyingStruct_def split: option.splits if_splits)

function search_fields :: "structs \<Rightarrow> string list \<Rightarrow> nat list \<Rightarrow> nat list \<Rightarrow> nat \<Rightarrow> (string \<times> struct_field \<times> nat) list" where
  "search_fields g emitted seen frontier depth =
    (if frontier = [] then []
     else
       (case fieldFrame g frontier emitted seen of
          (candidates, counts, next_frontier) \<Rightarrow>
            map (\<lambda>(n, f). (n, f, depth)) (frame_emits candidates counts) @
            search_fields g (map fst (frame_emits candidates counts) @ emitted) (next_frontier @ seen) next_frontier (Suc depth)))"
  by pat_completeness auto
termination
proof (relation "measure (\<lambda>(g, emitted, seen, frontier, depth). 2 * card (fst ` set g - set seen) + (if frontier = [] then 0 else 1))")
  fix g emitted seen frontier depth candidates y counts next_frontier
  assume f: "frontier \<noteq> []" and "(candidates, y) = fieldFrame g frontier emitted seen" "(counts, next_frontier) = y"
  then have "next_frontier = concat (map (embedded_next g seen) frontier)"
    by (auto simp: fieldFrame_def split: prod.splits)
  then have sub: "set next_frontier \<subseteq> fst ` set g - set seen" using embedded_next_fresh by fastforce
  have "card (fst ` set g - set (next_frontier @ seen)) < card (fst ` set g - set seen)" if ne: "next_frontier \<noteq> []"
  proof (rule psubset_card_mono)
    have "hd next_frontier \<in> set next_frontier" using ne by simp
    then show "fst ` set g - set (next_frontier @ seen) \<subset> fst ` set g - set seen" using sub by auto
  qed simp
  with f show "((g, map fst (frame_emits candidates counts) @ emitted, next_frontier @ seen, next_frontier, Suc depth),
      g, emitted, seen, frontier, depth) \<in> measure (\<lambda>(g, emitted, seen, frontier, depth). 2 * card (fst ` set g - set seen) + (if frontier = [] then 0 else 1))"
    by (cases "next_frontier = []") auto
qed simp

declare search_fields.simps [simp del]

definition selectable_fields :: "structs \<Rightarrow> nat \<Rightarrow> (string \<times> struct_field \<times> nat) list" where
  "selectable_fields g st = search_fields g [] [st] [st] 0"

definition accessDirect :: string where "accessDirect = ''direct''"
definition accessPromoted :: string where "accessPromoted = ''promoted''"

definition fieldAccess :: "string \<Rightarrow> nat \<Rightarrow> string" where
  "fieldAccess access depth = (if access \<noteq> [] then access else if depth = 0 then accessDirect else accessPromoted)"

section \<open>Lemmas: one frame\<close>

abbreviation named :: "string \<Rightarrow> struct_field list \<Rightarrow> struct_field list" where
  "named n fs \<equiv> filter (\<lambda>f. sf_Exported f \<and> sf_Name f = n) fs"

lemma frame_fold:
  assumes "foldl (frame_field emitted) ([], \<lambda>_. 0) fs = (candidates, counts)"
  shows "counts n = (if n \<in> set emitted then 0 else length (named n fs))"
    and "(n, f) \<in> set candidates \<longleftrightarrow> n \<notin> set emitted \<and> named n fs \<noteq> [] \<and> hd (named n fs) = f"
  using assms
proof (induction fs arbitrary: candidates counts rule: rev_induct)
  case (snoc x fs)
  obtain cs ct where old: "foldl (frame_field emitted) ([], \<lambda>_. 0) fs = (cs, ct)" by fastforce
  note IH = snoc.IH [OF old]
  {
    case 1
    then have "frame_field emitted (cs, ct) x = (candidates, counts)" using old by simp
    then show ?case using IH(1) unfolding frame_field_def by (auto split: if_splits)
  next
    case 2
    then have "frame_field emitted (cs, ct) x = (candidates, counts)" using old by simp
    then show ?case using IH unfolding frame_field_def by (cases "named n fs") (auto split: if_splits)
  }
qed auto

lemma frame_emits_iff:
  assumes "fieldFrame g frontier emitted seen = (candidates, counts, next_frontier)"
  shows "(n, f) \<in> set (frame_emits candidates counts) \<longleftrightarrow>
    n \<notin> set emitted \<and> named n (concat (map (struct_fields g) frontier)) = [f]"
proof -
  let ?fs = "concat (map (struct_fields g) frontier)"
  have fold: "foldl (frame_field emitted) ([], \<lambda>_. 0) ?fs = (candidates, counts)"
    using assms by (auto simp: fieldFrame_def split: prod.splits)
  have "(\<not> length (named n ?fs) > 1 \<and> named n ?fs \<noteq> [] \<and> hd (named n ?fs) = f) \<longleftrightarrow> named n ?fs = [f]"
    by (cases "named n ?fs" rule: list.exhaust; cases "tl (named n ?fs)") auto
  then show ?thesis using frame_fold [OF fold] by (auto simp: frame_emits_def)
qed

section \<open>Lemmas: depths\<close>

definition embeds :: "structs \<Rightarrow> nat \<Rightarrow> nat list" where
  "embeds g s = embedded_next g [] s"

text \<open>The struct types at a depth, once for each path of embedded fields that leads there.\<close>

fun struct_level :: "structs \<Rightarrow> nat \<Rightarrow> nat \<Rightarrow> nat list" where
  "struct_level g st 0 = [st]"
| "struct_level g st (Suc d) = concat (map (embeds g) (struct_level g st d))"

definition fields_at_depth :: "structs \<Rightarrow> nat \<Rightarrow> string \<Rightarrow> nat \<Rightarrow> struct_field list" where
  "fields_at_depth g st n d = named n (concat (map (struct_fields g) (struct_level g st d)))"

definition fresh :: "structs \<Rightarrow> nat \<Rightarrow> nat \<Rightarrow> nat list" where
  "fresh g st d = filter (\<lambda>s. s \<notin> (\<Union>i < d. set (struct_level g st i))) (struct_level g st d)"

definition new_at :: "structs \<Rightarrow> nat \<Rightarrow> string \<Rightarrow> nat \<Rightarrow> struct_field list" where
  "new_at g st n d = named n (concat (map (struct_fields g) (fresh g st d)))"

lemma embedded_next_filter: "embedded_next g seen s = filter (\<lambda>i. i \<notin> set seen) (embeds g s)"
  by (simp add: embeds_def embedded_next_def filter_concat comp_def if_distrib cong: option.case_cong if_cong)
    (auto intro!: arg_cong [where f = concat] split: option.splits)

lemma filter_concat_filter:
  assumes "\<And>x. x \<in> set xs \<Longrightarrow> \<not> Q x \<Longrightarrow> filter P (e x) = []"
  shows "filter P (concat (map e (filter Q xs))) = filter P (concat (map e xs))"
  using assms by (induction xs) auto

lemma fresh_Suc: "fresh g st (Suc d) = filter (\<lambda>s. s \<notin> (\<Union>i \<le> d. set (struct_level g st i))) (concat (map (embeds g) (fresh g st d)))"
proof -
  have "filter (\<lambda>s. s \<notin> (\<Union>i \<le> d. set (struct_level g st i))) (embeds g x) = []"
    if "x \<in> (\<Union>i < d. set (struct_level g st i))" for x
  proof -
    from that obtain i where "i < d" "x \<in> set (struct_level g st i)" by blast
    then have "set (embeds g x) \<subseteq> set (struct_level g st (Suc i))" "Suc i \<le> d" by auto
    then have "set (embeds g x) \<subseteq> (\<Union>i \<le> d. set (struct_level g st i))" by blast
    then show ?thesis by (auto simp: filter_empty_conv simp del: UN_iff)
  qed
  then show ?thesis
    unfolding fresh_def struct_level.simps lessThan_Suc_atMost by (intro filter_concat_filter [symmetric]) blast
qed

lemma fresh_Nil: "fresh g st d = [] \<Longrightarrow> d \<le> k \<Longrightarrow> fresh g st k = []"
  by (induction k) (auto simp: fresh_Suc le_Suc_eq)

lemma search_iff:
  assumes "frontier = fresh g st d" and "set seen = (\<Union>i \<le> d. set (struct_level g st i))"
  shows "(n, f, k) \<in> set (search_fields g emitted seen frontier d) \<longleftrightarrow>
    n \<notin> set emitted \<and> d \<le> k \<and> new_at g st n k = [f] \<and> (\<forall>i. d \<le> i \<and> i < k \<longrightarrow> length (new_at g st n i) \<noteq> 1)"
  using assms
proof (induction g emitted seen frontier d rule: search_fields.induct)
  case (1 g emitted seen frontier d)
  show ?case
  proof (cases "frontier = []")
    case True
    then have "new_at g st n k = []" if "d \<le> k" using 1(2) fresh_Nil [of g st d k] that by (simp add: new_at_def)
    then show ?thesis using True by (auto simp: search_fields.simps [of g emitted seen "[]" d])
  next
    case False
    obtain cs ct next_frontier where frame: "fieldFrame g frontier emitted seen = (cs, ct, next_frontier)"
      using prod_cases3 by blast
    have "next_frontier = concat (map (embedded_next g seen) frontier)"
      using frame by (auto simp: fieldFrame_def split: prod.splits)
    then have nf: "next_frontier = fresh g st (Suc d)"
      by (simp add: fresh_Suc embedded_next_filter [abs_def] 1(2) 1(3) filter_concat comp_def)
    have seen: "set (next_frontier @ seen) = (\<Union>i \<le> Suc d. set (struct_level g st i))"
    proof -
      have "set (struct_level g st (Suc d)) \<subseteq> set (fresh g st (Suc d)) \<union> (\<Union>i \<le> d. set (struct_level g st i))"
        by (auto simp: fresh_def lessThan_Suc_atMost)
      moreover have "set (fresh g st (Suc d)) \<subseteq> set (struct_level g st (Suc d))" by (auto simp: fresh_def)
      ultimately show ?thesis by (auto simp: nf 1(3) atMost_Suc)
    qed
    let ?em = "frame_emits cs ct"
    have em: "(n, f) \<in> set ?em \<longleftrightarrow> n \<notin> set emitted \<and> new_at g st n d = [f]" for n f
      using frame_emits_iff [OF frame] by (simp add: new_at_def 1(2))
    have names: "n \<in> set (map fst ?em) \<longleftrightarrow> n \<notin> set emitted \<and> length (new_at g st n d) = 1"
    proof -
      have "n \<in> set (map fst ?em) \<longleftrightarrow> (\<exists>f. (n, f) \<in> set ?em)" by force
      then show ?thesis by (auto simp: em length_Suc_conv)
    qed
    have IH: "(n, f, k) \<in> set (search_fields g (map fst ?em @ emitted) (next_frontier @ seen) next_frontier (Suc d)) \<longleftrightarrow>
        n \<notin> set (map fst ?em @ emitted) \<and> Suc d \<le> k \<and> new_at g st n k = [f] \<and> (\<forall>i. Suc d \<le> i \<and> i < k \<longrightarrow> length (new_at g st n i) \<noteq> 1)"
      using 1(1) [OF False frame [symmetric] refl nf seen] .
    have "(n, f, k) \<in> set (search_fields g emitted seen frontier d) \<longleftrightarrow>
        ((n, f) \<in> set ?em \<and> k = d) \<or> (n, f, k) \<in> set (search_fields g (map fst ?em @ emitted) (next_frontier @ seen) next_frontier (Suc d))"
      using False by (auto simp: search_fields.simps [of g emitted seen frontier] frame)
    also have "\<dots> \<longleftrightarrow> n \<notin> set emitted \<and> d \<le> k \<and> new_at g st n k = [f] \<and> (\<forall>i. d \<le> i \<and> i < k \<longrightarrow> length (new_at g st n i) \<noteq> 1)"
    proof -
      have "(\<forall>i. d \<le> i \<and> i < k \<longrightarrow> Q i) \<longleftrightarrow> (d < k \<longrightarrow> Q d) \<and> (\<forall>i. Suc d \<le> i \<and> i < k \<longrightarrow> Q i)" for Q
        by (metis Suc_le_eq le_neq_implies_less less_imp_le_nat order_refl)
      note split = this [of "\<lambda>i. length (new_at g st n i) \<noteq> 1"]
      have fresh_name: "n \<notin> set (map fst ?em @ emitted) \<longleftrightarrow> n \<notin> set emitted \<and> length (new_at g st n d) \<noteq> 1"
        using names by (simp only: set_append Un_iff) blast
      show ?thesis
      proof (cases "k = d")
        case True
        then show ?thesis unfolding IH em by simp
      next
        case False
        then have "d \<le> k \<longleftrightarrow> Suc d \<le> k" "d < k \<longleftrightarrow> Suc d \<le> k" by auto
        then show ?thesis unfolding IH em split fresh_name by (simp only: False simp_thms conj_ac cong: conj_cong)
      qed
    qed
    finally show ?thesis .
  qed
qed

lemma selectable_iff:
  "(n, f, k) \<in> set (selectable_fields g st) \<longleftrightarrow> new_at g st n k = [f] \<and> (\<forall>i < k. length (new_at g st n i) \<noteq> 1)"
  unfolding selectable_fields_def by (subst search_iff [of _ g st 0]) (simp_all add: fresh_def)

lemma new_at_shallow:
  assumes "\<And>i. i < d \<Longrightarrow> fields_at_depth g st n i = []"
  shows "new_at g st n d = fields_at_depth g st n d"
proof -
  have "named n (struct_fields g x) = []" if "x \<in> (\<Union>i < d. set (struct_level g st i))" for x
  proof -
    from that obtain i where i: "i < d" "x \<in> set (struct_level g st i)" by blast
    have "named n (concat (map (struct_fields g) (struct_level g st i))) = []"
      using assms [OF i(1)] by (simp add: fields_at_depth_def)
    with i(2) show ?thesis by (auto simp: filter_empty_conv)
  qed
  then show ?thesis unfolding new_at_def fresh_def fields_at_depth_def by (intro filter_concat_filter) blast
qed

section \<open>Properties\<close>

text \<open>Go's rule for the fields: exactly one field of the name at the shallowest depth that has any.\<close>

definition go_selects :: "structs \<Rightarrow> nat \<Rightarrow> string \<Rightarrow> struct_field \<Rightarrow> nat \<Rightarrow> bool" where
  "go_selects g st n f d \<longleftrightarrow> fields_at_depth g st n d = [f] \<and> (\<forall>i < d. fields_at_depth g st n i = [])"


text \<open>
  The remaining case is real: \<^verbatim>\<open>T\<close> embeds \<^verbatim>\<open>A\<close> and \<^verbatim>\<open>B\<close>, which both have a field \<^verbatim>\<open>X\<close>, and \<^verbatim>\<open>A\<close> embeds \<^verbatim>\<open>D\<close>,
  which has one too. Go rejects \<^verbatim>\<open>T.X\<close> as ambiguous; the search lists \<^verbatim>\<open>D\<close>'s field for it.
\<close>

definition plain_field :: "string \<Rightarrow> struct_field" where
  "plain_field n = \<lparr>sf_Object = 0, sf_Name = n, sf_Anonymous = False, sf_Exported = True, sf_struct = None\<rparr>"

definition embedded_field :: "string \<Rightarrow> nat \<Rightarrow> struct_field" where
  "embedded_field n s = \<lparr>sf_Object = 0, sf_Name = n, sf_Anonymous = True, sf_Exported = True, sf_struct = Some s\<rparr>"

definition diamond :: structs where
  "diamond = [(0, [embedded_field ''A'' 1, embedded_field ''B'' 2]), (1, [plain_field ''X'', embedded_field ''D'' 3]),
    (2, [plain_field ''X'']), (3, [plain_field ''X''])]"

lemma diamond_fields:
  "struct_fields diamond 0 = [embedded_field ''A'' 1, embedded_field ''B'' 2]"
  "struct_fields diamond (Suc 0) = [plain_field ''X'', embedded_field ''D'' 3]"
  "struct_fields diamond 2 = [plain_field ''X'']" "struct_fields diamond 3 = [plain_field ''X'']"
  by (simp_all add: struct_fields_def diamond_def)

lemma diamond_embeds: "embeds diamond 0 = [1, 2]" "embeds diamond (Suc 0) = [3]" "embeds diamond 2 = []" "embeds diamond 3 = []"
  by (simp_all add: embeds_def embedded_next_def diamond_fields plain_field_def embedded_field_def underlyingStruct_def)
    (simp_all add: diamond_def)

theorem ambiguous_field_listed:
  "(''X'', plain_field ''X'', 2) \<in> set (selectable_fields diamond 0) \<and> (\<nexists>f k. go_selects diamond 0 ''X'' f k)"
proof -
  have depth: "fields_at_depth diamond 0 ''X'' 0 = []" "fields_at_depth diamond 0 ''X'' 1 = [plain_field ''X'', plain_field ''X'']"
    "new_at diamond 0 ''X'' 2 = [plain_field ''X'']"
    by (simp_all add: fields_at_depth_def new_at_def fresh_def numeral_2_eq_2 diamond_fields [simplified numeral_2_eq_2]
        diamond_embeds [simplified numeral_2_eq_2] plain_field_def embedded_field_def lessThan_Suc)
  have shallow: "new_at diamond 0 ''X'' i = fields_at_depth diamond 0 ''X'' i" if "i < 2" for i
    using that depth(1) by (intro new_at_shallow) (auto simp: less_Suc_eq numeral_2_eq_2)
  have "\<not> go_selects diamond 0 ''X'' f k" for f k
  proof -
    consider "k = 0" | "k = 1" | "1 < k" by linarith
    then show ?thesis using depth by cases (auto simp: go_selects_def)
  qed
  moreover have "length (new_at diamond 0 ''X'' i) \<noteq> 1" if "i < 2" for i
    using shallow [OF that] depth(1,2) that by (auto simp: less_Suc_eq numeral_2_eq_2)
  ultimately show ?thesis by (simp add: selectable_iff depth(3))
qed

end
