(* ===== verification/Log_Core.thy ===== *)
theory Log_Core
  imports Loki_Streams Ax_Contract
begin

text \<open>
  The logger \<^verbatim>\<open>src/internal/logcore\<close> (with its facades \<^verbatim>\<open>src/logging\<close> and \<^verbatim>\<open>src/logger.go\<close>) and the
  Loki option of \<^verbatim>\<open>src/loki.go\<close>: construction from options, label sanctioning, the tracing
  hook, the fan-out of a ln and \<^verbatim>\<open>Flush\<close>. zerolog's layout of a ln is an argument. The
  lemmas say that option order does not matter, what the sinks are told, where a ln
  goes, and what a flush reports.
\<close>

section \<open>Contexts, sinks and the world\<close>

text \<open>A context also carries the diagnostic writer of \<^verbatim>\<open>internal/diagwriter\<close>. Writers are numbers.\<close>

record log_ctx =
  lx_base :: gctx
  lx_writer :: "nat option"

definition WithDiagnosticWriter :: "log_ctx \<Rightarrow> nat \<Rightarrow> log_ctx" where
  "WithDiagnosticWriter ctx w = ctx\<lparr>lx_writer := Some w\<rparr>"

definition diag_FromContext :: "log_ctx option \<Rightarrow> nat option" where
  "diag_FromContext ctx = (case ctx of None \<Rightarrow> None | Some c \<Rightarrow> lx_writer c)"

definition os_stderr :: nat where "os_stderr = 0"

text \<open>
  How writers behave: what \<^verbatim>\<open>Write\<close> and \<^verbatim>\<open>Drain\<close> return, and which sinks implement
  \<^verbatim>\<open>LabelSanctioner\<close>; and what happened so far: labels told to sinks, writes and drains in order.
\<close>

record log_env =
  le_write :: "nat \<Rightarrow> string \<Rightarrow> nat \<times> go_error option"
  le_drain :: "nat \<Rightarrow> go_error option"
  le_sanctions :: "nat \<Rightarrow> bool"

record log_state =
  ls_told :: "(nat \<times> Labels) list"
  ls_written :: "(nat \<times> string) list"
  ls_drained :: "nat list"
  ls_loki :: "(nat \<times> string \<times> string) list"

record LogConfig =
  cg_Ctx :: "log_ctx option"
  cg_Writer :: nat
  cg_Level :: int
  cg_Labels :: Labels
  cg_AdditionalSinks :: "nat list"

type_synonym log_option = "LogConfig \<times> log_state \<Rightarrow> LogConfig \<times> log_state"

definition no_labels :: Labels where
  "no_labels = \<lparr>Environment = [], Application = [], Host = [], LVersion = []\<rparr>"

definition log_WithWriter :: "nat \<Rightarrow> log_option" where
  "log_WithWriter w = apfst (cg_Writer_update (\<lambda>_. w))"

definition log_WithLevel :: "int \<Rightarrow> log_option" where
  "log_WithLevel level = apfst (cg_Level_update (\<lambda>_. level))"

definition log_WithLabels :: "Labels \<Rightarrow> log_option" where
  "log_WithLabels labels = apfst (cg_Labels_update (\<lambda>_. labels))"

section \<open>Construction\<close>

definition applyLabels :: "(string \<times> string) list \<Rightarrow> Labels \<Rightarrow> (string \<times> string) list" where
  "applyLabels ctx labels =
    (let add = (\<lambda>k v c. if v \<noteq> [] then c @ [(k, v)] else c) in
     add lokiLabelVersion (LVersion labels)
      (add lokiLabelHost (Host labels)
        (add lokiLabelApplication (Application labels)
          (add lokiLabelEnvironment (Environment labels) ctx))))"

definition sanctionLabels :: "log_env \<Rightarrow> nat list \<Rightarrow> Labels \<Rightarrow> log_state \<Rightarrow> log_state" where
  "sanctionLabels env sinks labels st = st\<lparr>ls_told := ls_told st @ map (\<lambda>s. (s, labels)) (filter (le_sanctions env) sinks)\<rparr>"

record zerologLogger =
  zl_fields :: "(string \<times> string) list"
  zl_level :: int
  zl_writers :: "nat list"
  zl_sinks :: "nat list"

definition DebugLevel :: int where "DebugLevel = 0"
definition InfoLevel :: int where "InfoLevel = 1"

definition default_config :: "log_ctx option \<Rightarrow> LogConfig" where
  "default_config ctx =
    \<lparr>cg_Ctx = ctx, cg_Writer = (case diag_FromContext ctx of Some w \<Rightarrow> w | None \<Rightarrow> os_stderr), cg_Level = InfoLevel,
     cg_Labels = no_labels, cg_AdditionalSinks = []\<rparr>"

definition log_New :: "log_env \<Rightarrow> log_ctx option \<Rightarrow> log_option option list \<Rightarrow> log_state \<Rightarrow> zerologLogger \<times> log_state" where
  "log_New env ctx opts st =
    (let (cfg, st1) = foldl (\<lambda>cs opt. case opt of None \<Rightarrow> cs | Some f \<Rightarrow> f cs) (default_config ctx, st) opts;
         st2 = sanctionLabels env (cg_AdditionalSinks cfg) (cg_Labels cfg) st1 in
     (\<lparr>zl_fields = applyLabels [] (cg_Labels cfg), zl_level = cg_Level cfg,
       zl_writers = (if cg_AdditionalSinks cfg \<noteq> [] then cg_Writer cfg # cg_AdditionalSinks cfg else [cg_Writer cfg]),
       zl_sinks = cg_AdditionalSinks cfg\<rparr>, st2))"

definition logger_WithLabels :: "log_env \<Rightarrow> zerologLogger \<Rightarrow> Labels \<Rightarrow> log_state \<Rightarrow> zerologLogger \<times> log_state" where
  "logger_WithLabels env l labels st =
    (l\<lparr>zl_fields := applyLabels (zl_fields l) labels\<rparr>, sanctionLabels env (zl_sinks l) labels st)"

section \<open>Events\<close>

definition log_traceIDs :: "gctx \<Rightarrow> string \<times> string" where
  "log_traceIDs ctx =
    (let traceID = (case c_trace_id ctx of Some t \<Rightarrow> t | None \<Rightarrow> ZeroTraceID);
         spanID = (case c_span_id ctx of Some s \<Rightarrow> s | None \<Rightarrow> ZeroSpanID) in
     (traceID, spanID))"

definition tracingHook :: "log_ctx option \<Rightarrow> (string \<times> string) list" where
  "tracingHook ctx =
    (case log_traceIDs (case ctx of Some c \<Rightarrow> lx_base c | None \<Rightarrow> Background) of (t, s) \<Rightarrow> [(''trace_id'', t), (''span_id'', s)])"

text \<open>\<^verbatim>\<open>io.MultiWriter\<close>: the writers in order, up to the first that fails or takes less.\<close>

definition ErrShortWrite :: go_error where "ErrShortWrite = TextError ''short write''"

fun multi_write :: "log_env \<Rightarrow> nat list \<Rightarrow> string \<Rightarrow> log_state \<Rightarrow> go_error option \<times> log_state" where
  "multi_write env [] ln st = (None, st)"
| "multi_write env (w # ws) ln st =
    (let st1 = st\<lparr>ls_written := ls_written st @ [(w, ln)]\<rparr> in
     case le_write env w ln of
       (n, Some e) \<Rightarrow> (Some e, st1)
     | (n, None) \<Rightarrow> if n \<noteq> length ln then (Some ErrShortWrite, st1) else multi_write env ws ln st1)"

text \<open>
  One event of a level, with the payload fields of the caller, sent with a message;
  \<^verbatim>\<open>layout\<close> is zerolog's ln for level, context fields, payload, hook fields and message.
\<close>

definition log_event ::
  "log_env \<Rightarrow> (int \<Rightarrow> (string \<times> string) list \<Rightarrow> (string \<times> string) list \<Rightarrow> (string \<times> string) list \<Rightarrow> string \<Rightarrow> string) \<Rightarrow>
   zerologLogger \<Rightarrow> int \<Rightarrow> log_ctx option \<Rightarrow> (string \<times> string) list \<Rightarrow> string \<Rightarrow> log_state \<Rightarrow> log_state" where
  "log_event env layout l level ctx payload msg st =
    (if level < zl_level l then st
     else snd (multi_write env (zl_writers l) (layout level (zl_fields l) payload (tracingHook ctx) msg) st))"

section \<open>Flush\<close>

definition errors_Join :: "go_error list \<Rightarrow> go_error option" where
  "errors_Join es = (if es = [] then None else Some (JoinError es))"

definition logger_flush :: "log_env \<Rightarrow> zerologLogger \<Rightarrow> log_state \<Rightarrow> go_error option \<times> log_state" where
  "logger_flush env l st =
    (errors_Join (List.map_filter (le_drain env) (zl_sinks l)), st\<lparr>ls_drained := ls_drained st @ zl_sinks l\<rparr>)"

text \<open>A logger is absent (nil), one without \<^verbatim>\<open>flush\<close>, or ours.\<close>

datatype any_logger = NilLogger | ForeignLogger | OurLogger zerologLogger

definition log_Flush :: "log_env \<Rightarrow> any_logger \<Rightarrow> log_state \<Rightarrow> go_error option \<times> log_state" where
  "log_Flush env l st = (case l of OurLogger zl \<Rightarrow> logger_flush env zl st | _ \<Rightarrow> (None, st))"

section \<open>The Loki option\<close>

text \<open>What \<^verbatim>\<open>url.Parse\<close> gives: scheme, host, host name, and the text of the URL joined with the push path.\<close>

record loki_url =
  lu_Scheme :: string
  lu_Host :: string
  lu_Hostname :: string
  lu_PushURL :: string

definition warn :: "log_env \<Rightarrow> string \<Rightarrow> log_option" where
  "warn env ln cs = (case cs of (cfg, st) \<Rightarrow> (cfg, st\<lparr>ls_written := ls_written st @ [(cg_Writer cfg, ln)]\<rparr>))"

definition newline :: string where "newline = [char_of (10 :: nat)]"

definition WithLokiFromEnv ::
  "log_env \<Rightarrow> (nat \<Rightarrow> bool) \<Rightarrow> (string \<Rightarrow> string) \<Rightarrow> (string \<Rightarrow> go_error + loki_url) \<Rightarrow> nat \<Rightarrow> log_option" where
  "WithLokiFromEnv env isprint getenv parse_url fresh_sink cs =
    (let rawURL = getenv ''AX_LOKI_URL'' in
     if rawURL = [] then cs
     else
       (case parse_url rawURL of
          Inl e \<Rightarrow> warn env (''ax: AX_LOKI_URL '' @ quote isprint rawURL @ '' is malformed: '' @ error_text isprint e @ newline) cs
        | Inr u \<Rightarrow>
            if lu_Host u = [] then
              warn env (''ax: AX_LOKI_URL '' @ quote isprint rawURL @
                '' is missing a scheme://host (expected e.g. http://localhost:3100)'' @ newline) cs
            else if lu_Scheme u \<noteq> ''http'' \<and> lu_Scheme u \<noteq> ''https'' then
              warn env (''ax: AX_LOKI_URL scheme '' @ quote isprint (lu_Scheme u) @ '' is not http(s)'' @ newline) cs
            else
              let cs1 = (if lu_Scheme u = ''http'' \<and> lu_Hostname u \<notin> set [''localhost'', ''127.0.0.1'', ''::1'']
                         then warn env (''ax: AX_LOKI_URL uses insecure http transport'' @ newline) cs else cs) in
              (case cs1 of (cfg, st) \<Rightarrow>
                (cfg\<lparr>cg_AdditionalSinks := cg_AdditionalSinks cfg @ [fresh_sink]\<rparr>,
                 st\<lparr>ls_loki := ls_loki st @ [(fresh_sink, lu_PushURL u, getenv ''AX_LOKI_AUTH_TOKEN'')]\<rparr>))))"

section \<open>Lemmas\<close>

text \<open>The options as data, with the registration of any sink.\<close>

datatype log_spec = NilOpt | WriterOpt nat | LevelOpt int | LabelsOpt Labels | SinkOpt nat

definition spec_option :: "log_spec \<Rightarrow> log_option option" where
  "spec_option s =
    (case s of
       NilOpt \<Rightarrow> None | WriterOpt w \<Rightarrow> Some (log_WithWriter w) | LevelOpt n \<Rightarrow> Some (log_WithLevel n)
     | LabelsOpt labels \<Rightarrow> Some (log_WithLabels labels)
     | SinkOpt i \<Rightarrow> Some (apfst (cg_AdditionalSinks_update (\<lambda>is. is @ [i]))))"

fun last_of :: "(log_spec \<Rightarrow> 'a option) \<Rightarrow> 'a \<Rightarrow> log_spec list \<Rightarrow> 'a" where
  "last_of f d [] = d"
| "last_of f d (s # ss) = last_of f (case f s of Some x \<Rightarrow> x | None \<Rightarrow> d) ss"

definition opt_writer :: "log_spec \<Rightarrow> nat option" where
  "opt_writer s = (case s of WriterOpt w \<Rightarrow> Some w | _ \<Rightarrow> None)"
definition opt_level :: "log_spec \<Rightarrow> int option" where
  "opt_level s = (case s of LevelOpt n \<Rightarrow> Some n | _ \<Rightarrow> None)"
definition opt_labels :: "log_spec \<Rightarrow> Labels option" where
  "opt_labels s = (case s of LabelsOpt l \<Rightarrow> Some l | _ \<Rightarrow> None)"
definition opt_sink :: "log_spec \<Rightarrow> nat option" where
  "opt_sink s = (case s of SinkOpt i \<Rightarrow> Some i | _ \<Rightarrow> None)"

lemmas opt_defs = opt_writer_def opt_level_def opt_labels_def opt_sink_def

lemma fold_specs:
  "foldl (\<lambda>cs opt. case opt of None \<Rightarrow> cs | Some f \<Rightarrow> f cs) (cfg, st) (map spec_option specs) =
    (cfg\<lparr>cg_Writer := last_of opt_writer (cg_Writer cfg) specs, cg_Level := last_of opt_level (cg_Level cfg) specs,
         cg_Labels := last_of opt_labels (cg_Labels cfg) specs,
         cg_AdditionalSinks := cg_AdditionalSinks cfg @ List.map_filter opt_sink specs\<rparr>, st)"
proof (induction specs arbitrary: cfg)
  case (Cons s specs)
  then show ?case
    by (cases s) (simp_all add: spec_option_def opt_defs map_filter_simps log_WithWriter_def log_WithLevel_def log_WithLabels_def)
qed (simp add: map_filter_simps)

lemma traceIDs_agree: "log_traceIDs = traceIDs"
  by (rule ext) (simp add: log_traceIDs_def traceIDs_def Let_def split: option.splits)

lemma map_filter_Some: "x \<in> set (List.map_filter f xs) \<longleftrightarrow> (\<exists>y \<in> set xs. f y = Some x)"
  by (induction xs) (auto simp: map_filter_simps split: option.splits)

lemma map_filter_Nil: "List.map_filter f xs = [] \<longleftrightarrow> (\<forall>y \<in> set xs. f y = None)"
  by (induction xs) (auto simp: map_filter_simps split: option.splits)

lemma multi_write_all:
  assumes "\<And>w. w \<in> set ws \<Longrightarrow> le_write env w ln = (length ln, None)"
  shows "multi_write env ws ln st = (None, st\<lparr>ls_written := ls_written st @ map (\<lambda>w. (w, ln)) ws\<rparr>)"
  using assms by (induction ws arbitrary: st) simp_all

lemma multi_write_stops:
  assumes "\<And>w. w \<in> set us \<Longrightarrow> le_write env w ln = (length ln, None)" and "le_write env v ln \<noteq> (length ln, None)"
  shows "ls_written (snd (multi_write env (us @ v # ws) ln st)) = ls_written st @ map (\<lambda>w. (w, ln)) (us @ [v])"
  using assms by (induction us arbitrary: st) (auto simp: Let_def split: prod.splits option.splits)

section \<open>Properties\<close>

text \<open>
  The order of options does not matter: a logger and what its sinks are told depend only on
  the last writer, the last level, the last labels and the registered sinks in their order.
\<close>

theorem New_order_irrelevant:
  "log_New env ctx (map spec_option specs) st =
    log_New env ctx (map spec_option
      (map SinkOpt (List.map_filter opt_sink specs) @
       [WriterOpt (last_of opt_writer (cg_Writer (default_config ctx)) specs), LevelOpt (last_of opt_level InfoLevel specs),
        LabelsOpt (last_of opt_labels no_labels specs)])) st"
proof -
  have sinks: "last_of f d (map SinkOpt is @ ss) = last_of f d ss"
    if "\<And>i. f (SinkOpt i) = None" for f :: "log_spec \<Rightarrow> 'z option" and d "is" ss
    using that by (induction "is") simp_all
  have "List.map_filter opt_sink (map SinkOpt is @ [WriterOpt w, LevelOpt n, LabelsOpt l]) = is" for "is" w n l
    by (induction "is") (simp_all add: map_filter_simps opt_defs)
  moreover have "last_of opt_writer d (map SinkOpt is @ [WriterOpt w, LevelOpt n, LabelsOpt l]) = w"
      "last_of opt_level e (map SinkOpt is @ [WriterOpt w, LevelOpt n, LabelsOpt l]) = n"
      "last_of opt_labels g (map SinkOpt is @ [WriterOpt w, LevelOpt n, LabelsOpt l]) = l" for d e g "is" w n l
    by (simp_all add: sinks opt_defs)
  ultimately show ?thesis unfolding log_New_def fold_specs by (simp add: default_config_def)
qed

text \<open>
  A flush drains every sink, in order, whatever earlier sinks return; it reports nil exactly
  when all of them did, and otherwise an error in which each of theirs is found.
\<close>

theorem Flush_joins_errors:
  "snd (log_Flush env (OurLogger l) st) = st\<lparr>ls_drained := ls_drained st @ zl_sinks l\<rparr> \<and>
   (fst (log_Flush env (OurLogger l) st) = None \<longleftrightarrow> list_all (\<lambda>i. le_drain env i = None) (zl_sinks l)) \<and>
   list_all (\<lambda>i. case le_drain env i of None \<Rightarrow> True
     | Some e \<Rightarrow> (case fst (log_Flush env (OurLogger l) st) of Some joined \<Rightarrow> errors_is joined e | None \<Rightarrow> False)) (zl_sinks l)"
proof -
  let ?es = "List.map_filter (le_drain env) (zl_sinks l)"
  have "errors_is (JoinError ?es) e" if "e \<in> set ?es" for e
    using that error_tree_self [of e] by (auto simp: errors_is_def simp del: error_tree_self)
  moreover have "e \<in> set ?es" if "i \<in> set (zl_sinks l)" "le_drain env i = Some e" for i e
    using that by (auto simp: map_filter_Some)
  ultimately show ?thesis
    by (auto simp: log_Flush_def logger_flush_def errors_Join_def map_filter_Nil list_all_iff split: option.splits)
qed

text \<open>
  When the primary writer fails on a line, no sink receives that line.
\<close>

theorem failing_writer_silences_sinks:
  assumes "zl_writers l = w # zl_sinks l" and "w \<notin> set (zl_sinks l)" and "\<And>ln. snd (le_write env w ln) \<noteq> None" and "i \<in> set (zl_sinks l)"
  shows "(i, ln) \<in> set (ls_written (log_event env layout l level ctx payload msg st)) \<longleftrightarrow> (i, ln) \<in> set (ls_written st)"
proof -
  have "ls_written (snd (multi_write env (w # zl_sinks l) x st)) = ls_written st @ [(w, x)]" for x
    using multi_write_stops [of "[]" env x w "zl_sinks l" st] assms(3) [of x]
    by (simp only: append_Nil) (force simp: split_def)
  then show ?thesis using assms(1,2,4) by (auto simp: log_event_def)
qed

text \<open>
  The Loki option registers its sink exactly for an http or https URL with a host; otherwise
  the configuration stays as it was. The token goes only to the sink, never to a writer.
\<close>

theorem loki_option_registers_iff:
  "fst (WithLokiFromEnv env isprint getenv parse_url i (cfg, st)) =
    (if getenv ''AX_LOKI_URL'' \<noteq> [] \<and>
        (case parse_url (getenv ''AX_LOKI_URL'') of Inl _ \<Rightarrow> False | Inr u \<Rightarrow> lu_Host u \<noteq> [] \<and> lu_Scheme u \<in> {''http'', ''https''})
     then cfg\<lparr>cg_AdditionalSinks := cg_AdditionalSinks cfg @ [i]\<rparr> else cfg)"
  by (simp add: WithLokiFromEnv_def Let_def warn_def split: sum.split)

end
