(* ===== verification/Ax_Telemetry.thy ===== *)
theory Ax_Telemetry
  imports Go_Text Ax_Execute
begin

text \<open>
  Starting telemetry: \<^verbatim>\<open>src/telemetry.go\<close> and \<^verbatim>\<open>src/internal/telemetry\<close>. Options and defaults, the
  exporters that are attached, the normalised OTLP endpoint, and the exporter that turns
  failures into one diagnostic. OpenTelemetry itself (propagator, exporters, provider), the
  URL parser and the environment are arguments. The lemmas say that starting and exporting
  never fail, what is attached when, and that every diagnostic is one clean line.
\<close>

section \<open>Configuration\<close>

definition DefaultShutdownBudget :: int where
  "DefaultShutdownBudget = 2 * 10 ^ 9"

definition os_Stderr :: nat where "os_Stderr = 0"

text \<open>The public options: a nil lookup and a nil writer are \<^term>\<open>None\<close>.\<close>

record telemetryConfig =
  tc_env :: "(string \<Rightarrow> string) option"
  tc_stderr :: "nat option"
  tc_serviceName :: string
  tc_serviceVersion :: string
  tc_shutdownBudget :: int

definition WithTelemetryEnv :: "(string \<Rightarrow> string) option \<Rightarrow> telemetryConfig \<Rightarrow> telemetryConfig" where
  "WithTelemetryEnv env = tc_env_update (\<lambda>_. env)"

definition WithTelemetryStderr :: "nat option \<Rightarrow> telemetryConfig \<Rightarrow> telemetryConfig" where
  "WithTelemetryStderr w = tc_stderr_update (\<lambda>_. w)"

definition WithTelemetryServiceName :: "string \<Rightarrow> telemetryConfig \<Rightarrow> telemetryConfig" where
  "WithTelemetryServiceName name = tc_serviceName_update (\<lambda>_. name)"

definition WithTelemetryServiceVersion :: "string \<Rightarrow> telemetryConfig \<Rightarrow> telemetryConfig" where
  "WithTelemetryServiceVersion version = tc_serviceVersion_update (\<lambda>_. version)"

definition WithTelemetryShutdownBudget :: "int \<Rightarrow> telemetryConfig \<Rightarrow> telemetryConfig" where
  "WithTelemetryShutdownBudget d = tc_shutdownBudget_update (\<lambda>_. d)"

text \<open>The internal configuration.\<close>

record otel_config =
  oc_TraceParent :: string
  oc_TraceState :: string
  oc_OTLPEndpoint :: string
  oc_Debug :: bool
  oc_Stderr :: "nat option"
  oc_ServiceName :: string
  oc_ServiceVersion :: string
  oc_ShutdownBudget :: int

definition telemetryDebugEnabled :: "string \<Rightarrow> bool" where
  "telemetryDebugEnabled v \<longleftrightarrow> to_lower (trim_space v) \<notin> set [[], ''0'', ''false'', ''no'', ''off'']"

section \<open>The endpoint\<close>

text \<open>\<^verbatim>\<open>path.Clean\<close> and \<^verbatim>\<open>path.Join\<close>, on the elements between slashes.\<close>

definition clean_step :: "bool \<Rightarrow> string list \<Rightarrow> string \<Rightarrow> string list" where
  "clean_step rooted out e =
    (if e = [] \<or> e = ''.'' then out
     else if e = ''..'' then
       (if out \<noteq> [] \<and> last out \<noteq> ''..'' then butlast out else if rooted then out else out @ [''..''])
     else out @ [e])"

definition clean_elements :: "string \<Rightarrow> string list" where
  "clean_elements p = foldl (clean_step (has_prefix p ''/'')) [] (split_char CHR ''/'' p)"

definition path_clean :: "string \<Rightarrow> string" where
  "path_clean p =
    (let s = (if has_prefix p ''/'' then ''/'' else []) @ str_join ''/'' (clean_elements p) in if s = [] then ''.'' else s)"

definition path_join :: "string list \<Rightarrow> string" where
  "path_join es = (let es' = filter (\<lambda>e. e \<noteq> []) es in if es' = [] then [] else path_clean (str_join ''/'' es'))"

record otlp_url =
  ou_Scheme :: string
  ou_Host :: string
  ou_Path :: string
  ou_RawQuery :: string
  ou_Fragment :: string

definition normalizeOTLPEndpoint :: "(string \<Rightarrow> go_error + otlp_url) \<Rightarrow> (otlp_url \<Rightarrow> string) \<Rightarrow> string \<Rightarrow> go_error + string" where
  "normalizeOTLPEndpoint parse_url url_string endpoint =
    (case parse_url endpoint of
       Inl e \<Rightarrow> Inl (WrapError ''parse OTEL_EXPORTER_OTLP_ENDPOINT'' e)
     | Inr u \<Rightarrow>
         if ou_Scheme u \<noteq> ''http'' \<and> ou_Scheme u \<noteq> ''https''
         then Inl (TextError ''OTEL_EXPORTER_OTLP_ENDPOINT must use http or https scheme'')
         else if ou_Host u = [] then Inl (TextError ''OTEL_EXPORTER_OTLP_ENDPOINT must include a host'')
         else if ou_RawQuery u \<noteq> [] \<or> ou_Fragment u \<noteq> []
         then Inl (TextError ''OTEL_EXPORTER_OTLP_ENDPOINT must not include query or fragment'')
         else Inr (url_string (u\<lparr>ou_Path := path_join [ou_Path u, ''/v1/traces'']\<rparr>)))"

section \<open>Starting\<close>

text \<open>
  OpenTelemetry and the process: is the build without the \<^verbatim>\<open>ax_no_otlp\<close> tag, URL parsing and
  printing, what constructing the two exporters returns, the propagator's extraction, the
  process environment, and whether merging resources conflicts.
\<close>

record otel_env =
  oe_otlp_built :: bool
  oe_parse_url :: "string \<Rightarrow> go_error + otlp_url"
  oe_url_string :: "otlp_url \<Rightarrow> string"
  oe_new_otlp :: "string \<Rightarrow> int \<Rightarrow> go_error option"
  oe_new_debug :: "go_error option"
  oe_extract :: "gctx \<Rightarrow> (string \<times> string) list \<Rightarrow> gctx"
  oe_getenv :: "string \<Rightarrow> string"
  oe_isprint :: "nat \<Rightarrow> bool"

text \<open>The span processors attached to the provider, each around a \<^verbatim>\<open>diagnosticExporter\<close>.\<close>

datatype processor = OTLPProcessor string int nat | DebugProcessor nat

definition errOTLPExportDeclined :: go_error where
  "errOTLPExportDeclined = TextError ''built with ax_no_otlp; rebuild without that tag to restore export''"

definition disabled_newOTLPExporter :: "otel_config \<Rightarrow> go_error + processor" where
  "disabled_newOTLPExporter cfg = Inl errOTLPExportDeclined"

definition newOTLPExporter :: "otel_env \<Rightarrow> nat \<Rightarrow> otel_config \<Rightarrow> go_error + processor" where
  "newOTLPExporter env stderr cfg =
    (case normalizeOTLPEndpoint (oe_parse_url env) (oe_url_string env) (oc_OTLPEndpoint cfg) of
       Inl e \<Rightarrow> Inl e
     | Inr endpoint \<Rightarrow>
         let budget = (if oc_ShutdownBudget cfg \<le> 0 then DefaultShutdownBudget else oc_ShutdownBudget cfg) in
         (case oe_new_otlp env endpoint budget of
            Some e \<Rightarrow> Inl (WrapError ''create OTLP HTTP exporter'' e)
          | None \<Rightarrow> Inr (OTLPProcessor endpoint budget stderr)))"

text \<open>A diagnostic: the writer and the line.\<close>

definition writeDiagnostic :: "(nat \<Rightarrow> bool) \<Rightarrow> nat option \<Rightarrow> string \<Rightarrow> go_error option \<Rightarrow> nat \<times> string" where
  "writeDiagnostic isprint w message err =
    (case w of Some v \<Rightarrow> v | None \<Rightarrow> os_Stderr,
     case err of
       None \<Rightarrow> ''ax: '' @ message @ [nl]
     | Some e \<Rightarrow> ''ax: '' @ message @ '': '' @ SanitizeDiagnostic (error_text isprint e) @ [nl])"

definition telemetryResource :: "otel_config \<Rightarrow> (string \<times> string) list" where
  "telemetryResource cfg =
    (if oc_ServiceName cfg \<noteq> [] then [(''service.name'', oc_ServiceName cfg)] else []) @
    (if oc_ServiceVersion cfg \<noteq> [] then [(''service.version'', oc_ServiceVersion cfg)] else [])"

record tracer_provider =
  tp_processors :: "processor list"
  tp_attributes :: "(string \<times> string) list"

definition telemetry_Start ::
  "otel_env \<Rightarrow> gctx option \<Rightarrow> otel_config \<Rightarrow> gctx \<times> tracer_provider \<times> go_error option \<times> (nat \<times> string) list" where
  "telemetry_Start env ctx cfg =
    (let stderr = (case oc_Stderr cfg of Some w \<Rightarrow> w | None \<Rightarrow> os_Stderr);
         carrier = (if oc_TraceParent cfg \<noteq> [] then [(''traceparent'', oc_TraceParent cfg)] else []) @
                   (if oc_TraceState cfg \<noteq> [] then [(''tracestate'', oc_TraceState cfg)] else []);
         ctx' = oe_extract env (or_background ctx) carrier;
         (otlp, diag1) =
           (if oc_OTLPEndpoint cfg \<noteq> [] then
              (case (if oe_otlp_built env then newOTLPExporter env stderr cfg else disabled_newOTLPExporter cfg) of
                 Inl e \<Rightarrow> ([], [writeDiagnostic (oe_isprint env) (Some stderr) ''otel exporter disabled'' (Some e)])
               | Inr p \<Rightarrow> ([p], []))
            else ([], []));
         (debug, diag2) =
           (if oc_Debug cfg then
              (case oe_new_debug env of
                 Some e \<Rightarrow> ([], [writeDiagnostic (oe_isprint env) (Some stderr) ''otel debug exporter disabled'' (Some e)])
               | None \<Rightarrow> ([DebugProcessor stderr], []))
            else ([], []))
     in (ctx', \<lparr>tp_processors = otlp @ debug, tp_attributes = telemetryResource cfg\<rparr>, None, diag1 @ diag2))"

definition default_telemetry :: "otel_env \<Rightarrow> telemetryConfig" where
  "default_telemetry env =
    \<lparr>tc_env = Some (oe_getenv env), tc_stderr = Some os_Stderr, tc_serviceName = [], tc_serviceVersion = [], tc_shutdownBudget = DefaultShutdownBudget\<rparr>"

definition resolve_telemetry :: "otel_env \<Rightarrow> (telemetryConfig \<Rightarrow> telemetryConfig) list \<Rightarrow> otel_config" where
  "resolve_telemetry env opts =
    (let cfg = foldl (\<lambda>c f. f c) (default_telemetry env) opts;
         lookup = (case tc_env cfg of Some f \<Rightarrow> f | None \<Rightarrow> oe_getenv env) in
     \<lparr>oc_TraceParent = lookup ''TRACEPARENT'', oc_TraceState = lookup ''TRACESTATE'', oc_OTLPEndpoint = lookup ''OTEL_EXPORTER_OTLP_ENDPOINT'',
      oc_Debug = telemetryDebugEnabled (lookup ''AX_OTEL_DEBUG''),
      oc_Stderr = Some (case tc_stderr cfg of Some w \<Rightarrow> w | None \<Rightarrow> os_Stderr),
      oc_ServiceName = tc_serviceName cfg, oc_ServiceVersion = tc_serviceVersion cfg,
      oc_ShutdownBudget = (if tc_shutdownBudget cfg \<le> 0 then DefaultShutdownBudget else tc_shutdownBudget cfg)\<rparr>)"

definition StartTelemetry ::
  "otel_env \<Rightarrow> gctx option \<Rightarrow> (telemetryConfig \<Rightarrow> telemetryConfig) list \<Rightarrow> gctx \<times> tracer_provider \<times> go_error option \<times> (nat \<times> string) list" where
  "StartTelemetry env ctx opts =
    (let cfg = resolve_telemetry env opts in
     case telemetry_Start env (Some (or_background ctx)) cfg of
       (ctx', tp, None, diags) \<Rightarrow> (ctx', tp, None, diags)
     | (ctx', tp, Some e, diags) \<Rightarrow>
         (ctx', \<lparr>tp_processors = [], tp_attributes = []\<rparr>, None,
          diags @ [(case oc_Stderr cfg of Some w \<Rightarrow> w | None \<Rightarrow> os_Stderr,
            ''ax: otel disabled: '' @ SanitizeDiagnostic (error_text (oe_isprint env) e) @ [nl])]))"

text \<open>\<^verbatim>\<open>(*Telemetry).Shutdown\<close>: a nil receiver and a nil provider are \<^term>\<open>None\<close>.\<close>

definition telemetry_Shutdown :: "(tracer_provider \<Rightarrow> go_error option) \<Rightarrow> tracer_provider option option \<Rightarrow> go_error option" where
  "telemetry_Shutdown shutdown_provider t = (case t of Some (Some tp) \<Rightarrow> shutdown_provider tp | _ \<Rightarrow> None)"

section \<open>Exporting\<close>

text \<open>
  \<^verbatim>\<open>diagnosticExporter\<close>: a call with the error the wrapped exporter returns; the state is
  whether the \<^verbatim>\<open>once\<close> has fired.
\<close>

datatype export_call = ExportSpans "go_error option" | ExporterShutdown "go_error option"

definition export_step :: "(nat \<Rightarrow> bool) \<Rightarrow> nat \<Rightarrow> bool \<Rightarrow> export_call \<Rightarrow> bool \<times> go_error option \<times> (nat \<times> string) list" where
  "export_step isprint stderr fired c =
    (case (case c of ExportSpans e \<Rightarrow> e | ExporterShutdown e \<Rightarrow> e) of
       None \<Rightarrow> (fired, None, [])
     | Some e \<Rightarrow> (True, None, if fired then [] else [writeDiagnostic isprint (Some stderr) ''otel export failed'' (Some e)]))"

fun export_run :: "(nat \<Rightarrow> bool) \<Rightarrow> nat \<Rightarrow> bool \<Rightarrow> export_call list \<Rightarrow> go_error option list \<times> (nat \<times> string) list" where
  "export_run isprint stderr fired [] = ([], [])"
| "export_run isprint stderr fired (c # cs) =
    (case export_step isprint stderr fired c of
       (fired', ret, diags) \<Rightarrow> (case export_run isprint stderr fired' cs of (rets, more_diags) \<Rightarrow> (ret # rets, diags @ more_diags)))"

section \<open>Lemmas\<close>

text \<open>A diagnostic line: printable to its end, which is its only newline.\<close>

definition clean_line :: "string \<Rightarrow> bool" where
  "clean_line s \<longleftrightarrow> s \<noteq> [] \<and> last s = nl \<and> list_all (\<lambda>c. 32 \<le> byte c \<and> byte c \<noteq> 127) (butlast s)"

lemma ascii_clean: "list_all (\<lambda>c. 32 \<le> byte c \<and> byte c \<noteq> 127) s \<Longrightarrow> clean_line (s @ [nl])"
  by (simp add: clean_line_def)

lemma writeDiagnostic_clean:
  assumes "list_all (\<lambda>c. 32 \<le> byte c \<and> byte c \<noteq> 127) message"
  shows "clean_line (snd (writeDiagnostic isprint w message err))"
proof -
  have "list_all (\<lambda>c. 32 \<le> byte c \<and> byte c \<noteq> 127) (SanitizeDiagnostic x)" for x
    using SanitizeDiagnostic_clean by (auto simp: list_all_iff)
  then show ?thesis using assms
    by (cases err) (auto simp: writeDiagnostic_def clean_line_def byte_def butlast_append)
qed

definition call_error :: "export_call \<Rightarrow> go_error option" where
  "call_error c = (case c of ExportSpans e \<Rightarrow> e | ExporterShutdown e \<Rightarrow> e)"

lemma export_run_fired: "export_run isprint stderr True cs = (map (\<lambda>_. None) cs, [])"
  by (induction cs) (auto simp: export_step_def split: option.splits export_call.splits)

lemma export_run_fresh:
  "export_run isprint stderr False cs =
    (map (\<lambda>_. None) cs,
     case List.map_filter call_error cs of [] \<Rightarrow> [] | e # _ \<Rightarrow> [writeDiagnostic isprint (Some stderr) ''otel export failed'' (Some e)])"
proof (induction cs)
  case (Cons c cs)
  then show ?case
    by (cases "call_error c") (auto simp: export_step_def call_error_def [symmetric] map_filter_simps export_run_fired)
qed (simp add: map_filter_simps)

lemma Start_unfold:
  "telemetry_Start env ctx cfg = (ctx', tp, err, diags) \<Longrightarrow>
    err = None \<and> list_all (\<lambda>d. clean_line (snd d)) diags \<and> length diags \<le> 2"
  unfolding telemetry_Start_def
  by (auto simp: Let_def writeDiagnostic_clean byte_def split: if_splits sum.splits option.splits)

lemma split_char_append: "split_char c (a @ c # b) = split_char c a @ split_char c b"
proof (induction a)
  case (Cons x a)
  have "split_char c a \<noteq> []" by (cases a) simp_all
  with Cons show ?case by (cases "split_char c a") auto
qed simp

definition plain_element :: "string \<Rightarrow> bool" where
  "plain_element e \<longleftrightarrow> e \<noteq> [] \<and> e \<noteq> ''.'' \<and> e \<noteq> ''..'' \<and> CHR ''/'' \<notin> set e"

lemma split_char_elements: "e \<in> set (split_char c s) \<Longrightarrow> c \<notin> set e"
proof (induction s arbitrary: e)
  case (Cons x s)
  have "split_char c s \<noteq> []" by (cases s) simp_all
  with Cons show ?case by (cases "split_char c s") (auto split: if_splits)
qed simp

lemma clean_rooted:
  assumes "list_all plain_element out" and "\<And>e. e \<in> set es \<Longrightarrow> CHR ''/'' \<notin> set e"
  shows "list_all plain_element (foldl (clean_step True) out es)"
  using assms
proof (induction es arbitrary: out)
  case (Cons e es)
  have "list_all plain_element (clean_step True out e)"
    using Cons.prems by (auto simp: clean_step_def plain_element_def list_all_iff dest: in_set_butlastD)
  with Cons show ?case by simp
qed simp

lemma traces_elements: "split_char CHR ''/'' ''/v1/traces'' = [[], ''v1'', ''traces'']"
  by simp

text \<open>Joining a rooted or absent path with the traces path: plain elements, the last two fixed.\<close>

lemma join_traces:
  assumes "p = [] \<or> has_prefix p ''/''"
  shows "\<exists>es. list_all plain_element es \<and> path_join [p, ''/v1/traces''] = ''/'' @ str_join ''/'' (es @ [''v1'', ''traces''])"
proof -
  have step: "foldl (clean_step True) [] (xs @ [[], ''v1'', ''traces'']) = foldl (clean_step True) [] xs @ [''v1'', ''traces'']" for xs
    by (simp add: clean_step_def)
  show ?thesis
  proof (cases "p = []")
    case True
    have "path_join [p, ''/v1/traces''] = ''/'' @ str_join ''/'' ([] @ [''v1'', ''traces''])"
      using step [of "[]"] True by (simp add: path_join_def path_clean_def clean_elements_def has_prefix_def str_join_def Let_def)
    then show ?thesis by (intro exI [of _ "[]"]) simp
  next
    case False
    then obtain q where q: "p = CHR ''/'' # q" using assms by (cases p) (auto simp: has_prefix_def)
    let ?s = "p @ CHR ''/'' # ''/v1/traces''"
    let ?es = "foldl (clean_step True) [] (split_char CHR ''/'' p)"
    have plain: "list_all plain_element ?es" by (rule clean_rooted) (auto dest: split_char_elements)
    have "clean_elements ?s = ?es @ [''v1'', ''traces'']"
    proof -
      have "has_prefix ?s ''/'' = True" by (simp add: q has_prefix_def)
      then show ?thesis by (simp only: clean_elements_def split_char_append traces_elements step)
    qed
    then have "path_clean ?s = ''/'' @ str_join ''/'' (?es @ [''v1'', ''traces''])"
      by (simp add: path_clean_def q has_prefix_def)
    moreover have "path_join [p, ''/v1/traces''] = path_clean ?s"
    proof -
      have "filter (\<lambda>e. e \<noteq> []) [p, ''/v1/traces''] = [p, ''/v1/traces'']" using False by simp
      moreover have "str_join ''/'' [p, ''/v1/traces''] = ?s" unfolding str_join_def by simp
      ultimately show ?thesis unfolding path_join_def Let_def by (simp only: list.distinct if_False)
    qed
    ultimately show ?thesis using plain by (intro exI [of _ ?es] conjI) (assumption, simp only:)
  qed
qed

section \<open>Properties\<close>

text \<open>
  Starting telemetry never fails: the error is nil, and every exporter asked for by the
  environment is attached or has one clean diagnostic line on the configured writer.
\<close>

theorem StartTelemetry_fail_open:
  "case StartTelemetry env ctx opts of (ctx', tp, err, diags) \<Rightarrow>
     err = None \<and>
     list_all (\<lambda>d. clean_line (snd d) \<and> Some (fst d) = oc_Stderr (resolve_telemetry env opts)) diags \<and>
     length (tp_processors tp) + length diags =
       (if oc_OTLPEndpoint (resolve_telemetry env opts) \<noteq> [] then 1 else 0) + (if oc_Debug (resolve_telemetry env opts) then 1 else 0)"
proof -
  define cfg where "cfg = resolve_telemetry env opts"
  obtain w where w: "oc_Stderr cfg = Some w" by (simp add: cfg_def resolve_telemetry_def Let_def)
  have "clean_line (snd (writeDiagnostic isprint v ''otel exporter disabled'' e))"
      "clean_line (snd (writeDiagnostic isprint v ''otel debug exporter disabled'' e))" for isprint v e
    by (rule writeDiagnostic_clean; simp add: byte_def)+
  note clean = this
  have target: "fst (writeDiagnostic isprint (Some v) m e) = v" for isprint v m e
    by (simp add: writeDiagnostic_def)
  define attempt where "attempt = (if oe_otlp_built env then newOTLPExporter env w cfg else disabled_newOTLPExporter cfg)"
  show ?thesis
    unfolding StartTelemetry_def cfg_def [symmetric] Let_def
    by (cases "oc_OTLPEndpoint cfg = []"; cases attempt; cases "oc_Debug cfg"; cases "oe_new_debug env")
      (simp_all only: telemetry_Start_def Let_def w attempt_def [symmetric] option.case sum.case if_True if_False prod.case not_True_eq_False
        not_False_eq_True simp_thms append_Nil append_Nil2 tracer_provider.simps list.size list.pred_inject clean target fst_conv snd_conv, simp_all add: clean target)
qed

text \<open>
  Exporting and shutting down never fail the command; over any sequence of calls the first
  failure is reported, on one clean line, and no other.
\<close>

theorem exporter_reports_once:
  "fst (export_run isprint stderr False cs) = map (\<lambda>_. None) cs \<and>
   snd (export_run isprint stderr False cs) =
     (case List.map_filter call_error cs of [] \<Rightarrow> [] | e # _ \<Rightarrow> [writeDiagnostic isprint (Some stderr) ''otel export failed'' (Some e)]) \<and>
   list_all (\<lambda>d. clean_line (snd d)) (snd (export_run isprint stderr False cs))"
proof -
  have "clean_line (snd (writeDiagnostic isprint v ''otel export failed'' e))" for v e
    by (rule writeDiagnostic_clean) (simp add: byte_def)
  then show ?thesis unfolding export_run_fresh by (simp split: list.split)
qed

text \<open>
  An accepted endpoint is an http or https URL with a host and without query or fragment; its
  path becomes a rooted path of plain elements that ends in \<^verbatim>\<open>v1/traces\<close>.
\<close>

theorem endpoint_normalised:
  assumes "normalizeOTLPEndpoint parse_url url_string endpoint = Inr r"
    and "\<And>u. parse_url endpoint = Inr u \<Longrightarrow> ou_Path u = [] \<or> has_prefix (ou_Path u) ''/''"
  shows "\<exists>u es. parse_url endpoint = Inr u \<and> ou_Scheme u \<in> {''http'', ''https''} \<and> ou_Host u \<noteq> [] \<and> ou_RawQuery u = [] \<and> ou_Fragment u = [] \<and>
    list_all plain_element es \<and> r = url_string (u\<lparr>ou_Path := ''/'' @ str_join ''/'' (es @ [''v1'', ''traces''])\<rparr>)"
proof -
  obtain u where u: "parse_url endpoint = Inr u" "ou_Scheme u \<in> {''http'', ''https''}" "ou_Host u \<noteq> []" "ou_RawQuery u = []" "ou_Fragment u = []"
      "r = url_string (u\<lparr>ou_Path := path_join [ou_Path u, ''/v1/traces'']\<rparr>)"
    using assms(1) by (auto simp: normalizeOTLPEndpoint_def split: sum.splits if_splits)
  with join_traces [OF assms(2) [OF u(1)]] show ?thesis by metis
qed

theorem endpoint_normalised_witness:
  "\<exists>es. list_all plain_element es \<and>
    ''/api/v1/traces'' = ''/'' @ str_join ''/'' (es @ [''v1'', ''traces''])"
proof -
  let ?u = "\<lparr>ou_Scheme = ''http'', ou_Host = ''h'', ou_Path = ''/a/../api/'', ou_RawQuery = [], ou_Fragment = []\<rparr>"
  have "path_join [''/a/../api/'', ''/v1/traces''] = ''/api/v1/traces''" by code_simp
  then have "normalizeOTLPEndpoint (\<lambda>_. Inr ?u) ou_Path ''e'' = Inr ''/api/v1/traces''"
    by (simp add: normalizeOTLPEndpoint_def)
  from endpoint_normalised [OF this] show ?thesis by (auto simp: has_prefix_def)
qed

end
