(* ===== verification/Doc_Cover.thy ===== *)
theory Doc_Cover
  imports Surface_Audit
begin

text \<open>
  The example-coverage gate \<^verbatim>\<open>src/internal/cmd/doccover/main.go\<close>: the required symbols, the scan of
  a package over its syntax trees, the baseline file, and the report with its verdict. The
  directory listing, the parser with \<^verbatim>\<open>go/doc\<close>'s examples, and the file system are arguments. The lemmas
  say exactly when the gate passes and that packages do not cover for each other.
\<close>

section \<open>Packages and symbols\<close>

definition rootPackageAlias :: string where "rootPackageAlias = ''ax''"
definition loggingPackageAlias :: string where "loggingPackageAlias = ''logging''"
definition axtestPackageAlias :: string where "axtestPackageAlias = ''axtest''"

definition scannedPackages :: "(string \<times> string) list" where
  "scannedPackages = [(rootPackageAlias, ''.''), (loggingPackageAlias, loggingPackageAlias), (axtestPackageAlias, axtestPackageAlias)]"

definition axNewLogger :: string where "axNewLogger = rootPackageAlias @ ''.NewLogger''"
definition loggingNewLogger :: string where "loggingNewLogger = loggingPackageAlias @ ''.NewLogger''"
definition axPatchConfig :: string where "axPatchConfig = rootPackageAlias @ ''.PatchConfig''"

definition requiredSymbols :: "string list" where
  "requiredSymbols =
    [''ax.BuildMCPSchema'', ''ax.BuildSchema'', ''ax.Execute'', ''ax.Flush'', ''ax.GenerateLLMsTxt'', ''ax.NewEntityID'', ''ax.NewEnvelope'',
     ''ax.NewError'', ''ax.NewIdempotencyKey'', axNewLogger, ''ax.ParseConfig'', ''ax.ParseConfigFile'', axPatchConfig, ''ax.PatchConfigFile'',
     ''ax.ResolveVersion'', ''ax.StartTelemetry'', ''ax.WithLokiFromEnv'', ''ax.Envelope'', ''ax.Error'', ''ax.Logger'', ''ax.Mode'', ''ax.Schema'',
     ''ax.Telemetry'', loggingNewLogger, ''axtest.Run'', ''axtest.Decode'', ''axtest.RunAndDecode'']"

definition splitQualified :: "string \<Rightarrow> string \<times> string" where
  "splitQualified entry = (case str_cut ''.'' entry of Some (a, b) \<Rightarrow> (a, b) | None \<Rightarrow> (rootPackageAlias, entry))"

section \<open>Scanning a package\<close>

definition collectExported :: "(nat \<Rightarrow> bool) \<Rightarrow> ast_file \<Rightarrow> string list" where
  "collectExported is_upper decls = concat (map (\<lambda>d.
     case d of
       FuncDecl recv name doc \<Rightarrow> (if recv = None \<and> is_exported is_upper name then [name] else [])
     | GenDecl is_const doc specs \<Rightarrow> concat (map (\<lambda>s. case s of TypeSpec n _ _ \<Rightarrow> (if is_exported is_upper n then [n] else []) | _ \<Rightarrow> []) specs)
     | BadDecl \<Rightarrow> []) decls)"

text \<open>An example of \<^verbatim>\<open>go/doc\<close>: name, output comment, and whether the comment is empty.\<close>

record doc_example =
  ex_Name :: string
  ex_Output :: string
  ex_EmptyOutput :: bool

definition collectVerifiedExamples :: "doc_example list \<Rightarrow> string list" where
  "collectVerifiedExamples exs = map (\<lambda>e. ''Example'' @ ex_Name e) (filter (\<lambda>e. \<not> (ex_Output e = [] \<and> \<not> ex_EmptyOutput e)) exs)"

record dir_entry =
  de_Name :: string
  de_IsDir :: bool

fun scan_entries ::
  "(nat \<Rightarrow> bool) \<Rightarrow> (string \<Rightarrow> go_error + ast_file \<times> doc_example list) \<Rightarrow> dir_entry list \<Rightarrow> string list \<Rightarrow> string list \<Rightarrow> go_error + string list \<times> string list" where
  "scan_entries is_upper parse [] exported examples = Inr (exported, examples)"
| "scan_entries is_upper parse (e # es) exported examples =
    (if de_IsDir e \<or> \<not> has_suffix (de_Name e) ''.go'' then scan_entries is_upper parse es exported examples
     else
       (case parse (de_Name e) of
          Inl err \<Rightarrow> Inl err
        | Inr (decls, exs) \<Rightarrow>
            if has_suffix (de_Name e) ''_test.go'' then scan_entries is_upper parse es exported (examples @ collectVerifiedExamples exs)
            else scan_entries is_upper parse es (exported @ collectExported is_upper decls) examples))"

definition scanPackage ::
  "(nat \<Rightarrow> bool) \<Rightarrow> (string \<Rightarrow> go_error + ast_file \<times> doc_example list) \<Rightarrow> go_error + dir_entry list \<Rightarrow> go_error + string list \<times> string list" where
  "scanPackage is_upper parse entries = (case entries of Inl e \<Rightarrow> Inl e | Inr es \<Rightarrow> scan_entries is_upper parse es [] [])"

definition hasExample :: "string \<Rightarrow> string list \<Rightarrow> bool" where
  "hasExample symbol examples \<longleftrightarrow>
    ''Example'' @ symbol \<in> set examples \<or> list_ex (\<lambda>n. has_prefix n (''Example'' @ symbol @ ''_'')) examples"

section \<open>The baseline\<close>

definition read_baseline_lines :: "string list \<Rightarrow> string list" where
  "read_baseline_lines ls = map (\<lambda>l. case splitQualified l of (pkg, symbol) \<Rightarrow> pkg @ ''.'' @ symbol)
     (filter (\<lambda>l. \<not> (l = [] \<or> has_prefix l ''#'')) (map trim_space ls))"

text \<open>The file may not exist, not open, or hold text; \<^verbatim>\<open>bufio.Scanner\<close> stops at a token of 64 KiB.\<close>

datatype opened = NotExist | OpenFailed go_error | Opened string

definition ErrTooLong :: go_error where "ErrTooLong = TextError ''bufio.Scanner: token too long''"

definition readBaseline :: "opened \<Rightarrow> go_error + string list" where
  "readBaseline f =
    (case f of
       NotExist \<Rightarrow> Inr []
     | OpenFailed e \<Rightarrow> Inl e
     | Opened data \<Rightarrow> (case scan_lines max_token data of (ls, too_long) \<Rightarrow> if too_long then Inl ErrTooLong else Inr (read_baseline_lines ls)))"

definition staleBaseline :: "string list \<Rightarrow> string list \<Rightarrow> (string \<Rightarrow> string list) \<Rightarrow> string list" where
  "staleBaseline required baseline examples =
    filter (\<lambda>entry. entry \<notin> set required \<or> (case splitQualified entry of (pkg, symbol) \<Rightarrow> hasExample symbol (examples pkg))) (remdups baseline)"

section \<open>The report\<close>

definition covered_by :: "(string \<Rightarrow> string list) \<Rightarrow> string \<Rightarrow> bool" where
  "covered_by examples entry \<longleftrightarrow> (case splitQualified entry of (pkg, symbol) \<Rightarrow> hasExample symbol (examples pkg))"

definition exported_by :: "(string \<Rightarrow> string list) \<Rightarrow> string \<Rightarrow> bool" where
  "exported_by exported entry \<longleftrightarrow> (case splitQualified entry of (pkg, symbol) \<Rightarrow> symbol \<in> set (exported pkg))"

definition printVerdict :: "string list \<Rightarrow> string list \<Rightarrow> string list \<Rightarrow> int \<times> string" where
  "printVerdict regressions unknown stale =
    (let len = (\<lambda>xs :: string list. itoa (int (length xs)));
         a = (if regressions \<noteq> [] then
           [nl] @ ''FAIL: '' @ len regressions @ '' required symbol(s) missing a verified example (not baselined):'' @ [nl] @
           concat (map (\<lambda>s. ''  - '' @ s @ [nl]) regressions) @
           [nl] @ ''Add an ExampleXxx with an // Output: comment (see example_test.go) or add the symbol to internal/cmd/doccover/baseline.txt.'' @ [nl]
           else []);
         b = (if unknown \<noteq> [] then
           [nl] @ ''FAIL: '' @ len unknown @ '' required symbol(s) not exported (renamed or removed?) '' @ map char_of [226 :: nat, 128, 148] @
           '' update requiredSymbols in internal/cmd/doccover/main.go.'' @ [nl] else []);
         c = (if stale \<noteq> [] then
           [nl] @ ''FAIL: '' @ len stale @ '' stale baseline entry(ies) '' @ map char_of [226 :: nat, 128, 148] @
           '' prune covered/obsolete entries from internal/cmd/doccover/baseline.txt (the ratchet is one-way).'' @ [nl] else []) in
     if regressions \<noteq> [] \<or> unknown \<noteq> [] \<or> stale \<noteq> [] then (1, a @ b @ c)
     else (0, ''OK: no example-coverage regressions.'' @ [nl]))"

definition doc_report ::
  "(nat \<Rightarrow> bool) \<Rightarrow> string list \<Rightarrow> (string \<Rightarrow> string list) \<Rightarrow> (string \<Rightarrow> string list) \<Rightarrow> string list \<Rightarrow> int \<times> string" where
  "doc_report isprint required exported examples baseline =
    (let covered = filter (covered_by examples) required;
         missing = sort (filter (\<lambda>e. \<not> covered_by examples e) required);
         regressions = sort (filter (\<lambda>e. \<not> covered_by examples e \<and> e \<notin> set baseline) required);
         unknown = sort (filter (\<lambda>e. \<not> exported_by exported e) required);
         stale = sort (staleBaseline required baseline examples);
         head_line = ''doc-coverage: '' @ itoa (int (length covered)) @ ''/'' @ itoa (int (length required)) @ '' required symbols have an example'' @ [nl];
         missing_lines = (if missing \<noteq> [] then
           ''missing ('' @ itoa (int (length missing)) @ '', baseline-exempt unless marked NEW):'' @ [nl] @
           concat (map (\<lambda>s. ''  - '' @ s @ (if s \<notin> set baseline then ''  <- NEW regression'' else []) @ [nl]) missing) else []);
         unknown_lines = concat (map (\<lambda>s. ''required symbol '' @ quote isprint s @ '' is not exported (renamed or removed?)'' @ [nl]) unknown);
         stale_lines = concat (map (\<lambda>s. ''stale baseline entry '' @ quote isprint s @ '' (now covered or no longer required)'' @ [nl]) stale) in
     case printVerdict regressions unknown stale of
       (exit, verdict) \<Rightarrow> (exit, head_line @ missing_lines @ unknown_lines @ stale_lines @ verdict))"

section \<open>The command\<close>

fun scan_aliases :: "(string \<Rightarrow> go_error + string list \<times> string list) \<Rightarrow> (string \<times> string) list \<Rightarrow>
  string \<times> go_error + (string \<times> string list \<times> string list) list" where
  "scan_aliases scan [] = Inr []"
| "scan_aliases scan ((alias, rel) # ps) =
    (case scan rel of
       Inl e \<Rightarrow> Inl (alias, e)
     | Inr r \<Rightarrow> (case scan_aliases scan ps of Inl e \<Rightarrow> Inl e | Inr rs \<Rightarrow> Inr ((alias, r) # rs)))"

definition of_package :: "(string \<times> 'a list) list \<Rightarrow> string \<Rightarrow> 'a list" where
  "of_package results alias = (case map_of results alias of Some xs \<Rightarrow> xs | None \<Rightarrow> [])"

text \<open>Exit code, stdout and stderr; \<^verbatim>\<open>packages\<close> is the order in which the map is ranged over.\<close>

definition doccover_main ::
  "(nat \<Rightarrow> bool) \<Rightarrow> (string list \<Rightarrow> bool) \<Rightarrow> string list \<Rightarrow> (string list \<Rightarrow> string \<Rightarrow> go_error + string list \<times> string list) \<Rightarrow>
   (string list \<Rightarrow> opened) \<Rightarrow> (string \<times> string) list \<Rightarrow> int \<times> string \<times> string" where
  "doccover_main isprint has_gomod cwd scan open_baseline packages =
    (let failf = (\<lambda>msg. (1, [], ''doccover: '' @ msg @ [nl])) in
     case find_root has_gomod cwd of
       None \<Rightarrow> failf ''locating module root: go.mod not found from working directory''
     | Some root \<Rightarrow>
         (case scan_aliases (scan root) packages of
            Inl (alias, e) \<Rightarrow> failf (''scanning package '' @ alias @ '': '' @ error_text isprint e)
          | Inr results \<Rightarrow>
              (case readBaseline (open_baseline root) of
                 Inl e \<Rightarrow> failf (''reading baseline: '' @ error_text isprint e)
               | Inr baseline \<Rightarrow>
                   (case doc_report isprint requiredSymbols (of_package (map (\<lambda>(a, ex, _). (a, ex)) results))
                       (of_package (map (\<lambda>(a, _, ex). (a, ex)) results)) baseline of (exit, out) \<Rightarrow> (exit, out, [])))))"

section \<open>Lemmas\<close>

lemma sort_Nil_iff: "sort xs = [] \<longleftrightarrow> xs = []"
  by (metis set_empty set_sort)

lemma verdict_exit: "fst (printVerdict regressions unknown stale) = (if regressions = [] \<and> unknown = [] \<and> stale = [] then 0 else 1)"
  by (simp add: printVerdict_def Let_def)

lemma stale_Nil:
  "staleBaseline required baseline examples = [] \<longleftrightarrow> (\<forall>e \<in> set baseline. e \<in> set required \<and> \<not> covered_by examples e)"
  by (auto simp: staleBaseline_def filter_empty_conv covered_by_def split: prod.splits)

section \<open>Properties\<close>

text \<open>
  The gate passes exactly when every required symbol is exported by its own package and has a
  verified example there or a baseline entry, and every baseline entry is still needed.
\<close>

theorem doc_report_passes_iff:
  "fst (doc_report isprint required exported examples baseline) = 0 \<longleftrightarrow>
    list_all (\<lambda>e. exported_by exported e \<and> (covered_by examples e \<or> e \<in> set baseline)) required \<and>
    list_all (\<lambda>e. e \<in> set required \<and> \<not> covered_by examples e) baseline"
proof -
  have "fst (doc_report isprint required exported examples baseline) = 0 \<longleftrightarrow>
      filter (\<lambda>e. \<not> covered_by examples e \<and> e \<notin> set baseline) required = [] \<and>
      filter (\<lambda>e. \<not> exported_by exported e) required = [] \<and> staleBaseline required baseline examples = []"
    unfolding doc_report_def Let_def by (simp only: split_def fst_conv verdict_exit sort_Nil_iff split: if_split) simp
  then show ?thesis by (auto simp: stale_Nil filter_empty_conv list_all_iff)
qed

text \<open>Every baseline entry that is read names its package, and the required ones a scanned package.\<close>

lemma baseline_qualified: "e \<in> set (read_baseline_lines ls) \<Longrightarrow> \<exists>pkg symbol. e = pkg @ ''.'' @ symbol"
  by (auto simp: read_baseline_lines_def split: prod.splits) (metis append_Cons append_Nil)

lemma required_scanned: "list_all (\<lambda>e. fst (splitQualified e) \<in> fst ` set scannedPackages) requiredSymbols"
  by code_simp

end
