(* ===== verification/Bench_Check.thy ===== *)
theory Bench_Check
  imports Complex_Main Go_Text Ax_Contract "HOL-Library.Product_Lexorder"
begin

text \<open>
  The performance gate \<^verbatim>\<open>src/internal/cmd/benchcheck/main.go\<close>: bounded reading of both runs, the
  budget over the comparison tables, benchmarks that disappeared, the report and the exit
  codes. The package \<^verbatim>\<open>benchstat\<close> (parsing of a run, comparison tables), the files and the
  number formats are arguments; measurements are rationals. The lemmas say when each exit code
  is returned.
\<close>

section \<open>Budgets and results\<close>

definition maxNsOpRegressionPercent :: rat where "maxNsOpRegressionPercent = 5"
definition maxAllocsOpIncrease :: rat where "maxAllocsOpIncrease = 1"
definition maxBenchOutputBytes :: nat where "maxBenchOutputBytes = 4 * 2 ^ 20"

definition bench_exitOK :: int where "bench_exitOK = 0"
definition bench_exitViolation :: int where "bench_exitViolation = 1"
definition bench_exitBadInput :: int where "bench_exitBadInput = 2"

definition metricTimeOp :: string where "metricTimeOp = ''time/op''"
definition metricAllocsOp :: string where "metricAllocsOp = ''allocs/op''"
definition metricNsOp :: string where "metricNsOp = ''ns/op''"
definition configBaseline :: string where "configBaseline = ''baseline''"
definition configCurrent :: string where "configCurrent = ''current''"

record bench_violation =
  bv_Benchmark :: string
  bv_Metric :: string
  bv_Delta :: rat
  bv_Budget :: rat

record bench_result =
  br_Benchmarks :: "string list"
  br_Violations :: "bench_violation list"
  br_Missing :: "string list"

definition bench_Pass :: "bench_result \<Rightarrow> bool" where
  "bench_Pass r \<longleftrightarrow> br_Violations r = [] \<and> br_Missing r = []"

section \<open>benchstat\<close>

text \<open>
  A collection: the metric keys as (config, benchmark), and what its \<^verbatim>\<open>Tables\<close> gives: per metric
  the rows with the means of the two runs.
\<close>

record bench_row =
  rw_Benchmark :: string
  rw_Means :: "rat list"
  rw_PctDelta :: rat
  rw_Change :: int

record bench_table =
  bt_Metric :: string
  bt_Rows :: "bench_row list"

type_synonym metric_keys = "(string \<times> string) list"

section \<open>The budget\<close>

definition rowViolation :: "string \<Rightarrow> bench_row \<Rightarrow> bench_violation option" where
  "rowViolation metric row =
    (if rw_Change row \<noteq> -1 then None
     else if metric = metricTimeOp then
       (if rw_PctDelta row > maxNsOpRegressionPercent
        then Some \<lparr>bv_Benchmark = rw_Benchmark row, bv_Metric = metricNsOp, bv_Delta = rw_PctDelta row, bv_Budget = maxNsOpRegressionPercent\<rparr>
        else None)
     else if metric = metricAllocsOp then
       (case rw_Means row of
          [old, new] \<Rightarrow>
            if new - old > maxAllocsOpIncrease
            then Some \<lparr>bv_Benchmark = rw_Benchmark row, bv_Metric = metricAllocsOp, bv_Delta = new - old, bv_Budget = maxAllocsOpIncrease\<rparr>
            else None
        | _ \<Rightarrow> None)
     else None)"

definition benchmarks_of :: "string \<Rightarrow> metric_keys \<Rightarrow> string list" where
  "benchmarks_of config keys = map snd (filter (\<lambda>k. fst k = config) keys)"

definition missingBenchmarks :: "metric_keys \<Rightarrow> string list" where
  "missingBenchmarks keys =
    sort (filter (\<lambda>b. b \<notin> set (benchmarks_of configCurrent keys)) (remdups (benchmarks_of configBaseline keys)))"

definition configHasBenchmarkMetrics :: "metric_keys \<Rightarrow> string \<Rightarrow> bool" where
  "configHasBenchmarkMetrics keys config \<longleftrightarrow> list_ex (\<lambda>k. fst k = config) keys"

definition not_comparable :: string where
  "not_comparable = ''no comparable benchmark results between baseline and current; check both files are valid `go test -bench` output''"

definition checkBudget :: "metric_keys \<Rightarrow> bench_table list \<Rightarrow> string + bench_result" where
  "checkBudget keys tables =
    (let benchmarkSet = remdups (concat (map (\<lambda>t. map rw_Benchmark (bt_Rows t)) tables));
         violations = concat (map (\<lambda>t. List.map_filter (rowViolation (bt_Metric t)) (bt_Rows t)) tables);
         missing = missingBenchmarks keys in
     if benchmarkSet = [] then
       (if missing \<noteq> [] then Inr \<lparr>br_Benchmarks = [], br_Violations = [], br_Missing = missing\<rparr> else Inl not_comparable)
     else Inr \<lparr>br_Benchmarks = sort benchmarkSet, br_Violations = sort_key (\<lambda>v. (bv_Benchmark v, bv_Metric v)) violations, br_Missing = missing\<rparr>)"

section \<open>Reading a run\<close>

definition looksLikeGoTestOutput :: "string \<Rightarrow> bool" where
  "looksLikeGoTestOutput data \<longleftrightarrow> list_ex (\<lambda>l.
     let s = trim_space l in
     has_prefix s ''goos:'' \<or> has_prefix s ''goarch:'' \<or> has_prefix s ''pkg:'' \<or> has_prefix s ''cpu:'' \<or>
     (case str_fields s of [] \<Rightarrow> False | f # _ \<Rightarrow> f = ''ok'' \<or> f = ''?'' \<or> f = ''FAIL''))
   (split_lines data)"

datatype bench_error = OpenError string | Oversized

definition addBoundedConfig :: "(string \<Rightarrow> string + string list) \<Rightarrow> string + string \<Rightarrow> bench_error + bool \<times> string list" where
  "addBoundedConfig add_file contents =
    (case contents of
       Inl e \<Rightarrow> Inl (OpenError e)
     | Inr data \<Rightarrow>
         if length data > maxBenchOutputBytes then Inl Oversized
         else
           (case add_file data of
              Inl e \<Rightarrow> Inl (OpenError e)
            | Inr benchmarks \<Rightarrow> Inr (looksLikeGoTestOutput data, benchmarks)))"

definition describeConfigError :: "(nat \<Rightarrow> bool) \<Rightarrow> string \<Rightarrow> string \<Rightarrow> bench_error \<Rightarrow> string" where
  "describeConfigError isprint label path e =
    (case e of
       Oversized \<Rightarrow> label @ '' file '' @ quote isprint path @ '' exceeds the '' @ itoa (int maxBenchOutputBytes) @ ''-byte size limit''
     | OpenError t \<Rightarrow> ''cannot open '' @ label @ '' file '' @ quote isprint path @ '': '' @ t)"

section \<open>The report\<close>

definition bench_label :: "string \<Rightarrow> string" where
  "bench_label b = ''Benchmark'' @ b @ '':''"

definition label_width :: "string list \<Rightarrow> nat" where
  "label_width bs = foldl max 0 (map (\<lambda>b. length (bench_label b)) bs)"

definition bench_formatPass :: "bench_result \<Rightarrow> string" where
  "bench_formatPass r =
    ''PASS  performance budget met ('' @ itoa (int (length (br_Benchmarks r))) @ '' benchmarks checked)'' @ [nl] @
    concat (map (\<lambda>b. ''  '' @ pad_right (label_width (br_Benchmarks r)) (bench_label b) @ ''  within budget'' @ [nl]) (br_Benchmarks r))"

text \<open>The arguments print a number with no and with one decimal.\<close>

definition formatDeltaVsBudget :: "(rat \<Rightarrow> string) \<Rightarrow> (rat \<Rightarrow> string) \<Rightarrow> bench_violation \<Rightarrow> string" where
  "formatDeltaVsBudget fmt0 fmt1 v =
    (if bv_Metric v = metricAllocsOp then ''+'' @ fmt0 (bv_Delta v) @ '' > '' @ fmt0 (bv_Budget v) @ '' budget''
     else ''+'' @ fmt1 (bv_Delta v) @ ''% > '' @ fmt1 (bv_Budget v) @ ''% budget'')"

definition bench_formatFail :: "(rat \<Rightarrow> string) \<Rightarrow> (rat \<Rightarrow> string) \<Rightarrow> bench_result \<Rightarrow> string" where
  "bench_formatFail fmt0 fmt1 r =
    (let width = label_width (map bv_Benchmark (br_Violations r) @ br_Missing r) in
     ''FAIL  '' @ itoa (int (length (br_Violations r) + length (br_Missing r))) @ '' performance budget failure(s):'' @ [nl] @
     concat (map (\<lambda>v. ''  '' @ pad_right width (bench_label (bv_Benchmark v)) @ ''  '' @ bv_Metric v @ ''  '' @ formatDeltaVsBudget fmt0 fmt1 v @ [nl])
       (br_Violations r)) @
     concat (map (\<lambda>b. ''  '' @ pad_right width (bench_label b) @
       ''  missing from current run (tracked in baseline; check for a build failure or panic)'' @ [nl]) (br_Missing r)))"

section \<open>The command\<close>

text \<open>
  Exit code, stdout and stderr. \<^verbatim>\<open>contents\<close> is what opening and reading a path gives, \<^verbatim>\<open>add_file\<close> the
  benchmarks \<^verbatim>\<open>AddFile\<close> records for a run, \<^verbatim>\<open>tables_of\<close> the comparison of two runs.
\<close>

definition run_benchcheck ::
  "(nat \<Rightarrow> bool) \<Rightarrow> (rat \<Rightarrow> string) \<Rightarrow> (rat \<Rightarrow> string) \<Rightarrow> (string \<Rightarrow> string + string) \<Rightarrow> (string \<Rightarrow> string + string list) \<Rightarrow>
   (string \<Rightarrow> string \<Rightarrow> bench_table list) \<Rightarrow> string \<Rightarrow> string \<Rightarrow> int \<times> string \<times> string" where
  "run_benchcheck isprint fmt0 fmt1 contents add_file tables_of baselinePath currentPath =
    (let bad = (\<lambda>msg. (bench_exitBadInput, [], ''benchcheck: '' @ msg @ [nl])) in
     if baselinePath = [] then bad ''-baseline is required''
     else if currentPath = [] then bad ''-current is required''
     else
       (case addBoundedConfig add_file (contents baselinePath) of
          Inl e \<Rightarrow> bad (describeConfigError isprint ''baseline'' baselinePath e)
        | Inr (_, base) \<Rightarrow>
            (case addBoundedConfig add_file (contents currentPath) of
               Inl e \<Rightarrow> bad (describeConfigError isprint ''current'' currentPath e)
             | Inr (go_test, cur) \<Rightarrow>
                 let keys = map (Pair configBaseline) base @ map (Pair configCurrent) cur in
                 if \<not> configHasBenchmarkMetrics keys configBaseline
                 then bad ''no benchmark results in baseline; check the file is valid `go test -bench` output''
                 else if \<not> configHasBenchmarkMetrics keys configCurrent \<and> \<not> go_test
                 then bad ''no benchmark results in current; check the file is valid `go test -bench` output''
                 else
                   (case checkBudget keys (tables_of (projr (contents baselinePath)) (projr (contents currentPath))) of
                      Inl e \<Rightarrow> bad e
                    | Inr r \<Rightarrow> if bench_Pass r then (bench_exitOK, bench_formatPass r, []) else (bench_exitViolation, [], bench_formatFail fmt0 fmt1 r)))))"

section \<open>Lemmas\<close>

lemma missing_set: "set (missingBenchmarks keys) = set (benchmarks_of configBaseline keys) - set (benchmarks_of configCurrent keys)"
  by (auto simp: missingBenchmarks_def)

lemma keys_benchmarks:
  "benchmarks_of configBaseline (map (Pair configBaseline) base @ map (Pair configCurrent) cur) = base"
  "benchmarks_of configCurrent (map (Pair configBaseline) base @ map (Pair configCurrent) cur) = cur"
  by (simp_all add: benchmarks_of_def filter_map comp_def configBaseline_def configCurrent_def)

lemma map_filter_empty: "List.map_filter f xs = [] \<longleftrightarrow> (\<forall>x \<in> set xs. f x = None)"
  by (induction xs) (auto simp: map_filter_simps split: option.splits)

text \<open>A row is over budget: significant, and beyond the limit of its metric.\<close>

definition over_budget :: "string \<Rightarrow> bench_row \<Rightarrow> bool" where
  "over_budget metric row \<longleftrightarrow> rw_Change row = -1 \<and>
    (metric = ''time/op'' \<and> rw_PctDelta row > 5 \<or> metric = ''allocs/op'' \<and> (\<exists>old new. rw_Means row = [old, new] \<and> new - old > 1))"

lemma rowViolation_iff: "rowViolation metric row \<noteq> None \<longleftrightarrow> over_budget metric row"
  by (auto simp: rowViolation_def over_budget_def metricTimeOp_def metricAllocsOp_def maxNsOpRegressionPercent_def maxAllocsOpIncrease_def
      split: list.splits)

lemma sort_key_Nil: "sort_key f xs = [] \<longleftrightarrow> xs = []"
  by (metis set_empty set_sort)

lemma checkBudget_pass:
  assumes "checkBudget keys tables = Inr r"
  shows "bench_Pass r \<longleftrightarrow> list_all (\<lambda>t. list_all (\<lambda>row. \<not> over_budget (bt_Metric t) row) (bt_Rows t)) tables \<and>
    set (benchmarks_of configBaseline keys) \<subseteq> set (benchmarks_of configCurrent keys)"
proof -
  have missing: "missingBenchmarks keys = [] \<longleftrightarrow> set (benchmarks_of configBaseline keys) \<subseteq> set (benchmarks_of configCurrent keys)"
    by (metis Diff_eq_empty_iff missing_set set_empty)
  have rows: "concat (map (\<lambda>t. List.map_filter (rowViolation (bt_Metric t)) (bt_Rows t)) tables) = [] \<longleftrightarrow>
      list_all (\<lambda>t. list_all (\<lambda>row. \<not> over_budget (bt_Metric t) row) (bt_Rows t)) tables"
    by (simp add: map_filter_empty list_all_iff rowViolation_iff [symmetric])
  show ?thesis
  proof (cases "concat (map (\<lambda>t. map rw_Benchmark (bt_Rows t)) tables) = []")
    case True
    then show ?thesis using assms missing by (auto simp: checkBudget_def Let_def bench_Pass_def split: if_splits)
  next
    case False
    then have "r = \<lparr>br_Benchmarks = sort (remdups (concat (map (\<lambda>t. map rw_Benchmark (bt_Rows t)) tables))),
        br_Violations = sort_key (\<lambda>v. (bv_Benchmark v, bv_Metric v)) (concat (map (\<lambda>t. List.map_filter (rowViolation (bt_Metric t)) (bt_Rows t)) tables)),
        br_Missing = missingBenchmarks keys\<rparr>"
      using assms unfolding checkBudget_def Let_def remdups_eq_nil_iff if_not_P [OF False] by (simp only: sum.inject)
    then show ?thesis by (simp add: bench_Pass_def sort_key_Nil missing rows del: concat_eq_Nil_conv)
  qed
qed

section \<open>Properties\<close>

text \<open>
  The gate passes only when no compared row is over budget and every benchmark of the
  baseline is in the current run: a benchmark that no longer builds cannot vanish.
\<close>

theorem benchcheck_pass_sound:
  assumes "fst (run_benchcheck isprint fmt0 fmt1 contents add_file tables_of bpath cpath) = 0"
  shows "\<exists>bdata cdata base cur. contents bpath = Inr bdata \<and> contents cpath = Inr cdata \<and> add_file bdata = Inr base \<and> add_file cdata = Inr cur \<and>
    base \<noteq> [] \<and> set base \<subseteq> set cur \<and>
    list_all (\<lambda>t. list_all (\<lambda>row. \<not> over_budget (bt_Metric t) row) (bt_Rows t)) (tables_of bdata cdata)"
proof -
  have run: "fst (run_benchcheck isprint fmt0 fmt1 contents add_file tables_of bpath cpath) = 0" by (fact assms)
  obtain gb base where b: "addBoundedConfig add_file (contents bpath) = Inr (gb, base)"
    using run by (auto simp: run_benchcheck_def Let_def bench_exitBadInput_def split: if_splits sum.splits)
  obtain gc cur where c: "addBoundedConfig add_file (contents cpath) = Inr (gc, cur)"
    using run b by (auto simp: run_benchcheck_def Let_def bench_exitBadInput_def split: if_splits sum.splits)
  obtain bdata cdata where data: "contents bpath = Inr bdata" "add_file bdata = Inr base" "contents cpath = Inr cdata" "add_file cdata = Inr cur"
    using b c by (auto simp: addBoundedConfig_def split: sum.splits if_splits)
  let ?keys = "map (Pair configBaseline) base @ map (Pair configCurrent) cur"
  have "base \<noteq> [] \<and> (\<exists>r. checkBudget ?keys (tables_of bdata cdata) = Inr r \<and> bench_Pass r)"
    using run b c data
    by (auto simp: run_benchcheck_def Let_def bench_exitBadInput_def bench_exitViolation_def configHasBenchmarkMetrics_def list_ex_iff
        configBaseline_def configCurrent_def split: if_splits sum.splits)
  then show ?thesis using data checkBudget_pass [of ?keys] by (auto simp: keys_benchmarks)
qed

end
