(* ===== verification/Size_Check.thy ===== *)
theory Size_Check
  imports Complex_Main Go_Text Ax_Contract
begin

text \<open>
  The binary-size gate \<^verbatim>\<open>src/internal/cmd/sizecheck/main.go\<close>: configuration, the two builds, the
  ceiling, the reduction ratio and the envelopes. The Go command, the file system, the JSON
  encoder and the streams are arguments; the ratio is an exact rational. The lemmas say
  exactly when the gate passes.
\<close>

section \<open>Constants and configuration\<close>

definition maxIsolatedBinaryBytes :: int where "maxIsolatedBinaryBytes = 3000000"
definition minReductionPercent :: rat where "minReductionPercent = 75"
definition percentScale :: rat where "percentScale = 100"
definition statusPass :: string where "statusPass = ''pass''"
definition isolatedProbe :: string where "isolatedProbe = ''./examples/logging''"
definition rootProbe :: string where "rootProbe = ''./examples/rootlogging''"

definition codeBuildFailed :: string where "codeBuildFailed = ''size_build_failed''"
definition codeCeiling :: string where "codeCeiling = ''size_ceiling_exceeded''"
definition codeRatio :: string where "codeRatio = ''size_reduction_insufficient''"
definition size_codeArtifact :: string where "size_codeArtifact = ''invalid_size_artifact''"
definition codeSizePermission :: string where "codeSizePermission = ''size_permission''"
definition size_codeInternal :: string where "size_codeInternal = ''size_internal''"

definition buildFlags :: "string list" where "buildFlags = [''-trimpath'', ''-ldflags=-s -w'']"

text \<open>A builder takes directory, package and output file; a failure says whether it is \<^verbatim>\<open>fs.ErrPermission\<close>.\<close>

type_synonym builder = "string \<Rightarrow> string \<Rightarrow> string \<Rightarrow> (bool \<times> go_error) option"

record sizeConfig =
  sz_Dir :: string
  sz_Build :: "builder option"
  sz_Ceiling :: int
  sz_MinReduction :: rat
  sz_IsolatedPkg :: string
  sz_RootPkg :: string

text \<open>
  The outside: running \<^verbatim>\<open>go\<close> with arguments in a directory (failure with the combined output),
  the size of a file, a temporary directory, \<^verbatim>\<open>filepath.Join\<close>, the encoder, the streams.
\<close>

record size_world =
  zw_go :: "string \<Rightarrow> string list \<Rightarrow> (bool \<times> go_error \<times> string) option"
  zw_stat :: "string \<Rightarrow> go_error + int"
  zw_mkdir_temp :: "go_error + string"
  zw_join :: "string \<Rightarrow> string \<Rightarrow> string"
  zw_marshal :: "any_value \<Rightarrow> go_error + string"
  zw_number :: "rat \<Rightarrow> any_value"
  zw_stdout :: "string \<Rightarrow> go_error option"
  zw_stderr :: "string \<Rightarrow> go_error option"
  zw_isprint :: "nat \<Rightarrow> bool"
  zw_version :: "string option"
  zw_ctx :: "gctx option"

definition goBuild :: "size_world \<Rightarrow> builder" where
  "goBuild w dir pkg out =
    (case zw_go w dir ([''build''] @ buildFlags @ [''-o'', out, pkg]) of
       None \<Rightarrow> None
     | Some (permission, e, combined) \<Rightarrow>
         Some (permission, WrapError (''go build '' @ pkg) (SuffixError e (trim_space combined))))"

definition size_resolve :: "size_world \<Rightarrow> sizeConfig \<Rightarrow> sizeConfig" where
  "size_resolve w c =
    \<lparr>sz_Dir = (if sz_Dir c = [] then ''.'' else sz_Dir c),
     sz_Build = Some (case sz_Build c of Some b \<Rightarrow> b | None \<Rightarrow> goBuild w),
     sz_Ceiling = (if sz_Ceiling c = 0 then maxIsolatedBinaryBytes else sz_Ceiling c),
     sz_MinReduction = (if sz_MinReduction c = 0 then minReductionPercent else sz_MinReduction c),
     sz_IsolatedPkg = (if sz_IsolatedPkg c = [] then isolatedProbe else sz_IsolatedPkg c),
     sz_RootPkg = (if sz_RootPkg c = [] then rootProbe else sz_RootPkg c)\<rparr>"

section \<open>Output\<close>

text \<open>Exit code, payloads handed to stdout, payloads handed to stderr.\<close>

type_synonym size_out = "int \<times> string list \<times> string list"

definition size_version :: "string option \<Rightarrow> string" where
  "size_version info = (case info of Some v \<Rightarrow> (if v \<noteq> [] \<and> v \<noteq> ''(devel)'' then v else ''dev'') | None \<Rightarrow> ''dev'')"

definition size_emitFailure :: "size_world \<Rightarrow> string \<Rightarrow> string \<Rightarrow> string \<Rightarrow> int \<Rightarrow> go_error \<Rightarrow> size_out" where
  "size_emitFailure w errcode message suggestion exit cause =
    (let env = NewError (zw_ctx w) errcode message
       ([WithErrorTool ''sizecheck'', WithErrorVersion (size_version (zw_version w)), WithErrorExitCode exit,
         WithRetryable False, WithErrorCause (Some cause)] @ (if suggestion \<noteq> [] then [WithSuggestions [suggestion]] else [])) in
     case WriteError (zw_isprint w) (zw_marshal w) (zw_stderr w) (Some (as_error env)) of
       (payload, err) \<Rightarrow> (if err \<noteq> None then ExitInternal else exit, [], case payload of Some p \<Rightarrow> [p] | None \<Rightarrow> []))"

definition size_writeDocument :: "size_world \<Rightarrow> any_value \<Rightarrow> size_out" where
  "size_writeDocument w v =
    (case zw_marshal w v of
       Inl e \<Rightarrow> size_emitFailure w size_codeInternal ''unexpected internal failure encoding the result'' [] ExitInternal e
     | Inr payload \<Rightarrow>
         (case zw_stdout w (payload @ [nl]) of
            None \<Rightarrow> (ExitSuccess, [payload @ [nl]], [])
          | Some e \<Rightarrow>
              (case size_emitFailure w size_codeInternal ''unexpected internal failure writing the result'' [] ExitInternal e of
                 (exit, out, err) \<Rightarrow> (exit, (payload @ [nl]) # out, err))))"

section \<open>Measuring\<close>

definition size_measure :: "size_world \<Rightarrow> sizeConfig \<Rightarrow> string \<Rightarrow> string \<Rightarrow> size_out + int" where
  "size_measure w cfg pkg out =
    (case (case sz_Build cfg of Some b \<Rightarrow> b | None \<Rightarrow> goBuild w) (sz_Dir cfg) pkg out of
       Some (permission, e) \<Rightarrow> Inl (
         if permission
         then size_emitFailure w codeSizePermission ''permission denied executing the Go toolchain''
           ''check execute and read permissions on the Go toolchain and module'' ExitAuth e
         else size_emitFailure w codeBuildFailed (''could not build the size probe '' @ pkg)
           ''the size budget was NOT checked; fix the build failure first'' ExitValidation e)
     | None \<Rightarrow>
         (case zw_stat w out of
            Inl e \<Rightarrow> Inl (size_emitFailure w size_codeInternal (''unexpected internal failure measuring the built probe '' @ pkg) [] ExitInternal e)
          | Inr n \<Rightarrow> Inr n))"

definition reductionPercent :: "size_world \<Rightarrow> int \<Rightarrow> int \<Rightarrow> size_out + rat" where
  "reductionPercent w isolated rootBytes =
    (if rootBytes \<le> 0 then
       Inl (size_emitFailure w size_codeInternal ''unexpected internal failure computing the size reduction'' [] ExitInternal
         (TextError (''root probe measured '' @ itoa rootBytes @ '' bytes, so the reduction ratio is undefined'')))
     else Inr ((1 - of_int isolated / of_int rootBytes) * percentScale))"

section \<open>The run\<close>

definition size_result :: "size_world \<Rightarrow> sizeConfig \<Rightarrow> int \<Rightarrow> int \<Rightarrow> rat \<Rightarrow> any_value" where
  "size_result w cfg isolated rootBytes reduction = ObjVal
    [(''status'', StrVal statusPass), (''isolated_bytes'', IntVal isolated), (''root_bytes'', IntVal rootBytes),
     (''reduction_percent'', zw_number w reduction), (''ceiling_bytes'', IntVal (sz_Ceiling cfg)),
     (''min_reduction_percent'', zw_number w (sz_MinReduction cfg))]"

text \<open>The causes of the two budget failures are not serialised; \<^verbatim>\<open>%.2f\<close> is the argument \<^verbatim>\<open>fmt2\<close>.\<close>

definition run_sizecheck :: "size_world \<Rightarrow> (rat \<Rightarrow> string) \<Rightarrow> sizeConfig \<Rightarrow> go_error + string list \<Rightarrow> size_out" where
  "run_sizecheck w fmt2 config parsed =
    (case parsed of
       Inl e \<Rightarrow> size_emitFailure w size_codeArtifact ''invalid sizecheck flags'' (''fix the command line: '' @ error_text (zw_isprint w) e) ExitValidation e
     | Inr args \<Rightarrow>
         if args \<noteq> [] then
           size_emitFailure w size_codeArtifact ''invalid sizecheck arguments'' ''remove the positional arguments'' ExitValidation
             (TextError (''unexpected positional arguments: '' @ str_join '' '' args))
         else
           let cfg = size_resolve w config in
           (case zw_mkdir_temp w of
              Inl e \<Rightarrow> size_emitFailure w size_codeInternal ''unexpected internal failure creating the build directory'' [] ExitInternal e
            | Inr tmp \<Rightarrow>
                (case size_measure w cfg (sz_IsolatedPkg cfg) (zw_join w tmp ''isolated.bin'') of
                   Inl out \<Rightarrow> out
                 | Inr isolated \<Rightarrow>
                     (case size_measure w cfg (sz_RootPkg cfg) (zw_join w tmp ''root.bin'') of
                        Inl out \<Rightarrow> out
                      | Inr rootBytes \<Rightarrow>
                          if isolated > sz_Ceiling cfg then
                            size_emitFailure w codeCeiling ''the import-isolated logging binary exceeds its absolute size ceiling''
                              (''run `go list -deps '' @ sz_IsolatedPkg cfg @ ''` to find the new transitive dependency before '' @
                               ''considering a ceiling change in internal/cmd/sizecheck/main.go'') ExitValidation
                              (TextError (sz_IsolatedPkg cfg @ '' is '' @ itoa isolated @ '' bytes, exceeding the '' @ itoa (sz_Ceiling cfg) @
                                ''-byte ceiling by '' @ itoa (isolated - sz_Ceiling cfg)))
                          else
                            (case reductionPercent w isolated rootBytes of
                               Inl out \<Rightarrow> out
                             | Inr reduction \<Rightarrow>
                                 if reduction < sz_MinReduction cfg then
                                   size_emitFailure w codeRatio ''the import-isolated logging binary is not sufficiently smaller than the root-facade build''
                                     (''the ratio is toolchain-independent, so a newer Go cannot explain this: something reachable '' @
                                      ''from the logging surface gained weight the root facade did not. Find it with '' @
                                      ''`go list -deps` before touching minReductionPercent, which is a spec change, not a calibration'')
                                     ExitValidation
                                     (TextError (''reduction is '' @ fmt2 reduction @ ''% ('' @ itoa isolated @ '' vs '' @ itoa rootBytes @
                                       '' bytes), below the '' @ fmt2 (sz_MinReduction cfg) @ ''% minimum''))
                                 else size_writeDocument w (size_result w cfg isolated rootBytes reduction))))))"

section \<open>Lemmas\<close>

lemma size_failure_exit: "exit \<noteq> ExitSuccess \<Longrightarrow> fst (size_emitFailure w c m s exit e) \<noteq> ExitSuccess"
  by (simp add: size_emitFailure_def Let_def exit_defs split: prod.split)

lemma size_exits: "ExitInternal \<noteq> ExitSuccess" "ExitValidation \<noteq> ExitSuccess" "ExitAuth \<noteq> ExitSuccess"
  by (simp_all add: exit_defs)

lemma size_measure_exit: "size_measure w cfg pkg out = Inl r \<Longrightarrow> fst r \<noteq> ExitSuccess"
  by (auto simp: size_measure_def size_failure_exit size_exits split: option.splits sum.splits if_splits)

lemma reduction_exit: "reductionPercent w i r = Inl out \<Longrightarrow> fst out \<noteq> ExitSuccess"
  by (auto simp: reductionPercent_def size_failure_exit size_exits split: if_splits)

lemma reduction_value: "0 < r \<Longrightarrow> reductionPercent w i r = Inr ((1 - of_int i / of_int r) * 100)"
  by (simp add: reductionPercent_def percentScale_def)

section \<open>Properties\<close>

text \<open>
  With the default budgets the gate passes exactly when both probes build and have a size,
  the isolated one has at most 3000000 bytes and at most a quarter of a positive root size,
  and the result could be written.
\<close>

theorem sizecheck_passes_iff:
  "fst (run_sizecheck w fmt2 \<lparr>sz_Dir = [], sz_Build = b, sz_Ceiling = 0, sz_MinReduction = 0, sz_IsolatedPkg = [], sz_RootPkg = []\<rparr> parsed) = ExitSuccess \<longleftrightarrow>
    (\<exists>tmp isolated rootBytes cfg. parsed = Inr [] \<and> zw_mkdir_temp w = Inr tmp \<and>
      cfg = size_resolve w \<lparr>sz_Dir = [], sz_Build = b, sz_Ceiling = 0, sz_MinReduction = 0, sz_IsolatedPkg = [], sz_RootPkg = []\<rparr> \<and>
      size_measure w cfg isolatedProbe (zw_join w tmp ''isolated.bin'') = Inr isolated \<and>
      size_measure w cfg rootProbe (zw_join w tmp ''root.bin'') = Inr rootBytes \<and>
      isolated \<le> 3000000 \<and> 0 < rootBytes \<and> 4 * isolated \<le> rootBytes \<and>
      fst (size_writeDocument w (size_result w cfg isolated rootBytes ((1 - of_int isolated / of_int rootBytes) * 100))) = ExitSuccess)"
proof -
  define cfg where "cfg = size_resolve w \<lparr>sz_Dir = [], sz_Build = b, sz_Ceiling = 0, sz_MinReduction = 0, sz_IsolatedPkg = [], sz_RootPkg = []\<rparr>"
  have fields: "sz_IsolatedPkg cfg = isolatedProbe" "sz_RootPkg cfg = rootProbe" "sz_Ceiling cfg = 3000000" "sz_MinReduction cfg = 75"
    by (simp_all add: cfg_def size_resolve_def maxIsolatedBinaryBytes_def minReductionPercent_def)
  have quarter: "(1 - of_int i / of_int r) * 100 < (75 :: rat) \<longleftrightarrow> \<not> 4 * i \<le> r" if "0 < r" for i r :: int
  proof -
    have "(1 - of_int i / of_int r) * 100 < (75 :: rat) \<longleftrightarrow> (of_int r :: rat) < 4 * of_int i"
      using that by (simp add: field_simps)
    also have "\<dots> \<longleftrightarrow> r < 4 * i"
      by (metis of_int_less_iff of_int_mult of_int_numeral)
    finally show ?thesis by auto
  qed
  note run = run_sizecheck_def Let_def cfg_def [symmetric] fields size_failure_exit size_exits
  show ?thesis
  proof (cases "parsed = Inr []")
    case False
    then show ?thesis by (cases parsed) (auto simp: run_sizecheck_def size_failure_exit size_exits)
  next
    case parsed: True
    show ?thesis
    proof (cases "zw_mkdir_temp w")
      case (Inl e)
      then show ?thesis by (simp add: run parsed)
    next
      case tmp: (Inr tmp)
      show ?thesis
      proof (cases "size_measure w cfg isolatedProbe (zw_join w tmp ''isolated.bin'')")
        case (Inl out)
        then show ?thesis using size_measure_exit [OF Inl] by (simp add: run parsed tmp)
      next
        case iso: (Inr isolated)
        show ?thesis
        proof (cases "size_measure w cfg rootProbe (zw_join w tmp ''root.bin'')")
          case (Inl out)
          then show ?thesis using size_measure_exit [OF Inl] by (simp add: run parsed tmp iso)
        next
          case rootm: (Inr rootBytes)
          show ?thesis
          proof (cases "0 < rootBytes")
            case False
            then show ?thesis
              by (cases "reductionPercent w isolated rootBytes") (auto simp: run parsed tmp iso rootm dest: reduction_exit, simp_all add: reductionPercent_def)
          next
            case pos: True
            show ?thesis using quarter [OF pos, of isolated]
              by (simp add: run parsed tmp iso rootm reduction_value [OF pos] pos)
          qed
        qed
      qed
    qed
  qed
qed

end
