(* ===== verification/Gate_Output.thy ===== *)
theory Gate_Output
  imports Go_Text Ax_Contract
begin

text \<open>
  What the analysis gates \<^verbatim>\<open>src/internal/cmd/slopcheck\<close> and \<^verbatim>\<open>src/internal/cmd/deadcheck\<close> share in shape: the bounded
  buffers of a child process, one JSON document on stdout, one error envelope with its cause in the
  context on stderr, and the tool version. The lemmas give the exit codes and the stream discipline.
\<close>

section \<open>Bounded buffers\<close>

text \<open>
  The writes of a child into a \<^verbatim>\<open>cappedBuffer\<close>: a write that does not fit is refused, which stops the copy.
\<close>

fun capped_writes :: "string \<Rightarrow> nat \<Rightarrow> string \<Rightarrow> string list \<Rightarrow> string \<times> go_error option" where
  "capped_writes label limit buf [] = (buf, None)"
| "capped_writes label limit buf (p # ps) =
    (if length p > limit - length buf then (buf, Some (TextError (label @ '' output exceeds '' @ itoa (int limit) @ '' bytes'')))
     else capped_writes label limit (buf @ p) ps)"

text \<open>A child that has run: what it wrote to each stream, and the error of its end.\<close>

record child_run =
  cr_stdout :: "string list"
  cr_stderr :: "string list"
  cr_error :: "go_error option"

text \<open>\<^verbatim>\<open>(*exec.Cmd).Run\<close>: the error of the process, else the first of copying its streams.\<close>

definition capped_run :: "string \<Rightarrow> nat \<Rightarrow> child_run \<Rightarrow> string \<times> string \<times> go_error option" where
  "capped_run label limit r =
    (let out = capped_writes label limit [] (cr_stdout r); err = capped_writes label limit [] (cr_stderr r) in
     (fst out, fst err, first_some [cr_error r, snd out, snd err]))"

lemma capped_writes_bound: "length buf \<le> limit \<Longrightarrow> length (fst (capped_writes label limit buf ps)) \<le> limit"
  by (induction label limit buf ps rule: capped_writes.induct) auto

lemma capped_writes_complete: "snd (capped_writes label limit buf ps) = None \<Longrightarrow> fst (capped_writes label limit buf ps) = buf @ concat ps"
  by (induction label limit buf ps rule: capped_writes.induct) (auto split: if_splits)

lemma capped_run_bound: "length (fst (capped_run label limit r)) \<le> limit" "length (fst (snd (capped_run label limit r))) \<le> limit"
  by (simp_all add: capped_run_def Let_def capped_writes_bound)

lemma capped_run_complete: "snd (snd (capped_run label limit r)) = None \<Longrightarrow> fst (capped_run label limit r) = concat (cr_stdout r)"
  by (auto simp: capped_run_def Let_def capped_writes_complete [where buf = "[]", simplified])

section \<open>Streams\<close>

text \<open>The encoder, what writing to each stream returns, the build metadata, the context.\<close>

record gate_io =
  gi_isprint :: "nat \<Rightarrow> bool"
  gi_marshal :: "any_value \<Rightarrow> go_error + string"
  gi_stdout :: "string \<Rightarrow> go_error option"
  gi_stderr :: "string \<Rightarrow> go_error option"
  gi_version :: "string option"
  gi_ctx :: "gctx option"

text \<open>Exit code, payloads handed to stdout, payloads handed to stderr.\<close>

type_synonym gate_out = "int \<times> string list \<times> string list"

definition gate_version :: "string option \<Rightarrow> string" where
  "gate_version info = (case info of Some v \<Rightarrow> (if v \<noteq> [] \<and> v \<noteq> ''(devel)'' then v else ''dev'') | None \<Rightarrow> ''dev'')"

definition gate_failure :: "gate_io \<Rightarrow> string \<Rightarrow> string \<Rightarrow> string \<Rightarrow> string \<Rightarrow> int \<Rightarrow> go_error \<Rightarrow> gate_out" where
  "gate_failure io tool errcode message suggestion exit cause =
    (let env = NewError (gi_ctx io) errcode message
       ([WithErrorTool tool, WithErrorVersion (gate_version (gi_version io)), WithErrorExitCode exit, WithRetryable False,
         WithErrorCause (Some cause), WithErrorContext [(''cause'', StrVal (error_text (gi_isprint io) cause))]] @
        (if suggestion \<noteq> [] then [WithSuggestions [suggestion]] else [])) in
     case WriteError (gi_isprint io) (gi_marshal io) (gi_stderr io) (Some (as_error env)) of
       (payload, err) \<Rightarrow> (if err \<noteq> None then ExitInternal else exit, [], case payload of Some p \<Rightarrow> [p] | None \<Rightarrow> []))"

definition gate_document :: "gate_io \<Rightarrow> string \<Rightarrow> string \<Rightarrow> any_value \<Rightarrow> gate_out" where
  "gate_document io tool errcode v =
    (case gi_marshal io v of
       Inl e \<Rightarrow> gate_failure io tool errcode ''could not encode result'' [] ExitInternal e
     | Inr payload \<Rightarrow>
         (case gi_stdout io (payload @ [nl]) of
            None \<Rightarrow> (ExitSuccess, [payload @ [nl]], [])
          | Some e \<Rightarrow>
              (case gate_failure io tool errcode ''could not write result'' [] ExitInternal e of
                 (exit, out, err) \<Rightarrow> (exit, (payload @ [nl]) # out, err))))"

lemma gate_failure_exit: "exit \<noteq> ExitSuccess \<Longrightarrow> fst (gate_failure io tool c m s exit e) \<noteq> ExitSuccess"
  by (simp add: gate_failure_def Let_def exit_defs split: prod.split)

lemma gate_failure_stdout: "fst (snd (gate_failure io tool c m s exit e)) = []"
  by (simp add: gate_failure_def Let_def split: prod.split)

lemma gate_failure_stderr: "length (snd (snd (gate_failure io tool c m s exit e))) \<le> 1"
  by (simp add: gate_failure_def Let_def split: prod.split option.split)

lemma gate_exits: "ExitInternal \<noteq> ExitSuccess" "ExitValidation \<noteq> ExitSuccess" "ExitAuth \<noteq> ExitSuccess" "ExitNetwork \<noteq> ExitSuccess"
  by (simp_all add: exit_defs)

lemma gate_document_ok:
  "fst (gate_document io tool c v) = ExitSuccess \<longleftrightarrow> (\<exists>p. gi_marshal io v = Inr p \<and> gi_stdout io (p @ [nl]) = None)"
  by (auto simp: gate_document_def gate_failure_exit gate_exits split: sum.split option.split prod.split)
    (metis fst_conv gate_exits(1) gate_failure_exit)

text \<open>When the envelope can be encoded and written, the exit code is the one asked for.\<close>

definition can_fail :: "gate_io \<Rightarrow> bool" where
  "can_fail io \<longleftrightarrow> (\<forall>v. \<exists>p. gi_marshal io v = Inr p) \<and> (\<forall>p. gi_stderr io p = None)"

lemma gate_failure_code: "can_fail io \<Longrightarrow> fst (gate_failure io tool c m s exit e) = exit"
proof -
  assume ok: "can_fail io"
  have "snd (WriteError (gi_isprint io) (gi_marshal io) (gi_stderr io) (Some x)) = None" for x
    using ok by (auto simp: WriteError_def Let_def can_fail_def split: sum.split) (metis Inl_Inr_False)
  then show ?thesis by (simp add: gate_failure_def Let_def split_def)
qed

end
