(* ===== verification/Type_Graph.thy ===== *)
theory Type_Graph
  imports Main
begin

text \<open>
  Go types as a graph, for \<^verbatim>\<open>src/internal/unreadfield\<close>: \<^verbatim>\<open>expose\<close> of \<^verbatim>\<open>scope.go\<close> and \<^verbatim>\<open>visitType\<close> of \<^verbatim>\<open>escape.go\<close> are
  one recursive walk with a \<^verbatim>\<open>seen\<close> map and two ways to read a type. A type is an index into the
  graph, since \<^verbatim>\<open>seen\<close> compares types by identity. The lemmas show that the walk ends on recursive types and
  calls the visitor for exactly the fields of the types reachable from where it starts.
\<close>

section \<open>Types\<close>

type_synonym tid = nat

text \<open>
  A field variable: the identity of its \<^verbatim>\<open>Origin\<close>, its name, and whether it is exported or
  embedded, where it is declared and its type. A generic and an instantiated field have the same origin.
\<close>

record field_var =
  fv_Origin :: nat
  fv_Name :: string
  fv_Exported :: bool
  fv_Embedded :: bool
  fv_Pos :: nat
  fv_Type :: tid

text \<open>
  Basic, alias, parameter and union types are \<^verbatim>\<open>OtherType\<close>. A named type has its type arguments, whether it is declared in the analysed package, and of its
  origin the methods (exported, type) and the underlying type.
\<close>

datatype ty_node =
    NamedType "tid list" bool "(bool \<times> tid) list" tid
  | PointerType tid
  | SliceType tid
  | ArrayType tid
  | ChanType tid
  | MapType tid tid
  | SignatureType tid tid bool
  | TupleType "tid list"
  | InterfaceType "(bool \<times> tid) list" "tid list"
  | StructTypeOf "field_var list"
  | OtherType

text \<open>\<^verbatim>\<open>types.Unalias\<close> and \<^verbatim>\<open>Underlying\<close> are the checker's own and fields of the graph.\<close>

record type_graph =
  tg_nodes :: "ty_node list"
  tg_unalias :: "tid \<Rightarrow> tid"
  tg_underlying :: "tid \<Rightarrow> tid"

definition node_of :: "type_graph \<Rightarrow> tid \<Rightarrow> ty_node" where
  "node_of g t = (if t < length (tg_nodes g) then tg_nodes g ! t else OtherType)"

section \<open>The walk\<close>

text \<open>What a type makes the walk do, in order: call the visitor on something, such as a field, or enter a type.\<close>

datatype 'v walk_item = Visit 'v | Enter tid

type_synonym 'v walk_graph = "'v walk_item list list"

definition items_of :: "'v walk_graph \<Rightarrow> tid \<Rightarrow> 'v walk_item list" where
  "items_of adj t = (if t < length adj then adj ! t else [])"

function walk_types :: "'v walk_graph \<Rightarrow> ('v \<Rightarrow> 's \<Rightarrow> 's) \<Rightarrow> 'v walk_item list \<Rightarrow> tid list \<times> 's \<Rightarrow> tid list \<times> 's" where
  "walk_types adj visit [] st = st"
| "walk_types adj visit (Visit v # ws) st = walk_types adj visit ws (fst st, visit v (snd st))"
| "walk_types adj visit (Enter t # ws) st =
    (if t \<in> set (fst st) then walk_types adj visit ws st
     else walk_types adj visit ws (walk_types adj visit (items_of adj t) (t # fst st, snd st)))"
  by pat_completeness auto

lemma walk_types_seen_dom:
  "walk_types_dom (adj, visit, ws, st) \<Longrightarrow> set (fst st) \<subseteq> set (fst (walk_types adj visit ws st))"
  by (induction adj visit ws st rule: walk_types.pinduct) (force simp: walk_types.psimps)+

termination walk_types
proof (relation "inv_image (less_than <*lex*> less_than) (\<lambda>(adj, visit, ws, st). (card ({..< length adj} - set (fst st)), length ws))", goal_cases)
  case (4 adj visit t ws st)
  show ?case
  proof (cases "t < length adj")
    case True
    then have "card ({..< length adj} - insert t (set (fst st))) < card ({..< length adj} - set (fst st))"
      using 4 by (intro psubset_card_mono) auto
    then show ?thesis by simp
  next
    case False
    then have "{..< length adj} - insert t (set (fst st)) = {..< length adj} - set (fst st)" by auto
    then show ?thesis using False by (simp add: items_of_def)
  qed
next
  case (5 adj visit t ws st)
  have "set (fst st) \<subseteq> set (fst (walk_types adj visit (items_of adj t) (t # fst st, snd st)))"
    using walk_types_seen_dom [OF 5(2)] by auto
  then have "card ({..< length adj} - set (fst (walk_types adj visit (items_of adj t) (t # fst st, snd st)))) \<le> card ({..< length adj} - set (fst st))"
    by (intro card_mono) auto
  then show ?case by (auto simp: le_less)
qed auto

text \<open>One entry with nothing seen, as every caller makes it.\<close>

definition walk_from :: "'v walk_graph \<Rightarrow> ('v \<Rightarrow> 's \<Rightarrow> 's) \<Rightarrow> tid list \<Rightarrow> 's \<Rightarrow> 's" where
  "walk_from adj visit ts s = snd (walk_types adj visit (map Enter ts) ([], s))"

section \<open>Two readings of a type\<close>

definition enter :: "type_graph \<Rightarrow> tid \<Rightarrow> 'v walk_item" where
  "enter g t = Enter (tg_unalias g t)"

definition exposeMethod :: "type_graph \<Rightarrow> bool \<times> tid \<Rightarrow> field_var walk_item list" where
  "exposeMethod g m = (if fst m then [enter g (snd m)] else [])"

definition exposeNamed :: "type_graph \<Rightarrow> tid list \<Rightarrow> bool \<Rightarrow> (bool \<times> tid) list \<Rightarrow> tid \<Rightarrow> field_var walk_item list" where
  "exposeNamed g args own methods underlying =
    map (enter g) args @ (if own then concat (map (exposeMethod g) methods) @ [enter g underlying] else [])"

primrec expose_items :: "type_graph \<Rightarrow> ty_node \<Rightarrow> field_var walk_item list" where
  "expose_items g (NamedType args own methods underlying) = exposeNamed g args own methods underlying"
| "expose_items g (PointerType t) = [enter g t]"
| "expose_items g (SliceType t) = [enter g t]"
| "expose_items g (ArrayType t) = [enter g t]"
| "expose_items g (ChanType t) = [enter g t]"
| "expose_items g (MapType k v) = [enter g k, enter g v]"
| "expose_items g (SignatureType params results variadic) = [enter g params, enter g results]"
| "expose_items g (TupleType ts) = map (enter g) ts"
| "expose_items g (InterfaceType methods embedded) = concat (map (exposeMethod g) methods) @ map (enter g) embedded"
| "expose_items g (StructTypeOf fs) = concat (map (\<lambda>v. if fv_Exported v \<or> fv_Embedded v then [Visit v, enter g (fv_Type v)] else []) fs)"
| "expose_items g OtherType = []"

primrec visit_items :: "type_graph \<Rightarrow> ty_node \<Rightarrow> field_var walk_item list" where
  "visit_items g (NamedType args own methods underlying) = map (enter g) args @ (if own then [enter g underlying] else [])"
| "visit_items g (PointerType t) = [enter g t]"
| "visit_items g (SliceType t) = [enter g t]"
| "visit_items g (ArrayType t) = [enter g t]"
| "visit_items g (ChanType t) = [enter g t]"
| "visit_items g (MapType k v) = [enter g k, enter g v]"
| "visit_items g (SignatureType params results variadic) = [enter g params, enter g results]"
| "visit_items g (TupleType ts) = map (enter g) ts"
| "visit_items g (InterfaceType methods embedded) = []"
| "visit_items g (StructTypeOf fs) = concat (map (\<lambda>v. [Visit v, enter g (fv_Type v)]) fs)"
| "visit_items g OtherType = []"

text \<open>
  \<^verbatim>\<open>expose\<close> run on the types of the exported objects of the scope in one \<^verbatim>\<open>seen\<close>; \<^verbatim>\<open>visitType\<close> on one type.
\<close>

definition exposedFields :: "type_graph \<Rightarrow> (bool \<times> tid) list \<Rightarrow> nat list" where
  "exposedFields g scope =
    walk_from (map (expose_items g) (tg_nodes g)) (\<lambda>v acc. fv_Origin v # acc) (map (tg_unalias g \<circ> snd) (filter fst scope)) []"

definition visitType :: "type_graph \<Rightarrow> (field_var \<Rightarrow> 's \<Rightarrow> 's) \<Rightarrow> tid \<Rightarrow> 's \<Rightarrow> 's" where
  "visitType g visit t s = walk_from (map (visit_items g) (tg_nodes g)) visit [tg_unalias g t] s"

section \<open>Reachable types\<close>

inductive reaches :: "'v walk_graph \<Rightarrow> tid \<Rightarrow> tid \<Rightarrow> bool" for adj where
  reaches_refl: "reaches adj t t"
| reaches_step: "reaches adj t u \<Longrightarrow> Enter w \<in> set (items_of adj u) \<Longrightarrow> reaches adj t w"

inductive_cases reachesE: "reaches adj t u"

definition visits :: "'v walk_item list \<Rightarrow> 'v set" where
  "visits ws = {v. Visit v \<in> set ws}"

definition entered :: "'v walk_item list \<Rightarrow> tid set" where
  "entered ws = {t. Enter t \<in> set ws}"

lemma visits_simps [simp]: "visits [] = {}" "visits (Visit v # ws) = insert v (visits ws)" "visits (Enter t # ws) = visits ws" "visits (map Enter ts) = {}"
  by (auto simp: visits_def)

lemma entered_simps [simp]: "entered [] = {}" "entered (Visit v # ws) = entered ws" "entered (Enter t # ws) = insert t (entered ws)" "entered (map Enter ts) = set ts"
  by (auto simp: entered_def)

lemma reaches_trans: "reaches adj u w \<Longrightarrow> reaches adj t u \<Longrightarrow> reaches adj t w"
  by (induction rule: reaches.induct) (auto intro: reaches.intros)

lemma reaches_closed:
  assumes "reaches adj t u" "t \<in> S" "\<And>x. x \<in> S \<Longrightarrow> entered (items_of adj x) \<subseteq> S"
  shows "u \<in> S"
  using assms by (induction rule: reaches.induct) (auto simp: entered_def)

text \<open>
  The walk adds types to \<^verbatim>\<open>seen\<close> and folds the visitor over fields: those of the items and of the added
  types. What the items and the added types enter is seen, and every added type is reachable.
\<close>

lemma walk_types_spec:
  "\<exists>new vs. fst (walk_types adj visit ws st) = new @ fst st \<and> snd (walk_types adj visit ws st) = fold visit vs (snd st) \<and>
    set vs = visits ws \<union> (\<Union>t \<in> set new. visits (items_of adj t)) \<and>
    entered ws \<union> (\<Union>t \<in> set new. entered (items_of adj t)) \<subseteq> set new \<union> set (fst st) \<and>
    (\<forall>t \<in> set new. \<exists>u \<in> entered ws. reaches adj u t)"
proof (induction adj visit ws st rule: walk_types.induct)
  case (1 adj visit st)
  show ?case by (intro exI [of _ "[]"]) simp
next
  case (2 adj visit v ws st)
  then obtain new vs where
    "fst (walk_types adj visit ws (fst st, visit v (snd st))) = new @ fst st"
    "snd (walk_types adj visit ws (fst st, visit v (snd st))) = fold visit (v # vs) (snd st)"
    "set vs = visits ws \<union> (\<Union>t \<in> set new. visits (items_of adj t))"
    "entered ws \<union> (\<Union>t \<in> set new. entered (items_of adj t)) \<subseteq> set new \<union> set (fst st)"
    "\<forall>t \<in> set new. \<exists>u \<in> entered ws. reaches adj u t" by auto
  then show ?case by (intro exI [of _ new] exI [of _ "v # vs"]) simp
next
  case (3 adj visit t ws st)
  show ?case
  proof (cases "t \<in> set (fst st)")
    case True
    obtain new vs where
      "fst (walk_types adj visit ws st) = new @ fst st" "snd (walk_types adj visit ws st) = fold visit vs (snd st)"
      "set vs = visits ws \<union> (\<Union>t \<in> set new. visits (items_of adj t))"
      "entered ws \<union> (\<Union>t \<in> set new. entered (items_of adj t)) \<subseteq> set new \<union> set (fst st)"
      "\<forall>t \<in> set new. \<exists>u \<in> entered ws. reaches adj u t" using "3.IH"(1) [OF True] by blast
    then show ?thesis using True by (intro exI [of _ new] exI [of _ vs]) auto
  next
    case False
    define st1 where "st1 = walk_types adj visit (items_of adj t) (t # fst st, snd st)"
    obtain new1 vs1 where s1: "fst st1 = new1 @ t # fst st" "snd st1 = fold visit vs1 (snd st)"
      "set vs1 = visits (items_of adj t) \<union> (\<Union>t \<in> set new1. visits (items_of adj t))"
      "entered (items_of adj t) \<union> (\<Union>t \<in> set new1. entered (items_of adj t)) \<subseteq> set new1 \<union> insert t (set (fst st))"
      "\<forall>x \<in> set new1. \<exists>u \<in> entered (items_of adj t). reaches adj u x"
      using "3.IH"(2) [OF False] unfolding st1_def by auto
    obtain new2 vs2 where s2: "fst (walk_types adj visit ws st1) = new2 @ fst st1" "snd (walk_types adj visit ws st1) = fold visit vs2 (snd st1)"
      "set vs2 = visits ws \<union> (\<Union>t \<in> set new2. visits (items_of adj t))"
      "entered ws \<union> (\<Union>t \<in> set new2. entered (items_of adj t)) \<subseteq> set new2 \<union> set (fst st1)"
      "\<forall>x \<in> set new2. \<exists>u \<in> entered ws. reaches adj u x"
      using "3.IH"(3) [OF False] unfolding st1_def by blast
    have step: "reaches adj t x" if "x \<in> set new1" for x
    proof -
      obtain u where u: "u \<in> entered (items_of adj t)" "reaches adj u x" using s1(5) \<open>x \<in> set new1\<close> by blast
      then have "reaches adj t u" by (auto simp: entered_def intro: reaches_step [OF reaches_refl])
      then show ?thesis by (rule reaches_trans [OF u(2)])
    qed
    have walk: "walk_types adj visit (Enter t # ws) st = walk_types adj visit ws st1" using False by (simp add: st1_def)
    show ?thesis unfolding walk
    proof (intro exI [of _ "new2 @ new1 @ [t]"] exI [of _ "vs1 @ vs2"] conjI)
      show "fst (walk_types adj visit ws st1) = (new2 @ new1 @ [t]) @ fst st" by (simp add: s1 s2)
      show "snd (walk_types adj visit ws st1) = fold visit (vs1 @ vs2) (snd st)" by (simp add: s1 s2)
      show "set (vs1 @ vs2) = visits (Enter t # ws) \<union> (\<Union>t \<in> set (new2 @ new1 @ [t]). visits (items_of adj t))"
        unfolding set_append s1(3) s2(3) by auto
      show "entered (Enter t # ws) \<union> (\<Union>t \<in> set (new2 @ new1 @ [t]). entered (items_of adj t)) \<subseteq> set (new2 @ new1 @ [t]) \<union> set (fst st)"
        using s1(4) s2(4) unfolding s1(1) by auto
      show "\<forall>x \<in> set (new2 @ new1 @ [t]). \<exists>u \<in> entered (Enter t # ws). reaches adj u x"
        using s2(5) step by (auto intro: reaches_refl)
    qed
  qed
qed

text \<open>The visitor is folded over exactly the fields of the reachable types.\<close>

lemma walk_from_visits:
  "\<exists>vs. walk_from adj visit ts s = fold visit vs s \<and>
    set vs = {v. \<exists>t \<in> set ts. \<exists>u. reaches adj t u \<and> Visit v \<in> set (items_of adj u)}"
proof -
  obtain new vs where w: "fst (walk_types adj visit (map Enter ts) ([], s)) = new"
    "snd (walk_types adj visit (map Enter ts) ([], s)) = fold visit vs s"
    "set vs = (\<Union>t \<in> set new. visits (items_of adj t))"
    "set ts \<union> (\<Union>t \<in> set new. entered (items_of adj t)) \<subseteq> set new"
    "\<forall>t \<in> set new. \<exists>u \<in> set ts. reaches adj u t"
    using walk_types_spec [of adj visit "map Enter ts" "([], s)"] by auto
  have "set new = {u. \<exists>t \<in> set ts. reaches adj t u}"
  proof (intro equalityI subsetI)
    fix u assume "u \<in> set new" then show "u \<in> {u. \<exists>t \<in> set ts. reaches adj t u}" using w(5) by simp
  next
    fix u assume "u \<in> {u. \<exists>t \<in> set ts. reaches adj t u}"
    then obtain t where "t \<in> set ts" "reaches adj t u" by auto
    then show "u \<in> set new" using w(4) by (intro reaches_closed [of adj t u "set new"]) auto
  qed
  then have "set vs = {v. \<exists>t \<in> set ts. \<exists>u. reaches adj t u \<and> Visit v \<in> set (items_of adj u)}"
    using w(3) by (auto simp: visits_def)
  then show ?thesis using w(2) unfolding walk_from_def by blast
qed

definition reachable_fields :: "type_graph \<Rightarrow> tid \<Rightarrow> field_var set" where
  "reachable_fields g t = {v. \<exists>u. reaches (map (visit_items g) (tg_nodes g)) (tg_unalias g t) u \<and>
    Visit v \<in> set (items_of (map (visit_items g) (tg_nodes g)) u)}"

lemma visitType_fold:
  obtains vs where "visitType g visit t s = fold visit vs s" "set vs = reachable_fields g t"
  using walk_from_visits [of "map (visit_items g) (tg_nodes g)" visit "[tg_unalias g t]" s]
  by (auto simp: visitType_def reachable_fields_def)

lemma fold_or: "fold (\<lambda>v b. b \<or> P v) vs b \<longleftrightarrow> b \<or> (\<exists>v \<in> set vs. P v)"
  by (induction vs arbitrary: b) auto

lemma fold_and: "fold (\<lambda>v b. b \<and> P v) vs b \<longleftrightarrow> b \<and> (\<forall>v \<in> set vs. P v)"
  by (induction vs arbitrary: b) auto

lemma fold_collect: "set (fold (\<lambda>v acc. f v # acc) vs acc) = f ` set vs \<union> set acc"
  by (induction vs arbitrary: acc) auto

lemma visitType_or: "visitType g (\<lambda>v b. b \<or> P v) t b \<longleftrightarrow> b \<or> (\<exists>v \<in> reachable_fields g t. P v)"
  by (rule visitType_fold [of g "\<lambda>v b. b \<or> P v" t b]) (simp add: fold_or)

lemma visitType_and: "visitType g (\<lambda>v b. b \<and> P v) t b \<longleftrightarrow> b \<and> (\<forall>v \<in> reachable_fields g t. P v)"
  by (rule visitType_fold [of g "\<lambda>v b. b \<and> P v" t b]) (simp add: fold_and)

lemma visitType_collect: "set (visitType g (\<lambda>v acc. f v # acc) t acc) = f ` reachable_fields g t \<union> set acc"
  by (rule visitType_fold [of g "\<lambda>v acc. f v # acc" t acc]) (simp add: fold_collect)

text \<open>
  A field is exposed exactly when a chain of types leads to it from an exported object and the
  field itself is exported or embedded.
\<close>

theorem exposedFields_exact:
  "set (exposedFields g scope) = fv_Origin ` {v. \<exists>obj \<in> set scope. fst obj \<and>
    (\<exists>u. reaches (map (expose_items g) (tg_nodes g)) (tg_unalias g (snd obj)) u \<and>
      Visit v \<in> set (items_of (map (expose_items g) (tg_nodes g)) u))}"
proof -
  let ?adj = "map (expose_items g) (tg_nodes g)"
  obtain vs where "exposedFields g scope = fold (\<lambda>v acc. fv_Origin v # acc) vs []"
    "set vs = {v. \<exists>t \<in> set (map (tg_unalias g \<circ> snd) (filter fst scope)). \<exists>u. reaches ?adj t u \<and> Visit v \<in> set (items_of ?adj u)}"
    using walk_from_visits [of ?adj "\<lambda>v acc. fv_Origin v # acc" "map (tg_unalias g \<circ> snd) (filter fst scope)" "[]"]
    unfolding exposedFields_def by blast
  moreover have "(\<exists>t \<in> set (map (tg_unalias g \<circ> snd) (filter fst scope)). P t) \<longleftrightarrow> (\<exists>obj \<in> set scope. fst obj \<and> P (tg_unalias g (snd obj)))" for P
    unfolding set_map set_filter comp_def by blast
  ultimately show ?thesis by (simp only: fold_collect) simp
qed

lemma visited_public:
  "Visit v \<in> set (items_of (map (expose_items g) (tg_nodes g)) u) \<Longrightarrow> fv_Exported v \<or> fv_Embedded v"
  by (cases "tg_nodes g ! u")
    (auto simp: items_of_def enter_def exposeNamed_def exposeMethod_def split: if_splits)

end
