(* ===== verification/Unread_Ast.thy ===== *)
theory Unread_Ast
  imports Type_Graph Go_Strconv "HOL-Library.AList" "HOL-Library.List_Lexorder" "HOL-Library.Char_ord" "HOL-Library.Product_Lexorder"
begin

text \<open>
  The input of the unread-field analysis of \<^verbatim>\<open>src/internal/unreadfield\<close> and its candidates: the data
  of \<^verbatim>\<open>types.go\<close>, Go syntax trees with \<^verbatim>\<open>ast.Inspect\<close>, the facts of the type checker, and \<^verbatim>\<open>scope.go\<close>. The lemmas say
  which fields become candidates.
\<close>

section \<open>Results\<close>

record field_key =
  fk_Package :: string
  fk_Type :: string
  fk_Field :: string

record src_position =
  ps_File :: string
  ps_Line :: int
  ps_Col :: int

record unread_finding =
  uf_Key :: field_key
  uf_Declared :: src_position
  uf_Assigned :: "src_position list"

record unread_result =
  ur_Assigned :: "field_key list"
  ur_Findings :: "unread_finding list"

definition key_tuple :: "field_key \<Rightarrow> string \<times> string \<times> string" where
  "key_tuple k = (fk_Package k, fk_Type k, fk_Field k)"

definition position_tuple :: "src_position \<Rightarrow> string \<times> int \<times> int" where
  "position_tuple p = (ps_File p, ps_Line p, ps_Col p)"

definition position_string :: "src_position \<Rightarrow> string" where
  "position_string p = ps_File p @ '':'' @ itoa (ps_Line p) @ '':'' @ itoa (ps_Col p)"

definition key_string :: "field_key \<Rightarrow> string" where
  "key_string k = fk_Package k @ ''.'' @ fk_Type k @ ''.'' @ fk_Field k"

definition finding_message :: "unread_finding \<Rightarrow> string" where
  "finding_message f = ''struct field '' @ fk_Type (uf_Key f) @ ''.'' @ fk_Field (uf_Key f) @ '' is assigned but never read''"

definition finding_string :: "unread_finding \<Rightarrow> string" where
  "finding_string f = position_string (uf_Declared f) @ '': '' @ key_string (uf_Key f) @ '' (assigned at '' @
     str_join '', '' (map position_string (uf_Assigned f)) @ '')''"

section \<open>Syntax trees\<close>

text \<open>
  A node has an identity, its Go constructor's parts in the order \<^verbatim>\<open>ast.Walk\<close> visits them,
  and what the analysis asks of it: the operator of a unary expression as far as it is
  \<^verbatim>\<open>&\<close> or \<^verbatim>\<open>\<leftarrow>\<close>, the token of an assignment or range as far as it is \<^verbatim>\<open>=\<close> or \<^verbatim>\<open>:=\<close>, the spread of a call. Comments, tags and
  the name of a declared function are no nodes here; the name of a declared type is among the
  nodes before its type.
\<close>

datatype unary_op = OpAnd | OpArrow | OpUnary
datatype assign_tok = TokAssign | TokDefine | TokOther

datatype go_node =
    NIdent nat string
  | NParen nat go_node
  | NStar nat go_node
  | NUnary nat unary_op go_node
  | NSelector nat go_node go_node
  | NIndex nat go_node go_node
  | NIndexList nat go_node "go_node list"
  | NSlice nat go_node "go_node list"
  | NCall nat go_node "go_node list" bool
  | NComposite nat "go_node option" "go_node list"
  | NKeyValue nat go_node go_node
  | NFuncLit nat go_node go_node
  | NFuncType nat "go_node list" "go_node option"
  | NStructType nat go_node
  | NExpr nat "go_node list"
  | NFieldList nat "go_node list"
  | NField nat "go_node list" go_node
  | NExprStmt nat go_node
  | NAssign nat "go_node list" assign_tok "go_node list"
  | NRange nat "go_node option" "go_node option" assign_tok go_node go_node
  | NSend nat go_node go_node
  | NReturn nat "go_node list"
  | NValueSpec nat "go_node list" "go_node option" "go_node list"
  | NTypeSpec nat string "go_node list" go_node
  | NFuncDecl nat "go_node option" string bool go_node "go_node option"
  | NGenDecl nat "go_node list"
  | NOther nat "go_node list"

primrec nid :: "go_node \<Rightarrow> nat" where
  "nid (NIdent i s) = i"
| "nid (NParen i x) = i"
| "nid (NStar i x) = i"
| "nid (NUnary i oper x) = i"
| "nid (NSelector i x s) = i"
| "nid (NIndex i x y) = i"
| "nid (NIndexList i x ys) = i"
| "nid (NSlice i x ys) = i"
| "nid (NCall i f args spread) = i"
| "nid (NComposite i t es) = i"
| "nid (NKeyValue i k v) = i"
| "nid (NFuncLit i t b) = i"
| "nid (NFuncType i ps rs) = i"
| "nid (NStructType i fs) = i"
| "nid (NExpr i xs) = i"
| "nid (NFieldList i fs) = i"
| "nid (NField i ns t) = i"
| "nid (NExprStmt i x) = i"
| "nid (NAssign i ls tok rs) = i"
| "nid (NRange i k v tok x b) = i"
| "nid (NSend i c x) = i"
| "nid (NReturn i xs) = i"
| "nid (NValueSpec i ns t vs) = i"
| "nid (NTypeSpec i n ps t) = i"
| "nid (NFuncDecl i r n ex t b) = i"
| "nid (NGenDecl i ss) = i"
| "nid (NOther i xs) = i"

definition opt_list :: "'a option \<Rightarrow> 'a list" where
  "opt_list x = (case x of None \<Rightarrow> [] | Some y \<Rightarrow> [y])"

primrec children :: "go_node \<Rightarrow> go_node list" where
  "children (NIdent i s) = []"
| "children (NParen i x) = [x]"
| "children (NStar i x) = [x]"
| "children (NUnary i oper x) = [x]"
| "children (NSelector i x s) = [x, s]"
| "children (NIndex i x y) = [x, y]"
| "children (NIndexList i x ys) = x # ys"
| "children (NSlice i x ys) = x # ys"
| "children (NCall i f args spread) = f # args"
| "children (NComposite i t es) = opt_list t @ es"
| "children (NKeyValue i k v) = [k, v]"
| "children (NFuncLit i t b) = [t, b]"
| "children (NFuncType i ps rs) = ps @ opt_list rs"
| "children (NStructType i fs) = [fs]"
| "children (NExpr i xs) = xs"
| "children (NFieldList i fs) = fs"
| "children (NField i ns t) = ns @ [t]"
| "children (NExprStmt i x) = [x]"
| "children (NAssign i ls tok rs) = ls @ rs"
| "children (NRange i k v tok x b) = opt_list k @ opt_list v @ [x, b]"
| "children (NSend i c x) = [c, x]"
| "children (NReturn i xs) = xs"
| "children (NValueSpec i ns t vs) = ns @ opt_list t @ vs"
| "children (NTypeSpec i n ps t) = ps @ [t]"
| "children (NFuncDecl i r n ex t b) = opt_list r @ [t] @ opt_list b"
| "children (NGenDecl i ss) = ss"
| "children (NOther i xs) = xs"

lemma opt_list_set [simp]: "set (opt_list x) = set_option x"
  by (cases x) (simp_all add: opt_list_def)

lemma member_size: "c \<in> set xs \<Longrightarrow> size c \<le> size_list size xs"
  by (rule size_list_estimation' [OF _ order_refl])

lemma option_size: "c \<in> set_option x \<Longrightarrow> size c < size_option size x"
  by (cases x) simp_all

lemma children_size [termination_simp]: "c \<in> set (children n) \<Longrightarrow> size c < size n"
  by (cases n) (auto dest!: member_size option_size)

text \<open>
  \<^verbatim>\<open>ast.Inspect\<close> with the stack of ancestors that \<^verbatim>\<open>walk\<close> keeps: the nodes in the order they are visited,
  each with its ancestors, the parent first.
\<close>

function inspect :: "go_node list \<Rightarrow> go_node \<Rightarrow> (go_node \<times> go_node list) list" where
  "inspect stack n = (n, stack) # concat (map (inspect (n # stack)) (children n))"
  by pat_completeness auto
termination
  by (relation "measure (\<lambda>(stack, n). size n)") (simp_all add: children_size)

declare inspect.simps [simp del]

definition is_expr :: "go_node \<Rightarrow> bool" where
  "is_expr n \<longleftrightarrow> (case n of
     NFieldList _ _ \<Rightarrow> False | NField _ _ _ \<Rightarrow> False | NExprStmt _ _ \<Rightarrow> False | NAssign _ _ _ _ \<Rightarrow> False | NRange _ _ _ _ _ _ \<Rightarrow> False
   | NSend _ _ _ \<Rightarrow> False | NReturn _ _ \<Rightarrow> False | NValueSpec _ _ _ _ \<Rightarrow> False | NTypeSpec _ _ _ _ \<Rightarrow> False
   | NFuncDecl _ _ _ _ _ _ \<Rightarrow> False | NGenDecl _ _ \<Rightarrow> False | NOther _ _ \<Rightarrow> False | _ \<Rightarrow> True)"

text \<open>\<^verbatim>\<open>slices.Contains\<close> and \<^verbatim>\<open>slices.Index\<close> on nodes, which compare pointers.\<close>

definition node_in :: "go_node \<Rightarrow> go_node list \<Rightarrow> bool" where
  "node_in e ns \<longleftrightarrow> list_ex (\<lambda>n. nid n = nid e) ns"

fun node_index :: "go_node \<Rightarrow> go_node list \<Rightarrow> nat option" where
  "node_index e [] = None"
| "node_index e (n # ns) = (if nid n = nid e then Some 0 else map_option Suc (node_index e ns))"

text \<open>\<^verbatim>\<open>ast.Unparen\<close>.\<close>

fun unparen :: "go_node \<Rightarrow> go_node" where
  "unparen (NParen i x) = unparen x"
| "unparen n = n"

section \<open>The type checker's facts\<close>

record type_value =
  tv_Type :: tid
  tv_IsValue :: bool
  tv_IsType :: bool
  tv_IsBuiltin :: bool

text \<open>A function object: whether it belongs to the analysed package, and the type of its origin.\<close>

datatype go_object = VarObject field_var | FuncObject bool tid | OtherObject

record go_selection =
  sl_Recv :: tid
  sl_Index :: "nat list"
  sl_Obj :: go_object
  sl_IsMethodVal :: bool
  sl_RecvIsInterface :: bool

text \<open>
  One type-checked unit: its files (whether generated, the declarations), the facts of
  \<^verbatim>\<open>types.Info\<close> by node, the types, the scope (exported, type) in the order of its names, the position of a node, where a
  position lies in the sources, \<^verbatim>\<open>types.ExprString\<close> and \<^verbatim>\<open>filepath.Base\<close>.
\<close>

record unit_info =
  ui_Path :: string
  ui_Files :: "(bool \<times> go_node) list"
  ui_Types :: "nat \<Rightarrow> type_value option"
  ui_TypeOf :: "nat \<Rightarrow> tid option"
  ui_Uses :: "nat \<Rightarrow> go_object option"
  ui_Selections :: "nat \<Rightarrow> go_selection option"
  ui_Graph :: type_graph
  ui_Scope :: "(bool \<times> tid) list"
  ui_Pos :: "nat \<Rightarrow> nat"
  ui_PositionFor :: "nat \<Rightarrow> src_position"
  ui_ExprString :: "go_node \<Rightarrow> string"
  ui_Base :: "string \<Rightarrow> string"

definition underlying_node :: "unit_info \<Rightarrow> tid \<Rightarrow> ty_node" where
  "underlying_node u t = node_of (ui_Graph u) (tg_underlying (ui_Graph u) t)"

text \<open>The struct underlying a type or what it points to.\<close>

definition structOf :: "unit_info \<Rightarrow> tid option \<Rightarrow> field_var list option" where
  "structOf u t =
    (case t of
       None \<Rightarrow> None
     | Some t \<Rightarrow>
         (case underlying_node u (case underlying_node u t of PointerType e \<Rightarrow> e | _ \<Rightarrow> t) of
            StructTypeOf fs \<Rightarrow> Some fs
          | _ \<Rightarrow> None))"

section \<open>Candidates\<close>

record candidate =
  cd_Key :: field_key
  cd_Declared :: nat
  cd_Assigned :: "nat list"
  cd_Read :: bool

text \<open>The map from the identity of a field to what is known of it.\<close>

type_synonym candidates = "(nat \<times> candidate) list"

definition unread_qualify :: "unit_info \<Rightarrow> string \<Rightarrow> nat \<Rightarrow> string" where
  "unread_qualify u name pos =
    (let p = ui_PositionFor u pos in
     name @ ''@'' @ ui_Base u (ps_File p) @ '':'' @ itoa (ps_Line p) @ '':'' @ itoa (ps_Col p))"

definition register_field :: "unit_info \<Rightarrow> string \<Rightarrow> nat list \<Rightarrow> candidates \<Rightarrow> field_var \<Rightarrow> candidates" where
  "register_field u typeName exposed cs v =
    (if fv_Name v = ''_'' \<or> fv_Origin v \<in> set exposed then cs
     else AList.update (fv_Origin v)
       \<lparr>cd_Key = \<lparr>fk_Package = ui_Path u, fk_Type = typeName, fk_Field = fv_Name v\<rparr>, cd_Declared = fv_Pos v, cd_Assigned = [], cd_Read = False\<rparr> cs)"

definition unread_register :: "unit_info \<Rightarrow> nat list \<Rightarrow> nat \<Rightarrow> string \<Rightarrow> candidates \<Rightarrow> candidates" where
  "unread_register u exposed st typeName cs =
    (case ui_TypeOf u st of
       Some t \<Rightarrow> (case node_of (ui_Graph u) t of StructTypeOf fs \<Rightarrow> foldl (register_field u typeName exposed) cs fs | _ \<Rightarrow> cs)
     | None \<Rightarrow> cs)"

text \<open>
  One node of \<^verbatim>\<open>collectIn\<close>; the state is the set of named struct types and the candidates.
  Only a type spec that is itself the root keeps its bare name. \<^verbatim>\<open>n.Name.Pos()\<close> is where the spec starts.
\<close>

definition collect_node :: "unit_info \<Rightarrow> nat list \<Rightarrow> nat \<Rightarrow> nat list \<times> candidates \<Rightarrow> go_node \<Rightarrow> nat list \<times> candidates" where
  "collect_node u exposed root_id st n =
    (case n of
       NTypeSpec i name ps (NStructType j fs) \<Rightarrow>
         (j # fst st, unread_register u exposed j (if i \<noteq> root_id then unread_qualify u name (ui_Pos u i) else name) (snd st))
     | NStructType j fs \<Rightarrow>
         (if j \<in> set (fst st) then st else (fst st, unread_register u exposed j (unread_qualify u ''struct{...}'' (ui_Pos u j)) (snd st)))
     | _ \<Rightarrow> st)"

definition collectIn :: "unit_info \<Rightarrow> nat list \<Rightarrow> candidates \<Rightarrow> go_node \<Rightarrow> candidates" where
  "collectIn u exposed cs r = snd (foldl (collect_node u exposed (nid r)) ([], cs) (map fst (inspect [] r)))"

definition collectDecl :: "unit_info \<Rightarrow> nat list \<Rightarrow> candidates \<Rightarrow> go_node \<Rightarrow> candidates" where
  "collectDecl u exposed cs d =
    (case d of
       NGenDecl i specs \<Rightarrow> foldl (collectIn u exposed) cs specs
     | NFuncDecl i r name ex t b \<Rightarrow> collectIn u exposed cs d
     | _ \<Rightarrow> cs)"

definition collectCandidates :: "unit_info \<Rightarrow> candidates" where
  "collectCandidates u =
    (let exposed = exposedFields (ui_Graph u) (ui_Scope u) in
     foldl (\<lambda>cs f. if fst f then cs else foldl (collectDecl u exposed) cs (children (snd f))) [] (ui_Files u))"

section \<open>Lemmas\<close>

text \<open>A candidate as registered: in this package, not blank, not exposed, not yet assigned or read.\<close>

definition fresh_candidate :: "unit_info \<Rightarrow> nat list \<Rightarrow> nat \<times> candidate \<Rightarrow> bool" where
  "fresh_candidate u exposed oc \<longleftrightarrow> fst oc \<notin> set exposed \<and> fk_Package (cd_Key (snd oc)) = ui_Path u \<and> fk_Field (cd_Key (snd oc)) \<noteq> ''_'' \<and>
    cd_Assigned (snd oc) = [] \<and> \<not> cd_Read (snd oc)"

definition fresh_candidates :: "unit_info \<Rightarrow> nat list \<Rightarrow> candidates \<Rightarrow> bool" where
  "fresh_candidates u exposed cs \<longleftrightarrow> distinct (map fst cs) \<and> list_all (fresh_candidate u exposed) cs"

lemma foldl_invariant: "P s \<Longrightarrow> (\<And>s x. P s \<Longrightarrow> P (f s x)) \<Longrightarrow> P (foldl f s xs)"
  by (induction xs arbitrary: s) auto

lemma set_update_subset: "set (AList.update k v xs) \<subseteq> insert (k, v) (set xs)"
  by (induction xs) auto

lemma register_field_fresh: "fresh_candidates u exposed cs \<Longrightarrow> fresh_candidates u exposed (register_field u typeName exposed cs v)"
  using set_update_subset [of "fv_Origin v" _ cs]
  by (fastforce simp: fresh_candidates_def register_field_def distinct_update list_all_iff fresh_candidate_def)

lemma register_fresh: "fresh_candidates u exposed cs \<Longrightarrow> fresh_candidates u exposed (unread_register u exposed st typeName cs)"
  by (auto simp: unread_register_def intro: foldl_invariant register_field_fresh split: option.split ty_node.split)

lemma collect_node_fresh: "fresh_candidates u exposed (snd st) \<Longrightarrow> fresh_candidates u exposed (snd (collect_node u exposed r st n))"
  by (auto simp: collect_node_def register_fresh split: go_node.split)

lemma collectIn_fresh: "fresh_candidates u exposed cs \<Longrightarrow> fresh_candidates u exposed (collectIn u exposed cs r)"
  unfolding collectIn_def
  by (rule foldl_invariant [where P = "\<lambda>st. fresh_candidates u exposed (snd st)"]) (auto intro: collect_node_fresh)

lemma collectDecl_fresh: "fresh_candidates u exposed cs \<Longrightarrow> fresh_candidates u exposed (collectDecl u exposed cs d)"
  by (auto simp: collectDecl_def intro: foldl_invariant collectIn_fresh split: go_node.split)

lemma collectCandidates_fresh: "fresh_candidates u (exposedFields (ui_Graph u) (ui_Scope u)) (collectCandidates u)"
  unfolding collectCandidates_def Let_def
  by (rule foldl_invariant) (auto simp: fresh_candidates_def [where cs = "[]"] intro!: foldl_invariant collectDecl_fresh)

end
