(* ===== verification/Unread_Escape.thy ===== *)
theory Unread_Escape
  imports Unread_Ast
begin

text \<open>
  Whole-value uses, \<^verbatim>\<open>src/internal/unreadfield/escape.go\<close>: which positions of a value only copy it, access it or
  pass it to code the analysis sees, and what every other use reads.
\<close>

section \<open>Copies\<close>

definition is_candidate :: "candidates \<Rightarrow> field_var \<Rightarrow> bool" where
  "is_candidate cs v \<longleftrightarrow> map_of cs (fv_Origin v) \<noteq> None"

definition carries :: "unit_info \<Rightarrow> candidates \<Rightarrow> tid \<Rightarrow> bool" where
  "carries u cs t \<longleftrightarrow> visitType (ui_Graph u) (\<lambda>v found. found \<or> is_candidate cs v) t False"

definition copyHarmless :: "unit_info \<Rightarrow> candidates \<Rightarrow> tid option \<Rightarrow> tid option \<Rightarrow> bool" where
  "copyHarmless u cs src dst \<longleftrightarrow>
    (let reach = (case dst of None \<Rightarrow> [] | Some t \<Rightarrow> visitType (ui_Graph u) (\<lambda>v acc. fv_Origin v # acc) t []) in
     case src of
       None \<Rightarrow> True
     | Some t \<Rightarrow> visitType (ui_Graph u) (\<lambda>v ok. ok \<and> (\<not> is_candidate cs v \<or> fv_Origin v \<in> set reach)) t True)"

text \<open>A destination that is absent or blank discards the value.\<close>

definition destinationHarmless :: "unit_info \<Rightarrow> candidates \<Rightarrow> tid option \<Rightarrow> go_node option \<Rightarrow> bool" where
  "destinationHarmless u cs src lhs \<longleftrightarrow>
    (case lhs of
       None \<Rightarrow> True
     | Some (NIdent i name) \<Rightarrow> name = ''_'' \<or> copyHarmless u cs src (ui_TypeOf u i)
     | Some n \<Rightarrow> copyHarmless u cs src (ui_TypeOf u (nid n)))"

text \<open>A tuple value is paired with its destinations element by element.\<close>

definition tuple_types :: "unit_info \<Rightarrow> tid option \<Rightarrow> tid list option" where
  "tuple_types u t = (case t of Some t \<Rightarrow> (case node_of (ui_Graph u) t of TupleType ts \<Rightarrow> Some ts | _ \<Rightarrow> None) | None \<Rightarrow> None)"

definition assignHarmless :: "unit_info \<Rightarrow> candidates \<Rightarrow> go_node list \<Rightarrow> go_node list \<Rightarrow> go_node \<Rightarrow> bool" where
  "assignHarmless u cs lhs rhs e \<longleftrightarrow>
    node_in e lhs \<or>
    (let src = ui_TypeOf u (nid e) in
     if length lhs = length rhs then
       (case node_index e rhs of Some i \<Rightarrow> destinationHarmless u cs src (Some (lhs ! i)) | None \<Rightarrow> False)
     else
       (case tuple_types u src of
          Some ts \<Rightarrow> length ts = length lhs \<and> list_all2 (\<lambda>t l. destinationHarmless u cs (Some t) (Some l)) ts lhs
        | None \<Rightarrow> False))"

definition rangeHarmless :: "unit_info \<Rightarrow> candidates \<Rightarrow> go_node option \<Rightarrow> go_node option \<Rightarrow> assign_tok \<Rightarrow> go_node \<Rightarrow> go_node \<Rightarrow> bool" where
  "rangeHarmless u cs key val tok x e \<longleftrightarrow>
    nid x \<noteq> nid e \<or> tok \<noteq> TokAssign \<or>
    (case ui_TypeOf u (nid e) of
       None \<Rightarrow> False
     | Some t \<Rightarrow>
         let elem = (case underlying_node u t of PointerType p \<Rightarrow> p | _ \<Rightarrow> t);
             both = (\<lambda>k v. destinationHarmless u cs k key \<and> destinationHarmless u cs v val) in
         (case underlying_node u elem of
            SliceType el \<Rightarrow> both None (Some el)
          | ArrayType el \<Rightarrow> both None (Some el)
          | MapType k el \<Rightarrow> both (Some k) (Some el)
          | ChanType el \<Rightarrow> both (Some el) None
          | _ \<Rightarrow> False))"

definition elementType :: "unit_info \<Rightarrow> nat \<Rightarrow> nat option \<Rightarrow> tid option" where
  "elementType u lit i =
    (case ui_TypeOf u lit of
       None \<Rightarrow> None
     | Some t \<Rightarrow>
         (case underlying_node u (case underlying_node u t of PointerType p \<Rightarrow> p | _ \<Rightarrow> t) of
            StructTypeOf fs \<Rightarrow> (case i of Some k \<Rightarrow> (if k < length fs then Some (fv_Type (fs ! k)) else None) | None \<Rightarrow> None)
          | SliceType el \<Rightarrow> Some el
          | ArrayType el \<Rightarrow> Some el
          | _ \<Rightarrow> None))"

text \<open>The variable a key of a struct literal names.\<close>

definition key_field :: "unit_info \<Rightarrow> go_node \<Rightarrow> field_var option" where
  "key_field u k = (case k of NIdent i name \<Rightarrow> (case ui_Uses u i of Some (VarObject v) \<Rightarrow> Some v | _ \<Rightarrow> None) | _ \<Rightarrow> None)"

definition keyedValueHarmless :: "unit_info \<Rightarrow> candidates \<Rightarrow> go_node \<Rightarrow> go_node \<Rightarrow> go_node \<Rightarrow> bool" where
  "keyedValueHarmless u cs parent k val \<longleftrightarrow>
    (case parent of
       NComposite lit _ _ \<Rightarrow>
         let src = ui_TypeOf u (nid val) in
         (case structOf u (ui_TypeOf u lit) of
            Some fs \<Rightarrow> (case key_field u k of Some field \<Rightarrow> copyHarmless u cs src (Some (fv_Type field)) | None \<Rightarrow> False)
          | None \<Rightarrow>
              (case ui_TypeOf u lit of
                 None \<Rightarrow> False
               | Some t \<Rightarrow>
                   (case underlying_node u t of
                      MapType _ el \<Rightarrow> copyHarmless u cs src (Some el)
                    | SliceType el \<Rightarrow> copyHarmless u cs src (Some el)
                    | ArrayType el \<Rightarrow> copyHarmless u cs src (Some el)
                    | _ \<Rightarrow> False)))
     | _ \<Rightarrow> False)"

section \<open>Calls and returns\<close>

definition func_object :: "go_object option \<Rightarrow> (bool \<times> tid) option" where
  "func_object obj = (case obj of Some (FuncObject own sig) \<Rightarrow> Some (own, sig) | _ \<Rightarrow> None)"

fun staticCallee :: "unit_info \<Rightarrow> go_node \<Rightarrow> (bool \<times> tid) option" where
  "staticCallee u (NIndex i x y) = staticCallee u x"
| "staticCallee u (NIndexList i x ys) = staticCallee u x"
| "staticCallee u (NIdent i name) = func_object (ui_Uses u i)"
| "staticCallee u (NSelector i x s) =
    (case ui_Selections u i of
       Some sel \<Rightarrow> (if \<not> sl_IsMethodVal sel \<or> sl_RecvIsInterface sel then None else func_object (Some (sl_Obj sel)))
     | None \<Rightarrow> func_object (ui_Uses u (nid s)))"
| "staticCallee u _ = None"

definition paramType :: "unit_info \<Rightarrow> tid list \<Rightarrow> bool \<Rightarrow> bool \<Rightarrow> nat option \<Rightarrow> tid option" where
  "paramType u params variadic spread i =
    (case i of
       None \<Rightarrow> None
     | Some k \<Rightarrow>
         if params = [] then None
         else if variadic \<and> k \<ge> length params - 1 then
           (if spread then Some (last params)
            else (case node_of (ui_Graph u) (last params) of SliceType el \<Rightarrow> Some el | _ \<Rightarrow> None))
         else if k < length params then Some (params ! k) else None)"

definition builtinArgHarmless :: "unit_info \<Rightarrow> candidates \<Rightarrow> nat \<Rightarrow> go_node list \<Rightarrow> bool \<Rightarrow> go_node \<Rightarrow> go_node \<Rightarrow> bool" where
  "builtinArgHarmless u cs call args spread f e \<longleftrightarrow>
    (case f of
       NIdent i name \<Rightarrow>
         if name \<in> {''len'', ''cap'', ''copy'', ''clear''} then True
         else if name = ''delete'' then node_index e args = Some 0
         else if name = ''append'' then
           node_index e args = Some 0 \<or>
           (case ui_TypeOf u call of
              None \<Rightarrow> False
            | Some t \<Rightarrow>
                (case underlying_node u t of
                   SliceType el \<Rightarrow>
                     (if spread then copyHarmless u cs (ui_TypeOf u (nid e)) (Some (tg_underlying (ui_Graph u) t))
                      else copyHarmless u cs (ui_TypeOf u (nid e)) (Some el))
                 | _ \<Rightarrow> False))
         else False
     | _ \<Rightarrow> False)"

definition argHarmless :: "unit_info \<Rightarrow> candidates \<Rightarrow> nat \<Rightarrow> go_node \<Rightarrow> go_node list \<Rightarrow> bool \<Rightarrow> go_node \<Rightarrow> bool" where
  "argHarmless u cs call callee args spread e \<longleftrightarrow>
    (let f = unparen callee;
         is_type = (case ui_Types u (nid f) of Some tv \<Rightarrow> tv_IsType tv | None \<Rightarrow> False);
         is_builtin = (case ui_Types u (nid f) of Some tv \<Rightarrow> tv_IsBuiltin tv | None \<Rightarrow> False) in
     if is_type then False
     else if is_builtin then builtinArgHarmless u cs call args spread f e
     else
       (case staticCallee u f of
          Some (True, sig) \<Rightarrow>
            (case node_of (ui_Graph u) sig of
               SignatureType params results variadic \<Rightarrow>
                 (case node_of (ui_Graph u) params of
                    TupleType ts \<Rightarrow>
                      (case paramType u ts variadic spread (node_index e args) of
                         Some p \<Rightarrow> copyHarmless u cs (ui_TypeOf u (nid e)) (Some p)
                       | None \<Rightarrow> False)
                  | _ \<Rightarrow> False)
             | _ \<Rightarrow> False)
        | _ \<Rightarrow> False))"

text \<open>
  The result list of the innermost enclosing function; \<^term>\<open>None\<close> for an exported one.
\<close>

definition func_results :: "go_node \<Rightarrow> go_node option" where
  "func_results t = (case t of NFuncType i ps rs \<Rightarrow> rs | _ \<Rightarrow> None)"

fun enclosing_results :: "go_node list \<Rightarrow> go_node option" where
  "enclosing_results [] = None"
| "enclosing_results (NFuncDecl i r name ex t b # ns) =
    (if ex then None else case func_results t of Some rs \<Rightarrow> Some rs | None \<Rightarrow> enclosing_results ns)"
| "enclosing_results (NFuncLit i t b # ns) = (case func_results t of Some rs \<Rightarrow> Some rs | None \<Rightarrow> enclosing_results ns)"
| "enclosing_results (n # ns) = enclosing_results ns"

definition result_types :: "unit_info \<Rightarrow> go_node \<Rightarrow> tid option list" where
  "result_types u rs =
    concat (map (\<lambda>f. case f of NField i names t \<Rightarrow> replicate (max 1 (length names)) (ui_TypeOf u (nid t)) | _ \<Rightarrow> []) (children rs))"

definition returnHarmless :: "unit_info \<Rightarrow> candidates \<Rightarrow> go_node list \<Rightarrow> go_node \<Rightarrow> go_node list \<Rightarrow> bool" where
  "returnHarmless u cs returned e stack \<longleftrightarrow>
    (case enclosing_results stack of
       None \<Rightarrow> False
     | Some rs \<Rightarrow>
         let types = result_types u rs; src = ui_TypeOf u (nid e) in
         (case (length returned = length types, node_index e returned) of
            (True, Some i) \<Rightarrow> copyHarmless u cs src (types ! i)
          | _ \<Rightarrow>
              (case tuple_types u src of
                 Some ts \<Rightarrow> length ts = length types \<and> list_all2 (\<lambda>t dst. copyHarmless u cs (Some t) dst) ts types
               | None \<Rightarrow> False)))"

section \<open>The allow-list\<close>

definition chanElem :: "unit_info \<Rightarrow> tid option \<Rightarrow> tid option" where
  "chanElem u t = (case t of Some t \<Rightarrow> (case underlying_node u t of ChanType el \<Rightarrow> Some el | _ \<Rightarrow> None) | None \<Rightarrow> None)"

definition harmless :: "unit_info \<Rightarrow> candidates \<Rightarrow> go_node \<Rightarrow> go_node list \<Rightarrow> bool" where
  "harmless u cs e stack \<longleftrightarrow>
    (case stack of
       [] \<Rightarrow> False
     | p # outer \<Rightarrow>
         (case p of
            NParen i x \<Rightarrow> True
          | NStar i x \<Rightarrow> True
          | NExprStmt i x \<Rightarrow> True
          | NUnary i oper x \<Rightarrow> oper = OpAnd \<or> oper = OpArrow
          | NSelector i x s \<Rightarrow> nid x = nid e
          | NIndex i x y \<Rightarrow> nid x = nid e
          | NSlice i x ys \<Rightarrow> nid x = nid e
          | NRange i k v tok x b \<Rightarrow> rangeHarmless u cs k v tok x e
          | NAssign i ls tok rs \<Rightarrow> assignHarmless u cs ls rs e
          | NValueSpec i ns t vs \<Rightarrow> (case t of None \<Rightarrow> True | Some ty \<Rightarrow> copyHarmless u cs (ui_TypeOf u (nid e)) (ui_TypeOf u (nid ty)))
          | NComposite i t es \<Rightarrow> copyHarmless u cs (ui_TypeOf u (nid e)) (elementType u i (node_index e es))
          | NKeyValue i k v \<Rightarrow> nid v = nid e \<and> (case outer of [] \<Rightarrow> False | parent # _ \<Rightarrow> keyedValueHarmless u cs parent k v)
          | NSend i c x \<Rightarrow> nid c = nid e \<or> copyHarmless u cs (ui_TypeOf u (nid e)) (chanElem u (ui_TypeOf u (nid c)))
          | NCall i f args spread \<Rightarrow> nid f = nid e \<or> argHarmless u cs i f args spread e
          | NReturn i xs \<Rightarrow> returnHarmless u cs xs e stack
          | _ \<Rightarrow> False))"

section \<open>What a whole-value use reads\<close>

definition markRead :: "field_var \<Rightarrow> candidates \<Rightarrow> candidates" where
  "markRead v cs = map (\<lambda>(k, c). (k, if k = fv_Origin v then c\<lparr>cd_Read := True\<rparr> else c)) cs"

definition markType :: "unit_info \<Rightarrow> tid \<Rightarrow> candidates \<Rightarrow> candidates" where
  "markType u t cs = visitType (ui_Graph u) markRead t cs"

definition checkWholeValue :: "unit_info \<Rightarrow> go_node \<Rightarrow> go_node list \<Rightarrow> candidates \<Rightarrow> candidates" where
  "checkWholeValue u e stack cs =
    (case ui_Types u (nid e) of
       None \<Rightarrow> cs
     | Some tv \<Rightarrow>
         if \<not> tv_IsValue tv \<or> stack = [] \<or> \<not> carries u cs (tv_Type tv) then cs
         else if \<not> harmless u cs e stack then markType u (tv_Type tv) cs else cs)"

end
