(* ===== verification/Unread_Analyze.thy ===== *)
theory Unread_Analyze
  imports Unread_Escape
begin

text \<open>
  The classification of \<^verbatim>\<open>src/internal/unreadfield/analyze.go\<close>: the walk over every node with its ancestors, the
  fields composite literals assign, the selectors that load a field, and the sorted result.
  The lemmas compare the state-changing walk with the set of reads and assignments of the files.
\<close>

section \<open>Assignments\<close>

definition assign_field :: "field_var \<Rightarrow> nat \<Rightarrow> candidates \<Rightarrow> candidates" where
  "assign_field v pos cs = map (\<lambda>(k, c). (k, if k = fv_Origin v then c\<lparr>cd_Assigned := cd_Assigned c @ [pos]\<rparr> else c)) cs"

text \<open>The assignments of the elements of a struct literal, the index counting every element.\<close>

fun element_assignments :: "unit_info \<Rightarrow> field_var list \<Rightarrow> nat \<Rightarrow> go_node list \<Rightarrow> (field_var \<times> nat) list" where
  "element_assignments u fs i [] = []"
| "element_assignments u fs i (NKeyValue n k v # es) =
    (case key_field u k of Some f \<Rightarrow> [(f, ui_Pos u n)] | None \<Rightarrow> []) @ element_assignments u fs (Suc i) es"
| "element_assignments u fs i (e # es) =
    (if i < length fs then [(fs ! i, ui_Pos u (nid e))] else []) @ element_assignments u fs (Suc i) es"

definition literal_assignments :: "unit_info \<Rightarrow> go_node \<Rightarrow> (field_var \<times> nat) list" where
  "literal_assignments u n =
    (case n of
       NComposite i t es \<Rightarrow> (case structOf u (ui_TypeOf u i) of Some fs \<Rightarrow> element_assignments u fs 0 es | None \<Rightarrow> [])
     | _ \<Rightarrow> [])"

definition recordAssignments :: "unit_info \<Rightarrow> go_node \<Rightarrow> candidates \<Rightarrow> candidates" where
  "recordAssignments u n cs = fold (\<lambda>(v, pos). assign_field v pos) (literal_assignments u n) cs"

section \<open>Selectors\<close>

text \<open>The embedded fields on a promoted path.\<close>

fun path_fields :: "unit_info \<Rightarrow> tid \<Rightarrow> nat list \<Rightarrow> field_var list" where
  "path_fields u recv [] = []"
| "path_fields u recv (i # is) =
    (case structOf u (Some recv) of
       None \<Rightarrow> []
     | Some fs \<Rightarrow> (if i < length fs then fs ! i # path_fields u (fv_Type (fs ! i)) is else []))"

text \<open>\<^verbatim>\<open>stable\<close>: no call and no receive in the expression.\<close>

definition stable :: "go_node \<Rightarrow> bool" where
  "stable e \<longleftrightarrow> list_all (\<lambda>n. case n of NCall _ _ _ _ \<Rightarrow> False | NUnary _ oper _ \<Rightarrow> oper \<noteq> OpArrow | _ \<Rightarrow> True) (map fst (inspect [] e))"

definition isSelfAssignment :: "unit_info \<Rightarrow> go_node list \<Rightarrow> assign_tok \<Rightarrow> go_node list \<Rightarrow> go_node \<Rightarrow> go_node \<Rightarrow> bool" where
  "isSelfAssignment u lhs tok rhs sel base \<longleftrightarrow>
    tok = TokAssign \<and> length lhs = length rhs \<and>
    (case node_index sel rhs of
       None \<Rightarrow> False
     | Some i \<Rightarrow>
         (case lhs ! i of
            NSelector l lbase lsel \<Rightarrow>
              (case (ui_Selections u l, ui_Selections u (nid sel)) of
                 (Some ls, Some rs) \<Rightarrow> sl_Obj ls = sl_Obj rs \<and> ui_ExprString u lbase = ui_ExprString u base \<and> stable base
               | _ \<Rightarrow> False)
          | _ \<Rightarrow> False))"

definition is_node :: "go_node option \<Rightarrow> go_node \<Rightarrow> bool" where
  "is_node x e \<longleftrightarrow> (case x of None \<Rightarrow> False | Some n \<Rightarrow> nid n = nid e)"

definition isLoad :: "unit_info \<Rightarrow> go_node \<Rightarrow> go_node \<Rightarrow> go_node \<Rightarrow> bool" where
  "isLoad u sel base parent \<longleftrightarrow>
    (case parent of
       NAssign i lhs tok rhs \<Rightarrow>
         (if node_in sel lhs then tok \<noteq> TokAssign \<and> tok \<noteq> TokDefine else \<not> isSelfAssignment u lhs tok rhs sel base)
     | NRange i key val tok x b \<Rightarrow> \<not> ((is_node key sel \<or> is_node val sel) \<and> tok = TokAssign)
     | _ \<Rightarrow> True)"

definition selector_reads :: "unit_info \<Rightarrow> go_node \<Rightarrow> go_node list \<Rightarrow> field_var list" where
  "selector_reads u n stack =
    (case n of
       NSelector i base s \<Rightarrow>
         (case ui_Selections u i of
            None \<Rightarrow> []
          | Some sel \<Rightarrow>
              path_fields u (sl_Recv sel) (butlast (sl_Index sel)) @
              (case sl_Obj sel of VarObject v \<Rightarrow> (if stack \<noteq> [] \<and> isLoad u n base (hd stack) then [v] else []) | _ \<Rightarrow> []))
     | _ \<Rightarrow> [])"

definition recordSelector :: "unit_info \<Rightarrow> go_node \<Rightarrow> go_node list \<Rightarrow> candidates \<Rightarrow> candidates" where
  "recordSelector u n stack cs = fold markRead (selector_reads u n stack) cs"

section \<open>The walk and its result\<close>

definition unread_step :: "unit_info \<Rightarrow> go_node \<times> go_node list \<Rightarrow> candidates \<Rightarrow> candidates" where
  "unread_step u ev cs =
    (let cs1 = recordSelector u (fst ev) (snd ev) (recordAssignments u (fst ev) cs) in
     if is_expr (fst ev) then checkWholeValue u (fst ev) (snd ev) cs1 else cs1)"

definition unread_walk :: "unit_info \<Rightarrow> candidates \<Rightarrow> go_node \<Rightarrow> candidates" where
  "unread_walk u cs file = fold (unread_step u) (inspect [] file) cs"

definition finding_of :: "unit_info \<Rightarrow> candidate \<Rightarrow> unread_finding" where
  "finding_of u c =
    \<lparr>uf_Key = cd_Key c, uf_Declared = ui_PositionFor u (cd_Declared c),
     uf_Assigned = remdups_adj (sort_key position_tuple (map (ui_PositionFor u) (cd_Assigned c)))\<rparr>"

definition analysis_result :: "unit_info \<Rightarrow> candidates \<Rightarrow> unread_result" where
  "analysis_result u cs =
    (let assigned = filter (\<lambda>c. cd_Assigned c \<noteq> []) (map snd cs) in
     \<lparr>ur_Assigned = sort_key key_tuple (map cd_Key assigned),
      ur_Findings = sort_key (key_tuple \<circ> uf_Key) (map (finding_of u) (filter (\<lambda>c. \<not> cd_Read c) assigned))\<rparr>)"

definition Analyze :: "unit_info \<Rightarrow> unread_result" where
  "Analyze u = analysis_result u (foldl (unread_walk u) (collectCandidates u) (map snd (ui_Files u)))"

section \<open>What the files read and assign\<close>

text \<open>
  The same facts without a state: what a node assigns, and what it reads, given the fields
  that are candidates.
\<close>

definition node_reads :: "unit_info \<Rightarrow> candidates \<Rightarrow> go_node \<times> go_node list \<Rightarrow> nat set" where
  "node_reads u cs ev =
    fv_Origin ` set (selector_reads u (fst ev) (snd ev)) \<union>
    {o'. is_expr (fst ev) \<and> snd ev \<noteq> [] \<and>
      (\<exists>tv. ui_Types u (nid (fst ev)) = Some tv \<and> tv_IsValue tv \<and> carries u cs (tv_Type tv) \<and> \<not> harmless u cs (fst ev) (snd ev) \<and>
        o' \<in> fv_Origin ` reachable_fields (ui_Graph u) (tv_Type tv))}"

definition assigned_at :: "(field_var \<times> nat) list \<Rightarrow> nat \<Rightarrow> nat list" where
  "assigned_at as k = map snd (filter (\<lambda>a. fv_Origin (fst a) = k) as)"

definition file_nodes :: "unit_info \<Rightarrow> (go_node \<times> go_node list) list" where
  "file_nodes u = concat (map (inspect [] \<circ> snd) (ui_Files u))"

definition reads_of :: "unit_info \<Rightarrow> nat set" where
  "reads_of u = (\<Union>ev \<in> set (file_nodes u). node_reads u (collectCandidates u) ev)"

definition assignments_of :: "unit_info \<Rightarrow> (field_var \<times> nat) list" where
  "assignments_of u = concat (map (literal_assignments u \<circ> fst) (file_nodes u))"

definition marked :: "nat set \<Rightarrow> (nat \<Rightarrow> nat list) \<Rightarrow> candidates \<Rightarrow> candidates" where
  "marked R A cs = map (\<lambda>(k, c). (k, c\<lparr>cd_Assigned := cd_Assigned c @ A k, cd_Read := cd_Read c \<or> k \<in> R\<rparr>)) cs"

section \<open>Lemmas\<close>

lemma marked_keys [simp]: "map fst (marked R A cs) = map fst cs"
  by (auto simp: marked_def)

lemma marked_marked: "marked R' A' (marked R A cs) = marked (R \<union> R') (\<lambda>k. A k @ A' k) cs"
  by (auto simp: marked_def)

lemma marked_none [simp]: "marked {} (\<lambda>k. []) cs = cs"
  by (induction cs) (auto simp: marked_def)

lemma markRead_marked: "markRead v cs = marked {fv_Origin v} (\<lambda>k. []) cs"
  by (auto simp: markRead_def marked_def)

lemma assign_marked: "assign_field v pos cs = marked {} (\<lambda>k. if k = fv_Origin v then [pos] else []) cs"
  by (auto simp: assign_field_def marked_def)

lemma fold_markRead: "fold markRead vs cs = marked (fv_Origin ` set vs) (\<lambda>k. []) cs"
  by (induction vs arbitrary: cs) (simp_all add: markRead_marked marked_marked)

lemma fold_assign: "fold (\<lambda>(v, pos). assign_field v pos) as cs = marked {} (assigned_at as) cs"
proof (induction as arbitrary: cs)
  case (Cons a as)
  have "(\<lambda>k. (if k = fv_Origin (fst a) then [snd a] else []) @ assigned_at as k) = assigned_at (a # as)"
    by (auto simp: assigned_at_def)
  then show ?case using Cons by (simp add: split_def assign_marked marked_marked)
qed (simp add: assigned_at_def [abs_def])

lemma markType_marked: "markType u t cs = marked (fv_Origin ` reachable_fields (ui_Graph u) t) (\<lambda>k. []) cs"
  by (rule visitType_fold [of "ui_Graph u" markRead t cs]) (simp add: markType_def fold_markRead)

text \<open>The allow-list depends on which fields are candidates, not on what is known of them.\<close>

lemma is_candidate_iff: "is_candidate cs v \<longleftrightarrow> fv_Origin v \<in> set (map fst cs)"
  by (simp add: is_candidate_def map_of_eq_None_iff)

lemma candidate_keys: "map fst cs = map fst cs' \<Longrightarrow> is_candidate cs = is_candidate cs'"
  by (intro ext) (simp only: is_candidate_iff)

lemma copy_keys: "map fst cs = map fst cs' \<Longrightarrow> copyHarmless u cs = copyHarmless u cs'"
  by (drule candidate_keys, intro ext) (simp only: copyHarmless_def)

lemma carries_keys: "map fst cs = map fst cs' \<Longrightarrow> carries u cs = carries u cs'"
  by (drule candidate_keys, intro ext) (simp only: carries_def)

lemma harmless_keys: "map fst cs = map fst cs' \<Longrightarrow> harmless u cs = harmless u cs'"
proof -
  assume keys: "map fst cs = map fst cs'"
  note copy = copy_keys [OF keys, of u]
  have dest: "destinationHarmless u cs = destinationHarmless u cs'"
    by (intro ext) (simp only: destinationHarmless_def copy)
  have "assignHarmless u cs = assignHarmless u cs'" "rangeHarmless u cs = rangeHarmless u cs'"
    "keyedValueHarmless u cs = keyedValueHarmless u cs'" "returnHarmless u cs = returnHarmless u cs'"
    by (intro ext, simp only: assignHarmless_def rangeHarmless_def keyedValueHarmless_def returnHarmless_def dest copy)+
  moreover have "argHarmless u cs = argHarmless u cs'"
    by (intro ext) (simp only: argHarmless_def builtinArgHarmless_def copy)
  ultimately show ?thesis by (intro ext) (simp only: harmless_def copy)
qed

lemma unread_step_marked:
  assumes "map fst cs = map fst base"
  shows "unread_step u ev cs = marked (node_reads u base ev) (assigned_at (literal_assignments u (fst ev))) cs"
proof -
  define cs1 where "cs1 = recordSelector u (fst ev) (snd ev) (recordAssignments u (fst ev) cs)"
  have cs1: "cs1 = marked (fv_Origin ` set (selector_reads u (fst ev) (snd ev))) (assigned_at (literal_assignments u (fst ev))) cs"
    by (simp add: cs1_def recordSelector_def recordAssignments_def fold_markRead fold_assign marked_marked)
  then have keys: "map fst cs1 = map fst base" using assms by simp
  define W where "W = {o'. is_expr (fst ev) \<and> snd ev \<noteq> [] \<and>
      (\<exists>tv. ui_Types u (nid (fst ev)) = Some tv \<and> tv_IsValue tv \<and> carries u base (tv_Type tv) \<and> \<not> harmless u base (fst ev) (snd ev) \<and>
        o' \<in> fv_Origin ` reachable_fields (ui_Graph u) (tv_Type tv))}"
  have "unread_step u ev cs = marked W (\<lambda>k. []) cs1"
  proof (cases "ui_Types u (nid (fst ev))")
    case None
    then show ?thesis by (simp add: unread_step_def cs1_def [symmetric] checkWholeValue_def W_def)
  next
    case (Some tv)
    then have "W = (if is_expr (fst ev) \<and> snd ev \<noteq> [] \<and> tv_IsValue tv \<and> carries u base (tv_Type tv) \<and> \<not> harmless u base (fst ev) (snd ev)
        then fv_Origin ` reachable_fields (ui_Graph u) (tv_Type tv) else {})"
      by (auto simp: W_def)
    then show ?thesis using Some
      by (simp add: unread_step_def cs1_def [symmetric] checkWholeValue_def carries_keys [OF keys] harmless_keys [OF keys] markType_marked)
  qed
  then show ?thesis by (simp add: cs1 marked_marked node_reads_def W_def)
qed

lemma assigned_at_append: "assigned_at (as @ bs) = (\<lambda>k. assigned_at as k @ assigned_at bs k)"
  by (intro ext) (simp add: assigned_at_def)

lemma fold_step_marked:
  "map fst cs = map fst base \<Longrightarrow>
    fold (unread_step u) evs cs = marked (\<Union>ev \<in> set evs. node_reads u base ev) (assigned_at (concat (map (literal_assignments u \<circ> fst) evs))) cs"
proof (induction evs arbitrary: cs)
  case Nil
  show ?case by (simp add: assigned_at_def [abs_def])
next
  case (Cons ev evs)
  let ?cs1 = "marked (node_reads u base ev) (assigned_at (literal_assignments u (fst ev))) cs"
  have "fold (unread_step u) (ev # evs) cs = fold (unread_step u) evs ?cs1"
    using unread_step_marked [OF Cons.prems, of u ev] by simp
  also have "\<dots> = marked (\<Union>ev \<in> set evs. node_reads u base ev) (assigned_at (concat (map (literal_assignments u \<circ> fst) evs))) ?cs1"
    using Cons.prems by (intro Cons.IH) simp
  finally show ?case
    by (simp only: marked_marked list.set UN_insert list.map concat.simps comp_def assigned_at_append)
qed

lemma foldl_walk: "foldl (unread_walk u) cs files = fold (unread_step u) (concat (map (inspect []) files)) cs"
  by (induction files arbitrary: cs) (simp_all only: list.map concat.simps fold_append foldl.simps comp_apply unread_walk_def fold.simps id_apply)

lemma walk_marked:
  "foldl (unread_walk u) (collectCandidates u) (map snd (ui_Files u)) = marked (reads_of u) (assigned_at (assignments_of u)) (collectCandidates u)"
  using fold_step_marked [of "collectCandidates u" "collectCandidates u" u "file_nodes u"]
  by (simp add: foldl_walk file_nodes_def reads_of_def assignments_of_def comp_def)

section \<open>Properties\<close>


text \<open>The reported keys are among the assigned ones, in order, and name this package.\<close>

lemma Analyze_findings_assigned: "uf_Key ` set (ur_Findings (Analyze u)) \<subseteq> set (ur_Assigned (Analyze u))"
  by (force simp: Analyze_def analysis_result_def Let_def finding_of_def)

lemma Analyze_sorted: "sorted (map key_tuple (ur_Assigned (Analyze u)))" "sorted (map (key_tuple \<circ> uf_Key) (ur_Findings (Analyze u)))"
  by (simp_all add: Analyze_def analysis_result_def Let_def)

end
