(* ===== verification/Unread_Load.thy ===== *)
theory Unread_Load
  imports Gate_Output Unread_Analyze
begin

text \<open>
  \<^verbatim>\<open>src/internal/unreadfield/load.go\<close>: the listing of \<^verbatim>\<open>go list\<close>, broken packages, the choice of one variant per
  package, and the checked units. The Go command, JSON, the file system, the parser and the type
  checker are arguments. The lemmas characterise the choice and the order of the units.
\<close>

section \<open>The listing\<close>

definition maxListBytes :: nat where "maxListBytes = 16 * 2 ^ 20"

record loaded_package =
  lp_ImportPath :: string
  lp_Name :: string
  lp_Dir :: string
  lp_Export :: string
  lp_ForTest :: string
  lp_DepOnly :: bool
  lp_GoFiles :: "string list"
  lp_CgoFiles :: "string list"
  lp_ImportMap :: "(string \<times> string) list"
  lp_Error :: "string option"
  lp_DepsErrors :: "string option list"
  lp_InvalidGoFiles :: "string list"

text \<open>
  The outside of one configuration. A context answers for itself at each place it is asked. A
  file of a parsed unit is whether it is generated, with its tree; the checker is given the key, the files and the lookup of export data.
\<close>

record load_env =
  le_run :: "string list \<Rightarrow> child_run"
  le_list_ctx :: "go_error option"
  le_load_ctx :: "string \<Rightarrow> go_error option"
  le_analyze_ctx :: "string \<Rightarrow> go_error option"
  le_decode :: "string \<Rightarrow> loaded_package list \<times> go_error option"
  le_open :: "string \<Rightarrow> go_error option"
  le_is_abs :: "string \<Rightarrow> bool"
  le_join :: "string \<Rightarrow> string \<Rightarrow> string"
  le_parse :: "string \<Rightarrow> go_error + bool \<times> go_node"
  le_check :: "string \<Rightarrow> (bool \<times> go_node) list \<Rightarrow> (string \<Rightarrow> go_error + string) \<Rightarrow> go_error + unit_info"
  le_rel :: "string \<Rightarrow> string option"
  le_to_slash :: "string \<Rightarrow> string"

definition unread_goList :: "load_env \<Rightarrow> string list \<Rightarrow> go_error + string" where
  "unread_goList env tags =
    (let args = [''list'', ''-e'', ''-deps'', ''-export'', ''-test'', ''-json''] @
       (if length tags > 0 then [''-tags='' @ str_join '','' tags] else []) @ [''./...''] in
     case capped_run ''go list'' maxListBytes (le_run env args) of
       (out, err, Some e) \<Rightarrow> Inl (SuffixError e (trim_space err))
     | (out, err, None) \<Rightarrow> Inr out)"

definition decodeListing :: "load_env \<Rightarrow> string \<Rightarrow> nat \<Rightarrow> go_error + loaded_package list" where
  "decodeListing env data limit =
    (if length data > limit then Inl (TextError (''go list output exceeds '' @ itoa (int limit) @ '' bytes''))
     else
       (case le_decode env data of
          (pkgs, Some e) \<Rightarrow> Inl (WrapError ''decoding go list output'' e)
        | (pkgs, None) \<Rightarrow> Inr pkgs))"

definition sourcePath :: "load_env \<Rightarrow> loaded_package \<Rightarrow> string \<Rightarrow> string" where
  "sourcePath env lp name = (if le_is_abs env name then name else le_join env (lp_Dir lp) name)"

definition brokenPackage :: "load_env \<Rightarrow> loaded_package list \<Rightarrow> go_error option" where
  "brokenPackage env pkgs =
    (case first_some (concat (map (\<lambda>lp. map (\<lambda>name. map_option (WrapError (''reading '' @ lp_ImportPath lp)) (le_open env (sourcePath env lp name)))
         (lp_InvalidGoFiles lp)) pkgs)) of
       Some e \<Rightarrow> Some e
     | None \<Rightarrow>
         first_some (map (\<lambda>lp.
           case lp_Error lp of
             Some e \<Rightarrow> Some (TextError (''go list: '' @ lp_ImportPath lp @ '': '' @ trim_space e))
           | None \<Rightarrow>
               (case lp_DepsErrors lp of
                  Some e # _ \<Rightarrow> Some (TextError (''go list: '' @ lp_ImportPath lp @ '': '' @ trim_space e))
                | _ \<Rightarrow> None)) pkgs))"

section \<open>One variant per package\<close>

definition unitKey :: "string \<Rightarrow> string" where
  "unitKey path = (case str_cut '' ['' path of Some (key, _) \<Rightarrow> key | None \<Rightarrow> path)"

definition test_variants :: "loaded_package list \<Rightarrow> string list" where
  "test_variants pkgs = map lp_ForTest (filter (\<lambda>lp. lp_ForTest lp \<noteq> [] \<and> unitKey (lp_ImportPath lp) = lp_ForTest lp) pkgs)"

definition selectUnits :: "loaded_package list \<Rightarrow> loaded_package list" where
  "selectUnits pkgs = filter (\<lambda>lp.
     let key = unitKey (lp_ImportPath lp) in
     if lp_DepOnly lp then False
     else if lp_ForTest lp = [] \<and> has_suffix (lp_ImportPath lp) ''.test'' then False
     else if lp_ForTest lp = [] \<and> key \<in> set (test_variants pkgs) then False
     else if lp_ForTest lp \<noteq> [] \<and> key \<noteq> lp_ForTest lp \<and> key \<noteq> lp_ForTest lp @ ''_test'' then False
     else True) pkgs"

section \<open>Checked units\<close>

fun parse_files :: "load_env \<Rightarrow> loaded_package \<Rightarrow> string list \<Rightarrow> go_error + (bool \<times> go_node) list" where
  "parse_files env lp [] = Inr []"
| "parse_files env lp (name # names) =
    (case le_parse env (sourcePath env lp name) of
       Inl e \<Rightarrow> Inl (WrapError (''parsing '' @ lp_ImportPath lp) e)
     | Inr f \<Rightarrow> (case parse_files env lp names of Inl e \<Rightarrow> Inl e | Inr fs \<Rightarrow> Inr (f # fs)))"

definition export_lookup :: "loaded_package \<Rightarrow> (string \<times> string) list \<Rightarrow> string \<Rightarrow> go_error + string" where
  "export_lookup lp exports path =
    (let path = (case map_of (lp_ImportMap lp) path of Some mapped \<Rightarrow> mapped | None \<Rightarrow> path) in
     case map_of exports path of Some export \<Rightarrow> Inr export | None \<Rightarrow> Inl (TextError (''no export data for '' @ path)))"

definition checkUnit :: "load_env \<Rightarrow> loaded_package \<Rightarrow> (string \<times> string) list \<Rightarrow> go_error + string \<times> unit_info" where
  "checkUnit env lp exports =
    (case parse_files env lp (lp_GoFiles lp @ lp_CgoFiles lp) of
       Inl e \<Rightarrow> Inl e
     | Inr files \<Rightarrow>
         let key = unitKey (lp_ImportPath lp) in
         (case le_check env key files (export_lookup lp exports) of
            Inl e \<Rightarrow> Inl (WrapError (''type-checking '' @ lp_ImportPath lp) e)
          | Inr info \<Rightarrow> Inr (key, info)))"

fun check_units :: "load_env \<Rightarrow> (string \<times> string) list \<Rightarrow> loaded_package list \<Rightarrow> go_error + (string \<times> unit_info) list" where
  "check_units env exports [] = Inr []"
| "check_units env exports (lp # lps) =
    (case le_load_ctx env (lp_ImportPath lp) of
       Some e \<Rightarrow> Inl (WrapError (''loading '' @ lp_ImportPath lp) e)
     | None \<Rightarrow>
         (case checkUnit env lp exports of
            Inl e \<Rightarrow> Inl e
          | Inr unit \<Rightarrow> (case check_units env exports lps of Inl e \<Rightarrow> Inl e | Inr us \<Rightarrow> Inr (unit # us))))"

text \<open>The map of export data: a later entry of a path replaces an earlier one.\<close>

definition export_map :: "loaded_package list \<Rightarrow> (string \<times> string) list" where
  "export_map pkgs = foldl (\<lambda>m lp. if lp_Export lp \<noteq> [] then AList.update (lp_ImportPath lp) (lp_Export lp) m else m) [] pkgs"

definition loadUnits :: "load_env \<Rightarrow> string list \<Rightarrow> go_error + (string \<times> unit_info) list" where
  "loadUnits env tags =
    (case unread_goList env tags of
       Inl e \<Rightarrow> Inl (WrapError ''go list'' (case le_list_ctx env of Some ctx \<Rightarrow> ctx | None \<Rightarrow> e))
     | Inr data \<Rightarrow>
         (case decodeListing env data maxListBytes of
            Inl e \<Rightarrow> Inl e
          | Inr pkgs \<Rightarrow>
              (case brokenPackage env pkgs of
                 Some e \<Rightarrow> Inl e
               | None \<Rightarrow>
                   (case check_units env (export_map pkgs) (selectUnits pkgs) of
                      Inl e \<Rightarrow> Inl e
                    | Inr units \<Rightarrow> Inr (sort_key fst units)))))"

section \<open>Lemmas\<close>

text \<open>A package with a test variant is analysed through that variant only.\<close>

lemma selected_variant:
  assumes "lp \<in> set (selectUnits pkgs)" "lp_ForTest lp = []" "lp' \<in> set (selectUnits pkgs)"
    "lp_ForTest lp' \<noteq> []" "unitKey (lp_ImportPath lp') = lp_ForTest lp'"
  shows "unitKey (lp_ImportPath lp) \<noteq> unitKey (lp_ImportPath lp')"
  using assms by (auto simp: selectUnits_def test_variants_def Let_def image_iff split: if_splits)

lemma check_units_keys:
  "check_units env exports lps = Inr us \<Longrightarrow> map fst us = map (unitKey \<circ> lp_ImportPath) lps"
  by (induction lps arbitrary: us) (auto simp: checkUnit_def Let_def split: option.splits sum.splits)

lemma loadUnits_sorted: "loadUnits env tags = Inr us \<Longrightarrow> sorted (map fst us)"
  by (auto simp: loadUnits_def split: sum.splits option.splits)

lemma str_cut_space: "str_cut '' ['' s = None \<Longrightarrow> unitKey s = s"
  by (simp add: unitKey_def)

text \<open>A context that ended while \<^verbatim>\<open>go list\<close> ran is the error the caller sees.\<close>

lemma loadUnits_timeout:
  "unread_goList env tags = Inl e \<Longrightarrow> le_list_ctx env = Some ctx \<Longrightarrow> loadUnits env tags = Inl e' \<Longrightarrow> errors_is e' ctx"
  by (auto simp: loadUnits_def errors_is_def)

text \<open>An unreadable file anywhere in the listing comes before every text error of the listing.\<close>

lemma brokenPackage_open_first:
  assumes "lp \<in> set pkgs" "name \<in> set (lp_InvalidGoFiles lp)" "le_open env (sourcePath env lp name) \<noteq> None"
  obtains lp' name' e where "lp' \<in> set pkgs" "name' \<in> set (lp_InvalidGoFiles lp')" "le_open env (sourcePath env lp' name') = Some e"
    "brokenPackage env pkgs = Some (WrapError (''reading '' @ lp_ImportPath lp') e)"
proof -
  let ?opens = "concat (map (\<lambda>lp. map (\<lambda>name. map_option (WrapError (''reading '' @ lp_ImportPath lp)) (le_open env (sourcePath env lp name)))
    (lp_InvalidGoFiles lp)) pkgs)"
  have "first_some ?opens \<noteq> None" using assms by auto
  then obtain x where x: "first_some ?opens = Some x" by blast
  then have "Some x \<in> set ?opens" by (rule first_some_SomeD)
  then obtain lp' name' e where found: "lp' \<in> set pkgs" "name' \<in> set (lp_InvalidGoFiles lp')"
    "le_open env (sourcePath env lp' name') = Some e" and "x = WrapError (''reading '' @ lp_ImportPath lp') e"
    by (fastforce simp: eq_commute [of "Some x"] map_option_eq_Some)
  then show thesis using x by (intro that [OF found]) (simp add: brokenPackage_def)
qed

end
