(* ===== verification/Unread_Run.thy ===== *)
theory Unread_Run
  imports Unread_Load
begin

text \<open>
  \<^verbatim>\<open>src/internal/unreadfield/run.go\<close> and its gate \<^verbatim>\<open>src/internal/cmd/slopcheck/main.go\<close>: the build configurations, the
  accumulator that intersects their results, and the command with its exit codes. The lemmas say
  which fields a whole run reports and when the gate passes.
\<close>

section \<open>Configurations\<close>

record build_config =
  bc_Name :: string
  bc_Tags :: "string list"

definition tagNoGRPC :: string where "tagNoGRPC = ''ax_no_grpc''"
definition tagNoOTLP :: string where "tagNoOTLP = ''ax_no_otlp''"

definition BuildConfigurations :: "build_config list" where
  "BuildConfigurations =
    [\<lparr>bc_Name = ''default'', bc_Tags = []\<rparr>, \<lparr>bc_Name = tagNoGRPC, bc_Tags = [tagNoGRPC]\<rparr>,
     \<lparr>bc_Name = tagNoOTLP, bc_Tags = [tagNoOTLP]\<rparr>, \<lparr>bc_Name = tagNoGRPC @ ''+'' @ tagNoOTLP, bc_Tags = [tagNoGRPC, tagNoOTLP]\<rparr>]"

record unread_report =
  rp_Configurations :: nat
  rp_Packages :: nat
  rp_Fields :: nat
  rp_Findings :: "unread_finding list"

section \<open>One configuration\<close>

definition relativePath :: "load_env \<Rightarrow> string \<Rightarrow> string" where
  "relativePath env path = le_to_slash env (case le_rel env path of Some rel \<Rightarrow> rel | None \<Rightarrow> path)"

definition relative_position :: "load_env \<Rightarrow> src_position \<Rightarrow> src_position" where
  "relative_position env p = p\<lparr>ps_File := relativePath env (ps_File p)\<rparr>"

definition relativize :: "load_env \<Rightarrow> unread_result \<Rightarrow> unread_result" where
  "relativize env res = res\<lparr>ur_Findings := map (\<lambda>f. f\<lparr>uf_Declared := relative_position env (uf_Declared f),
     uf_Assigned := map (relative_position env) (uf_Assigned f)\<rparr>) (ur_Findings res)\<rparr>"

fun analyze_units :: "load_env \<Rightarrow> (string \<times> unit_info) list \<Rightarrow> (string \<times> unread_result) list \<Rightarrow> go_error + (string \<times> unread_result) list" where
  "analyze_units env [] results = Inr results"
| "analyze_units env ((key, u) # us) results =
    (case le_analyze_ctx env key of
       Some e \<Rightarrow> Inl (WrapError (''analyzing '' @ key) e)
     | None \<Rightarrow> analyze_units env us (AList.update key (relativize env (Analyze u)) results))"

definition analyzeConfiguration :: "load_env \<Rightarrow> build_config \<Rightarrow> go_error + (string \<times> unread_result) list" where
  "analyzeConfiguration env cfg =
    (case loadUnits env (bc_Tags cfg) of
       Inl e \<Rightarrow> Inl e
     | Inr units \<Rightarrow> analyze_units env units [])"

section \<open>The accumulator\<close>

record accumulator =
  ac_assignedIn :: "(field_key \<times> nat) list"
  ac_findingIn :: "(field_key \<times> nat) list"
  ac_findings :: "(field_key \<times> unread_finding) list"
  ac_packages :: "string list"

definition bump :: "field_key \<Rightarrow> (field_key \<times> nat) list \<Rightarrow> (field_key \<times> nat) list" where
  "bump k m = AList.map_default k 1 Suc m"

definition merge_finding :: "unread_finding \<Rightarrow> unread_finding \<Rightarrow> unread_finding" where
  "merge_finding f prior = prior\<lparr>uf_Assigned := remdups_adj (sort_key position_tuple (uf_Assigned prior @ uf_Assigned f))\<rparr>"

definition add_finding :: "accumulator \<Rightarrow> unread_finding \<Rightarrow> accumulator" where
  "add_finding acc f = acc\<lparr>ac_findingIn := bump (uf_Key f) (ac_findingIn acc),
     ac_findings := AList.map_default (uf_Key f) f (merge_finding f) (ac_findings acc)\<rparr>"

definition acc_add :: "accumulator \<Rightarrow> string \<times> unread_result \<Rightarrow> accumulator" where
  "acc_add acc r =
    foldl add_finding
      (acc\<lparr>ac_packages := List.insert (fst r) (ac_packages acc), ac_assignedIn := fold bump (ur_Assigned (snd r)) (ac_assignedIn acc)\<rparr>)
      (ur_Findings (snd r))"

definition count_of :: "(field_key \<times> nat) list \<Rightarrow> field_key \<Rightarrow> nat" where
  "count_of m k = (case map_of m k of Some n \<Rightarrow> n | None \<Rightarrow> 0)"

definition acc_report :: "nat \<Rightarrow> accumulator \<Rightarrow> unread_report" where
  "acc_report configurations acc =
    \<lparr>rp_Configurations = configurations, rp_Packages = length (ac_packages acc), rp_Fields = length (ac_assignedIn acc),
     rp_Findings = sort_key (key_tuple \<circ> uf_Key)
       (map snd (filter (\<lambda>(k, f). count_of (ac_findingIn acc) k = count_of (ac_assignedIn acc) k) (ac_findings acc)))\<rparr>"

definition empty_accumulator :: accumulator where
  "empty_accumulator = \<lparr>ac_assignedIn = [], ac_findingIn = [], ac_findings = [], ac_packages = []\<rparr>"

text \<open>
  The loop of \<^verbatim>\<open>runWith\<close>; each configuration has its own environment, as its context and its
  listing are its own.
\<close>

fun run_configurations :: "(build_config \<Rightarrow> load_env) \<Rightarrow> build_config list \<Rightarrow> accumulator \<Rightarrow> go_error + accumulator" where
  "run_configurations env [] acc = Inr acc"
| "run_configurations env (cfg # cfgs) acc =
    (case analyzeConfiguration (env cfg) cfg of
       Inl e \<Rightarrow> Inl (AnalysisError (bc_Name cfg) e)
     | Inr results \<Rightarrow> run_configurations env cfgs (foldl acc_add acc results))"

text \<open>\<^verbatim>\<open>filepath.Abs\<close> may fail with an error.\<close>

definition runWith :: "string \<Rightarrow> go_error option \<Rightarrow> (build_config \<Rightarrow> load_env) \<Rightarrow> build_config list \<Rightarrow> go_error + unread_report" where
  "runWith dir abs_error env configs =
    (case abs_error of
       Some e \<Rightarrow> Inl (WrapError (''resolving '' @ dir) e)
     | None \<Rightarrow>
         (case run_configurations env configs empty_accumulator of
            Inl e \<Rightarrow> Inl e
          | Inr acc \<Rightarrow> Inr (acc_report (length configs) acc)))"

section \<open>The gate\<close>

definition codeUnread :: string where "codeUnread = ''slopcheck_unread_field''"
definition slop_codeArtifact :: string where "slop_codeArtifact = ''invalid_slopcheck_artifact''"
definition slop_codeAnalysis :: string where "slop_codeAnalysis = ''slopcheck_analysis_failed''"
definition slop_codeTimeout :: string where "slop_codeTimeout = ''slopcheck_timeout''"
definition slop_codePermission :: string where "slop_codePermission = ''slopcheck_permission''"
definition slop_codeInternal :: string where "slop_codeInternal = ''slopcheck_internal''"

definition slop_emitFailure :: "gate_io \<Rightarrow> string \<Rightarrow> string \<Rightarrow> string \<Rightarrow> int \<Rightarrow> go_error \<Rightarrow> gate_out" where
  "slop_emitFailure io = gate_failure io ''slopcheck''"

text \<open>The parsed flags: the value of \<^verbatim>\<open>-dir\<close> and the positional arguments; \<^verbatim>\<open>stat\<close> looks for \<^verbatim>\<open>go.mod\<close> in a directory.\<close>

definition slop_parseArgs :: "gate_io \<Rightarrow> (string \<Rightarrow> go_error option) \<Rightarrow> go_error + string \<times> string list \<Rightarrow> gate_out + string" where
  "slop_parseArgs io stat parsed =
    (case parsed of
       Inl e \<Rightarrow> Inl (slop_emitFailure io slop_codeArtifact ''invalid slopcheck flags'' ''remove unsupported flags'' ExitValidation e)
     | Inr (dir, rest) \<Rightarrow>
         if rest \<noteq> [] then
           Inl (slop_emitFailure io slop_codeArtifact ''invalid slopcheck arguments''
             ''run slopcheck from the module root without arguments, or pass -dir'' ExitValidation
             (TextError (''unexpected arguments: '' @ str_join '' '' rest)))
         else
           (case stat dir of
              Some e \<Rightarrow>
                if errors_is e ErrPermission
                then Inl (slop_emitFailure io slop_codePermission ''cannot read the module root'' [] ExitAuth e)
                else Inl (slop_emitFailure io slop_codeArtifact ''-dir is not a module root'' ''pass a directory containing go.mod'' ExitValidation e)
            | None \<Rightarrow> Inr dir))"

definition is_analysis_error :: "go_error \<Rightarrow> bool" where
  "is_analysis_error e \<longleftrightarrow> (case e of AnalysisError _ _ \<Rightarrow> True | _ \<Rightarrow> False)"

definition slop_analysisFailure :: "gate_io \<Rightarrow> go_error \<Rightarrow> gate_out" where
  "slop_analysisFailure io e =
    (case (if errors_is e DeadlineExceeded then (slop_codeTimeout, ExitNetwork)
           else if errors_is e Canceled then (slop_codeInternal, ExitInternal)
           else if errors_is e ErrPermission then (slop_codePermission, ExitAuth)
           else if errors_as is_analysis_error e \<noteq> None then (slop_codeAnalysis, ExitValidation)
           else (slop_codeInternal, ExitInternal)) of
       (c, exit) \<Rightarrow>
         slop_emitFailure io c ''unread-field analysis did not complete'' ''fix package-loading or type errors; unread fields were not checked'' exit e)"

definition slop_result :: "unread_report \<Rightarrow> any_value" where
  "slop_result r = ObjVal
    [(''status'', StrVal ''pass''), (''configurations'', IntVal (int (rp_Configurations r))), (''packages'', IntVal (int (rp_Packages r))),
     (''fields'', IntVal (int (rp_Fields r))), (''unread'', IntVal 0)]"

definition run_slopcheck ::
  "gate_io \<Rightarrow> (string \<Rightarrow> build_config list \<Rightarrow> go_error + unread_report) \<Rightarrow> (string \<Rightarrow> go_error option) \<Rightarrow> go_error + string \<times> string list \<Rightarrow> gate_out" where
  "run_slopcheck io analyze stat parsed =
    (case slop_parseArgs io stat parsed of
       Inl out \<Rightarrow> out
     | Inr dir \<Rightarrow>
         (case analyze dir BuildConfigurations of
            Inl e \<Rightarrow> slop_analysisFailure io e
          | Inr report \<Rightarrow>
              if rp_Findings report \<noteq> [] then
                slop_emitFailure io codeUnread ''struct fields assigned in composite literals but never read''
                  ''read the field where it matters, or delete it and its assignments; review before deleting'' ExitValidation
                  (TextError (str_join ''; '' (map finding_string (rp_Findings report))))
              else gate_document io ''slopcheck'' slop_codeInternal (slop_result report)))"

section \<open>Lemmas on the accumulator\<close>

lemma count_bump: "count_of (bump k m) k' = count_of m k' + (if k' = k then 1 else 0)"
  by (auto simp: count_of_def bump_def map_of_map_default split: option.split)

lemma count_fold_bump: "count_of (fold bump ks m) k = count_of m k + count_list ks k"
  by (induction ks arbitrary: m) (simp_all add: count_bump)

lemma add_findings_counts:
  "ac_assignedIn (foldl add_finding acc fs) = ac_assignedIn acc"
  "count_of (ac_findingIn (foldl add_finding acc fs)) k = count_of (ac_findingIn acc) k + count_list (map uf_Key fs) k"
  by (induction fs arbitrary: acc) (simp_all add: add_finding_def count_bump)

lemma acc_add_counts:
  "count_of (ac_assignedIn (acc_add acc r)) k = count_of (ac_assignedIn acc) k + count_list (ur_Assigned (snd r)) k"
  "count_of (ac_findingIn (acc_add acc r)) k = count_of (ac_findingIn acc) k + count_list (map uf_Key (ur_Findings (snd r))) k"
  by (simp_all add: acc_add_def add_findings_counts count_fold_bump)

text \<open>The findings map: each key once, with the assignments of every finding of that key.\<close>

definition acc_ok :: "accumulator \<Rightarrow> unread_finding list \<Rightarrow> bool" where
  "acc_ok acc fs \<longleftrightarrow> distinct (map fst (ac_findings acc)) \<and>
    (\<forall>k. case map_of (ac_findings acc) k of
       None \<Rightarrow> k \<notin> uf_Key ` set fs
     | Some f \<Rightarrow> k \<in> uf_Key ` set fs \<and> uf_Key f = k \<and> set (uf_Assigned f) = (\<Union>g \<in> {g \<in> set fs. uf_Key g = k}. set (uf_Assigned g)))"

lemma merge_finding_simps [simp]:
  "uf_Key (merge_finding f p) = uf_Key p" "set (uf_Assigned (merge_finding f p)) = set (uf_Assigned p) \<union> set (uf_Assigned f)"
  by (simp_all add: merge_finding_def)

lemma acc_ok_add: "acc_ok acc fs \<Longrightarrow> acc_ok (add_finding acc f) (fs @ [f])"
proof -
  assume ok: "acc_ok acc fs"
  have same: "{g \<in> set (fs @ [f]). uf_Key g = k} = {g \<in> set fs. uf_Key g = k} \<union> (if uf_Key f = k then {f} else {})" for k
    by auto
  have "case map_of (ac_findings (add_finding acc f)) k of
      None \<Rightarrow> k \<notin> uf_Key ` set (fs @ [f])
    | Some f' \<Rightarrow> k \<in> uf_Key ` set (fs @ [f]) \<and> uf_Key f' = k \<and> set (uf_Assigned f') = (\<Union>g \<in> {g \<in> set (fs @ [f]). uf_Key g = k}. set (uf_Assigned g))" for k
  proof (cases "k = uf_Key f")
    case True
    then show ?thesis using ok unfolding same
      by (auto simp: acc_ok_def add_finding_def map_of_map_default split: option.splits dest!: spec [of _ "uf_Key f"]) (metis image_eqI)+
  next
    case False
    then show ?thesis using ok unfolding same
      by (auto simp: acc_ok_def add_finding_def map_of_map_default split: option.splits dest!: spec [of _ k])
  qed
  then show ?thesis using ok by (simp add: acc_ok_def add_finding_def distinct_map_default)
qed

lemma acc_ok_adds: "acc_ok acc fs \<Longrightarrow> acc_ok (foldl add_finding acc gs) (fs @ gs)"
proof (induction gs arbitrary: acc fs)
  case (Cons g gs)
  then show ?case using Cons.IH [OF acc_ok_add [OF Cons.prems, of g]] by simp
qed simp

lemma acc_ok_result: "acc_ok acc fs \<Longrightarrow> acc_ok (acc_add acc r) (fs @ ur_Findings (snd r))"
  unfolding acc_add_def by (rule acc_ok_adds) (simp add: acc_ok_def)

lemma acc_ok_results: "acc_ok acc fs \<Longrightarrow> acc_ok (foldl acc_add acc rs) (fs @ concat (map (ur_Findings \<circ> snd) rs))"
proof (induction rs arbitrary: acc fs)
  case (Cons r rs)
  then show ?case using Cons.IH [OF acc_ok_result [OF Cons.prems, of r]] by simp
qed simp

lemma foldl_acc_counts:
  "count_of (ac_assignedIn (foldl acc_add acc rs)) k = count_of (ac_assignedIn acc) k + (\<Sum>r \<leftarrow> rs. count_list (ur_Assigned (snd r)) k)"
  "count_of (ac_findingIn (foldl acc_add acc rs)) k = count_of (ac_findingIn acc) k + (\<Sum>r \<leftarrow> rs. count_list (map uf_Key (ur_Findings (snd r))) k)"
  by (induction rs arbitrary: acc) (simp_all add: acc_add_counts)

lemma sum_list_eq_iff:
  fixes f g :: "'a \<Rightarrow> nat"
  shows "list_all (\<lambda>x. f x \<le> g x) xs \<Longrightarrow> (\<Sum>x \<leftarrow> xs. f x) = (\<Sum>x \<leftarrow> xs. g x) \<longleftrightarrow> list_all (\<lambda>x. f x = g x) xs"
proof (induction xs)
  case (Cons x xs)
  have "(\<Sum>x \<leftarrow> xs. f x) \<le> (\<Sum>x \<leftarrow> xs. g x)" using Cons.prems by (intro sum_list_mono) (auto simp: list_all_iff)
  then show ?case using Cons by auto
qed simp

section \<open>Reported fields\<close>

text \<open>In a result, every assigned field of this key is unread.\<close>

definition unread_in :: "field_key \<Rightarrow> unread_result \<Rightarrow> bool" where
  "unread_in k r \<longleftrightarrow> count_list (map uf_Key (ur_Findings r)) k = count_list (ur_Assigned r) k"

definition lawful_result :: "unread_result \<Rightarrow> bool" where
  "lawful_result r \<longleftrightarrow> (\<forall>k. count_list (map uf_Key (ur_Findings r)) k \<le> count_list (ur_Assigned r) k)"

lemma count_list_sort: "count_list (sort_key f xs) k = count_list xs k"
  by (metis count_mset mset_sort)

lemma count_list_filter: "count_list (map f (filter P xs)) k \<le> count_list (map f xs) k"
  by (induction xs) auto

lemma Analyze_lawful: "lawful_result (relativize env (Analyze u))"
proof -
  have "count_list (map uf_Key (ur_Findings (analysis_result u cs))) k \<le> count_list (ur_Assigned (analysis_result u cs)) k" for cs k
  proof -
    let ?as = "filter (\<lambda>c. cd_Assigned c \<noteq> []) (map snd cs)"
    have "mset (map uf_Key (ur_Findings (analysis_result u cs))) = mset (map cd_Key (filter (\<lambda>c. \<not> cd_Read c) ?as))"
      by (simp add: analysis_result_def Let_def finding_of_def multiset.map_comp comp_def)
    then have "count_list (map uf_Key (ur_Findings (analysis_result u cs))) k = count_list (map cd_Key (filter (\<lambda>c. \<not> cd_Read c) ?as)) k"
      by (metis count_mset)
    moreover have "count_list (ur_Assigned (analysis_result u cs)) k = count_list (map cd_Key ?as) k"
      by (simp add: analysis_result_def Let_def count_list_sort)
    ultimately show ?thesis by (simp only: count_list_filter)
  qed
  then show ?thesis by (simp add: lawful_result_def relativize_def comp_def Analyze_def)
qed

lemma analyze_units_lawful:
  "analyze_units env us rs = Inr rs' \<Longrightarrow> list_all (\<lambda>r. lawful_result (snd r)) rs \<Longrightarrow> list_all (\<lambda>r. lawful_result (snd r)) rs'"
proof (induction env us rs rule: analyze_units.induct)
  case (2 env key u us results)
  have "list_all (\<lambda>r. lawful_result (snd r)) (AList.update key (relativize env (Analyze u)) results)"
    using "2.prems"(2) set_update_subset [of key "relativize env (Analyze u)" results] Analyze_lawful [of env u]
    by (auto simp: list_all_iff)
  then show ?case using 2 by (auto split: option.splits)
qed simp

lemma analyzeConfiguration_lawful: "analyzeConfiguration env cfg = Inr rs \<Longrightarrow> list_all (\<lambda>r. lawful_result (snd r)) rs"
  by (auto simp: analyzeConfiguration_def dest: analyze_units_lawful split: sum.splits)

lemma run_configurations_Inr:
  "run_configurations env cfgs acc = Inr acc' \<Longrightarrow>
    \<exists>rss. list_all2 (\<lambda>cfg rs. analyzeConfiguration (env cfg) cfg = Inr rs) cfgs rss \<and> acc' = foldl acc_add acc (concat rss)"
proof (induction cfgs arbitrary: acc)
  case Nil
  then show ?case by (intro exI [of _ "[]"]) simp
next
  case (Cons cfg cfgs)
  then obtain rs where rs: "analyzeConfiguration (env cfg) cfg = Inr rs" "run_configurations env cfgs (foldl acc_add acc rs) = Inr acc'"
    by (auto split: sum.splits)
  from Cons.IH [OF rs(2)] obtain rss where
    "list_all2 (\<lambda>cfg rs. analyzeConfiguration (env cfg) cfg = Inr rs) cfgs rss" "acc' = foldl acc_add (foldl acc_add acc rs) (concat rss)"
    by blast
  then show ?case using rs(1) by (intro exI [of _ "rs # rss"]) simp
qed

lemma run_configurations_Inl:
  "run_configurations env cfgs acc = Inl e \<Longrightarrow>
    \<exists>cfg \<in> set cfgs. \<exists>inner. analyzeConfiguration (env cfg) cfg = Inl inner \<and> e = AnalysisError (bc_Name cfg) inner"
  by (induction cfgs arbitrary: acc) (auto split: sum.splits)

lemma report_keys:
  assumes "list_all (\<lambda>r. lawful_result (snd r)) rs"
  shows "uf_Key ` set (rp_Findings (acc_report n (foldl acc_add empty_accumulator rs))) =
    {k. list_ex (\<lambda>r. k \<in> uf_Key ` set (ur_Findings (snd r))) rs \<and> list_all (\<lambda>r. unread_in k (snd r)) rs}"
proof -
  define acc where "acc = foldl acc_add empty_accumulator rs"
  have ok: "acc_ok acc (concat (map (ur_Findings \<circ> snd) rs))"
    using acc_ok_results [of empty_accumulator "[]" rs] by (simp add: acc_def acc_ok_def [where fs = "[]"] empty_accumulator_def)
  have zero: "count_of (ac_assignedIn empty_accumulator) k = 0" "count_of (ac_findingIn empty_accumulator) k = 0" for k
    by (simp_all add: empty_accumulator_def count_of_def)
  have counts: "count_of (ac_findingIn acc) k = count_of (ac_assignedIn acc) k \<longleftrightarrow> list_all (\<lambda>r. unread_in k (snd r)) rs" for k
    using sum_list_eq_iff [of "\<lambda>r. count_list (map uf_Key (ur_Findings (snd r))) k" "\<lambda>r. count_list (ur_Assigned (snd r)) k" rs] assms
    by (simp add: acc_def foldl_acc_counts zero unread_in_def list_all_iff lawful_result_def)
  have found: "map_of (ac_findings acc) k \<noteq> None \<longleftrightarrow> k \<in> uf_Key ` set (concat (map (ur_Findings \<circ> snd) rs))" for k
    using ok by (cases "map_of (ac_findings acc) k") (auto simp: acc_ok_def simp del: set_concat split: option.splits dest!: spec [of _ k])
  have keys: "k \<in> fst ` set (ac_findings acc) \<longleftrightarrow> list_ex (\<lambda>r. k \<in> uf_Key ` set (ur_Findings (snd r))) rs" for k
    using found [of k] by (auto simp: map_of_eq_None_iff list_ex_iff)
  have key: "uf_Key f = k" if "(k, f) \<in> set (ac_findings acc)" for k f
  proof -
    have "map_of (ac_findings acc) k = Some f" using ok that by (simp add: acc_ok_def)
    then show ?thesis using ok by (auto simp: acc_ok_def dest!: spec [of _ k])
  qed
  have "uf_Key ` set (rp_Findings (acc_report n acc)) =
      (\<lambda>p. uf_Key (snd p)) ` {p \<in> set (ac_findings acc). count_of (ac_findingIn acc) (fst p) = count_of (ac_assignedIn acc) (fst p)}"
    by (simp add: acc_report_def image_image split_def)
  also have "\<dots> = fst ` {p \<in> set (ac_findings acc). count_of (ac_findingIn acc) (fst p) = count_of (ac_assignedIn acc) (fst p)}"
    by (intro image_cong refl) (auto dest: key)
  also have "\<dots> = {k \<in> fst ` set (ac_findings acc). count_of (ac_findingIn acc) k = count_of (ac_assignedIn acc) k}"
    by blast
  finally show ?thesis unfolding acc_def [symmetric] keys counts .
qed

section \<open>Properties\<close>

text \<open>
  C37. A run reports a field exactly when some unit of some configuration has it as a finding and
  every unit of every configuration that assigns it finds it unread; otherwise the run fails with the
  name of a configuration that could not be analysed.
\<close>

theorem run_intersects_configurations:
  "case runWith dir None env configs of
     Inl e \<Rightarrow> list_ex (\<lambda>cfg. case analyzeConfiguration (env cfg) cfg of Inl inner \<Rightarrow> e = AnalysisError (bc_Name cfg) inner | Inr _ \<Rightarrow> False) configs
   | Inr rep \<Rightarrow> \<exists>rss. list_all2 (\<lambda>cfg rs. analyzeConfiguration (env cfg) cfg = Inr rs) configs rss \<and>
       uf_Key ` set (rp_Findings rep) =
         {k. list_ex (\<lambda>r. k \<in> uf_Key ` set (ur_Findings (snd r))) (concat rss) \<and> list_all (\<lambda>r. unread_in k (snd r)) (concat rss)}"
proof (cases "run_configurations env configs empty_accumulator")
  case (Inl e)
  then obtain cfg inner where "cfg \<in> set configs" "analyzeConfiguration (env cfg) cfg = Inl inner" "e = AnalysisError (bc_Name cfg) inner"
    using run_configurations_Inl by blast
  then show ?thesis using Inl by (auto simp: runWith_def list_ex_iff intro!: bexI [of _ cfg])
next
  case (Inr acc)
  then obtain rss where rss: "list_all2 (\<lambda>cfg rs. analyzeConfiguration (env cfg) cfg = Inr rs) configs rss"
    "acc = foldl acc_add empty_accumulator (concat rss)"
    using run_configurations_Inr by blast
  have "list_all (\<lambda>r. lawful_result (snd r)) rs" if mem: "rs \<in> set rss" for rs
  proof -
    obtain i where "i < length rss" "rss ! i = rs" using mem by (auto simp: in_set_conv_nth)
    then have "analyzeConfiguration (env (configs ! i)) (configs ! i) = Inr rs" using list_all2_nthD2 [OF rss(1)] by blast
    then show ?thesis by (rule analyzeConfiguration_lawful)
  qed
  then have "list_all (\<lambda>r. lawful_result (snd r)) (concat rss)" by (auto simp: list_all_iff)
  from report_keys [OF this] show ?thesis
    unfolding runWith_def option.case Inr sum.case rss(2) by (intro exI [of _ rss] conjI rss(1))
qed

text \<open>
  The gate exits 0 exactly when it is started in a module root with no arguments, the analysis
  ends without an error and without a finding, and the result could be written.
\<close>

theorem slopcheck_passes_iff:
  "fst (run_slopcheck io analyze stat parsed) = ExitSuccess \<longleftrightarrow>
    (\<exists>dir report payload. parsed = Inr (dir, []) \<and> stat dir = None \<and> analyze dir BuildConfigurations = Inr report \<and> rp_Findings report = [] \<and>
      gi_marshal io (slop_result report) = Inr payload \<and> gi_stdout io (payload @ [nl]) = None)"
proof (cases "slop_parseArgs io stat parsed")
  case (Inl out)
  then have "fst out \<noteq> ExitSuccess" "\<nexists>dir. parsed = Inr (dir, []) \<and> stat dir = None"
    by (auto simp: slop_parseArgs_def slop_emitFailure_def gate_failure_exit gate_exits split: sum.splits if_splits option.splits)
  then show ?thesis using Inl by (auto simp: run_slopcheck_def)
next
  case (Inr dir)
  then have args: "parsed = Inr (dir, [])" "stat dir = None"
    by (auto simp: slop_parseArgs_def split: sum.splits if_splits option.splits)
  have fails: "fst (slop_analysisFailure io e) \<noteq> ExitSuccess" for e
    by (simp add: slop_analysisFailure_def slop_emitFailure_def gate_failure_exit gate_exits)
  show ?thesis
  proof (cases "analyze dir BuildConfigurations")
    case (Inl e)
    then show ?thesis using args Inr fails by (simp add: run_slopcheck_def)
  next
    case report: (Inr report)
    then show ?thesis using args Inr
      by (simp add: run_slopcheck_def slop_emitFailure_def gate_failure_exit gate_exits gate_document_ok)
  qed
qed

text \<open>The exit code of a failed analysis, in the order of precedence of the contract.\<close>

theorem slop_analysis_exit:
  assumes "can_fail io"
  shows "fst (slop_analysisFailure io e) =
    (if errors_is e DeadlineExceeded then ExitNetwork else if errors_is e Canceled then ExitInternal
     else if errors_is e ErrPermission then ExitAuth else if errors_as is_analysis_error e \<noteq> None then ExitValidation else ExitInternal)"
  by (simp add: slop_analysisFailure_def slop_emitFailure_def gate_failure_code [OF assms])

end
