(* ===== verification/Dead_Check.thy ===== *)
theory Dead_Check
  imports Gate_Output "HOL-Library.AList" "HOL-Library.List_Lexorder" "HOL-Library.Char_ord"
begin

text \<open>
  The unreachable-function gate \<^verbatim>\<open>src/internal/cmd/deadcheck\<close>: the run of the pinned tool, its report with the
  policy on what is in scope, the intersection over the build configurations, and the exit codes.
  The tool, the JSON decoder and \<^verbatim>\<open>unicode.IsUpper\<close> are arguments. The lemmas say when the gate passes and that the order of a
  report does not matter.
\<close>

section \<open>Policy\<close>

definition codeDead :: string where "codeDead = ''deadcode_unreachable''"
definition dead_codeArtifact :: string where "dead_codeArtifact = ''invalid_deadcode_artifact''"
definition dead_codeAnalysis :: string where "dead_codeAnalysis = ''deadcode_analysis_failed''"
definition dead_codePermission :: string where "dead_codePermission = ''deadcode_permission''"
definition dead_codeInternal :: string where "dead_codeInternal = ''deadcode_internal''"
definition dead_codeTimeout :: string where "dead_codeTimeout = ''deadcode_timeout''"

definition dead_modulePath :: string where "dead_modulePath = ''github.com/rshade/ax-go''"
definition maxReportBytes :: nat where "maxReportBytes = 16 * 2 ^ 20"

definition dead_buildTags :: "string list" where
  "dead_buildTags = [[], ''ax_no_grpc'', ''ax_no_otlp'', ''ax_no_grpc,ax_no_otlp'']"

definition trim_suffix :: "string \<Rightarrow> string \<Rightarrow> string" where
  "trim_suffix s p = (if has_suffix s p then take (length s - length p) s else s)"

definition inScope :: "(nat \<Rightarrow> bool) \<Rightarrow> string \<Rightarrow> string \<Rightarrow> bool" where
  "inScope is_upper pkg name \<longleftrightarrow>
    (let pkg = trim_suffix pkg ''_test'' in
     if pkg \<noteq> dead_modulePath \<and> \<not> has_prefix pkg (dead_modulePath @ ''/'') then False
     else if str_contains (pkg @ ''/'') ''/internal/'' then True
     else \<not> is_exported is_upper (case str_cut_last ''.'' name of Some (_, method) \<Rightarrow> method | None \<Rightarrow> name))"

section \<open>The report\<close>

record dead_position =
  dp_File :: string
  dp_Line :: int
  dp_Col :: int

record dead_function =
  df_Name :: string
  df_Position :: dead_position
  df_Generated :: bool
  df_Marker :: bool

record dead_package =
  dk_Name :: string
  dk_Path :: string
  dk_Funcs :: "dead_function list"

record dead_finding =
  fd_Symbol :: string
  fd_Position :: dead_position

definition describeFinding :: "dead_finding \<Rightarrow> string" where
  "describeFinding f =
    dp_File (fd_Position f) @ '':'' @ itoa (dp_Line (fd_Position f)) @ '':'' @ itoa (dp_Col (fd_Position f)) @ '': '' @ fd_Symbol f"

type_synonym dead_findings = "(string \<times> dead_finding) list"

definition describeFindings :: "dead_findings \<Rightarrow> string" where
  "describeFindings m = str_join ''; '' (sort (map (describeFinding \<circ> snd) m))"

definition keep_least :: "dead_finding \<Rightarrow> dead_findings \<Rightarrow> dead_findings" where
  "keep_least entry m =
    (case map_of m (fd_Symbol entry) of
       Some prior \<Rightarrow> (if describeFinding entry < describeFinding prior then AList.update (fd_Symbol entry) entry m else m)
     | None \<Rightarrow> AList.update (fd_Symbol entry) entry m)"

fun parse_functions :: "(nat \<Rightarrow> bool) \<Rightarrow> string \<Rightarrow> dead_function list \<Rightarrow> dead_findings \<Rightarrow> go_error + dead_findings" where
  "parse_functions is_upper path [] m = Inr m"
| "parse_functions is_upper path (f # fs) m =
    (if df_Name f = [] \<or> dp_File (df_Position f) = [] \<or> dp_Line (df_Position f) \<le> 0 \<or> dp_Col (df_Position f) \<le> 0
     then Inl (TextError (''invalid deadcode function in '' @ path))
     else if \<not> inScope is_upper path (df_Name f) then parse_functions is_upper path fs m
     else parse_functions is_upper path fs (keep_least \<lparr>fd_Symbol = path @ ''.'' @ df_Name f, fd_Position = df_Position f\<rparr> m))"

fun parse_packages :: "(nat \<Rightarrow> bool) \<Rightarrow> dead_package list \<Rightarrow> dead_findings \<Rightarrow> go_error + dead_findings" where
  "parse_packages is_upper [] m = Inr m"
| "parse_packages is_upper (p # ps) m =
    (if dk_Name p = [] \<or> dk_Path p = [] \<or> dk_Funcs p = []
     then Inl (TextError ''deadcode package lacks name, path, or functions'')
     else (case parse_functions is_upper (dk_Path p) (dk_Funcs p) m of Inl e \<Rightarrow> Inl e | Inr m' \<Rightarrow> parse_packages is_upper ps m'))"

text \<open>
  The decoder gives the result of the first \<^verbatim>\<open>Decode\<close> and the error of a second one.
\<close>

definition dead_parseReport ::
  "(nat \<Rightarrow> bool) \<Rightarrow> (string \<Rightarrow> (go_error + dead_package list) \<times> go_error option) \<Rightarrow> string \<Rightarrow> go_error + dead_findings" where
  "dead_parseReport is_upper decode data =
    (if length data > maxReportBytes then Inl (TextError (''deadcode report exceeds '' @ itoa (int maxReportBytes) @ '' bytes''))
     else
       (case decode data of
          (Inl e, _) \<Rightarrow> Inl (WrapError ''decode deadcode report'' e)
        | (Inr packages, extra) \<Rightarrow>
            (case extra of
               Some e \<Rightarrow>
                 if errors_is e EOF then parse_packages is_upper packages []
                 else Inl (TextError ''expected exactly one deadcode JSON document'')
             | None \<Rightarrow> Inl (TextError ''expected exactly one deadcode JSON document''))))"

section \<open>The tool\<close>

text \<open>\<^verbatim>\<open>regexp.QuoteMeta\<close>.\<close>

definition quote_meta :: "string \<Rightarrow> string" where
  "quote_meta s = concat (map (\<lambda>c. if c \<in> set (CHR 0x5C # ''.+*?()|[]{}^$'') then [CHR 0x5C, c] else [c]) s)"

definition deadcode :: "(string list \<Rightarrow> child_run) \<Rightarrow> go_error option \<Rightarrow> string \<Rightarrow> go_error + string" where
  "deadcode run_child ctx_error tags =
    (let filter_arg = ''-filter=^'' @ quote_meta dead_modulePath @ ''($|/|_test$)'' in
     case capped_run ''deadcode'' maxReportBytes (run_child [''-test'', ''-json'', ''-tags='' @ tags, filter_arg, ''./...'']) of
       (out, err, Some e) \<Rightarrow>
         (case ctx_error of
            Some ctx \<Rightarrow> Inl (WrapError ''deadcode'' ctx)
          | None \<Rightarrow> Inl (WrapError ''deadcode'' (SuffixError e (trim_space err))))
     | (out, err, None) \<Rightarrow>
         (if err \<noteq> [] then Inl (TextError (''deadcode wrote unexpected diagnostics: '' @ trim_space err)) else Inr out))"

section \<open>The command\<close>

definition dead_emitFailure :: "gate_io \<Rightarrow> string \<Rightarrow> string \<Rightarrow> string \<Rightarrow> int \<Rightarrow> go_error \<Rightarrow> gate_out" where
  "dead_emitFailure io = gate_failure io ''deadcheck''"

definition dead_analysisFailure :: "gate_io \<Rightarrow> string \<Rightarrow> go_error \<Rightarrow> gate_out" where
  "dead_analysisFailure io tags e =
    (case (if errors_is e ErrPermission then (dead_codePermission, ExitAuth)
           else if errors_is e DeadlineExceeded then (dead_codeTimeout, ExitNetwork)
           else if errors_is e Canceled then (dead_codeInternal, ExitInternal)
           else (dead_codeAnalysis, ExitValidation)) of
       (c, exit) \<Rightarrow>
         dead_emitFailure io c ''deadcode analysis did not complete''
           ''run make ensure and fix tool or package-loading errors; reachability was not checked'' exit
           (WrapError (''tags='' @ quote (gi_isprint io) tags) e))"

text \<open>The loop over the configurations; \<^term>\<open>None\<close> before the first report.\<close>

fun common_findings :: "gate_io \<Rightarrow> (string \<Rightarrow> go_error + string) \<Rightarrow> (string \<Rightarrow> go_error + dead_findings) \<Rightarrow> string list \<Rightarrow> dead_findings option \<Rightarrow>
  gate_out + dead_findings" where
  "common_findings io analyze parse [] common = Inr (case common of Some m \<Rightarrow> m | None \<Rightarrow> [])"
| "common_findings io analyze parse (tags # rest) common =
    (case analyze tags of
       Inl e \<Rightarrow> Inl (dead_analysisFailure io tags e)
     | Inr data \<Rightarrow>
         (case parse data of
            Inl e \<Rightarrow> Inl (dead_emitFailure io dead_codeArtifact ''invalid deadcode JSON output'' ''check the pinned deadcode binary and its output'' ExitValidation e)
          | Inr report \<Rightarrow>
              common_findings io analyze parse rest
                (Some (case common of None \<Rightarrow> report | Some m \<Rightarrow> filter (\<lambda>(k, f). map_of report k \<noteq> None) m))))"

definition dead_result :: any_value where
  "dead_result = ObjVal [(''status'', StrVal ''pass''), (''configurations'', IntVal (int (length dead_buildTags))), (''unreachable'', IntVal 0)]"

definition run_deadcheck ::
  "gate_io \<Rightarrow> (string \<Rightarrow> go_error + string) \<Rightarrow> (string \<Rightarrow> go_error + dead_findings) \<Rightarrow> go_error + string list \<Rightarrow> gate_out" where
  "run_deadcheck io analyze parse parsed =
    (case parsed of
       Inl e \<Rightarrow> dead_emitFailure io dead_codeArtifact ''invalid deadcheck flags'' ''remove unsupported flags'' ExitValidation e
     | Inr rest \<Rightarrow>
         if rest \<noteq> [] then
           dead_emitFailure io dead_codeArtifact ''invalid deadcheck arguments'' ''run deadcheck from the module root without arguments'' ExitValidation
             (TextError (''unexpected arguments: '' @ str_join '' '' rest))
         else
           (case common_findings io analyze parse dead_buildTags None of
              Inl out \<Rightarrow> out
            | Inr common \<Rightarrow>
                if common \<noteq> [] then
                  dead_emitFailure io codeDead ''unreachable unexported or internal functions''
                    ''remove unused helpers or restore their callers; review findings before deleting code'' ExitValidation
                    (TextError (describeFindings common))
                else gate_document io ''deadcheck'' dead_codeInternal dead_result))"

section \<open>Lemmas\<close>

text \<open>The least entry of each symbol: an abstract map, independent of the order of the entries.\<close>

definition least_map :: "dead_findings \<Rightarrow> dead_finding list \<Rightarrow> bool" where
  "least_map m es \<longleftrightarrow> distinct (map fst m) \<and> (\<forall>k. case map_of m k of
     None \<Rightarrow> k \<notin> fd_Symbol ` set es
   | Some f \<Rightarrow> f \<in> set es \<and> fd_Symbol f = k \<and> (\<forall>e \<in> set es. fd_Symbol e = k \<longrightarrow> describeFinding f \<le> describeFinding e))"

lemma keep_least_map: "least_map m es \<Longrightarrow> least_map (keep_least e m) (es @ [e])"
proof -
  assume m: "least_map m es"
  have at: "case map_of m k of None \<Rightarrow> k \<notin> fd_Symbol ` set es
    | Some f \<Rightarrow> f \<in> set es \<and> fd_Symbol f = k \<and> (\<forall>e \<in> set es. fd_Symbol e = k \<longrightarrow> describeFinding f \<le> describeFinding e)" for k
    using m by (simp add: least_map_def)
  have "distinct (map fst (keep_least e m))"
    using m by (auto simp: least_map_def keep_least_def distinct_update split: option.split)
  moreover have "case map_of (keep_least e m) k of None \<Rightarrow> k \<notin> fd_Symbol ` set (es @ [e])
    | Some f \<Rightarrow> f \<in> set (es @ [e]) \<and> fd_Symbol f = k \<and> (\<forall>e' \<in> set (es @ [e]). fd_Symbol e' = k \<longrightarrow> describeFinding f \<le> describeFinding e')" for k
  proof (cases "k = fd_Symbol e")
    case False
    then have "map_of (keep_least e m) k = map_of m k" by (auto simp: keep_least_def update_conv' split: option.split)
    then show ?thesis using at [of k] False by (auto split: option.splits)
  next
    case True
    show ?thesis
    proof (cases "map_of m k")
      case None
      then have "k \<notin> fd_Symbol ` set es" using at [of k] by simp
      then have "fd_Symbol e' \<noteq> k" if "e' \<in> set es" for e' using that by blast
      then show ?thesis using None True by (auto simp: keep_least_def update_conv')
    next
      case (Some f)
      then show ?thesis using at [of k] True by (auto simp: keep_least_def update_conv' dest!: leI intro: less_imp_le order.trans)
    qed
  qed
  ultimately show ?thesis by (simp add: least_map_def)
qed

definition scoped_entries :: "(nat \<Rightarrow> bool) \<Rightarrow> dead_package \<Rightarrow> dead_finding list" where
  "scoped_entries is_upper p = map (\<lambda>f. \<lparr>fd_Symbol = dk_Path p @ ''.'' @ df_Name f, fd_Position = df_Position f\<rparr>)
     (filter (\<lambda>f. inScope is_upper (dk_Path p) (df_Name f)) (dk_Funcs p))"

definition valid_function :: "dead_function \<Rightarrow> bool" where
  "valid_function f \<longleftrightarrow> df_Name f \<noteq> [] \<and> dp_File (df_Position f) \<noteq> [] \<and> 0 < dp_Line (df_Position f) \<and> 0 < dp_Col (df_Position f)"

definition valid_package :: "dead_package \<Rightarrow> bool" where
  "valid_package p \<longleftrightarrow> dk_Name p \<noteq> [] \<and> dk_Path p \<noteq> [] \<and> dk_Funcs p \<noteq> [] \<and> list_all valid_function (dk_Funcs p)"

lemma parse_functions_spec:
  "(\<exists>m'. parse_functions u path fs m = Inr m') \<longleftrightarrow> list_all valid_function fs"
  "parse_functions u path fs m = Inr m' \<Longrightarrow> m' = fold keep_least (scoped_entries u \<lparr>dk_Name = n, dk_Path = path, dk_Funcs = fs\<rparr>) m"
  by (induction fs arbitrary: m) (auto simp: valid_function_def scoped_entries_def split: if_splits)

lemma scoped_entries_eta: "scoped_entries u \<lparr>dk_Name = dk_Name p, dk_Path = dk_Path p, dk_Funcs = dk_Funcs p\<rparr> = scoped_entries u p"
  by (simp add: scoped_entries_def)

lemma parse_packages_spec:
  "(\<exists>m'. parse_packages u ps m = Inr m') \<longleftrightarrow> list_all valid_package ps"
  "parse_packages u ps m = Inr m' \<Longrightarrow> m' = fold keep_least (concat (map (scoped_entries u) ps)) m"
proof (induction ps arbitrary: m)
  case (Cons p ps)
  {
    case 1
    show ?case using Cons.IH(1) parse_functions_spec(1) [of u "dk_Path p" "dk_Funcs p" m]
      by (cases "parse_functions u (dk_Path p) (dk_Funcs p) m") (auto simp: valid_package_def)
  next
    case 2
    then obtain m1 where "parse_functions u (dk_Path p) (dk_Funcs p) m = Inr m1" "parse_packages u ps m1 = Inr m'"
      by (auto split: if_splits sum.splits)
    then show ?case using parse_functions_spec(2) [of u "dk_Path p" "dk_Funcs p" m m1 "dk_Name p"] Cons.IH(2) [of m1]
      by (simp only: scoped_entries_eta list.map concat.simps fold_append comp_apply)
  }
qed simp_all

lemma fold_keep_least: "least_map m es \<Longrightarrow> least_map (fold keep_least fs m) (es @ fs)"
proof (induction fs arbitrary: m es)
  case (Cons f fs)
  then show ?case using Cons.IH [OF keep_least_map [OF Cons.prems, of f]] by simp
qed simp

lemma parse_least:
  assumes "parse_packages u ps [] = Inr m"
  shows "least_map m (concat (map (scoped_entries u) ps))"
  using fold_keep_least [of "[]" "[]" "concat (map (scoped_entries u) ps)"] parse_packages_spec(2) [OF assms] by (simp add: least_map_def)

lemma least_descriptions:
  assumes "least_map m es" "least_map m' es'" "set es = set es'"
  shows "mset (map (describeFinding \<circ> snd) m) = mset (map (describeFinding \<circ> snd) m')"
proof -
  have at: "map_option describeFinding (map_of m k) = map_option describeFinding (map_of m' k)" for k
  proof -
    have "case map_of m k of None \<Rightarrow> k \<notin> fd_Symbol ` set es
      | Some f \<Rightarrow> f \<in> set es \<and> fd_Symbol f = k \<and> (\<forall>e \<in> set es. fd_Symbol e = k \<longrightarrow> describeFinding f \<le> describeFinding e)"
      using assms(1) by (simp add: least_map_def)
    moreover have "case map_of m' k of None \<Rightarrow> k \<notin> fd_Symbol ` set es
      | Some f \<Rightarrow> f \<in> set es \<and> fd_Symbol f = k \<and> (\<forall>e \<in> set es. fd_Symbol e = k \<longrightarrow> describeFinding f \<le> describeFinding e)"
      using assms(2) unfolding assms(3) least_map_def by blast
    ultimately show ?thesis
      by (cases "map_of m k"; cases "map_of m' k") (auto intro: order.antisym)
  qed
  have dom: "set (map fst m) = set (map fst m')"
    using at by (metis map_of_eq_None_iff option.map_disc_iff subsetI subset_antisym list.set_map)
  have form: "map (describeFinding \<circ> snd) xs = map (\<lambda>k. the (map_option describeFinding (map_of xs k))) (map fst xs)"
    if "distinct (map fst xs)" for xs
    using that by (auto simp: comp_def)
  have dist: "distinct (map fst m)" "distinct (map fst m')" using assms by (simp_all add: least_map_def)
  then have "mset (map fst m) = mset (map fst m')" using dom set_eq_iff_mset_eq_distinct by blast
  then show ?thesis unfolding form [OF dist(1)] form [OF dist(2)] at mset_map by simp
qed

lemma dead_analysisFailure_exit: "fst (dead_analysisFailure io tags e) \<noteq> ExitSuccess"
  by (simp add: dead_analysisFailure_def dead_emitFailure_def gate_failure_exit gate_exits)

lemma list_all2_det:
  assumes "\<And>x y z. P x y \<Longrightarrow> P x z \<Longrightarrow> y = z"
  shows "list_all2 P xs ys \<Longrightarrow> list_all2 P xs zs \<Longrightarrow> ys = zs"
proof (induction xs arbitrary: ys zs)
  case (Cons x xs)
  then obtain y ys' z zs' where "ys = y # ys'" "P x y" "list_all2 P xs ys'" "zs = z # zs'" "P x z" "list_all2 P xs zs'"
    by (auto simp: list_all2_Cons1)
  then show ?case using Cons.IH [of ys' zs'] assms [of x y z] by simp
qed simp

lemma common_findings_Inl: "common_findings io analyze parse tags common = Inl out \<Longrightarrow> fst out \<noteq> ExitSuccess"
  by (induction tags arbitrary: common)
    (auto simp: dead_analysisFailure_exit dead_emitFailure_def gate_failure_exit gate_exits split: sum.splits)

lemma common_findings_Some:
  "(\<exists>m'. common_findings io analyze parse tags (Some m) = Inr m') \<longleftrightarrow>
    (\<exists>reports. list_all2 (\<lambda>t r. \<exists>data. analyze t = Inr data \<and> parse data = Inr r) tags reports)"
  "common_findings io analyze parse tags (Some m) = Inr m' \<Longrightarrow>
    list_all2 (\<lambda>t r. \<exists>data. analyze t = Inr data \<and> parse data = Inr r) tags reports \<Longrightarrow>
    m' = filter (\<lambda>(k, f). list_all (\<lambda>r. map_of r k \<noteq> None) reports) m"
proof (induction tags arbitrary: m reports)
  case (Cons t ts)
  {
    case 1
    show ?case
    proof (cases "\<exists>data r. analyze t = Inr data \<and> parse data = Inr r")
      case True
      then obtain data r where r: "analyze t = Inr data" "parse data = Inr r" by blast
      then show ?thesis using Cons.IH(1) [of "filter (\<lambda>(k, f). map_of r k \<noteq> None) m"] by (auto simp: list_all2_Cons1)
    next
      case False
      then show ?thesis by (auto simp: list_all2_Cons1 split: sum.split)
    qed
  next
    case 2
    then obtain data r rs where r: "analyze t = Inr data" "parse data = Inr r" "reports = r # rs"
      "list_all2 (\<lambda>t r. \<exists>data. analyze t = Inr data \<and> parse data = Inr r) ts rs"
      by (auto simp: list_all2_Cons1)
    then have "m' = filter (\<lambda>(k, f). list_all (\<lambda>r. map_of r k \<noteq> None) rs) (filter (\<lambda>(k, f). map_of r k \<noteq> None) m)"
      using Cons.IH(2) [of "filter (\<lambda>(k, f). map_of r k \<noteq> None) m" rs] 2 by simp
    then show ?case using r(3) by (auto simp: split_def intro: filter_cong)
  }
qed (auto simp: split_def)

text \<open>The configurations from the first: what all reports have in common.\<close>

lemma common_findings_first:
  "common_findings io analyze parse (t # ts) None = Inr m \<longleftrightarrow>
    (\<exists>r rs. list_all2 (\<lambda>t r. \<exists>data. analyze t = Inr data \<and> parse data = Inr r) (t # ts) (r # rs) \<and>
      m = filter (\<lambda>(k, f). list_all (\<lambda>r. map_of r k \<noteq> None) rs) r)"
proof (cases "\<exists>data r. analyze t = Inr data \<and> parse data = Inr r")
  case True
  then obtain data r where "analyze t = Inr data" "parse data = Inr r" by blast
  then show ?thesis using common_findings_Some [of io analyze parse ts r] by fastforce
next
  case False
  then show ?thesis by (auto split: sum.split)
qed

section \<open>Properties\<close>


text \<open>The description of the findings does not depend on the order of packages and functions in a report.\<close>

theorem report_order_irrelevant:
  assumes "parse_packages is_upper ps [] = Inr m" "parse_packages is_upper ps' [] = Inr m'"
    "set (concat (map (scoped_entries is_upper) ps)) = set (concat (map (scoped_entries is_upper) ps'))"
  shows "describeFindings m = describeFindings m'"
  unfolding describeFindings_def
  using least_descriptions [OF parse_least [OF assms(1)] parse_least [OF assms(2)] assms(3)]
  by (metis mset_sort properties_for_sort sorted_sort)

end
