(* ===== verification/Test_Imports.thy ===== *)
theory Test_Imports
  imports Go_Text Ax_Contract
begin

text \<open>
  The import-boundary guard \<^verbatim>\<open>src/internal/testutil/imports.go\<close>: the forbidden dependency trees, the matching
  rule, the Go command lines with their environment, and the assertions. The Go command, the JSON
  decoder and \<^verbatim>\<open>testing.TB\<close> are arguments or values. The lemmas say what a passing assertion means.
\<close>

section \<open>Rules\<close>

definition moduleRootImportPath :: string where "moduleRootImportPath = ''github.com/rshade/ax-go''"
definition otelExportersPrefix :: string where "otelExportersPrefix = ''go.opentelemetry.io/otel/exporters/''"
definition zerologImportPath :: string where "zerologImportPath = ''github.com/rs/zerolog''"
definition grpcImportPath :: string where "grpcImportPath = ''google.golang.org/grpc''"
definition protobufImportPath :: string where "protobufImportPath = ''google.golang.org/protobuf''"
definition cobraImportPath :: string where "cobraImportPath = ''github.com/spf13/cobra''"
definition netHTTPImportPath :: string where "netHTTPImportPath = ''net/http''"
definition cryptoTLSImportPath :: string where "cryptoTLSImportPath = ''crypto/tls''"
definition telemetryImportPath :: string where "telemetryImportPath = ''github.com/rshade/ax-go/internal/telemetry''"
definition mcpServerImportPath :: string where "mcpServerImportPath = ''github.com/rshade/ax-go/internal/mcpserver''"
definition otelSDKImportPath :: string where "otelSDKImportPath = ''go.opentelemetry.io/otel/sdk''"
definition otelHTTPImportPath :: string where "otelHTTPImportPath = ''go.opentelemetry.io/contrib/instrumentation/net/http/otelhttp''"
definition otelGRPCImportPath :: string where
  "otelGRPCImportPath = ''go.opentelemetry.io/contrib/instrumentation/google.golang.org/grpc/otelgrpc''"

record forbidden_import =
  fi_Pattern :: string
  fi_Reason :: string

record import_violation =
  iv_Surface :: string
  iv_ImportPath :: string
  iv_Pattern :: string
  iv_Reason :: string

definition rule :: "string \<Rightarrow> string \<Rightarrow> forbidden_import" where
  "rule pattern reason = \<lparr>fi_Pattern = pattern, fi_Reason = reason\<rparr>"

definition ForbiddenRuntimeImports :: "forbidden_import list" where
  "ForbiddenRuntimeImports =
    [rule moduleRootImportPath ''root runtime facade must not be imported by isolated contract packages'',
     rule telemetryImportPath ''telemetry setup is a root runtime responsibility'',
     rule ''github.com/rshade/ax-go/internal/loki'' ''Loki direct push is a runtime logging adapter'',
     rule otelExportersPrefix ''OTel exporters are runtime adapters'',
     rule otelSDKImportPath ''OTel SDK setup is a root runtime responsibility'',
     rule otelHTTPImportPath ''HTTP instrumentation belongs to root transport helpers'',
     rule otelGRPCImportPath ''gRPC instrumentation belongs to root transport helpers'',
     rule grpcImportPath ''gRPC transport helpers are runtime adapters'',
     rule zerologImportPath ''logging is a root runtime concern'']"

definition ForbiddenGRPCTreeImports :: "forbidden_import list" where
  "ForbiddenGRPCTreeImports =
    [rule grpcImportPath ''gRPC runtime must not link under ax_no_grpc,ax_no_otlp'',
     rule protobufImportPath ''protobuf runtime and reflection tables must not link under ax_no_grpc,ax_no_otlp'',
     rule ''go.opentelemetry.io/proto/otlp'' ''OTLP wire definitions must not link under ax_no_grpc,ax_no_otlp'',
     rule ''github.com/grpc-ecosystem/grpc-gateway/v2'' ''generated gateway stubs must not link under ax_no_grpc,ax_no_otlp'']"

definition ForbiddenLoggingImports :: "forbidden_import list" where
  "ForbiddenLoggingImports =
    [rule moduleRootImportPath ''root runtime facade drags the exporter, gRPC, and Cobra trees the isolated surface exists to exclude'',
     rule telemetryImportPath ''telemetry setup pulls the OTLP exporter'',
     rule mcpServerImportPath ''MCP server runtime pulls the MCP SDK'',
     rule otelExportersPrefix ''OTel exporters pull the gRPC and protobuf trees'',
     rule otelSDKImportPath
       ''the OTel SDK is a root runtime responsibility; the logging surface reads span context through the trace API only'',
     rule otelHTTPImportPath ''HTTP instrumentation belongs to root transport helpers'',
     rule otelGRPCImportPath ''gRPC instrumentation belongs to root transport helpers'',
     rule grpcImportPath ''gRPC transport helpers are runtime adapters'',
     rule protobufImportPath ''protobuf runtime and reflection tables arrive with the OTLP exporter'',
     rule cobraImportPath ''the CLI framework belongs to root ax.Execute'',
     rule netHTTPImportPath
       ''net/http is the largest single size lever and pulls crypto/tls; Loki direct push is a root-only capability because of it'',
     rule cryptoTLSImportPath ''crypto/tls follows net/http and is not reachable from a logging-only consumer'']"

definition matchesForbiddenImport :: "string \<Rightarrow> string \<Rightarrow> bool" where
  "matchesForbiddenImport importPath pattern \<longleftrightarrow>
    (if importPath = pattern then True
     else if has_suffix pattern ''/'' then has_prefix importPath pattern
     else if pattern = moduleRootImportPath then False
     else has_prefix importPath (pattern @ ''/''))"

definition FindForbiddenImports :: "string \<Rightarrow> string list \<Rightarrow> forbidden_import list \<Rightarrow> import_violation list" where
  "FindForbiddenImports surface imports forbidden =
    concat (map (\<lambda>importPath. map (\<lambda>r. \<lparr>iv_Surface = surface, iv_ImportPath = importPath, iv_Pattern = fi_Pattern r, iv_Reason = fi_Reason r\<rparr>)
      (filter (\<lambda>r. matchesForbiddenImport importPath (fi_Pattern r)) forbidden)) imports)"

definition FormatImportViolations :: "import_violation list \<Rightarrow> string" where
  "FormatImportViolations violations = trim_right nl (concat (map (\<lambda>v.
     iv_Surface v @ '' imports forbidden dependency '' @ iv_ImportPath v @ '' (matched '' @ iv_Pattern v @ ''): '' @ iv_Reason v @ [nl]) violations))"

section \<open>Resolving\<close>

definition joinBuildTags :: "string list \<Rightarrow> string" where
  "joinBuildTags tags = str_join '','' (filter (\<lambda>t. t \<noteq> []) tags)"

text \<open>\<^verbatim>\<open>go\<close> with arguments in a directory: its error, and its output with both streams combined.\<close>

definition ResolvePackageImports ::
  "(string \<Rightarrow> string list \<Rightarrow> go_error option \<times> string) \<Rightarrow> string \<Rightarrow> string \<Rightarrow> string list \<Rightarrow> go_error + string list" where
  "ResolvePackageImports go moduleDir importPath tags =
    (let joined = joinBuildTags tags;
         args = [''list'', ''-deps'', ''-f'', ''{{.ImportPath}}''] @ (if joined \<noteq> [] then [''-tags'', joined] else []) @ [importPath] in
     case go moduleDir args of
       (Some e, out) \<Rightarrow> Inl (WrapError (''go list dependencies for '' @ importPath) (SuffixError e (trim_space out)))
     | (None, out) \<Rightarrow> Inr (filter (\<lambda>l. l \<noteq> []) (split_lines (trim_space out))))"

record build_profile =
  bp_GOOS :: string
  bp_GOARCH :: string

definition build_profile_string :: "build_profile \<Rightarrow> string" where
  "build_profile_string p = bp_GOOS p @ ''/'' @ bp_GOARCH p"

record module_package =
  mp_ImportPath :: string
  mp_Imports :: "string list"

definition buildProfileEnvironment :: "string list \<Rightarrow> build_profile \<Rightarrow> string list" where
  "buildProfileEnvironment current p =
    filter (\<lambda>s. \<not> (has_prefix s ''GOOS='' \<or> has_prefix s ''GOARCH='' \<or> has_prefix s ''CGO_ENABLED='')) current @
    [''GOOS='' @ bp_GOOS p, ''GOARCH='' @ bp_GOARCH p, ''CGO_ENABLED=0'']"

text \<open>
  \<^verbatim>\<open>go\<close> with an environment: its output, or its error with the standard error of an \<^verbatim>\<open>exec.ExitError\<close>;
  the decoder gives the packages before its first error.
\<close>

definition ResolveModulePackages ::
  "(string list \<Rightarrow> string \<Rightarrow> string list \<Rightarrow> (go_error \<times> string option) + string) \<Rightarrow> (string \<Rightarrow> module_package list \<times> go_error option) \<Rightarrow>
   string list \<Rightarrow> string \<Rightarrow> build_profile \<Rightarrow> string list \<Rightarrow> go_error + module_package list" where
  "ResolveModulePackages go decode environ moduleDir p tags =
    (let joined = joinBuildTags tags;
         args = [''list'', ''-json''] @ (if joined \<noteq> [] then [''-tags'', joined] else []) @ [''./...''];
         place = moduleDir @ '' for '' @ build_profile_string p in
     case go (buildProfileEnvironment environ p) moduleDir args of
       Inl (e, Some stderr) \<Rightarrow> Inl (WrapError (''go list -json ./... in '' @ place) (SuffixError e (trim_space stderr)))
     | Inl (e, None) \<Rightarrow> Inl (WrapError (''go list -json ./... in '' @ place) e)
     | Inr out \<Rightarrow>
         (case decode out of
            (pkgs, Some e) \<Rightarrow> Inl (WrapError (''decode go list -json output in '' @ place) e)
          | (pkgs, None) \<Rightarrow> Inr pkgs))"

definition FindNonTestImporters :: "module_package list \<Rightarrow> string \<Rightarrow> string list" where
  "FindNonTestImporters packages target = map mp_ImportPath (filter (\<lambda>p. target \<in> set (mp_Imports p)) packages)"

section \<open>Assertions\<close>

text \<open>How a helper leaves its test: untouched, marked as failed, or ended.\<close>

datatype test_outcome = TestOk | TestErrorf string | TestFatalf string

definition AssertNoForbiddenImports ::
  "(nat \<Rightarrow> bool) \<Rightarrow> (string \<Rightarrow> string list \<Rightarrow> go_error option \<times> string) \<Rightarrow> string \<Rightarrow> string \<Rightarrow> forbidden_import list \<Rightarrow> string list \<Rightarrow> test_outcome" where
  "AssertNoForbiddenImports isprint go moduleDir importPath forbidden tags =
    (case ResolvePackageImports go moduleDir importPath tags of
       Inl e \<Rightarrow> TestFatalf (''resolve imports for '' @ importPath @ '': '' @ error_text isprint e)
     | Inr imports \<Rightarrow>
         let violations = FindForbiddenImports importPath imports forbidden in
         if violations \<noteq> [] then TestErrorf (''import isolation failed:'' @ [nl] @ FormatImportViolations violations) else TestOk)"

text \<open>\<^verbatim>\<open>RepoRoot\<close>: the working directory's path elements, or the error of asking for it.\<close>

definition RepoRoot :: "(nat \<Rightarrow> bool) \<Rightarrow> (string list \<Rightarrow> bool) \<Rightarrow> go_error + string list \<Rightarrow> test_outcome + string list" where
  "RepoRoot isprint has_gomod cwd =
    (case cwd of
       Inl e \<Rightarrow> Inl (TestFatalf (''get working directory: '' @ error_text isprint e))
     | Inr path \<Rightarrow>
         (case find_root has_gomod path of
            Some dir \<Rightarrow> Inr dir
          | None \<Rightarrow> Inl (TestFatalf ''go.mod not found above working directory'')))"

definition assert_isolated ::
  "forbidden_import list \<Rightarrow> (nat \<Rightarrow> bool) \<Rightarrow> (string \<Rightarrow> string list \<Rightarrow> go_error option \<times> string) \<Rightarrow> (string list \<Rightarrow> string) \<Rightarrow>
   test_outcome + string list \<Rightarrow> string \<Rightarrow> string list \<Rightarrow> test_outcome" where
  "assert_isolated rules isprint go path_string root_dir importPath tags =
    (case root_dir of
       Inl outcome \<Rightarrow> outcome
     | Inr dir \<Rightarrow> AssertNoForbiddenImports isprint go (path_string dir) importPath rules tags)"

definition AssertLoggingSurfaceIsolated where
  "AssertLoggingSurfaceIsolated = assert_isolated ForbiddenLoggingImports"

definition AssertContractPackageIsolated where
  "AssertContractPackageIsolated isprint go path_string root_dir importPath = assert_isolated ForbiddenRuntimeImports isprint go path_string root_dir importPath []"

definition AssertNoProductionImport ::
  "(nat \<Rightarrow> bool) \<Rightarrow> go_error + module_package list \<Rightarrow> string \<Rightarrow> string \<Rightarrow> build_profile \<Rightarrow> test_outcome" where
  "AssertNoProductionImport isprint resolved moduleDir target p =
    (case resolved of
       Inl e \<Rightarrow> TestFatalf (''resolve module packages in '' @ moduleDir @ '' for '' @ build_profile_string p @ '': '' @ error_text isprint e)
     | Inr packages \<Rightarrow>
         let violators = FindNonTestImporters packages target in
         if violators \<noteq> [] then
           TestErrorf (target @ '' must be imported only from _test.go files, but is imported by: '' @ str_join '', '' violators)
         else TestOk)"

section \<open>Lemmas\<close>

text \<open>A rule covers its path and what lies below it, the module root only itself.\<close>

lemma matches_subtree:
  assumes "\<not> has_suffix pattern ''/''"
  shows "matchesForbiddenImport path pattern \<longleftrightarrow> path = pattern \<or> pattern \<noteq> moduleRootImportPath \<and> (\<exists>rest. path = pattern @ ''/'' @ rest)"
  using assms by (auto simp: matchesForbiddenImport_def has_prefix_iff)

lemma find_forbidden_empty:
  "FindForbiddenImports surface imports forbidden = [] \<longleftrightarrow>
    list_all (\<lambda>i. list_all (\<lambda>r. \<not> matchesForbiddenImport i (fi_Pattern r)) forbidden) imports"
  by (auto simp: FindForbiddenImports_def list_all_iff filter_empty_conv)

section \<open>Properties\<close>

text \<open>
  The assertion leaves the test untouched exactly when the Go command ends without an error and
  no line it prints is matched by a rule; a failing command is never a pass.
\<close>

theorem no_forbidden_import_iff:
  "AssertNoForbiddenImports isprint go dir path forbidden tags = TestOk \<longleftrightarrow>
    (\<exists>imports. ResolvePackageImports go dir path tags = Inr imports \<and>
      list_all (\<lambda>i. list_all (\<lambda>r. \<not> matchesForbiddenImport i (fi_Pattern r)) forbidden) imports)"
  by (auto simp: AssertNoForbiddenImports_def Let_def find_forbidden_empty split: sum.split)

text \<open>The environment of a profile sets each of the three variables exactly once.\<close>

theorem profile_environment:
  "filter (\<lambda>s. has_prefix s ''GOOS='') (buildProfileEnvironment current p) = [''GOOS='' @ bp_GOOS p]"
  "filter (\<lambda>s. has_prefix s ''GOARCH='') (buildProfileEnvironment current p) = [''GOARCH='' @ bp_GOARCH p]"
  "filter (\<lambda>s. has_prefix s ''CGO_ENABLED='') (buildProfileEnvironment current p) = [''CGO_ENABLED=0'']"
  by (auto simp: buildProfileEnvironment_def filter_empty_conv has_prefix_iff)

text \<open>The import-isolated packages may import each other but not the root package.\<close>

lemma root_is_exact:
  "matchesForbiddenImport moduleRootImportPath moduleRootImportPath" "\<not> matchesForbiddenImport (moduleRootImportPath @ ''/contract'') moduleRootImportPath"
  by (simp_all add: matchesForbiddenImport_def moduleRootImportPath_def has_suffix_def has_prefix_def)

end
