(* ===== verification/Test_Determinism.thy ===== *)
theory Test_Determinism
  imports Test_Imports
begin

text \<open>
  The determinism helpers \<^verbatim>\<open>src/internal/testutil/determinism.go\<close>: masking of the documented non-deterministic
  fields, the comparison of two runs, and the walk that looks for timestamps outside UTC. The
  lemmas show that masking is stable, what it cannot see, and when a comparison passes.
\<close>

section \<open>Masking\<close>

definition MaskedSentinel :: string where "MaskedSentinel = ''MASKED''"

definition mask_fields :: "string list" where "mask_fields = [''trace_id'', ''span_id'', ''idempotency_key'']"

definition mask_open :: "string \<Rightarrow> string" where
  "mask_open k = CHR 0x22 # k @ [CHR 0x22, CHR 0x3A, CHR 0x22]"

text \<open>
  A match of \<^verbatim>\<open>reMaskAll\<close> at the start of a text: the field, and what follows the closing quote of its value.
\<close>

definition match_field :: "string \<Rightarrow> string \<Rightarrow> string option" where
  "match_field s k =
    (if has_prefix s (mask_open k) then
       (case dropWhile (\<lambda>c. c \<noteq> CHR 0x22) (drop (length (mask_open k)) s) of [] \<Rightarrow> None | _ # rest \<Rightarrow> Some rest)
     else None)"

definition reMaskAll :: "string \<Rightarrow> (string \<times> string) option" where
  "reMaskAll s = first_some (map (\<lambda>k. map_option (Pair k) (match_field s k)) mask_fields)"

definition maskReplacementTemplate :: "string \<Rightarrow> string" where
  "maskReplacementTemplate k = mask_open k @ MaskedSentinel @ [CHR 0x22]"

lemma match_field_length: "match_field s k = Some rest \<Longrightarrow> length rest < length s"
proof -
  assume m: "match_field s k = Some rest"
  then obtain c where "dropWhile (\<lambda>c. c \<noteq> CHR 0x22) (drop (length (mask_open k)) s) = c # rest"
    by (auto simp: match_field_def split: if_splits list.splits)
  then have "Suc (length rest) \<le> length (drop (length (mask_open k)) s)"
    using length_dropWhile_le [of "\<lambda>c. c \<noteq> CHR 0x22" "drop (length (mask_open k)) s"] by simp
  then show ?thesis by simp
qed

lemma reMaskAll_Some: "reMaskAll s = Some (k, rest) \<Longrightarrow> k \<in> set mask_fields \<and> match_field s k = Some rest"
  by (auto simp: reMaskAll_def eq_commute [of "Some (k, rest)"] map_option_eq_Some dest!: first_some_SomeD)

function MaskNonDeterministic :: "string \<Rightarrow> string" where
  "MaskNonDeterministic [] = []"
| "MaskNonDeterministic (c # s) =
    (case reMaskAll (c # s) of
       Some (k, rest) \<Rightarrow> maskReplacementTemplate k @ MaskNonDeterministic rest
     | None \<Rightarrow> c # MaskNonDeterministic s)"
  by pat_completeness auto
termination
  by (relation "measure length") (auto dest!: reMaskAll_Some dest: match_field_length)

section \<open>Comparing two runs\<close>

datatype OutputMode = ModeBoundedJSON | ModeNDJSON

definition divergeContextBytes :: nat where "divergeContextBytes = 40"

fun common_length :: "string \<Rightarrow> string \<Rightarrow> nat" where
  "common_length (a # as) (b # bs) = (if a = b then Suc (common_length as bs) else 0)"
| "common_length _ _ = 0"

definition slice :: "nat \<Rightarrow> nat \<Rightarrow> string \<Rightarrow> string" where
  "slice i j s = take (j - i) (drop i s)"

definition compareBytes :: "(nat \<Rightarrow> bool) \<Rightarrow> string \<Rightarrow> string \<Rightarrow> test_outcome" where
  "compareBytes isprint m1 m2 =
    (if m1 = m2 then TestOk
     else
       let idx = common_length m1 m2;
           start = idx - divergeContextBytes;
           end1 = min (idx + divergeContextBytes) (length m1);
           end2 = min (idx + divergeContextBytes) (length m2);
           shown = (\<lambda>n stop m. ''  run'' @ itoa n @ ''['' @ itoa (int start) @ '':'' @ itoa (int stop) @ '']: '' @ quote isprint (slice start stop m)) in
       TestErrorf (''output diverges at byte '' @ itoa (int idx) @ '':'' @ [nl] @ shown 1 end1 m1 @ [nl] @ shown 2 end2 m2))"

definition splitNDJSON :: "string \<Rightarrow> string list" where
  "splitNDJSON b = (let t = trim_right nl b in if t = [] then [] else split_lines t)"

fun first_divergence :: "nat \<Rightarrow> string list \<Rightarrow> string list \<Rightarrow> (nat \<times> string \<times> string) option" where
  "first_divergence i (a # as) (b # bs) = (if a = b then first_divergence (Suc i) as bs else Some (i, a, b))"
| "first_divergence i _ _ = None"

definition CompareOutputs :: "(nat \<Rightarrow> bool) \<Rightarrow> string \<Rightarrow> string \<Rightarrow> OutputMode \<Rightarrow> test_outcome" where
  "CompareOutputs isprint run1 run2 mode =
    (if run1 = [] \<or> run2 = [] then
       TestErrorf (''CompareOutputs: precondition violated '' @ map char_of [226 :: nat, 128, 148] @ '' both run1 and run2 must be non-empty'' @
         '' (len(run1)='' @ itoa (int (length run1)) @ '', len(run2)='' @ itoa (int (length run2)) @ '')'')
     else
       let m1 = MaskNonDeterministic run1; m2 = MaskNonDeterministic run2 in
       case mode of
         ModeBoundedJSON \<Rightarrow> compareBytes isprint m1 m2
       | ModeNDJSON \<Rightarrow>
           let lines1 = splitNDJSON m1; lines2 = splitNDJSON m2 in
           if length lines1 \<noteq> length lines2 then
             TestErrorf (''CompareOutputs (NDJSON): line count mismatch: run1 has '' @ itoa (int (length lines1)) @
               '' lines, run2 has '' @ itoa (int (length lines2)) @ '' lines'')
           else
             (case first_divergence 0 lines1 lines2 of
                None \<Rightarrow> TestOk
              | Some (i, a, b) \<Rightarrow>
                  TestErrorf (''CompareOutputs (NDJSON): line '' @ itoa (int i) @ '' diverges:'' @ [nl] @ ''  run1: '' @ quote isprint a @ [nl] @
                    ''  run2: '' @ quote isprint b)))"

section \<open>Timestamps\<close>

text \<open>
  The failures reported for a decoded JSON value; \<^verbatim>\<open>offset_of\<close> is the zone offset of a string
  that parses as RFC 3339.
\<close>

fun walkAny :: "(nat \<Rightarrow> bool) \<Rightarrow> (string \<Rightarrow> int option) \<Rightarrow> any_value \<Rightarrow> string list" where
  "walkAny isprint offset_of (StrVal s) =
    (case offset_of s of
       Some n \<Rightarrow> (if n \<noteq> 0 then [''timestamp '' @ quote isprint s @ '' is not UTC (zone offset = '' @ itoa n @ '' seconds)''] else [])
     | None \<Rightarrow> [])"
| "walkAny isprint offset_of (ObjVal kvs) = concat (map (\<lambda>kv. walkAny isprint offset_of (snd kv)) kvs)"
| "walkAny isprint offset_of (ListVal vs) = concat (map (walkAny isprint offset_of) vs)"
| "walkAny isprint offset_of _ = []"

definition ValidateTimestamps :: "(nat \<Rightarrow> bool) \<Rightarrow> (string \<Rightarrow> go_error + any_value) \<Rightarrow> (string \<Rightarrow> int option) \<Rightarrow> string \<Rightarrow> string list" where
  "ValidateTimestamps isprint decode offset_of data =
    (case decode data of
       Inl e \<Rightarrow> [''ValidateTimestamps: invalid JSON: '' @ error_text isprint e]
     | Inr v \<Rightarrow> walkAny isprint offset_of v)"

definition AssertFullyTyped :: "(nat \<Rightarrow> bool) \<Rightarrow> string \<Rightarrow> go_error option \<Rightarrow> test_outcome" where
  "AssertFullyTyped isprint type_name unmarshal_error =
    (case unmarshal_error of
       Some e \<Rightarrow> TestErrorf (''AssertFullyTyped: failed to unmarshal into '' @ type_name @ '': '' @ error_text isprint e)
     | None \<Rightarrow> TestOk)"

section \<open>Lemmas on masking\<close>

declare MaskNonDeterministic.simps(2) [simp del]

lemma mask_None: "reMaskAll (c # s) = None \<Longrightarrow> MaskNonDeterministic (c # s) = c # MaskNonDeterministic s"
  by (simp add: MaskNonDeterministic.simps)

lemma mask_Some: "reMaskAll s = Some (k, rest) \<Longrightarrow> MaskNonDeterministic s = maskReplacementTemplate k @ MaskNonDeterministic rest"
  by (cases s) (simp_all add: MaskNonDeterministic.simps reMaskAll_def match_field_def mask_open_def has_prefix_def mask_fields_def)

lemma no_quote_field: "k \<in> set mask_fields \<Longrightarrow> CHR 0x22 \<notin> set k \<and> k \<noteq> []"
  by (auto simp: mask_fields_def)

lemma match_field_quote: "match_field s k \<noteq> None \<Longrightarrow> \<exists>t. s = CHR 0x22 # t"
  by (cases s) (auto simp: match_field_def mask_open_def has_prefix_def split: if_splits)

lemma match_field_iff:
  "match_field s k = Some rest \<longleftrightarrow> (\<exists>v. CHR 0x22 \<notin> set v \<and> s = mask_open k @ v @ CHR 0x22 # rest)"
proof
  assume m: "match_field s k = Some rest"
  then obtain t c where t: "s = mask_open k @ t" "dropWhile (\<lambda>c. c \<noteq> CHR 0x22) t = c # rest"
    by (auto simp: match_field_def has_prefix_iff split: if_splits list.splits)
  then have "t = takeWhile (\<lambda>c. c \<noteq> CHR 0x22) t @ c # rest" "c = CHR 0x22"
    using takeWhile_dropWhile_id [of "\<lambda>c. c \<noteq> CHR 0x22" t] hd_dropWhile [of "\<lambda>c. c \<noteq> CHR 0x22" t] by auto
  then show "\<exists>v. CHR 0x22 \<notin> set v \<and> s = mask_open k @ v @ CHR 0x22 # rest"
    using t(1) by (intro exI [of _ "takeWhile (\<lambda>c. c \<noteq> CHR 0x22) t"]) (auto dest: set_takeWhileD)
next
  assume "\<exists>v. CHR 0x22 \<notin> set v \<and> s = mask_open k @ v @ CHR 0x22 # rest"
  then obtain v where v: "CHR 0x22 \<notin> set v" "s = mask_open k @ v @ CHR 0x22 # rest" by blast
  then have "dropWhile (\<lambda>c. c \<noteq> CHR 0x22) (v @ CHR 0x22 # rest) = CHR 0x22 # rest"
    by (subst dropWhile_append2) auto
  then show "match_field s k = Some rest" unfolding v(2) by (simp add: match_field_def has_prefix_iff)
qed

text \<open>At most one field matches, as the names differ before their closing quote.\<close>

lemma mask_open_unique:
  assumes "k \<in> set mask_fields" "k' \<in> set mask_fields" "mask_open k @ x = mask_open k' @ y"
  shows "k = k'"
  using assms by (auto simp: mask_fields_def mask_open_def)

lemma reMaskAll_iff: "reMaskAll s = Some (k, rest) \<longleftrightarrow> k \<in> set mask_fields \<and> match_field s k = Some rest"
proof
  assume r: "k \<in> set mask_fields \<and> match_field s k = Some rest"
  then have "Some (k, rest) \<in> set (map (\<lambda>k. map_option (Pair k) (match_field s k)) mask_fields)" by force
  then obtain y where y: "reMaskAll s = Some y" unfolding reMaskAll_def
    by (metis first_some_None_iff not_None_eq)
  obtain k' rest' where p: "y = (k', rest')" by (cases y)
  have m: "k' \<in> set mask_fields" "match_field s k' = Some rest'" using reMaskAll_Some y p by auto
  then have "k' = k" using r mask_open_unique [of k' k] by (auto simp: match_field_iff)
  then show "reMaskAll s = Some (k, rest)" using y p m r by simp
qed (rule reMaskAll_Some)

lemma reMaskAll_None: "c \<noteq> CHR 0x22 \<Longrightarrow> reMaskAll (c # s) = None"
proof -
  assume "c \<noteq> CHR 0x22"
  then have "match_field (c # s) k = None" for k using match_field_quote [of "c # s" k] by (cases "match_field (c # s) k") auto
  then show ?thesis by (simp add: reMaskAll_def)
qed

lemma mask_other [simp]: "c \<noteq> CHR 0x22 \<Longrightarrow> MaskNonDeterministic (c # s) = c # MaskNonDeterministic s"
  by (simp add: mask_None reMaskAll_None)

lemma mask_plain: "CHR 0x22 \<notin> set p \<Longrightarrow> MaskNonDeterministic (p @ s) = p @ MaskNonDeterministic s"
proof (induction p)
  case (Cons c p)
  then have "c \<noteq> CHR 0x22" by auto
  then show ?case using Cons by simp
qed simp

lemma mask_no_quote: "CHR 0x22 \<notin> set s \<Longrightarrow> MaskNonDeterministic s = s"
  using mask_plain [of s "[]"] by simp

lemma mask_field: "k \<in> set mask_fields \<Longrightarrow> CHR 0x22 \<notin> set v \<Longrightarrow>
    MaskNonDeterministic (mask_open k @ v @ CHR 0x22 # s) = maskReplacementTemplate k @ MaskNonDeterministic s"
proof -
  assume k: "k \<in> set mask_fields" "CHR 0x22 \<notin> set v"
  then have "reMaskAll (mask_open k @ v @ CHR 0x22 # s) = Some (k, s)" by (auto simp: reMaskAll_iff match_field_iff)
  then show ?thesis by (rule mask_Some)
qed

text \<open>What starts a text decides whether masking starts it the same way.\<close>

lemma mask_first: "has_prefix (MaskNonDeterministic s) [c] \<longleftrightarrow> has_prefix s [c]"
proof (cases s)
  case (Cons d t)
  show ?thesis
  proof (cases "reMaskAll (d # t)")
    case None
    then show ?thesis using Cons by (simp add: mask_None has_prefix_def)
  next
    case (Some kr)
    obtain k rest where "kr = (k, rest)" by (cases kr)
    then show ?thesis using Some Cons mask_Some [of "d # t" k rest]
      by (auto simp: has_prefix_def maskReplacementTemplate_def mask_open_def reMaskAll_iff match_field_iff)
  qed
qed (simp add: has_prefix_def)

lemma has_prefix_Cons: "has_prefix (c # s) (d # p) \<longleftrightarrow> c = d \<and> has_prefix s p"
  by (auto simp: has_prefix_def)

lemma mask_middle: "has_prefix (MaskNonDeterministic s) [CHR 0x22, CHR 0x3A, CHR 0x22] \<longleftrightarrow> has_prefix s [CHR 0x22, CHR 0x3A, CHR 0x22]"
proof (cases s)
  case (Cons d t)
  show ?thesis
  proof (cases "reMaskAll (d # t)")
    case None
    show ?thesis
    proof (cases t)
      case t: (Cons d' t')
      show ?thesis
      proof (cases "d' = CHR 0x3A")
        case True
        then show ?thesis using None Cons t by (simp add: mask_None has_prefix_Cons mask_first)
      next
        case False
        then have "\<not> has_prefix (MaskNonDeterministic t) [CHR 0x3A]" using t by (simp add: mask_first has_prefix_Cons)
        then have "\<not> has_prefix (MaskNonDeterministic t) [CHR 0x3A, CHR 0x22]" by (auto simp: has_prefix_iff)
        then have "\<not> has_prefix (MaskNonDeterministic s) [CHR 0x22, CHR 0x3A, CHR 0x22]"
          using mask_None [OF None] Cons by (simp add: has_prefix_Cons)
        then show ?thesis using Cons t False by (simp add: has_prefix_Cons)
      qed
    qed (use None Cons in \<open>simp add: has_prefix_def mask_None\<close>)
  next
    case (Some kr)
    obtain k rest where "kr = (k, rest)" by (cases kr)
    then have k: "k \<in> set mask_fields" "match_field (d # t) k = Some rest" using Some reMaskAll_Some by auto
    then obtain c k' where ck: "k = c # k'" "c \<noteq> CHR 0x3A" by (auto simp: mask_fields_def)
    obtain v where "d # t = mask_open k @ v @ CHR 0x22 # rest" using k(2) by (auto simp: match_field_iff)
    then show ?thesis using mask_Some [of "d # t" k rest] Some Cons ck \<open>kr = (k, rest)\<close>
      by (auto simp: maskReplacementTemplate_def mask_open_def has_prefix_Cons)
  qed
qed (simp add: has_prefix_def)

lemma mask_prefix:
  "CHR 0x22 \<notin> set k \<Longrightarrow>
    has_prefix (MaskNonDeterministic s) (k @ [CHR 0x22, CHR 0x3A, CHR 0x22]) \<longleftrightarrow> has_prefix s (k @ [CHR 0x22, CHR 0x3A, CHR 0x22])"
proof (induction k arbitrary: s)
  case Nil
  show ?case using mask_middle [of s] by simp
next
  case (Cons c k)
  show ?case
  proof (cases s)
    case s: (Cons d t)
    show ?thesis
    proof (cases "d = CHR 0x22")
      case True
      then have "has_prefix s [CHR 0x22]" using s by (simp add: has_prefix_def)
      then have "has_prefix (MaskNonDeterministic s) [CHR 0x22]" by (simp only: mask_first)
      then show ?thesis using True s Cons.prems by (auto simp: has_prefix_iff)
    next
      case False
      moreover have "CHR 0x22 \<notin> set k" using Cons.prems by simp
      ultimately show ?thesis using s Cons.IH [of t] by (simp add: has_prefix_Cons)
    qed
  qed (simp add: has_prefix_def)
qed

lemma no_match_quote: "CHR 0x22 \<notin> set t \<Longrightarrow> reMaskAll (CHR 0x22 # t) = None"
proof (rule ccontr)
  assume t: "CHR 0x22 \<notin> set t" "reMaskAll (CHR 0x22 # t) \<noteq> None"
  then obtain k rest where "reMaskAll (CHR 0x22 # t) = Some (k, rest)" by auto
  then show False using t(1) by (auto simp: reMaskAll_iff match_field_iff mask_open_def)
qed

lemma no_match_colon: "reMaskAll (CHR 0x22 # CHR 0x3A # t) = None"
proof (rule ccontr)
  assume "reMaskAll (CHR 0x22 # CHR 0x3A # t) \<noteq> None"
  then obtain k rest where "reMaskAll (CHR 0x22 # CHR 0x3A # t) = Some (k, rest)" by auto
  then show False by (auto simp: reMaskAll_iff match_field_iff mask_open_def mask_fields_def)
qed

lemma no_match_mask: "reMaskAll (c # s) = None \<Longrightarrow> reMaskAll (c # MaskNonDeterministic s) = None"
proof (rule ccontr)
  assume none: "reMaskAll (c # s) = None" and "reMaskAll (c # MaskNonDeterministic s) \<noteq> None"
  then obtain k rest where "reMaskAll (c # MaskNonDeterministic s) = Some (k, rest)" by auto
  then obtain v where k: "k \<in> set mask_fields" and c: "c = CHR 0x22"
    and m: "MaskNonDeterministic s = k @ [CHR 0x22, CHR 0x3A, CHR 0x22] @ v @ CHR 0x22 # rest"
    by (auto simp: reMaskAll_iff match_field_iff mask_open_def)
  have kq: "CHR 0x22 \<notin> set k" using no_quote_field [OF k] by simp
  have "has_prefix (MaskNonDeterministic s) (k @ [CHR 0x22, CHR 0x3A, CHR 0x22])" unfolding has_prefix_iff m by simp
  then obtain t where s: "s = k @ CHR 0x22 # CHR 0x3A # CHR 0x22 # t"
    unfolding mask_prefix [OF kq] unfolding has_prefix_iff by auto
  have t: "CHR 0x22 \<notin> set t"
  proof
    assume "CHR 0x22 \<in> set t"
    then obtain w u where "t = w @ CHR 0x22 # u" "CHR 0x22 \<notin> set w" by (meson split_list_first)
    then have "reMaskAll (c # s) = Some (k, u)" using k c s by (auto simp: reMaskAll_iff match_field_iff mask_open_def)
    then show False using none by simp
  qed
  have "MaskNonDeterministic s = s"
    unfolding s mask_plain [OF kq] by (simp add: mask_None no_match_colon no_match_quote [OF t] mask_no_quote [OF t])
  then show False using m s t by auto
qed

lemma divergence_None: "length as = length bs \<Longrightarrow> first_divergence i as bs = None \<longleftrightarrow> as = bs"
  by (induction i as bs rule: first_divergence.induct) auto

section \<open>Properties\<close>

text \<open>Masking a masked output changes nothing.\<close>

theorem mask_idempotent: "MaskNonDeterministic (MaskNonDeterministic s) = MaskNonDeterministic s"
proof (induction s rule: MaskNonDeterministic.induct)
  case (2 c s)
  show ?case
  proof (cases "reMaskAll (c # s)")
    case None
    then show ?thesis using 2(1) [OF None] by (simp add: mask_None no_match_mask)
  next
    case (Some kr)
    obtain k rest where kr: "kr = (k, rest)" by (cases kr)
    then have k: "k \<in> set mask_fields" using Some reMaskAll_Some by blast
    have "MaskNonDeterministic (maskReplacementTemplate k @ MaskNonDeterministic rest) = maskReplacementTemplate k @ MaskNonDeterministic (MaskNonDeterministic rest)"
      using mask_field [OF k, of MaskedSentinel "MaskNonDeterministic rest"] by (simp add: maskReplacementTemplate_def MaskedSentinel_def)
    then show ?thesis using 2(2) [OF Some kr [symmetric]] mask_Some [of "c # s" k rest] Some kr by simp
  qed
qed simp

text \<open>
  Two runs compare equal exactly when both produced output and their masked outputs are equal,
  as a whole or line by line up to line ends at the end.
\<close>

theorem compare_passes_iff:
  "CompareOutputs isprint run1 run2 mode = TestOk \<longleftrightarrow> run1 \<noteq> [] \<and> run2 \<noteq> [] \<and>
    (case mode of
       ModeBoundedJSON \<Rightarrow> MaskNonDeterministic run1 = MaskNonDeterministic run2
     | ModeNDJSON \<Rightarrow> splitNDJSON (MaskNonDeterministic run1) = splitNDJSON (MaskNonDeterministic run2))"
proof (cases mode)
  case ModeBoundedJSON
  then show ?thesis by (simp add: CompareOutputs_def compareBytes_def Let_def)
next
  case ModeNDJSON
  then show ?thesis
    using divergence_None [of "splitNDJSON (MaskNonDeterministic run1)" "splitNDJSON (MaskNonDeterministic run2)" 0]
    by (cases "first_divergence 0 (splitNDJSON (MaskNonDeterministic run1)) (splitNDJSON (MaskNonDeterministic run2))")
      (auto simp: CompareOutputs_def Let_def)
qed

text \<open>Fields that differ only in a value without a quote are equal after masking.\<close>

lemma masked_values_equal:
  assumes "CHR 0x22 \<notin> set p" "k \<in> set mask_fields" "CHR 0x22 \<notin> set v" "CHR 0x22 \<notin> set w"
  shows "MaskNonDeterministic (p @ mask_open k @ v @ CHR 0x22 # s) = MaskNonDeterministic (p @ mask_open k @ w @ CHR 0x22 # s)"
  using assms by (simp add: mask_plain mask_field)

end
