(* ===== verification/Test_Errorcodes.thy ===== *)
theory Test_Errorcodes
  imports Unread_Ast Gate_Output
begin

text \<open>
  The error-code guard \<^verbatim>\<open>src/internal/testutil/errorcodes.go\<close>: its configuration, the files it walks, the string
  constants of the contract package, and the check of every file for codes that are not
  registered constants. Syntax trees are those of \<^verbatim>\<open>Unread_Ast\<close>; the file system, the parser, the printer and \<^verbatim>\<open>strconv.Unquote\<close> are
  arguments. The lemmas say what a clean result means.
\<close>

section \<open>Configuration\<close>

definition KindCallCode :: string where "KindCallCode = ''call_code''"
definition KindFieldCode :: string where "KindFieldCode = ''field_code''"
definition KindAssignCode :: string where "KindAssignCode = ''assign_code''"
definition KindConstructorValue :: string where "KindConstructorValue = ''constructor_value''"
definition KindDotImport :: string where "KindDotImport = ''dot_import''"
definition KindStalePassThrough :: string where "KindStalePassThrough = ''stale_pass_through''"

definition contractDirName :: string where "contractDirName = ''contract''"
definition errorConstructorName :: string where "errorConstructorName = ''NewError''"
definition errorCodeFieldName :: string where "errorCodeFieldName = ''ErrorCode''"

text \<open>The code is the second argument.\<close>

definition codeArgIndex :: nat where "codeArgIndex = 1"

definition errInvalidErrorCodeGuard :: go_error where "errInvalidErrorCodeGuard = TextError ''invalid error code guard''"

record excluded_dir =
  xd_Dir :: string
  xd_Reason :: string

record pass_through =
  pt_File :: string
  pt_Func :: string
  pt_Param :: string
  pt_Reason :: string

record code_guard =
  cg_ModuleDir :: string
  cg_ModulePath :: string
  cg_RootPackageName :: string
  cg_Registered :: "string list"
  cg_ExcludedDirs :: "excluded_dir list"
  cg_PassThroughs :: "pass_through list"

record code_violation =
  cv_File :: string
  cv_Line :: int
  cv_Kind :: string
  cv_Expr :: string

definition validate_guard :: "(nat \<Rightarrow> bool) \<Rightarrow> code_guard \<Rightarrow> go_error option" where
  "validate_guard isprint g =
    (let bad = (\<lambda>text. Some (SuffixError errInvalidErrorCodeGuard text)) in
     if cg_ModuleDir g = [] then bad ''ModuleDir is empty''
     else if cg_ModulePath g = [] then bad ''ModulePath is empty''
     else if cg_RootPackageName g = [] then bad ''RootPackageName is empty''
     else if length (cg_Registered g) = 0 then bad ''Registered is empty''
     else
       first_some
         (map (\<lambda>x. if xd_Dir x = [] \<or> xd_Reason x = [] then bad (''excluded dir '' @ quote isprint (xd_Dir x) @ '' needs a path and a reason'') else None)
            (cg_ExcludedDirs g) @
          map (\<lambda>p. if pt_File p = [] \<or> pt_Func p = [] \<or> pt_Param p = [] \<or> pt_Reason p = []
                then bad (''pass-through '' @ pt_File p @ '' '' @ pt_Func p @ ''('' @ pt_Param p @ '') needs a file, function, parameter, and reason'')
                else None) (cg_PassThroughs g)))"

section \<open>The contract's constants\<close>

definition isNonTestGoFile :: "string \<Rightarrow> bool" where
  "isNonTestGoFile name \<longleftrightarrow> has_suffix name ''.go'' \<and> \<not> has_suffix name ''_test.go''"

text \<open>
  A parsed file: its imports (the path literal as a node with its source text, and the local name), its
  constant declarations (the names, and the source text of each value that is a string
  literal), and its declarations.
\<close>

record import_spec =
  is_Path :: string
  is_Node :: go_node
  is_Name :: "string option"

record const_spec =
  cs_Names :: "string list"
  cs_Values :: "string option list"

record code_file =
  cf_Imports :: "import_spec list"
  cf_Consts :: "const_spec list"
  cf_Decls :: "go_node list"

definition collectSpecStringConstants ::
  "(nat \<Rightarrow> bool) \<Rightarrow> (string \<Rightarrow> string option) \<Rightarrow> const_spec \<Rightarrow> (string \<times> string) list \<Rightarrow> (string \<times> string) list" where
  "collectSpecStringConstants is_upper unquote spec m =
    foldl (\<lambda>m (i, name).
      if \<not> is_exported is_upper name \<or> i \<ge> length (cs_Values spec) then m
      else
        (case cs_Values spec ! i of
           None \<Rightarrow> m
         | Some lit \<Rightarrow> (case unquote lit of Some v \<Rightarrow> AList.update name v m | None \<Rightarrow> m))) m (enumerate 0 (cs_Names spec))"

definition collectStringConstants where
  "collectStringConstants is_upper unquote file m = foldl (\<lambda>m spec. collectSpecStringConstants is_upper unquote spec m) m (cf_Consts file)"

text \<open>The entries of a directory are names with whether they are directories.\<close>

fun parse_constants ::
  "(nat \<Rightarrow> bool) \<Rightarrow> (string \<Rightarrow> string option) \<Rightarrow> (string \<Rightarrow> go_error + code_file) \<Rightarrow> (string \<times> bool) list \<Rightarrow> nat \<Rightarrow> (string \<times> string) list \<Rightarrow>
   go_error + nat \<times> (string \<times> string) list" where
  "parse_constants is_upper unquote parse [] parsed m = Inr (parsed, m)"
| "parse_constants is_upper unquote parse ((name, is_dir) # es) parsed m =
    (if is_dir \<or> \<not> isNonTestGoFile name then parse_constants is_upper unquote parse es parsed m
     else
       (case parse name of
          Inl e \<Rightarrow> Inl (WrapError (''parse '' @ name) e)
        | Inr file \<Rightarrow> parse_constants is_upper unquote parse es (Suc parsed) (collectStringConstants is_upper unquote file m)))"

definition ErrNotExist :: go_error where "ErrNotExist = TextError ''file does not exist''"

definition ParseStringConstants ::
  "(nat \<Rightarrow> bool) \<Rightarrow> (string \<Rightarrow> string option) \<Rightarrow> (string \<Rightarrow> go_error + code_file) \<Rightarrow> string \<Rightarrow> go_error + (string \<times> bool) list \<Rightarrow>
   go_error + (string \<times> string) list" where
  "ParseStringConstants is_upper unquote parse dir entries =
    (case entries of
       Inl e \<Rightarrow> Inl (WrapError (''read '' @ dir) e)
     | Inr es \<Rightarrow>
         (case parse_constants is_upper unquote parse es 0 [] of
            Inl e \<Rightarrow> Inl e
          | Inr (parsed, m) \<Rightarrow> (if parsed = 0 then Inl (SuffixError ErrNotExist (''no Go files in '' @ dir)) else Inr m)))"

definition registeredConstantNames :: "(string \<times> string) list \<Rightarrow> string list \<Rightarrow> string list" where
  "registeredConstantNames constants registered = map fst (filter (\<lambda>(name, v). v \<in> set registered) constants)"

section \<open>The walk over the module\<close>

text \<open>
  A directory tree as \<^verbatim>\<open>filepath.WalkDir\<close> meets it, entries in lexical order: files, directories with whether they
  hold a \<^verbatim>\<open>go.mod\<close>, and entries it cannot read.
\<close>

datatype dir_tree =
    FileEntry string
  | DirEntry string bool "dir_tree list"
  | BadEntry go_error

definition rel_join :: "string \<Rightarrow> string \<Rightarrow> string" where
  "rel_join dir name = (if dir = ''.'' then name else dir @ ''/'' @ name)"

definition skipped_dir :: "string list \<Rightarrow> string \<Rightarrow> string \<Rightarrow> bool \<Rightarrow> bool" where
  "skipped_dir excluded rel name has_gomod \<longleftrightarrow>
    has_prefix name ''.'' \<or> name = ''testdata'' \<or> name = ''node_modules'' \<or> rel \<in> set excluded \<or> has_gomod"

fun walk_dir :: "string list \<Rightarrow> string \<Rightarrow> dir_tree list \<Rightarrow> go_error + string list" where
  "walk_dir excluded dir [] = Inr []"
| "walk_dir excluded dir (BadEntry e # ts) = Inl e"
| "walk_dir excluded dir (FileEntry name # ts) =
    (case walk_dir excluded dir ts of
       Inl e \<Rightarrow> Inl e
     | Inr fs \<Rightarrow> Inr (if isNonTestGoFile name then rel_join dir name # fs else fs))"
| "walk_dir excluded dir (DirEntry name has_gomod entries # ts) =
    (case (if skipped_dir excluded (rel_join dir name) name has_gomod then Inr [] else walk_dir excluded (rel_join dir name) entries) of
       Inl e \<Rightarrow> Inl e
     | Inr fs \<Rightarrow> (case walk_dir excluded dir ts of Inl e \<Rightarrow> Inl e | Inr gs \<Rightarrow> Inr (fs @ gs)))"

definition sourceFiles :: "(string \<Rightarrow> string) \<Rightarrow> code_guard \<Rightarrow> go_error + dir_tree list \<Rightarrow> go_error + string list" where
  "sourceFiles clean g tree =
    (case (case tree of Inl e \<Rightarrow> Inl e | Inr ts \<Rightarrow> walk_dir (map (clean \<circ> xd_Dir) (cg_ExcludedDirs g)) ''.'' ts) of
       Inl e \<Rightarrow> Inl (WrapError (''walk '' @ cg_ModuleDir g) e)
     | Inr fs \<Rightarrow> Inr fs)"

section \<open>The check of one file\<close>

record file_scope =
  sc_rel :: string
  sc_inRoot :: bool
  sc_inContract :: bool
  sc_contractNames :: "string list"
  sc_rootNames :: "string list"
  sc_funcName :: string
  sc_params :: "string list"

text \<open>What the checker has: the guard, the registered names, the line of a node, and its source text.\<close>

record code_checker =
  cc_guard :: code_guard
  cc_registered :: "string list"
  cc_line :: "nat \<Rightarrow> int"
  cc_print :: "go_node \<Rightarrow> string"

text \<open>Its state: which pass-throughs matched, and the violations.\<close>

type_synonym check_state = "nat list \<times> code_violation list"

definition report_code :: "code_checker \<Rightarrow> file_scope \<Rightarrow> go_node \<Rightarrow> string \<Rightarrow> check_state \<Rightarrow> check_state" where
  "report_code c scope n kind st =
    (fst st, snd st @ [\<lparr>cv_File = sc_rel scope, cv_Line = cc_line c (nid n), cv_Kind = kind, cv_Expr = cc_print c n\<rparr>])"

text \<open>The package and name of a qualified identifier.\<close>

definition qualified_name :: "go_node \<Rightarrow> (string \<times> string) option" where
  "qualified_name n = (case n of NSelector i (NIdent j pkg) s \<Rightarrow> (case s of NIdent k sel \<Rightarrow> Some (pkg, sel) | _ \<Rightarrow> None) | _ \<Rightarrow> None)"

definition isConstructor :: "file_scope \<Rightarrow> go_node \<Rightarrow> bool" where
  "isConstructor scope n \<longleftrightarrow>
    (case unparen n of
       NIdent i name \<Rightarrow> name = errorConstructorName \<and> (sc_inRoot scope \<or> sc_inContract scope)
     | m \<Rightarrow>
         (case qualified_name m of
            Some (pkg, sel) \<Rightarrow> sel = errorConstructorName \<and> (pkg \<in> set (sc_contractNames scope) \<or> pkg \<in> set (sc_rootNames scope))
          | None \<Rightarrow> False))"

definition isRegistered :: "code_checker \<Rightarrow> file_scope \<Rightarrow> go_node \<Rightarrow> bool" where
  "isRegistered c scope n \<longleftrightarrow>
    (case unparen n of
       NIdent i name \<Rightarrow> sc_inContract scope \<and> name \<in> set (cc_registered c)
     | m \<Rightarrow>
         (case qualified_name m of
            Some (pkg, sel) \<Rightarrow> pkg \<in> set (sc_contractNames scope) \<and> sel \<in> set (cc_registered c)
          | None \<Rightarrow> False))"

text \<open>The first pass-through of a parameter, by its index.\<close>

fun pass_index :: "file_scope \<Rightarrow> string \<Rightarrow> nat \<Rightarrow> pass_through list \<Rightarrow> nat option" where
  "pass_index scope name i [] = None"
| "pass_index scope name i (p # ps) =
    (if pt_File p = sc_rel scope \<and> pt_Func p = sc_funcName scope \<and> pt_Param p = name then Some i else pass_index scope name (Suc i) ps)"

definition isPassThrough :: "code_checker \<Rightarrow> file_scope \<Rightarrow> go_node \<Rightarrow> nat option" where
  "isPassThrough c scope code_node =
    (case code_node of
       NIdent i name \<Rightarrow> (if name \<in> set (sc_params scope) then pass_index scope name 0 (cg_PassThroughs (cc_guard c)) else None)
     | _ \<Rightarrow> None)"

definition checkCode :: "code_checker \<Rightarrow> file_scope \<Rightarrow> go_node \<Rightarrow> string \<Rightarrow> check_state \<Rightarrow> check_state" where
  "checkCode c scope code_node kind st =
    (if isRegistered c scope code_node then st
     else
       (case isPassThrough c scope code_node of
          Some i \<Rightarrow> (i # fst st, snd st)
        | None \<Rightarrow> report_code c scope code_node kind st))"

definition checkCallCode :: "code_checker \<Rightarrow> file_scope \<Rightarrow> go_node \<Rightarrow> go_node list \<Rightarrow> check_state \<Rightarrow> check_state" where
  "checkCallCode c scope call args st =
    (if length args \<le> codeArgIndex then report_code c scope call KindCallCode st
     else checkCode c scope (args ! codeArgIndex) KindCallCode st)"

text \<open>\<^verbatim>\<open>NSelector i x s\<close> with \<^verbatim>\<open>s\<close> an identifier is every selector of a parsed file.\<close>

definition is_code_field :: "go_node \<Rightarrow> bool" where
  "is_code_field n \<longleftrightarrow> (case n of NSelector i x (NIdent j sel) \<Rightarrow> sel = errorCodeFieldName | _ \<Rightarrow> False)"

definition checkAssign :: "code_checker \<Rightarrow> file_scope \<Rightarrow> go_node list \<Rightarrow> go_node list \<Rightarrow> check_state \<Rightarrow> check_state" where
  "checkAssign c scope lhs rhs st =
    foldl (\<lambda>st (i, l).
      if \<not> is_code_field l then st
      else if length rhs \<noteq> length lhs then (if rhs = [] then st else report_code c scope (rhs ! 0) KindAssignCode st)
      else checkCode c scope (rhs ! i) KindAssignCode st) st (enumerate 0 lhs)"

text \<open>One node of \<^verbatim>\<open>checkNode\<close>; the first part of the state is \<^verbatim>\<open>notAReference\<close>.\<close>

definition check_node :: "code_checker \<Rightarrow> file_scope \<Rightarrow> nat list \<times> check_state \<Rightarrow> go_node \<Rightarrow> nat list \<times> check_state" where
  "check_node c scope st n =
    (case n of
       NCall i f args spread \<Rightarrow>
         (if isConstructor scope f then (nid (unparen f) # fst st, checkCallCode c scope n args (snd st)) else st)
     | NKeyValue i (NIdent j key) v \<Rightarrow> (if key = errorCodeFieldName then (fst st, checkCode c scope v KindFieldCode (snd st)) else st)
     | NAssign i lhs tok rhs \<Rightarrow> (fst st, checkAssign c scope lhs rhs (snd st))
     | NSelector i x s \<Rightarrow>
         (let refs = nid s # fst st in
          (refs, if i \<notin> set refs \<and> isConstructor scope n then report_code c scope n KindConstructorValue (snd st) else snd st))
     | NIdent i name \<Rightarrow>
         (fst st, if i \<notin> set (fst st) \<and> isConstructor scope n then report_code c scope n KindConstructorValue (snd st) else snd st)
     | _ \<Rightarrow> st)"

definition checkNode :: "code_checker \<Rightarrow> file_scope \<Rightarrow> go_node \<Rightarrow> check_state \<Rightarrow> check_state" where
  "checkNode c scope decl st = snd (foldl (check_node c scope) ([], st) (map fst (inspect [] decl)))"

definition paramNames :: "go_node \<Rightarrow> string list" where
  "paramNames t =
    (case t of
       NFuncType i ps rs \<Rightarrow>
         (case ps of
            [] \<Rightarrow> []
          | _ \<Rightarrow> concat (map (\<lambda>f. case f of NField j names ty \<Rightarrow> concat (map (\<lambda>n. case n of NIdent k name \<Rightarrow> [name] | _ \<Rightarrow> []) names) | _ \<Rightarrow> [])
              (children (last ps))))
     | _ \<Rightarrow> [])"

definition check_import :: "(string \<Rightarrow> string option) \<Rightarrow> (string \<Rightarrow> string) \<Rightarrow> code_checker \<Rightarrow> file_scope \<times> check_state \<Rightarrow> import_spec \<Rightarrow> file_scope \<times> check_state" where
  "check_import unquote base c st spec =
    (let contractPath = cg_ModulePath (cc_guard c) @ ''/'' @ contractDirName; scope = fst st in
     case unquote (is_Path spec) of
       None \<Rightarrow> st
     | Some p \<Rightarrow>
         if p \<noteq> contractPath \<and> p \<noteq> cg_ModulePath (cc_guard c) then st
         else
           let name = (case is_Name spec of
                 Some n \<Rightarrow> n
               | None \<Rightarrow> if p = cg_ModulePath (cc_guard c) then cg_RootPackageName (cc_guard c) else base p) in
           if name = ''.'' then (scope, report_code c scope (is_Node spec) KindDotImport (snd st))
           else if p = contractPath then (scope\<lparr>sc_contractNames := name # sc_contractNames scope\<rparr>, snd st)
           else (scope\<lparr>sc_rootNames := name # sc_rootNames scope\<rparr>, snd st))"

definition decl_scope :: "file_scope \<Rightarrow> go_node \<Rightarrow> file_scope" where
  "decl_scope scope decl =
    (case decl of NFuncDecl i r name ex t b \<Rightarrow> scope\<lparr>sc_funcName := name, sc_params := paramNames t\<rparr> | _ \<Rightarrow> scope)"

definition checkFile :: "(string \<Rightarrow> string option) \<Rightarrow> (string \<Rightarrow> string) \<Rightarrow> (string \<Rightarrow> string) \<Rightarrow> code_checker \<Rightarrow> string \<Rightarrow> code_file \<Rightarrow> check_state \<Rightarrow> check_state" where
  "checkFile unquote base dir_of c rel file st =
    (let dir = dir_of rel;
         scope0 = \<lparr>sc_rel = rel, sc_inRoot = (dir = ''.''), sc_inContract = (dir = contractDirName), sc_contractNames = [], sc_rootNames = [],
           sc_funcName = [], sc_params = []\<rparr>;
         imported = foldl (check_import unquote base c) (scope0, st) (cf_Imports file) in
     foldl (\<lambda>st decl. checkNode c (decl_scope (fst imported) decl) decl st) (snd imported) (cf_Decls file))"

section \<open>The guard\<close>

record code_env =
  ce_isprint :: "nat \<Rightarrow> bool"
  ce_is_upper :: "nat \<Rightarrow> bool"
  ce_unquote :: "string \<Rightarrow> string option"
  ce_base :: "string \<Rightarrow> string"
  ce_dir :: "string \<Rightarrow> string"
  ce_clean :: "string \<Rightarrow> string"
  ce_contract :: "go_error + (string \<times> bool) list"
  ce_contract_dir :: string
  ce_parse_contract :: "string \<Rightarrow> go_error + code_file"
  ce_tree :: "go_error + dir_tree list"
  ce_parse :: "string \<Rightarrow> go_error + code_file"
  ce_line :: "nat \<Rightarrow> int"
  ce_print :: "go_node \<Rightarrow> string"

fun check_files :: "code_env \<Rightarrow> code_checker \<Rightarrow> string list \<Rightarrow> check_state \<Rightarrow> go_error + check_state" where
  "check_files env c [] st = Inr st"
| "check_files env c (rel # rels) st =
    (case ce_parse env rel of
       Inl e \<Rightarrow> Inl (WrapError (''parse '' @ rel) e)
     | Inr file \<Rightarrow> check_files env c rels (checkFile (ce_unquote env) (ce_base env) (ce_dir env) c rel file st))"

definition stale_entries :: "code_guard \<Rightarrow> nat list \<Rightarrow> code_violation list" where
  "stale_entries g matched =
    map (\<lambda>(i, p). \<lparr>cv_File = pt_File p, cv_Line = 0, cv_Kind = KindStalePassThrough, cv_Expr = pt_Func p @ ''('' @ pt_Param p @ '')''\<rparr>)
      (filter (\<lambda>(i, p). i \<notin> set matched) (enumerate 0 (cg_PassThroughs g)))"

definition violation_key :: "code_violation \<Rightarrow> string \<times> int \<times> string \<times> string" where
  "violation_key v = (cv_File v, cv_Line v, cv_Kind v, cv_Expr v)"

definition FindErrorCodeViolations :: "code_env \<Rightarrow> code_guard \<Rightarrow> go_error + code_violation list" where
  "FindErrorCodeViolations env g =
    (case validate_guard (ce_isprint env) g of
       Some e \<Rightarrow> Inl e
     | None \<Rightarrow>
         (case ParseStringConstants (ce_is_upper env) (ce_unquote env) (ce_parse_contract env) (ce_contract_dir env) (ce_contract env) of
            Inl e \<Rightarrow> Inl (WrapError ''read contract constants'' e)
          | Inr constants \<Rightarrow>
              (case sourceFiles (ce_clean env) g (ce_tree env) of
                 Inl e \<Rightarrow> Inl e
               | Inr files \<Rightarrow>
                   (case check_files env \<lparr>cc_guard = g, cc_registered = registeredConstantNames constants (cg_Registered g),
                       cc_line = ce_line env, cc_print = ce_print env\<rparr> files ([], []) of
                      Inl e \<Rightarrow> Inl e
                    | Inr (matched, violations) \<Rightarrow> Inr (sort_key violation_key (violations @ stale_entries g matched))))))"

definition FormatErrorCodeViolations :: "code_violation list \<Rightarrow> string" where
  "FormatErrorCodeViolations violations = trim_right nl (concat (map (\<lambda>v.
     cv_File v @ '':'' @ itoa (cv_Line v) @ '': '' @ cv_Kind v @ '': '' @ cv_Expr v @ [nl]) violations))"

section \<open>Lemmas\<close>

text \<open>A code is in order when it is registered or an accepted parameter.\<close>

definition good_code :: "code_checker \<Rightarrow> file_scope \<Rightarrow> go_node \<Rightarrow> bool" where
  "good_code c scope n \<longleftrightarrow> isRegistered c scope n \<or> isPassThrough c scope n \<noteq> None"

definition good_node :: "code_checker \<Rightarrow> file_scope \<Rightarrow> go_node \<Rightarrow> bool" where
  "good_node c scope n \<longleftrightarrow>
    (case n of
       NCall i f args spread \<Rightarrow> isConstructor scope f \<longrightarrow> codeArgIndex < length args \<and> good_code c scope (args ! codeArgIndex)
     | NKeyValue i (NIdent j key) v \<Rightarrow> key = errorCodeFieldName \<longrightarrow> good_code c scope v
     | NAssign i lhs tok rhs \<Rightarrow> length lhs = length rhs \<longrightarrow> list_all (\<lambda>(l, r). is_code_field l \<longrightarrow> good_code c scope r) (zip lhs rhs)
     | _ \<Rightarrow> True)"

lemma foldl_nil:
  assumes step: "\<And>s x. V (f s x) = [] \<Longrightarrow> V s = []" and "V (foldl f s xs) = []"
  shows "V s = [] \<and> (\<forall>x \<in> set xs. \<exists>s. V (f s x) = [])"
  using assms(2)
proof (induction xs arbitrary: s)
  case (Cons x xs)
  then have "V (foldl f (f s x) xs) = []" by simp
  from Cons.IH [OF this] have "V (f s x) = []" "\<forall>x \<in> set xs. \<exists>s. V (f s x) = []" by simp_all
  then show ?case using step by auto
qed simp

lemma report_not_nil [simp]: "snd (report_code c scope n kind st) \<noteq> []"
  by (simp add: report_code_def)

lemma checkCode_nil: "snd (checkCode c scope n kind st) = [] \<longleftrightarrow> snd st = [] \<and> good_code c scope n"
  by (auto simp: checkCode_def good_code_def split: option.split)

lemma checkCallCode_nil:
  "snd (checkCallCode c scope call args st) = [] \<longleftrightarrow> snd st = [] \<and> codeArgIndex < length args \<and> good_code c scope (args ! codeArgIndex)"
  by (auto simp: checkCallCode_def checkCode_nil)

definition assign_step :: "code_checker \<Rightarrow> file_scope \<Rightarrow> go_node list \<Rightarrow> go_node list \<Rightarrow> check_state \<Rightarrow> nat \<times> go_node \<Rightarrow> check_state" where
  "assign_step c scope lhs rhs st x =
    (if \<not> is_code_field (snd x) then st
     else if length rhs \<noteq> length lhs then (if rhs = [] then st else report_code c scope (rhs ! 0) KindAssignCode st)
     else checkCode c scope (rhs ! fst x) KindAssignCode st)"

lemma checkAssign_step: "checkAssign c scope lhs rhs st = foldl (assign_step c scope lhs rhs) st (enumerate 0 lhs)"
  unfolding checkAssign_def assign_step_def split_def ..

lemma assign_step_nil:
  "snd (assign_step c scope lhs rhs st x) = [] \<Longrightarrow> snd st = []"
  "snd (assign_step c scope lhs rhs st x) = [] \<Longrightarrow> length lhs = length rhs \<Longrightarrow> is_code_field (snd x) \<Longrightarrow> good_code c scope (rhs ! fst x)"
  by (simp_all add: assign_step_def checkCode_nil split: if_splits)

lemma checkAssign_nil:
  assumes "snd (checkAssign c scope lhs rhs st) = []"
  shows "snd st = [] \<and> (length lhs = length rhs \<longrightarrow> list_all (\<lambda>(l, r). is_code_field l \<longrightarrow> good_code c scope r) (zip lhs rhs))"
proof -
  have all: "snd st = [] \<and> (\<forall>x \<in> set (enumerate 0 lhs). \<exists>s. snd (assign_step c scope lhs rhs s x) = [])"
    using foldl_nil [of snd "assign_step c scope lhs rhs" st "enumerate 0 lhs"] assms assign_step_nil(1)
    unfolding checkAssign_step by blast
  have "good_code c scope (rhs ! i)" if "length lhs = length rhs" "i < length lhs" "is_code_field (lhs ! i)" for i
  proof -
    have "(i, lhs ! i) \<in> set (enumerate 0 lhs)" using that by (simp add: in_set_enumerate_eq)
    then obtain s where "snd (assign_step c scope lhs rhs s (i, lhs ! i)) = []" using all by blast
    from assign_step_nil(2) [OF this] show ?thesis using that by simp
  qed
  then show ?thesis using all by (simp add: list_all_length)
qed

lemma check_node_nil:
  assumes "snd (snd (check_node c scope st n)) = []"
  shows "snd (snd st) = [] \<and> good_node c scope n"
proof (cases n)
  case (NKeyValue i k v)
  show ?thesis
  proof (cases k)
    case (NIdent j key)
    then show ?thesis using assms NKeyValue
      by (cases "key = errorCodeFieldName") (simp_all add: check_node_def good_node_def checkCode_nil)
  qed (use assms NKeyValue in \<open>simp_all add: check_node_def good_node_def\<close>)
next
  case (NAssign i lhs tok rhs)
  then show ?thesis using assms checkAssign_nil [of c scope lhs rhs "snd st"] by (simp add: check_node_def good_node_def)
next
  case (NCall i f args spread)
  then show ?thesis using assms
    by (cases "isConstructor scope f") (simp_all add: check_node_def good_node_def checkCallCode_nil)
next
  case (NSelector i x s)
  then show ?thesis using assms by (simp add: check_node_def good_node_def Let_def split: if_splits)
next
  case (NIdent i name)
  then show ?thesis using assms by (simp add: check_node_def good_node_def split: if_splits)
qed (use assms in \<open>simp_all add: check_node_def good_node_def\<close>)

lemma checkNode_nil:
  assumes "snd (checkNode c scope decl st) = []"
  shows "snd st = [] \<and> (\<forall>n \<in> set (map fst (inspect [] decl)). good_node c scope n)"
  using foldl_nil [of "\<lambda>st. snd (snd st)" "check_node c scope" "([], st)" "map fst (inspect [] decl)"] assms check_node_nil
  unfolding checkNode_def by fastforce

text \<open>The scope a file's declarations are checked in, given its imports.\<close>

definition file_scope_of :: "(string \<Rightarrow> string option) \<Rightarrow> (string \<Rightarrow> string) \<Rightarrow> (string \<Rightarrow> string) \<Rightarrow> code_checker \<Rightarrow> string \<Rightarrow> code_file \<Rightarrow> file_scope" where
  "file_scope_of unquote base dir_of c rel file =
    fst (foldl (check_import unquote base c)
      (\<lparr>sc_rel = rel, sc_inRoot = (dir_of rel = ''.''), sc_inContract = (dir_of rel = contractDirName), sc_contractNames = [], sc_rootNames = [],
        sc_funcName = [], sc_params = []\<rparr>, ([], [])) (cf_Imports file))"

lemma check_import_scope: "fst s = fst s' \<Longrightarrow> fst (check_import u b c s x) = fst (check_import u b c s' x)"
  by (auto simp: check_import_def Let_def split: option.split)

lemma check_imports_scope: "fst s = fst s' \<Longrightarrow> fst (foldl (check_import u b c) s xs) = fst (foldl (check_import u b c) s' xs)"
proof (induction xs arbitrary: s s')
  case (Cons x xs)
  show ?case using Cons.IH [OF check_import_scope [OF Cons.prems, of u b c x]] by simp
qed simp

lemma check_import_nil: "snd (snd (check_import u b c st x)) = [] \<Longrightarrow> snd (snd st) = []"
  by (auto simp: check_import_def Let_def split: option.splits if_splits)

lemma checkFile_nil:
  assumes "snd (checkFile u b d c rel file st) = []"
  shows "snd st = [] \<and> (\<forall>decl \<in> set (cf_Decls file). \<forall>n \<in> set (map fst (inspect [] decl)). good_node c (decl_scope (file_scope_of u b d c rel file) decl) n)"
proof -
  let ?scope0 = "\<lparr>sc_rel = rel, sc_inRoot = (d rel = ''.''), sc_inContract = (d rel = contractDirName), sc_contractNames = [], sc_rootNames = [],
    sc_funcName = [], sc_params = []\<rparr>"
  define imported where "imported = foldl (check_import u b c) (?scope0, st) (cf_Imports file)"
  have scope: "fst imported = file_scope_of u b d c rel file"
    unfolding imported_def file_scope_of_def by (rule check_imports_scope) simp
  have decls: "snd (foldl (\<lambda>st decl. checkNode c (decl_scope (fst imported) decl) decl st) (snd imported) (cf_Decls file)) = []"
    using assms by (simp add: checkFile_def Let_def imported_def)
  have all: "snd (snd imported) = [] \<and> (\<forall>decl \<in> set (cf_Decls file). \<exists>s. snd (checkNode c (decl_scope (fst imported) decl) decl s) = [])"
    by (rule foldl_nil [where V = snd and f = "\<lambda>st decl. checkNode c (decl_scope (fst imported) decl) decl st", OF _ decls])
      (simp add: checkNode_nil)
  have "snd st = []"
    using foldl_nil [of "\<lambda>s. snd (snd s)" "check_import u b c" "(?scope0, st)" "cf_Imports file"] check_import_nil all
    unfolding imported_def by auto
  then show ?thesis using all checkNode_nil unfolding scope by blast
qed

lemma check_files_nil:
  "check_files env c rels st = Inr st' \<Longrightarrow> snd st' = [] \<Longrightarrow>
    snd st = [] \<and> (\<forall>rel \<in> set rels. \<exists>file. ce_parse env rel = Inr file \<and>
      (\<forall>decl \<in> set (cf_Decls file). \<forall>n \<in> set (map fst (inspect [] decl)).
        good_node c (decl_scope (file_scope_of (ce_unquote env) (ce_base env) (ce_dir env) c rel file) decl) n))"
proof (induction rels arbitrary: st)
  case (Cons rel rels)
  then obtain f where f: "ce_parse env rel = Inr f"
    "check_files env c rels (checkFile (ce_unquote env) (ce_base env) (ce_dir env) c rel f st) = Inr st'"
    by (auto split: sum.splits)
  note rest = Cons.IH [OF f(2) Cons.prems(2)]
  note this_file = checkFile_nil [OF conjunct1 [OF rest]]
  show ?case using rest this_file f(1) by simp
qed simp

section \<open>Properties\<close>

text \<open>
  A clean result means: in every file of the walk, every call of the constructor has a registered or accepted
  code, so has every \<^verbatim>\<open>ErrorCode\<close> element and every assignment to an \<^verbatim>\<open>ErrorCode\<close> field, and every pass-through was used.
\<close>

theorem clean_guard_sound:
  assumes "FindErrorCodeViolations env g = Inr []"
  shows "\<exists>constants files c matched.
    ParseStringConstants (ce_is_upper env) (ce_unquote env) (ce_parse_contract env) (ce_contract_dir env) (ce_contract env) = Inr constants \<and>
    sourceFiles (ce_clean env) g (ce_tree env) = Inr files \<and>
    c = \<lparr>cc_guard = g, cc_registered = registeredConstantNames constants (cg_Registered g), cc_line = ce_line env, cc_print = ce_print env\<rparr> \<and>
    (\<forall>rel \<in> set files. \<exists>file. ce_parse env rel = Inr file \<and>
      (\<forall>decl \<in> set (cf_Decls file). \<forall>n \<in> set (map fst (inspect [] decl)).
        good_node c (decl_scope (file_scope_of (ce_unquote env) (ce_base env) (ce_dir env) c rel file) decl) n)) \<and>
    check_files env c files ([], []) = Inr (matched, []) \<and> stale_entries g matched = []"
proof -
  obtain constants files where c: "ParseStringConstants (ce_is_upper env) (ce_unquote env) (ce_parse_contract env) (ce_contract_dir env) (ce_contract env) = Inr constants"
    "sourceFiles (ce_clean env) g (ce_tree env) = Inr files"
    using assms by (auto simp: FindErrorCodeViolations_def split: option.splits sum.splits)
  define ck where "ck = \<lparr>cc_guard = g, cc_registered = registeredConstantNames constants (cg_Registered g), cc_line = ce_line env, cc_print = ce_print env\<rparr>"
  obtain matched violations where run: "check_files env ck files ([], []) = Inr (matched, violations)"
    and "sort_key violation_key (violations @ stale_entries g matched) = []"
    using assms c by (auto simp: FindErrorCodeViolations_def ck_def [symmetric] split: option.splits sum.splits)
  then have nil: "violations = []" "stale_entries g matched = []"
    by (metis append_is_Nil_conv set_empty set_sort)+
  show ?thesis
    by (intro exI [of _ constants] exI [of _ files] exI [of _ ck] exI [of _ matched] conjI c ck_def nil)
      (use check_files_nil [OF run] run nil in simp_all)
qed

end
