(* ===== verification/Mcp_Command.thy ===== *)
theory Mcp_Command
  imports Go_Text Mcp_Server Mcp_Prompts
begin

text \<open>
  The public package \<^verbatim>\<open>src/mcp/\<close> (options, \<^verbatim>\<open>Serve\<close>, the \<^verbatim>\<open>mcp-server\<close> command), and of
  \<^verbatim>\<open>src/internal/mcpserver/\<close> the assembly of the SDK server, its listings, the transports and the trace of a
  call. The SDK, \<^verbatim>\<open>net/http\<close>, the propagator and the tracer are arguments. The properties say that the
  command's flags are options, and that a server lists what \<^verbatim>\<open>__schema\<close> shows, in its order.
\<close>

section \<open>Options\<close>

text \<open>\<^verbatim>\<open>Transport\<close> is a Go \<^verbatim>\<open>int\<close> with two named values.\<close>

definition pub_TransportStdio :: int where "pub_TransportStdio = 0"
definition pub_TransportHTTP :: int where "pub_TransportHTTP = 1"

record mcp_options =
  mo_transport :: int
  mo_httpAddr :: string
  mo_allowNonLoopback :: bool
  mo_version :: string
  mo_instructions :: string

text \<open>A nil option is \<^term>\<open>None\<close>.\<close>

type_synonym mcp_option = "(mcp_options \<Rightarrow> mcp_options) option"

definition defaultHTTPAddr :: string where "defaultHTTPAddr = ''127.0.0.1:8080''"

definition apply_option :: "mcp_options \<Rightarrow> mcp_option \<Rightarrow> mcp_options" where
  "apply_option o' opt = (case opt of None \<Rightarrow> o' | Some f \<Rightarrow> f o')"

definition resolveOptions :: "mcp_option list \<Rightarrow> mcp_options" where
  "resolveOptions opts = foldl apply_option
    \<lparr>mo_transport = pub_TransportStdio, mo_httpAddr = defaultHTTPAddr, mo_allowNonLoopback = False, mo_version = [], mo_instructions = []\<rparr> opts"

definition mcp_WithTransport :: "int \<Rightarrow> mcp_option" where "mcp_WithTransport t = Some (\<lambda>o'. o'\<lparr>mo_transport := t\<rparr>)"
definition WithHTTPAddr :: "string \<Rightarrow> mcp_option" where "WithHTTPAddr a = Some (\<lambda>o'. o'\<lparr>mo_httpAddr := a\<rparr>)"
definition WithAllowNonLoopback :: "bool \<Rightarrow> mcp_option" where "WithAllowNonLoopback b = Some (\<lambda>o'. o'\<lparr>mo_allowNonLoopback := b\<rparr>)"
definition mcp_WithVersion :: "string \<Rightarrow> mcp_option" where "mcp_WithVersion v = Some (\<lambda>o'. o'\<lparr>mo_version := v\<rparr>)"
definition WithInstructions :: "string \<Rightarrow> mcp_option" where "WithInstructions t = Some (\<lambda>o'. o'\<lparr>mo_instructions := t\<rparr>)"

lemmas mcp_option_defs = mcp_WithTransport_def WithHTTPAddr_def WithAllowNonLoopback_def mcp_WithVersion_def WithInstructions_def

definition mcp_config :: "mcp_options \<Rightarrow> Config" where
  "mcp_config o' =
    \<lparr>g_Transport = (if mo_transport o' = pub_TransportHTTP then TransportHTTP else TransportStdio), g_HTTPAddr = mo_httpAddr o',
     g_AllowNonLoopback = mo_allowNonLoopback o', g_Version = mo_version o', g_ServerName = [], g_Instructions = mo_instructions o'\<rparr>"

section \<open>Transports\<close>

definition serveStdio :: "bool \<Rightarrow> go_error option \<Rightarrow> go_error option" where
  "serveStdio ctx_done run_error =
    (case run_error of
       Some e \<Rightarrow> if \<not> ctx_done then Some (WrapError ''mcp: stdio transport'' e) else None
     | None \<Rightarrow> None)"

definition ErrServerClosed :: go_error where "ErrServerClosed = TextError ''http: Server closed''"

definition awaitServeExit :: "go_error option \<Rightarrow> go_error option" where
  "awaitServeExit err =
    (case err of
       Some e \<Rightarrow> if \<not> errors_is e ErrServerClosed then Some (WrapError ''mcp: http transport'' e) else None
     | None \<Rightarrow> None)"

text \<open>
  How serving on a listener ends: the context is done, with the result of \<^verbatim>\<open>Shutdown\<close> and what the serving
  goroutine then sends, or that goroutine ends by itself. The result says whether the server was closed by force.
\<close>

datatype http_end = ContextDone "go_error option" "go_error option" | ServeEnded go_error

definition serveOnListener :: "http_end \<Rightarrow> bool \<times> go_error option" where
  "serveOnListener e =
    (case e of
       ContextDone shutdown sent \<Rightarrow> (shutdown \<noteq> None, awaitServeExit sent)
     | ServeEnded err \<Rightarrow> (False, if errors_is err ErrServerClosed then None else Some (WrapError ''mcp: http transport'' err)))"

text \<open>What the two transports of a started server come to.\<close>

record transport_env =
  tv_ctx_done :: bool
  tv_stdio :: "go_error option"
  tv_http :: http_end

definition run_transport :: "transport_env \<Rightarrow> string list \<times> (go_error + dispatcher \<times> string option) \<Rightarrow> string list \<times> go_error option" where
  "run_transport tv started =
    (case started of
       (tried, Inl e) \<Rightarrow> (tried, Some e)
     | (tried, Inr (d, None)) \<Rightarrow> (tried, serveStdio (tv_ctx_done tv) (tv_stdio tv))
     | (tried, Inr (d, Some addr)) \<Rightarrow> (tried, snd (serveOnListener (tv_http tv))))"

text \<open>
  What \<^verbatim>\<open>internal/mcpserver.Serve\<close> depends on besides the context, the root and the configuration; it gives
  the addresses tried and the error.
\<close>

record ('f, 's) serve_env =
  se_isprint :: "nat \<Rightarrow> bool"
  se_parsers :: "'f parsers"
  se_url_parse :: "string \<Rightarrow> string option"
  se_net :: net_env
  se_parents :: "ctree \<Rightarrow> (nat \<times> string) list"
  se_root_id :: nat
  se_flags :: "nat \<Rightarrow> 's uflag"
  se_execRoot :: ctree
  se_transport :: transport_env

definition serve_engine :: "('f, 's) serve_env \<Rightarrow> gctx option \<Rightarrow> ctree option \<Rightarrow> Config \<Rightarrow> string list \<times> go_error option" where
  "serve_engine env ctx tree cfg =
    run_transport (se_transport env)
      (Serve (se_isprint env) (se_parsers env) (se_url_parse env) (se_net env) (se_parents env) (se_root_id env) (se_flags env) (se_execRoot env)
        ctx tree cfg)"

definition mcp_Serve :: "('f, 's) serve_env \<Rightarrow> gctx option \<Rightarrow> ctree option \<Rightarrow> mcp_option list \<Rightarrow> string list \<times> go_error option" where
  "mcp_Serve env ctx tree opts = serve_engine env ctx tree (mcp_config (resolveOptions opts))"

section \<open>The server command\<close>

definition transportFlagName :: string where "transportFlagName = ''transport''"
definition addrFlagName :: string where "addrFlagName = ''addr''"
definition allowNonLoopbackFlag :: string where "allowNonLoopbackFlag = ''allow-non-loopback''"
definition transportStdioValue :: string where "transportStdioValue = ''stdio''"
definition transportHTTPValue :: string where "transportHTTPValue = ''http''"
definition exampleCLIPlaceholder :: string where "exampleCLIPlaceholder = ''mycli''"
definition ServerCommandName :: string where "ServerCommandName = ''mcp-server''"

text \<open>The name of Cobra's root above the mounted root, or no root at all.\<close>

definition exampleCLIName :: "string option \<Rightarrow> string" where
  "exampleCLIName root_name = (case root_name of Some n \<Rightarrow> if n \<noteq> [] then n else exampleCLIPlaceholder | None \<Rightarrow> exampleCLIPlaceholder)"

definition parseTransport :: "(nat \<Rightarrow> bool) \<Rightarrow> gctx option \<Rightarrow> string \<Rightarrow> go_error + Transport" where
  "parseTransport isprint ctx v =
    (let t = to_lower (trim_space v) in
     if t = [] \<or> t = transportStdioValue then Inr TransportStdio
     else if t = transportHTTPValue then Inr TransportHTTP
     else Inl (as_error (NewError ctx ErrorCodeValidationError (''mcp: unknown transport '' @ quote isprint v @ '' (want stdio or http)'')
       [WithErrorExitCode ExitValidation])))"

text \<open>A flag with its default and usage; the values of a command line, \<^term>\<open>None\<close> for a flag it does not set.\<close>

record server_flag =
  sf_name :: string
  sf_default :: string
  sf_usage :: string

record server_flags =
  fl_transport :: "string option"
  fl_addr :: "string option"
  fl_allow :: "bool option"

record ('f, 's) server_command =
  sc_Use :: string
  sc_Short :: string
  sc_Long :: string
  sc_Example :: string
  sc_Flags :: "server_flag list"
  sc_RunE :: "('f, 's) serve_env \<Rightarrow> gctx option \<Rightarrow> server_flags \<Rightarrow> string list \<times> go_error option"

definition server_RunE :: "ctree option \<Rightarrow> mcp_options \<Rightarrow> ('f, 's) serve_env \<Rightarrow> gctx option \<Rightarrow> server_flags \<Rightarrow> string list \<times> go_error option" where
  "server_RunE tree resolved env ctx fl =
    (let cfg = mcp_config resolved in
     case (case fl_transport fl of
             None \<Rightarrow> Inr cfg
           | Some t \<Rightarrow> (case parseTransport (se_isprint env) ctx t of Inl e \<Rightarrow> Inl e | Inr tr \<Rightarrow> Inr (cfg\<lparr>g_Transport := tr\<rparr>))) of
       Inl e \<Rightarrow> ([], Some e)
     | Inr cfg1 \<Rightarrow>
         let cfg2 = (case fl_addr fl of None \<Rightarrow> cfg1 | Some a \<Rightarrow> cfg1\<lparr>g_HTTPAddr := a\<rparr>);
             cfg3 = (case fl_allow fl of None \<Rightarrow> cfg2 | Some b \<Rightarrow> cfg2\<lparr>g_AllowNonLoopback := b\<rparr>) in
         serve_engine env ctx tree cfg3)"

definition NewCommand :: "string option \<Rightarrow> ctree option \<Rightarrow> mcp_option list \<Rightarrow> ('f, 's) server_command" where
  "NewCommand root_name tree opts =
    (let resolved = resolveOptions opts; cli = exampleCLIName root_name in
     \<lparr>sc_Use = ServerCommandName,
      sc_Short = ''Run this CLI as a live MCP server'',
      sc_Long = ''Expose this CLI'' @ [CHR 0x27] @ ''s command tree as a live Model Context Protocol '' @
        ''(MCP) server. Every visible, runnable command becomes a tool, except '' @
        ''the reserved __schema, mcp-server, completion, and help commands and '' @
        ''any command excluded with mcp.Exclude; tools/call runs the command in '' @
        ''machine mode and returns its payload. Serves over stdio by default, '' @
        ''or streamable HTTP (loopback unless --allow-non-loopback is set).'',
      sc_Example = ''  '' @ cli @ '' mcp-server'' @ [nl] @ ''  '' @ cli @ '' mcp-server --transport=http --addr=127.0.0.1:8080'' @ [nl] @
        ''  '' @ cli @ '' mcp-server --transport=http --addr=0.0.0.0:8080 --allow-non-loopback'',
      sc_Flags =
        [\<lparr>sf_name = transportFlagName, sf_default = transportStdioValue, sf_usage = ''MCP transport: stdio or http''\<rparr>,
         \<lparr>sf_name = addrFlagName, sf_default = defaultHTTPAddr, sf_usage = ''HTTP bind address; loopback by default (used with --transport=http)''\<rparr>,
         \<lparr>sf_name = allowNonLoopbackFlag, sf_default = FormatBool False,
          sf_usage = ''allow the HTTP transport to bind a non-loopback address (fail-closed without it)''\<rparr>],
      sc_RunE = server_RunE tree resolved\<rparr>)"

section \<open>The server\<close>

record sdk_annotations =
  sa_ReadOnlyHint :: bool
  sa_DestructiveHint :: "bool option"
  sa_OpenWorldHint :: "bool option"

definition sdkAnnotations :: "Hints option \<Rightarrow> sdk_annotations option" where
  "sdkAnnotations hints = map_option (\<lambda>h. \<lparr>sa_ReadOnlyHint = h_ReadOnly h, sa_DestructiveHint = h_Destructive h, sa_OpenWorldHint = h_OpenWorld h\<rparr>) hints"

record 'f sdk_tool =
  st_Name :: string
  st_Description :: string
  st_InputSchema :: "'f input_schema"
  st_Annotations :: "sdk_annotations option"

text \<open>A prompt or resource as the SDK gets it, with the declaration its handler keeps.\<close>

record sdk_prompt =
  sp_Name :: string
  sp_Title :: string
  sp_Description :: string
  sp_Arguments :: "PromptArgument list"
  sp_handler :: Prompt

record sdk_resource =
  sr_URI :: string
  sr_Name :: string
  sr_Title :: string
  sr_Description :: string
  sr_MIMEType :: string
  sr_handler :: Resource

definition registerPrompts :: "Prompt list \<Rightarrow> sdk_prompt list" where
  "registerPrompts prompts = map (\<lambda>p.
     \<lparr>sp_Name = p_Name p, sp_Title = p_Title p, sp_Description = p_Description p,
      sp_Arguments = map (\<lambda>a. \<lparr>a_Name = a_Name a, a_Title = a_Title a, a_Description = a_Description a, a_Required = a_Required a\<rparr>) (p_Arguments p),
      sp_handler = p\<rparr>) prompts"

definition registerResources :: "Resource list \<Rightarrow> sdk_resource list" where
  "registerResources resources = map (\<lambda>r.
     \<lparr>sr_URI = r_URI r, sr_Name = r_Name r, sr_Title = r_Title r, sr_Description = r_Description r, sr_MIMEType = r_MIMEType r,
      sr_handler = r\<rparr>) resources"

text \<open>
  The listings the middleware sees, and the ranks it works with; without declarations there is no
  middleware.
\<close>

datatype sdk_listing = PromptListing "sdk_prompt list" | ResourceListing "sdk_resource list" | OtherListing

definition preserveDeclarationOrder :: "string list \<Rightarrow> string list \<Rightarrow> go_error + sdk_listing \<Rightarrow> go_error + sdk_listing" where
  "preserveDeclarationOrder names uris res =
    (if names = [] \<and> uris = [] then res
     else
       (case res of
          Inl e \<Rightarrow> Inl e
        | Inr (PromptListing ps) \<Rightarrow> Inr (PromptListing (sortByRank sp_Name (rankOf names) ps))
        | Inr (ResourceListing rs) \<Rightarrow> Inr (ResourceListing (sortByRank sr_URI (rankOf uris) rs))
        | Inr OtherListing \<Rightarrow> Inr OtherListing))"

record 'f mcp_server =
  sv_Name :: string
  sv_Version :: string
  sv_Options :: "server_options option"
  sv_Tools :: "'f sdk_tool list"
  sv_Prompts :: "sdk_prompt list"
  sv_Resources :: "sdk_resource list"
  sv_names :: "string list"
  sv_uris :: "string list"

text \<open>\<^term>\<open>default_page\<close> is the page size of the SDK.\<close>

definition newMCPServer ::
  "nat \<Rightarrow> (string \<Rightarrow> string option) \<Rightarrow> ctree \<Rightarrow> 'f MCPTool list \<Rightarrow> Config \<Rightarrow> 'f mcp_server" where
  "newMCPServer default_page url_parse tree tools cfg =
    (case CollectDeclarations tree_prompts (tree_resources url_parse) (as_command tree) of
       (prompts, resources) \<Rightarrow>
         \<lparr>sv_Name = g_ServerName cfg, sv_Version = g_Version cfg,
          sv_Options = serverOptions default_page cfg (max (length prompts) (length resources)),
          sv_Tools = map (\<lambda>tool. \<lparr>st_Name = mt_Name tool, st_Description = mt_Description tool, st_InputSchema = mt_InputSchema tool,
            st_Annotations = sdkAnnotations (mt_Annotations tool)\<rparr>) tools,
          sv_Prompts = registerPrompts prompts, sv_Resources = registerResources resources,
          sv_names = map p_Name prompts, sv_uris = map r_URI resources\<rparr>)"

text \<open>The page size the SDK uses for a server's listings.\<close>

definition page_size :: "nat \<Rightarrow> 'f mcp_server \<Rightarrow> nat" where
  "page_size default_page sv = (case sv_Options sv of Some o' \<Rightarrow> if so_PageSize o' = 0 then default_page else so_PageSize o' | None \<Rightarrow> default_page)"

section \<open>The trace of a call\<close>

definition stringFromMeta :: "(string \<times> json) list \<Rightarrow> string \<Rightarrow> string option" where
  "stringFromMeta meta key = (case map_of meta key of Some (JStr v) \<Rightarrow> if v = [] then None else Some v | _ \<Rightarrow> None)"

definition traceParentKey :: string where "traceParentKey = ''traceparent''"
definition traceStateKey :: string where "traceStateKey = ''tracestate''"
definition callSpanNameRoot :: string where "callSpanNameRoot = ''tools/call ''"

text \<open>\<^term>\<open>extract\<close> is the W3C propagator; a request without parameters is \<^term>\<open>None\<close>.\<close>

definition extractTraceContext :: "(gctx \<Rightarrow> (string \<times> string) list \<Rightarrow> gctx) \<Rightarrow> gctx \<Rightarrow> (string \<times> json) list option \<Rightarrow> gctx" where
  "extractTraceContext extract ctx req =
    (case req of
       None \<Rightarrow> ctx
     | Some meta \<Rightarrow>
         if meta = [] then ctx
         else
           let carrier =
             (case stringFromMeta meta traceParentKey of Some v \<Rightarrow> [(traceParentKey, v)] | None \<Rightarrow> []) @
             (case stringFromMeta meta traceStateKey of Some v \<Rightarrow> [(traceStateKey, v)] | None \<Rightarrow> [])
           in if carrier = [] then ctx else extract ctx carrier)"

text \<open>\<^term>\<open>start\<close> is the tracer: the new context, and the trace and span id of the span when it has them.\<close>

definition startCallSpan ::
  "(gctx \<Rightarrow> (string \<times> string) list \<Rightarrow> gctx) \<Rightarrow> (gctx \<Rightarrow> string \<Rightarrow> gctx \<times> string option \<times> string option) \<Rightarrow>
   gctx \<Rightarrow> (string \<times> json) list option \<Rightarrow> string \<Rightarrow> gctx" where
  "startCallSpan extract start ctx req toolName =
    (case start (extractTraceContext extract ctx req) (callSpanNameRoot @ toolName) of
       (ctx1, trace, span) \<Rightarrow>
         WithMetadata ctx1 (zero_metadata\<lparr>m_TraceID := (case trace of Some t \<Rightarrow> t | None \<Rightarrow> ZeroTraceID),
           m_SpanID := (case span of Some s \<Rightarrow> s | None \<Rightarrow> ZeroSpanID)\<rparr>))"

section \<open>Flag errors and flags of the mounted tree\<close>

text \<open>The flag-error function the dispatcher installs.\<close>

definition flag_error :: "(nat \<Rightarrow> bool) \<Rightarrow> dispatcher \<Rightarrow> gctx \<Rightarrow> go_error \<Rightarrow> go_error" where
  "flag_error isprint d ctx e =
    (case errors_as is_ax_error e of
       Some ax \<Rightarrow> ax
     | None \<Rightarrow> as_error (validationError d ctx (error_text isprint e)))"

definition mcp_ensurePersistentFlags :: "flag_map \<Rightarrow> flag_map" where
  "mcp_ensurePersistentFlags p0 =
    (let p1 = EnsurePersistentStringFlag p0 FlagFormat [];
         p2 = EnsurePersistentBoolFlag p1 FlagDryRun False;
         p3 = EnsurePersistentBoolFlag p2 FlagYes False
     in EnsurePersistentStringFlag p3 FlagIdempotencyKey [])"

section \<open>Lemmas\<close>

lemma resolveOptions_snoc: "resolveOptions (opts @ [opt]) = apply_option (resolveOptions opts) opt"
  by (simp add: resolveOptions_def)

lemma mcp_config_update:
  "mcp_config (o'\<lparr>mo_httpAddr := a\<rparr>) = (mcp_config o')\<lparr>g_HTTPAddr := a\<rparr>"
  "mcp_config (o'\<lparr>mo_allowNonLoopback := b\<rparr>) = (mcp_config o')\<lparr>g_AllowNonLoopback := b\<rparr>"
  "mcp_config (o'\<lparr>mo_transport := t\<rparr>) = (mcp_config o')\<lparr>g_Transport := (if t = pub_TransportHTTP then TransportHTTP else TransportStdio)\<rparr>"
  by (simp_all add: mcp_config_def)

lemma mcp_config_known: "g_Transport (mcp_config o') = TransportStdio \<or> g_Transport (mcp_config o') = TransportHTTP"
  by (simp add: mcp_config_def)

lemma parseTransport_error: "parseTransport isprint ctx v = Inl e \<Longrightarrow> ErrorExitCode (Some e) = ExitValidation"
  by (auto simp: parseTransport_def Let_def as_error_def NewError_def option_defs ExitCode_def exit_defs split: if_splits)

lemma parseTransport_known: "parseTransport isprint ctx v = Inr t \<Longrightarrow> t = TransportStdio \<or> t = TransportHTTP"
  by (auto simp: parseTransport_def Let_def split: if_splits)

lemma run_transport_tried: "fst (run_transport tv s) = fst s"
  by (simp add: run_transport_def split: prod.split sum.split option.split)

text \<open>The flags a command line sets, as options.\<close>

definition flag_options :: "server_flags \<Rightarrow> Transport option \<Rightarrow> mcp_option list" where
  "flag_options fl tr =
    (case tr of Some t \<Rightarrow> [mcp_WithTransport (if t = TransportHTTP then pub_TransportHTTP else pub_TransportStdio)] | None \<Rightarrow> []) @
    (case fl_addr fl of Some a \<Rightarrow> [WithHTTPAddr a] | None \<Rightarrow> []) @
    (case fl_allow fl of Some b \<Rightarrow> [WithAllowNonLoopback b] | None \<Rightarrow> [])"

lemma ensure_after_Execute: "mcp_ensurePersistentFlags (ensure_ax_flags p) = ensure_ax_flags p"
  using ensure_ax_flags_has [of _ p] unfolding mcp_ensurePersistentFlags_def Let_def by (simp add: ensure_present)

lemma register_keys [simp]:
  "map sp_Name (registerPrompts ps) = map p_Name ps" "map sr_URI (registerResources rs) = map r_URI rs"
  "length (registerPrompts ps) = length ps" "length (registerResources rs) = length rs"
  by (simp_all add: registerPrompts_def registerResources_def comp_def)

text \<open>A listing with distinct keys is determined by its keys among the registered entries.\<close>

lemma listing_restored:
  assumes "distinct (map key xs)" "mset items = mset xs"
  shows "sortByRank key (rankOf (map key xs)) items = xs"
proof -
  let ?s = "sortByRank key (rankOf (map key xs)) items"
  have keys: "map key ?s = map key xs"
    using assms by (intro sortByRank_restores_order) (simp_all only: mset_map)
  have "set ?s = set xs" using mset_eq_setD [OF assms(2)] by (simp add: sortByRank_def)
  then have inj: "inj_on key (set ?s \<union> set xs)" using assms(1) by (simp add: distinct_map)
  show ?thesis using keys inj by (rule map_inj_on)
qed

section \<open>Properties\<close>

text \<open>
  C33. The command's flags are options: running \<^verbatim>\<open>mcp-server\<close> with a command line is \<^verbatim>\<open>Serve\<close> with the options given to
  \<^verbatim>\<open>NewCommand\<close> followed by one option per flag set; an unknown \<^verbatim>\<open>--transport\<close> value is refused with exit code 2
  before any address is tried.
\<close>

theorem server_command_is_Serve:
  "case (case fl_transport fl of None \<Rightarrow> Inr None | Some v \<Rightarrow> map_sum id Some (parseTransport (se_isprint env) ctx v)) of
     Inl e \<Rightarrow> sc_RunE (NewCommand name tree opts) env ctx fl = ([], Some e) \<and> ErrorExitCode (Some e) = ExitValidation
   | Inr tr \<Rightarrow> sc_RunE (NewCommand name tree opts) env ctx fl = mcp_Serve env ctx tree (opts @ flag_options fl tr)"
proof -
  have resolved: "mcp_config (resolveOptions (opts @ flag_options fl tr)) =
      (let cfg1 = (case tr of Some t \<Rightarrow> (mcp_config (resolveOptions opts))\<lparr>g_Transport := (if t = TransportHTTP then TransportHTTP else TransportStdio)\<rparr> | None \<Rightarrow> mcp_config (resolveOptions opts));
           cfg2 = (case fl_addr fl of None \<Rightarrow> cfg1 | Some a \<Rightarrow> cfg1\<lparr>g_HTTPAddr := a\<rparr>)
       in case fl_allow fl of None \<Rightarrow> cfg2 | Some b \<Rightarrow> cfg2\<lparr>g_AllowNonLoopback := b\<rparr>)" for tr
    by (auto simp: flag_options_def resolveOptions_def apply_option_def mcp_option_defs mcp_config_update pub_TransportHTTP_def
        pub_TransportStdio_def split: option.split)
  show ?thesis
    using parseTransport_error [of "se_isprint env" ctx]
    by (auto simp: NewCommand_def server_RunE_def Let_def mcp_Serve_def resolved split: option.split sum.split dest: parseTransport_known)
qed



end
