(* ===== verification/Ax_Facade.thy ===== *)
theory Ax_Facade
  imports Go_Text Ax_Config Ax_Execute Ax_Telemetry
begin

text \<open>
  The rest of the root package around \<^verbatim>\<open>Execute\<close>: the options and the resolved configuration of
  \<^verbatim>\<open>src/execute.go\<close>, the preparation of a command tree, \<^verbatim>\<open>ResolveVersion\<close>, the configuration functions of
  \<^verbatim>\<open>src/config.go\<close>, the clients of \<^verbatim>\<open>src/http.go\<close> and \<^verbatim>\<open>src/grpc.go\<close>, and the test helpers of \<^verbatim>\<open>src/axtest/\<close>, which are built
  on \<^verbatim>\<open>Execute\<close>. The lemmas say that every shutdown window is positive, that preparing a tree again
  changes nothing, and that the test helpers always capture.
\<close>

section \<open>Options\<close>

text \<open>
  A nil writer, environment or flush function is \<^term>\<open>None\<close>. \<^verbatim>\<open>flushFunc\<close> and \<^verbatim>\<open>shutdownTelemetry\<close> get the time
  window of the context they run in, in nanoseconds, and give their error.
\<close>

record execute_config =
  ec_stdin :: "nat option"
  ec_stdout :: "writer option"
  ec_stderr :: "writer option"
  ec_env :: "(string \<Rightarrow> string) option"
  ec_stdoutIsTTY :: "bool option"
  ec_version :: string
  ec_shutdownTimeout :: int
  ec_flushFunc :: "(int \<Rightarrow> go_error option) option"
  ec_shutdownTelemetry :: "int \<Rightarrow> go_error option"

type_synonym execute_option = "execute_config \<Rightarrow> execute_config"

definition WithStdin :: "nat option \<Rightarrow> execute_option" where "WithStdin r cfg = cfg\<lparr>ec_stdin := r\<rparr>"
definition WithStdout :: "writer option \<Rightarrow> execute_option" where "WithStdout w cfg = cfg\<lparr>ec_stdout := w\<rparr>"
definition WithStderr :: "writer option \<Rightarrow> execute_option" where "WithStderr w cfg = cfg\<lparr>ec_stderr := w\<rparr>"
definition WithEnv :: "(string \<Rightarrow> string) option \<Rightarrow> execute_option" where "WithEnv env cfg = cfg\<lparr>ec_env := env\<rparr>"
definition WithStdoutIsTTY :: "bool \<Rightarrow> execute_option" where "WithStdoutIsTTY b cfg = cfg\<lparr>ec_stdoutIsTTY := Some b\<rparr>"
definition exec_WithVersion :: "string \<Rightarrow> execute_option" where "exec_WithVersion v cfg = cfg\<lparr>ec_version := v\<rparr>"
definition WithTelemetryShutdownTimeout :: "int \<Rightarrow> execute_option" where "WithTelemetryShutdownTimeout d cfg = cfg\<lparr>ec_shutdownTimeout := d\<rparr>"
definition WithFlushFunc :: "(int \<Rightarrow> go_error option) option \<Rightarrow> execute_option" where "WithFlushFunc f cfg = cfg\<lparr>ec_flushFunc := f\<rparr>"

lemmas execute_option_defs = WithStdin_def WithStdout_def WithStderr_def WithEnv_def WithStdoutIsTTY_def exec_WithVersion_def
  WithTelemetryShutdownTimeout_def WithFlushFunc_def

text \<open>The process: its environment, build information, whether stdout is a terminal, the identifiers it makes.\<close>

record process =
  pr_getenv :: "string \<Rightarrow> string"
  pr_build :: "build_info option"
  pr_stdout_mode :: "nat option"
  pr_new_key :: string
  pr_shutdown :: "int \<Rightarrow> go_error option"

definition osStdin :: nat where "osStdin = 0"
definition osStdout :: writer where "osStdout = W 0"
definition osStderr :: writer where "osStderr = W 1"

definition ResolveVersion :: "build_info option \<Rightarrow> string \<Rightarrow> string" where
  "ResolveVersion info injected = resolveVersionFrom injected info"

definition defaultTelemetryShutdownTimeout :: int where "defaultTelemetryShutdownTimeout = DefaultShutdownBudget"

definition modeCharDevice :: nat where "modeCharDevice = 2 ^ 21"

definition stdoutIsTerminal :: "nat option \<Rightarrow> bool" where
  "stdoutIsTerminal mode = (case mode of None \<Rightarrow> False | Some m \<Rightarrow> (m div modeCharDevice) mod 2 = 1)"

definition resolve_execute :: "process \<Rightarrow> execute_option list \<Rightarrow> execute_config" where
  "resolve_execute pr opts =
    (let cfg = foldl (\<lambda>cfg opt. opt cfg)
           \<lparr>ec_stdin = Some osStdin, ec_stdout = Some osStdout, ec_stderr = Some osStderr, ec_env = Some (pr_getenv pr), ec_stdoutIsTTY = None,
            ec_version = [], ec_shutdownTimeout = defaultTelemetryShutdownTimeout, ec_flushFunc = None, ec_shutdownTelemetry = pr_shutdown pr\<rparr> opts;
         cfg = (if ec_env cfg = None then cfg\<lparr>ec_env := Some (pr_getenv pr)\<rparr> else cfg);
         cfg = (if ec_stderr cfg = None then cfg\<lparr>ec_stderr := Some osStderr\<rparr> else cfg);
         cfg = (if ec_version cfg = [] then cfg\<lparr>ec_version := ResolveVersion (pr_build pr) []\<rparr> else cfg)
     in if ec_shutdownTimeout cfg \<le> 0 then cfg\<lparr>ec_shutdownTimeout := defaultTelemetryShutdownTimeout\<rparr> else cfg)"

text \<open>What the run on a prepared tree uses of it; a nil stdout is the process's own.\<close>

definition run_config :: "process \<Rightarrow> execute_config \<Rightarrow> exec_cfg" where
  "run_config pr cfg =
    \<lparr>xc_stdout = (case ec_stdout cfg of Some w \<Rightarrow> w | None \<Rightarrow> osStdout), xc_version = ec_version cfg,
     xc_agent_mode = (case ec_env cfg of Some env \<Rightarrow> env ''AGENT_MODE'' | None \<Rightarrow> []), xc_stdoutIsTTY = ec_stdoutIsTTY cfg,
     xc_terminal = stdoutIsTerminal (pr_stdout_mode pr), xc_new_key = pr_new_key pr\<rparr>"

definition flush_error :: "execute_config \<Rightarrow> go_error option" where
  "flush_error cfg = (case ec_flushFunc cfg of None \<Rightarrow> None | Some f \<Rightarrow> f (ec_shutdownTimeout cfg))"

section \<open>Preparing a tree\<close>

definition schemaCommandName :: string where "schemaCommandName = ''__schema''"

text \<open>The command \<^verbatim>\<open>NewSchemaCommand\<close> makes is a node without hooks.\<close>

definition ensureSchemaCommand :: "nat \<Rightarrow> 'c cnode \<Rightarrow> 'c cnode" where
  "ensureSchemaCommand new_id c =
    (if list_ex (\<lambda>d. cn_name d = schemaCommandName) (cn_children c) then c
     else CNode (cn_id c) (cn_name c) (cn_hookE c) (cn_hook c) (cn_wrapped c) (cn_children c @ [CNode new_id schemaCommandName None None False []]))"

text \<open>A tree comes with the persistent and the own flags of its root.\<close>

definition prepareCommand :: "nat \<Rightarrow> 'c \<Rightarrow> 'c cnode \<times> flag_map \<times> flag_map \<Rightarrow> 'c cnode \<times> flag_map \<times> flag_map" where
  "prepareCommand new_id cfg t =
    (wrapPersistentPreRun cfg (ensureSchemaCommand new_id (fst t)), ensure_ax_flags (fst (snd t)), snd (snd t))"

fun rebindCommandContexts :: "gctx \<Rightarrow> 'c cnode \<Rightarrow> (nat \<Rightarrow> gctx option) \<Rightarrow> nat \<Rightarrow> gctx option" where
  "rebindCommandContexts ctx (CNode i n hE h w cs) m = fold (rebindCommandContexts ctx) cs (m(i \<mapsto> ctx))"

section \<open>Execute with options\<close>

text \<open>
  \<^verbatim>\<open>Execute\<close> with its options: the tree and the flags are prepared, \<^verbatim>\<open>--strict\<close> is reset, the
  command runs. \<^term>\<open>select\<close> is Cobra's parse of the command line on the prepared tree.
\<close>

record exec_app =
  ap_isprint :: "nat \<Rightarrow> bool"
  ap_nearest :: "exec_cfg cnode list \<Rightarrow> exec_cfg cnode option"
  ap_act :: "nat \<Rightarrow> gctx \<Rightarrow> act_result"
  ap_body :: "gctx \<Rightarrow> act_result"
  ap_flags :: "string list \<Rightarrow> flag_map \<times> flag_map \<Rightarrow> flag_view"
  ap_select :: "string list \<Rightarrow> exec_cfg cnode \<Rightarrow> go_error + exec_cfg cnode list"
  ap_schema_id :: nat
  ap_ctx :: gctx

definition execute_with :: "process \<Rightarrow> exec_app \<Rightarrow> execute_option list \<Rightarrow> string list \<Rightarrow> exec_cfg cnode \<times> flag_map \<times> flag_map \<Rightarrow> xstate \<Rightarrow> int option \<times> xstate" where
  "execute_with pr app opts args t s =
    (let cfg = resolve_execute pr opts; rc = run_config pr cfg; t' = prepareCommand (ap_schema_id app) rc t in
     Execute (ap_isprint app) rc (ap_nearest app) (ap_act app) (ap_body app) (ap_flags app args (resetStrictFlag (snd t')))
       (fst t') (ap_select app args (fst t')) (flush_error cfg) (ec_shutdownTelemetry cfg (ec_shutdownTimeout cfg)) (ap_ctx app) s)"

section \<open>The test helpers\<close>

record run_capture =
  rr_Stdout :: string
  rr_Stderr :: "stderr_item list"
  rr_ExitCode :: "int option"

text \<open>Two fresh buffers; what the run writes to the configured stderr is \<^verbatim>\<open>x_stderr\<close>.\<close>

definition axtest_Run :: "process \<Rightarrow> exec_app \<Rightarrow> nat \<times> nat \<Rightarrow> exec_cfg cnode \<times> flag_map \<times> flag_map \<Rightarrow> string list \<Rightarrow> execute_option list \<Rightarrow> xstate \<Rightarrow> run_capture" where
  "axtest_Run pr app bufs t args opts s =
    (case execute_with pr app (opts @ [WithStdout (Some (W (fst bufs))), WithStderr (Some (W (snd bufs)))]) args t
            (s\<lparr>x_content := (x_content s)(W (fst bufs) := []), x_stderr := []\<rparr>) of
       (code, s') \<Rightarrow> \<lparr>rr_Stdout = x_content s' (W (fst bufs)), rr_Stderr = x_stderr s', rr_ExitCode = code\<rparr>)"

text \<open>\<^verbatim>\<open>Decode\<close>: the data of the envelope or the text of \<^verbatim>\<open>t.Fatalf\<close>.\<close>

definition axtest_Decode :: "(nat \<Rightarrow> bool) \<Rightarrow> (string \<Rightarrow> go_error + 'd) \<Rightarrow> string \<Rightarrow> string + 'd" where
  "axtest_Decode isprint decode stdout = (case decode stdout of Inl e \<Rightarrow> Inl (''axtest.Decode: '' @ error_text isprint e) | Inr d \<Rightarrow> Inr d)"

definition axtest_RunAndDecode where
  "axtest_RunAndDecode decode pr app bufs t args opts s =
    (let r = axtest_Run pr app bufs t args opts s in (axtest_Decode (ap_isprint app) decode (rr_Stdout r), rr_ExitCode r))"

section \<open>Configuration, HTTP and gRPC\<close>

definition ParseConfig where
  "ParseConfig hj decode ctx_err reads ctx r opts = Parse hj decode ctx_err reads (Some (withTraceMetadata ctx)) r opts"

definition ParseConfigFile where
  "ParseConfigFile hj decode ctx_err reads fl ctx path opts f = ParseFile hj decode ctx_err reads fl (Some (withTraceMetadata ctx)) path opts f"

definition PatchConfig where
  "PatchConfig hj ctx_err reads ctx r patch opts = Patch hj ctx_err reads (Some (withTraceMetadata ctx)) r patch opts"

definition PatchConfigFile where
  "PatchConfigFile hj ctx_err reads fl tmp ctx path patch opts f = PatchFile hj ctx_err reads fl tmp (Some (withTraceMetadata ctx)) path patch opts f"

definition DefaultHTTPTimeout :: int where "DefaultHTTPTimeout = 30 * 10 ^ 9"

record http_client =
  hc_instrumented :: bool
  hc_timeout :: int

definition WithHTTPTimeout :: "int \<Rightarrow> int \<Rightarrow> int" where "WithHTTPTimeout d timeout = d"

definition NewHTTPClient :: "(int \<Rightarrow> int) list \<Rightarrow> http_client" where
  "NewHTTPClient opts =
    (let timeout = foldl (\<lambda>t opt. opt t) DefaultHTTPTimeout opts in
     \<lparr>hc_instrumented = True, hc_timeout = (if timeout \<le> 0 then DefaultHTTPTimeout else timeout)\<rparr>)"

definition HTTPClient :: http_client where "HTTPClient = NewHTTPClient []"

text \<open>A dial option is a value of the gRPC package; \<^term>\<open>stats\<close> is the instrumentation.\<close>

definition GRPCDial :: "'o \<Rightarrow> (string \<Rightarrow> 'o list \<Rightarrow> go_error + 'conn) \<Rightarrow> go_error option \<Rightarrow> string \<Rightarrow> 'o list \<Rightarrow> go_error + 'conn" where
  "GRPCDial stats new_client ctx_err target opts =
    (case ctx_err of Some e \<Rightarrow> Inl e | None \<Rightarrow> new_client target (stats # opts))"

section \<open>Lemmas\<close>

lemma resolve_execute_facts:
  "0 < ec_shutdownTimeout (resolve_execute pr opts)" "ec_version (resolve_execute pr opts) \<noteq> []"
  "ec_env (resolve_execute pr opts) \<noteq> None" "ec_stderr (resolve_execute pr opts) \<noteq> None"
proof -
  have "ResolveVersion (pr_build pr) [] \<noteq> []"
    by (auto simp: ResolveVersion_def resolveVersionFrom_def isUsableVersion_def versionUnknown_def split: option.split prod.split)
  then show "0 < ec_shutdownTimeout (resolve_execute pr opts)" "ec_version (resolve_execute pr opts) \<noteq> []"
    "ec_env (resolve_execute pr opts) \<noteq> None" "ec_stderr (resolve_execute pr opts) \<noteq> None"
    by (auto simp: resolve_execute_def Let_def defaultTelemetryShutdownTimeout_def DefaultShutdownBudget_def)
qed

lemma ensureSchemaCommand_children:
  "list_ex (\<lambda>d. cn_name d = schemaCommandName) (cn_children (ensureSchemaCommand i c))"
  by (auto simp: ensureSchemaCommand_def list_ex_iff)

lemma wrap_keeps_names:
  "map cn_name (cn_children (wrapPersistentPreRun cfg c)) = map cn_name (cn_children c)"
  by (cases c) (simp add: wrapPersistentPreRun_def wrapCommandPersistentPreRun_def comp_def)

lemma ensureSchemaCommand_after_wrap:
  "ensureSchemaCommand j (wrapPersistentPreRun cfg (ensureSchemaCommand i c)) = wrapPersistentPreRun cfg (ensureSchemaCommand i c)"
proof -
  have "schemaCommandName \<in> set (map cn_name (cn_children (wrapPersistentPreRun cfg (ensureSchemaCommand i c))))"
    unfolding wrap_keeps_names using ensureSchemaCommand_children [of i c] by (force simp: list_ex_iff)
  then show ?thesis unfolding ensureSchemaCommand_def [of j] by (auto simp: list_ex_iff)
qed

lemma ensure_ax_flags_idem: "ensure_ax_flags (ensure_ax_flags p) = ensure_ax_flags p"
proof -
  have "ensure_ax_flags p n \<noteq> None" if "n \<in> set [FlagFormat, FlagDryRun, FlagYes, FlagStrict, FlagIdempotencyKey]" for n
    using that by (intro ensure_ax_flags_has) simp
  then show ?thesis
    unfolding ensure_ax_flags_def [of "ensure_ax_flags p"] Let_def by (simp add: ensure_present)
qed

lemma wrap_again: "wrapPersistentPreRun cfg' (wrapPersistentPreRun cfg c) = wrapPersistentPreRun cfg c"
proof -
  have "all_covered (wrapPersistentPreRun cfg c)" "cn_wrapped (wrapPersistentPreRun cfg c)"
    by (simp_all add: wrapPersistentPreRun_def all_covered_walk wrapCommandPersistentPreRun_def)
  then show ?thesis
    unfolding wrapPersistentPreRun_def [of cfg'] by (simp add: wrapCommand_idem wrap_walk_covered)
qed

text \<open>Every command of the tree has the new context, every other keeps its own.\<close>

fun node_ids :: "'c cnode \<Rightarrow> nat set" where
  "node_ids (CNode i n hE h w cs) = insert i (\<Union>c \<in> set cs. node_ids c)"

lemma rebind_fold:
  assumes "\<And>c m. c \<in> set cs \<Longrightarrow> rebindCommandContexts ctx c m = (\<lambda>i. if i \<in> node_ids c then Some ctx else m i)"
  shows "fold (rebindCommandContexts ctx) cs m = (\<lambda>i. if i \<in> (\<Union>c \<in> set cs. node_ids c) then Some ctx else m i)"
  using assms by (induction cs arbitrary: m) (auto simp: fun_eq_iff)

lemma rebind_everywhere: "rebindCommandContexts ctx c m = (\<lambda>i. if i \<in> node_ids c then Some ctx else m i)"
proof (induction c arbitrary: m)
  case (CNode i n hE h w cs)
  then show ?case by (simp add: rebind_fold fun_eq_iff)
qed

section \<open>Properties\<close>

text \<open>
  A second \<^verbatim>\<open>Execute\<close> on a tree, with any options, adds no command, hook or flag.
\<close>

theorem prepare_again: "prepareCommand j cfg' (prepareCommand i cfg t) = prepareCommand i cfg t"
  by (simp add: prepareCommand_def ensureSchemaCommand_after_wrap wrap_again ensure_ax_flags_idem)

text \<open>
  Whatever the options, the flush function and the telemetry shutdown get positive windows of the same length, and the
  version shown to agents is never empty.
\<close>

theorem shutdown_windows:
  "\<exists>window > 0. ec_shutdownTimeout (resolve_execute pr opts) = window \<and>
    (ec_flushFunc (resolve_execute pr opts) = Some f \<longrightarrow> flush_error (resolve_execute pr opts) = f window) \<and>
    xc_version (run_config pr (resolve_execute pr opts)) \<noteq> []"
  using resolve_execute_facts [of pr opts] by (simp add: flush_error_def run_config_def)

text \<open>The test helper always reports its own buffers: writers among the options change nothing.\<close>

theorem Run_ignores_writers:
  "axtest_Run pr app bufs t args (opts @ [WithStdout w, WithStderr e]) s = axtest_Run pr app bufs t args opts s"
  by (simp add: axtest_Run_def execute_with_def resolve_execute_def WithStdout_def WithStderr_def)

text \<open>A client never waits without bound, whatever timeout it is given.\<close>

theorem http_timeout_positive: "0 < hc_timeout (NewHTTPClient opts) \<and> hc_instrumented (NewHTTPClient opts)"
  by (simp add: NewHTTPClient_def Let_def DefaultHTTPTimeout_def)

end
