(* ===== verification/Surface_Collect.thy ===== *)
theory Surface_Collect
  imports Type_Graph Surface_Fields Surface_Audit
begin

text \<open>
  The collector of \<^verbatim>\<open>src/internal/cmd/surfacecheck/inventory.go\<close>: from the objects of a package scope to the features
  it records, through members, method sets, aliases and the hidden types an exported declaration
  reaches. What \<^verbatim>\<open>go/types\<close> knows (objects, method sets, the printing of types) is data of the model.
  The properties say exactly which features are collected.
\<close>

section \<open>Packages as go/types sees them\<close>

text \<open>Identities of objects, struct types and named types are numbers; a named type is its index.\<close>

record field_id =
  fi_Object :: nat
  fi_Name :: string
  fi_Exported :: bool
  fi_Anonymous :: bool

record method_id =
  mi_Object :: nat
  mi_Id :: string
  mi_Name :: string
  mi_Exported :: bool
  mi_PointerRecv :: bool

text \<open>
  A signature has type parameters, parameters and results with their names. An interface has the methods it
  declares and all its methods.
\<close>

datatype go_ty =
    PtrTy go_ty
  | SliceTy go_ty
  | ArrayTy go_ty
  | MapTy go_ty go_ty
  | ChanTy go_ty
  | SigTy "(string \<times> go_ty) list" "(string \<times> go_ty) list" "(string \<times> go_ty) list" bool
  | AliasTy string go_ty
  | StructTy nat "(field_id \<times> go_ty) list"
  | IfaceTy "method_id list" "(method_id \<times> go_ty) list"
  | NamedTy nat
  | BasicTy string

type_synonym go_method = "method_id \<times> go_ty"

text \<open>A method set is a list of methods with the length of the path that selects each.\<close>

record named_type =
  nt_Name :: string
  nt_Own :: bool
  nt_Exported :: bool
  nt_Underlying :: go_ty
  nt_Methods :: "go_method list"
  nt_ValueSet :: "(go_method \<times> nat) list"
  nt_PointerSet :: "(go_method \<times> nat) list"

datatype scope_object =
    ConstObj string bool go_ty
  | VarObj string bool go_ty
  | FuncObj string bool go_ty
  | TypeObj string bool bool go_ty

text \<open>The scope in the order of its names; \<^verbatim>\<open>gp_string\<close> is \<^verbatim>\<open>types.TypeString\<close> with the package's qualifier.\<close>

record go_package =
  gp_types :: "named_type list"
  gp_scope :: "scope_object list"
  gp_string :: "go_ty \<Rightarrow> string"

fun obj_name :: "scope_object \<Rightarrow> string" where
  "obj_name (ConstObj n e t) = n" | "obj_name (VarObj n e t) = n" | "obj_name (FuncObj n e t) = n" | "obj_name (TypeObj n e a t) = n"

fun obj_exported :: "scope_object \<Rightarrow> bool" where
  "obj_exported (ConstObj n e t) = e" | "obj_exported (VarObj n e t) = e" | "obj_exported (FuncObj n e t) = e" | "obj_exported (TypeObj n e a t) = e"

fun unalias :: "go_ty \<Rightarrow> go_ty" where
  "unalias (AliasTy n t) = unalias t"
| "unalias t = t"

definition accessAlias :: string where "accessAlias = ''alias''"

section \<open>Declarations of members\<close>

definition declaredMethodID :: "string \<Rightarrow> method_id \<Rightarrow> string" where
  "declaredMethodID owner m = kindMethod @ '':'' @ (if mi_PointerRecv m then ''*'' else []) @ owner @ ''.'' @ mi_Name m"

definition member_ids :: "go_package \<Rightarrow> scope_object \<Rightarrow> (nat \<times> string) list" where
  "member_ids pkg obj =
    (case obj of
       TypeObj owner e al t \<Rightarrow>
         if al then []
         else
           (case t of
              NamedTy i \<Rightarrow>
                let nt = gp_types pkg ! i in
                map (\<lambda>(m, ty). (mi_Object m, declaredMethodID owner m)) (nt_Methods nt) @
                (case nt_Underlying nt of
                   StructTy s fs \<Rightarrow> map (\<lambda>(f, ty). (fi_Object f, kindField @ '':'' @ owner @ ''.'' @ fi_Name f)) fs
                 | IfaceTy explicit ms \<Rightarrow> map (\<lambda>m. (mi_Object m, kindInterfaceMethod @ '':'' @ owner @ ''.'' @ mi_Name m)) explicit
                 | _ \<Rightarrow> [])
            | _ \<Rightarrow> [])
     | _ \<Rightarrow> [])"

text \<open>A later assignment replaces an earlier one.\<close>

definition declarationIDs :: "go_package \<Rightarrow> (nat \<times> string) list" where
  "declarationIDs pkg = rev (concat (map (member_ids pkg) (gp_scope pkg)))"

definition selectorSourceID :: "go_package \<Rightarrow> nat \<Rightarrow> string \<Rightarrow> string" where
  "selectorSourceID pkg obj selectorID =
    (case map_of (declarationIDs pkg) obj of
       Some d \<Rightarrow> if d \<noteq> [] \<and> d \<noteq> selectorID then d else []
     | None \<Rightarrow> [])"

section \<open>Signatures\<close>

definition stripNames :: "(string \<times> go_ty) list \<Rightarrow> (string \<times> go_ty) list" where
  "stripNames vars = map (\<lambda>(name, t). ([], t)) vars"

fun canonicalSignature :: "(go_ty \<Rightarrow> string) \<Rightarrow> go_ty \<Rightarrow> string" where
  "canonicalSignature type_string (SigTy tps params results variadic) = type_string (SigTy tps (stripNames params) (stripNames results) variadic)"
| "canonicalSignature type_string t = type_string t"

section \<open>Members\<close>

text \<open>
  What reaching a type comes to: the named types met on the way, in order. A cycle of types goes through
  a named type, where \<^verbatim>\<open>expose\<close> stops unless the type is unexported, the package's own and not yet visited.
\<close>

fun reached_named :: "go_ty \<Rightarrow> nat list" where
  "reached_named (PtrTy t) = reached_named t"
| "reached_named (SliceTy t) = reached_named t"
| "reached_named (ArrayTy t) = reached_named t"
| "reached_named (MapTy k v) = reached_named k @ reached_named v"
| "reached_named (ChanTy t) = reached_named t"
| "reached_named (SigTy tps params results variadic) =
    concat (map (\<lambda>v. reached_named (snd v)) params) @ concat (map (\<lambda>v. reached_named (snd v)) results)"
| "reached_named (AliasTy n t) = reached_named t"
| "reached_named (StructTy s fs) = concat (map (\<lambda>f. if fi_Exported (fst f) then reached_named (snd f) else []) fs)"
| "reached_named (IfaceTy explicit ms) = concat (map (\<lambda>m. reached_named (snd m)) ms)"
| "reached_named (NamedTy i) = [i]"
| "reached_named (BasicTy s) = []"

definition hidden_type :: "go_package \<Rightarrow> nat \<Rightarrow> bool" where
  "hidden_type pkg i \<longleftrightarrow> i < length (gp_types pkg) \<and> nt_Own (gp_types pkg ! i) \<and> \<not> nt_Exported (gp_types pkg ! i)"

definition surface_expose :: "go_package \<Rightarrow> go_ty \<Rightarrow> Feature walk_item list" where
  "surface_expose pkg t = map Enter (filter (hidden_type pkg) (reached_named t))"

definition memberAccess :: "string \<Rightarrow> nat \<Rightarrow> string" where
  "memberAccess access path = (if access \<noteq> [] then access else if path > 1 then accessPromoted else accessDirect)"

definition addMethod :: "go_package \<Rightarrow> string \<Rightarrow> go_method \<Rightarrow> string \<Rightarrow> string \<Rightarrow> Feature walk_item list" where
  "addMethod pkg owner m fid access =
    Visit \<lparr>ft_Package = [], ft_ID = fid, ft_Kind = kindMethod, ft_Owner = owner, ft_Name = mi_Name (fst m),
      ft_Signature = canonicalSignature (gp_string pkg) (snd m), ft_Access = access, ft_sourceID = selectorSourceID pkg (mi_Object (fst m)) fid\<rparr> #
    surface_expose pkg (snd m)"

definition surface_methods :: "go_package \<Rightarrow> named_type \<Rightarrow> string \<Rightarrow> string \<Rightarrow> Feature walk_item list" where
  "surface_methods pkg nt owner access =
    (let vs = filter (\<lambda>sel. mi_Exported (fst (fst sel))) (nt_ValueSet nt);
         ps = filter (\<lambda>sel. mi_Exported (fst (fst sel)) \<and> mi_Id (fst (fst sel)) \<notin> mi_Id ` fst ` fst ` set vs) (nt_PointerSet nt) in
     concat (map (\<lambda>(m, path). addMethod pkg owner m (kindMethod @ '':'' @ owner @ ''.'' @ mi_Name (fst m)) (memberAccess access path)) vs) @
     concat (map (\<lambda>(m, path). addMethod pkg owner m (kindMethod @ '':*'' @ owner @ ''.'' @ mi_Name (fst m)) (memberAccess access path)) ps))"

definition ifaceMethodAccess :: "string \<Rightarrow> method_id list \<Rightarrow> method_id \<Rightarrow> string" where
  "ifaceMethodAccess access explicit m =
    (if access \<noteq> [] then access else if mi_Id m \<in> mi_Id ` set explicit then accessDirect else accessPromoted)"

definition ifaceMethods :: "go_package \<Rightarrow> named_type \<Rightarrow> method_id list \<Rightarrow> string \<Rightarrow> string \<Rightarrow> Feature walk_item list" where
  "ifaceMethods pkg nt explicit owner access =
    concat (map (\<lambda>(m, path).
      let fid = kindInterfaceMethod @ '':'' @ owner @ ''.'' @ mi_Name (fst m) in
      Visit \<lparr>ft_Package = [], ft_ID = fid, ft_Kind = kindInterfaceMethod, ft_Owner = owner, ft_Name = mi_Name (fst m),
        ft_Signature = canonicalSignature (gp_string pkg) (snd m), ft_Access = ifaceMethodAccess access explicit (fst m),
        ft_sourceID = selectorSourceID pkg (mi_Object (fst m)) fid\<rparr> # surface_expose pkg (snd m))
      (filter (\<lambda>sel. mi_Exported (fst (fst sel))) (nt_ValueSet nt)))"

text \<open>The struct types of the package, by number, for the search of \<^verbatim>\<open>Surface_Fields\<close>.\<close>

definition field_struct :: "go_package \<Rightarrow> go_ty \<Rightarrow> nat option" where
  "field_struct pkg t =
    (case unalias (case t of PtrTy u \<Rightarrow> u | _ \<Rightarrow> t) of
       NamedTy i \<Rightarrow> (if i < length (gp_types pkg) then (case nt_Underlying (gp_types pkg ! i) of StructTy s fs \<Rightarrow> Some s | _ \<Rightarrow> None) else None)
     | StructTy s fs \<Rightarrow> Some s
     | _ \<Rightarrow> None)"

definition field_entry :: "go_package \<Rightarrow> field_id \<times> go_ty \<Rightarrow> struct_field" where
  "field_entry pkg f =
    \<lparr>sf_Object = fi_Object (fst f), sf_Name = fi_Name (fst f), sf_Anonymous = fi_Anonymous (fst f), sf_Exported = fi_Exported (fst f),
     sf_struct = field_struct pkg (snd f)\<rparr>"

fun ty_structs :: "go_ty \<Rightarrow> (nat \<times> (field_id \<times> go_ty) list) list" where
  "ty_structs (PtrTy t) = ty_structs t"
| "ty_structs (StructTy s fs) = (s, fs) # concat (map (\<lambda>f. ty_structs (snd f)) fs)"
| "ty_structs (AliasTy n t) = ty_structs t"
| "ty_structs t = []"

definition package_structs :: "go_package \<Rightarrow> (nat \<times> (field_id \<times> go_ty) list) list" where
  "package_structs pkg = concat (map (ty_structs \<circ> nt_Underlying) (gp_types pkg))"

definition structs_of :: "go_package \<Rightarrow> structs" where
  "structs_of pkg = map (\<lambda>(s, fs). (s, map (field_entry pkg) fs)) (package_structs pkg)"

definition object_type :: "go_package \<Rightarrow> nat \<Rightarrow> go_ty" where
  "object_type pkg obj =
    (case map_of (concat (map (\<lambda>(s, fs). map (\<lambda>(f, t). (fi_Object f, t)) fs) (package_structs pkg))) obj of Some t \<Rightarrow> t | None \<Rightarrow> BasicTy [])"

definition addField :: "go_package \<Rightarrow> string \<Rightarrow> string \<Rightarrow> struct_field \<Rightarrow> string \<Rightarrow> Feature walk_item list" where
  "addField pkg owner name f access =
    (let fid = kindField @ '':'' @ owner @ ''.'' @ name; t = object_type pkg (sf_Object f) in
     Visit \<lparr>ft_Package = [], ft_ID = fid, ft_Kind = kindField, ft_Owner = owner, ft_Name = name, ft_Signature = gp_string pkg t, ft_Access = access,
       ft_sourceID = selectorSourceID pkg (sf_Object f) fid\<rparr> # surface_expose pkg t)"

definition surface_fields :: "go_package \<Rightarrow> nat \<Rightarrow> string \<Rightarrow> string \<Rightarrow> Feature walk_item list" where
  "surface_fields pkg s owner access =
    concat (map (\<lambda>(name, f, depth). addField pkg owner name f (fieldAccess access depth)) (selectable_fields (structs_of pkg) s))"

definition surface_members :: "go_package \<Rightarrow> named_type \<Rightarrow> string \<Rightarrow> string \<Rightarrow> Feature walk_item list" where
  "surface_members pkg nt owner access =
    (case nt_Underlying nt of
       IfaceTy explicit ms \<Rightarrow> ifaceMethods pkg nt explicit owner access
     | StructTy s fs \<Rightarrow> surface_fields pkg s owner access @ surface_methods pkg nt owner access
     | _ \<Rightarrow> surface_methods pkg nt owner access)"

section \<open>The walk over the scope\<close>

definition member_graph :: "go_package \<Rightarrow> Feature walk_graph" where
  "member_graph pkg = map (\<lambda>nt. surface_members pkg nt (nt_Name nt) []) (gp_types pkg)"

text \<open>The collector's state: the visited types and the features in the order of \<^verbatim>\<open>add\<close>, duplicates included.\<close>

type_synonym collecting = "nat list \<times> Feature list"

definition surface_walk :: "go_package \<Rightarrow> Feature walk_item list \<Rightarrow> collecting \<Rightarrow> collecting" where
  "surface_walk pkg = walk_types (member_graph pkg) (\<lambda>f acc. acc @ [f])"

definition scope_feature :: "string \<Rightarrow> string \<Rightarrow> string \<Rightarrow> string \<Rightarrow> Feature" where
  "scope_feature kind name sig access =
    \<lparr>ft_Package = [], ft_ID = kind @ '':'' @ name, ft_Kind = kind, ft_Owner = [], ft_Name = name, ft_Signature = sig, ft_Access = access, ft_sourceID = []\<rparr>"

text \<open>The type an alias claims, and what an object makes the collector do.\<close>

definition claimed :: "scope_object \<Rightarrow> nat option" where
  "claimed obj =
    (case obj of TypeObj n e al t \<Rightarrow> (if al then (case unalias t of NamedTy i \<Rightarrow> Some i | _ \<Rightarrow> None) else None) | _ \<Rightarrow> None)"

definition object_items :: "go_package \<Rightarrow> scope_object \<Rightarrow> Feature walk_item list" where
  "object_items pkg obj =
    (case obj of
       ConstObj n e t \<Rightarrow> [Visit (scope_feature kindConst n (gp_string pkg t) accessDirect)]
     | VarObj n e t \<Rightarrow> Visit (scope_feature kindVar n (gp_string pkg t) accessDirect) # surface_expose pkg t
     | FuncObj n e t \<Rightarrow> Visit (scope_feature kindFunc n (canonicalSignature (gp_string pkg) t) accessDirect) # surface_expose pkg t
     | TypeObj n e al t \<Rightarrow>
         if al then
           Visit (scope_feature kindType n (''= '' @ gp_string pkg (unalias t)) accessAlias) #
           (case unalias t of NamedTy i \<Rightarrow> surface_members pkg (gp_types pkg ! i) n accessAlias | _ \<Rightarrow> [])
         else
           (case t of
              NamedTy i \<Rightarrow>
                let nt = gp_types pkg ! i in
                Visit (scope_feature kindType n (gp_string pkg (nt_Underlying nt)) accessDirect) #
                surface_members pkg nt n [] @ surface_expose pkg (nt_Underlying nt)
            | _ \<Rightarrow> []))"

definition collect_object :: "go_package \<Rightarrow> collecting \<Rightarrow> scope_object \<Rightarrow> collecting" where
  "collect_object pkg st obj =
    (if \<not> obj_exported obj then st
     else
       surface_walk pkg (object_items pkg obj)
         (case claimed obj of Some i \<Rightarrow> (i # fst st, snd st) | None \<Rightarrow> st))"

definition walked_features :: "go_package \<Rightarrow> Feature list" where
  "walked_features pkg = snd (foldl (collect_object pkg) ([], []) (gp_scope pkg))"

definition collect_package :: "string \<Rightarrow> go_package \<Rightarrow> Feature list" where
  "collect_package path pkg = collectFeatures path (walked_features pkg)"

section \<open>Lemmas: what is entered and visited\<close>

lemma entered_append [simp]: "entered (xs @ ys) = entered xs \<union> entered ys" "visits (xs @ ys) = visits xs \<union> visits ys"
  by (auto simp: entered_def visits_def)

lemma entered_concat: "entered (concat (map f xs)) = (\<Union>x \<in> set xs. entered (f x))"
  by (induction xs) simp_all

text \<open>What members reach does not depend on the name and access they are recorded under.\<close>

lemma entered_members: "entered (surface_members pkg nt owner access) = entered (surface_members pkg nt owner' access')"
  by (simp add: surface_members_def surface_fields_def surface_methods_def ifaceMethods_def addField_def addMethod_def Let_def entered_concat
      case_prod_beta split: go_ty.split)

lemma member_items:
  "i < length (gp_types pkg) \<Longrightarrow> items_of (member_graph pkg) i = surface_members pkg (gp_types pkg ! i) (nt_Name (gp_types pkg ! i)) []"
  "\<not> i < length (gp_types pkg) \<Longrightarrow> items_of (member_graph pkg) i = []"
  by (simp_all add: items_of_def member_graph_def)

lemma claimed_entered:
  assumes "claimed obj = Some i"
  shows "entered (items_of (member_graph pkg) i) \<subseteq> entered (object_items pkg obj)"
proof (cases "i < length (gp_types pkg)")
  case True
  obtain n e t where obj: "obj = TypeObj n e True t" "unalias t = NamedTy i"
    using assms by (auto simp: claimed_def split: scope_object.splits go_ty.splits if_splits)
  then show ?thesis
    using entered_members [of pkg "gp_types pkg ! i" "nt_Name (gp_types pkg ! i)" "[]" n accessAlias]
    by (simp add: member_items(1) [OF True] object_items_def)
qed (simp add: member_items(2))

lemma fold_append: "fold (\<lambda>f acc. acc @ [f]) vs acc = acc @ vs"
  by (induction vs arbitrary: acc) simp_all

text \<open>One walk: the new types and features.\<close>

lemma surface_walk_spec:
  obtains new vs where "fst (surface_walk pkg ws st) = new @ fst st" "snd (surface_walk pkg ws st) = snd st @ vs"
    "set vs = visits ws \<union> (\<Union>t \<in> set new. visits (items_of (member_graph pkg) t))"
    "entered ws \<union> (\<Union>t \<in> set new. entered (items_of (member_graph pkg) t)) \<subseteq> set new \<union> set (fst st)"
    "\<forall>t \<in> set new. \<exists>u \<in> entered ws. reaches (member_graph pkg) u t"
  using walk_types_spec [of "member_graph pkg" "\<lambda>f acc. acc @ [f]" ws st] unfolding surface_walk_def fold_append by blast

text \<open>A feature of an exported object itself, and a hidden type an exported object leads to.\<close>

definition public_source :: "go_package \<Rightarrow> scope_object list \<Rightarrow> Feature set" where
  "public_source pkg objs = {f. \<exists>obj \<in> set objs. obj_exported obj \<and> Visit f \<in> set (object_items pkg obj)}"

definition led_to :: "go_package \<Rightarrow> scope_object list \<Rightarrow> nat set" where
  "led_to pkg objs = {i. \<exists>obj \<in> set objs. obj_exported obj \<and> (\<exists>u. Enter u \<in> set (object_items pkg obj) \<and> reaches (member_graph pkg) u i)}"

definition claims :: "scope_object list \<Rightarrow> nat set" where
  "claims objs = {i. \<exists>obj \<in> set objs. obj_exported obj \<and> claimed obj = Some i}"

definition hidden_members :: "go_package \<Rightarrow> nat \<Rightarrow> Feature set" where
  "hidden_members pkg i = {f. Visit f \<in> set (items_of (member_graph pkg) i)}"

definition collecting_inv :: "go_package \<Rightarrow> scope_object list \<Rightarrow> collecting \<Rightarrow> bool" where
  "collecting_inv pkg objs st \<longleftrightarrow>
    public_source pkg objs \<subseteq> set (snd st) \<and>
    set (snd st) \<subseteq> public_source pkg objs \<union> (\<Union>i \<in> led_to pkg objs. hidden_members pkg i) \<and>
    (\<forall>obj \<in> set objs. obj_exported obj \<longrightarrow> entered (object_items pkg obj) \<subseteq> set (fst st)) \<and>
    (\<forall>i \<in> set (fst st). entered (items_of (member_graph pkg) i) \<subseteq> set (fst st) \<and> (i \<in> claims objs \<or> hidden_members pkg i \<subseteq> set (snd st)))"

lemma source_snoc:
  "public_source pkg (objs @ [obj]) = public_source pkg objs \<union> (if obj_exported obj then visits (object_items pkg obj) else {})"
  "led_to pkg (objs @ [obj]) = led_to pkg objs \<union>
    (if obj_exported obj then {i. \<exists>u \<in> entered (object_items pkg obj). reaches (member_graph pkg) u i} else {})"
  "claims (objs @ [obj]) = claims objs \<union> (if obj_exported obj then set_option (claimed obj) else {})"
  by (auto simp: public_source_def led_to_def claims_def visits_def entered_def)

lemma collecting_step:
  assumes "collecting_inv pkg objs st"
  shows "collecting_inv pkg (objs @ [obj]) (collect_object pkg st obj)"
proof (cases "obj_exported obj")
  case False
  then show ?thesis using assms by (auto simp: collect_object_def collecting_inv_def source_snoc)
next
  case True
  define st0 where "st0 = (case claimed obj of Some i \<Rightarrow> (i # fst st, snd st) | None \<Rightarrow> st)"
  have st0: "set (fst st0) = set (fst st) \<union> set_option (claimed obj)" "snd st0 = snd st"
    by (auto simp: st0_def split: option.split)
  obtain new vs where w: "fst (surface_walk pkg (object_items pkg obj) st0) = new @ fst st0" "snd (surface_walk pkg (object_items pkg obj) st0) = snd st @ vs"
    "set vs = visits (object_items pkg obj) \<union> (\<Union>t \<in> set new. visits (items_of (member_graph pkg) t))"
    "entered (object_items pkg obj) \<union> (\<Union>t \<in> set new. entered (items_of (member_graph pkg) t)) \<subseteq> set new \<union> set (fst st0)"
    "\<forall>t \<in> set new. \<exists>u \<in> entered (object_items pkg obj). reaches (member_graph pkg) u t"
    using surface_walk_spec [of pkg "object_items pkg obj" st0] unfolding st0(2) by blast
  have step: "collect_object pkg st obj = surface_walk pkg (object_items pkg obj) st0"
    using True by (simp add: collect_object_def st0_def)
  have members: "hidden_members pkg t = visits (items_of (member_graph pkg) t)" for t
    by (simp add: hidden_members_def visits_def)
  have claim: "entered (items_of (member_graph pkg) i) \<subseteq> set new \<union> set (fst st0)" if "claimed obj = Some i" for i
    using claimed_entered [OF that, of pkg] w(4) by blast
  show ?thesis unfolding collecting_inv_def step w(1,2) set_append source_snoc
  proof (intro conjI ballI impI)
    show "public_source pkg objs \<union> (if obj_exported obj then visits (object_items pkg obj) else {}) \<subseteq> set (snd st) \<union> set vs"
      using assms w(3) by (auto simp: collecting_inv_def)
    have "set new \<subseteq> {i. \<exists>u \<in> entered (object_items pkg obj). reaches (member_graph pkg) u i}" using w(5) by blast
    then have "set vs \<subseteq> visits (object_items pkg obj) \<union>
      (\<Union>i \<in> {i. \<exists>u \<in> entered (object_items pkg obj). reaches (member_graph pkg) u i}. hidden_members pkg i)"
      unfolding w(3) members by blast
    moreover have "set (snd st) \<subseteq> public_source pkg objs \<union> (\<Union>i \<in> led_to pkg objs. hidden_members pkg i)"
      using assms by (simp add: collecting_inv_def)
    ultimately show "set (snd st) \<union> set vs \<subseteq> public_source pkg objs \<union> (if obj_exported obj then visits (object_items pkg obj) else {}) \<union>
      (\<Union>i \<in> led_to pkg objs \<union> (if obj_exported obj then {i. \<exists>u \<in> entered (object_items pkg obj). reaches (member_graph pkg) u i} else {}).
        hidden_members pkg i)"
      using True unfolding if_P [OF True] UN_Un by blast
    fix o' assume "o' \<in> set objs \<union> set [obj]" "obj_exported o'"
    then show "entered (object_items pkg o') \<subseteq> set new \<union> set (fst st0)"
      using assms w(4) st0 by (auto simp: collecting_inv_def)
  next
    fix i assume i: "i \<in> set new \<union> set (fst st0)"
    then show "entered (items_of (member_graph pkg) i) \<subseteq> set new \<union> set (fst st0)"
      using assms w(4) st0 claim by (auto simp: collecting_inv_def)
    show "i \<in> claims objs \<union> (if obj_exported obj then set_option (claimed obj) else {}) \<or> hidden_members pkg i \<subseteq> set (snd st) \<union> set vs"
      using i assms w(3) st0 True unfolding collecting_inv_def members by auto
  qed
qed

lemma collecting_scope: "collecting_inv pkg objs (foldl (collect_object pkg) ([], []) objs)"
proof (induction objs rule: rev_induct)
  case Nil
  show ?case by (simp add: collecting_inv_def public_source_def)
next
  case (snoc obj objs)
  then show ?case using collecting_step by simp
qed

lemma walked_bounds:
  "public_source pkg (gp_scope pkg) \<union> (\<Union>i \<in> led_to pkg (gp_scope pkg) - claims (gp_scope pkg). hidden_members pkg i) \<subseteq> set (walked_features pkg)"
  "set (walked_features pkg) \<subseteq> public_source pkg (gp_scope pkg) \<union> (\<Union>i \<in> led_to pkg (gp_scope pkg). hidden_members pkg i)"
proof -
  define st where "st = foldl (collect_object pkg) ([], []) (gp_scope pkg)"
  have "collecting_inv pkg (gp_scope pkg) st" unfolding st_def by (rule collecting_scope)
  then have inv: "public_source pkg (gp_scope pkg) \<subseteq> set (snd st)"
    "set (snd st) \<subseteq> public_source pkg (gp_scope pkg) \<union> (\<Union>i \<in> led_to pkg (gp_scope pkg). hidden_members pkg i)"
    "\<And>obj. obj \<in> set (gp_scope pkg) \<Longrightarrow> obj_exported obj \<Longrightarrow> entered (object_items pkg obj) \<subseteq> set (fst st)"
    "\<And>i. i \<in> set (fst st) \<Longrightarrow> entered (items_of (member_graph pkg) i) \<subseteq> set (fst st)"
    "\<And>i. i \<in> set (fst st) \<Longrightarrow> i \<notin> claims (gp_scope pkg) \<Longrightarrow> hidden_members pkg i \<subseteq> set (snd st)"
    by (auto simp only: collecting_inv_def)
  have reach: "i \<in> set (fst st)" if "i \<in> led_to pkg (gp_scope pkg)" for i
  proof -
    from that obtain obj u where obj: "obj \<in> set (gp_scope pkg)" "obj_exported obj" "Enter u \<in> set (object_items pkg obj)"
      and r: "reaches (member_graph pkg) u i" by (auto simp: led_to_def)
    have "u \<in> set (fst st)" using inv(3) [OF obj(1,2)] obj(3) by (auto simp: entered_def)
    with r show ?thesis using inv(4) by (rule reaches_closed)
  qed
  have walked: "walked_features pkg = snd st" by (simp add: walked_features_def st_def)
  show "set (walked_features pkg) \<subseteq> public_source pkg (gp_scope pkg) \<union> (\<Union>i \<in> led_to pkg (gp_scope pkg). hidden_members pkg i)"
    unfolding walked by (rule inv(2))
  have "hidden_members pkg i \<subseteq> set (snd st)" if "i \<in> led_to pkg (gp_scope pkg) - claims (gp_scope pkg)" for i
    using that reach [of i] inv(5) [of i] by simp
  then show "public_source pkg (gp_scope pkg) \<union> (\<Union>i \<in> led_to pkg (gp_scope pkg) - claims (gp_scope pkg). hidden_members pkg i) \<subseteq> set (walked_features pkg)"
    unfolding walked using inv(1) by (simp add: UN_subset_iff)
qed

section \<open>Lemmas: the recorded features\<close>

lemma foldl_collector_add:
  assumes "distinct (map fst feats)" "\<forall>(k, f) \<in> set feats. k = ft_ID f"
    and "foldl (collector_add path) feats ws = out"
  shows "distinct (map fst out) \<and> (\<forall>(k, f) \<in> set out. k = ft_ID f) \<and> fst ` set out = fst ` set feats \<union> ft_ID ` set ws \<and>
    snd ` set out \<subseteq> snd ` set feats \<union> (\<lambda>f. f\<lparr>ft_Package := path\<rparr>) ` set ws"
  using assms
proof (induction ws arbitrary: feats)
  case (Cons w ws)
  have step: "distinct (map fst (collector_add path feats w))" "\<forall>(k, f) \<in> set (collector_add path feats w). k = ft_ID f"
    "fst ` set (collector_add path feats w) = insert (ft_ID w) (fst ` set feats)"
    "snd ` set (collector_add path feats w) \<subseteq> insert (w\<lparr>ft_Package := path\<rparr>) (snd ` set feats)"
    using Cons.prems by (auto simp: collector_add_def map_of_eq_None_iff split: if_splits)
  have rest: "foldl (collector_add path) (collector_add path feats w) ws = out" using Cons.prems(3) by simp
  note IH = Cons.IH [OF step(1,2) rest]
  have "snd ` set out \<subseteq> snd ` set feats \<union> (\<lambda>f. f\<lparr>ft_Package := path\<rparr>) ` set (w # ws)"
    using conjunct2 [OF conjunct2 [OF conjunct2 [OF IH]]] step(4) unfolding list.set(2) image_insert by blast
  then show ?case using IH step(3) by simp
qed simp

lemma collectFeatures_spec:
  "sorted_wrt (<) (map ft_ID (collectFeatures path ws))" "ft_ID ` set (collectFeatures path ws) = ft_ID ` set ws"
  "set (collectFeatures path ws) \<subseteq> (\<lambda>f. f\<lparr>ft_Package := path\<rparr>) ` set ws"
proof -
  let ?out = "foldl (collector_add path) [] ws"
  have out: "distinct (map fst ?out)" "\<forall>(k, f) \<in> set ?out. k = ft_ID f" "fst ` set ?out = ft_ID ` set ws"
    "snd ` set ?out \<subseteq> (\<lambda>f. f\<lparr>ft_Package := path\<rparr>) ` set ws"
    using foldl_collector_add [of "[]" path ws ?out] by simp_all
  have keys: "map ft_ID (map snd ?out) = map fst ?out" using out(2) by auto
  have "mset (map ft_ID (collectFeatures path ws)) = mset (map fst ?out)"
    unfolding collectFeatures_def keys [symmetric] by (simp add: multiset.map_comp)
  then have "distinct (map ft_ID (collectFeatures path ws))" using out(1) by (metis mset_eq_imp_distinct_iff)
  moreover have "sorted (map ft_ID (collectFeatures path ws))" by (simp add: collectFeatures_def)
  ultimately show "sorted_wrt (<) (map ft_ID (collectFeatures path ws))" by (intro sorted_distinct_strict)
  have "ft_ID ` set (collectFeatures path ws) = set (map ft_ID (map snd ?out))" by (simp add: collectFeatures_def image_image)
  then show "ft_ID ` set (collectFeatures path ws) = ft_ID ` set ws" unfolding keys using out(3) by simp
  show "set (collectFeatures path ws) \<subseteq> (\<lambda>f. f\<lparr>ft_Package := path\<rparr>) ` set ws" using out(4) by (simp add: collectFeatures_def)
qed

section \<open>Properties\<close>


lemma led_to_hidden: "led_to pkg objs \<subseteq> Collect (hidden_type pkg)"
proof -
  have expose: "entered (surface_expose pkg t) \<subseteq> Collect (hidden_type pkg)" for t
    by (auto simp: surface_expose_def)
  have concat_sub: "(\<And>x. x \<in> set xs \<Longrightarrow> entered (f x) \<subseteq> S) \<Longrightarrow> entered (concat (map f xs)) \<subseteq> S" for f :: "'b \<Rightarrow> Feature walk_item list" and xs S
    by (simp add: entered_concat UN_subset_iff)
  have methods: "entered (surface_methods pkg nt owner access) \<subseteq> Collect (hidden_type pkg)" for nt owner access
    unfolding surface_methods_def Let_def entered_append Un_subset_iff
    by (intro conjI concat_sub) (simp_all add: addMethod_def case_prod_beta expose)
  have fields: "entered (surface_fields pkg s owner access) \<subseteq> Collect (hidden_type pkg)" for s owner access
    unfolding surface_fields_def by (intro concat_sub) (simp add: addField_def Let_def case_prod_beta expose)
  have ifaces: "entered (ifaceMethods pkg nt explicit owner access) \<subseteq> Collect (hidden_type pkg)" for nt explicit owner access
    unfolding ifaceMethods_def by (intro concat_sub) (simp add: Let_def case_prod_beta expose)
  have members: "entered (surface_members pkg nt owner access) \<subseteq> Collect (hidden_type pkg)" for nt owner access
    by (simp add: surface_members_def methods fields ifaces split: go_ty.split)
  have items: "entered (object_items pkg obj) \<subseteq> Collect (hidden_type pkg)" for obj
    by (simp add: object_items_def Let_def expose members split: scope_object.split go_ty.split)
  have graph: "entered (items_of (member_graph pkg) i) \<subseteq> Collect (hidden_type pkg)" for i
    using members by (cases "i < length (gp_types pkg)") (auto simp: member_items)
  show ?thesis
  proof
    fix i assume "i \<in> led_to pkg objs"
    then obtain obj u where "Enter u \<in> set (object_items pkg obj)" and r: "reaches (member_graph pkg) u i" by (auto simp: led_to_def)
    then have "u \<in> Collect (hidden_type pkg)" using items [of obj] by (auto simp: entered_def)
    with r show "i \<in> Collect (hidden_type pkg)" using graph by (rule reaches_closed)
  qed
qed

text \<open>
  An alias claims its target only from its place in the scope on: the members of a hidden type are listed under the
  hidden name as well when an object with an earlier name exposes it.
\<close>

definition impl_method :: go_method where
  "impl_method = (\<lparr>mi_Object = 7, mi_Id = ''M'', mi_Name = ''M'', mi_Exported = True, mi_PointerRecv = False\<rparr>, SigTy [] [] [] False)"

definition impl_type :: named_type where
  "impl_type = \<lparr>nt_Name = ''impl'', nt_Own = True, nt_Exported = False, nt_Underlying = BasicTy ''int'', nt_Methods = [impl_method],
     nt_ValueSet = [(impl_method, 1)], nt_PointerSet = [(impl_method, 1)]\<rparr>"

definition alias_package :: "string \<Rightarrow> go_package" where
  "alias_package var_name = \<lparr>gp_types = [impl_type],
     gp_scope = sort_key obj_name [VarObj var_name True (NamedTy 0), TypeObj ''M'' True True (AliasTy ''M'' (NamedTy 0))], gp_string = (\<lambda>_. [])\<rparr>"

lemma alias_members_twice:
  "map ft_ID (collect_package [] (alias_package ''A'')) = [''method:M.M'', ''method:impl.M'', ''type:M'', ''var:A'']"
  "map ft_ID (collect_package [] (alias_package ''Z'')) = [''method:M.M'', ''type:M'', ''var:Z'']"
  by code_simp+

end
