(* ===== verification/Loki_Drain.thy ===== *)
theory Loki_Drain
  imports Loki_Writer
begin

text \<open>
  \<^verbatim>\<open>Drain\<close> of \<^verbatim>\<open>loki.go\<close>: any number of callers, each with its two \<^verbatim>\<open>select\<close> statements, beside the writers and the
  goroutine of \<^verbatim>\<open>Loki_Writer\<close>. The system refines the queue, so its invariants hold; a caller that is
  acknowledged finds everything accepted before its call delivered, and no caller is ever stuck.
\<close>

section \<open>Callers\<close>

text \<open>
  A caller is in the first \<^verbatim>\<open>select\<close>, in the second one, or has returned (nil, in every case), with whether its
  acknowledgement arrived. The entries accepted when it was called are a ghost.
\<close>

datatype drain_pc = DrainSelect | DrainWait | DrainReturned bool

record drain_call =
  dn_pc :: drain_pc
  dn_mark :: "lokiEntry list"

text \<open>
  The goroutine holds the acknowledgement channel of the flush it serves; closed channels are remembered.
\<close>

record drain_sys =
  dy_loki :: loki_state
  dy_calls :: "nat \<Rightarrow> drain_call option"
  dy_serving :: "nat option"
  dy_closed :: "nat set"

definition drain_init :: drain_sys where
  "drain_init = \<lparr>dy_loki = loki_init, dy_calls = (\<lambda>_. None), dy_serving = None, dy_closed = {}\<rparr>"

definition set_pc :: "nat \<Rightarrow> drain_pc \<Rightarrow> drain_sys \<Rightarrow> drain_sys" where
  "set_pc i p s = s\<lparr>dy_calls := (dy_calls s)(i := map_option (\<lambda>d. d\<lparr>dn_pc := p\<rparr>) (dy_calls s i))\<rparr>"

definition pc_of :: "drain_sys \<Rightarrow> nat \<Rightarrow> drain_pc option" where
  "pc_of s i = map_option dn_pc (dy_calls s i)"

definition drain_call_step :: "nat \<Rightarrow> drain_sys \<Rightarrow> drain_sys option" where
  "drain_call_step i s =
    (if dy_calls s i = None then Some (s\<lparr>dy_calls := (dy_calls s)(i \<mapsto> \<lparr>dn_pc = DrainSelect, dn_mark = accepted (dy_loki s)\<rparr>)\<rparr>) else None)"

text \<open>The unbuffered \<^verbatim>\<open>flushRequests\<close>: the caller's send and the goroutine's receive are one step.\<close>

definition drain_send :: "nat \<Rightarrow> drain_sys \<Rightarrow> drain_sys option" where
  "drain_send i s =
    (if pc_of s i = Some DrainSelect then
       (case run_flush_request (dy_loki s) of
          Some l \<Rightarrow> Some ((set_pc i DrainWait s)\<lparr>dy_loki := l, dy_serving := Some i\<rparr>)
        | None \<Rightarrow> None)
     else None)"

text \<open>The end of a flush closes the channel held; the end of a shutdown closes \<^verbatim>\<open>done\<close>, which is \<^term>\<open>Done\<close>.\<close>

definition drain_finish :: "drain_sys \<Rightarrow> drain_sys option" where
  "drain_finish s =
    (case collect_finish (dy_loki s) of
       Some l \<Rightarrow>
         Some (if ctl (dy_loki s) = CollectFlush then s\<lparr>dy_loki := l, dy_closed := dy_closed s \<union> set_option (dy_serving s), dy_serving := None\<rparr>
               else s\<lparr>dy_loki := l\<rparr>)
     | None \<Rightarrow> None)"

definition drain_acked :: "nat \<Rightarrow> drain_sys \<Rightarrow> drain_sys option" where
  "drain_acked i s = (if pc_of s i = Some DrainWait \<and> i \<in> dy_closed s then Some (set_pc i (DrainReturned True) s) else None)"

definition drain_done :: "nat \<Rightarrow> drain_sys \<Rightarrow> drain_sys option" where
  "drain_done i s =
    (if pc_of s i \<in> {Some DrainSelect, Some DrainWait} \<and> ctl (dy_loki s) = Done then Some (set_pc i (DrainReturned False) s) else None)"

text \<open>The caller's context or the cap of two seconds ends, at any time.\<close>

definition drain_expired :: "nat \<Rightarrow> drain_sys \<Rightarrow> drain_sys option" where
  "drain_expired i s = (if pc_of s i \<in> {Some DrainSelect, Some DrainWait} then Some (set_pc i (DrainReturned False) s) else None)"

text \<open>The steps of writers and of the goroutine that do not concern a flush request.\<close>

definition loki_local :: "loki_state \<Rightarrow> loki_state \<Rightarrow> bool" where
  "loki_local l l' \<longleftrightarrow> (\<exists>e. l' = loki_write e l) \<or> run_recv l = Some l' \<or> run_tick l = Some l' \<or> run_cancelled l = Some l' \<or> collect_entry l = Some l'"

inductive drain_step :: "drain_sys \<Rightarrow> drain_sys \<Rightarrow> bool" where
  Local: "loki_local (dy_loki s) l \<Longrightarrow> drain_step s (s\<lparr>dy_loki := l\<rparr>)"
| Call: "drain_call_step i s = Some s' \<Longrightarrow> drain_step s s'"
| Send: "drain_send i s = Some s' \<Longrightarrow> drain_step s s'"
| Finish: "drain_finish s = Some s' \<Longrightarrow> drain_step s s'"
| Acked: "drain_acked i s = Some s' \<Longrightarrow> drain_step s s'"
| Stopped: "drain_done i s = Some s' \<Longrightarrow> drain_step s s'"
| Expired: "drain_expired i s = Some s' \<Longrightarrow> drain_step s s'"

definition drain_reachable :: "drain_sys \<Rightarrow> bool" where
  "drain_reachable s \<longleftrightarrow> drain_step\<^sup>*\<^sup>* drain_init s"

section \<open>Refinement\<close>

lemma set_pc_loki [simp]: "dy_loki (set_pc i p s) = dy_loki s" "dy_serving (set_pc i p s) = dy_serving s" "dy_closed (set_pc i p s) = dy_closed s"
  by (simp_all add: set_pc_def)

lemma set_pc_calls: "dy_calls (set_pc i p s) j = (if j = i then map_option (\<lambda>d. d\<lparr>dn_pc := p\<rparr>) (dy_calls s i) else dy_calls s j)"
  by (simp add: set_pc_def)

lemmas drain_defs = drain_call_step_def drain_send_def drain_finish_def drain_acked_def drain_done_def drain_expired_def

lemma loki_local_step: "loki_local l l' \<Longrightarrow> loki_step l l'"
  unfolding loki_local_def by (auto intro: loki_step.intros)

text \<open>A step of the system is a step of the queue or leaves it alone.\<close>

lemma drain_step_refines:
  assumes "drain_step s s'"
  shows "loki_step (dy_loki s) (dy_loki s') \<or> dy_loki s' = dy_loki s"
  using assms
proof (cases rule: drain_step.cases)
  case (Local l)
  then show ?thesis using loki_local_step by auto
next
  case (Send i)
  then show ?thesis by (auto simp: drain_send_def split: if_splits option.splits intro: FlushRequest)
next
  case Finish
  then show ?thesis by (auto simp: drain_finish_def split: if_splits option.splits intro: CollectFinish)
qed (auto simp: drain_defs split: if_splits)

lemma drain_refines:
  assumes "drain_reachable s"
  shows "reachable (dy_loki s)"
  using assms unfolding drain_reachable_def
proof (induction rule: rtranclp_induct)
  case base
  show ?case by (simp add: drain_init_def reachable_def)
next
  case (step s s')
  then show ?case using drain_step_refines [OF step(2)] reachable_step by auto
qed

section \<open>What an acknowledgement means\<close>

text \<open>
  A caller's mark was accepted; while a flush is served, its caller waits; a closed channel and an
  acknowledged return mean that the mark is delivered.
\<close>

definition drain_inv :: "drain_sys \<Rightarrow> bool" where
  "drain_inv s \<longleftrightarrow>
    (\<forall>i d. dy_calls s i = Some d \<longrightarrow> prefix (dn_mark d) (accepted (dy_loki s)) \<and>
      (i \<in> dy_closed s \<or> dn_pc d = DrainReturned True \<longrightarrow> prefix (dn_mark d) (delivered (dy_loki s)))) \<and>
    (\<forall>i \<in> dy_closed s \<union> set_option (dy_serving s). dy_calls s i \<noteq> None)"

lemma drain_inv_calls:
  assumes "drain_inv s" and "drain_reachable s" and "drain_step s s'"
  shows "drain_inv s'"
proof -
  have reach: "reachable (dy_loki s)" by (rule drain_refines [OF assms(2)])
  have grow: "prefix (accepted (dy_loki s)) (accepted (dy_loki s'))" "prefix (delivered (dy_loki s)) (delivered (dy_loki s'))"
    using drain_step_refines [OF assms(3)] loki.later_extends [of "dy_loki s" "dy_loki s'"] by auto
  have old: "prefix (dn_mark d) (accepted (dy_loki s'))"
    "i \<in> dy_closed s \<or> dn_pc d = DrainReturned True \<Longrightarrow> prefix (dn_mark d) (delivered (dy_loki s'))" if "dy_calls s i = Some d" for i d
    using assms(1) that grow by (auto simp: drain_inv_def intro: prefix_order.trans)
  have known: "i \<in> dy_closed s \<union> set_option (dy_serving s) \<Longrightarrow> dy_calls s i \<noteq> None" for i
    using assms(1) by (simp add: drain_inv_def)
  show ?thesis
    using assms(3)
  proof (cases rule: drain_step.cases)
    case (Local l)
    then show ?thesis using old known by (auto simp: drain_inv_def)
  next
    case (Call i)
    then have s': "s' = s\<lparr>dy_calls := (dy_calls s)(i \<mapsto> \<lparr>dn_pc = DrainSelect, dn_mark = accepted (dy_loki s)\<rparr>)\<rparr>" and new: "dy_calls s i = None"
      by (auto simp: drain_call_step_def split: if_splits)
    have "i \<notin> dy_closed s" using known [of i] new by auto
    then show ?thesis using old known unfolding s' by (auto simp: drain_inv_def)
  next
    case (Send i)
    then obtain l where s': "s' = (set_pc i DrainWait s)\<lparr>dy_loki := l, dy_serving := Some i\<rparr>" and pc: "pc_of s i = Some DrainSelect"
      by (auto simp: drain_send_def split: if_splits option.splits)
    then show ?thesis using old known unfolding s' by (auto simp: drain_inv_def set_pc_calls pc_of_def split: if_splits)
  next
    case Finish
    then obtain l where l: "collect_finish (dy_loki s) = Some l"
      and s': "s' = (if ctl (dy_loki s) = CollectFlush then s\<lparr>dy_loki := l, dy_closed := dy_closed s \<union> set_option (dy_serving s), dy_serving := None\<rparr>
               else s\<lparr>dy_loki := l\<rparr>)" by (auto simp: drain_finish_def split: option.splits)
    have "loki_step (dy_loki s) l" using l by (rule CollectFinish)
    then have "reachable l" by (rule reachable_step [OF reach])
    then have "delivered l = accepted l"
      using loki.conserved [of l] collect_finish_held [OF l] by (simp add: reach_reachable)
    then show ?thesis using old known unfolding s' by (auto simp: drain_inv_def)
  next
    case (Acked i)
    then have s': "s' = set_pc i (DrainReturned True) s" and closed: "i \<in> dy_closed s"
      by (auto simp: drain_acked_def split: if_splits)
    then show ?thesis using old known by (auto simp: drain_inv_def set_pc_calls split: if_splits)
  next
    case (Stopped i)
    then have "s' = set_pc i (DrainReturned False) s" by (auto simp: drain_done_def split: if_splits)
    then show ?thesis using old known by (auto simp: drain_inv_def set_pc_calls split: if_splits)
  next
    case (Expired i)
    then have "s' = set_pc i (DrainReturned False) s" by (auto simp: drain_expired_def split: if_splits)
    then show ?thesis using old known by (auto simp: drain_inv_def set_pc_calls split: if_splits)
  qed
qed

lemma drain_inv_reachable:
  assumes "drain_reachable s"
  shows "drain_inv s"
  using assms unfolding drain_reachable_def
proof (induction rule: rtranclp_induct)
  case base
  show ?case by (simp add: drain_inv_def drain_init_def)
next
  case (step s s')
  then show ?case using drain_inv_calls by (auto simp: drain_reachable_def)
qed

section \<open>Being served\<close>

lemma drain_collects:
  "collecting (dy_loki s) \<Longrightarrow>
    drain_step\<^sup>*\<^sup>* s (s\<lparr>dy_loki := (dy_loki s)\<lparr>ch := [], batch := batch (dy_loki s) @ ch (dy_loki s)\<rparr>\<rparr>)"
proof (induction "ch (dy_loki s)" arbitrary: s)
  case Nil
  then have "s\<lparr>dy_loki := (dy_loki s)\<lparr>ch := [], batch := batch (dy_loki s) @ ch (dy_loki s)\<rparr>\<rparr> = s" by simp
  then show ?case by simp
next
  case (Cons e rest)
  let ?l = "(dy_loki s)\<lparr>ch := rest, batch := batch (dy_loki s) @ [e]\<rparr>"
  have "collect_entry (dy_loki s) = Some ?l"
    using Cons.hyps(2) [symmetric] Cons.prems by (simp add: collect_entry_def)
  then have "drain_step s (s\<lparr>dy_loki := ?l\<rparr>)" by (intro Local) (simp add: loki_local_def)
  moreover have "drain_step\<^sup>*\<^sup>* (s\<lparr>dy_loki := ?l\<rparr>) (s\<lparr>dy_loki := (dy_loki s)\<lparr>ch := [], batch := batch (dy_loki s) @ ch (dy_loki s)\<rparr>\<rparr>)"
    using Cons.hyps(1) [of "s\<lparr>dy_loki := ?l\<rparr>"] Cons.prems Cons.hyps(2) [symmetric] by (simp add: collecting_def)
  ultimately show ?case by (rule converse_rtranclp_into_rtranclp)
qed

lemma drain_served:
  assumes "pc_of s i = Some DrainSelect" and "ctl (dy_loki s) = Idle"
  shows "\<exists>s'. drain_step\<^sup>*\<^sup>* s s' \<and> pc_of s' i = Some (DrainReturned True) \<and>
    dy_loki s' = (flushRemaining (dy_loki s))\<lparr>acked := acked (dy_loki s) + 1\<rparr>"
proof -
  let ?l1 = "(dy_loki s)\<lparr>ctl := CollectFlush\<rparr>"
  let ?l2 = "?l1\<lparr>ch := [], batch := batch ?l1 @ ch ?l1\<rparr>"
  let ?l3 = "(flushRemaining (dy_loki s))\<lparr>acked := acked (dy_loki s) + 1\<rparr>"
  define s1 where "s1 = (set_pc i DrainWait s)\<lparr>dy_loki := ?l1, dy_serving := Some i\<rparr>"
  define s3 where "s3 = s1\<lparr>dy_loki := ?l3, dy_closed := dy_closed s1 \<union> {i}, dy_serving := None\<rparr>"
  have "drain_send i s = Some s1" using assms by (simp add: drain_send_def run_flush_request_def s1_def)
  then have "drain_step s s1" by (rule Send)
  moreover have "drain_step\<^sup>*\<^sup>* s1 (s1\<lparr>dy_loki := ?l2\<rparr>)"
    using drain_collects [of s1] by (simp add: s1_def collecting_def)
  moreover have "collect_finish ?l2 = Some ?l3"
    using assms(2) by (simp add: collect_finish_def collecting_def flushRemaining_def flush_collect_eq post_def Let_def)
  then have "drain_finish (s1\<lparr>dy_loki := ?l2\<rparr>) = Some s3" by (simp add: drain_finish_def s3_def s1_def)
  then have "drain_step (s1\<lparr>dy_loki := ?l2\<rparr>) s3" by (rule Finish)
  moreover have wait: "pc_of s3 i = Some DrainWait" using assms(1) by (auto simp: s3_def s1_def pc_of_def set_pc_calls)
  then have "drain_acked i s3 = Some (set_pc i (DrainReturned True) s3)" by (simp add: drain_acked_def s3_def)
  then have "drain_step s3 (set_pc i (DrainReturned True) s3)" by (rule Acked)
  moreover have "pc_of (set_pc i (DrainReturned True) s3) i = Some (DrainReturned True)"
    using wait by (auto simp: pc_of_def set_pc_calls)
  moreover have "dy_loki (set_pc i (DrainReturned True) s3) = ?l3" by (simp add: s3_def)
  ultimately show ?thesis by (meson converse_rtranclp_into_rtranclp rtranclp.rtrancl_into_rtrancl)
qed

section \<open>Properties\<close>

lemma drain_call_outcomes:
  assumes "drain_reachable s" and "dy_calls s i = Some d"
  shows "dn_pc d = DrainReturned True \<Longrightarrow> prefix (dn_mark d) (delivered (dy_loki s))"
    and "dn_pc d = DrainSelect \<Longrightarrow> ctl (dy_loki s) = Idle \<Longrightarrow>
      \<exists>s'. drain_step\<^sup>*\<^sup>* s s' \<and> pc_of s' i = Some (DrainReturned True) \<and> delivered (dy_loki s') = accepted (dy_loki s)"
    and "ctl (dy_loki s) = Done \<Longrightarrow> drain_send i s = None"
    and "dn_pc d = DrainSelect \<or> dn_pc d = DrainWait \<Longrightarrow> drain_expired i s = Some (set_pc i (DrainReturned False) s) \<and>
      (ctl (dy_loki s) = Done \<longrightarrow> drain_done i s = Some (set_pc i (DrainReturned False) s))"
proof -
  show "dn_pc d = DrainReturned True \<Longrightarrow> prefix (dn_mark d) (delivered (dy_loki s))"
    using drain_inv_reachable [OF assms(1)] assms(2) by (auto simp: drain_inv_def)
  show "ctl (dy_loki s) = Done \<Longrightarrow> drain_send i s = None"
    by (simp add: drain_send_def run_flush_request_def)
  show "dn_pc d = DrainSelect \<or> dn_pc d = DrainWait \<Longrightarrow> drain_expired i s = Some (set_pc i (DrainReturned False) s) \<and>
      (ctl (dy_loki s) = Done \<longrightarrow> drain_done i s = Some (set_pc i (DrainReturned False) s))"
    using assms(2) by (auto simp: drain_expired_def drain_done_def pc_of_def)
  assume select: "dn_pc d = DrainSelect" and idle: "ctl (dy_loki s) = Idle"
  then obtain s' where steps: "drain_step\<^sup>*\<^sup>* s s'" and pc: "pc_of s' i = Some (DrainReturned True)"
    and l: "dy_loki s' = (flushRemaining (dy_loki s))\<lparr>acked := acked (dy_loki s) + 1\<rparr>"
    using drain_served [of s i] assms(2) by (auto simp: pc_of_def)
  have "drain_reachable s'" using assms(1) steps unfolding drain_reachable_def by (rule rtranclp_trans)
  then have "delivered (dy_loki s') @ held (dy_loki s') = accepted (dy_loki s')"
    using loki.conserved [of "dy_loki s'"] by (simp add: reach_reachable drain_refines)
  moreover have "held (dy_loki s') = []" "accepted (dy_loki s') = accepted (dy_loki s)"
    unfolding l by (simp_all add: flushRemaining_def post_def held_def Let_def)
  ultimately show "\<exists>s'. drain_step\<^sup>*\<^sup>* s s' \<and> pc_of s' i = Some (DrainReturned True) \<and> delivered (dy_loki s') = accepted (dy_loki s)"
    using steps pc by auto
qed

text \<open>
  C32. Under every interleaving of callers, writers, ticks and cancellation: a \<^verbatim>\<open>Drain\<close> that is acknowledged returns with
  everything accepted before its call handed to Loki, in order. While the goroutine selects, a caller can be served
  to its acknowledgement with everything accepted by then delivered; once the goroutine has stopped, or when its
  deadline passes, a caller that has not returned returns without one.
\<close>

theorem drain_acknowledged_delivers:
  assumes "drain_reachable s" and "dy_calls s i = Some d"
  shows "(dn_pc d = DrainReturned True \<longrightarrow> prefix (dn_mark d) (delivered (dy_loki s))) \<and>
    (dn_pc d = DrainSelect \<and> ctl (dy_loki s) = Idle \<longrightarrow>
      (\<exists>s'. drain_step\<^sup>*\<^sup>* s s' \<and> pc_of s' i = Some (DrainReturned True) \<and> delivered (dy_loki s') = accepted (dy_loki s))) \<and>
    (ctl (dy_loki s) = Done \<longrightarrow> drain_send i s = None) \<and>
    (dn_pc d = DrainSelect \<or> dn_pc d = DrainWait \<longrightarrow> drain_expired i s = Some (set_pc i (DrainReturned False) s) \<and>
      (ctl (dy_loki s) = Done \<longrightarrow> drain_done i s = Some (set_pc i (DrainReturned False) s)))"
  using drain_call_outcomes [OF assms] by blast

text \<open>One entry written, one caller, served to its acknowledgement.\<close>

definition drain_demo :: drain_sys where
  "drain_demo =
    (let s1 = drain_init\<lparr>dy_loki := loki_write \<lparr>ts = 7, line = ''x''\<rparr> loki_init\<rparr>;
         s2 = the (drain_send 0 (the (drain_call_step 0 s1)));
         s3 = s2\<lparr>dy_loki := the (collect_entry (dy_loki s2))\<rparr>
     in the (drain_acked 0 (the (drain_finish s3))))"

theorem drain_acknowledged_delivers_witness:
  "\<exists>d. dy_calls drain_demo 0 = Some d \<and> dn_pc d = DrainReturned True \<and> dn_mark d = [\<lparr>ts = 7, line = ''x''\<rparr>] \<and>
    prefix (dn_mark d) (delivered (dy_loki drain_demo))"
proof -
  define s1 where "s1 = drain_init\<lparr>dy_loki := loki_write \<lparr>ts = 7, line = ''x''\<rparr> loki_init\<rparr>"
  define s2 where "s2 = the (drain_call_step 0 s1)"
  define s3 where "s3 = the (drain_send 0 s2)"
  define s4 where "s4 = s3\<lparr>dy_loki := the (collect_entry (dy_loki s3))\<rparr>"
  define s5 where "s5 = the (drain_finish s4)"
  note defs = s5_def s4_def s3_def s2_def s1_def drain_init_def loki_init_def loki_defs drain_defs set_pc_def pc_of_def lokiChannelCap_def loki_local_def
  have "loki_local (dy_loki drain_init) (loki_write \<lparr>ts = 7, line = ''x''\<rparr> loki_init)" by (auto simp: loki_local_def drain_init_def)
  then have "drain_step drain_init s1" unfolding s1_def by (rule Local)
  moreover have "drain_call_step 0 s1 = Some s2" by (simp add: defs)
  then have "drain_step s1 s2" by (rule Call)
  moreover have "drain_send 0 s2 = Some s3" by (simp add: defs)
  then have "drain_step s2 s3" by (rule Send)
  moreover have "loki_local (dy_loki s3) (the (collect_entry (dy_loki s3)))" by (simp add: defs)
  then have "drain_step s3 s4" unfolding s4_def by (rule Local)
  moreover have "drain_finish s4 = Some s5" by (simp add: defs)
  then have "drain_step s4 s5" by (rule Finish)
  moreover have demo: "drain_acked 0 s5 = Some drain_demo" by (simp add: drain_demo_def Let_def defs)
  then have "drain_step s5 drain_demo" by (rule Acked)
  ultimately have "drain_reachable drain_demo"
    unfolding drain_reachable_def by (meson rtranclp.rtrancl_refl rtranclp.rtrancl_into_rtrancl)
  moreover have call: "dy_calls drain_demo 0 = Some \<lparr>dn_pc = DrainReturned True, dn_mark = [\<lparr>ts = 7, line = ''x''\<rparr>]\<rparr>"
    by (simp add: drain_demo_def Let_def defs)
  ultimately show ?thesis using drain_acknowledged_delivers [of drain_demo 0] by simp
qed

end
