(* ===== verification/Ax_Io.thy ===== *)
theory Ax_Io
  imports Ax_Contract "HOL-Library.Sublist"
begin

text \<open>
  Output: \<^verbatim>\<open>WriteJSON\<close> and \<^verbatim>\<open>WriteJSONLine\<close> of \<^verbatim>\<open>contract/json.go\<close> with the JSON form of an envelope, and the
  writer of \<^verbatim>\<open>internal/telemetry/telemetry.go\<close> that serialises concurrent writes, which \<^verbatim>\<open>Execute\<close> puts around stderr
  and which \<^verbatim>\<open>forwardStderr\<close> of \<^verbatim>\<open>internal/mcpserver/dispatch.go\<close> repeats. The lemmas say that a stream of JSON lines
  is read back line by line, and that concurrent writes never tear each other.
\<close>

section \<open>JSON output\<close>

definition opt_field :: "string \<Rightarrow> string \<Rightarrow> (string \<times> any_value) list" where
  "opt_field k v = (if v = [] then [] else [(k, StrVal v)])"

definition metadata_json :: "Metadata \<Rightarrow> any_value" where
  "metadata_json m =
    ObjVal ([(''trace_id'', StrVal (m_TraceID m))] @ opt_field ''span_id'' (m_SpanID m) @ opt_field ''idempotency_key'' (m_IdempotencyKey m) @
      (if m_DryRun m then [(''dry_run'', BoolVal True)] else []))"

definition envelope_warning_json :: "Warning \<Rightarrow> any_value" where
  "envelope_warning_json w = ObjVal [(''code'', StrVal (w_Code w)), (''message'', StrVal (w_Message w))]"

definition envelope_json :: "any_value Envelope \<Rightarrow> any_value" where
  "envelope_json env =
    ObjVal ([(''data'', Data env), (''meta'', metadata_json (Meta env))] @
      (if Warnings env = [] then [] else [(''warnings'', ListVal (map envelope_warning_json (Warnings env)))]))"

text \<open>The text handed to the writer, if any, and the error; \<^term>\<open>write\<close> is the writer's answer to it.\<close>

definition WriteJSON :: "('v \<Rightarrow> go_error + string) \<Rightarrow> (string \<Rightarrow> go_error option) \<Rightarrow> 'v \<Rightarrow> string option \<times> go_error option" where
  "WriteJSON marshal write v =
    (case marshal v of
       Inl e \<Rightarrow> (None, Some e)
     | Inr payload \<Rightarrow> (let text = payload @ [char_of (10 :: nat)] in (Some text, write text)))"

definition WriteJSONLine :: "('v \<Rightarrow> go_error + string) \<Rightarrow> (string \<Rightarrow> go_error option) \<Rightarrow> 'v \<Rightarrow> string option \<times> go_error option" where
  "WriteJSONLine = WriteJSON"

section \<open>The locked writer\<close>

text \<open>
  A goroutine is outside \<^verbatim>\<open>Write\<close>, waits for the mutex with its bytes, or holds it and has handed some of them on.
  The writer below takes bytes one at a time and may give up with an error after any of them. Calls that
  have returned are a ghost: the goroutine, its bytes and those that were written.
\<close>

datatype lw_pc = LwOutside | LwWaiting string | LwHolding string string

record lw_state =
  lw_owner :: "nat option"
  lw_pcs :: "nat \<Rightarrow> lw_pc"
  lw_out :: string
  lw_calls :: "(nat \<times> string \<times> string) list"

definition NewLockedWriter :: "string \<Rightarrow> lw_state" where
  "NewLockedWriter out = \<lparr>lw_owner = None, lw_pcs = (\<lambda>_. LwOutside), lw_out = out, lw_calls = []\<rparr>"

definition lw_call :: "nat \<Rightarrow> string \<Rightarrow> lw_state \<Rightarrow> lw_state option" where
  "lw_call i p s = (if lw_pcs s i = LwOutside then Some (s\<lparr>lw_pcs := (lw_pcs s)(i := LwWaiting p)\<rparr>) else None)"

definition lw_lock :: "nat \<Rightarrow> lw_state \<Rightarrow> lw_state option" where
  "lw_lock i s =
    (case (lw_pcs s i, lw_owner s) of
       (LwWaiting p, None) \<Rightarrow> Some (s\<lparr>lw_owner := Some i, lw_pcs := (lw_pcs s)(i := LwHolding p [])\<rparr>)
     | _ \<Rightarrow> None)"

definition lw_byte :: "nat \<Rightarrow> lw_state \<Rightarrow> lw_state option" where
  "lw_byte i s =
    (case lw_pcs s i of
       LwHolding p w \<Rightarrow>
         (if length w < length p then
            Some (s\<lparr>lw_out := lw_out s @ [p ! length w], lw_pcs := (lw_pcs s)(i := LwHolding p (w @ [p ! length w]))\<rparr>)
          else None)
     | _ \<Rightarrow> None)"

definition lw_return :: "nat \<Rightarrow> lw_state \<Rightarrow> lw_state option" where
  "lw_return i s =
    (case lw_pcs s i of
       LwHolding p w \<Rightarrow> Some (s\<lparr>lw_owner := None, lw_pcs := (lw_pcs s)(i := LwOutside), lw_calls := lw_calls s @ [(i, p, w)]\<rparr>)
     | _ \<Rightarrow> None)"

inductive lw_step :: "lw_state \<Rightarrow> lw_state \<Rightarrow> bool" where
  LwCall: "lw_call i p s = Some s' \<Longrightarrow> lw_step s s'"
| LwLock: "lw_lock i s = Some s' \<Longrightarrow> lw_step s s'"
| LwByte: "lw_byte i s = Some s' \<Longrightarrow> lw_step s s'"
| LwReturn: "lw_return i s = Some s' \<Longrightarrow> lw_step s s'"

inductive_cases lw_stepE: "lw_step s s'"

lemmas lw_defs = lw_call_def lw_lock_def lw_byte_def lw_return_def

text \<open>\<^verbatim>\<open>forwardStderr\<close>: nothing for no bytes or no writer, else a call under the mutex.\<close>

definition forwardStderr :: "bool \<Rightarrow> nat \<Rightarrow> string \<Rightarrow> lw_state \<Rightarrow> lw_state option" where
  "forwardStderr has_writer i b s = (if b = [] \<or> \<not> has_writer then Some s else lw_call i b s)"

text \<open>\<^verbatim>\<open>newCallContext\<close>: when the context of a call is cancelled.\<close>

definition newCallContext :: "bool option \<Rightarrow> bool \<Rightarrow> bool \<Rightarrow> bool" where
  "newCallContext serve_done req_done cancel_called \<longleftrightarrow> req_done \<or> cancel_called \<or> serve_done = Some True"

section \<open>Lemmas\<close>

definition lw_current :: "lw_state \<Rightarrow> string" where
  "lw_current s = (case lw_owner s of None \<Rightarrow> [] | Some i \<Rightarrow> (case lw_pcs s i of LwHolding p w \<Rightarrow> w | _ \<Rightarrow> []))"

definition lw_inv :: "string \<Rightarrow> lw_state \<Rightarrow> bool" where
  "lw_inv before s \<longleftrightarrow>
    lw_out s = before @ concat (map (snd \<circ> snd) (lw_calls s)) @ lw_current s \<and>
    (\<forall>i p w. lw_pcs s i = LwHolding p w \<longrightarrow> lw_owner s = Some i \<and> prefix w p) \<and>
    (\<forall>i. lw_owner s = Some i \<longrightarrow> (\<exists>p w. lw_pcs s i = LwHolding p w)) \<and>
    list_all (\<lambda>(i, p, w). prefix w p) (lw_calls s)"

lemma prefix_next: "prefix w p \<Longrightarrow> length w < length p \<Longrightarrow> prefix (w @ [p ! length w]) p"
  by (metis append_one_prefix)

lemma lw_inv_out: "lw_inv before s \<Longrightarrow> lw_out s = before @ concat (map (snd \<circ> snd) (lw_calls s)) @ lw_current s"
  unfolding lw_inv_def by blast

lemma lw_inv_holding: "lw_inv before s \<Longrightarrow> lw_pcs s i = LwHolding p w \<Longrightarrow> lw_owner s = Some i \<and> prefix w p"
  unfolding lw_inv_def by blast

lemma lw_inv_owner: "lw_inv before s \<Longrightarrow> lw_owner s = Some i \<Longrightarrow> \<exists>p w. lw_pcs s i = LwHolding p w"
  unfolding lw_inv_def by blast

lemma lw_inv_calls: "lw_inv before s \<Longrightarrow> list_all (\<lambda>(i, p, w). prefix w p) (lw_calls s)"
  unfolding lw_inv_def by blast

lemma lw_invI:
  assumes "lw_out s = before @ concat (map (snd \<circ> snd) (lw_calls s)) @ lw_current s"
    and "\<And>i p w. lw_pcs s i = LwHolding p w \<Longrightarrow> lw_owner s = Some i \<and> prefix w p"
    and "\<And>i. lw_owner s = Some i \<Longrightarrow> \<exists>p w. lw_pcs s i = LwHolding p w"
    and "list_all (\<lambda>(i, p, w). prefix w p) (lw_calls s)"
  shows "lw_inv before s"
  unfolding lw_inv_def using assms by blast

lemma lw_inv_call:
  assumes inv: "lw_inv before s" and pc: "lw_pcs s i = LwOutside"
  shows "lw_inv before (s\<lparr>lw_pcs := (lw_pcs s)(i := LwWaiting p)\<rparr>)"
proof (rule lw_invI)
  have other: "j \<noteq> i" if "lw_owner s = Some j" for j using lw_inv_owner [OF inv that] pc by auto
  show "lw_out (s\<lparr>lw_pcs := (lw_pcs s)(i := LwWaiting p)\<rparr>) =
      before @ concat (map (snd \<circ> snd) (lw_calls (s\<lparr>lw_pcs := (lw_pcs s)(i := LwWaiting p)\<rparr>))) @ lw_current (s\<lparr>lw_pcs := (lw_pcs s)(i := LwWaiting p)\<rparr>)"
    using lw_inv_out [OF inv] other by (simp add: lw_current_def split: option.split)
  show "\<exists>q w. lw_pcs (s\<lparr>lw_pcs := (lw_pcs s)(i := LwWaiting p)\<rparr>) j = LwHolding q w" if "lw_owner (s\<lparr>lw_pcs := (lw_pcs s)(i := LwWaiting p)\<rparr>) = Some j" for j
    using lw_inv_owner [OF inv] other that by simp
qed (use lw_inv_holding [OF inv] lw_inv_calls [OF inv] in \<open>auto split: if_splits\<close>)

lemma lw_inv_lock:
  assumes inv: "lw_inv before s" and free: "lw_owner s = None"
  shows "lw_inv before (s\<lparr>lw_owner := Some i, lw_pcs := (lw_pcs s)(i := LwHolding p [])\<rparr>)"
proof (rule lw_invI)
  have other: "lw_pcs s j \<noteq> LwHolding q w" for j q w using lw_inv_holding [OF inv] free by fastforce
  show "lw_owner (s\<lparr>lw_owner := Some i, lw_pcs := (lw_pcs s)(i := LwHolding p [])\<rparr>) = Some j \<and> prefix w q"
    if "lw_pcs (s\<lparr>lw_owner := Some i, lw_pcs := (lw_pcs s)(i := LwHolding p [])\<rparr>) j = LwHolding q w" for j q w
    using that other by (auto split: if_splits)
qed (use lw_inv_out [OF inv] lw_inv_calls [OF inv] free in \<open>auto simp: lw_current_def\<close>)

lemma lw_inv_byte:
  assumes inv: "lw_inv before s" and pc: "lw_pcs s i = LwHolding p w" and "length w < length p"
  shows "lw_inv before (s\<lparr>lw_out := lw_out s @ [p ! length w], lw_pcs := (lw_pcs s)(i := LwHolding p (w @ [p ! length w]))\<rparr>)"
proof (rule lw_invI)
  note owner = lw_inv_holding [OF inv pc]
  show "lw_owner (s\<lparr>lw_out := lw_out s @ [p ! length w], lw_pcs := (lw_pcs s)(i := LwHolding p (w @ [p ! length w]))\<rparr>) = Some j \<and> prefix v q"
    if "lw_pcs (s\<lparr>lw_out := lw_out s @ [p ! length w], lw_pcs := (lw_pcs s)(i := LwHolding p (w @ [p ! length w]))\<rparr>) j = LwHolding q v" for j q v
    using that lw_inv_holding [OF inv, of j q v] owner prefix_next [OF _ assms(3)] by (auto split: if_splits)
qed (use lw_inv_out [OF inv] lw_inv_calls [OF inv] lw_inv_holding [OF inv pc] pc in \<open>auto simp: lw_current_def\<close>)

lemma lw_inv_return:
  assumes inv: "lw_inv before s" and pc: "lw_pcs s i = LwHolding p w"
  shows "lw_inv before (s\<lparr>lw_owner := None, lw_pcs := (lw_pcs s)(i := LwOutside), lw_calls := lw_calls s @ [(i, p, w)]\<rparr>)"
proof (rule lw_invI)
  note owner = lw_inv_holding [OF inv pc]
  show "lw_owner (s\<lparr>lw_owner := None, lw_pcs := (lw_pcs s)(i := LwOutside), lw_calls := lw_calls s @ [(i, p, w)]\<rparr>) = Some j \<and> prefix v q"
    if "lw_pcs (s\<lparr>lw_owner := None, lw_pcs := (lw_pcs s)(i := LwOutside), lw_calls := lw_calls s @ [(i, p, w)]\<rparr>) j = LwHolding q v" for j q v
    using that lw_inv_holding [OF inv, of j q v] owner by (auto split: if_splits)
qed (use lw_inv_out [OF inv] lw_inv_calls [OF inv] lw_inv_holding [OF inv pc] pc in \<open>auto simp: lw_current_def\<close>)

lemma lw_inv_step:
  assumes "lw_inv before s" and "lw_step s s'"
  shows "lw_inv before s'"
  using assms(2)
proof (cases rule: lw_step.cases)
  case (LwCall i p)
  then show ?thesis using lw_inv_call [OF assms(1)] by (auto simp: lw_call_def split: if_splits)
next
  case (LwLock i)
  then show ?thesis using lw_inv_lock [OF assms(1)] by (auto simp: lw_lock_def split: lw_pc.splits option.splits)
next
  case (LwByte i)
  then show ?thesis using lw_inv_byte [OF assms(1)] by (auto simp: lw_byte_def split: lw_pc.splits if_splits)
next
  case (LwReturn i)
  then show ?thesis using lw_inv_return [OF assms(1)] by (auto simp: lw_return_def split: lw_pc.splits)
qed

lemma lw_inv_steps: "lw_step\<^sup>*\<^sup>* (NewLockedWriter before) s \<Longrightarrow> lw_inv before s"
proof (induction rule: rtranclp_induct)
  case base
  show ?case by (simp add: lw_inv_def lw_current_def NewLockedWriter_def)
next
  case (step s s')
  then show ?case using lw_inv_step by blast
qed

section \<open>Properties\<close>

text \<open>
  C39. Under every interleaving the output is what was there, followed by the bytes of the calls that have returned, one call
  after another in the order they returned, followed by those of the one that holds the mutex; and the
  writer never deadlocks: a waiting goroutine can lock a free mutex, and the holder can always return.
\<close>

theorem locked_writer_never_tears:
  assumes "lw_step\<^sup>*\<^sup>* (NewLockedWriter before) s"
  shows "(\<exists>current. lw_out s = before @ concat (map (snd \<circ> snd) (lw_calls s)) @ current \<and>
      (lw_owner s = None \<longrightarrow> current = []) \<and> (\<forall>i. lw_owner s = Some i \<longrightarrow> (\<exists>p. lw_pcs s i = LwHolding p current \<and> prefix current p))) \<and>
    list_all (\<lambda>(i, p, w). prefix w p) (lw_calls s) \<and>
    (\<forall>i p. lw_pcs s i = LwWaiting p \<longrightarrow> (case lw_owner s of None \<Rightarrow> lw_lock i s \<noteq> None | Some j \<Rightarrow> lw_return j s \<noteq> None))"
proof (intro conjI)
  have inv: "lw_inv before s" by (rule lw_inv_steps [OF assms])
  have held: "\<exists>p w. lw_pcs s i = LwHolding p w \<and> prefix w p" if "lw_owner s = Some i" for i
    using lw_inv_owner [OF inv that] lw_inv_holding [OF inv] by blast
  show "\<exists>current. lw_out s = before @ concat (map (snd \<circ> snd) (lw_calls s)) @ current \<and>
      (lw_owner s = None \<longrightarrow> current = []) \<and> (\<forall>i. lw_owner s = Some i \<longrightarrow> (\<exists>p. lw_pcs s i = LwHolding p current \<and> prefix current p))"
  proof (intro exI conjI)
    show "lw_out s = before @ concat (map (snd \<circ> snd) (lw_calls s)) @ lw_current s" by (rule lw_inv_out [OF inv])
    show "lw_owner s = None \<longrightarrow> lw_current s = []" by (simp add: lw_current_def)
    show "\<forall>i. lw_owner s = Some i \<longrightarrow> (\<exists>p. lw_pcs s i = LwHolding p (lw_current s) \<and> prefix (lw_current s) p)"
      using held by (force simp: lw_current_def)
  qed
  show "list_all (\<lambda>(i, p, w). prefix w p) (lw_calls s)" by (rule lw_inv_calls [OF inv])
  show "\<forall>i p. lw_pcs s i = LwWaiting p \<longrightarrow> (case lw_owner s of None \<Rightarrow> lw_lock i s \<noteq> None | Some j \<Rightarrow> lw_return j s \<noteq> None)"
    using held by (force simp: lw_lock_def lw_return_def split: option.split)
qed

text \<open>Two goroutines, the second waiting while the first writes.\<close>

definition lw_demo :: lw_state where
  "lw_demo = \<lparr>lw_owner = Some 0, lw_pcs = (\<lambda>_. LwOutside)(0 := LwHolding ''ab'' ''a'', 1 := LwWaiting ''c''), lw_out = ''a'', lw_calls = []\<rparr>"

theorem locked_writer_never_tears_witness: "lw_return 0 lw_demo \<noteq> None \<and> lw_lock 1 lw_demo = None"
proof -
  define s1 where "s1 = the (lw_call 0 ''ab'' (NewLockedWriter []))"
  define s2 where "s2 = the (lw_lock 0 s1)"
  define s3 where "s3 = the (lw_byte 0 s2)"
  note defs = s3_def s2_def s1_def lw_defs NewLockedWriter_def lw_demo_def
  have "lw_call 0 ''ab'' (NewLockedWriter []) = Some s1" by (simp add: defs)
  then have "lw_step (NewLockedWriter []) s1" by (rule LwCall)
  moreover have "lw_lock 0 s1 = Some s2" by (simp add: defs)
  then have "lw_step s1 s2" by (rule LwLock)
  moreover have "lw_byte 0 s2 = Some s3" by (simp add: defs)
  then have "lw_step s2 s3" by (rule LwByte)
  moreover have "lw_call 1 ''c'' s3 = Some lw_demo" by (simp add: defs)
  then have "lw_step s3 lw_demo" by (rule LwCall)
  ultimately have "lw_step\<^sup>*\<^sup>* (NewLockedWriter []) lw_demo"
    by (meson rtranclp.rtrancl_refl rtranclp.rtrancl_into_rtrancl)
  moreover have "lw_pcs lw_demo 1 = LwWaiting ''c''" "lw_owner lw_demo = Some 0" by (simp_all add: lw_demo_def)
  ultimately show ?thesis using locked_writer_never_tears [of "[]" lw_demo] by (force simp: lw_lock_def)
qed

text \<open>
  Lines written one after another are read back as they were written: splitting the output at newlines
  gives the payloads, as long as the encoder writes no newline inside one, which \<^verbatim>\<open>encoding/json\<close> never does.
\<close>

fun line_texts :: "string \<Rightarrow> string \<Rightarrow> string list" where
  "line_texts acc [] = (if acc = [] then [] else [acc])"
| "line_texts acc (c # cs) = (if c = char_of (10 :: nat) then acc # line_texts [] cs else line_texts (acc @ [c]) cs)"

lemma line_texts_line: "char_of (10 :: nat) \<notin> set p \<Longrightarrow> line_texts acc (p @ [char_of (10 :: nat)] @ rest) = (acc @ p) # line_texts [] rest"
  by (induction p arbitrary: acc) auto

lemma ndjson_read_back:
  assumes "\<And>v p. v \<in> set vs \<Longrightarrow> marshal v = Inr p \<Longrightarrow> char_of (10 :: nat) \<notin> set p"
    and "list_all2 (\<lambda>v p. marshal v = Inr p) vs ps"
  shows "line_texts [] (concat (map (\<lambda>v. case fst (WriteJSONLine marshal (\<lambda>_. None) v) of Some t \<Rightarrow> t | None \<Rightarrow> []) vs)) = ps"
  using assms(2,1)
proof (induction rule: list_all2_induct)
  case (Cons v vs p ps)
  then have "char_of (10 :: nat) \<notin> set p" by (metis list.set_intros(1))
  moreover have "line_texts [] (concat (map (\<lambda>v. case fst (WriteJSONLine marshal (\<lambda>_. None) v) of Some t \<Rightarrow> t | None \<Rightarrow> []) vs)) = ps"
    by (rule Cons.IH) (use Cons.prems in auto)
  ultimately show ?case using Cons.hyps(1) line_texts_line [of p "[]"] by (simp add: WriteJSONLine_def WriteJSON_def Let_def)
qed simp

end
