(* ===== verification/Integration_App.thy ===== *)
theory Integration_App
  imports Ax_Io Ax_Facade Mcp_Command Log_Core
begin

text \<open>
  The integration program \<^verbatim>\<open>examples/integration/main.go\<close>, the adopter the repository tests the library with: its
  commands with their bodies, its declarations, and its run through \<^verbatim>\<open>Execute\<close>. A body is given the context and the
  parsed flags and does what \<^verbatim>\<open>Ax_Execute\<close> lets a body do. The lemmas compose the components: a dry run of
  \<^verbatim>\<open>patch-config\<close> predicts the real one, a confirmation-gated command acts only when approved, every failure has
  its documented exit code, and the declarations are accepted.
\<close>

section \<open>Names and texts\<close>

definition defaultStreamCount :: int where "defaultStreamCount = 3"
definition appName :: string where "appName = ''ax-integration''"
definition failCommandName :: string where "failCommandName = ''fail''"
definition fetchCommandName :: string where "fetchCommandName = ''fetch''"
definition authzCommandName :: string where "authzCommandName = ''authz''"
definition crashCommandName :: string where "crashCommandName = ''crash''"
definition patchConfigCommandName :: string where "patchConfigCommandName = ''patch-config''"
definition streamCommandName :: string where "streamCommandName = ''stream''"
definition confirmCommandName :: string where "confirmCommandName = ''confirm''"
definition warnCommandName :: string where "warnCommandName = ''warn''"
definition fetchRetryAfterSeconds :: int where "fetchRetryAfterSeconds = 5"

lemmas command_names = failCommandName_def fetchCommandName_def authzCommandName_def crashCommandName_def patchConfigCommandName_def
  streamCommandName_def confirmCommandName_def warnCommandName_def

definition errSimulatedCrash :: go_error where "errSimulatedCrash = TextError ''simulated downstream component failure''"

definition agentInstructions :: string where
  "agentInstructions = ''Read the ax-integration://docs/exit-codes resource before interpreting a failed '' @
    ''tool call, then use the greet-then-stream prompt as the manual entry point.''"

definition text_line :: "string \<Rightarrow> string" where "text_line s = s @ [char_of (10 :: nat)]"

definition exitCodesDoc :: string where
  "exitCodesDoc = text_line ''ax-integration exit codes'' @ text_line ''0  success'' @ text_line ''1  unknown or internal error'' @
    text_line ''2  validation or bad input'' @ text_line ''3  network error or timeout'' @ text_line ''4  authentication or permission failure''"

section \<open>Payloads\<close>

record integrationConfig =
  ic_Name :: string
  ic_Count :: int

record helloPayload =
  hp_Greeting :: string
  hp_Name :: string
  hp_Mode :: string
  hp_EntityID :: string
  hp_Config :: "integrationConfig option"

definition config_json :: "integrationConfig \<Rightarrow> any_value" where
  "config_json c = ObjVal [(''name'', StrVal (ic_Name c)), (''count'', IntVal (ic_Count c))]"

definition hello_json :: "helloPayload \<Rightarrow> any_value" where
  "hello_json p =
    ObjVal ([(''greeting'', StrVal (hp_Greeting p)), (''name'', StrVal (hp_Name p)), (''mode'', StrVal (hp_Mode p)), (''entity_id'', StrVal (hp_EntityID p))] @
      (case hp_Config p of None \<Rightarrow> [] | Some c \<Rightarrow> [(''config'', config_json c)]))"

definition stream_json :: "int \<Rightarrow> string \<Rightarrow> any_value" where
  "stream_json i name = ObjVal [(''index'', IntVal i), (''name'', StrVal name)]"

definition patch_json :: "string \<Rightarrow> bool \<Rightarrow> any_value" where
  "patch_json path patched = ObjVal [(''path'', StrVal path), (''patched'', BoolVal patched)]"

definition confirmation_json :: "bool \<Rightarrow> any_value" where "confirmation_json b = ObjVal [(''confirmed'', BoolVal b)]"
definition warn_json :: "string \<Rightarrow> any_value" where "warn_json status = ObjVal [(''status'', StrVal status)]"

section \<open>What the bodies depend on\<close>

text \<open>
  The encoder, the answers of stdout and of stderr to a write, what reading a line of stdin gives, the
  identifier, the configuration file system with the Hujson library, and the parsed flags.
\<close>

record 'ast app_env =
  ae_isprint :: "nat \<Rightarrow> bool"
  ae_marshal :: "any_value \<Rightarrow> go_error + string"
  ae_stdout :: "string \<Rightarrow> go_error option"
  ae_stderr :: "string \<Rightarrow> go_error option"
  ae_response :: "string \<times> go_error option"
  ae_entity :: "go_error + string"
  ae_hujson :: "'ast hujson"
  ae_decode :: "string \<Rightarrow> go_error + integrationConfig"
  ae_ctx_err :: "nat \<Rightarrow> go_error option"
  ae_read :: "string read_fun"
  ae_stdin :: string
  ae_faults :: faults
  ae_tmp :: string
  ae_files :: fs
  ae_name :: string
  ae_config :: string
  ae_patch :: string
  ae_count :: int

definition root_NewEnvelope :: "gctx \<Rightarrow> any_value \<Rightarrow> any_value Envelope" where
  "root_NewEnvelope ctx d = NewEnvelope (Some (withTraceMetadata (Some ctx))) d"

definition fails :: "go_error \<Rightarrow> act_result" where
  "fails e = \<lparr>a_out = [], a_warnings = [], a_err = Some e\<rparr>"

definition ok_result :: act_result where "ok_result = \<lparr>a_out = [], a_warnings = [], a_err = None\<rparr>"

text \<open>\<^verbatim>\<open>ax.WriteJSON\<close> of an envelope to the command's stdout.\<close>

definition emit :: "'ast app_env \<Rightarrow> any_value Envelope \<Rightarrow> act_result" where
  "emit env e =
    (case WriteJSON (ae_marshal env) (ae_stdout env) (envelope_json e) of
       (text, err) \<Rightarrow> \<lparr>a_out = (case text of Some t \<Rightarrow> t | None \<Rightarrow> []), a_warnings = [], a_err = err\<rparr>)"

section \<open>The confirmation-gated command\<close>

text \<open>\<^verbatim>\<open>strings.EqualFold\<close> with an ASCII word.\<close>

definition equal_fold :: "string \<Rightarrow> string \<Rightarrow> bool" where
  "equal_fold s t \<longleftrightarrow> fold_name s = fold_name t"

text \<open>The question and what becomes of the answer.\<close>

definition promptForConfirmation :: "'ast app_env \<Rightarrow> string \<Rightarrow> string \<times> (go_error + bool)" where
  "promptForConfirmation env subject =
    (let question = subject @ ''? [y/N] '' in
     (question,
      case ae_stderr env question of
        Some e \<Rightarrow> Inl (WrapError ''write confirmation prompt'' e)
      | None \<Rightarrow>
          (case ae_response env of
             (response, err) \<Rightarrow>
               (case err of
                  Some e \<Rightarrow> if errors_is e EOF then Inr (let r = trim_space response in equal_fold r ''y'' \<or> equal_fold r ''yes'')
                            else Inl (WrapError ''read confirmation response'' e)
                | None \<Rightarrow> Inr (let r = trim_space response in equal_fold r ''y'' \<or> equal_fold r ''yes'')))))"

definition confirm_subject :: string where "confirm_subject = ''run the confirmation-gated integration operation''"

text \<open>The effect returns nil, so \<^verbatim>\<open>Guard\<close> never panics and never fails; the result has the text written to stderr.\<close>

definition confirmed_result :: "'ast app_env \<Rightarrow> gctx \<Rightarrow> act_result" where
  "confirmed_result env ctx =
    (case run_outcome (Guard (ae_isprint env) (Some (WithAudit ctx False)) (Some (\<lambda>_ w. (outcome.Returned None, w))) ()) of
       outcome.Returned (confirmed, None) \<Rightarrow> emit env (root_NewEnvelope ctx (confirmation_json confirmed))
     | outcome.Returned (confirmed, Some e) \<Rightarrow> fails e
     | outcome.Panicked p \<Rightarrow> fails (TextError p))"

definition confirm_RunE :: "'ast app_env \<Rightarrow> gctx \<Rightarrow> act_result \<times> string" where
  "confirm_RunE env ctx =
    (case Confirm (Some ctx) confirm_subject of
       (outcome, Some e) \<Rightarrow> (fails (as_error e), [])
     | (outcome, None) \<Rightarrow>
         (if outcome = ConfirmationPromptRequired then
            (case promptForConfirmation env confirm_subject of
               (asked, Inl e) \<Rightarrow> (fails e, asked)
             | (asked, Inr False) \<Rightarrow> (emit env (root_NewEnvelope ctx (confirmation_json False)), asked)
             | (asked, Inr True) \<Rightarrow> (confirmed_result env ctx, asked))
          else (confirmed_result env ctx, [])))"

section \<open>The other commands\<close>

definition sample_warning :: Warning where "sample_warning = \<lparr>w_Code = ''sample_warning'', w_Message = ''sample finding''\<rparr>"

definition warn_RunE :: "'ast app_env \<Rightarrow> gctx \<Rightarrow> act_result" where
  "warn_RunE env ctx = (emit env (WithWarnings (root_NewEnvelope ctx (warn_json ''ok'')) [sample_warning]))\<lparr>a_warnings := [[sample_warning]]\<rparr>"

fun stream_items :: "'ast app_env \<Rightarrow> gctx \<Rightarrow> int list \<Rightarrow> act_result" where
  "stream_items env ctx [] = ok_result"
| "stream_items env ctx (i # is) =
    (let r = emit env (root_NewEnvelope ctx (stream_json i (ae_name env))) in
     case a_err r of
       Some e \<Rightarrow> r\<lparr>a_err := Some (WrapError ''write stream item'' e)\<rparr>
     | None \<Rightarrow> (let rest = stream_items env ctx is in rest\<lparr>a_out := a_out r @ a_out rest\<rparr>))"

definition stream_RunE :: "'ast app_env \<Rightarrow> gctx \<Rightarrow> act_result" where
  "stream_RunE env ctx =
    (if ae_count env < 0 then
       fails (as_error (root_NewError (Some ctx) ''validation_error'' ''count must be greater than or equal to zero''
         [WithActionableFix ''pass --count with a non-negative integer'', WithErrorExitCode ExitValidation]))
     else stream_items env ctx (map int [0..<nat (ae_count env)]))"

text \<open>The dry-run rehearsal of \<^verbatim>\<open>patch-config\<close>, on the file system.\<close>

definition rehearsePatchConfig :: "'ast app_env \<Rightarrow> gctx \<Rightarrow> fs \<Rightarrow> go_error option" where
  "rehearsePatchConfig env ctx f =
    (case os_open (ae_faults env) (ae_config env) f of
       Inl e \<Rightarrow> Some e
     | Inr contents \<Rightarrow>
         (case PatchConfig (ae_hujson env) (ae_ctx_err env) (ae_read env) (Some ctx) contents (ae_patch env) [] of
            Inl e \<Rightarrow> Some e
          | Inr _ \<Rightarrow> None))"

definition patch_effects :: "'ast app_env \<Rightarrow> gctx \<Rightarrow> (go_error option, fs) run" where
  "patch_effects env ctx =
    Perform (ae_isprint env) (Some ctx)
      (Some (\<lambda>c f. (outcome.Returned (rehearsePatchConfig env c f), f)))
      (Some (\<lambda>c f. (case PatchConfigFile (ae_hujson env) (ae_ctx_err env) (ae_read env) (ae_faults env) (ae_tmp env) (Some c) (ae_config env) (ae_patch env) [] f of
         (err, f') \<Rightarrow> (outcome.Returned err, f'))))
      (ae_files env)"

text \<open>Neither callback panics.\<close>

definition patchConfig_RunE :: "'ast app_env \<Rightarrow> gctx \<Rightarrow> act_result \<times> fs" where
  "patchConfig_RunE env ctx =
    (if ae_config env = [] \<or> ae_patch env = [] then
       (fails (as_error (root_NewError (Some ctx) ''validation_error'' ''both --config and --patch are required''
         [WithActionableFix ''pass --config with a Hujson file path and --patch with an RFC 6902 JSON array'', WithErrorExitCode ExitValidation])),
        ae_files env)
     else
       (let run = patch_effects env ctx in
        case run_outcome run of
          outcome.Returned None \<Rightarrow> (emit env (root_NewEnvelope ctx (patch_json (ae_config env) True)), run_world run)
        | outcome.Returned (Some e) \<Rightarrow> (fails e, run_world run)
        | outcome.Panicked p \<Rightarrow> (fails (TextError p), run_world run)))"

definition fail_RunE :: "gctx \<Rightarrow> act_result" where
  "fail_RunE ctx =
    fails (as_error (root_NewError (Some ctx) ''integration_failure'' ''intentional integration failure''
      [WithActionableFix ''run a non-failing subcommand'', WithErrorContext [(''example'', StrVal failCommandName)], WithRetryable False,
       WithErrorExitCode ExitValidation]))"

definition fetch_RunE :: "gctx \<Rightarrow> act_result" where
  "fetch_RunE ctx =
    fails (as_error (root_NewError (Some ctx) ''upstream_unreachable'' ''upstream service did not respond within the timeout''
      [WithActionableFix ''retry after the backoff window or check upstream health'', WithRetryable True,
       WithRetryAfterSeconds fetchRetryAfterSeconds, WithErrorExitCode ExitNetwork]))"

definition authz_RunE :: "gctx \<Rightarrow> act_result" where
  "authz_RunE ctx =
    fails (as_error (root_NewError (Some ctx) ''permission_denied'' ''the supplied credentials lack permission for this action''
      [WithActionableFix ''re-authenticate or request access to the resource'', WithRetryable False, WithErrorExitCode ExitAuth]))"

definition crash_RunE :: "gctx \<Rightarrow> act_result" where
  "crash_RunE ctx = fails (WrapError ''processing the request'' errSimulatedCrash)"

section \<open>The root command\<close>

text \<open>\<^verbatim>\<open>ctx.Err()\<close> before reading is \<^term>\<open>done\<close>.\<close>

definition readConfig :: "'ast app_env \<Rightarrow> go_error option \<Rightarrow> gctx \<Rightarrow> go_error + integrationConfig option" where
  "readConfig env done ctx =
    (if ae_config env = [] then Inr None
     else
       (case done of
          Some e \<Rightarrow> Inl (WrapError ''read config canceled'' e)
        | None \<Rightarrow>
            if ae_config env = ''-'' then
              (case ParseConfig (ae_hujson env) (ae_decode env) (ae_ctx_err env) (ae_read env) (Some ctx) (ae_stdin env) [] of
                 Inl e \<Rightarrow> Inl (WrapError ''parse stdin config'' e)
               | Inr c \<Rightarrow> Inr (Some c))
            else
              (case ParseConfigFile (ae_hujson env) (ae_decode env) (ae_ctx_err env) (ae_read env) (ae_faults env) (Some ctx) (ae_config env) [] (ae_files env) of
                 Inl e \<Rightarrow> Inl (WrapError ''parse config'' e)
               | Inr c \<Rightarrow> Inr (Some c))))"

text \<open>
  The root's body: a logger for stderr with the labels of the program and the Loki option, then the payload.
  The result has the logger that \<^verbatim>\<open>flush\<close> drains and the state of the log.
\<close>

definition hello_logger ::
  "log_env \<Rightarrow> log_option \<Rightarrow> nat \<Rightarrow> string \<Rightarrow> log_ctx \<Rightarrow> log_state \<Rightarrow> zerologLogger \<times> log_state" where
  "hello_logger lenv loki stderr version lctx st =
    log_New lenv (Some lctx)
      [Some (log_WithWriter stderr), Some (log_WithLabels (no_labels\<lparr>Application := appName, LVersion := version\<rparr>)), Some loki] st"

definition root_RunE ::
  "'ast app_env \<Rightarrow> go_error option \<Rightarrow> gctx \<Rightarrow> (log_state \<Rightarrow> zerologLogger \<times> log_state) \<Rightarrow>
   (zerologLogger \<Rightarrow> (string \<times> string) list \<Rightarrow> string \<Rightarrow> log_state \<Rightarrow> log_state) \<Rightarrow> log_state \<Rightarrow> act_result \<times> any_logger \<times> log_state" where
  "root_RunE env done ctx new_logger info st =
    (case new_logger st of
       (logger, st1) \<Rightarrow>
         (case ae_entity env of
            Inl e \<Rightarrow> (fails (WrapError ''create entity id'' e), OurLogger logger, st1)
          | Inr entity \<Rightarrow>
              (case readConfig env done ctx of
                 Inl e \<Rightarrow> (fails e, OurLogger logger, st1)
               | Inr cfg \<Rightarrow>
                   (emit env (root_NewEnvelope ctx (hello_json
                      \<lparr>hp_Greeting = ''hello'', hp_Name = ae_name env, hp_Mode = fst (ModeFromContext ctx), hp_EntityID = entity, hp_Config = cfg\<rparr>)),
                    OurLogger logger,
                    info logger [(''event'', ''integration_run''), (''name'', ae_name env)] ''integration example ran'' st1))))"

text \<open>The flush function; no run of the root command means no logger.\<close>

definition integration_flush :: "log_env \<Rightarrow> any_logger \<Rightarrow> log_state \<Rightarrow> go_error option \<times> log_state" where
  "integration_flush lenv logger st = log_Flush lenv logger st"

text \<open>The tree of \<^verbatim>\<open>newRootCommand\<close>, without hooks of its own.\<close>

definition app_leaf :: "nat \<Rightarrow> string \<Rightarrow> 'c cnode" where "app_leaf i name = CNode i name None None False []"

definition newRootCommand :: "'c cnode" where
  "newRootCommand =
    CNode 0 appName None None False
      [app_leaf 1 streamCommandName, app_leaf 2 patchConfigCommandName, app_leaf 3 failCommandName, app_leaf 4 fetchCommandName, app_leaf 5 authzCommandName,
       app_leaf 6 crashCommandName, app_leaf 7 confirmCommandName, app_leaf 8 warnCommandName, app_leaf 9 ServerCommandName]"

section \<open>Declarations\<close>

definition greet_prompt :: Prompt where
  "greet_prompt =
    \<lparr>p_Name = ''greet-then-stream'', p_Title = ''Greet, then stream'',
     p_Description = ''Produce one greeting envelope, then a short NDJSON stream for the same name.'',
     p_Arguments = [\<lparr>a_Name = ''name'', a_Title = [], a_Description = ''name to greet'', a_Required = True\<rparr>],
     p_Template = ''Run `ax-integration --format=json --name {{name}}`, then '' @
       ''`ax-integration stream --format=json --count=3 --name {{name}}`.''\<rparr>"

definition exit_codes_resource :: Resource where
  "exit_codes_resource =
    \<lparr>r_URI = ''ax-integration://docs/exit-codes'', r_Name = ''exit-codes'', r_Title = ''Exit codes'',
     r_Description = ''0 success, 1 internal, 2 validation, 3 network or timeout, 4 auth or permission.'',
     r_MIMEType = ''text/plain'', r_Content = exitCodesDoc\<rparr>"

definition declareAgentContext :: "(nat \<Rightarrow> bool) \<Rightarrow> (string \<Rightarrow> string option) \<Rightarrow> annotations option \<Rightarrow> go_error option \<times> annotations option" where
  "declareAgentContext isprint url_parse root =
    (case DeclarePrompt isprint enc_prompts dec_prompts root greet_prompt of
       (Some e, root1) \<Rightarrow> (Some (as_error e), root1)
     | (None, root1) \<Rightarrow>
         (case DeclareResource isprint url_parse enc_resources dec_resources root1 exit_codes_resource of
            (e, root2) \<Rightarrow> (map_option as_error e, root2)))"

text \<open>
  A command of the tree has flag sets and annotations; a name that is not in the tree is a nil command. All
  declarations run, and their errors are joined.
\<close>

record 's app_tree =
  at_store :: "'s store"
  at_flags :: "string \<Rightarrow> flag_sets option"
  at_root :: "annotations option"
  at_commands :: "string \<Rightarrow> annotations option"

definition declare_capability :: "(nat \<Rightarrow> bool) \<Rightarrow> string \<Rightarrow> string \<Rightarrow> string \<Rightarrow> 's app_tree \<Rightarrow> ax_error option \<times> 's app_tree" where
  "declare_capability isprint name class remark t =
    (case DeclareCapability isprint (at_commands t name) class remark of
       (e, anns) \<Rightarrow> (e, t\<lparr>at_commands := (at_commands t)(name := anns)\<rparr>))"

definition declare_root_capability :: "(nat \<Rightarrow> bool) \<Rightarrow> string \<Rightarrow> string \<Rightarrow> 's app_tree \<Rightarrow> ax_error option \<times> 's app_tree" where
  "declare_root_capability isprint class remark t =
    (case DeclareCapability isprint (at_root t) class remark of (e, anns) \<Rightarrow> (e, t\<lparr>at_root := anns\<rparr>))"

definition declare_count :: "(nat \<Rightarrow> bool) \<Rightarrow> 's app_tree \<Rightarrow> ax_error option \<times> 's app_tree" where
  "declare_count isprint t =
    (case DeclareFlagEnum isprint (at_store t) (at_flags t streamCommandName) ''count'' [''1'', ''2'', ''3'', ''5'', ''10''] of
       (e, st) \<Rightarrow> (e, t\<lparr>at_store := st\<rparr>))"

definition declare_patch :: "(nat \<Rightarrow> bool) \<Rightarrow> 'f parsers \<Rightarrow> 's app_tree \<Rightarrow> ax_error option \<times> 's app_tree" where
  \<open>declare_patch isprint penv t =
    (case DeclareFlagExample isprint penv (at_store t) (at_flags t patchConfigCommandName) ''patch''
            ''[{"op":"replace","path":"/name","value":"Ada"}]'' of
       (e, st) \<Rightarrow> (e, t\<lparr>at_store := st\<rparr>))\<close>

fun declare_all :: "('t \<Rightarrow> ax_error option \<times> 't) list \<Rightarrow> 't \<Rightarrow> go_error list \<times> 't" where
  "declare_all [] t = ([], t)"
| "declare_all (d # ds) t =
    (case d t of (e, t1) \<Rightarrow> (case declare_all ds t1 of (es, t2) \<Rightarrow> ((case e of None \<Rightarrow> es | Some x \<Rightarrow> as_error x # es), t2)))"

definition declareCommandSemantics :: "(nat \<Rightarrow> bool) \<Rightarrow> 'f parsers \<Rightarrow> 's app_tree \<Rightarrow> go_error option \<times> 's app_tree" where
  "declareCommandSemantics isprint penv t =
    (case declare_all
       [declare_count isprint, declare_patch isprint penv,
        declare_root_capability isprint ''read-only'' [],
        declare_capability isprint streamCommandName ''read-only'' [],
        declare_capability isprint patchConfigCommandName ''mutate'' ''rewrites the file in place, preserving comments'',
        declare_capability isprint fetchCommandName ''external-network'' [],
        declare_capability isprint failCommandName ''read-only'' [],
        declare_capability isprint authzCommandName ''read-only'' [],
        declare_capability isprint crashCommandName ''read-only'' [],
        declare_capability isprint confirmCommandName ''mutate'' ''confirmation-gated; requires --yes or an interactive yes''] t of
       (es, t') \<Rightarrow> (map_option (WrapError ''declare command semantics'') (errors_Join es), t'))"

section \<open>The run\<close>

definition integration_body :: "'ast app_env \<Rightarrow> (gctx \<Rightarrow> act_result) \<Rightarrow> string \<Rightarrow> gctx \<Rightarrow> act_result" where
  "integration_body env hello name ctx =
    (if name = streamCommandName then stream_RunE env ctx
     else if name = patchConfigCommandName then fst (patchConfig_RunE env ctx)
     else if name = failCommandName then fail_RunE ctx
     else if name = fetchCommandName then fetch_RunE ctx
     else if name = authzCommandName then authz_RunE ctx
     else if name = crashCommandName then crash_RunE ctx
     else if name = confirmCommandName then fst (confirm_RunE env ctx)
     else if name = warnCommandName then warn_RunE env ctx
     else hello ctx)"

text \<open>A declaration error is stamped with tool and version; the envelope written is that of the first \<^verbatim>\<open>*ax.Error\<close> in it.\<close>

definition stamped :: "string \<Rightarrow> go_error \<Rightarrow> go_error" where
  "stamped resolved e =
    (case errors_as is_ax_error e of
       Some (AxError f c) \<Rightarrow> AxError (f\<lparr>Tool := appName, Version := resolved\<rparr>) c
     | _ \<Rightarrow> e)"

text \<open>Cobra selects the command \<^term>\<open>name\<close>; a refused declaration is the whole run.\<close>

definition runWithEntityID ::
  "process \<Rightarrow> exec_app \<Rightarrow> (any_value \<Rightarrow> go_error + string) \<Rightarrow> (string \<Rightarrow> go_error option) \<Rightarrow> (string \<Rightarrow> gctx \<Rightarrow> act_result) \<Rightarrow> string \<Rightarrow>
   go_error option \<Rightarrow> execute_option list \<Rightarrow> string \<Rightarrow> string list \<Rightarrow> flag_map \<times> flag_map \<Rightarrow> xstate \<Rightarrow>
   (string option \<times> go_error option) option \<times> int option \<times> xstate" where
  "runWithEntityID pr app enc write_stderr bodies name declErr streams resolved args flags s =
    (case declErr of
       Some e \<Rightarrow> (Some (WriteError (ap_isprint app) enc write_stderr (Some (stamped resolved e))), Some (ErrorExitCode (Some e)), s)
     | None \<Rightarrow> (None, execute_with pr (app\<lparr>ap_body := bodies name\<rparr>) (streams @ [exec_WithVersion resolved]) args (newRootCommand, flags) s))"

section \<open>Lemmas\<close>

lemma root_trace_dry_run [simp]:
  "TraceIDFromContext (Some (withTraceMetadata (Some (WithDryRun ctx b)))) = TraceIDFromContext (Some (withTraceMetadata (Some ctx)))"
  by (simp add: TraceIDFromContext_def MetadataFromContext_fields withTraceMetadata_def traceIDs_def ctx_defs Let_def)

lemma NewError_dry_run [simp]:
  "NewError (Some (withTraceMetadata (Some (WithDryRun ctx b)))) = NewError (Some (withTraceMetadata (Some ctx)))"
  "root_NewError (Some (WithDryRun ctx b)) = root_NewError (Some ctx)"
  by (simp_all add: NewError_def root_NewError_def fun_eq_iff)

lemma PatchConfig_dry_run [simp]:
  "PatchConfig hj ctx_err reads (Some (WithDryRun ctx b)) r patch [] = PatchConfig hj ctx_err reads (Some ctx) r patch []"
proof -
  have "normalizeReadError (withTraceMetadata (Some (WithDryRun ctx b))) = normalizeReadError (withTraceMetadata (Some ctx))"
    "normalizePatchError (withTraceMetadata (Some (WithDryRun ctx b))) = normalizePatchError (withTraceMetadata (Some ctx))"
    unfolding normalizeReadError_def [abs_def] normalizePatchError_def [abs_def] NewError_dry_run by (rule refl)+
  then show ?thesis by (simp add: PatchConfig_def Patch_def applyOptions_def Let_def split: sum.split)
qed

lemma PatchConfigFile_dry_run [simp]:
  "PatchConfigFile hj ctx_err reads fl tmp (Some (WithDryRun ctx b)) path patch [] f = PatchConfigFile hj ctx_err reads fl tmp (Some ctx) path patch [] f"
  by (simp add: PatchConfigFile_def PatchFile_def Let_def PatchConfig_dry_run [unfolded PatchConfig_def] split: sum.split)

lemma dry_run_of [simp]: "DryRunFromContext (WithDryRun ctx b) = b"
  by (simp add: DryRunFromContext_def WithDryRun_def)

text \<open>Where the dry run and the real run of the effects agree, when \<^verbatim>\<open>Stat\<close> fails exactly as \<^verbatim>\<open>Open\<close> does.\<close>

lemma commit_after_rehearsal:
  assumes "stat_err (ae_faults env) = open_err (ae_faults env)"
  shows "PatchConfigFile (ae_hujson env) (ae_ctx_err env) (ae_read env) (ae_faults env) (ae_tmp env) (Some ctx) (ae_config env) (ae_patch env) [] f =
    (case rehearsePatchConfig env ctx f of
       Some e \<Rightarrow> (Some e, f)
     | None \<Rightarrow>
         (case (f (ae_config env), PatchConfig (ae_hujson env) (ae_ctx_err env) (ae_read env) (Some ctx) (fst (the (f (ae_config env)))) (ae_patch env) []) of
            (Some (old, mode), Inr patched) \<Rightarrow> atomicWriteFile (ae_faults env) (ae_tmp env) (ae_config env) patched mode f
          | _ \<Rightarrow> (None, f)))"
  using assms by (auto simp: PatchConfigFile_def PatchFile_def rehearsePatchConfig_def PatchConfig_def os_stat_def os_open_def Let_def split: option.splits sum.splits)

lemma patch_effects_outcome:
  "run_outcome (patch_effects env (WithDryRun ctx True)) = outcome.Returned (rehearsePatchConfig env ctx (ae_files env))"
  "run_world (patch_effects env (WithDryRun ctx True)) = ae_files env"
  "run_outcome (patch_effects env (WithDryRun ctx False)) = outcome.Returned (fst (PatchConfigFile (ae_hujson env) (ae_ctx_err env) (ae_read env) (ae_faults env)
      (ae_tmp env) (Some ctx) (ae_config env) (ae_patch env) [] (ae_files env)))"
  "run_world (patch_effects env (WithDryRun ctx False)) = snd (PatchConfigFile (ae_hujson env) (ae_ctx_err env) (ae_read env) (ae_faults env)
      (ae_tmp env) (Some ctx) (ae_config env) (ae_patch env) [] (ae_files env))"
proof -
  show "run_outcome (patch_effects env (WithDryRun ctx True)) = outcome.Returned (rehearsePatchConfig env ctx (ae_files env))"
    "run_world (patch_effects env (WithDryRun ctx True)) = ae_files env"
    by (auto simp: patch_effects_def Perform_def perform_def run_defs rehearsePatchConfig_def split: option.splits sum.splits)
  let ?com = "\<lambda>c f. (case PatchConfigFile (ae_hujson env) (ae_ctx_err env) (ae_read env) (ae_faults env) (ae_tmp env) (Some c) (ae_config env) (ae_patch env) [] f of
         (err, f') \<Rightarrow> (outcome.Returned err, f'))"
  have "(run_outcome (patch_effects env (WithDryRun ctx False)), run_world (patch_effects env (WithDryRun ctx False))) = ?com (WithDryRun ctx False) (ae_files env)"
    using runAudited_transparent [of "ae_isprint env" "WithDryRun ctx False" "''Perform''" "[]" "''commit''" ?com "ae_files env"]
    by (simp add: patch_effects_def Perform_def perform_def)
  then show "run_outcome (patch_effects env (WithDryRun ctx False)) = outcome.Returned (fst (PatchConfigFile (ae_hujson env) (ae_ctx_err env) (ae_read env) (ae_faults env)
      (ae_tmp env) (Some ctx) (ae_config env) (ae_patch env) [] (ae_files env)))"
    "run_world (patch_effects env (WithDryRun ctx False)) = snd (PatchConfigFile (ae_hujson env) (ae_ctx_err env) (ae_read env) (ae_faults env)
      (ae_tmp env) (Some ctx) (ae_config env) (ae_patch env) [] (ae_files env))"
    by (auto split: prod.splits)
qed

lemma emit_ok:
  assumes "\<And>v. \<exists>p. ae_marshal env v = Inr p" and "\<And>t. ae_stdout env t = None"
  shows "a_err (emit env e) = None"
proof -
  obtain p where "ae_marshal env (envelope_json e) = Inr p" using assms(1) by blast
  then show ?thesis using assms(2) by (simp add: emit_def WriteJSON_def Let_def)
qed

lemma stream_items_ok:
  assumes "\<And>v. \<exists>p. ae_marshal env v = Inr p" and "\<And>t. ae_stdout env t = None"
  shows "stream_items env ctx is =
    \<lparr>a_out = concat (map (\<lambda>i. a_out (emit env (root_NewEnvelope ctx (stream_json i (ae_name env))))) is), a_warnings = [], a_err = None\<rparr>"
proof (induction "is")
  case (Cons i "is")
  have "a_err (emit env (root_NewEnvelope ctx (stream_json i (ae_name env)))) = None" by (rule emit_ok [OF assms])
  then show ?case using Cons by (simp add: Let_def)
qed (simp add: ok_result_def)

lemma confirmed_result_eq: "confirmed_result env ctx = emit env (root_NewEnvelope ctx (confirmation_json (\<not> DryRunFromContext ctx)))"
  by (simp add: confirmed_result_def Guard_def guard_def runAudited_def run_defs WithAudit_def DryRunFromContext_def AuditEnabledFromContext_def)

lemma greet_prompt_ok: "prompt_ok greet_prompt"
proof -
  have t: "set (templatePlaceholders (p_Template greet_prompt)) \<subseteq> {''name''}" unfolding greet_prompt_def by code_simp
  have "valid_utf8 (p_Template greet_prompt)" "valid_utf8 (p_Title greet_prompt)" "valid_utf8 (p_Description greet_prompt)" "valid_utf8 []" "valid_utf8 ''name to greet''"
    by (rule valid_utf8_ascii; simp add: greet_prompt_def byte_def)+
  moreover have "validName ''greet-then-stream''" "validName ''name''" by (simp_all add: validName_iff isNameRune_def byte_def)
  ultimately show ?thesis using t by (simp add: prompt_ok_def greet_prompt_def argument_ok_def)
qed

lemma no_control_ascii: "\<forall>c \<in> set s. 32 < byte c \<and> byte c < 127 \<Longrightarrow> \<not> contains_func isControlOrSpace s \<and> \<not> contains_func is_control s"
proof -
  assume printable: "\<forall>c \<in> set s. 32 < byte c \<and> byte c < 127"
  then have "rune_chunks s = map (\<lambda>c. (byte c, [c])) s" by (intro rune_chunks_all_ascii) auto
  then have "set (runes s) = byte ` set s" by (simp add: runes_def)
  moreover have "\<not> isControlOrSpace (byte c) \<and> \<not> is_control (byte c)" if "c \<in> set s" for c
    using printable that by (fastforce simp: isControlOrSpace_def is_space_def is_control_def)
  ultimately show ?thesis by (auto simp: contains_func_def list_ex_iff)
qed

lemma exit_codes_resource_ok:
  assumes "url_parse ''ax-integration://docs/exit-codes'' = Some ''ax-integration''"
  shows "resource_ok url_parse exit_codes_resource"
proof -
  have "valid_utf8 (r_URI exit_codes_resource)" "valid_utf8 (r_Name exit_codes_resource)" "valid_utf8 (r_Title exit_codes_resource)"
    "valid_utf8 (r_Description exit_codes_resource)" "valid_utf8 (r_MIMEType exit_codes_resource)" "valid_utf8 (r_Content exit_codes_resource)"
    by (rule valid_utf8_ascii; simp add: exit_codes_resource_def exitCodesDoc_def text_line_def byte_def)+
  moreover have "\<not> contains_func isControlOrSpace (r_URI exit_codes_resource)" "\<not> contains_func is_control (r_MIMEType exit_codes_resource)"
    using no_control_ascii [of "r_URI exit_codes_resource"] no_control_ascii [of "r_MIMEType exit_codes_resource"]
    by (simp_all add: exit_codes_resource_def byte_def)
  ultimately show ?thesis using assms by (simp add: resource_ok_def exit_codes_resource_def exitCodesDoc_def text_line_def)
qed

section \<open>Properties\<close>


definition demo_app :: "string app_env" where
  "demo_app =
    \<lparr>ae_isprint = (\<lambda>_. True), ae_marshal = (\<lambda>_. Inr ''{}''), ae_stdout = (\<lambda>_. None), ae_stderr = (\<lambda>_. None), ae_response = (''y'', Some EOF),
     ae_entity = Inr ''e'', ae_hujson = plain_hujson, ae_decode = (\<lambda>_. Inr \<lparr>ic_Name = [], ic_Count = 0\<rparr>), ae_ctx_err = (\<lambda>_. None), ae_read = file_read,
     ae_stdin = [], ae_faults = failing_rename\<lparr>rename_err := None\<rparr>, ae_tmp = ''t'', ae_files = [''c'' \<mapsto> (''old'', 420)], ae_name = ''n'', ae_config = ''c'',
     ae_patch = ''new'', ae_count = 3\<rparr>"


text \<open>
  The confirmation-gated command: approved, or asked for in human mode and answered with yes, it runs, and reports that it did
  unless it is a dry run; otherwise it reports that it did not, or is refused with exit code 2 and no output.
\<close>

theorem confirm_command_decision:
  "fst (confirm_RunE env ctx) =
    (if ApprovalFromContext ctx then emit env (root_NewEnvelope ctx (confirmation_json (\<not> DryRunFromContext ctx)))
     else if ModeFromContext ctx = (ModeHuman, True) then
       (case snd (promptForConfirmation env confirm_subject) of
          Inl e \<Rightarrow> fails e
        | Inr yes \<Rightarrow> emit env (root_NewEnvelope ctx (confirmation_json (yes \<and> \<not> DryRunFromContext ctx))))
     else fails (as_error (confirm_error ctx confirm_subject))) \<and>
   ErrorExitCode (Some (as_error (confirm_error ctx confirm_subject))) = ExitValidation"
  by (cases "snd (promptForConfirmation env confirm_subject)")
    (auto simp: confirm_RunE_def Confirm_unfold confirmed_result_eq confirm_error_fields ModeFromContext_def split: prod.splits bool.splits option.splits)

text \<open>Every failing command has the exit code its comment and the exit-codes resource give it.\<close>

theorem failing_commands_exit:
  "map (\<lambda>r. ErrorExitCode (a_err r)) [fail_RunE ctx, fetch_RunE ctx, authz_RunE ctx, crash_RunE ctx] =
    [ExitValidation, ExitNetwork, ExitAuth, ExitInternal]"
  by (simp add: fail_RunE_def fetch_RunE_def authz_RunE_def crash_RunE_def fails_def root_NewError_def NewError_def as_error_def ExitCode_def option_defs
      exit_defs ErrorExitCode_def errors_as_def errors_is_def is_ax_error_def errSimulatedCrash_def)

text \<open>The declarations of the program are accepted, and projected as declared.\<close>

theorem agent_context_accepted:
  assumes "url_parse ''ax-integration://docs/exit-codes'' = Some ''ax-integration''"
  shows "\<exists>anns. declareAgentContext isprint url_parse (Some Map.empty) = (None, Some anns) \<and>
    Prompts dec_prompts anns = [greet_prompt] \<and> Resources url_parse dec_resources anns = [exit_codes_resource]"
proof -
  have prompt: "ValidatePrompt greet_prompt = None" by (simp add: ValidatePrompt_None greet_prompt_ok)
  have resource: "ValidateResource url_parse exit_codes_resource = None" using assms by (simp add: ValidateResource_None exit_codes_resource_ok)
  let ?anns = "[promptsAnnotationKey \<mapsto> enc_prompts [greet_prompt], resourcesAnnotationKey \<mapsto> enc_resources [exit_codes_resource]]"
  have "promptsAnnotationKey \<noteq> resourcesAnnotationKey" by (simp add: promptsAnnotationKey_def resourcesAnnotationKey_def)
  then have "declareAgentContext isprint url_parse (Some Map.empty) = (None, Some ?anns)"
    "Prompts dec_prompts ?anns = [greet_prompt]" "Resources url_parse dec_resources ?anns = [exit_codes_resource]"
    using prompt resource prompt_codec.decode_encode [of "[greet_prompt]"] resource_codec.decode_encode [of "[exit_codes_resource]" url_parse]
    by (simp_all add: declareAgentContext_def DeclarePrompt_def DeclareResource_def AddPrompt_def AddResource_def addDeclaration_def decodeValid_def
        declarationError_def Prompts_def Resources_def)
  then show ?thesis by blast
qed

end
