(* ===== verification/Spec2Isabelle.thy ===== *)
theory Spec2Isabelle
  imports Schema_Template Ax_Guard Loki_Writer Schema_Json Schema_Enum Mcp_Prompts Ax_Config Ax_Execute Mcp_Server Llms_Txt Cover_Check Api_Verdict Surface_Audit Surface_Fields Log_Core Ax_Telemetry Doc_Cover Bench_Check Size_Check Unread_Run Dead_Check Test_Determinism Test_Errorcodes Mcp_Command Ax_Facade Surface_Collect Loki_Drain Ax_Io Integration_App
begin

text \<open>
  ax-go is a library for command-line tools that agents drive: \<^verbatim>\<open>ax.Execute\<close> runs a Cobra command tree with output
  modes, agent-safety flags, error envelopes, telemetry and logging; the tree describes itself with \<^verbatim>\<open>__schema\<close> and
  as an MCP server; and the repository carries the gates that keep the library compatible. This development models
  that code function by function. Each theory opens with what it holds; this is the map of the whole.

  \<^bold>\<open>How the parts interact.\<close> \<^verbatim>\<open>Execute\<close> prepares a tree (flags, \<^verbatim>\<open>__schema\<close>, wrapped hooks), starts telemetry, runs the
  command and maps its result to an exit code and an envelope on stderr. The prepared hook of a command puts mode,
  dry-run, approval and idempotency key into the context that \<^verbatim>\<open>Guard\<close>, \<^verbatim>\<open>Perform\<close>, \<^verbatim>\<open>Confirm\<close> and the envelopes read.
  Declarations on commands (prompts, resources, enums, examples, capabilities) are JSON annotations; \<^verbatim>\<open>__schema\<close> and
  the MCP server read them back through the same aggregation. A \<^verbatim>\<open>tools/call\<close> becomes an argument vector on the same
  prepared tree. Log lines go to the primary writer and to the Loki sink, which queues and posts them.

  \<^bold>\<open>Theories and sources\<close> (paths below \<^verbatim>\<open>src/\<close>).
  \<^item> \<^verbatim>\<open>Ax_Prelude\<close>: shared types, collections of facts and list lemmas. \<^verbatim>\<open>Go_Strings\<close>, \<^verbatim>\<open>Go_Strconv\<close>, \<^verbatim>\<open>Go_Json\<close>, \<^verbatim>\<open>Go_Text\<close>: what the
    sources use of the standard library (UTF-8, \<^verbatim>\<open>strings\<close>, \<^verbatim>\<open>strconv\<close>, \<^verbatim>\<open>encoding/json\<close>, \<^verbatim>\<open>bufio.Scanner\<close>, bounded reads).
  \<^item> \<^verbatim>\<open>Ax_Contract\<close> (\<^verbatim>\<open>contract/\<close>), \<^verbatim>\<open>Ax_Guard\<close> (\<^verbatim>\<open>guard.go\<close>, \<^verbatim>\<open>confirm.go\<close>), \<^verbatim>\<open>Ax_Config\<close> (\<^verbatim>\<open>config/\<close>, \<^verbatim>\<open>internal/config/\<close>),
    \<^verbatim>\<open>Ax_Hooks\<close> (\<^verbatim>\<open>internal/cli/\<close>, the hooks of \<^verbatim>\<open>execute.go\<close>), \<^verbatim>\<open>Ax_Execute\<close> (\<^verbatim>\<open>execute.go\<close>, \<^verbatim>\<open>warnings.go\<close>, \<^verbatim>\<open>version.go\<close>),
    \<^verbatim>\<open>Ax_Telemetry\<close> (\<^verbatim>\<open>telemetry.go\<close>, \<^verbatim>\<open>internal/telemetry/\<close>), \<^verbatim>\<open>Ax_Facade\<close> (options of \<^verbatim>\<open>Execute\<close>, \<^verbatim>\<open>http.go\<close>, \<^verbatim>\<open>grpc.go\<close>,
    \<^verbatim>\<open>config.go\<close>, \<^verbatim>\<open>axtest/\<close>), \<^verbatim>\<open>Ax_Io\<close> (JSON output and the locked stderr writer).
  \<^item> \<^verbatim>\<open>Log_Core\<close> (\<^verbatim>\<open>internal/logcore/\<close>), \<^verbatim>\<open>Loki_Streams\<close>, \<^verbatim>\<open>Loki_Writer\<close> and \<^verbatim>\<open>Loki_Drain\<close> (\<^verbatim>\<open>loki.go\<close>: push bodies, the queue and
    its goroutine, and \<^verbatim>\<open>Drain\<close> with any number of callers).
  \<^item> \<^verbatim>\<open>Schema_Template\<close>, \<^verbatim>\<open>Schema_Decl\<close>, \<^verbatim>\<open>Schema_Json\<close>, \<^verbatim>\<open>Schema_Convert\<close>, \<^verbatim>\<open>Schema_Enum\<close>, \<^verbatim>\<open>Schema_Tree\<close> (\<^verbatim>\<open>internal/schema/\<close>,
    \<^verbatim>\<open>schema/\<close>): templates, declarations and their encoding, flag types, enums, the reflected tree and locators.
    \<^verbatim>\<open>Llms_Txt\<close> (\<^verbatim>\<open>llmstxt.go\<close>).
  \<^item> \<^verbatim>\<open>Mcp_Tools\<close> (\<^verbatim>\<open>internal/mcp/\<close>), \<^verbatim>\<open>Mcp_Prompts\<close>, \<^verbatim>\<open>Mcp_Dispatch\<close>, \<^verbatim>\<open>Mcp_Server\<close> (\<^verbatim>\<open>internal/mcpserver/\<close>), \<^verbatim>\<open>Mcp_Command\<close> (\<^verbatim>\<open>mcp/\<close>,
    transports, registration, trace).
  \<^item> The gates under \<^verbatim>\<open>internal/cmd/\<close>: \<^verbatim>\<open>Cover_Check\<close>, \<^verbatim>\<open>Api_Verdict\<close>, \<^verbatim>\<open>Size_Check\<close>, \<^verbatim>\<open>Bench_Check\<close>, \<^verbatim>\<open>Doc_Cover\<close>, \<^verbatim>\<open>Dead_Check\<close> with
    \<^verbatim>\<open>Gate_Output\<close>; \<^verbatim>\<open>surfacecheck\<close> in \<^verbatim>\<open>Surface_Check\<close> (grid, presence, baseline), \<^verbatim>\<open>Surface_Audit\<close> (audit and run),
    \<^verbatim>\<open>Surface_Fields\<close> and \<^verbatim>\<open>Surface_Collect\<close> (the walk over a package).
  \<^item> \<^verbatim>\<open>Integration_App\<close>: the integration program of \<^verbatim>\<open>examples/integration/\<close>, whose commands compose the components.
  \<^item> \<^verbatim>\<open>internal/unreadfield/\<close> and \<^verbatim>\<open>slopcheck\<close>: \<^verbatim>\<open>Type_Graph\<close> (types as graphs, walks with visited lists), \<^verbatim>\<open>Unread_Ast\<close>,
    \<^verbatim>\<open>Unread_Escape\<close>, \<^verbatim>\<open>Unread_Analyze\<close>, \<^verbatim>\<open>Unread_Load\<close>, \<^verbatim>\<open>Unread_Run\<close>. The guards of \<^verbatim>\<open>internal/testutil/\<close>:
    \<^verbatim>\<open>Test_Imports\<close>, \<^verbatim>\<open>Test_Determinism\<close>, \<^verbatim>\<open>Test_Errorcodes\<close>.

  \<^bold>\<open>State and effects.\<close> Structs are records, errors are values of \<^typ>\<open>go_error\<close> in a sum, strings are lists of bytes as
  characters, maps whose order shows are association lists, and randomised map orders are quantified over. Shared
  mutable state is passed explicitly: the writers and the stderr of a run, the flags of a tree, the store of declared
  enums, the file system of an atomic write. Concurrency (the Loki queue and its callers) is a step relation; its
  theorems hold for every interleaving. \<^verbatim>\<open>int64\<close> products and sums that can wrap are words or written with the wrap.

  \<^bold>\<open>What the lemmas show.\<close> Every component has the behaviour of each operation on each branch; above that stand
  invariants (the queue, the enum store, the collector), refinements (declarations against a list, strict runs against
  plain runs, live against static tools), equivalences with plain definitions (the placeholder scanner, the field
  search), round trips (annotations, reports, baselines), and for every gate the condition under which it passes.
  The locales are the interfaces: a lossless buffer (\<^verbatim>\<open>Loki_Writer\<close>, \<^verbatim>\<open>Loki_Drain\<close>), readers (\<^verbatim>\<open>Ax_Config\<close>), codecs of
  declarations (\<^verbatim>\<open>Schema_Decl\<close>, \<^verbatim>\<open>Schema_Json\<close>), canonical flag texts (\<^verbatim>\<open>Schema_Convert\<close>) and the grid of combinations
  (\<^verbatim>\<open>Surface_Check\<close>).

  \<^bold>\<open>Bounds and fuel.\<close> The only loops that need fuel in the code have it in the code: JSON nests at most 10000 levels
  and locators at most 64. The element loop of \<^verbatim>\<open>locatorElementType\<close> may not end and is a \<^theory_text>\<open>partial_function\<close>; that it
  returns is a hypothesis where it is used and fails on a self-referential type. Walks over type graphs end because the
  list of visited types grows. The sizes are those of the code: lines of 64 KiB or 1 MiB in scanners, artifacts of
  8 MiB, listings of 64 MiB (\<^verbatim>\<open>surfacecheck\<close>) and 16 MiB (\<^verbatim>\<open>slopcheck\<close>, \<^verbatim>\<open>deadcheck\<close>), benchmarks of 4 MiB, a queue of 256
  lines and batches of 100.

  \<^bold>\<open>Not modelled.\<close> Code outside the repository is an argument with the contract it documents: Cobra's selection of a
  command, the protocol loops of the MCP SDK, \<^verbatim>\<open>net/http\<close>, OpenTelemetry exporters, zerolog's encoder, Hujson, \<^verbatim>\<open>go/types\<close>
  and \<^verbatim>\<open>go/packages\<close> (packages arrive as data), and the tools the gates run. Left out are package documentation, type
  aliases and one-line forwarders of the root package, \<^verbatim>\<open>main\<close> functions that only call the modelled \<^verbatim>\<open>run\<close>, random
  identifiers (\<^verbatim>\<open>id/\<close>), the two logging examples, and the \<^verbatim>\<open>go/analysis\<close> adapter of \<^verbatim>\<open>unreadfield/analyzer\<close>.
\<close>

end
